(* ===== verification/Prelude.thy ===== *)
theory Prelude
  imports Main
begin

text \<open>
  What every theory of the development shares: the representation of Python's
  strings, bytes, exceptions and scalar values, the error monad in which a
  \<open>raise\<close> is a value, the two contracts several components share (a codec
  whose decoder undoes its encoder, and a step that keeps an invariant), and
  the collections of rewrite rules the component proofs use.

  A Python \<open>str\<close> is the list of its code points (so lone surrogates and the
  non-ASCII texts of the sources can be written), a \<open>bytes\<close> object the list of
  its values; \<open>lit\<close> turns an ASCII literal into such a list.
\<close>

section \<open>Texts, bytes, scalar values, exceptions\<close>

type_synonym pystr = "nat list"
type_synonym bytes = "nat list"

definition lit :: "string \<Rightarrow> pystr" where
  "lit s = map of_char s"

text \<open>
  The scalar values of the protocol (\<open>Any\<close> in the sources: None, bool, int or
  str; a Python \<open>bool\<close> is kept apart from \<open>int\<close>).
\<close>

datatype pyval = PNone | PBool bool | PInt int | PStr pystr

text \<open>
  The exceptions the modelled code raises or lets through. \<open>ProtocolError\<close>
  carries its code, its message and the request id; \<open>ClosedBeforeFrame\<close> is the
  subclass \<open>ConnectionClosedBeforeFrame\<close>. \<open>ValueError\<close> also stands for its
  subclasses (UnicodeEncodeError, UnicodeDecodeError); \<open>HostError\<close> is an
  exception coming out of the host platform; \<open>OutOfFuel\<close> is not an exception of
  the program: it is the value of a recursion that was given too little fuel,
  and is shown never to be returned where fuel is used.
\<close>

datatype exn =
    ProtocolError pystr pystr "pystr option"
  | ClosedBeforeFrame pystr pystr "pystr option"
  | ValueError
  | OverflowError
  | TypeError
  | KeyError
  | AttributeError
  | LookupError
  | ConnectionError pystr
  | TimeoutError
  | OSError pystr
  | HostError pystr
  | OutOfFuel

type_synonym 'a res = "exn + 'a"

section \<open>The error monad\<close>

definition rbind :: "'a res \<Rightarrow> ('a \<Rightarrow> 'b res) \<Rightarrow> 'b res" where
  "rbind m f = (case m of Inl e \<Rightarrow> Inl e | Inr x \<Rightarrow> f x)"

text \<open>\<open>guard b e\<close>: raise \<open>e\<close> unless \<open>b\<close>.\<close>

definition guard :: "bool \<Rightarrow> exn \<Rightarrow> unit res" where
  "guard b e = (if b then Inr () else Inl e)"

text \<open>\<open>try: m except ValueError: raise e\<close>.\<close>

definition value_error_as :: "exn \<Rightarrow> 'a res \<Rightarrow> 'a res" where
  "value_error_as e m = (case m of Inl ValueError \<Rightarrow> Inl e | _ \<Rightarrow> m)"

named_theorems res_simps "rewriting in the error monad"

lemma rbind_Inl [simp, res_simps]: "rbind (Inl e) f = Inl e"
  by (simp add: rbind_def)

lemma rbind_Inr [simp, res_simps]: "rbind (Inr x) f = f x"
  by (simp add: rbind_def)

lemma rbind_eq_Inr_iff [res_simps]:
  "rbind m f = Inr y \<longleftrightarrow> (\<exists>x. m = Inr x \<and> f x = Inr y)"
  by (cases m) auto

lemma rbind_eq_Inl_iff [res_simps]:
  "rbind m f = Inl e \<longleftrightarrow> m = Inl e \<or> (\<exists>x. m = Inr x \<and> f x = Inl e)"
  by (cases m) auto

lemma rbind_cong [fundef_cong]:
  "m = m' \<Longrightarrow> (\<And>x. m' = Inr x \<Longrightarrow> f x = g x) \<Longrightarrow> rbind m f = rbind m' g"
  by (auto simp: rbind_def split: sum.split)

lemma value_error_as_Inr_iff [simp, res_simps]: "value_error_as e m = Inr x \<longleftrightarrow> m = Inr x"
  by (auto simp: value_error_as_def split: sum.splits exn.splits)

lemma value_error_as_Inr [simp]: "value_error_as e (Inr x) = Inr x"
  by simp

lemma value_error_as_Inl [simp]:
  "value_error_as e (Inl x) = (if x = ValueError then Inl e else Inl x)"
  by (cases x) (simp_all add: value_error_as_def)

lemma value_error_as_eq_Inl_iff [res_simps]:
  "value_error_as e m = Inl x \<longleftrightarrow> (m = Inl ValueError \<and> x = e) \<or> (m = Inl x \<and> x \<noteq> ValueError)"
  by (cases m) auto

lemma rbind_assoc: "rbind (rbind m f) g = rbind m (\<lambda>x. rbind (f x) g)"
  by (cases m) auto

lemma guard_True [simp, res_simps]: "guard True e = Inr ()"
  by (simp add: guard_def)

lemma guard_False [simp, res_simps]: "guard False e = Inl e"
  by (simp add: guard_def)

lemma guard_eq_Inr_iff [res_simps]: "guard b e = Inr u \<longleftrightarrow> b"
  by (simp add: guard_def)

lemma guard_eq_Inl_iff [res_simps]: "guard b e = Inl e' \<longleftrightarrow> \<not> b \<and> e' = e"
  by (auto simp: guard_def)

section \<open>Literals\<close>

named_theorems lit_simps "evaluation of literal texts"

lemma of_char_nat_eq_iff [simp, lit_simps]:
  "(of_char c = (of_char d :: nat)) \<longleftrightarrow> c = d"
  by simp

lemma lit_eq_iff [simp, lit_simps]: "lit s = lit t \<longleftrightarrow> s = t"
proof
  assume "lit s = lit t"
  then have "map (of_char :: char \<Rightarrow> nat) s = map of_char t" by (simp add: lit_def)
  moreover have "inj (of_char :: char \<Rightarrow> nat)" by (rule injI) simp
  ultimately show "s = t" by (metis inj_map_eq_map)
qed simp

lemma lit_Nil [simp, lit_simps]: "lit [] = []"
  by (simp add: lit_def)

lemma lit_eq_Nil_iff [simp, lit_simps]: "lit s = [] \<longleftrightarrow> s = []"
  by (simp add: lit_def)

lemma lit_append [lit_simps]: "lit (s @ t) = lit s @ lit t"
  by (simp add: lit_def)

lemma length_lit [simp, lit_simps]: "length (lit s) = length s"
  by (simp add: lit_def)

lemma set_lit [lit_simps]: "set (lit s) = of_char ` set s"
  by (simp add: lit_def)

section \<open>Dictionaries\<close>

text \<open>
  A Python dict with a fixed iteration order is an association list with
  distinct keys; \<open>dict_of_pairs\<close> is the lookup of a dict comprehension, where a
  later pair with the same key replaces an earlier one.
\<close>

definition dict_of_pairs :: "('k \<times> 'v) list \<Rightarrow> 'k \<Rightarrow> 'v option" where
  "dict_of_pairs ps = map_of (rev ps)"

lemma dict_of_pairs_Nil [simp]: "dict_of_pairs [] k = None"
  by (simp add: dict_of_pairs_def)

lemma dict_of_pairs_snoc:
  "dict_of_pairs (ps @ [(k, v)]) k' = (if k' = k then Some v else dict_of_pairs ps k')"
  by (simp add: dict_of_pairs_def)

lemma dict_of_pairs_Cons:
  "dict_of_pairs ((k, v) # ps) k' =
     (case dict_of_pairs ps k' of Some w \<Rightarrow> Some w | None \<Rightarrow> if k' = k then Some v else None)"
  by (auto simp: dict_of_pairs_def map_add_def split: option.splits)

lemma dict_of_pairs_append:
  "dict_of_pairs (ps @ qs) k =
     (case dict_of_pairs qs k of Some w \<Rightarrow> Some w | None \<Rightarrow> dict_of_pairs ps k)"
  by (simp add: dict_of_pairs_def map_add_def split: option.splits)

section \<open>Two shared contracts\<close>

text \<open>
  A codec: on the values \<open>ok\<close> admits, decoding an encoding gives the value back.
  The framing, the KDL documents, the UTF-8 texts and the settings files are all
  instances, each on the program's own functions.
\<close>

locale codec =
  fixes ok :: "'a \<Rightarrow> bool"
    and enc :: "'a \<Rightarrow> 'b"
    and dec :: "'b \<Rightarrow> 'a res"
  assumes dec_enc: "ok x \<Longrightarrow> dec (enc x) = Inr x"
begin

lemma enc_inj: "ok x \<Longrightarrow> ok y \<Longrightarrow> enc x = enc y \<Longrightarrow> x = y"
  using dec_enc by (metis sum.inject(2))

lemma inj_on_enc: "inj_on enc {x. ok x}"
  by (rule inj_onI) (auto intro: enc_inj)

lemma dec_not_error: "ok x \<Longrightarrow> dec (enc x) \<noteq> Inl e"
  by (simp add: dec_enc)

end

text \<open>A step function that keeps an invariant keeps it along every run.\<close>

locale stepper =
  fixes inv :: "'s \<Rightarrow> bool"
    and step :: "'e \<Rightarrow> 's \<Rightarrow> 's"
  assumes step_inv: "inv s \<Longrightarrow> inv (step e s)"
begin

lemma run_inv: "inv s \<Longrightarrow> inv (fold step es s)"
  by (induction es arbitrary: s) (auto intro: step_inv)

lemma run_prefix_inv: "inv s \<Longrightarrow> inv (fold step (take n es) s)"
  by (rule run_inv)

end

section \<open>Lists\<close>

lemma takeWhile_append_stop:
  "\<forall>x \<in> set xs. P x \<Longrightarrow> ys = [] \<or> \<not> P (hd ys) \<Longrightarrow> takeWhile P (xs @ ys) = xs"
  by (induction xs; cases ys) auto

lemma dropWhile_append_stop:
  "\<forall>x \<in> set xs. P x \<Longrightarrow> ys = [] \<or> \<not> P (hd ys) \<Longrightarrow> dropWhile P (xs @ ys) = ys"
  by (induction xs; cases ys) auto

lemma sum_list_map_cong_nat: "(\<And>x. x \<in> set xs \<Longrightarrow> f x = g x) \<Longrightarrow> (\<Sum>x\<leftarrow>xs. f x :: nat) = (\<Sum>x\<leftarrow>xs. g x)"
  by (induction xs) auto

end
