(* ===== verification/PyText.thy ===== *)
theory PyText
  imports Prelude Complex_Main
begin

text \<open>
  The string, bytes and number operations of Python that the sources use, as
  executable functions on code point lists: \<open>str.strip\<close>, ASCII case folding,
  decimal printing and reading, \<open>int(s, 16)\<close>, UTF-8, \<open>bytes.isdigit\<close>, base64
  and the rounding of floats. Character tables are those of Python 3.11 (Unicode
  14), the oldest version the project supports. Floats are exact rationals:
  IEEE rounding of a quotient or a sum is not modelled.
\<close>

section \<open>Characters\<close>

definition is_digit :: "nat \<Rightarrow> bool" where
  "is_digit c \<longleftrightarrow> 48 \<le> c \<and> c \<le> 57"

definition is_alpha :: "nat \<Rightarrow> bool" where
  "is_alpha c \<longleftrightarrow> (65 \<le> c \<and> c \<le> 90) \<or> (97 \<le> c \<and> c \<le> 122)"

text \<open>\<open>string.hexdigits\<close>.\<close>

definition is_hexdigit :: "nat \<Rightarrow> bool" where
  "is_hexdigit c \<longleftrightarrow> is_digit c \<or> (65 \<le> c \<and> c \<le> 70) \<or> (97 \<le> c \<and> c \<le> 102)"

text \<open>The characters \<open>str.strip()\<close> and \<open>str.split()\<close> treat as whitespace.\<close>

definition is_space :: "nat \<Rightarrow> bool" where
  "is_space c \<longleftrightarrow>
     (9 \<le> c \<and> c \<le> 13) \<or> (28 \<le> c \<and> c \<le> 32) \<or> c = 133 \<or> c = 160 \<or> c = 5760
     \<or> (8192 \<le> c \<and> c \<le> 8202) \<or> c = 8232 \<or> c = 8233 \<or> c = 8239 \<or> c = 8287 \<or> c = 12288"

definition strip :: "pystr \<Rightarrow> pystr" where
  "strip s = rev (dropWhile is_space (rev (dropWhile is_space s)))"

text \<open>
  \<open>str.lower()\<close>, as far as comparisons with ASCII words can tell: the capital
  letters, and the only two other characters whose lowercase form contains an
  ASCII letter (U+0130, which becomes two characters, and the Kelvin sign).
  Every other character stays what it is; its true lowercase form is not ASCII.
\<close>

definition lower_char :: "nat \<Rightarrow> pystr" where
  "lower_char c =
     (if 65 \<le> c \<and> c \<le> 90 then [c + 32]
      else if c = 304 then [105, 775]
      else if c = 8490 then [107]
      else [c])"

definition lower :: "pystr \<Rightarrow> pystr" where
  "lower s = concat (map lower_char s)"

text \<open>\<open>needle in text\<close>.\<close>

fun occurs_in :: "pystr \<Rightarrow> pystr \<Rightarrow> bool" where
  "occurs_in w [] \<longleftrightarrow> w = []"
| "occurs_in w (c # cs) \<longleftrightarrow> take (length w) (c # cs) = w \<or> occurs_in w cs"

section \<open>Decimal numbers\<close>

fun nat_str :: "nat \<Rightarrow> pystr" where
  "nat_str n = (if n < 10 then [48 + n] else nat_str (n div 10) @ [48 + n mod 10])"

declare nat_str.simps [simp del]

definition int_str :: "int \<Rightarrow> pystr" where
  "int_str i = (if i < 0 then 45 # nat_str (nat (- i)) else nat_str (nat i))"

text \<open>The format \<open>{n:02d}\<close> and, more generally, left padding with zeros.\<close>

definition pad0 :: "nat \<Rightarrow> pystr \<Rightarrow> pystr" where
  "pad0 w s = replicate (w - length s) 48 @ s"

definition fmt02 :: "nat \<Rightarrow> pystr" where
  "fmt02 n = pad0 2 (nat_str n)"

definition digits_val :: "pystr \<Rightarrow> nat" where
  "digits_val ds = foldl (\<lambda>a c. 10 * a + (c - 48)) 0 ds"

text \<open>
  \<open>int(s)\<close> on a text that matches \<open>[+-]?[0-9]+\<close>. Since Python 3.11 a text of more
  than 4300 digits is refused with ValueError.
\<close>

definition max_str_digits :: nat where
  "max_str_digits = 4300"

definition sign_split :: "pystr \<Rightarrow> bool \<times> pystr" where
  "sign_split s =
     (case s of [] \<Rightarrow> (False, [])
      | c # cs \<Rightarrow> if c = 45 then (True, cs) else if c = 43 then (False, cs) else (False, s))"

definition is_int_word :: "pystr \<Rightarrow> bool" where
  "is_int_word s \<longleftrightarrow> (let ds = snd (sign_split s) in ds \<noteq> [] \<and> list_all is_digit ds)"

definition int_of_dec :: "pystr \<Rightarrow> int res" where
  "int_of_dec s =
     (case sign_split s of (neg, ds) \<Rightarrow>
        if length ds > max_str_digits then Inl ValueError
        else Inr (if neg then - int (digits_val ds) else int (digits_val ds)))"

section \<open>\<open>int(s, 16)\<close> and \<open>chr\<close>\<close>

text \<open>
  \<open>int(s, 16)\<close> first maps the decimal digits of every script to ASCII and every
  space to a blank, strips blanks, and then takes an optional sign, an optional
  \<open>0x\<close>, and digits in which single underscores may separate digits.
\<close>

definition decimal_zeros :: "nat list" where
  "decimal_zeros = [48, 1632, 1776, 1984, 2406, 2534, 2662, 2790, 2918, 3046, 3174, 3302, 3430,
     3558, 3664, 3792, 3872, 4160, 4240, 6112, 6160, 6470, 6608, 6784, 6800, 6992, 7088, 7232,
     7248, 42528, 43216, 43264, 43472, 43504, 43600, 44016, 65296, 66720, 68912, 69734, 69872,
     69942, 70096, 70384, 70736, 70864, 71248, 71360, 71472, 71904, 72016, 72784, 73040, 73120,
     92768, 92864, 93008, 120782, 120792, 120802, 120812, 120822, 123200, 123632, 125264, 130032]"

definition ascii_decimal :: "nat \<Rightarrow> nat" where
  "ascii_decimal c =
     (case List.find (\<lambda>z. z \<le> c \<and> c \<le> z + 9) decimal_zeros of
        Some z \<Rightarrow> 48 + (c - z)
      | None \<Rightarrow> c)"

definition hex_val :: "nat \<Rightarrow> nat option" where
  "hex_val c =
     (if 48 \<le> c \<and> c \<le> 57 then Some (c - 48)
      else if 65 \<le> c \<and> c \<le> 70 then Some (c - 55)
      else if 97 \<le> c \<and> c \<le> 102 then Some (c - 87)
      else None)"

text \<open>Digits with separators: an underscore must stand between two digits.\<close>

fun hex_digits :: "nat \<Rightarrow> pystr \<Rightarrow> nat option" where
  "hex_digits a [] = Some a"
| "hex_digits a (c # cs) =
     (if c = 95 then
        (case cs of
           [] \<Rightarrow> None
         | d # ds \<Rightarrow> (case hex_val d of None \<Rightarrow> None | Some v \<Rightarrow> hex_digits (16 * a + v) ds))
      else (case hex_val c of None \<Rightarrow> None | Some v \<Rightarrow> hex_digits (16 * a + v) cs))"

definition hex_prefix_drop :: "pystr \<Rightarrow> pystr" where
  "hex_prefix_drop s =
     (case s of
        z # x # r \<Rightarrow>
          if z = 48 \<and> (x = 120 \<or> x = 88)
          then (case r of u # r' \<Rightarrow> if u = 95 then r' else r | [] \<Rightarrow> r)
          else s
      | _ \<Rightarrow> s)"

definition int_of_hex :: "pystr \<Rightarrow> int res" where
  "int_of_hex s =
     (let t = strip (map ascii_decimal s);
          (neg, u) = sign_split t;
          ds = hex_prefix_drop u
      in case ds of
           [] \<Rightarrow> Inl ValueError
         | c # _ \<Rightarrow>
             if c = 95 then Inl ValueError
             else (case hex_digits 0 ds of
                     None \<Rightarrow> Inl ValueError
                   | Some v \<Rightarrow> Inr (if neg then - int v else int v)))"

text \<open>
  \<open>chr(i)\<close>: ValueError outside the Unicode range, but OverflowError for a number
  that does not fit a C \<open>int\<close>.
\<close>

definition chr_of :: "int \<Rightarrow> nat res" where
  "chr_of i =
     (if i < - 2147483648 \<or> 2147483647 < i then Inl OverflowError
      else if i < 0 \<or> 1114111 < i then Inl ValueError
      else Inr (nat i))"

section \<open>UTF-8\<close>

definition utf8_char :: "nat \<Rightarrow> bytes res" where
  "utf8_char c =
     (if c < 128 then Inr [c]
      else if c < 2048 then Inr [192 + c div 64, 128 + c mod 64]
      else if 55296 \<le> c \<and> c \<le> 57343 then Inl ValueError
      else if c < 65536 then Inr [224 + c div 4096, 128 + c div 64 mod 64, 128 + c mod 64]
      else if c < 1114112 then
        Inr [240 + c div 262144, 128 + c div 4096 mod 64, 128 + c div 64 mod 64, 128 + c mod 64]
      else Inl ValueError)"

fun utf8_encode :: "pystr \<Rightarrow> bytes res" where
  "utf8_encode [] = Inr []"
| "utf8_encode (c # cs) =
     rbind (utf8_char c) (\<lambda>bs. rbind (utf8_encode cs) (\<lambda>rest. Inr (bs @ rest)))"

definition is_cont :: "nat \<Rightarrow> bool" where
  "is_cont b \<longleftrightarrow> 128 \<le> b \<and> b < 192"

text \<open>Strict decoding: no overlong forms, no surrogates, nothing above U+10FFFF.\<close>

fun utf8_decode :: "bytes \<Rightarrow> pystr res" where
  "utf8_decode [] = Inr []"
| "utf8_decode (b # bs) =
     (if b < 128 then rbind (utf8_decode bs) (\<lambda>r. Inr (b # r))
      else if 194 \<le> b \<and> b < 224 then
        (case bs of
           b1 # bs' \<Rightarrow>
             if is_cont b1
             then rbind (utf8_decode bs') (\<lambda>r. Inr (((b - 192) * 64 + (b1 - 128)) # r))
             else Inl ValueError
         | _ \<Rightarrow> Inl ValueError)
      else if 224 \<le> b \<and> b < 240 then
        (case bs of
           b1 # b2 # bs' \<Rightarrow>
             let v = (b - 224) * 4096 + (b1 - 128) * 64 + (b2 - 128) in
             if is_cont b1 \<and> is_cont b2 \<and> 2048 \<le> v \<and> \<not> (55296 \<le> v \<and> v \<le> 57343)
             then rbind (utf8_decode bs') (\<lambda>r. Inr (v # r))
             else Inl ValueError
         | _ \<Rightarrow> Inl ValueError)
      else if 240 \<le> b \<and> b < 245 then
        (case bs of
           b1 # b2 # b3 # bs' \<Rightarrow>
             let v = (b - 240) * 262144 + (b1 - 128) * 4096 + (b2 - 128) * 64 + (b3 - 128) in
             if is_cont b1 \<and> is_cont b2 \<and> is_cont b3 \<and> 65536 \<le> v \<and> v < 1114112
             then rbind (utf8_decode bs') (\<lambda>r. Inr (v # r))
             else Inl ValueError
         | _ \<Rightarrow> Inl ValueError)
      else Inl ValueError)"

declare utf8_decode.simps [simp del]

text \<open>Unicode scalar values: the code points UTF-8 can carry.\<close>

definition is_scalar :: "nat \<Rightarrow> bool" where
  "is_scalar c \<longleftrightarrow> c < 1114112 \<and> \<not> (55296 \<le> c \<and> c \<le> 57343)"

section \<open>Bytes, base64\<close>

text \<open>\<open>bytes.isdigit()\<close>: at least one byte, ASCII digits only.\<close>

definition bytes_isdigit :: "bytes \<Rightarrow> bool" where
  "bytes_isdigit bs \<longleftrightarrow> bs \<noteq> [] \<and> list_all is_digit bs"

definition b64_char :: "nat \<Rightarrow> nat" where
  "b64_char v =
     (if v < 26 then 65 + v else if v < 52 then 71 + v else if v < 62 then v - 4
      else if v = 62 then 45 else 95)"

text \<open>\<open>base64.urlsafe_b64encode\<close>, as text.\<close>

fun b64url :: "bytes \<Rightarrow> pystr" where
  "b64url [] = []"
| "b64url [a] = [b64_char (a div 4), b64_char (a mod 4 * 16), 61, 61]"
| "b64url [a, b] =
     [b64_char (a div 4), b64_char (a mod 4 * 16 + b div 16), b64_char (b mod 16 * 4), 61]"
| "b64url (a # b # c # r) =
     [b64_char (a div 4), b64_char (a mod 4 * 16 + b div 16),
      b64_char (b mod 16 * 4 + c div 64), b64_char (c mod 64)] @ b64url r"

section \<open>Rounding\<close>

text \<open>\<open>round(x)\<close>: to the nearest integer, halves to even.\<close>

definition round_half_even :: "rat \<Rightarrow> int" where
  "round_half_even x =
     (let f = \<lfloor>x\<rfloor>; d = x - of_int f in
      if d < 1 / 2 then f else if 1 / 2 < d then f + 1 else if even f then f else f + 1)"

text \<open>\<open>int(x)\<close> of a float: towards zero.\<close>

definition trunc_rat :: "rat \<Rightarrow> int" where
  "trunc_rat x = (if 0 \<le> x then \<lfloor>x\<rfloor> else \<lceil>x\<rceil>)"

text \<open>\<open>str(round(x, 1))\<close> of a non-negative float, from its number of tenths.\<close>

definition tenths_str :: "int \<Rightarrow> pystr" where
  "tenths_str k = int_str (k div 10) @ [46] @ nat_str (nat (k mod 10))"

section \<open>Decimal numbers: printing, reading, sizes\<close>

lemma is_digit_nat_str: "\<forall>c \<in> set (nat_str n). is_digit c"
proof (induction n rule: nat_str.induct)
  case (1 n)
  then show ?case
    by (subst nat_str.simps) (auto simp: is_digit_def)
qed

lemma nat_str_nonempty [simp]: "nat_str n \<noteq> []"
  by (subst nat_str.simps) simp

lemma digits_val_snoc: "digits_val (ds @ [c]) = 10 * digits_val ds + (c - 48)"
  by (simp add: digits_val_def)

lemma digits_val_bound: "\<forall>c \<in> set ds. is_digit c \<Longrightarrow> digits_val ds < 10 ^ length ds"
proof (induction ds rule: rev_induct)
  case (snoc c ds)
  then have "c - 48 \<le> 9" "digits_val ds < 10 ^ length ds" by (auto simp: is_digit_def)
  then show ?case by (simp add: digits_val_snoc)
qed (simp add: digits_val_def)

lemma digits_val_nat_str [simp]: "digits_val (nat_str n) = n"
proof (induction n rule: nat_str.induct)
  case (1 n)
  show ?case
  proof (cases "n < 10")
    case True
    then show ?thesis by (subst nat_str.simps) (simp add: digits_val_def)
  next
    case False
    with "1" have "digits_val (nat_str (n div 10)) = n div 10" by simp
    with False show ?thesis
      by (subst nat_str.simps) (simp add: digits_val_snoc)
  qed
qed

lemma digits_val_zeros: "digits_val (replicate k 48 @ ds) = digits_val ds"
  by (induction k) (simp_all add: digits_val_def)

lemma digits_val_pad0_nat_str [simp]: "digits_val (pad0 w (nat_str n)) = n"
  by (simp add: pad0_def digits_val_zeros)

lemma nat_str_length_le: "n < 10 ^ k \<Longrightarrow> 0 < k \<Longrightarrow> length (nat_str n) \<le> k"
proof (induction k arbitrary: n)
  case (Suc k)
  show ?case
  proof (cases "n < 10")
    case True
    then show ?thesis by (subst nat_str.simps) simp
  next
    case False
    with Suc.prems have "n div 10 < 10 ^ k" and "0 < k"
      by (auto simp: less_mult_imp_div_less) (cases k; simp)
    with Suc.IH have "length (nat_str (n div 10)) \<le> k" by simp
    with False show ?thesis by (subst nat_str.simps) simp
  qed
qed simp

lemma nat_str_single: "n < 10 \<Longrightarrow> nat_str n = [48 + n]"
  by (subst nat_str.simps) simp

lemma length_pad0 [simp]: "length s \<le> w \<Longrightarrow> length (pad0 w s) = w"
  by (simp add: pad0_def)

lemma is_digit_pad0: "\<forall>c \<in> set s. is_digit c \<Longrightarrow> \<forall>c \<in> set (pad0 w s). is_digit c"
  by (auto simp: pad0_def is_digit_def)

lemma fmt02_digits: "\<forall>c \<in> set (fmt02 n). is_digit c"
  unfolding fmt02_def by (intro is_digit_pad0 is_digit_nat_str)

lemma length_fmt02: "n < 100 \<Longrightarrow> length (fmt02 n) = 2"
  using nat_str_length_le [of n 2] by (simp add: fmt02_def)

lemma digits_val_fmt02 [simp]: "digits_val (fmt02 n) = n"
  by (simp add: fmt02_def)

lemma fmt02_two: "n < 100 \<Longrightarrow> fmt02 n = [48 + n div 10, 48 + n mod 10]"
proof -
  assume n: "n < 100"
  show ?thesis
  proof (cases "n < 10")
    case True
    then show ?thesis by (simp add: fmt02_def nat_str_single pad0_def)
  next
    case False
    with n have "n div 10 < 10" by auto
    with False have "nat_str n = [48 + n div 10, 48 + n mod 10]"
      by (subst nat_str.simps) (simp add: nat_str_single)
    then show ?thesis by (simp add: fmt02_def pad0_def)
  qed
qed

lemma is_digit_not_sign: "is_digit c \<Longrightarrow> c \<noteq> 45 \<and> c \<noteq> 43"
  by (auto simp: is_digit_def)

lemma sign_split_digits: "\<forall>c \<in> set ds. is_digit c \<Longrightarrow> sign_split ds = (False, ds)"
  by (cases ds) (auto simp: sign_split_def is_digit_not_sign)

lemma sign_split_nat_str [simp]: "sign_split (nat_str n) = (False, nat_str n)"
  by (rule sign_split_digits [OF is_digit_nat_str])

lemma sign_split_int_str:
  "sign_split (int_str i) = (i < 0, nat_str (nat \<bar>i\<bar>))"
  by (simp add: int_str_def) (simp add: sign_split_def)

lemma is_int_word_int_str [simp]: "is_int_word (int_str i)"
  using is_digit_nat_str by (simp add: is_int_word_def sign_split_int_str list_all_iff)

text \<open>Reading a printed number gives the number back, up to the digit limit.\<close>

lemma int_of_dec_int_str:
  assumes "\<bar>i\<bar> < 10 ^ max_str_digits"
  shows "int_of_dec (int_str i) = Inr i"
proof -
  from assms have "nat \<bar>i\<bar> < 10 ^ max_str_digits"
    by (simp add: nat_less_iff)
  then have "length (nat_str (nat \<bar>i\<bar>)) \<le> max_str_digits"
    by (rule nat_str_length_le) (simp add: max_str_digits_def)
  then show ?thesis
    by (simp add: int_of_dec_def sign_split_int_str)
qed

lemma small_int_limit: "\<bar>i\<bar> \<le> 2 ^ 64 \<Longrightarrow> \<bar>i\<bar> < (10::int) ^ max_str_digits"
proof -
  assume "\<bar>i\<bar> \<le> 2 ^ 64"
  also have "(2::int) ^ 64 < 10 ^ 20" by simp
  also have "(10::int) ^ 20 \<le> 10 ^ max_str_digits"
    by (rule power_increasing) (simp_all add: max_str_digits_def)
  finally show ?thesis .
qed

lemma int_str_hd: "hd (int_str i) = 45 \<or> is_digit (hd (int_str i))"
  using is_digit_nat_str [of "nat i"] by (cases "nat_str (nat i)") (auto simp: int_str_def)

lemma int_str_nonempty [simp]: "int_str i \<noteq> []"
  by (simp add: int_str_def)

lemma int_str_chars: "c \<in> set (int_str i) \<Longrightarrow> c = 45 \<or> is_digit c"
  using is_digit_nat_str by (auto simp: int_str_def split: if_splits)

section \<open>Stripping\<close>

lemma strip_id: "s = [] \<or> (\<not> is_space (hd s) \<and> \<not> is_space (last s)) \<Longrightarrow> strip s = s"
proof -
  assume a: "s = [] \<or> (\<not> is_space (hd s) \<and> \<not> is_space (last s))"
  have "dropWhile is_space s = s" using a by (cases s) auto
  moreover have "dropWhile is_space (rev s) = rev s"
    using a by (cases s rule: rev_cases) auto
  ultimately show ?thesis by (simp add: strip_def)
qed

lemma is_digit_not_space: "is_digit c \<Longrightarrow> \<not> is_space c"
  by (auto simp: is_digit_def is_space_def)

section \<open>UTF-8 round trip\<close>

lemma utf8_char_Inr_iff: "(\<exists>bs. utf8_char c = Inr bs) \<longleftrightarrow> is_scalar c"
  by (auto simp: utf8_char_def is_scalar_def)

lemma split_three: "(c::nat) div 4096 * 4096 + c div 64 mod 64 * 64 + c mod 64 = c"
proof -
  have "c div 4096 = c div 64 div 64" by (simp add: div_mult2_eq [symmetric])
  then show ?thesis
    using div_mult_mod_eq [of "c div 64" 64] div_mult_mod_eq [of c 64] by linarith
qed

lemma split_four:
  "(c::nat) div 262144 * 262144 + c div 4096 mod 64 * 4096 + c div 64 mod 64 * 64 + c mod 64 = c"
proof -
  have "c div 262144 = c div 4096 div 64" by (simp add: div_mult2_eq [symmetric])
  then show ?thesis
    using div_mult_mod_eq [of "c div 4096" 64] split_three [of c] by linarith
qed

lemma utf8_decode_char:
  assumes "utf8_char c = Inr bs"
  shows "utf8_decode (bs @ rest) = rbind (utf8_decode rest) (\<lambda>r. Inr (c # r))"
proof -
  consider (one) "c < 128" | (two) "128 \<le> c" "c < 2048"
    | (three) "2048 \<le> c" "c < 65536" "\<not> (55296 \<le> c \<and> c \<le> 57343)"
    | (four) "65536 \<le> c" "c < 1114112"
    using assms by (auto simp: utf8_char_def split: if_splits)
  then show ?thesis
  proof cases
    case one
    with assms show ?thesis by (auto simp: utf8_char_def utf8_decode.simps)
  next
    case two
    then have "2 \<le> c div 64" "c div 64 < 32" by auto
    with two assms show ?thesis
      by (auto simp: utf8_char_def utf8_decode.simps is_cont_def)
  next
    case three
    then have "c div 4096 < 16" by auto
    moreover have "c div 4096 * 4096 + c div 64 mod 64 * 64 + c mod 64 = c"
      by (rule split_three)
    ultimately show ?thesis using three assms
      by (auto simp: utf8_char_def utf8_decode.simps is_cont_def Let_def)
  next
    case four
    then have "c div 262144 < 5" by auto
    moreover have "c div 262144 * 262144 + c div 4096 mod 64 * 4096 + c div 64 mod 64 * 64 + c mod 64 = c"
      by (rule split_four)
    ultimately show ?thesis using four assms
      by (auto simp: utf8_char_def utf8_decode.simps is_cont_def Let_def)
  qed
qed

lemma utf8_decode_encode: "utf8_encode s = Inr bs \<Longrightarrow> utf8_decode bs = Inr s"
proof (induction s arbitrary: bs)
  case Nil
  then show ?case by (simp add: utf8_decode.simps)
next
  case (Cons c cs)
  then obtain b r where "utf8_char c = Inr b" "utf8_encode cs = Inr r" "bs = b @ r"
    by (auto simp: rbind_eq_Inr_iff)
  with Cons.IH show ?case by (simp add: utf8_decode_char)
qed

lemma utf8_encode_total: "list_all is_scalar s \<Longrightarrow> \<exists>bs. utf8_encode s = Inr bs"
proof (induction s)
  case (Cons c cs)
  then obtain b r where "utf8_char c = Inr b" "utf8_encode cs = Inr r"
    using utf8_char_Inr_iff by fastforce
  then show ?case by simp
qed simp

lemma utf8_encode_scalar: "utf8_encode s = Inr bs \<Longrightarrow> list_all is_scalar s"
  by (induction s arbitrary: bs) (auto simp: rbind_eq_Inr_iff utf8_char_Inr_iff [symmetric])

lemma utf8_encode_append:
  "utf8_encode (s @ t) =
     rbind (utf8_encode s) (\<lambda>a. rbind (utf8_encode t) (\<lambda>b. Inr (a @ b)))"
proof (induction s)
  case Nil
  then show ?case by (cases "utf8_encode t") auto
next
  case (Cons c cs)
  then show ?case
    by (cases "utf8_char c"; cases "utf8_encode cs"; cases "utf8_encode t") auto
qed

lemma utf8_encode_ascii: "\<forall>c \<in> set s. c < 128 \<Longrightarrow> utf8_encode s = Inr s"
  by (induction s) (auto simp: utf8_char_def)

text \<open>UTF-8 as a codec, on the texts that can be encoded at all.\<close>

definition utf8_bytes :: "pystr \<Rightarrow> bytes" where
  "utf8_bytes s = (case utf8_encode s of Inr bs \<Rightarrow> bs | Inl _ \<Rightarrow> [])"

interpretation utf8: codec "list_all is_scalar" utf8_bytes utf8_decode
proof unfold_locales
  fix s assume "list_all is_scalar s"
  then obtain bs where "utf8_encode s = Inr bs" using utf8_encode_total by blast
  then show "utf8_decode (utf8_bytes s) = Inr s"
    by (simp add: utf8_bytes_def utf8_decode_encode)
qed

lemma utf8_encode_bytes: "list_all is_scalar s \<Longrightarrow> utf8_encode s = Inr (utf8_bytes s)"
  using utf8_encode_total by (fastforce simp: utf8_bytes_def)

section \<open>Rounding\<close>

lemma round_half_even_of_int [simp]: "round_half_even (of_int i) = i"
  by (simp add: round_half_even_def)

lemma round_half_even_close: "\<bar>of_int (round_half_even x) - x\<bar> \<le> 1 / 2"
proof -
  define d where "d = x - of_int \<lfloor>x\<rfloor>"
  have "0 \<le> d" "d < 1" unfolding d_def by linarith+
  moreover have "of_int (round_half_even x) - x
      = (if d < 1 / 2 then - d else if 1 / 2 < d then 1 - d
         else if even \<lfloor>x\<rfloor> then - d else 1 - d)"
    by (simp add: round_half_even_def Let_def d_def)
  ultimately show ?thesis by auto
qed

lemma round_half_even_nonneg: "0 \<le> x \<Longrightarrow> 0 \<le> round_half_even x"
  by (auto simp: round_half_even_def Let_def)

lemma trunc_rat_of_int [simp]: "trunc_rat (of_int i) = i"
  by (simp add: trunc_rat_def)

end
