(* ===== verification/Calendar.thy ===== *)
theory Calendar
  imports PyText
begin

text \<open>
  Naive wall-clock dates and times, as the agent uses Python's \<open>datetime\<close>: dates of
  the proleptic Gregorian calendar in the years 1 to 9999, times of day, their
  lexicographic order, the day before and the day after (with the OverflowError
  Python raises at the ends of the range) and the number of microseconds a
  datetime stands for, from which differences are taken.
\<close>

section \<open>Dates, times of day, datetimes\<close>

datatype date = Date (year_of: nat) (month_of: nat) (day_of: nat)

datatype dtime = Time (hour: nat) (minute: nat)

datatype datetime =
  DateTime (date_of: date) (dt_hour: nat) (dt_minute: nat) (dt_second: nat) (dt_micro: nat)

definition is_leap :: "nat \<Rightarrow> bool" where
  "is_leap y \<longleftrightarrow> y mod 4 = 0 \<and> (y mod 100 \<noteq> 0 \<or> y mod 400 = 0)"

definition days_in_month :: "nat \<Rightarrow> nat \<Rightarrow> nat" where
  "days_in_month y m =
     (if m = 2 then (if is_leap y then 29 else 28)
      else if m = 4 \<or> m = 6 \<or> m = 9 \<or> m = 11 then 30 else 31)"

definition valid_date :: "date \<Rightarrow> bool" where
  "valid_date d \<longleftrightarrow>
     1 \<le> year_of d \<and> year_of d \<le> 9999 \<and> 1 \<le> month_of d \<and> month_of d \<le> 12
     \<and> 1 \<le> day_of d \<and> day_of d \<le> days_in_month (year_of d) (month_of d)"

definition valid_time :: "dtime \<Rightarrow> bool" where
  "valid_time t \<longleftrightarrow> hour t < 24 \<and> minute t < 60"

definition valid_datetime :: "datetime \<Rightarrow> bool" where
  "valid_datetime t \<longleftrightarrow>
     valid_date (date_of t) \<and> dt_hour t < 24 \<and> dt_minute t < 60 \<and> dt_second t < 60
     \<and> dt_micro t < 1000000"

section \<open>Python's ordering\<close>

instantiation date :: linorder
begin

definition less_eq_date :: "date \<Rightarrow> date \<Rightarrow> bool" where
  "less_eq_date a b \<longleftrightarrow>
     year_of a < year_of b \<or> (year_of a = year_of b \<and>
       (month_of a < month_of b \<or> (month_of a = month_of b \<and> day_of a \<le> day_of b)))"

definition less_date :: "date \<Rightarrow> date \<Rightarrow> bool" where
  "less_date a b \<longleftrightarrow>
     year_of a < year_of b \<or> (year_of a = year_of b \<and>
       (month_of a < month_of b \<or> (month_of a = month_of b \<and> day_of a < day_of b)))"

instance
  by standard (auto simp: less_eq_date_def less_date_def intro: date.expand)

end

instantiation datetime :: linorder
begin

definition less_eq_datetime :: "datetime \<Rightarrow> datetime \<Rightarrow> bool" where
  "less_eq_datetime a b \<longleftrightarrow>
     date_of a < date_of b \<or> (date_of a = date_of b \<and>
       (dt_hour a < dt_hour b \<or> (dt_hour a = dt_hour b \<and>
         (dt_minute a < dt_minute b \<or> (dt_minute a = dt_minute b \<and>
           (dt_second a < dt_second b \<or> (dt_second a = dt_second b \<and>
             dt_micro a \<le> dt_micro b)))))))"

definition less_datetime :: "datetime \<Rightarrow> datetime \<Rightarrow> bool" where
  "less_datetime a b \<longleftrightarrow> a \<le> b \<and> \<not> b \<le> (a :: datetime)"

instance
  by standard (auto simp: less_eq_datetime_def less_datetime_def intro: datetime.expand)

end

section \<open>Day arithmetic\<close>

definition prev_day :: "date \<Rightarrow> date res" where
  "prev_day d =
     (if 1 < day_of d then Inr (Date (year_of d) (month_of d) (day_of d - 1))
      else if 1 < month_of d then
        Inr (Date (year_of d) (month_of d - 1) (days_in_month (year_of d) (month_of d - 1)))
      else if 1 < year_of d then Inr (Date (year_of d - 1) 12 31)
      else Inl OverflowError)"

definition next_day :: "date \<Rightarrow> date res" where
  "next_day d =
     (if day_of d < days_in_month (year_of d) (month_of d)
      then Inr (Date (year_of d) (month_of d) (day_of d + 1))
      else if month_of d < 12 then Inr (Date (year_of d) (month_of d + 1) 1)
      else if year_of d < 9999 then Inr (Date (year_of d + 1) 1 1)
      else Inl OverflowError)"

text \<open>\<open>date.toordinal()\<close>.\<close>

definition days_before_year :: "nat \<Rightarrow> int" where
  "days_before_year y =
     (let p = y - 1 in int (p * 365 + p div 4) - int (p div 100) + int (p div 400))"

definition days_before_month :: "nat \<Rightarrow> nat \<Rightarrow> nat" where
  "days_before_month y m = sum_list (map (days_in_month y) [1..<m])"

definition toordinal :: "date \<Rightarrow> int" where
  "toordinal d =
     days_before_year (year_of d) + int (days_before_month (year_of d) (month_of d)) + int (day_of d)"

text \<open>Microseconds of a datetime; \<open>(a - b).total_seconds()\<close> is their difference.\<close>

definition dt_us :: "datetime \<Rightarrow> int" where
  "dt_us t =
     (((toordinal (date_of t) * 24 + int (dt_hour t)) * 60 + int (dt_minute t)) * 60
       + int (dt_second t)) * 1000000 + int (dt_micro t)"

definition seconds_between :: "datetime \<Rightarrow> datetime \<Rightarrow> rat" where
  "seconds_between a b = of_int (dt_us a - dt_us b) / 1000000"

definition day_us :: int where
  "day_us = 86400000000"

definition minute_us :: int where
  "minute_us = 60000000"

section \<open>Lemmas\<close>

lemma year_length:
  assumes "1 \<le> y"
  shows "days_before_year (Suc y) = days_before_year y + (if is_leap y then 366 else 365)"
proof -
  obtain n where n: "y = Suc n" using assms by (cases y) auto
  define p4 p100 p400 where "p4 \<longleftrightarrow> Suc n mod 4 = 0" and "p100 \<longleftrightarrow> Suc n mod 100 = 0"
    and "p400 \<longleftrightarrow> Suc n mod 400 = 0"
  have "100 dvd Suc n" if "400 dvd Suc n"
    using that by (rule dvd_trans [rotated]) simp
  moreover have "4 dvd Suc n" if "100 dvd Suc n"
    using that by (rule dvd_trans [rotated]) simp
  ultimately have imp: "p400 \<longrightarrow> p100" "p100 \<longrightarrow> p4"
    unfolding p4_def p100_def p400_def mod_eq_0_iff_dvd by blast+
  have "Suc n div 4 = n div 4 + (if p4 then 1 else 0)"
    "Suc n div 100 = n div 100 + (if p100 then 1 else 0)"
    "Suc n div 400 = n div 400 + (if p400 then 1 else 0)"
    by (simp_all only: div_Suc p4_def p100_def p400_def split: if_split) simp_all
  moreover have "is_leap y \<longleftrightarrow> p4 \<and> (\<not> p100 \<or> p400)"
    by (simp only: is_leap_def n p4_def p100_def p400_def)
  ultimately show ?thesis
    using imp unfolding n days_before_year_def Let_def diff_Suc_1
    by (cases p4; cases p100; cases p400) (simp_all only: if_True if_False simp_thms, simp_all)
qed

lemma days_before_year_mono: "1 \<le> y \<Longrightarrow> y \<le> z \<Longrightarrow> days_before_year y \<le> days_before_year z"
proof (induction z)
  case (Suc z)
  show ?case
  proof (cases "y = Suc z")
    case False
    with Suc have "1 \<le> z" "days_before_year y \<le> days_before_year z" by auto
    with year_length [of z] show ?thesis by (auto split: if_splits)
  qed simp
qed simp

lemma days_before_month_Suc:
  "1 \<le> m \<Longrightarrow> days_before_month y (Suc m) = days_before_month y m + days_in_month y m"
  by (simp add: days_before_month_def)

lemma days_before_month_mono: "1 \<le> m \<Longrightarrow> m \<le> k \<Longrightarrow> days_before_month y m \<le> days_before_month y k"
proof (induction k)
  case (Suc k)
  then show ?case by (cases "m = Suc k") (auto simp: days_before_month_Suc)
qed simp

lemma days_before_month_1 [simp]: "days_before_month y (Suc 0) = 0"
  by (simp add: days_before_month_def)

lemma days_of_year: "days_before_month y 13 = (if is_leap y then 366 else 365)"
  by (simp add: days_before_month_def upt_rec days_in_month_def)

lemma days_in_month_ge: "28 \<le> days_in_month y m"
  by (simp add: days_in_month_def)

lemma days_in_month_31 [simp]: "days_in_month y 12 = 31" "days_in_month y (Suc 0) = 31"
  by (simp_all add: days_in_month_def)

lemma prev_day_valid:
  assumes "valid_date d" and "prev_day d = Inr e"
  shows "valid_date e"
proof -
  have "1 \<le> days_in_month (year_of d) (month_of d - 1)"
    using days_in_month_ge [of "year_of d" "month_of d - 1"] by linarith
  then show ?thesis
    using assms unfolding prev_day_def
    by (cases "1 < day_of d"; cases "1 < month_of d"; cases "1 < year_of d")
      (auto simp: valid_date_def)
qed

lemma next_day_valid:
  assumes "valid_date d" and "next_day d = Inr e"
  shows "valid_date e"
proof -
  have "1 \<le> days_in_month (year_of d) (month_of d + 1)"
    using days_in_month_ge [of "year_of d" "month_of d + 1"] by linarith
  then show ?thesis
    using assms unfolding next_day_def
    by (cases "day_of d < days_in_month (year_of d) (month_of d)"; cases "month_of d < 12";
        cases "year_of d < 9999")
      (auto simp: valid_date_def)
qed

lemma toordinal_prev_day:
  assumes "valid_date d" and "prev_day d = Inr e"
  shows "toordinal e = toordinal d - 1"
proof -
  obtain y m k where d: "d = Date y m k" by (cases d)
  consider (day) "1 < k" | (month) "k = 1" "1 < m" | (year) "k = 1" "m = 1"
    using assms(1) by (fastforce simp: d valid_date_def)
  then show ?thesis
  proof cases
    case day
    with assms show ?thesis by (auto simp: d prev_day_def toordinal_def)
  next
    case month
    then obtain j where j: "m = Suc j" "1 \<le> j" by (cases m) auto
    with month assms show ?thesis
      by (auto simp: d prev_day_def toordinal_def days_before_month_Suc)
  next
    case year
    with assms(2) have y: "1 < y" and e: "e = Date (y - 1) 12 31"
      by (auto simp: d prev_day_def split: if_splits)
    have "days_before_month (y - 1) 13 = days_before_month (y - 1) 12 + 31"
      using days_before_month_Suc [of 12 "y - 1"] by (simp add: days_in_month_def)
    then show ?thesis
      using year_length [of "y - 1"] y year
      by (simp add: d e toordinal_def days_of_year split: if_splits)
  qed
qed

lemma prev_next_day:
  assumes "valid_date d" and "next_day d = Inr e"
  shows "prev_day e = Inr d"
proof -
  obtain y m k where d: "d = Date y m k" by (cases d)
  have v: "1 \<le> y" "1 \<le> m" "m \<le> 12" "1 \<le> k" "k \<le> days_in_month y m"
    using assms(1) by (simp_all add: d valid_date_def)
  consider (day) "k < days_in_month y m" | (month) "k = days_in_month y m" "m < 12"
    | (year) "k = days_in_month y m" "m = 12"
    using v by linarith
  then show ?thesis
    using assms(2) v by cases (auto simp: d next_day_def prev_day_def split: if_splits)
qed

lemma toordinal_next_day:
  assumes "valid_date d" and "next_day d = Inr e"
  shows "toordinal e = toordinal d + 1"
  using toordinal_prev_day [OF next_day_valid [OF assms] prev_next_day [OF assms]] by simp

lemma month_days_bound:
  "valid_date d \<Longrightarrow> days_before_month (year_of d) (month_of d) + day_of d
     \<le> days_before_month (year_of d) (Suc (month_of d))"
  by (simp add: valid_date_def days_before_month_Suc)

text \<open>On valid dates the ordinal number is strictly monotonic, so it orders them.\<close>

lemma toordinal_mono:
  assumes "valid_date a" and "valid_date b" and "a < b"
  shows "toordinal a < toordinal b"
proof -
  let ?ya = "year_of a" and ?yb = "year_of b" and ?ma = "month_of a" and ?mb = "month_of b"
  consider (year) "?ya < ?yb" | (month) "?ya = ?yb" "?ma < ?mb"
    | (day) "?ya = ?yb" "?ma = ?mb" "day_of a < day_of b"
    using assms(3) by (auto simp: less_date_def)
  then show ?thesis
  proof cases
    case year
    have "days_before_month ?ya ?ma + day_of a \<le> days_before_month ?ya 13"
      using month_days_bound [OF assms(1)] days_before_month_mono [of "Suc ?ma" 13 ?ya] assms(1)
      by (simp add: valid_date_def)
    then have "int (days_before_month ?ya ?ma) + int (day_of a) \<le> (if is_leap ?ya then 366 else 365)"
      by (simp add: days_of_year split: if_splits)
    moreover have "days_before_year (Suc ?ya) \<le> days_before_year ?yb"
      using year by (intro days_before_year_mono) auto
    moreover have "1 \<le> ?ya" "1 \<le> day_of b" using assms by (auto simp: valid_date_def)
    ultimately show ?thesis
      using year_length [of ?ya] by (simp add: toordinal_def split: if_splits)
  next
    case month
    have "days_before_month ?ya (Suc ?ma) \<le> days_before_month ?ya ?mb"
      using month by (intro days_before_month_mono) auto
    with month_days_bound [OF assms(1)] month assms(2) show ?thesis
      by (simp add: toordinal_def valid_date_def)
  next
    case day
    then show ?thesis by (simp add: toordinal_def)
  qed
qed

lemma toordinal_less_iff:
  "valid_date a \<Longrightarrow> valid_date b \<Longrightarrow> toordinal a < toordinal b \<longleftrightarrow> a < b"
  by (metis linorder_neq_iff not_less_iff_gr_or_eq toordinal_mono)

lemma toordinal_inj: "valid_date a \<Longrightarrow> valid_date b \<Longrightarrow> toordinal a = toordinal b \<Longrightarrow> a = b"
  by (metis less_irrefl linorder_neq_iff toordinal_mono)

lemma prev_day_less: "valid_date d \<Longrightarrow> prev_day d = Inr e \<Longrightarrow> e < d"
  using toordinal_prev_day [of d e] prev_day_valid [of d e] toordinal_less_iff [of e d] by simp

text \<open>
  A day, a time of day and the position within it: \<open>day_part\<close> is the microsecond of
  the day, so a datetime is its ordinal day plus a position below a whole day.
\<close>

definition day_part :: "datetime \<Rightarrow> int" where
  "day_part t =
     ((int (dt_hour t) * 60 + int (dt_minute t)) * 60 + int (dt_second t)) * 1000000 + int (dt_micro t)"

definition minute_of_day :: "datetime \<Rightarrow> nat" where
  "minute_of_day t = dt_hour t * 60 + dt_minute t"

lemma dt_us_split: "dt_us t = toordinal (date_of t) * day_us + day_part t"
  by (simp add: dt_us_def day_part_def day_us_def)

lemma day_part_minute:
  assumes "valid_datetime t"
  shows "int (minute_of_day t) * minute_us \<le> day_part t"
    and "day_part t < (int (minute_of_day t) + 1) * minute_us"
  using assms by (auto simp: day_part_def minute_of_day_def minute_us_def valid_datetime_def)

lemma minute_of_day_bound: "valid_datetime t \<Longrightarrow> minute_of_day t < 1440"
  by (auto simp: minute_of_day_def valid_datetime_def)

lemma day_part_bounds: "valid_datetime t \<Longrightarrow> 0 \<le> day_part t \<and> day_part t < day_us"
proof -
  assume t: "valid_datetime t"
  have "(int (minute_of_day t) + 1) * minute_us \<le> 1440 * minute_us"
    using minute_of_day_bound [OF t] by (intro mult_right_mono) (auto simp: minute_us_def)
  with day_part_minute [OF t] show ?thesis
    by (simp add: day_us_def minute_us_def)
qed

lemma day_part_less_iff:
  assumes "valid_datetime a" and "valid_datetime b"
  shows "date_of a = date_of b \<Longrightarrow> a < b \<longleftrightarrow> day_part a < day_part b"
  using assms
  by (auto simp: less_datetime_def less_eq_datetime_def day_part_def valid_datetime_def)

lemma dt_us_less_iff:
  assumes a: "valid_datetime a" and b: "valid_datetime b"
  shows "dt_us a < dt_us b \<longleftrightarrow> a < b"
proof -
  have va: "valid_date (date_of a)" and vb: "valid_date (date_of b)"
    using a b by (auto simp: valid_datetime_def)
  have pa: "0 \<le> day_part a" "day_part a < day_us" and pb: "0 \<le> day_part b" "day_part b < day_us"
    using day_part_bounds a b by auto
  consider "date_of a < date_of b" | "date_of a = date_of b" | "date_of b < date_of a"
    by fastforce
  then show ?thesis
  proof cases
    case 1
    then have "toordinal (date_of a) + 1 \<le> toordinal (date_of b)"
      using toordinal_mono [OF va vb] by simp
    then have "(toordinal (date_of a) + 1) * day_us \<le> toordinal (date_of b) * day_us"
      by (intro mult_right_mono) (auto simp: day_us_def)
    moreover have "a < b" using 1 by (auto simp: less_datetime_def less_eq_datetime_def)
    ultimately show ?thesis using pa pb by (simp add: dt_us_split algebra_simps)
  next
    case 2
    with day_part_less_iff [OF a b] show ?thesis by (simp add: dt_us_split)
  next
    case 3
    then have "toordinal (date_of b) + 1 \<le> toordinal (date_of a)"
      using toordinal_mono [OF vb va] by simp
    then have "(toordinal (date_of b) + 1) * day_us \<le> toordinal (date_of a) * day_us"
      by (intro mult_right_mono) (auto simp: day_us_def)
    moreover have "\<not> a < b" using 3 by (auto simp: less_datetime_def less_eq_datetime_def)
    ultimately show ?thesis using pa pb by (simp add: dt_us_split algebra_simps)
  qed
qed

lemma dt_us_le_iff: "valid_datetime a \<Longrightarrow> valid_datetime b \<Longrightarrow> dt_us a \<le> dt_us b \<longleftrightarrow> a \<le> b"
  using dt_us_less_iff [of b a] by (simp add: linorder_not_less [symmetric])

text \<open>The minute of the day, read off the microseconds.\<close>

lemma minute_of_day_us:
  assumes "valid_datetime t"
  shows "int (minute_of_day t) = dt_us t div minute_us mod 1440"
proof -
  have "day_part t div minute_us = int (minute_of_day t)"
    using day_part_minute [OF assms]
    by (intro div_pos_geq int_div_pos_eq [where r = "day_part t - int (minute_of_day t) * minute_us"])
      (auto simp: minute_us_def algebra_simps)
  moreover have "dt_us t div minute_us = toordinal (date_of t) * 1440 + day_part t div minute_us"
    by (simp add: dt_us_split day_us_def minute_us_def)
  ultimately show ?thesis
    using minute_of_day_bound [OF assms] by simp
qed

end
