(* ===== verification/Lock_Policy.thy ===== *)
theory Lock_Policy
  imports Calendar
begin

text \<open>
  \<open>src/kid_pc_monitor/lock_policy.py\<close>: the pure decisions of the agent. Which user is
  monitored, when the overnight curfew holds, whether the screen must be locked
  and why, and how many minutes are left. Times of day are the \<open>dtime\<close> of
  Calendar, minutes are exact rationals. Only \<open>usage_period_date\<close> and
  \<open>minutes_until_lock\<close> can fail: stepping over the ends of the calendar is an
  OverflowError.
\<close>

section \<open>Definitions\<close>

definition DEFAULT_WAKE_TIME :: dtime where
  "DEFAULT_WAKE_TIME = Time 7 0"

record lock_decision =
  should_lock :: bool
  reason :: pystr

definition no_lock :: lock_decision where
  "no_lock = \<lparr>should_lock = False, reason = []\<rparr>"

definition lock_for :: "pystr \<Rightarrow> lock_decision" where
  "lock_for why = \<lparr>should_lock = True, reason = why\<rparr>"

text \<open>\<open>x or []\<close> on an optional list.\<close>

definition or_empty :: "'a list option \<Rightarrow> 'a list" where
  "or_empty xs = (case xs of None \<Rightarrow> [] | Some l \<Rightarrow> l)"

definition should_monitor_user :: "pystr \<Rightarrow> pystr list option \<Rightarrow> pystr list option \<Rightarrow> bool" where
  "should_monitor_user current_user monitored exempt =
     (let monitored_users = or_empty monitored; exempt_users = or_empty exempt in
      if monitored_users \<noteq> [] then current_user \<in> set monitored_users
      else if exempt_users \<noteq> [] then current_user \<notin> set exempt_users
      else True)"

text \<open>The pattern \<open>([0-9]{1,2}):([0-9]{2})\<close>, matched against the whole text.\<close>

definition hhmm_match :: "pystr \<Rightarrow> (pystr \<times> pystr) option" where
  "hhmm_match s =
     (let h = takeWhile (\<lambda>c. c \<noteq> 58) s; r = dropWhile (\<lambda>c. c \<noteq> 58) s; m = drop 1 r in
      if r \<noteq> [] \<and> (length h = 1 \<or> length h = 2) \<and> list_all is_digit h
         \<and> length m = 2 \<and> list_all is_digit m
      then Some (h, m) else None)"

definition parse_time_hhmm :: "pystr \<Rightarrow> dtime res" where
  "parse_time_hhmm value =
     (case hhmm_match (strip value) of
        None \<Rightarrow> Inl ValueError
      | Some (h, m) \<Rightarrow>
          let hr = digits_val h; mi = digits_val m in
          if \<not> (hr \<le> 23 \<and> mi \<le> 59) then Inl ValueError
          else Inr (Time hr mi))"

definition minutes_since_midnight :: "dtime \<Rightarrow> nat" where
  "minutes_since_midnight t = hour t * 60 + minute t"

text \<open>The comparison \<open>(now.hour, now.minute) < (t.hour, t.minute)\<close>.\<close>

definition before_time :: "datetime \<Rightarrow> dtime \<Rightarrow> bool" where
  "before_time now t \<longleftrightarrow>
     dt_hour now < hour t \<or> (dt_hour now = hour t \<and> dt_minute now < minute t)"

definition usage_period_date :: "datetime \<Rightarrow> dtime \<Rightarrow> date res" where
  "usage_period_date now wake_time =
     (if before_time now wake_time then prev_day (date_of now) else Inr (date_of now))"

definition is_in_bedtime_curfew :: "datetime \<Rightarrow> dtime \<Rightarrow> dtime \<Rightarrow> bool" where
  "is_in_bedtime_curfew now bed_time wake_time =
     (let now_m = dt_hour now * 60 + dt_minute now;
          bed_m = minutes_since_midnight bed_time;
          wake_m = minutes_since_midnight wake_time
      in if bed_m = wake_m then False
         else if bed_m > wake_m then now_m \<ge> bed_m \<or> now_m < wake_m
         else bed_m \<le> now_m \<and> now_m < wake_m)"

definition format_hhmm :: "dtime \<Rightarrow> pystr" where
  "format_hhmm t = fmt02 (hour t) @ [58] @ fmt02 (minute t)"

definition allowance_label :: "rat \<Rightarrow> pystr" where
  "allowance_label eff =
     (let whole = trunc_rat eff in
      if eff \<noteq> of_int whole then tenths_str (round_half_even (eff * 10)) else int_str whole)"

text \<open>
  The two conditions that lock a monitored screen without a parent's lock: being
  inside the curfew, and having used up the allowance.
\<close>

definition in_curfew :: "datetime \<Rightarrow> dtime option \<Rightarrow> dtime \<Rightarrow> bool" where
  "in_curfew now bed_time wake_time =
     (case bed_time of None \<Rightarrow> False | Some bed \<Rightarrow> is_in_bedtime_curfew now bed wake_time)"

definition allowance_used_up :: "rat option \<Rightarrow> rat \<Rightarrow> bool" where
  "allowance_used_up effective accumulated =
     (case effective of None \<Rightarrow> False | Some eff \<Rightarrow> eff \<le> accumulated)"

definition lock_decision ::
  "datetime \<Rightarrow> dtime option \<Rightarrow> rat option \<Rightarrow> rat \<Rightarrow> bool \<Rightarrow> bool \<Rightarrow> dtime \<Rightarrow> lock_decision" where
  "lock_decision now bed_time effective accumulated monitor_user manual_lock_active wake_time =
     (if \<not> monitor_user then no_lock
      else if manual_lock_active then lock_for (lit ''Manual lock requested'')
      else if in_curfew now bed_time wake_time then
        (if before_time now wake_time
         then lock_for (lit ''Before wake-up time '' @ format_hhmm wake_time)
         else lock_for (lit ''Past bedtime '' @ format_hhmm (the bed_time)))
      else if allowance_used_up effective accumulated then
        lock_for (lit ''Daily allowance of '' @ allowance_label (the effective)
                  @ lit '' minutes reached'')
      else no_lock)"

text \<open>
  \<open>now.replace(hour=..., minute=..., second=0, microsecond=0)\<close>, moved to the next
  day when it is not after \<open>now\<close>.
\<close>

definition next_bed_datetime :: "datetime \<Rightarrow> dtime \<Rightarrow> datetime res" where
  "next_bed_datetime now bed =
     (let b = DateTime (date_of now) (hour bed) (minute bed) 0 0 in
      if b \<le> now
      then rbind (next_day (date_of now)) (\<lambda>d. Inr (DateTime d (hour bed) (minute bed) 0 0))
      else Inr b)"

definition minutes_until_lock ::
  "datetime \<Rightarrow> dtime option \<Rightarrow> rat option \<Rightarrow> rat \<Rightarrow> bool \<Rightarrow> bool \<Rightarrow> dtime \<Rightarrow> rat option res" where
  "minutes_until_lock now bed_time effective accumulated monitor_user manual_lock_active wake_time =
     (if \<not> monitor_user then Inr None
      else if should_lock (lock_decision now bed_time effective accumulated monitor_user
                             manual_lock_active wake_time)
      then Inr (Some 0)
      else
        rbind
          (case bed_time of
             None \<Rightarrow> Inr None
           | Some bed \<Rightarrow>
               rbind (next_bed_datetime now bed)
                 (\<lambda>b. Inr (Some (seconds_between b now / 60))))
          (\<lambda>min_remaining.
             Inr (case effective of
                    None \<Rightarrow> min_remaining
                  | Some eff \<Rightarrow>
                      (let rem = eff - accumulated in
                       case min_remaining of
                         None \<Rightarrow> Some rem
                       | Some m \<Rightarrow> if rem < m then Some rem else Some m))))"

definition brief_enforcement_reason :: "pystr \<Rightarrow> pystr" where
  "brief_enforcement_reason full_reason =
     (let low = lower full_reason in
      if occurs_in (lit ''before wake-up'') low then lit ''before wake-up''
      else if occurs_in (lit ''past bedtime'') low then lit ''past bedtime''
      else if occurs_in (lit ''daily allowance'') low then lit ''daily limit reached''
      else full_reason)"

definition enforcement_state ::
  "datetime \<Rightarrow> dtime option \<Rightarrow> rat option \<Rightarrow> rat \<Rightarrow> bool \<Rightarrow> dtime \<Rightarrow> bool \<times> pystr option" where
  "enforcement_state now bed_time effective accumulated monitor_user wake_time =
     (let decision = lock_decision now bed_time effective accumulated monitor_user False wake_time in
      if \<not> should_lock decision then (False, None)
      else (True, Some (brief_enforcement_reason (reason decision))))"

text \<open>The dash of \<open>Locked \<dots>\<close> is U+2014.\<close>

definition locked_because :: "pystr \<Rightarrow> pystr" where
  "locked_because why = lit ''Locked '' @ [8212] @ lit '' '' @ why"

definition format_access_status :: "bool \<Rightarrow> bool \<Rightarrow> pystr option \<Rightarrow> bool \<Rightarrow> pystr" where
  "format_access_status manual_lock enforcement_active enforcement_reason screen_locked =
     (if manual_lock \<and> \<not> enforcement_active then locked_because (lit ''manual lock'')
      else if enforcement_active then
        locked_because
          (case enforcement_reason of
             None \<Rightarrow> lit ''enforcement active''
           | Some why \<Rightarrow> if why = [] then lit ''enforcement active'' else why)
      else if screen_locked then lit ''Screen locked''
      else lit ''Unlocked'')"

section \<open>Times of day\<close>

lemma format_hhmm_shape:
  "valid_time t \<Longrightarrow>
     format_hhmm t = [48 + hour t div 10, 48 + hour t mod 10, 58, 48 + minute t div 10, 48 + minute t mod 10]"
  by (simp add: format_hhmm_def valid_time_def fmt02_two)

lemma strip_format_hhmm [simp]: "valid_time t \<Longrightarrow> strip (format_hhmm t) = format_hhmm t"
  by (rule strip_id) (auto simp: format_hhmm_shape is_space_def valid_time_def)

lemma hhmm_match_format: "valid_time t \<Longrightarrow> hhmm_match (format_hhmm t) = Some (fmt02 (hour t), fmt02 (minute t))"
  by (auto simp: format_hhmm_shape hhmm_match_def is_digit_def fmt02_two valid_time_def Let_def)

lemma parse_format_hhmm: "valid_time t \<Longrightarrow> parse_time_hhmm (format_hhmm t) = Inr t"
  by (simp add: parse_time_hhmm_def hhmm_match_format) (auto simp: valid_time_def intro: dtime.expand)

lemma parse_time_hhmm_valid: "parse_time_hhmm s = Inr t \<Longrightarrow> valid_time t"
  by (auto simp: parse_time_hhmm_def valid_time_def Let_def split: option.splits if_splits)

text \<open>Times of day as a codec: what the agent prints it reads back.\<close>

interpretation hhmm: codec valid_time format_hhmm parse_time_hhmm
  by unfold_locales (rule parse_format_hhmm)

lemma time_of_minutes: "valid_time t \<Longrightarrow> minutes_since_midnight t < 1440"
  by (auto simp: valid_time_def minutes_since_midnight_def)

lemma minutes_inj:
  assumes "valid_time s" and "valid_time t" and "minutes_since_midnight s = minutes_since_midnight t"
  shows "s = t"
proof -
  have m: "hour s * 60 + minute s = hour t * 60 + minute t" "minute s < 60" "minute t < 60"
    using assms by (auto simp: valid_time_def minutes_since_midnight_def)
  then have "(hour s * 60 + minute s) div 60 = hour s" "(hour t * 60 + minute t) div 60 = hour t"
    by simp_all
  with m(1) have "hour s = hour t \<and> minute s = minute t" by simp
  then show ?thesis by (simp add: dtime.expand)
qed

lemma before_time_iff:
  "valid_datetime now \<Longrightarrow> valid_time t \<Longrightarrow>
     before_time now t \<longleftrightarrow> minute_of_day now < minutes_since_midnight t"
  by (auto simp: before_time_def minute_of_day_def minutes_since_midnight_def valid_datetime_def
      valid_time_def)

section \<open>The curfew as a circular interval\<close>

lemma mod_1440_diff:
  "a < 1440 \<Longrightarrow> b < 1440 \<Longrightarrow>
     (int a - int b) mod 1440 = (if b \<le> a then int a - int b else int a - int b + 1440)"
proof -
  assume "a < 1440" "b < 1440"
  then show ?thesis
    by (cases "b \<le> a") (auto simp: mod_pos_pos_trivial minus_mod_eq_div_mult
        intro!: int_mod_pos_eq [of _ 1440 "-1"] mod_pos_pos_trivial)
qed

lemma curfew_mod:
  assumes "valid_datetime now" and "valid_time bed" and "valid_time wake"
  shows "is_in_bedtime_curfew now bed wake \<longleftrightarrow>
    (int (minute_of_day now) - int (minutes_since_midnight bed)) mod 1440
      < (int (minutes_since_midnight wake) - int (minutes_since_midnight bed)) mod 1440"
  using minute_of_day_bound [OF assms(1)] time_of_minutes [OF assms(2)] time_of_minutes [OF assms(3)]
  by (auto simp: is_in_bedtime_curfew_def mod_1440_diff Let_def minute_of_day_def [symmetric])

section \<open>The decision\<close>

lemma no_lock_simps [simp]: "should_lock no_lock = False" "reason no_lock = []"
  by (simp_all add: no_lock_def)

lemma lock_for_simps [simp]: "should_lock (lock_for w) = True" "reason (lock_for w) = w"
  by (simp_all add: lock_for_def)

lemma should_lock_iff:
  "should_lock (lock_decision now bed eff acc monitor manual wake) \<longleftrightarrow>
     monitor \<and> (manual \<or> in_curfew now bed wake \<or> allowance_used_up eff acc)"
  by (simp add: lock_decision_def)

section \<open>The usage period\<close>

definition day_start :: "date \<Rightarrow> dtime \<Rightarrow> int" where
  "day_start d wake = toordinal d * day_us + int (minutes_since_midnight wake) * minute_us"

lemma usage_period_valid:
  "valid_datetime now \<Longrightarrow> usage_period_date now wake = Inr d \<Longrightarrow> valid_date d"
  by (auto simp: usage_period_date_def valid_datetime_def prev_day_valid split: if_splits)

lemma usage_period_window:
  assumes now: "valid_datetime now" and wake: "valid_time wake"
    and d: "usage_period_date now wake = Inr d"
  shows "day_start d wake \<le> dt_us now \<and> dt_us now < day_start d wake + day_us"
proof -
  let ?w = "minutes_since_midnight wake" and ?m = "minute_of_day now"
  have vd: "valid_date (date_of now)" using now by (simp add: valid_datetime_def)
  have part: "int ?m * minute_us \<le> day_part now" "day_part now < (int ?m + 1) * minute_us"
    "day_part now < day_us" "0 \<le> day_part now"
    using day_part_minute [OF now] day_part_bounds [OF now] by auto
  have w: "0 \<le> int ?w * minute_us" "int ?w * minute_us < day_us"
    using time_of_minutes [OF wake] by (auto simp: minute_us_def day_us_def)
  show ?thesis
  proof (cases "before_time now wake")
    case True
    then have "(int ?m + 1) * minute_us \<le> int ?w * minute_us"
      using before_time_iff [OF now wake] by (intro mult_right_mono) (auto simp: minute_us_def)
    moreover have "toordinal (date_of now) = toordinal d + 1"
      using d True toordinal_prev_day [OF vd] by (simp add: usage_period_date_def)
    ultimately show ?thesis
      using part w by (simp add: day_start_def dt_us_split algebra_simps)
  next
    case False
    then have "int ?w * minute_us \<le> int ?m * minute_us"
      using before_time_iff [OF now wake] by (intro mult_right_mono) (auto simp: minute_us_def)
    moreover have "d = date_of now" using d False by (simp add: usage_period_date_def)
    ultimately show ?thesis
      using part w by (simp add: day_start_def dt_us_split)
  qed
qed

lemma usage_period_mono:
  assumes "valid_datetime a" "valid_datetime b" "valid_time wake" "a \<le> b"
    and "usage_period_date a wake = Inr da" "usage_period_date b wake = Inr db"
  shows "da \<le> db"
proof -
  have "day_start da wake < day_start db wake + day_us"
    using usage_period_window [OF assms(1,3,5)] usage_period_window [OF assms(2,3,6)]
      dt_us_le_iff [OF assms(1,2)] assms(4) by linarith
  then have "toordinal da < toordinal db + 1"
    by (simp add: day_start_def day_us_def)
  then have "\<not> toordinal db < toordinal da" by simp
  with toordinal_less_iff usage_period_valid assms show ?thesis
    by (metis linorder_not_less)
qed

section \<open>Minutes until the lock\<close>

lemma us_on_minute: "dt_us (DateTime d (hour t) (minute t) 0 0) = day_start d t"
  by (simp add: dt_us_def day_start_def day_us_def minute_us_def minutes_since_midnight_def)

lemma next_bed_window:
  assumes now: "valid_datetime now" and bed: "valid_time bed"
    and b: "next_bed_datetime now bed = Inr b"
  shows "valid_datetime b \<and> dt_us now < dt_us b \<and> dt_us b \<le> dt_us now + day_us
    \<and> dt_us b mod minute_us = 0 \<and> dt_us b div minute_us mod 1440 = int (minutes_since_midnight bed)"
proof -
  let ?b0 = "DateTime (date_of now) (hour bed) (minute bed) 0 0"
  have v0: "valid_datetime ?b0" using now bed by (simp add: valid_datetime_def valid_time_def)
  have vd: "valid_date (date_of now)" using now by (simp add: valid_datetime_def)
  obtain d where d: "b = DateTime d (hour bed) (minute bed) 0 0" "valid_date d"
    and od: "toordinal d = toordinal (date_of now) + (if ?b0 \<le> now then 1 else 0)"
    using b vd by (auto simp: next_bed_datetime_def Let_def rbind_eq_Inr_iff toordinal_next_day
        next_day_valid split: if_splits)
  have us: "dt_us b = dt_us ?b0 + (if ?b0 \<le> now then day_us else 0)"
    unfolding d(1) us_on_minute by (simp add: day_start_def od algebra_simps)
  have "\<bar>dt_us ?b0 - dt_us now\<bar> < day_us"
    using day_part_bounds [OF v0] day_part_bounds [OF now]
    by (simp add: dt_us_split abs_less_iff)
  then have "dt_us now < dt_us b \<and> dt_us b \<le> dt_us now + day_us"
    using us dt_us_le_iff [OF v0 now] by (auto split: if_splits)
  moreover have "dt_us b = (toordinal d * 1440 + int (minutes_since_midnight bed)) * minute_us"
    unfolding d(1) us_on_minute by (simp add: day_start_def day_us_def minute_us_def)
  then have "dt_us b mod minute_us = 0"
    and "dt_us b div minute_us mod 1440 = int (minutes_since_midnight bed)"
    using time_of_minutes [OF bed] by (simp_all add: minute_us_def)
  moreover have "valid_datetime b"
    using d bed by (simp add: valid_datetime_def valid_time_def)
  ultimately show ?thesis by blast
qed

lemma mod_before:
  "0 < b - t \<Longrightarrow> b - t \<le> m \<Longrightarrow> (t - b) mod m = t - b + (m::int)"
proof -
  assume "0 < b - t" "b - t \<le> m"
  then have "(t - b + m) mod m = t - b + m" by (intro mod_pos_pos_trivial) auto
  then show ?thesis by simp
qed

text \<open>
  Between \<open>now\<close> and the next bed time the curfew can only end, not begin.
\<close>

lemma curfew_not_entered:
  assumes now: "valid_datetime now" and t: "valid_datetime t"
    and bed: "valid_time bed" and wake: "valid_time wake"
    and b: "next_bed_datetime now bed = Inr b"
    and out: "\<not> is_in_bedtime_curfew now bed wake"
    and le: "dt_us now \<le> dt_us t" and lt: "dt_us t < dt_us b"
  shows "\<not> is_in_bedtime_curfew t bed wake"
proof -
  let ?n = "dt_us now div minute_us" and ?t = "dt_us t div minute_us"
  let ?bm = "int (minutes_since_midnight bed)"
  note w = next_bed_window [OF now bed b]
  define q where "q = dt_us b div minute_us"
  have q: "dt_us b = q * minute_us" and qm: "q mod 1440 = ?bm"
    using w by (auto simp: q_def)
  have "?n < q" "?t < q" "q - 1440 \<le> ?n"
    using w lt unfolding q day_us_def minute_us_def by linarith+
  moreover have "?n \<le> ?t" using le by (simp add: minute_us_def zdiv_mono1)
  moreover have m: "(x mod 1440 - ?bm) mod 1440 = (x - q) mod 1440" for x
    unfolding qm [symmetric] by (rule mod_diff_eq)
  ultimately show ?thesis
    using out by (simp add: curfew_mod [OF _ bed wake] now t minute_of_day_us m mod_before)
qed

text \<open>What \<open>minutes_until_lock\<close> returned, when nothing locks yet.\<close>

lemma minutes_until_lock_cases:
  assumes "minutes_until_lock now bed eff acc True manual wake = Inr (Some m)"
    and "\<not> should_lock (lock_decision now bed eff acc True manual wake)"
  shows "(\<forall>b bd. bed = Some b \<and> next_bed_datetime now b = Inr bd \<longrightarrow> m \<le> seconds_between bd now / 60)
    \<and> (\<forall>e. eff = Some e \<longrightarrow> m \<le> e - acc)
    \<and> ((\<exists>b bd. bed = Some b \<and> next_bed_datetime now b = Inr bd \<and> m = seconds_between bd now / 60)
       \<or> (\<exists>e. eff = Some e \<and> m = e - acc))
    \<and> (\<forall>b. bed = Some b \<longrightarrow> (\<exists>bd. next_bed_datetime now b = Inr bd))"
  using assms
  by (cases bed; cases eff)
    (auto simp: minutes_until_lock_def rbind_eq_Inr_iff Let_def split: if_splits)

lemma minutes_zero_if_locked:
  "should_lock (lock_decision now bed eff acc True manual wake) \<Longrightarrow>
     minutes_until_lock now bed eff acc True manual wake = Inr (Some 0)"
  by (simp add: minutes_until_lock_def)

lemma seconds_between_less_iff:
  "seconds_between a c / 60 < seconds_between b c / 60 \<longleftrightarrow> dt_us a < dt_us b"
  by (simp add: seconds_between_def divide_less_cancel)

lemma seconds_between_nonneg: "dt_us c \<le> dt_us a \<Longrightarrow> 0 \<le> seconds_between a c"
  by (simp add: seconds_between_def)

lemma no_lock_before_prediction:
  assumes now: "valid_datetime now" and t: "valid_datetime t"
    and bed: "\<And>b. bed = Some b \<Longrightarrow> valid_time b" and wake: "valid_time wake"
    and m: "minutes_until_lock now bed eff acc True manual wake = Inr (Some m)"
    and le: "now \<le> t" and lt: "seconds_between t now / 60 < m"
    and acc: "acc' \<le> acc + seconds_between t now / 60"
  shows "\<not> should_lock (lock_decision t bed eff acc' True manual wake)"
proof -
  have us: "dt_us now \<le> dt_us t" using dt_us_le_iff [OF now t] le by simp
  have unlocked: "\<not> should_lock (lock_decision now bed eff acc True manual wake)"
    using minutes_zero_if_locked m lt seconds_between_nonneg [OF us] by force
  note c = minutes_until_lock_cases [OF m unlocked]
  have "\<not> is_in_bedtime_curfew t b wake" if b: "bed = Some b" for b
  proof -
    obtain bd where bd: "next_bed_datetime now b = Inr bd" using c b by blast
    then have "dt_us t < dt_us bd"
      using c b lt seconds_between_less_iff by (metis order_less_le_trans)
    moreover have "\<not> is_in_bedtime_curfew now b wake"
      using unlocked b by (simp add: should_lock_iff in_curfew_def)
    ultimately show ?thesis
      using curfew_not_entered [OF now t bed [OF b] wake bd] us by blast
  qed
  moreover have "\<not> e \<le> acc'" if "eff = Some e" for e
    using c that lt acc by force
  ultimately show ?thesis
    using unlocked
    by (auto simp: should_lock_iff in_curfew_def allowance_used_up_def split: option.splits)
qed

lemma curfew_at_bed_time:
  assumes "valid_datetime b" and bed: "valid_time bed" and wake: "valid_time wake"
    and "dt_us b div minute_us mod 1440 = int (minutes_since_midnight bed)" and "bed \<noteq> wake"
  shows "is_in_bedtime_curfew b bed wake"
proof -
  have "minutes_since_midnight bed \<noteq> minutes_since_midnight wake"
    using assms(5) minutes_inj [OF bed wake] by blast
  then show ?thesis
    using assms(4) minute_of_day_us [OF assms(1)] time_of_minutes [OF bed] time_of_minutes [OF wake]
    by (simp add: curfew_mod [OF assms(1) bed wake] mod_1440_diff)
qed

lemma lock_at_prediction:
  assumes now: "valid_datetime now" and t: "valid_datetime t"
    and bed: "\<And>b. bed = Some b \<Longrightarrow> valid_time b \<and> b \<noteq> wake" and wake: "valid_time wake"
    and m: "minutes_until_lock now bed eff acc True manual wake = Inr (Some m)"
    and at: "seconds_between t now / 60 = m" and acc: "acc + m \<le> acc'"
  shows "should_lock (lock_decision t bed eff acc' True manual wake)"
proof (cases "should_lock (lock_decision now bed eff acc True manual wake)")
  case True
  then have "m = 0" using m minutes_zero_if_locked by force
  then have "dt_us t = dt_us now" using at by (simp add: seconds_between_def)
  then have "t = now" using dt_us_less_iff [OF now t] dt_us_less_iff [OF t now] by auto
  with True \<open>m = 0\<close> acc show ?thesis
    by (auto simp: should_lock_iff allowance_used_up_def split: option.splits)
next
  case False
  note c = minutes_until_lock_cases [OF m False]
  show ?thesis
  proof (cases "\<exists>e. eff = Some e \<and> m = e - acc")
    case True
    with acc show ?thesis by (auto simp: should_lock_iff allowance_used_up_def)
  next
    case False
    with c obtain b bd where b: "bed = Some b" and bd: "next_bed_datetime now b = Inr bd"
      and "m = seconds_between bd now / 60" by blast
    with at have "dt_us t = dt_us bd" by (simp add: seconds_between_def)
    then have "is_in_bedtime_curfew t b wake"
      using next_bed_window [OF now _ bd] bed [OF b] curfew_at_bed_time [OF t _ wake] by auto
    with b show ?thesis by (simp add: should_lock_iff in_curfew_def)
  qed
qed

section \<open>Reasons\<close>

lemma occurs_in_append_mid: "occurs_in w (u @ w @ v)"
proof (induction u)
  case Nil
  have "take (length w) (w @ v) = w" by simp
  then show ?case by (cases "w @ v") (auto simp del: take_append)
qed auto

lemma occurs_in_set: "occurs_in w s \<Longrightarrow> set w \<subseteq> set s"
proof (induction s)
  case (Cons c cs)
  then show ?case using set_take_subset [of "length w" "c # cs"] by auto
qed auto

lemma lower_append [simp]: "lower (s @ t) = lower s @ lower t"
  by (simp add: lower_def)

lemma lower_digits: "list_all (\<lambda>c. is_digit c \<or> c = 58 \<or> c = 45 \<or> c = 46) s \<Longrightarrow> lower s = s"
  by (induction s) (auto simp: lower_def lower_char_def is_digit_def)

lemma lower_hhmm [simp]: "lower (format_hhmm t) = format_hhmm t"
  using fmt02_digits by (intro lower_digits) (auto simp: format_hhmm_def list_all_iff)

lemma hhmm_chars: "c \<in> set (format_hhmm t) \<Longrightarrow> is_digit c \<or> c = 58"
  using fmt02_digits by (auto simp: format_hhmm_def)

lemma label_chars: "c \<in> set (allowance_label e) \<Longrightarrow> is_digit c \<or> c = 45 \<or> c = 46"
  using int_str_chars is_digit_nat_str
  by (auto simp: allowance_label_def tenths_str_def Let_def split: if_splits)

lemma lower_label [simp]: "lower (allowance_label e) = allowance_label e"
  using label_chars by (intro lower_digits) (auto simp: list_all_iff)

lemma brief_before_wake:
  "brief_enforcement_reason (lit ''Before wake-up time '' @ format_hhmm w) = lit ''before wake-up''"
proof -
  have "lower (lit ''Before wake-up time '') = lit ''before wake-up'' @ lit '' time ''"
    by (simp add: lower_def lower_char_def lit_def)
  then show ?thesis
    using occurs_in_append_mid [of "lit ''before wake-up''" "[]"]
    by (simp add: brief_enforcement_reason_def)
qed

lemma brief_past_bedtime:
  "brief_enforcement_reason (lit ''Past bedtime '' @ format_hhmm b) = lit ''past bedtime''"
proof -
  have l: "lower (lit ''Past bedtime '') = lit ''past bedtime'' @ lit '' ''"
    by (simp add: lower_def lower_char_def lit_def)
  have "102 \<notin> set (lit ''past bedtime'' @ lit '' '' @ format_hhmm b)"
    using hhmm_chars [of 102 b] by (auto simp: lit_def is_digit_def)
  moreover have "102 \<in> set (lit ''before wake-up'')" by (simp add: lit_def)
  ultimately have "\<not> occurs_in (lit ''before wake-up'') (lit ''past bedtime'' @ lit '' '' @ format_hhmm b)"
    using occurs_in_set by blast
  then show ?thesis
    using occurs_in_append_mid [of "lit ''past bedtime''" "[]"]
    by (simp add: brief_enforcement_reason_def l)
qed

lemma brief_allowance:
  "brief_enforcement_reason (lit ''Daily allowance of '' @ allowance_label e @ lit '' minutes reached'')
     = lit ''daily limit reached''"
proof -
  let ?s = "lit ''daily allowance'' @ lit '' of '' @ allowance_label e @ lit '' minutes reached''"
  have l: "lower (lit ''Daily allowance of '') = lit ''daily allowance'' @ lit '' of ''"
    "lower (lit '' minutes reached'') = lit '' minutes reached''"
    by (simp_all add: lower_def lower_char_def lit_def)
  have "112 \<notin> set ?s"
    using label_chars [of 112 e] by (auto simp: lit_def is_digit_def)
  moreover have "112 \<in> set (lit ''before wake-up'')" "112 \<in> set (lit ''past bedtime'')"
    by (simp_all add: lit_def)
  ultimately have "\<not> occurs_in (lit ''before wake-up'') ?s" "\<not> occurs_in (lit ''past bedtime'') ?s"
    using occurs_in_set by blast+
  then show ?thesis
    using occurs_in_append_mid [of "lit ''daily allowance''" "[]"]
    by (simp add: brief_enforcement_reason_def l)
qed

section \<open>Properties\<close>

text \<open>
  C14. The overnight curfew is the circular interval that starts at the bed time and
  ends before the wake time: the code's three-way comparison equals the reference
  test "minutes since bed time, modulo a day, are fewer than the curfew is long".
\<close>

theorem curfew_is_circular_interval:
  assumes "valid_datetime now" and "valid_time bed" and "valid_time wake"
  shows "is_in_bedtime_curfew now bed wake \<longleftrightarrow>
    (int (minute_of_day now) - int (minutes_since_midnight bed)) mod 1440
      < (int (minutes_since_midnight wake) - int (minutes_since_midnight bed)) mod 1440"
  by (rule curfew_mod [OF assms])

theorem curfew_is_circular_interval_witness:
  "is_in_bedtime_curfew (DateTime (Date 2026 3 1) 23 30 0 0) (Time 21 0) (Time 7 0)"
  using curfew_is_circular_interval [of "DateTime (Date 2026 3 1) 23 30 0 0" "Time 21 0" "Time 7 0"]
  by (simp add: valid_datetime_def valid_date_def valid_time_def days_in_month_def
      minute_of_day_def minutes_since_midnight_def)

text \<open>
  The prediction of \<open>minutes_until_lock\<close> is never late: for a monitored user, at
  no later instant before the predicted number of minutes has passed does
  \<open>lock_decision\<close> lock, however much of that time was counted as usage.
\<close>

theorem minutes_until_lock_sound:
  assumes "valid_datetime now" and "valid_datetime t" and "pred_option valid_time bed"
    and "valid_time wake" and "minutes_until_lock now bed eff acc True manual wake = Inr (Some m)"
    and "now \<le> t" and "seconds_between t now / 60 < m"
    and "acc' \<le> acc + seconds_between t now / 60"
  shows "\<not> should_lock (lock_decision t bed eff acc' True manual wake)"
  by (rule no_lock_before_prediction [OF assms(1,2) _ assms(4-8)]) (use assms(3) in simp)

theorem minutes_until_lock_sound_witness:
  "\<not> should_lock (lock_decision (DateTime (Date 2026 3 4) 20 29 0 0) (Some (Time 21 0))
       (Some 90) 89 True False (Time 7 0))"
proof -
  let ?now = "DateTime (Date 2026 3 4) 20 0 0 0" and ?t = "DateTime (Date 2026 3 4) 20 29 0 0"
  have sb: "seconds_between ?t ?now = 1740"
    by (simp add: seconds_between_def dt_us_def)
  have "minutes_until_lock ?now (Some (Time 21 0)) (Some 90) 60 True False (Time 7 0) = Inr (Some 30)"
    by (simp add: minutes_until_lock_def lock_decision_def in_curfew_def is_in_bedtime_curfew_def
        minutes_since_midnight_def allowance_used_up_def next_bed_datetime_def Let_def
        less_eq_datetime_def seconds_between_def dt_us_def)
  then show ?thesis
    by (rule minutes_until_lock_sound [where t = ?t and acc' = 89, rotated 4])
      (simp_all add: sb valid_datetime_def valid_date_def valid_time_def days_in_month_def
        less_eq_datetime_def)
qed



text \<open>
  The schedule enforcement a parent sees: it is active exactly when the user is
  monitored and either the curfew holds or the allowance is used up, and the brief
  reason names the condition, the curfew first.
\<close>

theorem enforcement_state_classified:
  "enforcement_state now bed eff acc monitor wake =
     (if monitor \<and> in_curfew now bed wake then
        (True, Some (if before_time now wake then lit ''before wake-up'' else lit ''past bedtime''))
      else if monitor \<and> allowance_used_up eff acc then (True, Some (lit ''daily limit reached''))
      else (False, None))"
  by (simp add: enforcement_state_def lock_decision_def brief_before_wake brief_past_bedtime
      brief_allowance)

text \<open>
  The usage period labelled by a date runs from the wake time of that date to the
  wake time of the next one: the label is right for every instant, early mornings
  included.
\<close>

theorem usage_period_is_wake_to_wake:
  assumes "valid_datetime now" and "valid_time wake" and "usage_period_date now wake = Inr d"
  shows "toordinal d * day_us + int (minutes_since_midnight wake) * minute_us \<le> dt_us now
    \<and> dt_us now < (toordinal d + 1) * day_us + int (minutes_since_midnight wake) * minute_us"
  using usage_period_window [OF assms] by (simp add: day_start_def algebra_simps)

theorem usage_period_is_wake_to_wake_witness:
  "usage_period_date (DateTime (Date 2026 3 1) 5 0 0 0) (Time 7 0) = Inr (Date 2026 2 28)
   \<and> toordinal (Date 2026 2 28) * day_us + int (minutes_since_midnight (Time 7 0)) * minute_us
       \<le> dt_us (DateTime (Date 2026 3 1) 5 0 0 0)"
proof -
  have d: "usage_period_date (DateTime (Date 2026 3 1) 5 0 0 0) (Time 7 0) = Inr (Date 2026 2 28)"
    by (simp add: usage_period_date_def before_time_def prev_day_def days_in_month_def is_leap_def)
  then show ?thesis
    using usage_period_is_wake_to_wake [OF _ _ d]
    by (simp add: valid_datetime_def valid_date_def valid_time_def days_in_month_def)
qed

end
