(* ===== verification/Agent_State.thy ===== *)
theory Agent_State
  imports Lock_Policy
begin

text \<open>
  The data part of \<open>src/kid_pc_monitor/agent_state.py\<close>: the daily settings and the
  runtime state, their strict readers from JSON objects (a wrong type or a value
  out of range is a ValueError), their writers, the effective allowance, the
  roll-over at wake time and the conversion of the legacy file. A JSON document
  is the value \<open>json.loads\<close> gives for it: an object is the list of its members, a
  float is a rational, an infinity (what an over-large literal reads as) or NaN.
\<close>

section \<open>JSON values\<close>

datatype pyfloat = Fin rat | Infinite bool | NaN

datatype json =
    JNull | JBool bool | JInt int | JFloat pyfloat | JStr pystr | JList "json list"
  | JObj "(pystr \<times> json) list"

type_synonym jdict = "(pystr \<times> json) list"

text \<open>\<open>data.get(key)\<close>, None as JNull, and \<open>key in data\<close>.\<close>

definition jget :: "jdict \<Rightarrow> string \<Rightarrow> json" where
  "jget d k = (case map_of d (lit k) of None \<Rightarrow> JNull | Some v \<Rightarrow> v)"

definition jhas :: "jdict \<Rightarrow> string \<Rightarrow> bool" where
  "jhas d k = (map_of d (lit k) \<noteq> None)"

section \<open>Settings and state\<close>

record daily_settings =
  bed_time :: "dtime option"
  wake_time :: dtime
  allowance :: "int option"

record runtime_state =
  timestamp :: datetime
  accumulated_seconds :: rat
  manual_lock_active :: bool
  cumulative_extension_seconds :: int

definition MAX_ABS_INT :: int where
  "MAX_ABS_INT = 2 ^ 53"

section \<open>Timestamps and dates\<close>

text \<open>Two digits at the head of a text, and the digit grammar of an ISO date.\<close>

definition two_digits :: "pystr \<Rightarrow> (nat \<times> pystr) option" where
  "two_digits s =
     (case s of
        a # b # r \<Rightarrow> if is_digit a \<and> is_digit b then Some (digits_val [a, b], r) else None
      | _ \<Rightarrow> None)"

definition date_match :: "pystr \<Rightarrow> (date \<times> pystr) option" where
  "date_match s =
     (case s of
        a # b # c # d # h1 # m1 # m2 # h2 # d1 # d2 # r \<Rightarrow>
          if list_all is_digit [a, b, c, d, m1, m2, d1, d2] \<and> h1 = 45 \<and> h2 = 45
          then Some (Date (digits_val [a, b, c, d]) (digits_val [m1, m2]) (digits_val [d1, d2]), r)
          else None
      | _ \<Rightarrow> None)"

text \<open>
  The fraction of a second: at least one digit; only the first six count, missing
  ones are zeros.
\<close>

definition micro_of_digits :: "pystr \<Rightarrow> nat" where
  "micro_of_digits ds = digits_val (take 6 (ds @ replicate 6 48))"

definition scan_fraction :: "pystr \<Rightarrow> (nat \<times> pystr) option" where
  "scan_fraction s =
     (case s of
        [] \<Rightarrow> Some (0, [])
      | c # r \<Rightarrow>
          if c = 46 \<or> c = 44
          then (let ds = takeWhile is_digit r in
                if ds = [] then None else Some (micro_of_digits ds, dropWhile is_digit r))
          else Some (0, s))"

definition scan_colon_two :: "pystr \<Rightarrow> (nat \<times> pystr) option" where
  "scan_colon_two s = (case s of c # r \<Rightarrow> if c = 58 then two_digits r else None | [] \<Rightarrow> None)"

definition scan_clock :: "pystr \<Rightarrow> (nat \<times> nat \<times> nat \<times> nat \<times> pystr) option" where
  "scan_clock s =
     (case two_digits s of
        None \<Rightarrow> None
      | Some (h, r) \<Rightarrow>
          (case scan_colon_two r of
             None \<Rightarrow> Some (h, 0, 0, 0, r)
           | Some (m, r1) \<Rightarrow>
               (case scan_colon_two r1 of
                  None \<Rightarrow> Some (h, m, 0, 0, r1)
                | Some (sec, r2) \<Rightarrow>
                    (case scan_fraction r2 of
                       None \<Rightarrow> None
                     | Some (us, r3) \<Rightarrow> Some (h, m, sec, us, r3)))))"

text \<open>A UTC offset: nothing, \<open>Z\<close>, or hours and minutes of less than a day.\<close>

definition offset_ok :: "pystr \<Rightarrow> bool" where
  "offset_ok s =
     (case s of
        [] \<Rightarrow> True
      | c # r \<Rightarrow>
          if c = 90 then r = []
          else if c = 43 \<or> c = 45 then
            (case two_digits r of
               None \<Rightarrow> False
             | Some (h, r1) \<Rightarrow>
                 if r1 = [] then h < 24
                 else (case two_digits (if hd r1 = 58 then tl r1 else r1) of
                         None \<Rightarrow> False
                       | Some (m, r2) \<Rightarrow> r2 = [] \<and> h * 60 + m < 1440))
          else False)"

definition parse_timestamp :: "pystr \<Rightarrow> datetime res" where
  "parse_timestamp raw =
     (case date_match raw of
        None \<Rightarrow> Inl ValueError
      | Some (d, r) \<Rightarrow>
          if \<not> valid_date d then Inl ValueError
          else
            (case r of
               [] \<Rightarrow> Inr (DateTime d 0 0 0 0)
             | sep # r1 \<Rightarrow>
                 if sep \<noteq> 84 \<and> sep \<noteq> 32 then Inl ValueError
                 else
                   (case scan_clock r1 of
                      None \<Rightarrow> Inl ValueError
                    | Some (h, m, sec, us, r2) \<Rightarrow>
                        if h < 24 \<and> m < 60 \<and> sec < 60 \<and> offset_ok r2
                        then Inr (DateTime d h m sec us)
                        else Inl ValueError)))"

definition parse_date :: "json \<Rightarrow> date res" where
  "parse_date v =
     (case v of
        JStr s \<Rightarrow>
          (case date_match s of
             Some (d, r) \<Rightarrow> if r = [] \<and> valid_date d then Inr d else Inl ValueError
           | None \<Rightarrow> Inl ValueError)
      | _ \<Rightarrow> Inl ValueError)"

section \<open>Strict readers of JSON values\<close>

definition as_int :: "json \<Rightarrow> int res" where
  "as_int v =
     rbind
       (case v of
          JInt i \<Rightarrow> Inr i
        | JFloat (Fin r) \<Rightarrow> if r = of_int \<lfloor>r\<rfloor> then Inr \<lfloor>r\<rfloor> else Inl ValueError
        | JStr s \<Rightarrow> if is_int_word (strip s) then int_of_dec (strip s) else Inl ValueError
        | _ \<Rightarrow> Inl ValueError)
       (\<lambda>number. if \<bar>number\<bar> > MAX_ABS_INT then Inl ValueError else Inr number)"

definition as_nonneg_int :: "json \<Rightarrow> int res" where
  "as_nonneg_int v = rbind (as_int v) (\<lambda>number. if number < 0 then Inl ValueError else Inr number)"

text \<open>
  \<open>[+-]?(?:[0-9]+\.?[0-9]*|\.[0-9]+)(?:[eE][+-]?[0-9]+)?\<close> against the whole text,
  and the value \<open>float\<close> gives it: infinite from half a unit above the greatest double.
\<close>

definition scan_mantissa :: "pystr \<Rightarrow> (pystr \<times> pystr \<times> pystr) option" where
  "scan_mantissa s =
     (let i = takeWhile is_digit s; r = dropWhile is_digit s;
          (f, r') = (case r of
                       c # t \<Rightarrow> if c = 46 then (takeWhile is_digit t, dropWhile is_digit t) else ([], r)
                     | [] \<Rightarrow> ([], []))
      in if i = [] \<and> f = [] then None else Some (i, f, r'))"

definition scan_exponent :: "pystr \<Rightarrow> int option" where
  "scan_exponent s =
     (case s of
        [] \<Rightarrow> Some 0
      | c # r \<Rightarrow>
          if (c = 101 \<or> c = 69) \<and> is_int_word r then
            (case sign_split r of (neg, ds) \<Rightarrow>
               Some (if neg then - int (digits_val ds) else int (digits_val ds)))
          else None)"

definition scale10 :: "rat \<Rightarrow> int \<Rightarrow> rat" where
  "scale10 x k = (if 0 \<le> k then x * 10 ^ nat k else x / 10 ^ nat (- k))"

definition float_limit :: rat where
  "float_limit = 2 ^ 1024 - 2 ^ 970"

definition float_of_text :: "pystr \<Rightarrow> pyfloat option" where
  "float_of_text s =
     (case sign_split s of (neg, u) \<Rightarrow>
        (case scan_mantissa u of
           None \<Rightarrow> None
         | Some (i, f, r) \<Rightarrow>
             (case scan_exponent r of
                None \<Rightarrow> None
              | Some e \<Rightarrow>
                  let x = scale10 (of_nat (digits_val (i @ f))) (e - int (length f)) in
                  Some (if float_limit \<le> x then Infinite (\<not> neg)
                        else Fin (if neg then - x else x)))))"

definition as_nonneg_float :: "json \<Rightarrow> rat res" where
  "as_nonneg_float v =
     rbind
       (case v of
          JInt i \<Rightarrow> if \<bar>i\<bar> > MAX_ABS_INT then Inl ValueError else Inr (Fin (of_int i))
        | JFloat x \<Rightarrow> Inr x
        | JStr s \<Rightarrow> (case float_of_text (strip s) of None \<Rightarrow> Inl ValueError | Some x \<Rightarrow> Inr x)
        | _ \<Rightarrow> Inl ValueError)
       (\<lambda>x. case x of Fin r \<Rightarrow> if r < 0 then Inl ValueError else Inr r | _ \<Rightarrow> Inl ValueError)"

definition as_bool :: "json \<Rightarrow> bool res" where
  "as_bool v =
     (case v of
        JBool b \<Rightarrow> Inr b
      | JInt i \<Rightarrow> if i = 0 \<or> i = 1 then Inr (i = 1) else Inl ValueError
      | JStr s \<Rightarrow>
          (let w = lower (strip s) in
           if w = lit ''true'' \<or> w = lit ''false'' then Inr (w = lit ''true'') else Inl ValueError)
      | _ \<Rightarrow> Inl ValueError)"

definition as_time :: "json \<Rightarrow> dtime res" where
  "as_time v = (case v of JStr s \<Rightarrow> parse_time_hhmm s | _ \<Rightarrow> Inl ValueError)"

section \<open>Allowance and roll-over\<close>

definition effective_daily_allowance_minutes :: "daily_settings \<Rightarrow> runtime_state \<Rightarrow> rat option" where
  "effective_daily_allowance_minutes daily runtime =
     (let extension_minutes = of_int (cumulative_extension_seconds runtime) / 60 in
      case allowance daily of
        None \<Rightarrow> if extension_minutes \<le> 0 then None else Some extension_minutes
      | Some a \<Rightarrow> Some (of_int a + extension_minutes))"

definition runtime_state_is_current :: "runtime_state \<Rightarrow> dtime \<Rightarrow> datetime \<Rightarrow> bool res" where
  "runtime_state_is_current runtime wake now =
     rbind (usage_period_date (timestamp runtime) wake)
       (\<lambda>a. rbind (usage_period_date now wake) (\<lambda>b. Inr (a = b)))"

definition fresh_runtime_state :: "datetime \<Rightarrow> runtime_state" where
  "fresh_runtime_state now =
     \<lparr>timestamp = now, accumulated_seconds = 0, manual_lock_active = False,
      cumulative_extension_seconds = 0\<rparr>"

definition reset_runtime_for_new_period :: "runtime_state \<Rightarrow> datetime \<Rightarrow> runtime_state" where
  "reset_runtime_for_new_period runtime now =
     runtime\<lparr>timestamp := now, accumulated_seconds := 0, manual_lock_active := False,
             cumulative_extension_seconds := 0\<rparr>"

text \<open>The state after the call and whether it was reset.\<close>

definition reset_runtime_if_needed ::
  "runtime_state \<Rightarrow> dtime \<Rightarrow> datetime \<Rightarrow> (bool \<times> runtime_state) res" where
  "reset_runtime_if_needed runtime wake now =
     rbind (runtime_state_is_current runtime wake now)
       (\<lambda>current. Inr (if current then (False, runtime)
                       else (True, reset_runtime_for_new_period runtime now)))"

section \<open>Writers and readers of whole files\<close>

definition iso_seconds :: "datetime \<Rightarrow> pystr" where
  "iso_seconds t =
     pad0 4 (nat_str (year_of (date_of t))) @ [45] @ fmt02 (month_of (date_of t)) @ [45]
     @ fmt02 (day_of (date_of t)) @ [84] @ fmt02 (dt_hour t) @ [58] @ fmt02 (dt_minute t)
     @ [58] @ fmt02 (dt_second t)"

definition json_opt_time :: "dtime option \<Rightarrow> json" where
  "json_opt_time t = (case t of None \<Rightarrow> JNull | Some x \<Rightarrow> JStr (format_hhmm x))"

definition json_opt_int :: "int option \<Rightarrow> json" where
  "json_opt_int i = (case i of None \<Rightarrow> JNull | Some x \<Rightarrow> JInt x)"

definition daily_to_dict :: "daily_settings \<Rightarrow> jdict" where
  "daily_to_dict daily =
     [(lit ''wake_time'', JStr (format_hhmm (wake_time daily))),
      (lit ''allowance'', json_opt_int (allowance daily)),
      (lit ''bed_time'', json_opt_time (bed_time daily))]"

definition round3 :: "rat \<Rightarrow> rat" where
  "round3 x = of_int (round_half_even (x * 1000)) / 1000"

definition runtime_to_dict :: "runtime_state \<Rightarrow> jdict" where
  "runtime_to_dict runtime =
     [(lit ''timestamp'', JStr (iso_seconds (timestamp runtime))),
      (lit ''accumulated_seconds'', JFloat (Fin (round3 (accumulated_seconds runtime)))),
      (lit ''manual_lock_active'', JBool (manual_lock_active runtime)),
      (lit ''cumulative_extension_seconds'', JInt (cumulative_extension_seconds runtime))]"

definition load_daily_from_dict :: "jdict \<Rightarrow> daily_settings res" where
  "load_daily_from_dict data =
     rbind (if jhas data ''wake_time'' then as_time (jget data ''wake_time'') else Inr DEFAULT_WAKE_TIME)
       (\<lambda>wake.
          rbind
            (let bed_raw = jget data ''bed_time'' in
             if bed_raw \<noteq> JNull \<and> bed_raw \<noteq> JStr [] then rbind (as_time bed_raw) (\<lambda>t. Inr (Some t))
             else Inr None)
            (\<lambda>bed.
               rbind
                 (if jget data ''allowance'' \<noteq> JNull
                  then rbind (as_nonneg_int (jget data ''allowance'')) (\<lambda>i. Inr (Some i))
                  else Inr None)
                 (\<lambda>allow. Inr \<lparr>bed_time = bed, wake_time = wake, allowance = allow\<rparr>)))"

definition is_complete_daily_dict :: "jdict \<Rightarrow> bool" where
  "is_complete_daily_dict data =
     (list_all (\<lambda>k. case jget data k of JStr s \<Rightarrow> strip s \<noteq> [] | _ \<Rightarrow> False) [''wake_time'', ''bed_time'']
      \<and> jget data ''allowance'' \<noteq> JNull
      \<and> (case load_daily_from_dict data of
           Inl _ \<Rightarrow> False
         | Inr daily \<Rightarrow>
             bed_time daily \<noteq> None
             \<and> (case allowance daily of None \<Rightarrow> False | Some a \<Rightarrow> a > 0)))"

definition load_runtime_from_dict :: "jdict \<Rightarrow> runtime_state res" where
  "load_runtime_from_dict data =
     (case jget data ''timestamp'' of
        JStr raw \<Rightarrow>
          rbind (parse_timestamp raw)
            (\<lambda>ts. rbind (if jhas data ''accumulated_seconds''
                         then as_nonneg_float (jget data ''accumulated_seconds'') else Inr 0)
            (\<lambda>acc. rbind (if jhas data ''manual_lock_active''
                          then as_bool (jget data ''manual_lock_active'') else Inr False)
            (\<lambda>man. rbind (if jhas data ''cumulative_extension_seconds''
                          then as_nonneg_int (jget data ''cumulative_extension_seconds'') else Inr 0)
            (\<lambda>ext. Inr \<lparr>timestamp = ts, accumulated_seconds = acc, manual_lock_active = man,
                        cumulative_extension_seconds = ext\<rparr>))))
      | _ \<Rightarrow> Inl ValueError)"

section \<open>The legacy file\<close>

definition legacy_lock_times_to_bed_time :: "json \<Rightarrow> dtime option res" where
  "legacy_lock_times_to_bed_time v =
     (case v of
        JNull \<Rightarrow> Inr None
      | JList [] \<Rightarrow> Inr None
      | JList (JStr first # _) \<Rightarrow>
          if 58 \<in> set first then rbind (parse_time_hhmm first) (\<lambda>t. Inr (Some t)) else Inr None
      | JList (_ # _) \<Rightarrow> Inr None
      | _ \<Rightarrow> Inl ValueError)"

definition legacy_to_state :: "jdict \<Rightarrow> datetime \<Rightarrow> (daily_settings \<times> runtime_state) res" where
  "legacy_to_state legacy now =
     rbind (case jget legacy ''wake_time'' of JStr s \<Rightarrow> parse_time_hhmm s | _ \<Rightarrow> Inr DEFAULT_WAKE_TIME)
       (\<lambda>wake. rbind (legacy_lock_times_to_bed_time (jget legacy ''lock_times''))
       (\<lambda>bed. rbind (if jget legacy ''usage_allowance'' \<noteq> JNull
                     then rbind (as_nonneg_int (jget legacy ''usage_allowance'')) (\<lambda>i. Inr (Some i))
                     else Inr None)
       (\<lambda>allow. rbind (if jhas legacy ''accumulated_seconds''
                       then as_nonneg_float (jget legacy ''accumulated_seconds'') else Inr 0)
       (\<lambda>acc. rbind (if jhas legacy ''manual_lock_active''
                     then as_bool (jget legacy ''manual_lock_active'') else Inr False)
       (\<lambda>man.
          let daily = \<lparr>bed_time = bed, wake_time = wake, allowance = allow\<rparr>;
              runtime = \<lparr>timestamp = now, accumulated_seconds = acc, manual_lock_active = man,
                         cumulative_extension_seconds = 0\<rparr>
          in if jhas legacy ''accumulated_date'' then
               rbind (parse_date (jget legacy ''accumulated_date''))
                 (\<lambda>saved. rbind (usage_period_date now wake)
                 (\<lambda>today. Inr (daily, if saved < today then reset_runtime_for_new_period runtime now
                                      else runtime)))
             else Inr (daily, runtime))))))"

section \<open>Well-formed settings and states\<close>

definition valid_daily :: "daily_settings \<Rightarrow> bool" where
  "valid_daily d \<longleftrightarrow>
     pred_option valid_time (bed_time d) \<and> valid_time (wake_time d)
     \<and> pred_option (\<lambda>a. 0 \<le> a \<and> a \<le> MAX_ABS_INT) (allowance d)"

definition valid_runtime :: "runtime_state \<Rightarrow> bool" where
  "valid_runtime r \<longleftrightarrow>
     valid_datetime (timestamp r) \<and> 0 \<le> accumulated_seconds r
     \<and> 0 \<le> cumulative_extension_seconds r"

text \<open>What a written runtime state reads back as: whole seconds, rounded milliseconds.\<close>

definition stored_runtime :: "runtime_state \<Rightarrow> runtime_state" where
  "stored_runtime r =
     r\<lparr>timestamp := DateTime (date_of (timestamp r)) (dt_hour (timestamp r)) (dt_minute (timestamp r))
                     (dt_second (timestamp r)) 0,
       accumulated_seconds := round3 (accumulated_seconds r)\<rparr>"

lemma valid_DEFAULT_WAKE_TIME [simp]: "valid_time DEFAULT_WAKE_TIME"
  by (simp add: DEFAULT_WAKE_TIME_def valid_time_def)

lemma valid_fresh [simp]: "valid_datetime now \<Longrightarrow> valid_runtime (fresh_runtime_state now)"
  by (simp add: valid_runtime_def fresh_runtime_state_def)

lemma reset_runtime_eq_fresh: "reset_runtime_for_new_period r now = fresh_runtime_state now"
  by (simp add: reset_runtime_for_new_period_def fresh_runtime_state_def)

section \<open>Readers only produce valid values\<close>

named_theorems reader_simps "unfolding of the strict JSON readers"

lemma as_int_bounded: "as_int v = Inr i \<Longrightarrow> \<bar>i\<bar> \<le> MAX_ABS_INT"
  by (auto simp: as_int_def rbind_eq_Inr_iff split: if_splits)

lemma as_nonneg_int_bounds: "as_nonneg_int v = Inr i \<Longrightarrow> 0 \<le> i \<and> i \<le> MAX_ABS_INT"
  using as_int_bounded [of v] by (auto simp: as_nonneg_int_def rbind_eq_Inr_iff split: if_splits)

lemma as_nonneg_int_JInt: "0 \<le> i \<Longrightarrow> i \<le> MAX_ABS_INT \<Longrightarrow> as_nonneg_int (JInt i) = Inr i"
  by (simp add: as_nonneg_int_def as_int_def)

lemma as_nonneg_float_nonneg: "as_nonneg_float v = Inr x \<Longrightarrow> 0 \<le> x"
proof -
  assume "as_nonneg_float v = Inr x"
  then obtain y where "(case y of Fin r \<Rightarrow> if r < 0 then Inl ValueError else Inr r | _ \<Rightarrow> Inl ValueError) = Inr x"
    unfolding as_nonneg_float_def rbind_eq_Inr_iff by blast
  then show ?thesis by (cases y) (auto split: if_splits)
qed

lemma as_time_valid: "as_time v = Inr t \<Longrightarrow> valid_time t"
  by (auto simp: as_time_def parse_time_hhmm_valid split: json.splits)

lemma micro_of_digits_bound:
  assumes "\<forall>c \<in> set ds. is_digit c"
  shows "micro_of_digits ds < 1000000"
proof -
  let ?t = "take 6 (ds @ replicate 6 48)"
  have "\<forall>c \<in> set ?t. is_digit c"
    using assms by (auto simp: is_digit_def dest!: in_set_takeD)
  then have "digits_val ?t < 10 ^ length ?t" by (rule digits_val_bound)
  then show ?thesis unfolding micro_of_digits_def by (simp del: take_append)
qed

lemma scan_fraction_bound: "scan_fraction s = Some (us, r) \<Longrightarrow> us < 1000000"
  using micro_of_digits_bound
  by (auto simp: scan_fraction_def Let_def dest: set_takeWhileD split: list.splits if_splits)

lemma parse_timestamp_valid: "parse_timestamp s = Inr t \<Longrightarrow> valid_datetime t"
  by (auto simp: parse_timestamp_def scan_clock_def valid_datetime_def dest!: scan_fraction_bound
      split: option.split_asm list.split_asm if_split_asm)

lemma load_daily_valid: "load_daily_from_dict d = Inr s \<Longrightarrow> valid_daily s"
  by (auto simp: load_daily_from_dict_def valid_daily_def rbind_eq_Inr_iff Let_def
      dest!: as_time_valid as_nonneg_int_bounds split: if_splits)

lemma load_runtime_valid: "load_runtime_from_dict d = Inr r \<Longrightarrow> valid_runtime r"
  by (auto simp: load_runtime_from_dict_def valid_runtime_def rbind_eq_Inr_iff
      dest!: parse_timestamp_valid as_nonneg_float_nonneg as_nonneg_int_bounds
      split: if_splits json.splits)

lemma legacy_bed_valid:
  "legacy_lock_times_to_bed_time v = Inr b \<Longrightarrow> pred_option valid_time b"
  by (auto simp: legacy_lock_times_to_bed_time_def rbind_eq_Inr_iff
      dest!: parse_time_hhmm_valid split: json.splits list.splits if_splits)

lemma legacy_to_state_valid:
  assumes "legacy_to_state d now = Inr (s, r)" and "valid_datetime now"
  shows "valid_daily s \<and> valid_runtime r"
proof -
  let ?run = "\<lambda>acc man. \<lparr>timestamp = now, accumulated_seconds = acc, manual_lock_active = man,
      cumulative_extension_seconds = 0\<rparr>"
  obtain wake bed allow acc man where
    w: "(case jget d ''wake_time'' of JStr s \<Rightarrow> parse_time_hhmm s | _ \<Rightarrow> Inr DEFAULT_WAKE_TIME) = Inr wake"
    and b: "legacy_lock_times_to_bed_time (jget d ''lock_times'') = Inr bed"
    and a: "(if jget d ''usage_allowance'' \<noteq> JNull
            then rbind (as_nonneg_int (jget d ''usage_allowance'')) (\<lambda>i. Inr (Some i))
            else Inr None) = Inr allow"
    and acc: "(if jhas d ''accumulated_seconds'' then as_nonneg_float (jget d ''accumulated_seconds'')
              else Inr 0) = Inr acc"
    and last: "(if jhas d ''accumulated_date'' then
               rbind (parse_date (jget d ''accumulated_date''))
                 (\<lambda>saved. rbind (usage_period_date now wake)
                 (\<lambda>today. Inr (\<lparr>bed_time = bed, wake_time = wake, allowance = allow\<rparr>,
                     if saved < today then reset_runtime_for_new_period (?run acc man) now
                     else ?run acc man)))
             else Inr (\<lparr>bed_time = bed, wake_time = wake, allowance = allow\<rparr>, ?run acc man)) = Inr (s, r)"
    using assms(1) unfolding legacy_to_state_def Let_def rbind_eq_Inr_iff by blast
  have res: "s = \<lparr>bed_time = bed, wake_time = wake, allowance = allow\<rparr>"
    "r = ?run acc man \<or> r = fresh_runtime_state now"
    using last by (auto simp: rbind_eq_Inr_iff reset_runtime_eq_fresh split: if_split_asm)
  have "valid_time wake" using w parse_time_hhmm_valid by (auto split: json.splits)
  moreover have "pred_option (\<lambda>a. 0 \<le> a \<and> a \<le> MAX_ABS_INT) allow"
    using a by (auto simp: rbind_eq_Inr_iff dest!: as_nonneg_int_bounds split: if_splits)
  moreover have "0 \<le> acc" using acc as_nonneg_float_nonneg by (auto split: if_splits)
  ultimately show ?thesis
    using res legacy_bed_valid [OF b] assms(2)
    by (auto simp: valid_daily_def valid_runtime_def fresh_runtime_state_def)
qed

section \<open>Round trips\<close>

lemma digits_of_two: "n < 100 \<Longrightarrow> digits_val [48 + n div 10, 48 + n mod 10] = n"
  by (simp add: digits_val_def)

lemma two_digits_fmt02: "n < 100 \<Longrightarrow> two_digits (fmt02 n @ r) = Some (n, r)"
  by (auto simp: fmt02_two two_digits_def is_digit_def digits_val_def)

lemma fmt_year:
  assumes "y < 10000"
  obtains a b c d where "pad0 4 (nat_str y) = [a, b, c, d]"
    and "list_all is_digit [a, b, c, d]" and "digits_val [a, b, c, d] = y"
proof -
  have len: "length (pad0 4 (nat_str y)) = 4"
    using nat_str_length_le [of y 4] assms by simp
  then obtain a b c d where "pad0 4 (nat_str y) = [a, b, c, d]"
    by (auto simp: numeral_eq_Suc length_Suc_conv)
  then show thesis
    using that is_digit_pad0 [OF is_digit_nat_str [of y], of 4] digits_val_pad0_nat_str [of 4 y]
    by auto
qed

lemma parse_iso_seconds:
  assumes "valid_datetime t"
  shows "parse_timestamp (iso_seconds t) =
    Inr (DateTime (date_of t) (dt_hour t) (dt_minute t) (dt_second t) 0)"
proof -
  obtain y m k where d: "date_of t = Date y m k" by (cases "date_of t")
  have v: "y < 10000" "m < 100" "k < 100" "valid_date (Date y m k)"
    using assms days_in_month_def [of y m]
    by (auto simp: d valid_datetime_def valid_date_def split: if_splits)
  have h: "dt_hour t < 24" "dt_minute t < 60" "dt_second t < 60"
    using assms by (auto simp: valid_datetime_def)
  obtain a b c e where year: "pad0 4 (nat_str y) = [a, b, c, e]" "list_all is_digit [a, b, c, e]"
    "digits_val [a, b, c, e] = y" using fmt_year [OF v(1)] by metis
  let ?clock = "fmt02 (dt_hour t) @ [58] @ fmt02 (dt_minute t) @ [58] @ fmt02 (dt_second t)"
  have "date_match (iso_seconds t) = Some (Date y m k, 84 # ?clock)"
    using year v by (auto simp: iso_seconds_def d date_match_def fmt02_two is_digit_def digits_of_two)
  moreover have "scan_clock ?clock = Some (dt_hour t, dt_minute t, dt_second t, 0, [])"
    using h two_digits_fmt02 [of "dt_second t" "[]"]
    by (simp add: scan_clock_def scan_colon_two_def scan_fraction_def two_digits_fmt02)
  ultimately show ?thesis
    using v h by (simp add: parse_timestamp_def d offset_ok_def)
qed

lemma round3_nonneg: "0 \<le> x \<Longrightarrow> 0 \<le> round3 x"
  by (simp add: round3_def round_half_even_nonneg)

lemma round3_close: "\<bar>round3 x - x\<bar> \<le> 1 / 2000"
proof -
  have "\<bar>of_int (round_half_even (x * 1000)) - x * 1000\<bar> \<le> 1 / 2"
    by (rule round_half_even_close)
  then show ?thesis by (simp add: round3_def abs_le_iff field_simps)
qed

lemma daily_roundtrip_aux:
  assumes "valid_daily d"
  shows "load_daily_from_dict (daily_to_dict d) = Inr d"
proof -
  have "JStr (format_hhmm t) \<noteq> JStr []" for t by (simp add: format_hhmm_def)
  then show ?thesis
    using assms
    by (cases "bed_time d"; cases "allowance d")
      (simp_all add: load_daily_from_dict_def daily_to_dict_def jhas_def jget_def as_time_def
        parse_format_hhmm as_nonneg_int_JInt valid_daily_def json_opt_time_def json_opt_int_def)
qed

lemma runtime_roundtrip_aux:
  assumes "valid_runtime r" and "cumulative_extension_seconds r \<le> MAX_ABS_INT"
  shows "load_runtime_from_dict (runtime_to_dict r) = Inr (stored_runtime r)"
  using assms round3_nonneg [of "accumulated_seconds r"]
  by (simp add: load_runtime_from_dict_def runtime_to_dict_def jhas_def jget_def valid_runtime_def
      parse_iso_seconds as_nonneg_float_def as_bool_def as_nonneg_int_JInt stored_runtime_def)

text \<open>The settings file as a codec.\<close>

interpretation daily_file: codec valid_daily daily_to_dict load_daily_from_dict
  by unfold_locales (rule daily_roundtrip_aux)

section \<open>Properties\<close>

text \<open>
  Every settings object the agent can hold survives being written to
  \<open>daily_settings.json\<close> and read back, unchanged.
\<close>

theorem daily_settings_roundtrip:
  assumes "valid_daily d"
  shows "load_daily_from_dict (daily_to_dict d) = Inr d"
  by (rule daily_file.dec_enc [OF assms])

theorem daily_settings_roundtrip_witness:
  "load_daily_from_dict (daily_to_dict \<lparr>bed_time = Some (Time 21 0), wake_time = Time 7 0, allowance = Some 90\<rparr>)
     = Inr \<lparr>bed_time = Some (Time 21 0), wake_time = Time 7 0, allowance = Some 90\<rparr>"
  by (rule daily_settings_roundtrip) (simp add: valid_daily_def valid_time_def MAX_ABS_INT_def)

text \<open>
  A runtime state survives \<open>state.json\<close> up to the documented rounding: the
  timestamp loses its microseconds, the used seconds move by at most half a
  millisecond, the lock flag and the extensions are exact.
\<close>

theorem runtime_state_roundtrip:
  assumes "valid_runtime r" and "cumulative_extension_seconds r \<le> MAX_ABS_INT"
  shows "\<exists>r'. load_runtime_from_dict (runtime_to_dict r) = Inr r'
    \<and> manual_lock_active r' = manual_lock_active r
    \<and> cumulative_extension_seconds r' = cumulative_extension_seconds r
    \<and> \<bar>accumulated_seconds r' - accumulated_seconds r\<bar> \<le> 1 / 2000
    \<and> dt_us (timestamp r') = dt_us (timestamp r) - int (dt_micro (timestamp r))"
  using runtime_roundtrip_aux [OF assms] round3_close [of "accumulated_seconds r"]
  by (simp add: stored_runtime_def dt_us_def)

theorem runtime_state_roundtrip_witness:
  "\<exists>r'. load_runtime_from_dict (runtime_to_dict \<lparr>timestamp = DateTime (Date 2026 3 4) 20 0 0 5,
       accumulated_seconds = 61, manual_lock_active = True, cumulative_extension_seconds = 600\<rparr>) = Inr r'
     \<and> manual_lock_active r' \<and> cumulative_extension_seconds r' = 600"
proof -
  let ?r = "\<lparr>timestamp = DateTime (Date 2026 3 4) 20 0 0 5, accumulated_seconds = 61,
    manual_lock_active = True, cumulative_extension_seconds = 600\<rparr>"
  have "valid_runtime ?r" "cumulative_extension_seconds ?r \<le> MAX_ABS_INT"
    by (simp_all add: valid_runtime_def valid_datetime_def valid_date_def days_in_month_def MAX_ABS_INT_def)
  then show ?thesis using runtime_state_roundtrip [of ?r] by auto
qed

text \<open>
  The readers are strict: whatever JSON object they accept, the settings and the
  state they build are in range (times of day within the day, an allowance between
  0 and 2^53, a real calendar date, no negative usage or extension).
\<close>

theorem loaded_state_is_valid:
  "(load_daily_from_dict d = Inr s \<longrightarrow> valid_daily s)
   \<and> (load_runtime_from_dict d = Inr r \<longrightarrow> valid_runtime r)"
  by (simp add: load_daily_valid load_runtime_valid)

theorem loaded_state_is_valid_witness:
  "valid_daily \<lparr>bed_time = None, wake_time = Time 7 0, allowance = Some 45\<rparr>"
proof -
  have "load_daily_from_dict [(lit ''allowance'', JStr (lit '' 45 ''))] =
      Inr \<lparr>bed_time = None, wake_time = Time 7 0, allowance = Some 45\<rparr>"
    by (simp add: load_daily_from_dict_def jget_def jhas_def as_nonneg_int_def as_int_def strip_def
        lit_def is_space_def is_int_word_def sign_split_def is_digit_def int_of_dec_def
        max_str_digits_def digits_val_def MAX_ABS_INT_def DEFAULT_WAKE_TIME_def)
  then show ?thesis using loaded_state_is_valid by blast
qed

text \<open>
  A state timestamped early on the first day of the calendar passes the reader but
  cannot be compared with the current period: \<open>runtime_state_is_current\<close> raises
  OverflowError, which is neither a ValueError of the reader nor an OSError.
\<close>

theorem first_day_timestamp_overflows:
  "load_runtime_from_dict [(lit ''timestamp'', JStr (lit ''0001-01-01T00:00:00''))]
     = Inr (fresh_runtime_state (DateTime (Date 1 1 1) 0 0 0 0))
   \<and> runtime_state_is_current (fresh_runtime_state (DateTime (Date 1 1 1) 0 0 0 0)) (Time 7 0) now
     = Inl OverflowError"
  by (simp add: load_runtime_from_dict_def jget_def jhas_def parse_timestamp_def date_match_def lit_def
      is_digit_def digits_val_def valid_date_def days_in_month_def scan_clock_def scan_colon_two_def
      scan_fraction_def two_digits_def offset_ok_def fresh_runtime_state_def
      runtime_state_is_current_def usage_period_date_def before_time_def prev_day_def)

end
