(* ===== verification/Effects.thy ===== *)
theory Effects
  imports Prelude
begin

text \<open>
  Actions of the program: functions of a state that return a value or raise, and
  in both cases leave a state behind. A \<open>try\<close> catches what was raised and goes on
  in the state that was reached; nothing is rolled back.
\<close>

type_synonym ('s, 'a) act = "'s \<Rightarrow> 'a res \<times> 's"

definition ret :: "'a \<Rightarrow> ('s, 'a) act" where
  "ret x s = (Inr x, s)"

definition raising :: "exn \<Rightarrow> ('s, 'a) act" where
  "raising e s = (Inl e, s)"

definition bind :: "('s, 'a) act \<Rightarrow> ('a \<Rightarrow> ('s, 'b) act) \<Rightarrow> ('s, 'b) act" where
  "bind m f s = (case m s of (Inl e, s') \<Rightarrow> (Inl e, s') | (Inr x, s') \<Rightarrow> f x s')"

text \<open>A value or exception as an action; reading and changing the state.\<close>

definition lift :: "'a res \<Rightarrow> ('s, 'a) act" where
  "lift r s = (r, s)"

definition gets :: "('s \<Rightarrow> 'a) \<Rightarrow> ('s, 'a) act" where
  "gets f s = (Inr (f s), s)"

definition modify :: "('s \<Rightarrow> 's) \<Rightarrow> ('s, unit) act" where
  "modify f s = (Inr (), f s)"

text \<open>\<open>try: m except E as e: h(e)\<close>, for the exceptions \<open>h\<close> handles.\<close>

definition try_with :: "('s, 'a) act \<Rightarrow> (exn \<Rightarrow> ('s, 'a) act option) \<Rightarrow> ('s, 'a) act" where
  "try_with m h s =
     (case m s of
        (Inl e, s') \<Rightarrow> (case h e of Some act \<Rightarrow> act s' | None \<Rightarrow> (Inl e, s'))
      | (Inr x, s') \<Rightarrow> (Inr x, s'))"

text \<open>\<open>try: v = r except ValueError: h else: k(v)\<close>.\<close>

definition try_value :: "'a res \<Rightarrow> ('s, 'b) act \<Rightarrow> ('a \<Rightarrow> ('s, 'b) act) \<Rightarrow> ('s, 'b) act" where
  "try_value r h k = (case r of Inr v \<Rightarrow> k v | Inl e \<Rightarrow> if e = ValueError then h else raising e)"

definition only_if :: "bool \<Rightarrow> ('s, unit) act \<Rightarrow> ('s, unit) act" where
  "only_if b m = (if b then m else ret ())"

fun for_each :: "'a list \<Rightarrow> ('a \<Rightarrow> ('s, unit) act) \<Rightarrow> ('s, unit) act" where
  "for_each [] f = ret ()"
| "for_each (x # xs) f = bind (f x) (\<lambda>_. for_each xs f)"

text \<open>An action on a part of the state.\<close>

definition zoom :: "('t \<Rightarrow> 's) \<Rightarrow> ('s \<Rightarrow> 't \<Rightarrow> 't) \<Rightarrow> ('s, 'a) act \<Rightarrow> ('t, 'a) act" where
  "zoom getter setter m t = (case m (getter t) of (r, s) \<Rightarrow> (r, setter s t))"

named_theorems act_simps "running actions"

lemma act_simps_basic [simp, act_simps]:
  "ret x s = (Inr x, s)" "raising e s = (Inl e, s)" "lift r s = (r, s)"
  "gets f s = (Inr (f s), s)" "modify g s = (Inr (), g s)"
  by (simp_all add: ret_def raising_def lift_def gets_def modify_def)

lemma bind_Inr: "m s = (Inr x, s') \<Longrightarrow> bind m f s = f x s'"
  and bind_Inl: "m s = (Inl e, s') \<Longrightarrow> bind m f s = (Inl e, s')"
  by (simp_all add: bind_def)

lemma bind_basic [simp, act_simps]:
  "bind (ret x) f = f x" "bind (raising e) f = raising e" "bind (gets h) f s = f (h s) s"
  "bind (modify g) k s = k () (g s)"
  "bind (lift r) f s = (case r of Inl e \<Rightarrow> (Inl e, s) | Inr x \<Rightarrow> f x s)"
  by (auto simp: bind_def fun_eq_iff split: sum.split)

lemma bind_assoc: "bind (bind m f) g = bind m (\<lambda>x. bind (f x) g)"
  by (auto simp: bind_def fun_eq_iff split: prod.splits sum.splits)

lemma bind_cong [fundef_cong]:
  "m = m' \<Longrightarrow> s = s' \<Longrightarrow> (\<And>x t. m' s' = (Inr x, t) \<Longrightarrow> f x t = g x t) \<Longrightarrow> bind m f s = bind m' g s'"
  by (auto simp: bind_def split: prod.splits sum.splits)

lemma bind_eq_Inr_iff:
  "bind m f s = (Inr y, t) \<longleftrightarrow> (\<exists>x u. m s = (Inr x, u) \<and> f x u = (Inr y, t))"
  by (auto simp: bind_def split: prod.splits sum.splits)

lemma bind_eq_Inl_iff:
  "bind m f s = (Inl e, t) \<longleftrightarrow>
     m s = (Inl e, t) \<or> (\<exists>x u. m s = (Inr x, u) \<and> f x u = (Inl e, t))"
  by (auto simp: bind_def split: prod.splits sum.splits)

lemma try_with_Inr: "m s = (Inr x, s') \<Longrightarrow> try_with m h s = (Inr x, s')"
  and try_with_caught: "m s = (Inl e, s') \<Longrightarrow> h e = Some act \<Longrightarrow> try_with m h s = act s'"
  and try_with_passed: "m s = (Inl e, s') \<Longrightarrow> h e = None \<Longrightarrow> try_with m h s = (Inl e, s')"
  by (simp_all add: try_with_def)

lemma try_value_simps [simp, act_simps]:
  "try_value (Inr v) h k = k v" "try_value (Inl ValueError) h k = h"
  "e \<noteq> ValueError \<Longrightarrow> try_value (Inl e) h k = raising e"
  by (simp_all add: try_value_def)

lemma only_if_simps [simp, act_simps]: "only_if True m = m" "only_if False m = ret ()"
  by (simp_all add: only_if_def)

section \<open>What an action does to the state\<close>

text \<open>
  \<open>keeps R m\<close>: whether it returns or raises, \<open>m\<close> leaves a state related by \<open>R\<close> to
  the one it started in. For a reflexive and transitive \<open>R\<close> this is closed under
  sequencing, branching and catching, so one proof per primitive is enough.
\<close>

definition keeps :: "('s \<Rightarrow> 's \<Rightarrow> bool) \<Rightarrow> ('s, 'a) act \<Rightarrow> bool" where
  "keeps R m \<longleftrightarrow> (\<forall>s. R s (snd (m s)))"

locale step_relation =
  fixes R :: "'s \<Rightarrow> 's \<Rightarrow> bool"
  assumes refl: "R s s" and trans: "R s t \<Longrightarrow> R t u \<Longrightarrow> R s u"
begin

lemma keeps_pure: "keeps R (ret x)" "keeps R (raising e)" "keeps R (lift r)" "keeps R (gets f)"
  by (simp_all add: keeps_def refl)

lemma keeps_bind: "keeps R m \<Longrightarrow> (\<And>x. keeps R (f x)) \<Longrightarrow> keeps R (bind m f)"
  unfolding keeps_def bind_def by (auto split: prod.split sum.split) (metis snd_conv trans)+

lemma keeps_try: "keeps R m \<Longrightarrow> (\<And>e a. h e = Some a \<Longrightarrow> keeps R a) \<Longrightarrow> keeps R (try_with m h)"
  unfolding keeps_def try_with_def
  by (auto split: prod.split sum.split option.split) (metis snd_conv trans)+

lemma keeps_only_if: "keeps R m \<Longrightarrow> keeps R (only_if b m)"
  by (cases b) (simp_all add: keeps_pure)

lemma keeps_for_each: "(\<And>x. x \<in> set xs \<Longrightarrow> keeps R (f x)) \<Longrightarrow> keeps R (for_each xs f)"
  by (induction xs) (auto simp: keeps_pure intro!: keeps_bind)

lemma keeps_modify: "(\<And>s. R s (g s)) \<Longrightarrow> keeps R (modify g)"
  by (simp add: keeps_def)

lemma keeps_if: "keeps R a \<Longrightarrow> keeps R b \<Longrightarrow> keeps R (if c then a else b)"
  by simp

lemma keeps_option: "keeps R a \<Longrightarrow> (\<And>x. keeps R (f x)) \<Longrightarrow> keeps R (case v of None \<Rightarrow> a | Some x \<Rightarrow> f x)"
  by (simp split: option.split)

lemma keeps_try_all: "keeps R m \<Longrightarrow> (\<And>e. keeps R (h e)) \<Longrightarrow> keeps R (try_with m (\<lambda>e. Some (h e)))"
  by (rule keeps_try) auto

lemmas keeps_rules = keeps_bind keeps_pure keeps_only_if keeps_if keeps_option keeps_modify keeps_try_all
  keeps_for_each

end

section \<open>What an action returns or raises\<close>

text \<open>\<open>outcome P E m\<close>: every value \<open>m\<close> returns satisfies \<open>P\<close>, everything it raises \<open>E\<close>.\<close>

definition outcome :: "('a \<Rightarrow> bool) \<Rightarrow> (exn \<Rightarrow> bool) \<Rightarrow> ('s, 'a) act \<Rightarrow> bool" where
  "outcome P E m \<longleftrightarrow>
     (\<forall>s. case fst (m s) of Inr x \<Rightarrow> P x | Inl e \<Rightarrow> E e)"

lemma outcomeI:
  "(\<And>s x t. m s = (Inr x, t) \<Longrightarrow> P x) \<Longrightarrow> (\<And>s e t. m s = (Inl e, t) \<Longrightarrow> E e) \<Longrightarrow> outcome P E m"
  unfolding outcome_def by (metis (mono_tags, lifting) sum.case_eq_if sum.collapse prod.collapse)

lemma outcome_Inr: "outcome P E m \<Longrightarrow> m s = (Inr x, t) \<Longrightarrow> P x"
  and outcome_Inl: "outcome P E m \<Longrightarrow> m s = (Inl e, t) \<Longrightarrow> E e"
  by (auto simp: outcome_def dest: spec [of _ s])

lemma outcome_ret: "P x \<Longrightarrow> outcome P E (ret x)"
  by (auto intro!: outcomeI)

lemma outcome_lift:
  "(\<And>x. r = Inr x \<Longrightarrow> P x) \<Longrightarrow> (\<And>e. r = Inl e \<Longrightarrow> E e) \<Longrightarrow> outcome P E (lift r)"
  by (auto intro!: outcomeI)

lemma outcome_modify: "P () \<Longrightarrow> outcome P E (modify g)"
  by (auto intro!: outcomeI)

lemma outcome_gets: "(\<And>s. P (f s)) \<Longrightarrow> outcome P E (gets f)"
  by (auto intro!: outcomeI)

lemma outcome_simps [simp]:
  "outcome P E (ret x) \<longleftrightarrow> P x" "outcome P E (raising e) \<longleftrightarrow> E e"
  "outcome P E (Pair (Inr x)) \<longleftrightarrow> P x" "outcome P E (Pair (Inl e)) \<longleftrightarrow> E e"
  by (auto simp: outcome_def)

lemma outcome_bind:
  assumes m: "outcome Q E m" and f: "\<And>x. Q x \<Longrightarrow> outcome P E (f x)"
  shows "outcome P E (bind m f)"
proof (rule outcomeI)
  fix s y t assume "bind m f s = (Inr y, t)"
  then obtain x u where "m s = (Inr x, u)" "f x u = (Inr y, t)" by (auto simp: bind_eq_Inr_iff)
  then show "P y" using outcome_Inr [OF m] outcome_Inr [OF f] by blast
next
  fix s e t assume "bind m f s = (Inl e, t)"
  then consider "m s = (Inl e, t)" | x u where "m s = (Inr x, u)" "f x u = (Inl e, t)"
    by (auto simp: bind_eq_Inl_iff)
  then show "E e" using outcome_Inr [OF m] outcome_Inl [OF m] outcome_Inl [OF f] by cases blast+
qed

lemma outcome_try_value:
  "(\<And>v. r = Inr v \<Longrightarrow> outcome P E (k v)) \<Longrightarrow> (r = Inl ValueError \<Longrightarrow> outcome P E h) \<Longrightarrow>
     (\<And>e. r = Inl e \<Longrightarrow> e \<noteq> ValueError \<Longrightarrow> E e) \<Longrightarrow> outcome P E (try_value r h k)"
  by (auto simp: try_value_def split: sum.split)

lemma outcome_weaken:
  "outcome Q F m \<Longrightarrow> (\<And>x. Q x \<Longrightarrow> P x) \<Longrightarrow> (\<And>e. F e \<Longrightarrow> E e) \<Longrightarrow> outcome P E m"
  by (auto intro!: outcomeI dest: outcome_Inr outcome_Inl)

lemma outcome_try:
  assumes m: "outcome P F m" and h: "\<And>e a. F e \<Longrightarrow> h e = Some a \<Longrightarrow> outcome P E a"
    and n: "\<And>e. F e \<Longrightarrow> h e = None \<Longrightarrow> E e"
  shows "outcome P E (try_with m h)"
proof (rule outcomeI)
  fix s y t assume r: "try_with m h s = (Inr y, t)"
  show "P y"
  proof (cases "m s")
    case (Pair v u)
    then show ?thesis using r outcome_Inr [OF m] outcome_Inl [OF m] outcome_Inr [OF h]
      by (cases v) (auto simp: try_with_def split: option.splits, blast)
  qed
next
  fix s e t assume r: "try_with m h s = (Inl e, t)"
  show "E e"
  proof (cases "m s")
    case (Pair v u)
    then show ?thesis using r n outcome_Inl [OF m] outcome_Inl [OF h]
      by (cases v) (auto simp: try_with_def split: option.splits, blast+)
  qed
qed

end
