(* ===== verification/State_Store.thy ===== *)
theory State_Store
  imports Agent_State Effects
begin

text \<open>
  The file part of \<open>src/kid_pc_monitor/agent_state.py\<close>: reading and writing the
  settings and state files, their backups, the quarantine of corrupt files, the
  migration of the legacy file, the settings an installer left, and the store
  that puts them together.

  A file is what \<open>json.loads\<close> makes of its text: a JSON document, or a text that
  is not one (not UTF-8, not JSON, a NaN or an infinity). Which paths cannot be
  read, opened for writing or renamed (an OSError), and which writes break off in
  the middle, is part of the disk. A crash of the process is a fault that nobody
  handles: at whatever point it comes, the disk is left as by the fault there.
  The clock is an argument of an operation; the operation's several readings
  are taken to be equal.
\<close>

section \<open>The disk\<close>

datatype path = DataFile pystr | ProgramDataFile pystr

datatype contents = Document json | NotJson

datatype problem_action = Quarantined | Restored_from_backup | Ignored

text \<open>
  \<open>write_fault\<close>: the path cannot be opened for writing or renamed, and stays as it
  is. \<open>torn_write\<close>: the path is opened, which empties it, and the write breaks off (the
  disk is full, the process dies); the file is left with the contents given.
  \<open>mkdir_fault\<close>: the directory of the path is not there and cannot be made.
\<close>

record disk =
  files :: "path \<Rightarrow> contents option"
  read_fault :: "path \<Rightarrow> bool"
  write_fault :: "path \<Rightarrow> bool"
  torn_write :: "path \<Rightarrow> contents option"
  mkdir_fault :: "path \<Rightarrow> bool"
  problems :: "(path \<times> problem_action) list"

definition os_error :: exn where
  "os_error = OSError (lit ''I/O error'')"

definition is_file :: "path \<Rightarrow> (disk, bool) act" where
  "is_file p = gets (\<lambda>d. files d p \<noteq> None)"

definition read_contents :: "path \<Rightarrow> (disk, contents) act" where
  "read_contents p d =
     (if read_fault d p then (Inl os_error, d)
      else case files d p of None \<Rightarrow> (Inl os_error, d) | Some c \<Rightarrow> (Inr c, d))"

definition put_contents :: "path \<Rightarrow> contents \<Rightarrow> (disk, unit) act" where
  "put_contents p c d =
     (if write_fault d p then (Inl os_error, d)
      else case torn_write d p of
             Some part \<Rightarrow> (Inl os_error, d\<lparr>files := (files d)(p \<mapsto> part)\<rparr>)
           | None \<Rightarrow> (Inr (), d\<lparr>files := (files d)(p \<mapsto> c)\<rparr>))"

text \<open>
  \<open>path.parent.mkdir(parents=True, exist_ok=True)\<close>. That the directory is there
  afterwards is not recorded: what is written without it is written next to a file.
\<close>

definition make_parent :: "path \<Rightarrow> (disk, unit) act" where
  "make_parent p d = (if mkdir_fault d p then (Inl os_error, d) else (Inr (), d))"

text \<open>
  \<open>shutil.copy2\<close>, which writes its target like any other file, and \<open>os.replace\<close>, which
  the operating system does as one step.
\<close>

definition copy2 :: "path \<Rightarrow> path \<Rightarrow> (disk, unit) act" where
  "copy2 src dst = bind (read_contents src) (put_contents dst)"

definition os_replace :: "path \<Rightarrow> path \<Rightarrow> (disk, unit) act" where
  "os_replace src dst d =
     (case files d src of
        None \<Rightarrow> (Inl os_error, d)
      | Some c \<Rightarrow>
          if write_fault d src \<or> write_fault d dst then (Inl os_error, d)
          else (Inr (), d\<lparr>files := (files d)(src := None, dst := Some c)\<rparr>))"

definition catch_os_error :: "(disk, 'a) act \<Rightarrow> (disk, 'a) act \<Rightarrow> (disk, 'a) act" where
  "catch_os_error m h = try_with m (\<lambda>e. case e of OSError _ \<Rightarrow> Some h | _ \<Rightarrow> None)"

section \<open>Reading and writing JSON files\<close>

datatype loaded = Absent | Unusable | Loaded jdict

definition load_json_file :: "path \<Rightarrow> (disk, loaded) act" where
  "load_json_file p =
     bind (is_file p)
       (\<lambda>there. if \<not> there then ret Absent
          else bind (read_contents p)
            (\<lambda>c. ret (case c of Document (JObj d) \<Rightarrow> Loaded d | _ \<Rightarrow> Unusable)))"

text \<open>\<open>_read_json\<close>: whatever is wrong, None.\<close>

definition read_json :: "path \<Rightarrow> (disk, jdict option) act" where
  "read_json p =
     bind (catch_os_error (load_json_file p) (ret Unusable))
       (\<lambda>l. ret (case l of Loaded d \<Rightarrow> Some d | _ \<Rightarrow> None))"

text \<open>\<open>path.with_name(path.name + suffix)\<close>.\<close>

fun with_suffix :: "path \<Rightarrow> pystr \<Rightarrow> path" where
  "with_suffix (DataFile n) s = DataFile (n @ s)"
| "with_suffix (ProgramDataFile n) s = ProgramDataFile (n @ s)"

definition backup_path :: "path \<Rightarrow> path" where
  "backup_path p = with_suffix p (lit ''.bak'')"

definition tmp_path :: "path \<Rightarrow> path" where
  "tmp_path p = with_suffix p (lit ''.tmp'')"

definition write_json :: "path \<Rightarrow> jdict \<Rightarrow> (jdict \<Rightarrow> 'a res) \<Rightarrow> (disk, unit) act" where
  "write_json p payload validate =
     bind (make_parent p)
       (\<lambda>_. bind (load_json_file p)
         (\<lambda>current. bind
            (case current of
               Loaded d \<Rightarrow>
                 try_value (validate d) (ret ()) (\<lambda>_. copy2 p (backup_path p))
             | _ \<Rightarrow> ret ())
            (\<lambda>_. bind (put_contents (tmp_path p) (Document (JObj payload)))
              (\<lambda>_. os_replace (tmp_path p) p))))"

section \<open>Recovering files\<close>

definition problem :: "path \<Rightarrow> problem_action \<Rightarrow> (disk, unit) act" where
  "problem p a = modify (\<lambda>d. d\<lparr>problems := problems d @ [(p, a)]\<rparr>)"

text \<open>\<open>f"{clock:%Y%m%dT%H%M%S}"\<close>.\<close>

definition stamp :: "datetime \<Rightarrow> pystr" where
  "stamp t =
     pad0 4 (nat_str (year_of (date_of t))) @ fmt02 (month_of (date_of t)) @ fmt02 (day_of (date_of t))
     @ [84] @ fmt02 (dt_hour t) @ fmt02 (dt_minute t) @ fmt02 (dt_second t)"

definition corrupt_path :: "path \<Rightarrow> datetime \<Rightarrow> path" where
  "corrupt_path p now = with_suffix p (lit ''.corrupt-'' @ stamp now)"

definition quarantine :: "path \<Rightarrow> datetime \<Rightarrow> (disk, unit) act" where
  "quarantine p now =
     bind (catch_os_error (os_replace p (corrupt_path p now)) (ret ())) (\<lambda>_. problem p Quarantined)"

definition restore :: "path \<Rightarrow> path \<Rightarrow> (disk, unit) act" where
  "restore backup p =
     bind (catch_os_error (copy2 backup p) (ret ())) (\<lambda>_. problem p Restored_from_backup)"

text \<open>The loop of \<open>_read_validated\<close> over the file and its backup.\<close>

fun read_candidates ::
  "path \<Rightarrow> (jdict \<Rightarrow> 'a res) \<Rightarrow> datetime \<Rightarrow> path list \<Rightarrow> (disk, 'a option) act" where
  "read_candidates p loader now [] = ret None"
| "read_candidates p loader now (c # cs) =
     bind (load_json_file c)
       (\<lambda>l. case l of
          Absent \<Rightarrow> read_candidates p loader now cs
        | Unusable \<Rightarrow> bind (quarantine c now) (\<lambda>_. read_candidates p loader now cs)
        | Loaded d \<Rightarrow>
            try_value (loader d)
              (bind (quarantine c now) (\<lambda>_. read_candidates p loader now cs))
              (\<lambda>value. bind (if c \<noteq> p then restore c p else ret ()) (\<lambda>_. ret (Some value))))"

definition read_validated :: "path \<Rightarrow> (jdict \<Rightarrow> 'a res) \<Rightarrow> datetime \<Rightarrow> (disk, 'a option) act" where
  "read_validated p loader now = read_candidates p loader now [p, backup_path p]"

section \<open>Where settings come from\<close>

text \<open>
  The account the agent runs for, \<open>str.lower\<close> on whole names, and whether there
  is a ProgramData directory.
\<close>

record store_config =
  user_name :: pystr
  fold_case :: "pystr \<Rightarrow> pystr"
  has_program_data :: bool

definition daily_path :: path where
  "daily_path = DataFile (lit ''daily_settings.json'')"

definition state_path :: path where
  "state_path = DataFile (lit ''state.json'')"

definition legacy_state_path :: path where
  "legacy_state_path = DataFile (lit ''pc_control_state.json'')"

definition program_data_daily_path :: path where
  "program_data_daily_path = ProgramDataFile (lit ''daily_settings.json'')"

definition legacy_install_path :: path where
  "legacy_install_path = ProgramDataFile (lit ''install_config.json'')"

definition program_data_target_user :: "store_config \<Rightarrow> (disk, pystr option) act" where
  "program_data_target_user cfg =
     (if \<not> has_program_data cfg then ret None
      else bind (read_json program_data_daily_path)
        (\<lambda>data. ret (case data of
             None \<Rightarrow> None
           | Some d \<Rightarrow>
               (case jget d ''target_user'' of
                  JStr t \<Rightarrow> if strip t \<noteq> [] then Some (strip t) else None
                | _ \<Rightarrow> None))))"

text \<open>The file is meant for another account.\<close>

definition other_user :: "store_config \<Rightarrow> jdict \<Rightarrow> bool" where
  "other_user cfg data \<longleftrightarrow>
     (case jget data ''target_user'' of
        JStr t \<Rightarrow> t \<noteq> [] \<and> fold_case cfg t \<noteq> fold_case cfg (user_name cfg)
      | _ \<Rightarrow> False)"

definition bootstrap_legacy_install :: "store_config \<Rightarrow> (disk, daily_settings option) act" where
  "bootstrap_legacy_install cfg =
     (if \<not> has_program_data cfg then ret None
      else bind (read_json legacy_install_path)
        (\<lambda>data. case data of
           None \<Rightarrow> ret None
         | Some d \<Rightarrow>
             if other_user cfg d then ret None
             else
               (case jget d ''wake_time'' of
                  JStr w \<Rightarrow>
                    try_value (parse_time_hhmm w) (ret None)
                      (\<lambda>t. ret (Some \<lparr>bed_time = None, wake_time = t, allowance = None\<rparr>))
                | _ \<Rightarrow> ret None)))"

definition bootstrap_daily :: "store_config \<Rightarrow> (disk, daily_settings option) act" where
  "bootstrap_daily cfg =
     (if \<not> has_program_data cfg then bootstrap_legacy_install cfg
      else bind (read_json program_data_daily_path)
        (\<lambda>data. case data of
           None \<Rightarrow> bootstrap_legacy_install cfg
         | Some d \<Rightarrow>
             if other_user cfg d then bootstrap_legacy_install cfg
             else
               try_value (load_daily_from_dict d) (bootstrap_legacy_install cfg) (\<lambda>daily. ret (Some daily))))"

definition migrate_legacy_state :: "datetime \<Rightarrow> (disk, (daily_settings \<times> runtime_state) option) act" where
  "migrate_legacy_state now =
     bind (read_json legacy_state_path)
       (\<lambda>legacy. case legacy of
          None \<Rightarrow> ret None
        | Some d \<Rightarrow> bind (lift (legacy_to_state d now)) (\<lambda>m. ret (Some m)))"

definition default_daily :: daily_settings where
  "default_daily = \<lparr>bed_time = None, wake_time = DEFAULT_WAKE_TIME, allowance = None\<rparr>"

definition derive_daily ::
  "store_config \<Rightarrow> datetime \<Rightarrow> (disk, daily_settings \<times> runtime_state option) act" where
  "derive_daily cfg now =
     bind
       (try_with (migrate_legacy_state now)
          (\<lambda>e. if e = ValueError
               then Some (bind (problem legacy_state_path Ignored) (\<lambda>_. ret None)) else None))
       (\<lambda>migrated. case migrated of
          Some (daily, runtime) \<Rightarrow> ret (daily, Some runtime)
        | None \<Rightarrow>
            bind (bootstrap_daily cfg)
              (\<lambda>b. ret (case b of Some daily \<Rightarrow> (daily, None) | None \<Rightarrow> (default_daily, None))))"

section \<open>The store\<close>

definition write_daily :: "daily_settings \<Rightarrow> (disk, unit) act" where
  "write_daily daily = write_json daily_path (daily_to_dict daily) load_daily_from_dict"

definition write_runtime :: "runtime_state \<Rightarrow> (disk, unit) act" where
  "write_runtime runtime = write_json state_path (runtime_to_dict runtime) load_runtime_from_dict"

text \<open>\<open>save\<close> also stamps the caller's runtime state, which it returns.\<close>

definition save :: "daily_settings \<Rightarrow> runtime_state \<Rightarrow> datetime \<Rightarrow> (disk, unit) act" where
  "save daily runtime now =
     bind (write_daily daily) (\<lambda>_. write_runtime (runtime\<lparr>timestamp := now\<rparr>))"

definition settle_runtime ::
  "store_config \<Rightarrow> datetime \<Rightarrow> daily_settings option \<Rightarrow> runtime_state option \<Rightarrow>
   (disk, daily_settings \<times> runtime_state) act" where
  "settle_runtime cfg now daily runtime =
     (case daily of
        Some s \<Rightarrow> ret (s, case runtime of Some r \<Rightarrow> r | None \<Rightarrow> fresh_runtime_state now)
      | None \<Rightarrow>
          bind (derive_daily cfg now)
            (\<lambda>p. let derived = fst p;
                     found = (case runtime of Some r \<Rightarrow> Some r | None \<Rightarrow> snd p);
                     r = (case found of Some r \<Rightarrow> r | None \<Rightarrow> fresh_runtime_state now)
                 in bind (write_daily derived)
                      (\<lambda>_. if runtime = None
                         then (let r' = r\<lparr>timestamp := now\<rparr> in
                               bind (write_runtime r') (\<lambda>_. ret (derived, r')))
                         else ret (derived, r))))"

definition load :: "store_config \<Rightarrow> datetime \<Rightarrow> (disk, daily_settings \<times> runtime_state) act" where
  "load cfg now =
     bind (modify (\<lambda>d. d\<lparr>problems := []\<rparr>))
       (\<lambda>_. bind (read_validated daily_path load_daily_from_dict now)
         (\<lambda>daily. bind (read_validated state_path load_runtime_from_dict now)
           (\<lambda>runtime. bind (settle_runtime cfg now daily runtime)
             (\<lambda>p. bind (lift (reset_runtime_if_needed (snd p) (wake_time (fst p)) now))
               (\<lambda>q. ret (fst p, snd q))))))"

section \<open>Single files\<close>

definition classify :: "contents \<Rightarrow> loaded" where
  "classify c = (case c of Document (JObj d) \<Rightarrow> Loaded d | _ \<Rightarrow> Unusable)"

lemma classify_not_Absent [simp]: "classify c \<noteq> Absent"
  by (simp add: classify_def split: contents.split json.split)

lemma load_json_file_eq:
  "load_json_file p d =
     (case files d p of
        None \<Rightarrow> Inr Absent
      | Some c \<Rightarrow> if read_fault d p then Inl os_error else Inr (classify c), d)"
  by (auto simp: load_json_file_def is_file_def read_contents_def classify_def bind_def
      split: option.split)

lemma load_json_file_state [simp]: "snd (load_json_file p d) = d"
  by (simp add: load_json_file_eq)

lemma read_json_state [simp]: "snd (read_json p d) = d"
  by (auto simp: read_json_def catch_os_error_def try_with_def load_json_file_eq bind_def os_error_def
      split: option.split)

lemma read_json_no_error: "fst (read_json p d) \<noteq> Inl e"
  by (auto simp: read_json_def catch_os_error_def try_with_def load_json_file_eq bind_def os_error_def
      split: option.split)

text \<open>The file names the store uses are all different.\<close>

lemma with_suffix_eq_iff [simp]: "with_suffix p s = with_suffix p t \<longleftrightarrow> s = t"
  by (cases p) auto

lemma with_suffix_not_id [simp]: "with_suffix p s = p \<longleftrightarrow> s = []" "p = with_suffix p s \<longleftrightarrow> s = []"
  by (cases p; auto)+

lemma suffix_distinct [simp]:
  "backup_path p \<noteq> p" "tmp_path p \<noteq> p" "corrupt_path p t \<noteq> p" "tmp_path p \<noteq> backup_path p"
  "p \<noteq> backup_path p" "p \<noteq> tmp_path p" "p \<noteq> corrupt_path p t" "backup_path p \<noteq> tmp_path p"
  "corrupt_path p t \<noteq> backup_path p" "backup_path p \<noteq> corrupt_path p t"
  by (simp_all add: backup_path_def tmp_path_def corrupt_path_def lit_def)

lemma store_paths [simp]:
  "daily_path \<noteq> state_path" "state_path \<noteq> daily_path" "backup_path daily_path \<noteq> state_path"
  "backup_path state_path \<noteq> daily_path" "tmp_path daily_path \<noteq> state_path"
  "tmp_path state_path \<noteq> daily_path" "backup_path daily_path \<noteq> backup_path state_path"
  "backup_path state_path \<noteq> backup_path daily_path"
  "tmp_path state_path \<noteq> backup_path daily_path" "tmp_path daily_path \<noteq> backup_path state_path"
  "backup_path daily_path \<noteq> tmp_path state_path" "backup_path state_path \<noteq> tmp_path daily_path"
  "state_path \<noteq> backup_path daily_path" "daily_path \<noteq> backup_path state_path"
  "state_path \<noteq> tmp_path daily_path" "daily_path \<noteq> tmp_path state_path"
  by (simp_all add: daily_path_def state_path_def backup_path_def tmp_path_def lit_def)

text \<open>A file that can be loaded with \<open>loader\<close>.\<close>

definition good_file :: "(jdict \<Rightarrow> 'a res) \<Rightarrow> contents option \<Rightarrow> bool" where
  "good_file loader c \<longleftrightarrow> (\<exists>j v. c = Some (Document (JObj j)) \<and> loader j = Inr v)"

text \<open>The operations of the store do not change what fails.\<close>

definition same_faults_on :: "disk \<Rightarrow> disk \<Rightarrow> bool" where
  "same_faults_on d d' \<longleftrightarrow>
     read_fault d' = read_fault d \<and> write_fault d' = write_fault d \<and> torn_write d' = torn_write d
     \<and> mkdir_fault d' = mkdir_fault d"

text \<open>What one write does to the files it may touch, and to no others.\<close>

lemma write_json_files:
  assumes "write_json p payload v d = (r, d')"
  shows "files d' p \<in> {files d p, Some (Document (JObj payload))}"
    and "q \<notin> {p, backup_path p, tmp_path p} \<Longrightarrow> files d' q = files d q"
    and "same_faults_on d d' \<and> problems d' = problems d"
    and "files d' (backup_path p) \<in> {files d (backup_path p), files d p, torn_write d (backup_path p)}"
    and "r = Inr () \<Longrightarrow> files d' p = Some (Document (JObj payload))"
    and "r = Inr () \<Longrightarrow> good_file v (files d p) \<Longrightarrow> files d' (backup_path p) = files d p"
    and "r = Inr () \<Longrightarrow> \<not> good_file v (files d p) \<Longrightarrow> files d' (backup_path p) = files d (backup_path p)"
  using assms
  by (auto simp: write_json_def make_parent_def bind_def load_json_file_eq copy2_def read_contents_def put_contents_def
      os_replace_def classify_def good_file_def try_value_def same_faults_on_def
      split: option.splits prod.splits sum.splits if_splits contents.splits json.splits)

section \<open>Saving\<close>

definition daily_doc :: "daily_settings \<Rightarrow> contents option" where
  "daily_doc daily = Some (Document (JObj (daily_to_dict daily)))"

definition runtime_doc :: "runtime_state \<Rightarrow> contents option" where
  "runtime_doc runtime = Some (Document (JObj (runtime_to_dict runtime)))"

text \<open>The two writes of a save, separated.\<close>

lemma save_steps:
  assumes "save daily runtime now d = (r, d')"
  obtains d1 r1 where "write_daily daily d = (r1, d1)"
    "r1 = Inr () \<Longrightarrow> write_runtime (runtime\<lparr>timestamp := now\<rparr>) d1 = (r, d')"
    "r1 \<noteq> Inr () \<Longrightarrow> r = r1 \<and> d' = d1"
proof -
  obtain r1 d1 where w: "write_daily daily d = (r1, d1)" by fastforce
  show thesis
    by (rule that [OF w]; cases r1) (use assms w in \<open>auto simp: save_def bind_def\<close>)
qed

lemma save_files:
  assumes "save daily runtime now d = (r, d')"
  shows "files d' daily_path \<in> {files d daily_path, daily_doc daily}
    \<and> files d' state_path \<in> {files d state_path, runtime_doc (runtime\<lparr>timestamp := now\<rparr>)}
    \<and> (r = Inr () \<longrightarrow> files d' daily_path = daily_doc daily
         \<and> files d' state_path = runtime_doc (runtime\<lparr>timestamp := now\<rparr>)
         \<and> (good_file load_daily_from_dict (files d daily_path) \<longrightarrow>
              files d' (backup_path daily_path) = files d daily_path)
         \<and> (good_file load_runtime_from_dict (files d state_path) \<longrightarrow>
              files d' (backup_path state_path) = files d state_path))
    \<and> (\<forall>q. q \<notin> {daily_path, backup_path daily_path, tmp_path daily_path,
                state_path, backup_path state_path, tmp_path state_path} \<longrightarrow> files d' q = files d q)
    \<and> same_faults_on d d'"
proof (rule save_steps [OF assms])
  fix d1 r1
  assume w1: "write_daily daily d = (r1, d1)"
    and w2: "r1 = Inr () \<Longrightarrow> write_runtime (runtime\<lparr>timestamp := now\<rparr>) d1 = (r, d')"
    and f: "r1 \<noteq> Inr () \<Longrightarrow> r = r1 \<and> d' = d1"
  note one = write_json_files [OF w1 [unfolded write_daily_def], folded daily_doc_def]
  show ?thesis
  proof (cases "r1 = Inr ()")
    case True
    note two = write_json_files [OF w2 [OF True, unfolded write_runtime_def], folded runtime_doc_def]
    have "files d' daily_path = files d1 daily_path"
      "files d' (backup_path daily_path) = files d1 (backup_path daily_path)"
      "files d1 state_path = files d state_path"
      by (rule two(2), simp, rule two(2), simp, rule one(2), simp)
    moreover have "files d1 daily_path = daily_doc daily"
      "good_file load_daily_from_dict (files d daily_path) \<Longrightarrow>
         files d1 (backup_path daily_path) = files d daily_path"
      using one(5,6) True by blast+
    moreover have "files d' q = files d q"
      if "q \<notin> {daily_path, backup_path daily_path, tmp_path daily_path,
                state_path, backup_path state_path, tmp_path state_path}" for q
      using one(2) [of q] two(2) [of q] that by simp
    moreover have "same_faults_on d d'"
      using one(3) two(3) by (simp add: same_faults_on_def)
    ultimately show ?thesis using two(1,5,6) by (intro conjI allI impI) simp_all
  next
    case False
    then have r: "r \<noteq> Inr ()" "d' = d1" using f by auto
    moreover have "files d1 state_path = files d state_path" by (rule one(2)) simp
    moreover have "files d1 q = files d q"
      if "q \<notin> {daily_path, backup_path daily_path, tmp_path daily_path,
                state_path, backup_path state_path, tmp_path state_path}" for q
      using one(2) [of q] that by simp
    ultimately show ?thesis using one(1,3) by (intro conjI allI impI) simp_all
  qed
qed

section \<open>Recovering a file from its backup\<close>

definition usable :: "(jdict \<Rightarrow> 'a res) \<Rightarrow> contents \<Rightarrow> bool" where
  "usable loader c \<longleftrightarrow> (case classify c of Loaded j \<Rightarrow> loader j \<noteq> Inl ValueError | _ \<Rightarrow> False)"

definition no_faults :: "disk \<Rightarrow> bool" where
  "no_faults d \<longleftrightarrow> (\<forall>p. \<not> read_fault d p \<and> \<not> write_fault d p \<and> torn_write d p = None \<and> \<not> mkdir_fault d p)"

lemma no_faults_same: "same_faults_on d d' \<Longrightarrow> no_faults d \<Longrightarrow> no_faults d'"
  by (simp add: same_faults_on_def no_faults_def)

lemma read_valid_file:
  assumes "files d p = Some (Document (JObj j))" and "loader j = Inr v" and "\<not> read_fault d p"
  shows "read_validated p loader now d = (Inr (Some v), d)"
  using assms by (simp add: read_validated_def bind_def load_json_file_eq classify_def)

lemma read_validated_from_backup:
  assumes "no_faults d" and "files d (backup_path p) = Some (Document (JObj j))" and "loader j = Inr v"
    and "\<forall>c. files d p = Some c \<longrightarrow> \<not> usable loader c"
  shows "read_validated p loader now d =
    (Inr (Some v),
     d\<lparr>files := (files d)
         (corrupt_path p now := (if files d p = None then files d (corrupt_path p now) else files d p),
          p := Some (Document (JObj j))),
       problems := problems d @ (if files d p = None then [] else [(p, Quarantined)])
                   @ [(p, Restored_from_backup)]\<rparr>)"
proof (cases "files d p")
  case None
  with assms show ?thesis
    by (auto simp: read_validated_def bind_def load_json_file_eq classify_def restore_def catch_os_error_def
        try_with_def copy2_def read_contents_def put_contents_def no_faults_def problem_def fun_upd_idem)
next
  case (Some c)
  let ?d = "d\<lparr>files := (files d)(p := None, corrupt_path p now := Some c),
      problems := problems d @ [(p, Quarantined)]\<rparr>"
  have q: "quarantine p now d = (Inr (), ?d)"
    using Some assms(1) by (simp add: quarantine_def catch_os_error_def try_with_def os_replace_def
        no_faults_def problem_def bind_def)
  have "\<not> usable loader c" using Some assms(4) by simp
  then have "read_validated p loader now d = read_candidates p loader now [backup_path p] ?d"
    using Some assms(1) unfolding read_validated_def
    by (cases "classify c")
      (auto simp: bind_def [of "load_json_file p"] bind_def [of "quarantine p now"] q usable_def
        no_faults_def load_json_file_eq)
  also have "\<dots> = (Inr (Some v), ?d\<lparr>files := (files ?d)(p := Some (Document (JObj j))),
      problems := problems ?d @ [(p, Restored_from_backup)]\<rparr>)"
    using assms by (simp add: bind_def load_json_file_eq classify_def restore_def catch_os_error_def
        try_with_def copy2_def read_contents_def put_contents_def no_faults_def problem_def)
  finally show ?thesis using Some by (simp add: fun_upd_twist)
qed

section \<open>Loading\<close>

lemma no_faults_update [simp]:
  "no_faults (d\<lparr>problems := ps\<rparr>) \<longleftrightarrow> no_faults d" "no_faults (d\<lparr>files := fs\<rparr>) \<longleftrightarrow> no_faults d"
  by (simp_all add: no_faults_def)

lemma corrupt_daily_paths [simp]:
  "corrupt_path daily_path t \<noteq> state_path" "state_path \<noteq> corrupt_path daily_path t"
  by (simp_all add: corrupt_path_def daily_path_def state_path_def lit_def)

text \<open>Both files read: what is left is the roll-over.\<close>

lemma load_two_files:
  assumes "read_validated daily_path load_daily_from_dict now (d\<lparr>problems := []\<rparr>) = (Inr (Some s), d1)"
    and "read_validated state_path load_runtime_from_dict now d1 = (Inr (Some r), d2)"
  shows "load cfg now d = (rbind (reset_runtime_if_needed r (wake_time s) now) (\<lambda>q. Inr (s, snd q)), d2)"
  using assms by (simp add: load_def bind_def [of "read_validated _ _ _"] settle_runtime_def rbind_def
      split: sum.split)

lemma stored_runtime_file:
  assumes "files d state_path = runtime_doc r" and "valid_runtime r"
    and "cumulative_extension_seconds r \<le> MAX_ABS_INT" and "no_faults d"
  shows "read_validated state_path load_runtime_from_dict now d = (Inr (Some (stored_runtime r)), d)"
  using assms runtime_roundtrip_aux
  by (intro read_valid_file [of _ _ "runtime_to_dict r"]) (auto simp: runtime_doc_def no_faults_def)

lemma stored_daily_file:
  assumes "files d daily_path = daily_doc s" and "valid_daily s" and "no_faults d"
  shows "read_validated daily_path load_daily_from_dict now d = (Inr (Some s), d)"
  using assms daily_file.dec_enc
  by (intro read_valid_file [of _ _ "daily_to_dict s"]) (auto simp: daily_doc_def no_faults_def)

lemma reset_current:
  "runtime_state_is_current r wake now = Inr True \<Longrightarrow> reset_runtime_if_needed r wake now = Inr (False, r)"
  by (simp add: reset_runtime_if_needed_def)

lemma write_json_no_faults:
  assumes "no_faults d" and "\<And>j e. v j = Inl e \<Longrightarrow> e = ValueError"
  shows "\<exists>d'. write_json p payload v d = (Inr (), d')"
  using assms(1)
  by (auto simp: write_json_def make_parent_def bind_def load_json_file_eq copy2_def read_contents_def put_contents_def
      os_replace_def no_faults_def try_value_def
      split: option.splits loaded.splits sum.splits dest: assms(2))

text \<open>The readers of the files only raise ValueError.\<close>

lemma as_int_only: "as_int v = Inl e \<Longrightarrow> e = ValueError"
  by (auto simp: as_int_def int_of_dec_def rbind_eq_Inl_iff split: json.splits pyfloat.splits if_splits prod.splits)

lemma as_nonneg_int_only: "as_nonneg_int v = Inl e \<Longrightarrow> e = ValueError"
  by (auto simp: as_nonneg_int_def rbind_eq_Inl_iff dest: as_int_only split: if_splits)

lemma as_nonneg_float_only: "as_nonneg_float v = Inl e \<Longrightarrow> e = ValueError"
proof -
  have last: "(case x of Fin r \<Rightarrow> if r < 0 then Inl ValueError else Inr r | _ \<Rightarrow> Inl ValueError) = Inl e
      \<Longrightarrow> e = ValueError" for x
    by (cases x) (auto split: if_splits)
  assume "as_nonneg_float v = Inl e"
  then show ?thesis
    unfolding as_nonneg_float_def rbind_eq_Inl_iff
    by (auto dest: last split: json.splits if_splits option.splits)
qed

lemma as_bool_only: "as_bool v = Inl e \<Longrightarrow> e = ValueError"
  by (auto simp: as_bool_def Let_def split: json.splits if_splits)

lemma parse_time_only: "parse_time_hhmm s = Inl e \<Longrightarrow> e = ValueError"
  by (auto simp: parse_time_hhmm_def Let_def split: option.splits prod.splits if_splits)

lemma as_time_only: "as_time v = Inl e \<Longrightarrow> e = ValueError"
  by (auto simp: as_time_def dest: parse_time_only split: json.splits)

lemma parse_timestamp_only: "parse_timestamp s = Inl e \<Longrightarrow> e = ValueError"
  by (auto simp: parse_timestamp_def split: option.splits prod.splits list.splits if_splits)

lemma load_daily_only_value_error: "load_daily_from_dict j = Inl e \<Longrightarrow> e = ValueError"
  by (auto simp: load_daily_from_dict_def rbind_eq_Inl_iff Let_def
      dest: as_time_only as_nonneg_int_only split: if_splits)

lemma load_runtime_only_value_error: "load_runtime_from_dict j = Inl e \<Longrightarrow> e = ValueError"
  by (auto simp: load_runtime_from_dict_def rbind_eq_Inl_iff
      dest: parse_timestamp_only as_nonneg_float_only as_bool_only as_nonneg_int_only
      split: json.splits if_splits)

section \<open>Saving and loading\<close>

lemma period_of_seconds:
  "usage_period_date (DateTime (date_of t) (dt_hour t) (dt_minute t) (dt_second t) 0) wake
     = usage_period_date t wake"
  by (simp add: usage_period_date_def before_time_def)

text \<open>A state is kept within the usage period of its time stamp and replaced in any other.\<close>

lemma reset_by_period:
  assumes "usage_period_date (timestamp r) wake = Inr a" and "usage_period_date now wake = Inr b"
  shows "rbind (reset_runtime_if_needed r wake now) (\<lambda>q. Inr (s, snd q))
    = Inr (s, if a = b then r else fresh_runtime_state now)"
  using assms by (simp add: reset_runtime_if_needed_def runtime_state_is_current_def reset_runtime_eq_fresh)

lemma save_no_faults:
  assumes "no_faults d"
  obtains d' where "save daily runtime now d = (Inr (), d')" "no_faults d'"
proof -
  obtain d1 where w1: "write_daily daily d = (Inr (), d1)"
    unfolding write_daily_def
    using write_json_no_faults [OF assms, of load_daily_from_dict] load_daily_only_value_error by meson
  have n1: "no_faults d1"
    using write_json_files(3) [OF w1 [unfolded write_daily_def]] assms no_faults_same by blast
  obtain d2 where w2: "write_runtime (runtime\<lparr>timestamp := now\<rparr>) d1 = (Inr (), d2)"
    unfolding write_runtime_def
    using write_json_no_faults [OF n1, of load_runtime_from_dict] load_runtime_only_value_error by meson
  have "no_faults d2"
    using write_json_files(3) [OF w2 [unfolded write_runtime_def]] n1 no_faults_same by blast
  moreover have "save daily runtime now d = (Inr (), d2)"
    unfolding save_def by (simp add: bind_def w1 w2)
  ultimately show thesis using that by blast
qed

text \<open>What a good load gives back, from settings and a state that are on disk.\<close>

lemma load_stored:
  assumes "no_faults d" and "files d daily_path = daily_doc s" and "valid_daily s"
    and "files d state_path = runtime_doc r" and "valid_runtime r"
    and "cumulative_extension_seconds r \<le> MAX_ABS_INT"
  shows "load cfg now d =
    (rbind (reset_runtime_if_needed (stored_runtime r) (wake_time s) now) (\<lambda>q. Inr (s, snd q)),
     d\<lparr>problems := []\<rparr>)"
  by (rule load_two_files; (rule stored_daily_file)?, (rule stored_runtime_file)?) (use assms in simp_all)

lemma load_restored:
  assumes "no_faults d" and "files d (backup_path daily_path) = daily_doc s" and "valid_daily s"
    and "\<forall>c. files d daily_path = Some c \<longrightarrow> \<not> usable load_daily_from_dict c"
    and "files d state_path = runtime_doc r" and "valid_runtime r"
    and "cumulative_extension_seconds r \<le> MAX_ABS_INT"
  shows "\<exists>d'. load cfg now d =
      (rbind (reset_runtime_if_needed (stored_runtime r) (wake_time s) now) (\<lambda>q. Inr (s, snd q)), d')
    \<and> files d' daily_path = daily_doc s
    \<and> (\<forall>c. files d daily_path = Some c \<longrightarrow> files d' (corrupt_path daily_path now) = Some c)"
proof -
  let ?d = "d\<lparr>problems := []\<rparr>"
  define d1 where "d1 = ?d\<lparr>files := (files ?d)
         (corrupt_path daily_path now :=
            (if files ?d daily_path = None then files ?d (corrupt_path daily_path now) else files ?d daily_path),
          daily_path := Some (Document (JObj (daily_to_dict s)))),
       problems := problems ?d @ (if files ?d daily_path = None then [] else [(daily_path, Quarantined)])
                   @ [(daily_path, Restored_from_backup)]\<rparr>"
  have "read_validated daily_path load_daily_from_dict now ?d = (Inr (Some s), d1)"
    unfolding d1_def
    by (rule read_validated_from_backup) (use assms daily_file.dec_enc in \<open>simp_all add: daily_doc_def\<close>)
  moreover have "read_validated state_path load_runtime_from_dict now d1 = (Inr (Some (stored_runtime r)), d1)"
    using assms by (intro stored_runtime_file) (simp_all add: d1_def)
  ultimately have "load cfg now d =
      (rbind (reset_runtime_if_needed (stored_runtime r) (wake_time s) now) (\<lambda>q. Inr (s, snd q)), d1)"
    by (rule load_two_files)
  then show ?thesis by (intro exI [of _ d1]) (simp add: d1_def daily_doc_def)
qed

text \<open>A fresh install: no file at all, no ProgramData directory.\<close>

lemma load_fresh_install:
  assumes "files d = (\<lambda>_. None)" and "no_faults d" and "\<not> has_program_data cfg"
    and "usage_period_date now DEFAULT_WAKE_TIME = Inr day"
  shows "\<exists>d'. load cfg now d = (Inr (default_daily, fresh_runtime_state now), d')"
proof -
  have f: "\<And>p. \<not> read_fault d p" "\<And>p. \<not> write_fault d p" "\<And>p. torn_write d p = None" "\<And>p. \<not> mkdir_fault d p"
    using assms(2) by (auto simp: no_faults_def)
  have r: "reset_runtime_if_needed (fresh_runtime_state now) DEFAULT_WAKE_TIME now
      = Inr (False, fresh_runtime_state now)"
    using assms(4) by (simp add: reset_runtime_if_needed_def runtime_state_is_current_def fresh_runtime_state_def)
  have "(fresh_runtime_state now)\<lparr>timestamp := now\<rparr> = fresh_runtime_state now"
    by (simp add: fresh_runtime_state_def)
  with f r assms(1,3) show ?thesis
    by (simp add: load_def bind_def read_validated_def load_json_file_eq settle_runtime_def
        derive_daily_def migrate_legacy_state_def read_json_def catch_os_error_def try_with_def
        bootstrap_daily_def bootstrap_legacy_install_def write_daily_def write_runtime_def write_json_def
        make_parent_def put_contents_def os_replace_def default_daily_def Let_def)
qed

lemma valid_stamped: "valid_runtime r \<Longrightarrow> valid_datetime now \<Longrightarrow> valid_runtime (r\<lparr>timestamp := now\<rparr>)"
  by (simp add: valid_runtime_def)

section \<open>What loading returns or raises\<close>

definition is_os_error :: "exn \<Rightarrow> bool" where
  "is_os_error e \<longleftrightarrow> e = os_error"

lemma load_json_file_outcome: "outcome (\<lambda>_. True) is_os_error (load_json_file p)"
  by (rule outcomeI) (auto simp: load_json_file_eq is_os_error_def split: option.splits if_splits)

lemma copy2_outcome: "outcome (\<lambda>_. True) is_os_error (copy2 a b)"
  by (rule outcomeI) (auto simp: copy2_def read_contents_def put_contents_def is_os_error_def bind_def
      split: option.splits if_splits prod.splits sum.splits)

lemma os_replace_outcome: "outcome (\<lambda>_. True) is_os_error (os_replace a b)"
  by (rule outcomeI) (auto simp: os_replace_def is_os_error_def split: option.splits if_splits)

lemma put_contents_outcome: "outcome (\<lambda>_. True) is_os_error (put_contents p c)"
  by (rule outcomeI) (auto simp: put_contents_def is_os_error_def split: if_splits option.splits)

lemma make_parent_outcome: "outcome (\<lambda>_. True) is_os_error (make_parent p)"
  by (rule outcomeI) (auto simp: make_parent_def is_os_error_def split: if_splits)

lemma catch_os_error_outcome:
  "outcome P is_os_error m \<Longrightarrow> outcome P E h \<Longrightarrow> outcome P E (catch_os_error m h)"
  unfolding catch_os_error_def
  by (rule outcome_try [where F = is_os_error]) (auto simp: is_os_error_def os_error_def)

lemma problem_outcome: "outcome (\<lambda>_. True) E (problem p a)"
  unfolding problem_def by (rule outcome_modify) simp

lemma quarantine_outcome: "outcome (\<lambda>_. True) E (quarantine p now)"
  and restore_outcome: "outcome (\<lambda>_. True) E (restore a b)"
  unfolding quarantine_def restore_def
  by (rule outcome_bind [where Q = "\<lambda>_. True"] catch_os_error_outcome os_replace_outcome
      copy2_outcome outcome_ret problem_outcome TrueI)+

lemma read_candidates_outcome:
  assumes "\<And>j e. loader j = Inl e \<Longrightarrow> e = ValueError"
  shows "outcome (pred_option (\<lambda>v. \<exists>j. loader j = Inr v)) is_os_error (read_candidates p loader now cs)"
proof (induction cs)
  case Nil
  then show ?case by (auto intro: outcome_ret)
next
  case (Cons c cs)
  have more: "outcome (pred_option (\<lambda>v. \<exists>j. loader j = Inr v)) is_os_error
      (bind (quarantine c now) (\<lambda>_. read_candidates p loader now cs))"
    by (rule outcome_bind [OF quarantine_outcome Cons.IH])
  have found: "outcome (pred_option (\<lambda>v. \<exists>j. loader j = Inr v)) is_os_error
      (bind (if c \<noteq> p then restore c p else ret ()) (\<lambda>_. ret (Some v)))" if "loader d = Inr v" for d v
  proof (rule outcome_bind)
    show "outcome (\<lambda>_. True) is_os_error (if c \<noteq> p then restore c p else ret ())"
      using restore_outcome by simp
  qed (use that in auto)
  show ?case
    unfolding read_candidates.simps
  proof (rule outcome_bind [OF load_json_file_outcome], goal_cases)
    case (1 l)
    show ?case
    proof (cases l)
      case (Loaded d)
      show ?thesis unfolding Loaded loaded.case
        by (rule outcome_try_value) (use found more assms in blast)+
    qed (simp_all add: more Cons.IH)
  qed
qed

lemma read_json_outcome: "outcome (\<lambda>_. True) E (read_json p)"
  by (rule outcomeI) (use read_json_no_error in \<open>auto simp: prod_eq_iff [symmetric]\<close>, metis fst_conv)

lemma bootstrap_legacy_outcome:
  "outcome (pred_option valid_daily) is_os_error (bootstrap_legacy_install cfg)"
  unfolding bootstrap_legacy_install_def
  by (auto intro!: outcome_bind [OF read_json_outcome] outcome_try_value
      simp: valid_daily_def parse_time_hhmm_valid dest: parse_time_only split: option.split json.split)

lemma bootstrap_outcome: "outcome (pred_option valid_daily) is_os_error (bootstrap_daily cfg)"
  unfolding bootstrap_daily_def
  by (auto intro!: bootstrap_legacy_outcome outcome_bind [OF read_json_outcome] outcome_try_value
      simp: load_daily_valid dest: load_daily_only_value_error split: option.split)

text \<open>The only other exception is the OverflowError of dates before the calendar.\<close>

definition is_load_error :: "exn \<Rightarrow> bool" where
  "is_load_error e \<longleftrightarrow> e = os_error \<or> e = OverflowError"

lemma usage_period_only: "usage_period_date t w = Inl e \<Longrightarrow> e = OverflowError"
  by (cases "date_of t") (auto simp: usage_period_date_def prev_day_def split: if_splits date.splits)

lemma parse_date_only: "parse_date v = Inl e \<Longrightarrow> e = ValueError"
  by (auto simp: parse_date_def split: json.splits option.splits prod.splits if_splits)

lemma legacy_only: "legacy_to_state d now = Inl e \<Longrightarrow> e = ValueError \<or> e = OverflowError"
proof -
  have "legacy_lock_times_to_bed_time v = Inl e \<Longrightarrow> e = ValueError" for v
    by (auto simp: legacy_lock_times_to_bed_time_def rbind_eq_Inl_iff dest: parse_time_only
        split: json.splits list.splits if_splits)
  then show "legacy_to_state d now = Inl e \<Longrightarrow> e = ValueError \<or> e = OverflowError"
    by (auto simp: legacy_to_state_def Let_def rbind_eq_Inl_iff
        dest!: as_nonneg_int_only as_nonneg_float_only as_bool_only parse_time_only parse_date_only
          usage_period_only
        split: if_splits json.splits)
qed

lemma migrate_outcome:
  assumes "valid_datetime now"
  shows "outcome (pred_option (\<lambda>p. valid_daily (fst p) \<and> valid_runtime (snd p)))
    (\<lambda>e. e = ValueError \<or> is_load_error e) (migrate_legacy_state now)"
proof -
  have "outcome (\<lambda>p. valid_daily (fst p) \<and> valid_runtime (snd p)) (\<lambda>e. e = ValueError \<or> is_load_error e)
      (lift (legacy_to_state d now))" for d
    by (rule outcome_lift)
      (use legacy_to_state_valid [OF _ assms] legacy_only in \<open>force simp: is_load_error_def\<close>)+
  then have some: "outcome (pred_option (\<lambda>p. valid_daily (fst p) \<and> valid_runtime (snd p)))
      (\<lambda>e. e = ValueError \<or> is_load_error e) (bind (lift (legacy_to_state d now)) (\<lambda>m. ret (Some m)))" for d
    by (rule outcome_bind) simp
  show ?thesis
    unfolding migrate_legacy_state_def
    by (rule outcome_bind [OF read_json_outcome]) (auto intro: some split: option.split)
qed

lemma os_error_is_load_error: "is_os_error e \<Longrightarrow> is_load_error e"
  by (simp add: is_os_error_def is_load_error_def)

lemma derive_outcome:
  assumes "valid_datetime now"
  shows "outcome (\<lambda>p. valid_daily (fst p) \<and> pred_option valid_runtime (snd p)) is_load_error (derive_daily cfg now)"
  unfolding derive_daily_def
proof (rule outcome_bind)
  show "outcome (pred_option (\<lambda>p. valid_daily (fst p) \<and> valid_runtime (snd p))) is_load_error
      (try_with (migrate_legacy_state now)
          (\<lambda>e. if e = ValueError
               then Some (bind (problem legacy_state_path Ignored) (\<lambda>_. ret None)) else None))"
    by (rule outcome_try [OF migrate_outcome [OF assms]])
      (auto split: if_splits intro!: outcome_bind [OF problem_outcome])
next
  fix m :: "(daily_settings \<times> runtime_state) option"
  assume m: "pred_option (\<lambda>p. valid_daily (fst p) \<and> valid_runtime (snd p)) m"
  have "outcome (\<lambda>p. valid_daily (fst p) \<and> pred_option valid_runtime (snd p)) is_load_error
      (bind (bootstrap_daily cfg)
        (\<lambda>b. ret (case b of Some daily \<Rightarrow> (daily, None) | None \<Rightarrow> (default_daily, None))))"
    by (rule outcome_bind [OF outcome_weaken [OF bootstrap_outcome]])
      (auto simp: os_error_is_load_error default_daily_def valid_daily_def split: option.split)
  with m show "outcome (\<lambda>p. valid_daily (fst p) \<and> pred_option valid_runtime (snd p)) is_load_error
      (case m of Some (daily, runtime) \<Rightarrow> ret (daily, Some runtime)
       | None \<Rightarrow> bind (bootstrap_daily cfg)
              (\<lambda>b. ret (case b of Some daily \<Rightarrow> (daily, None) | None \<Rightarrow> (default_daily, None))))"
    by (auto split: option.split)
qed

lemma write_json_outcome:
  assumes "\<And>j e. v j = Inl e \<Longrightarrow> e = ValueError"
  shows "outcome (\<lambda>_. True) is_load_error (write_json p payload v)"
proof -
  have one: "outcome (\<lambda>_. True) is_load_error (case l of Loaded d \<Rightarrow> try_value (v d) (ret ()) (\<lambda>_. copy2 p (backup_path p))
      | _ \<Rightarrow> ret ())" for l
    using assms os_error_is_load_error
    by (auto split: loaded.split intro!: outcome_try_value outcome_weaken [OF copy2_outcome])
  have basic: "outcome (\<lambda>_. True) is_load_error (make_parent p)" "outcome (\<lambda>_. True) is_load_error (load_json_file p)"
    "outcome (\<lambda>_. True) is_load_error (put_contents q c)" "outcome (\<lambda>_. True) is_load_error (os_replace q p)" for q c
    using outcome_weaken [OF make_parent_outcome] outcome_weaken [OF load_json_file_outcome]
      outcome_weaken [OF put_contents_outcome] outcome_weaken [OF os_replace_outcome] os_error_is_load_error
    by metis+
  show ?thesis
    unfolding write_json_def
    by (rule outcome_bind [OF basic(1)], rule outcome_bind [OF basic(2)], rule outcome_bind [OF one],
        rule outcome_bind [OF basic(3)], rule basic(4))
qed

definition both_valid :: "daily_settings \<times> runtime_state \<Rightarrow> bool" where
  "both_valid p \<longleftrightarrow> valid_daily (fst p) \<and> valid_runtime (snd p)"

lemma settle_outcome:
  assumes "valid_datetime now" and "pred_option valid_daily daily" and "pred_option valid_runtime runtime"
  shows "outcome both_valid is_load_error (settle_runtime cfg now daily runtime)"
proof (cases daily)
  case (Some s)
  then show ?thesis using assms by (auto simp: settle_runtime_def both_valid_def split: option.split)
next
  case None
  show ?thesis
    unfolding settle_runtime_def None option.case Let_def
  proof (rule outcome_bind [OF derive_outcome [OF assms(1)]])
    fix p :: "daily_settings \<times> runtime_state option"
    assume p: "valid_daily (fst p) \<and> pred_option valid_runtime (snd p)"
    let ?r = "case case runtime of Some r \<Rightarrow> Some r | None \<Rightarrow> snd p of
      Some r \<Rightarrow> r | None \<Rightarrow> fresh_runtime_state now"
    have r: "valid_runtime ?r" using p assms by (auto split: option.split)
    have "outcome (\<lambda>_. True) is_load_error (write_daily (fst p))"
      "outcome (\<lambda>_. True) is_load_error (write_runtime (?r\<lparr>timestamp := now\<rparr>))"
      unfolding write_daily_def write_runtime_def
      using write_json_outcome load_daily_only_value_error load_runtime_only_value_error by blast+
    then show "outcome both_valid is_load_error
        (bind (write_daily (fst p))
          (\<lambda>_. if runtime = None then bind (write_runtime (?r\<lparr>timestamp := now\<rparr>))
               (\<lambda>_. ret (fst p, ?r\<lparr>timestamp := now\<rparr>))
             else ret (fst p, ?r)))"
      using p r valid_stamped [OF r assms(1)]
      by (auto simp: both_valid_def intro!: outcome_bind)
  qed
qed

lemma load_outcome:
  assumes "valid_datetime now"
  shows "outcome both_valid is_load_error (load cfg now)"
proof -
  have rd: "outcome (pred_option valid_daily) is_load_error (read_validated daily_path load_daily_from_dict now)"
    unfolding read_validated_def
    by (rule outcome_weaken [OF read_candidates_outcome])
      (auto simp: os_error_is_load_error load_daily_valid elim!: option.pred_mono_strong
        dest: load_daily_only_value_error)
  have rr: "outcome (pred_option valid_runtime) is_load_error
      (read_validated state_path load_runtime_from_dict now)"
    unfolding read_validated_def
    by (rule outcome_weaken [OF read_candidates_outcome])
      (auto simp: os_error_is_load_error load_runtime_valid elim!: option.pred_mono_strong
        dest: load_runtime_only_value_error)
  have reset: "outcome (\<lambda>q. valid_runtime (snd q)) is_load_error (lift (reset_runtime_if_needed r w now))"
    if "valid_runtime r" for r w
    by (rule outcome_lift)
      (use that assms usage_period_only in \<open>auto simp: reset_runtime_if_needed_def runtime_state_is_current_def
         rbind_eq_Inr_iff rbind_eq_Inl_iff reset_runtime_eq_fresh is_load_error_def split: if_splits\<close>)
  show ?thesis
    unfolding load_def
    by (rule outcome_bind [OF outcome_modify [where P = "\<lambda>_. True"]] outcome_bind [OF rd] outcome_bind [OF rr]
        outcome_bind [OF settle_outcome [OF assms]] outcome_bind [OF reset] TrueI | assumption)+
      (auto simp: both_valid_def)
qed

section \<open>Properties\<close>

text \<open>
  C16. A save is atomic for each of the two files, whatever fails on the disk and
  wherever the save breaks off: paths that cannot be read or written, a directory that cannot
  be made, writes that leave a file half written (its contents are arbitrary then). The settings
  file and the state file hold either what they held before or the new document, whole. When
  the save succeeds both hold the new document, and what was a valid file before is now its
  backup; only the two files, their backups and their temporary files are touched. That a
  renaming is one step is what the operating system promises of \<open>os.replace\<close>.
\<close>

theorem save_is_atomic:
  assumes "save daily runtime now d = (r, d')"
  shows "files d' daily_path \<in> {files d daily_path, daily_doc daily}
    \<and> files d' state_path \<in> {files d state_path, runtime_doc (runtime\<lparr>timestamp := now\<rparr>)}
    \<and> (r = Inr () \<longrightarrow>
         files d' daily_path = daily_doc daily
         \<and> files d' state_path = runtime_doc (runtime\<lparr>timestamp := now\<rparr>)
         \<and> (good_file load_daily_from_dict (files d daily_path) \<longrightarrow>
              files d' (backup_path daily_path) = files d daily_path)
         \<and> (good_file load_runtime_from_dict (files d state_path) \<longrightarrow>
              files d' (backup_path state_path) = files d state_path))
    \<and> (\<forall>q. q \<notin> {daily_path, backup_path daily_path, tmp_path daily_path,
                state_path, backup_path state_path, tmp_path state_path} \<longrightarrow> files d' q = files d q)"
  using save_files [OF assms] by blast

definition sample_now :: datetime where
  "sample_now = DateTime (Date 2026 3 4) 20 0 0 0"

definition sample_disk :: disk where
  "sample_disk = \<lparr>files = (\<lambda>_. None), read_fault = (\<lambda>_. False), write_fault = (\<lambda>_. False),
     torn_write = (\<lambda>p. if p = tmp_path state_path then Some NotJson else None), mkdir_fault = (\<lambda>_. False),
     problems = []\<rparr>"

definition healthy_disk :: disk where
  "healthy_disk = sample_disk\<lparr>torn_write := \<lambda>_. None\<rparr>"

lemma healthy_disk_simps [simp]: "no_faults healthy_disk" "files healthy_disk = (\<lambda>_. None)"
  by (simp_all add: no_faults_def healthy_disk_def sample_disk_def)

theorem save_is_atomic_witness:
  "files (snd (save default_daily (fresh_runtime_state sample_now) sample_now sample_disk)) state_path
     \<in> {None, runtime_doc (fresh_runtime_state sample_now)}"
proof -
  obtain r d' where s: "save default_daily (fresh_runtime_state sample_now) sample_now sample_disk = (r, d')"
    by fastforce
  have "files d' state_path \<in> {files sample_disk state_path,
      runtime_doc ((fresh_runtime_state sample_now)\<lparr>timestamp := sample_now\<rparr>)}"
    using save_is_atomic [OF s] by blast
  moreover have "(fresh_runtime_state sample_now)\<lparr>timestamp := sample_now\<rparr> = fresh_runtime_state sample_now"
    by (simp add: fresh_runtime_state_def)
  moreover have "files sample_disk state_path = None" by (simp add: sample_disk_def)
  ultimately show ?thesis unfolding s by simp
qed

text \<open>
  What is saved is what is loaded, also by a later run of the agent, as long as
  it is still the same usage period: the settings exactly, the state up to the
  rounding of its file.
\<close>

theorem save_then_load:
  assumes "no_faults d" and "valid_daily s" and "valid_runtime r" and "valid_datetime now"
    and "cumulative_extension_seconds r \<le> MAX_ABS_INT"
    and "save s r now d = (res, d')"
    and "runtime_state_is_current (stored_runtime (r\<lparr>timestamp := now\<rparr>)) (wake_time s) later = Inr True"
  shows "res = Inr ()
    \<and> load cfg later d' = (Inr (s, stored_runtime (r\<lparr>timestamp := now\<rparr>)), d'\<lparr>problems := []\<rparr>)"
proof -
  obtain d1 where d1: "save s r now d = (Inr (), d1)" "no_faults d1" by (rule save_no_faults [OF assms(1)])
  with assms(6) have eq: "res = Inr ()" "d' = d1" by auto
  have "files d1 daily_path = daily_doc s" "files d1 state_path = runtime_doc (r\<lparr>timestamp := now\<rparr>)"
    using save_files [OF d1(1)] by auto
  from load_stored [OF d1(2) this(1) assms(2) this(2) valid_stamped [OF assms(3,4)]] show ?thesis
    using assms(5) eq by (simp add: reset_current [OF assms(7)])
qed

theorem save_then_load_witness:
  "\<exists>res d'. save default_daily (fresh_runtime_state sample_now) sample_now
       healthy_disk = (res, d') \<and> res = Inr ()
     \<and> fst (load \<lparr>user_name = [], fold_case = lower, has_program_data = False\<rparr>
              (DateTime (Date 2026 3 5) 6 30 0 0) d')
         = Inr (default_daily, fresh_runtime_state sample_now)"
proof -
  let ?d = "healthy_disk"
  let ?r = "fresh_runtime_state sample_now"
  obtain res d' where s: "save default_daily ?r sample_now ?d = (res, d')" by fastforce
  have st: "stored_runtime (?r\<lparr>timestamp := sample_now\<rparr>) = ?r"
    by (simp add: stored_runtime_def fresh_runtime_state_def sample_now_def round3_def round_half_even_def)
  have "valid_datetime sample_now"
    by (simp add: sample_now_def valid_datetime_def valid_date_def days_in_month_def)
  moreover have "no_faults ?d" by simp
  moreover have "valid_daily default_daily" by (simp add: valid_daily_def default_daily_def)
  moreover have "runtime_state_is_current ?r (wake_time default_daily) (DateTime (Date 2026 3 5) 6 30 0 0) = Inr True"
    by (simp add: runtime_state_is_current_def usage_period_date_def fresh_runtime_state_def
        sample_now_def before_time_def default_daily_def DEFAULT_WAKE_TIME_def prev_day_def)
  ultimately show ?thesis
    using save_then_load [OF _ _ _ _ _ s, where later = "DateTime (Date 2026 3 5) 6 30 0 0"
        and cfg = "\<lparr>user_name = [], fold_case = lower, has_program_data = False\<rparr>"] s
    by (simp add: st) (simp add: fresh_runtime_state_def MAX_ABS_INT_def)
qed

text \<open>
  C17. A settings file that is damaged or deleted after two saves does not cost the
  settings, on a disk on which nothing fails: loading, then or at any later time, returns those
  of the save before the last, puts them back in the file, and keeps the damaged file under
  its quarantine name. The runtime state is the last one saved while its usage period
  lasts, and a fresh one afterwards.
\<close>

theorem damaged_settings_are_restored:
  assumes "no_faults d" and "valid_daily s1" and "valid_daily s2" and "valid_runtime r2"
    and "valid_datetime t2" and "cumulative_extension_seconds r2 \<le> MAX_ABS_INT"
    and "save s1 r1 t1 d = (res1, d1)" and "save s2 r2 t2 d1 = (res2, d2)"
    and "\<forall>c. damaged = Some c \<longrightarrow> \<not> usable load_daily_from_dict c"
    and "usage_period_date t2 (wake_time s1) = Inr saved_on"
    and "usage_period_date later (wake_time s1) = Inr loaded_on"
  shows "\<exists>d'. load cfg later (d2\<lparr>files := (files d2)(daily_path := damaged)\<rparr>)
       = (Inr (s1, if saved_on = loaded_on then stored_runtime (r2\<lparr>timestamp := t2\<rparr>)
                   else fresh_runtime_state later), d')
    \<and> files d' daily_path = daily_doc s1
    \<and> (\<forall>c. damaged = Some c \<longrightarrow> files d' (corrupt_path daily_path later) = Some c)"
proof -
  obtain e1 where e1: "save s1 r1 t1 d = (Inr (), e1)" "no_faults e1" by (rule save_no_faults [OF assms(1)])
  obtain e2 where e2: "save s2 r2 t2 e1 = (Inr (), e2)" "no_faults e2" by (rule save_no_faults [OF e1(2)])
  have d: "d1 = e1" "d2 = e2" using assms(7,8) e1(1) e2(1) by auto
  have "files e1 daily_path = daily_doc s1" using save_files [OF e1(1)] by simp
  moreover have "good_file load_daily_from_dict (daily_doc s1)"
    using daily_file.dec_enc [OF assms(2)] by (simp add: good_file_def daily_doc_def)
  ultimately have b: "files e2 (backup_path daily_path) = daily_doc s1"
    using save_files [OF e2(1)] by simp
  have st: "files e2 state_path = runtime_doc (r2\<lparr>timestamp := t2\<rparr>)" using save_files [OF e2(1)] by simp
  let ?d = "e2\<lparr>files := (files e2)(daily_path := damaged)\<rparr>"
  have "no_faults ?d" "files ?d (backup_path daily_path) = daily_doc s1"
    "files ?d state_path = runtime_doc (r2\<lparr>timestamp := t2\<rparr>)"
    "\<forall>c. files ?d daily_path = Some c \<longrightarrow> \<not> usable load_daily_from_dict c"
    using e2(2) b st assms(9) by simp_all
  note restored = load_restored [OF this(1,2) assms(2) this(4,3) valid_stamped [OF assms(4,5)], of cfg later]
  have "rbind (reset_runtime_if_needed (stored_runtime (r2\<lparr>timestamp := t2\<rparr>)) (wake_time s1) later)
      (\<lambda>q. Inr (s1, snd q))
    = Inr (s1, if saved_on = loaded_on then stored_runtime (r2\<lparr>timestamp := t2\<rparr>) else fresh_runtime_state later)"
    by (rule reset_by_period) (simp add: stored_runtime_def period_of_seconds assms(10), rule assms(11))
  with restored assms(6) show ?thesis unfolding d(2) by simp
qed

theorem damaged_settings_are_restored_witness:
  "\<exists>d' d2. load \<lparr>user_name = [], fold_case = lower, has_program_data = False\<rparr>
       (DateTime (Date 2026 3 5) 7 30 0 0) (d2\<lparr>files := (files d2)(daily_path := Some NotJson)\<rparr>)
     = (Inr (default_daily, fresh_runtime_state (DateTime (Date 2026 3 5) 7 30 0 0)), d')
   \<and> files d' (corrupt_path daily_path (DateTime (Date 2026 3 5) 7 30 0 0)) = Some NotJson"
proof -
  let ?r = "fresh_runtime_state sample_now"
  let ?s = "\<lparr>bed_time = Some (Time 21 0), wake_time = Time 7 0, allowance = None\<rparr>"
  obtain res1 d1 where s1: "save default_daily ?r sample_now healthy_disk = (res1, d1)" by fastforce
  obtain res2 d2 where s2: "save ?s ?r sample_now d1 = (res2, d2)" by fastforce
  have now: "valid_datetime sample_now"
    by (simp add: sample_now_def valid_datetime_def valid_date_def days_in_month_def)
  have valid: "valid_daily default_daily" "valid_daily ?s"
    by (simp add: valid_daily_def default_daily_def) (simp add: valid_daily_def valid_time_def)
  have run: "valid_runtime ?r" "cumulative_extension_seconds ?r \<le> MAX_ABS_INT"
    using now by (simp_all add: fresh_runtime_state_def MAX_ABS_INT_def valid_runtime_def)
  have periods: "usage_period_date sample_now (wake_time default_daily) = Inr (Date 2026 3 4)"
    "usage_period_date (DateTime (Date 2026 3 5) 7 30 0 0) (wake_time default_daily) = Inr (Date 2026 3 5)"
    by (simp_all add: usage_period_date_def sample_now_def before_time_def default_daily_def DEFAULT_WAKE_TIME_def)
  have "\<forall>c. Some NotJson = Some c \<longrightarrow> \<not> usable load_daily_from_dict c"
    by (simp add: usable_def classify_def)
  from damaged_settings_are_restored [OF healthy_disk_simps(1) valid run(1) now run(2) s1 s2 this periods,
      of "\<lparr>user_name = [], fold_case = lower, has_program_data = False\<rparr>"]
  show ?thesis by auto
qed

text \<open>
  C39. Whatever is on the disk and whatever fails there, loading either gives valid
  settings and a valid state (times of the day, no negative counters, an allowance
  within bounds) or raises: an OSError, or the OverflowError of a time stamp at
  the very beginning of the calendar.
\<close>

theorem load_gives_valid_state:
  assumes "valid_datetime now" and "load cfg now d = (res, d')"
  shows "case res of
      Inr (s, r) \<Rightarrow> valid_daily s \<and> valid_runtime r
    | Inl e \<Rightarrow> e = os_error \<or> e = OverflowError"
  using outcome_Inr [OF load_outcome [OF assms(1)]] outcome_Inl [OF load_outcome [OF assms(1)]] assms(2)
  by (fastforce simp: both_valid_def is_load_error_def split: sum.split prod.split)

theorem load_gives_valid_state_witness:
  "\<exists>s r d'. load \<lparr>user_name = [], fold_case = lower, has_program_data = False\<rparr> sample_now
       healthy_disk = (Inr (s, r), d') \<and> valid_daily s \<and> valid_runtime r"
proof -
  let ?cfg = "\<lparr>user_name = [], fold_case = lower, has_program_data = False\<rparr>"
  let ?d = "healthy_disk"
  have v: "valid_datetime sample_now"
    by (simp add: sample_now_def valid_datetime_def valid_date_def days_in_month_def)
  have u: "usage_period_date sample_now DEFAULT_WAKE_TIME = Inr (Date 2026 3 4)"
    by (simp add: usage_period_date_def sample_now_def before_time_def DEFAULT_WAKE_TIME_def)
  have "files ?d = (\<lambda>_. None)" "no_faults ?d" "\<not> has_program_data ?cfg"
    by simp_all
  from load_fresh_install [OF this u]
  have "\<exists>p d'. load ?cfg sample_now ?d = (Inr p, d')" by blast
  then obtain s r d' where l: "load ?cfg sample_now ?d = (Inr (s, r), d')" by fastforce
  with load_gives_valid_state [OF v l] show ?thesis by auto
qed

end
