(* ===== verification/Kdl.thy ===== *)
theory Kdl
  imports PyText
begin

text \<open>
  The document layer of \<open>src/kid_pc_monitor/agent_protocol.py\<close>: the KDL subset a
  frame body is written in. A document is a list of nodes with a name, scalar
  arguments and children; \<open>serialize\<close> prints it, \<open>tokenize\<close> and \<open>parse_nodes\<close>
  read it back. The scanner works on the rest of the text instead of an index
  into it. The recursive descent of \<open>parse\<close> carries fuel, one more than the
  number of tokens; \<open>parse_fuel_enough\<close> shows that it never runs out.
\<close>

section \<open>Error codes\<close>

definition INVALID_REQUEST :: pystr where "INVALID_REQUEST = lit ''invalid_request''"
definition UNSUPPORTED_VERSION :: pystr where "UNSUPPORTED_VERSION = lit ''unsupported_version''"
definition UNKNOWN_ACTION :: pystr where "UNKNOWN_ACTION = lit ''unknown_action''"
definition UNKNOWN_VARIABLE :: pystr where "UNKNOWN_VARIABLE = lit ''unknown_variable''"
definition INVALID_VALUE :: pystr where "INVALID_VALUE = lit ''invalid_value''"
definition FORBIDDEN :: pystr where "FORBIDDEN = lit ''forbidden''"
definition INTERNAL_ERROR :: pystr where "INTERNAL_ERROR = lit ''internal_error''"
definition AUTHENTICATION_REQUIRED :: pystr where
  "AUTHENTICATION_REQUIRED = lit ''authentication_required''"
definition AUTHENTICATION_FAILED :: pystr where
  "AUTHENTICATION_FAILED = lit ''authentication_failed''"
definition STALE_TIMESTAMP :: pystr where "STALE_TIMESTAMP = lit ''stale_timestamp''"

text \<open>A ProtocolError with the code \<open>invalid_request\<close> and no request id.\<close>

definition bad_request :: "pystr \<Rightarrow> exn" where
  "bad_request msg = ProtocolError INVALID_REQUEST msg None"

section \<open>The document model\<close>

datatype node = Node (nname: pystr) (nargs: "pyval list") (nchildren: "node list")

text \<open>\<open>Node.arg\<close> (None when there is no argument) and \<open>Node.child_map\<close>.\<close>

definition arg :: "node \<Rightarrow> pyval" where
  "arg n = (case nargs n of [] \<Rightarrow> PNone | v # _ \<Rightarrow> v)"

definition fields_of :: "node list \<Rightarrow> pystr \<Rightarrow> pyval option" where
  "fields_of ns = dict_of_pairs (map (\<lambda>n. (nname n, arg n)) ns)"

definition child_map :: "node \<Rightarrow> pystr \<Rightarrow> pyval option" where
  "child_map n = fields_of (nchildren n)"

definition MAX_NESTING_DEPTH :: nat where
  "MAX_NESTING_DEPTH = 32"

section \<open>Printing\<close>

definition bare_start :: "nat \<Rightarrow> bool" where
  "bare_start c \<longleftrightarrow> is_alpha c \<or> c = 95"

definition bare_char :: "nat \<Rightarrow> bool" where
  "bare_char c \<longleftrightarrow>
     is_alpha c \<or> is_digit c \<or> c = 95 \<or> c = 46 \<or> c = 58 \<or> c = 43 \<or> c = 45"

definition is_keyword :: "pystr \<Rightarrow> bool" where
  "is_keyword s \<longleftrightarrow> s = lit ''true'' \<or> s = lit ''false'' \<or> s = lit ''null''"

definition is_bare :: "pystr \<Rightarrow> bool" where
  "is_bare s \<longleftrightarrow>
     (case s of [] \<Rightarrow> False | c # cs \<Rightarrow> bare_start c \<and> list_all bare_char cs) \<and> \<not> is_keyword s"

text \<open>\<open>text.replace(old, new)\<close> for a single character \<open>old\<close>.\<close>

definition replace_char :: "nat \<Rightarrow> pystr \<Rightarrow> pystr \<Rightarrow> pystr" where
  "replace_char old new s = concat (map (\<lambda>c. if c = old then new else [c]) s)"

definition escape :: "pystr \<Rightarrow> pystr" where
  "escape s =
     (let out = replace_char 34 [92, 34] (replace_char 92 [92, 92] s) in
      replace_char 13 [92, 114] (replace_char 9 [92, 116] (replace_char 10 [92, 110] out)))"

definition format_value :: "pyval \<Rightarrow> pystr" where
  "format_value v =
     (case v of
        PBool True \<Rightarrow> lit ''true''
      | PBool False \<Rightarrow> lit ''false''
      | PNone \<Rightarrow> lit ''null''
      | PInt i \<Rightarrow> int_str i
      | PStr s \<Rightarrow> if is_bare s then s else [34] @ escape s @ [34])"

text \<open>\<open>sep.join(parts)\<close> for a one-character separator.\<close>

fun join_with :: "nat \<Rightarrow> pystr list \<Rightarrow> pystr" where
  "join_with c [] = []"
| "join_with c [x] = x"
| "join_with c (x # y # r) = x @ [c] @ join_with c (y # r)"

fun serialize_into :: "node list \<Rightarrow> nat \<Rightarrow> pystr list" where
  "serialize_into [] indent = []"
| "serialize_into (Node name args children # rest) indent =
     (let pad = replicate indent 32;
          prefix = pad @ join_with 32 (name # map format_value args)
      in (if children \<noteq> []
          then [prefix @ [32, 123]] @ serialize_into children (indent + 2) @ [pad @ [125]]
          else [prefix])
         @ serialize_into rest indent)"

definition serialize :: "node list \<Rightarrow> pystr" where
  "serialize nodes = join_with 10 (serialize_into nodes 0)"

section \<open>Scanning\<close>

datatype token = NL | LB | RB | VAL pyval

text \<open>The escape sequence after a backslash: the decoded character and the rest.\<close>

definition unescape :: "pystr \<Rightarrow> (nat \<times> pystr) res" where
  "unescape s =
     (case s of
        [] \<Rightarrow> Inl (bad_request (lit ''unterminated string''))
      | ch # r \<Rightarrow>
          if ch = 110 then Inr (10, r)
          else if ch = 116 then Inr (9, r)
          else if ch = 114 then Inr (13, r)
          else if ch = 34 \<or> ch = 92 \<or> ch = 47 then Inr (ch, r)
          else if ch = 117 \<and> r \<noteq> [] \<and> hd r = 123 then
            (let digits = takeWhile (\<lambda>c. c \<noteq> 125) (tl r);
                 rest = dropWhile (\<lambda>c. c \<noteq> 125) (tl r)
             in if rest = [] then Inl (bad_request (lit ''unterminated unicode escape''))
                else
                  rbind
                    (value_error_as (bad_request (lit ''bad unicode escape''))
                       (rbind (int_of_hex digits) chr_of))
                    (\<lambda>c. Inr (c, tl rest)))
          else Inl (bad_request (lit ''unsupported escape: '' @ [92, ch])))"

lemma unescape_shorter: "unescape s = Inr (c, r) \<Longrightarrow> length r < length s"
proof -
  assume u: "unescape s = Inr (c, r)"
  then obtain ch t where s: "s = ch # t" by (cases s) (auto simp: unescape_def)
  have "length (dropWhile (\<lambda>c. c \<noteq> 125) (tl t)) \<le> length (tl t)"
    by (rule length_dropWhile_le)
  with u show ?thesis
    by (auto simp: unescape_def s Let_def rbind_eq_Inr_iff split: if_splits)
qed

text \<open>The text after an opening quote: the string up to the closing quote and the rest.\<close>

function scan_string :: "pystr \<Rightarrow> (pystr \<times> pystr) res" where
  "scan_string [] = Inl (bad_request (lit ''unterminated string''))"
| "scan_string (c # cs) =
     (if c = 34 then Inr ([], cs)
      else if c = 92 then
        rbind (unescape cs)
          (\<lambda>p. rbind (scan_string (snd p)) (\<lambda>q. Inr (fst p # fst q, snd q)))
      else rbind (scan_string cs) (\<lambda>q. Inr (c # fst q, snd q)))"
  by pat_completeness auto
termination
  by (relation "measure length") (auto dest: unescape_shorter less_SucI)

definition parse_bare :: "pystr \<Rightarrow> pyval res" where
  "parse_bare word =
     (if word = lit ''true'' then Inr (PBool True)
      else if word = lit ''false'' then Inr (PBool False)
      else if word = lit ''null'' then Inr PNone
      else if is_int_word word then
        rbind (int_of_dec word)
          (\<lambda>number. if - (2 ^ 63) \<le> number \<and> number < 2 ^ 63 then Inr (PInt number)
                    else Inl (bad_request (lit ''integer out of range'')))
      else Inr (PStr word))"

definition is_delim :: "nat \<Rightarrow> bool" where
  "is_delim c \<longleftrightarrow>
     c = 32 \<or> c = 9 \<or> c = 10 \<or> c = 13 \<or> c = 123 \<or> c = 125 \<or> c = 59 \<or> c = 34"

lemma scan_string_shorter: "scan_string s = Inr (t, r) \<Longrightarrow> length r < length s"
  by (induction s arbitrary: t r rule: scan_string.induct)
    (fastforce simp: rbind_eq_Inr_iff dest: unescape_shorter split: if_splits)+

function tokenize :: "pystr \<Rightarrow> token list res" where
  "tokenize [] = Inr []"
| "tokenize (ch # cs) =
     (if ch = 32 \<or> ch = 9 then tokenize cs
      else if ch = 10 \<or> ch = 13 then rbind (tokenize cs) (\<lambda>ts. Inr (NL # ts))
      else if ch = 59 then rbind (tokenize cs) (\<lambda>ts. Inr (NL # ts))
      else if ch = 123 then rbind (tokenize cs) (\<lambda>ts. Inr (LB # ts))
      else if ch = 125 then rbind (tokenize cs) (\<lambda>ts. Inr (RB # ts))
      else if ch = 34 then
        rbind (scan_string cs)
          (\<lambda>q. rbind (tokenize (snd q)) (\<lambda>ts. Inr (VAL (PStr (fst q)) # ts)))
      else
        rbind (parse_bare (ch # takeWhile (\<lambda>c. \<not> is_delim c) cs))
          (\<lambda>v. rbind (tokenize (dropWhile (\<lambda>c. \<not> is_delim c) cs)) (\<lambda>ts. Inr (VAL v # ts))))"
  by pat_completeness auto
termination
  by (relation "measure length")
    (auto dest: scan_string_shorter less_SucI simp: le_imp_less_Suc length_dropWhile_le)

section \<open>Parsing\<close>

definition is_VAL :: "token \<Rightarrow> bool" where
  "is_VAL t = (case t of VAL _ \<Rightarrow> True | _ \<Rightarrow> False)"

definition val_of :: "token \<Rightarrow> pyval" where
  "val_of t = (case t of VAL v \<Rightarrow> v | _ \<Rightarrow> PNone)"

text \<open>
  The inner function of \<open>parse\<close>: the nodes up to the end of the block (or of the
  document, at depth 0) and the tokens after it.
\<close>

fun parse_nodes :: "nat \<Rightarrow> nat \<Rightarrow> token list \<Rightarrow> (node list \<times> token list) res" where
  "parse_nodes 0 depth ts = Inl OutOfFuel"
| "parse_nodes (Suc fuel) depth [] =
     (if depth > 0 then Inl (bad_request (lit ''missing '' @ [39, 125, 39])) else Inr ([], []))"
| "parse_nodes (Suc fuel) depth (NL # ts) = parse_nodes fuel depth ts"
| "parse_nodes (Suc fuel) depth (RB # ts) =
     (if \<not> depth > 0 then Inl (bad_request (lit ''unexpected '' @ [39, 125, 39])) else Inr ([], ts))"
| "parse_nodes (Suc fuel) depth (LB # ts) = Inl (bad_request (lit ''unexpected '' @ [39, 123, 39]))"
| "parse_nodes (Suc fuel) depth (VAL (PStr name) # ts) =
     (let args = map val_of (takeWhile is_VAL ts); after_args = dropWhile is_VAL ts in
      rbind
        (case after_args of
           LB # block \<Rightarrow>
             if depth \<ge> MAX_NESTING_DEPTH then Inl (bad_request (lit ''blocks nested too deeply''))
             else parse_nodes fuel (depth + 1) block
         | _ \<Rightarrow> Inr ([], after_args))
        (\<lambda>b. rbind (parse_nodes fuel depth (snd b))
               (\<lambda>m. Inr (Node name args (fst b) # fst m, snd m))))"
| "parse_nodes (Suc fuel) depth (VAL v # ts) =
     Inl (bad_request (lit ''node name must be an identifier''))"

definition parse :: "pystr \<Rightarrow> node list res" where
  "parse text =
     rbind (tokenize text)
       (\<lambda>ts. rbind (parse_nodes (length ts + 1) 0 ts) (\<lambda>p. Inr (fst p)))"

section \<open>The fuel of the parser\<close>

lemma after_args_length: "length (dropWhile is_VAL ts) \<le> length ts"
  by (rule length_dropWhile_le)

text \<open>
  With more fuel than tokens the parser never runs out, and what it leaves is no
  longer than what it was given.
\<close>

text \<open>The optional block after a node, read with \<open>p\<close>.\<close>

definition opt_block ::
  "(token list \<Rightarrow> (node list \<times> token list) res) \<Rightarrow> nat \<Rightarrow> token list \<Rightarrow> (node list \<times> token list) res" where
  "opt_block p d a =
     (case a of
        LB # block \<Rightarrow>
          if d \<ge> MAX_NESTING_DEPTH then Inl (bad_request (lit ''blocks nested too deeply'')) else p block
      | _ \<Rightarrow> Inr ([], a))"

lemma parse_nodes_name:
  "parse_nodes (Suc fuel) d (VAL (PStr name) # ts) =
     rbind (opt_block (parse_nodes fuel (d + 1)) d (dropWhile is_VAL ts))
       (\<lambda>b. rbind (parse_nodes fuel d (snd b))
              (\<lambda>m. Inr (Node name (map val_of (takeWhile is_VAL ts)) (fst b) # fst m, snd m)))"
  by (simp only: parse_nodes.simps Let_def opt_block_def)

lemma opt_block_cases:
  obtains (block) block where "a = LB # block" "\<not> d \<ge> MAX_NESTING_DEPTH" "\<And>p. opt_block p d a = p block"
  | (deep) "\<And>p. opt_block p d a = Inl (bad_request (lit ''blocks nested too deeply''))"
  | (none) "\<And>p. opt_block p d a = Inr ([], a)"
proof (cases a)
  case Nil
  show thesis by (rule none) (simp add: opt_block_def Nil)
next
  case (Cons t r)
  show thesis
  proof (cases "t = LB")
    case True
    show thesis
    proof (cases "d \<ge> MAX_NESTING_DEPTH")
      case deep': True
      show thesis by (rule deep) (simp add: opt_block_def Cons True deep')
    next
      case False
      show thesis by (rule block [of r]) (simp_all add: opt_block_def Cons True False)
    qed
  next
    case False
    then show thesis by (intro none) (simp add: opt_block_def Cons split: token.split)
  qed
qed

definition fuel_ok :: "nat \<Rightarrow> nat \<Rightarrow> token list \<Rightarrow> bool" where
  "fuel_ok fuel d ts \<longleftrightarrow>
     parse_nodes fuel d ts \<noteq> Inl OutOfFuel
     \<and> (\<forall>p. parse_nodes fuel d ts = Inr p \<longrightarrow> length (snd p) \<le> length ts)"

lemma fuel_ok_name:
  assumes IH: "\<And>d ts. length ts < fuel \<Longrightarrow> fuel_ok fuel d ts" and len: "length ts < fuel"
  shows "fuel_ok (Suc fuel) d (VAL (PStr name) # ts)"
proof -
  let ?a = "dropWhile is_VAL ts"
  let ?b = "opt_block (parse_nodes fuel (d + 1)) d ?a"
  have a: "length ?a \<le> length ts" by (rule after_args_length)
  have b: "?b \<noteq> Inl OutOfFuel \<and> (\<forall>p. ?b = Inr p \<longrightarrow> length (snd p) \<le> length ts)"
  proof (cases rule: opt_block_cases [of ?a d])
    case (block block)
    then have "fuel_ok fuel (d + 1) block" using IH a len by simp
    with block a show ?thesis by (fastforce simp: fuel_ok_def)
  qed (use a in \<open>auto simp: bad_request_def\<close>)
  show ?thesis
  proof (cases ?b)
    case (Inl e)
    with b show ?thesis unfolding fuel_ok_def parse_nodes_name by simp
  next
    case (Inr p)
    with b have l: "length (snd p) \<le> length ts" by blast
    then have "fuel_ok fuel d (snd p)" using IH len by simp
    with Inr l show ?thesis
      unfolding fuel_ok_def parse_nodes_name by (fastforce simp: rbind_eq_Inr_iff rbind_eq_Inl_iff)
  qed
qed

lemma parse_nodes_fuel: "length ts < fuel \<Longrightarrow> fuel_ok fuel d ts"
proof (induction fuel arbitrary: d ts)
  case (Suc fuel)
  show ?case
  proof (cases ts)
    case Nil
    then show ?thesis by (simp add: fuel_ok_def bad_request_def)
  next
    case (Cons t r)
    with Suc.prems have r: "length r < fuel" by simp
    show ?thesis
    proof (cases t)
      case NL
      then show ?thesis using Suc.IH [OF r, of d] Cons by (auto simp: fuel_ok_def)
    next
      case (VAL v)
      then show ?thesis
        using fuel_ok_name [OF Suc.IH r] Cons
        by (cases v) (auto simp: fuel_ok_def bad_request_def simp del: parse_nodes.simps(6))
    qed (auto simp: Cons fuel_ok_def bad_request_def)
  qed
qed simp

text \<open>More fuel does not change an answer.\<close>

lemma parse_nodes_mono:
  "parse_nodes fuel d ts \<noteq> Inl OutOfFuel \<Longrightarrow> fuel \<le> fuel' \<Longrightarrow>
     parse_nodes fuel' d ts = parse_nodes fuel d ts"
proof (induction fuel arbitrary: fuel' d ts)
  case (Suc fuel)
  from Suc.prems(2) obtain g where g: "fuel' = Suc g" "fuel \<le> g" by (cases fuel') auto
  have ih: "parse_nodes g e us = parse_nodes fuel e us"
    if "parse_nodes fuel e us \<noteq> Inl OutOfFuel" for e us
    by (rule Suc.IH [OF that g(2)])
  have name: "parse_nodes (Suc g) d (VAL (PStr name) # r) = parse_nodes (Suc fuel) d (VAL (PStr name) # r)"
    if ne: "parse_nodes (Suc fuel) d (VAL (PStr name) # r) \<noteq> Inl OutOfFuel" for name r
  proof -
    let ?a = "dropWhile is_VAL r"
    have "opt_block (parse_nodes fuel (d + 1)) d ?a \<noteq> Inl OutOfFuel"
      using ne unfolding parse_nodes_name by auto
    then have "opt_block (parse_nodes g (d + 1)) d ?a = opt_block (parse_nodes fuel (d + 1)) d ?a"
      by (cases rule: opt_block_cases [of ?a d]) (auto simp: ih)
    moreover have "parse_nodes g d (snd p) = parse_nodes fuel d (snd p)"
      if "opt_block (parse_nodes fuel (d + 1)) d ?a = Inr p" for p
      using ne that unfolding parse_nodes_name by (cases p) (auto simp: rbind_eq_Inl_iff ih)
    ultimately show ?thesis
      unfolding parse_nodes_name by (cases "opt_block (parse_nodes fuel (d + 1)) d ?a") simp_all
  qed
  show ?case
  proof (cases ts)
    case (Cons t r)
    show ?thesis
    proof (cases t)
      case (VAL v)
      then show ?thesis using name Suc.prems(1) Cons g(1)
        by (cases v) (auto simp del: parse_nodes.simps(6))
    qed (use Suc.prems(1) ih Cons g in auto)
  qed (simp add: g(1))
qed simp

lemma tokenize_not_fuel: "tokenize s \<noteq> Inl OutOfFuel"
proof -
  have chr: "chr_of i \<noteq> Inl OutOfFuel" for i by (simp add: chr_of_def)
  have hx: "int_of_hex t \<noteq> Inl OutOfFuel" for t
    by (simp add: int_of_hex_def Let_def split: prod.split list.split option.split)
  have un: "unescape t \<noteq> Inl OutOfFuel" for t
    using chr hx
    by (cases t) (auto simp: unescape_def Let_def bad_request_def rbind_eq_Inl_iff
        value_error_as_eq_Inl_iff)
  have sc: "scan_string t \<noteq> Inl OutOfFuel" for t
    by (induction t rule: scan_string.induct) (auto simp: un rbind_eq_Inl_iff bad_request_def)
  have pb: "parse_bare w \<noteq> Inl OutOfFuel" for w
    by (auto simp: parse_bare_def int_of_dec_def bad_request_def rbind_eq_Inl_iff
        split: prod.splits if_splits)
  show ?thesis
    by (induction s rule: tokenize.induct) (auto simp: sc pb rbind_eq_Inl_iff)
qed

lemma parse_total: "parse s \<noteq> Inl OutOfFuel"
  using tokenize_not_fuel parse_nodes_fuel
  by (auto simp: parse_def rbind_eq_Inl_iff fuel_ok_def)

section \<open>Well-formed documents\<close>

text \<open>
  What the protocol sends: names that are bare identifiers, integers of 64 bits,
  any texts, blocks nested no deeper than the parser admits.
\<close>

definition ok_val :: "pyval \<Rightarrow> bool" where
  "ok_val v \<longleftrightarrow> (case v of PInt i \<Rightarrow> - (2 ^ 63) \<le> i \<and> i < 2 ^ 63 | _ \<Rightarrow> True)"

fun height :: "node list \<Rightarrow> nat" where
  "height [] = 0"
| "height (Node _ _ cs # r) = max (if cs = [] then 0 else Suc (height cs)) (height r)"

fun ok_nodes :: "node list \<Rightarrow> bool" where
  "ok_nodes [] \<longleftrightarrow> True"
| "ok_nodes (Node n args cs # r) \<longleftrightarrow>
     is_bare n \<and> list_all ok_val args \<and> ok_nodes cs \<and> ok_nodes r"

definition ok_doc :: "node list \<Rightarrow> bool" where
  "ok_doc ns \<longleftrightarrow> ok_nodes ns \<and> height ns \<le> MAX_NESTING_DEPTH"

lemma height_append [simp]: "height (xs @ ys) = max (height xs) (height ys)"
  by (induction xs rule: height.induct) auto

lemma ok_nodes_append [simp]: "ok_nodes (xs @ ys) \<longleftrightarrow> ok_nodes xs \<and> ok_nodes ys"
  by (induction xs rule: ok_nodes.induct) auto

section \<open>Printed values are read back\<close>

definition escape_char :: "nat \<Rightarrow> pystr" where
  "escape_char c =
     (if c = 92 then [92, 92] else if c = 34 then [92, 34] else if c = 10 then [92, 110]
      else if c = 9 then [92, 116] else if c = 13 then [92, 114] else [c])"

lemma replace_char_Nil [simp]: "replace_char a w [] = []"
  by (simp add: replace_char_def)

lemma replace_char_Cons: "replace_char a w (c # s) = (if c = a then w else [c]) @ replace_char a w s"
  by (simp add: replace_char_def)

lemma replace_char_append [simp]: "replace_char a w (s @ t) = replace_char a w s @ replace_char a w t"
  by (simp add: replace_char_def)

text \<open>The five successive replacements act on each character by itself.\<close>

lemma escape_charwise: "escape s = concat (map escape_char s)"
proof (induction s)
  case Nil
  show ?case by (simp add: escape_def)
next
  case (Cons c s)
  have "escape (c # s) = escape_char c @ escape s"
    by (simp add: escape_def escape_char_def Let_def replace_char_Cons)
  with Cons.IH show ?case by simp
qed

lemma scan_escape_char:
  "scan_string (escape_char c @ s) = rbind (scan_string s) (\<lambda>q. Inr (c # fst q, snd q))"
  by (auto simp: escape_char_def unescape_def)

lemma scan_escaped: "scan_string (escape s @ 34 # rest) = Inr (s, rest)"
proof -
  have "scan_string (concat (map escape_char s) @ 34 # rest) = Inr (s, rest)"
    by (induction s) (simp_all add: scan_escape_char)
  then show ?thesis by (simp add: escape_charwise)
qed

definition at_boundary :: "pystr \<Rightarrow> bool" where
  "at_boundary s \<longleftrightarrow> (case s of [] \<Rightarrow> True | c # _ \<Rightarrow> is_delim c)"

lemma at_boundary_simps [simp]:
  "at_boundary []" "at_boundary (c # s) \<longleftrightarrow> is_delim c"
  by (simp_all add: at_boundary_def)

lemma is_delim_simps [simp]:
  "is_delim 32" "is_delim 10" "is_delim 123" "is_delim 125"
  by (simp_all add: is_delim_def)

text \<open>A word without delimiters is scanned whole.\<close>

lemma tokenize_word:
  assumes "w \<noteq> []" and "\<forall>c \<in> set w. \<not> is_delim c" and "at_boundary rest"
  shows "tokenize (w @ rest) =
    rbind (parse_bare w) (\<lambda>v. rbind (tokenize rest) (\<lambda>ts. Inr (VAL v # ts)))"
proof -
  obtain c cs where w: "w = c # cs" using assms(1) by (cases w) auto
  have stop: "rest = [] \<or> \<not> \<not> is_delim (hd rest)" using assms(3) by (cases rest) auto
  have word: "\<forall>c \<in> set cs. \<not> is_delim c" using assms(2) w by simp
  have "takeWhile (\<lambda>c. \<not> is_delim c) (cs @ rest) = cs"
    by (rule takeWhile_append_stop [OF word stop])
  moreover have "dropWhile (\<lambda>c. \<not> is_delim c) (cs @ rest) = rest"
    by (rule dropWhile_append_stop [OF word stop])
  moreover have "\<not> is_delim c" using assms(2) w by simp
  ultimately show ?thesis by (simp add: w is_delim_def)
qed

lemma bare_char_not_delim: "bare_char c \<Longrightarrow> \<not> is_delim c"
  by (auto simp: bare_char_def is_delim_def is_alpha_def is_digit_def)

lemma bare_start_char: "bare_start c \<Longrightarrow> bare_char c"
  by (auto simp: bare_start_def bare_char_def)

lemma is_bare_chars: "is_bare s \<Longrightarrow> s \<noteq> [] \<and> (\<forall>c \<in> set s. \<not> is_delim c)"
  using bare_char_not_delim bare_start_char
  by (cases s) (auto simp: is_bare_def list_all_iff)

lemma parse_bare_word: "is_bare s \<Longrightarrow> parse_bare s = Inr (PStr s)"
proof -
  assume b: "is_bare s"
  then obtain c cs where s: "s = c # cs" "bare_start c" by (cases s) (auto simp: is_bare_def)
  then have "\<not> is_int_word s"
    by (auto simp: is_int_word_def sign_split_def bare_start_def is_digit_def is_alpha_def)
  with b show ?thesis by (auto simp: parse_bare_def is_bare_def is_keyword_def)
qed

lemma int_str_not_keyword:
  "int_str i \<noteq> lit ''true''" "int_str i \<noteq> lit ''false''" "int_str i \<noteq> lit ''null''"
  using int_str_hd [of i] by (auto simp: lit_def is_digit_def)

lemma parse_bare_int: "ok_val (PInt i) \<Longrightarrow> parse_bare (int_str i) = Inr (PInt i)"
proof -
  assume ok: "ok_val (PInt i)"
  then have "\<bar>i\<bar> \<le> 2 ^ 64" by (auto simp: ok_val_def abs_le_iff)
  then have "int_of_dec (int_str i) = Inr i"
    by (intro int_of_dec_int_str small_int_limit)
  with ok show ?thesis by (simp add: parse_bare_def int_str_not_keyword ok_val_def)
qed

lemma int_str_no_delim: "\<forall>c \<in> set (int_str i). \<not> is_delim c"
  using int_str_chars by (fastforce simp: is_delim_def is_digit_def)

text \<open>The token of a printed value is the value.\<close>

lemma tokenize_value:
  assumes "ok_val v" and "at_boundary rest"
  shows "tokenize (format_value v @ rest) = rbind (tokenize rest) (\<lambda>ts. Inr (VAL v # ts))"
proof (cases v)
  case PNone
  then show ?thesis
    using tokenize_word [of "lit ''null''" rest] assms(2)
    by (simp add: format_value_def parse_bare_def lit_def is_delim_def)
next
  case (PBool b)
  then show ?thesis
    using tokenize_word [of "lit ''true''" rest] tokenize_word [of "lit ''false''" rest] assms(2)
    by (cases b) (simp_all add: format_value_def parse_bare_def lit_def is_delim_def)
next
  case (PInt i)
  then show ?thesis
    using tokenize_word [of "int_str i" rest] parse_bare_int [of i] int_str_no_delim assms
    by (simp add: format_value_def)
next
  case (PStr s)
  show ?thesis
  proof (cases "is_bare s")
    case True
    with PStr show ?thesis
      using tokenize_word [of s rest] is_bare_chars [OF True] parse_bare_word [OF True] assms(2)
      by (simp add: format_value_def)
  next
    case False
    with PStr show ?thesis by (simp add: format_value_def scan_escaped)
  qed
qed

section \<open>Printed lines\<close>

text \<open>
  \<open>lexes l ts\<close>: the line \<open>l\<close>, followed by the end of the text or by a line feed,
  is scanned as exactly the tokens \<open>ts\<close>.
\<close>

definition line_end :: "pystr \<Rightarrow> bool" where
  "line_end s \<longleftrightarrow> s = [] \<or> hd s = 10"

definition lexes :: "pystr \<Rightarrow> token list \<Rightarrow> bool" where
  "lexes l ts \<longleftrightarrow>
     (\<forall>rest. line_end rest \<longrightarrow> tokenize (l @ rest) = rbind (tokenize rest) (\<lambda>us. Inr (ts @ us)))"

lemma join_with_Cons: "join_with c (x # xs) = x @ concat (map (\<lambda>y. c # y) xs)"
  by (induction xs arbitrary: x) auto

lemma tokenize_pad: "tokenize (replicate n 32 @ s) = tokenize s"
  by (induction n) auto

lemma tokenize_args:
  assumes "list_all ok_val args" and "at_boundary rest"
  shows "tokenize (concat (map (\<lambda>v. 32 # format_value v) args) @ rest) =
    rbind (tokenize rest) (\<lambda>us. Inr (map VAL args @ us))"
  using assms(1)
proof (induction args)
  case Nil
  then show ?case by (cases "tokenize rest") auto
next
  case (Cons v args)
  have "at_boundary (concat (map (\<lambda>v. 32 # format_value v) args) @ rest)"
    using assms(2) by (cases args) auto
  with Cons show ?case
    by (simp add: tokenize_value rbind_assoc)
qed

lemma lexes_node:
  assumes "is_bare n" and "list_all ok_val args"
    and t: "\<And>rest. line_end rest \<Longrightarrow>
      tokenize (tail @ rest) = rbind (tokenize rest) (\<lambda>us. Inr (more @ us))"
    and b: "at_boundary tail \<and> (tail = [] \<longrightarrow> more = [])"
  shows "lexes (replicate k 32 @ join_with 32 (n # map format_value args) @ tail)
    (VAL (PStr n) # map VAL args @ more)"
  unfolding lexes_def
proof (intro allI impI)
  fix rest assume end': "line_end rest"
  have bd: "at_boundary (tail @ rest)"
    using b end' by (cases tail; cases rest) (auto simp: line_end_def)
  let ?args = "concat (map (\<lambda>v. 32 # format_value v) args) @ tail @ rest"
  have "at_boundary ?args" using bd by (cases args) auto
  then have "tokenize (n @ ?args) = rbind (tokenize ?args) (\<lambda>us. Inr (VAL (PStr n) # us))"
    using tokenize_word [of n ?args] is_bare_chars [OF assms(1)] parse_bare_word [OF assms(1)] by simp
  also have "\<dots> = rbind (tokenize rest) (\<lambda>us. Inr (VAL (PStr n) # map VAL args @ more @ us))"
    by (simp add: tokenize_args [OF assms(2) bd] t [OF end'] rbind_assoc)
  finally show "tokenize ((replicate k 32 @ join_with 32 (n # map format_value args) @ tail) @ rest) =
      rbind (tokenize rest) (\<lambda>us. Inr ((VAL (PStr n) # map VAL args @ more) @ us))"
    by (simp add: tokenize_pad join_with_Cons comp_def)
qed

text \<open>The tokens of the lines of a list of nodes, line by line.\<close>

fun line_tokens :: "node list \<Rightarrow> token list list" where
  "line_tokens [] = []"
| "line_tokens (Node n args cs # r) =
     (if cs \<noteq> [] then [VAL (PStr n) # map VAL args @ [LB]] @ line_tokens cs @ [[RB]]
      else [VAL (PStr n) # map VAL args])
     @ line_tokens r"

lemma lexes_lines:
  "ok_nodes ns \<Longrightarrow> list_all2 lexes (serialize_into ns k) (line_tokens ns)"
proof (induction ns k rule: serialize_into.induct)
  case (2 n args cs r k)
  have open_line: "lexes (replicate k 32 @ join_with 32 (n # map format_value args) @ [32, 123])
      (VAL (PStr n) # map VAL args @ [LB])"
    using 2 by (intro lexes_node) auto
  have plain_line: "lexes (replicate k 32 @ join_with 32 (n # map format_value args))
      (VAL (PStr n) # map VAL args)"
    using 2 lexes_node [of n args "[]" "[]" k] by (force simp: rbind_def split: sum.split)
  have close_line: "lexes (replicate k 32 @ [125]) [RB]"
    by (simp add: lexes_def tokenize_pad)
  show ?case
    using 2 open_line plain_line close_line by (auto simp: Let_def intro!: list_all2_appendI)
qed simp

lemma tokenize_lines:
  "list_all2 lexes ls tss \<Longrightarrow>
     tokenize (concat (map (\<lambda>l. 10 # l) ls)) = Inr (concat (map (\<lambda>ts. NL # ts) tss))"
proof (induction ls tss rule: list_all2_induct)
  case (Cons l ls ts tss)
  have "line_end (concat (map (\<lambda>l. 10 # l) ls))" by (cases ls) (auto simp: line_end_def)
  with Cons show ?case by (simp add: lexes_def)
qed simp

definition doc_tokens :: "node list \<Rightarrow> token list" where
  "doc_tokens ns = concat (map (\<lambda>ts. NL # ts) (line_tokens ns))"

lemma tokenize_joined:
  assumes "list_all2 lexes ls (line_tokens ns)" and "ls \<noteq> []"
  shows "tokenize (10 # join_with 10 ls) = Inr (doc_tokens ns)"
proof -
  obtain l r where ls: "ls = l # r" using assms(2) by (cases ls) auto
  have "tokenize (concat (map (\<lambda>l. 10 # l) ls)) = Inr (doc_tokens ns)"
    unfolding doc_tokens_def by (rule tokenize_lines [OF assms(1)])
  then show ?thesis unfolding ls join_with_Cons by (simp del: tokenize.simps)
qed

section \<open>The round trip\<close>

lemma doc_tokens_Nil [simp]: "doc_tokens [] = []"
  by (simp add: doc_tokens_def)

lemma doc_tokens_Cons:
  "doc_tokens (Node n args cs # r) =
     NL # VAL (PStr n) # map VAL args
       @ (if cs = [] then [] else LB # doc_tokens cs @ [NL, RB]) @ doc_tokens r"
  by (simp add: doc_tokens_def)

definition starts_line :: "token list \<Rightarrow> bool" where
  "starts_line ts \<longleftrightarrow> (case ts of [] \<Rightarrow> True | t # _ \<Rightarrow> t = NL)"

lemma starts_line_simps [simp]: "starts_line []" "starts_line (t # ts) \<longleftrightarrow> t = NL"
  by (simp_all add: starts_line_def)

lemma starts_line_doc: "starts_line rest \<Longrightarrow> starts_line (doc_tokens ns @ rest)"
proof (cases ns)
  case (Cons m r)
  then show ?thesis by (cases m) (simp add: doc_tokens_Cons)
qed simp

lemma args_split:
  assumes "starts_line r \<or> hd r = LB"
  shows "takeWhile is_VAL (map VAL args @ r) = map VAL args"
    and "dropWhile is_VAL (map VAL args @ r) = r"
proof -
  have r: "r = [] \<or> \<not> is_VAL (hd r)"
    using assms by (cases r) (auto simp: is_VAL_def)
  have a: "\<forall>t \<in> set (map VAL args). is_VAL t" by (auto simp: is_VAL_def)
  show "takeWhile is_VAL (map VAL args @ r) = map VAL args"
    by (rule takeWhile_append_stop [OF a r])
  show "dropWhile is_VAL (map VAL args @ r) = r"
    by (rule dropWhile_append_stop [OF a r])
qed

text \<open>
  \<open>reads d ts p\<close>: given enough fuel, \<open>parse_nodes\<close> at depth \<open>d\<close> answers \<open>p\<close> on
  the tokens \<open>ts\<close>.
\<close>

definition reads :: "nat \<Rightarrow> token list \<Rightarrow> node list \<times> token list \<Rightarrow> bool" where
  "reads d ts p \<longleftrightarrow> (\<exists>k. \<forall>fuel \<ge> k. parse_nodes fuel d ts = Inr p)"

lemma reads_NL: "reads d ts p \<Longrightarrow> reads d (NL # ts) p"
proof -
  assume "reads d ts p"
  then obtain k where k: "\<And>fuel. fuel \<ge> k \<Longrightarrow> parse_nodes fuel d ts = Inr p"
    by (auto simp: reads_def)
  have "parse_nodes fuel d (NL # ts) = Inr p" if "fuel \<ge> Suc k" for fuel
    using that k by (cases fuel) auto
  then show ?thesis unfolding reads_def by blast
qed

lemma reads_end: "reads 0 [] ([], [])"
  and reads_close: "d > 0 \<Longrightarrow> reads d (RB # ts) ([], ts)"
proof -
  have "parse_nodes fuel 0 [] = Inr ([], [])" if "fuel \<ge> 1" for fuel
    using that by (cases fuel) auto
  then show "reads 0 [] ([], [])" unfolding reads_def by blast
next
  assume "d > 0"
  then have "parse_nodes fuel d (RB # ts) = Inr ([], ts)" if "fuel \<ge> 1" for fuel
    using that by (cases fuel) auto
  then show "reads d (RB # ts) ([], ts)" unfolding reads_def by blast
qed

lemma reads_name_plain:
  assumes "reads d r (ms, q)" and "starts_line r"
  shows "reads d (VAL (PStr n) # map VAL args @ r) (Node n args [] # ms, q)"
proof -
  obtain k where k: "\<And>fuel. fuel \<ge> k \<Longrightarrow> parse_nodes fuel d r = Inr (ms, q)"
    using assms(1) by (auto simp: reads_def)
  have block: "opt_block p d r = Inr ([], r)" for p
    using assms(2) by (cases r) (auto simp: opt_block_def)
  have "parse_nodes (Suc g) d (VAL (PStr n) # map VAL args @ r) = Inr (Node n args [] # ms, q)"
    if "g \<ge> k" for g
    unfolding parse_nodes_name args_split [OF disjI1 [OF assms(2)]]
    by (simp add: block k [OF that] comp_def val_of_def)
  then have "parse_nodes fuel d (VAL (PStr n) # map VAL args @ r) = Inr (Node n args [] # ms, q)"
    if "fuel \<ge> Suc k" for fuel using that by (cases fuel) auto
  then show ?thesis unfolding reads_def by blast
qed

lemma reads_name_block:
  assumes "reads (d + 1) b (cs, r)" and "d < MAX_NESTING_DEPTH" and "reads d r (ms, q)"
  shows "reads d (VAL (PStr n) # map VAL args @ LB # b) (Node n args cs # ms, q)"
proof -
  obtain k where k: "\<And>fuel. fuel \<ge> k \<Longrightarrow> parse_nodes fuel (d + 1) b = Inr (cs, r)"
    using assms(1) by (auto simp: reads_def)
  obtain l where l: "\<And>fuel. fuel \<ge> l \<Longrightarrow> parse_nodes fuel d r = Inr (ms, q)"
    using assms(3) by (auto simp: reads_def)
  have block: "opt_block p d (LB # b) = p b" for p
    using assms(2) by (simp add: opt_block_def)
  have head: "starts_line (LB # b) \<or> hd (LB # b) = LB" by simp
  have "parse_nodes (Suc g) d (VAL (PStr n) # map VAL args @ LB # b) = Inr (Node n args cs # ms, q)"
    if "g \<ge> max k l" for g
    unfolding parse_nodes_name args_split [OF head] block
    using that k l by (simp add: comp_def val_of_def)
  then have "parse_nodes fuel d (VAL (PStr n) # map VAL args @ LB # b) = Inr (Node n args cs # ms, q)"
    if "fuel \<ge> Suc (max k l)" for fuel using that by (cases fuel) auto
  then show ?thesis unfolding reads_def by blast
qed

lemma reads_doc:
  "d + height ns \<le> MAX_NESTING_DEPTH \<Longrightarrow> reads d rest (ms, q) \<Longrightarrow> starts_line rest \<Longrightarrow>
     reads d (doc_tokens ns @ rest) (ns @ ms, q)"
proof (induction ns arbitrary: d rest ms q rule: height.induct)
  case (2 n args cs r)
  have tail: "reads d (doc_tokens r @ rest) (r @ ms, q)"
    using 2 by simp
  show ?case
  proof (cases "cs = []")
    case True
    show ?thesis
      using reads_NL [OF reads_name_plain [OF tail starts_line_doc [OF 2(5)]]]
      by (simp add: doc_tokens_Cons True)
  next
    case False
    have "reads (d + 1) (doc_tokens cs @ NL # RB # doc_tokens r @ rest) (cs @ [], doc_tokens r @ rest)"
      using 2(3) False by (intro 2(1) reads_NL reads_close) auto
    then have "reads (d + 1) (doc_tokens cs @ NL # RB # doc_tokens r @ rest) (cs, doc_tokens r @ rest)"
      by simp
    moreover have "d < MAX_NESTING_DEPTH" using 2(3) False by simp
    ultimately show ?thesis
      using reads_NL [OF reads_name_block [OF _ _ tail]] False
      by (simp add: doc_tokens_Cons)
  qed
qed simp

text \<open>Enough fuel is what \<open>parse\<close> has.\<close>

lemma parse_reads:
  assumes "tokenize s = Inr ts" and "reads 0 ts (ns, q)"
  shows "parse s = Inr ns"
proof -
  obtain k where k: "\<And>fuel. fuel \<ge> k \<Longrightarrow> parse_nodes fuel 0 ts = Inr (ns, q)"
    using assms(2) by (auto simp: reads_def)
  let ?f = "length ts + 1"
  have "parse_nodes ?f 0 ts \<noteq> Inl OutOfFuel"
    using parse_nodes_fuel [of ts ?f 0] by (simp add: fuel_ok_def)
  then have "parse_nodes (max k ?f) 0 ts = parse_nodes ?f 0 ts"
    by (rule parse_nodes_mono) simp
  with k [of "max k ?f"] have "parse_nodes ?f 0 ts = Inr (ns, q)" by simp
  with assms(1) show ?thesis by (simp add: parse_def)
qed

lemma tokenize_newline: "tokenize (10 # s) = rbind (tokenize s) (\<lambda>ts. Inr (NL # ts))"
  by simp

text \<open>Lines that are scanned as the tokens of a document are parsed as that document.\<close>

lemma parse_lines:
  assumes "list_all2 lexes ls (line_tokens ns)" and "height ns \<le> MAX_NESTING_DEPTH"
  shows "parse (join_with 10 ls) = Inr ns"
proof (cases "ls = []")
  case True
  with assms(1) have "line_tokens ns = []" by simp
  then have "ns = []" by (cases ns rule: line_tokens.cases) (auto split: if_splits)
  with True show ?thesis by (simp add: parse_def)
next
  case False
  obtain ts where ts: "tokenize (join_with 10 ls) = Inr ts" "doc_tokens ns = NL # ts"
    using tokenize_joined [OF assms(1) False] unfolding tokenize_newline
    by (auto simp: rbind_eq_Inr_iff)
  have "reads 0 (doc_tokens ns @ []) (ns @ [], [])"
    using assms(2) by (intro reads_doc reads_end) auto
  then obtain k where k: "\<And>fuel. fuel \<ge> k \<Longrightarrow> parse_nodes fuel 0 (NL # ts) = Inr (ns, [])"
    by (auto simp: reads_def ts(2))
  have "reads 0 ts (ns, [])"
    unfolding reads_def using k by (metis le_SucI parse_nodes.simps(3))
  then show ?thesis by (rule parse_reads [OF ts(1)])
qed

lemma parse_serialize: "ok_doc ns \<Longrightarrow> parse (serialize ns) = Inr ns"
  by (simp add: serialize_def ok_doc_def parse_lines lexes_lines)

interpretation kdl: codec ok_doc serialize parse
  by unfold_locales (rule parse_serialize)

section \<open>What the parser returns\<close>

fun args_ok :: "node list \<Rightarrow> bool" where
  "args_ok [] \<longleftrightarrow> True"
| "args_ok (Node n args cs # r) \<longleftrightarrow> list_all ok_val args \<and> args_ok cs \<and> args_ok r"

definition tok_ok :: "token \<Rightarrow> bool" where
  "tok_ok t \<longleftrightarrow> ok_val (val_of t)"

lemma tok_ok_simps [simp]: "tok_ok NL" "tok_ok LB" "tok_ok RB" "tok_ok (VAL v) \<longleftrightarrow> ok_val v"
  by (simp_all add: tok_ok_def val_of_def ok_val_def)

lemma parse_bare_ok: "parse_bare w = Inr v \<Longrightarrow> ok_val v"
  by (auto simp: parse_bare_def ok_val_def rbind_eq_Inr_iff split: if_splits)

lemma ok_val_str [simp]: "ok_val (PStr s)"
  by (simp add: ok_val_def)

lemma tokenize_ok: "tokenize s = Inr ts \<Longrightarrow> list_all tok_ok ts"
  by (induction s arbitrary: ts rule: tokenize.induct)
    (auto simp: rbind_eq_Inr_iff parse_bare_ok split: if_splits)

text \<open>One call of \<open>parse_nodes\<close> stays within the bounds.\<close>

definition bounded_at :: "nat \<Rightarrow> node list \<times> token list \<Rightarrow> bool" where
  "bounded_at d p \<longleftrightarrow>
     d + height (fst p) \<le> MAX_NESTING_DEPTH \<and> args_ok (fst p) \<and> list_all tok_ok (snd p)"

lemma list_all_takeWhile: "list_all P xs \<Longrightarrow> list_all P (takeWhile Q xs)"
  and list_all_dropWhile: "list_all P xs \<Longrightarrow> list_all P (dropWhile Q xs)"
  by (induction xs) auto

lemma parse_nodes_bounded:
  "parse_nodes fuel d ts = Inr p \<Longrightarrow> list_all tok_ok ts \<Longrightarrow> d \<le> MAX_NESTING_DEPTH \<Longrightarrow> bounded_at d p"
proof (induction fuel arbitrary: d ts p)
  case (Suc fuel)
  have name: "bounded_at d p"
    if pn: "parse_nodes (Suc fuel) d (VAL (PStr n) # r) = Inr p" and ok: "list_all tok_ok r" for n r
  proof -
    let ?a = "dropWhile is_VAL r"
    obtain b m where b: "opt_block (parse_nodes fuel (d + 1)) d ?a = Inr b"
      and m: "parse_nodes fuel d (snd b) = Inr m"
      and p: "p = (Node n (map val_of (takeWhile is_VAL r)) (fst b) # fst m, snd m)"
      using pn unfolding parse_nodes_name by (auto simp: rbind_eq_Inr_iff)
    have okb: "(fst b \<noteq> [] \<longrightarrow> Suc d + height (fst b) \<le> MAX_NESTING_DEPTH)
        \<and> args_ok (fst b) \<and> list_all tok_ok (snd b)"
    proof (cases rule: opt_block_cases [of ?a d])
      case (block blk)
      have "list_all tok_ok blk" using list_all_dropWhile [OF ok, of is_VAL] block(1) by simp
      then have "bounded_at (d + 1) b" using Suc.IH b block by auto
      then show ?thesis by (auto simp: bounded_at_def)
    qed (use b list_all_dropWhile [OF ok] in auto)
    then have "bounded_at d m" using Suc.IH [OF m _ Suc.prems(3)] by simp
    moreover have "list_all ok_val (map val_of (takeWhile is_VAL r))"
      using list_all_takeWhile [OF ok, of is_VAL] by (simp add: list_all_iff tok_ok_def)
    ultimately show ?thesis using okb Suc.prems(3) by (auto simp: bounded_at_def p)
  qed
  show ?case
  proof (cases ts)
    case Nil
    with Suc.prems show ?thesis by (auto simp: bounded_at_def split: if_splits)
  next
    case (Cons t r)
    show ?thesis
    proof (cases t)
      case (VAL v)
      with Suc.prems Cons name show ?thesis
        by (cases v) (auto simp del: parse_nodes.simps(6))
    qed (use Suc Cons in \<open>auto simp: bounded_at_def split: if_splits\<close>)
  qed
qed simp

section \<open>Properties\<close>

text \<open>
  C33. Printing and parsing a document are inverse: for every document of bare
  names, 64-bit integers and any texts (quotes, backslashes, line feeds and
  non-ASCII characters included), nested at most 32 deep, \<open>parse\<close> gives back
  exactly the document that \<open>serialize\<close> printed.
\<close>

theorem kdl_roundtrip:
  assumes "ok_doc ns"
  shows "parse (serialize ns) = Inr ns"
  using assms by (rule kdl.dec_enc)

definition sample_doc :: "node list" where
  "sample_doc =
     [Node (lit ''v'') [PInt 3] [],
      Node (lit ''val'') [PStr (lit ''a b'' @ [34, 92, 10, 8364])] [],
      Node (lit ''error'') [] [Node (lit ''code'') [PStr (lit ''x'')] [], Node (lit ''n'') [PNone, PBool True] []]]"

lemma sample_doc_ok: "ok_doc sample_doc"
  by (simp add: ok_doc_def sample_doc_def lit_def is_bare_def bare_start_def bare_char_def
      is_alpha_def is_digit_def is_keyword_def ok_val_def MAX_NESTING_DEPTH_def)

theorem kdl_roundtrip_witness: "parse (serialize sample_doc) = Inr sample_doc"
  by (rule kdl_roundtrip [OF sample_doc_ok])

text \<open>
  The canonical text that is signed determines the document: two well-formed
  documents with the same text are the same document, so on such documents a
  signature over the text is a signature over the fields.
\<close>

theorem kdl_canonical_text_is_injective:
  assumes "ok_doc ns" and "ok_doc ms" and "serialize ns = serialize ms"
  shows "ns = ms"
  using assms by (rule kdl.enc_inj)

theorem kdl_canonical_text_is_injective_witness:
  "serialize sample_doc \<noteq> serialize (sample_doc @ [Node (lit ''name'') [PNone] []])"
proof
  let ?m = "sample_doc @ [Node (lit ''name'') [PNone] []]"
  assume eq: "serialize sample_doc = serialize ?m"
  have "ok_doc ?m" using sample_doc_ok
    by (simp add: ok_doc_def lit_def is_bare_def bare_start_def bare_char_def
      is_alpha_def is_digit_def is_keyword_def ok_val_def)
  from kdl_canonical_text_is_injective [OF sample_doc_ok this eq] show False by simp
qed

text \<open>
  Whatever text arrives, a successful parse stays within the parser's bounds:
  blocks are nested at most MAX_NESTING_DEPTH deep and every integer argument is
  a 64-bit one.
\<close>

theorem parsed_document_is_bounded:
  assumes "parse s = Inr ns"
  shows "height ns \<le> MAX_NESTING_DEPTH \<and> args_ok ns"
proof -
  obtain ts p where "tokenize s = Inr ts" "parse_nodes (length ts + 1) 0 ts = Inr p" "ns = fst p"
    using assms by (auto simp: parse_def rbind_eq_Inr_iff)
  then show ?thesis
    using parse_nodes_bounded [of "length ts + 1" 0 ts p] tokenize_ok by (simp add: bounded_at_def)
qed

theorem parsed_document_is_bounded_witness:
  "\<exists>ns. parse (lit ''a { b 7 }'') = Inr ns \<and> height ns \<le> MAX_NESTING_DEPTH \<and> args_ok ns"
proof -
  have "parse (lit ''a { b 7 }'') = Inr [Node (lit ''a'') [] [Node (lit ''b'') [PInt 7] []]]"
    by code_simp
  with parsed_document_is_bounded [OF this] show ?thesis by blast
qed

text \<open>
  C32. The recursive descent always ends with an answer: the fuel \<open>parse\<close> gives it
  is enough for every text.
\<close>

theorem parse_terminates: "parse s \<noteq> Inl OutOfFuel"
  by (rule parse_total)

end
