(* ===== verification/Framing.thy ===== *)
theory Framing
  imports Kdl
begin

text \<open>
  The framing layer of \<open>src/kid_pc_monitor/agent_protocol.py\<close>: a body travels as
  its UTF-8 bytes after their number, in decimal, on a line of its own. A
  blocking socket is the list of the results its \<open>recv\<close> calls give, in order:
  each a chunk of bytes or the exception \<open>recv\<close> raises; past the end of the list
  the peer has closed (\<open>recv\<close> gives no bytes).
\<close>

section \<open>The code\<close>

definition MAX_FRAME_BYTES :: nat where
  "MAX_FRAME_BYTES = 64 * 1024"

text \<open>
  The answer of \<open>inspect_frame\<close>: its status with the body and the rest that go with
  it. The body is present exactly for \<open>COMPLETE\<close>; otherwise the rest is the buffer.
\<close>

datatype frame_view = COMPLETE pystr bytes | INCOMPLETE bytes | NOT_FRAME bytes

definition encode_frame :: "pystr \<Rightarrow> bytes res" where
  "encode_frame body =
     rbind (utf8_encode body) (\<lambda>payload. Inr (nat_str (length payload) @ [10] @ payload))"

definition inspect_frame :: "bytes \<Rightarrow> frame_view res" where
  "inspect_frame buffer =
     (if 10 \<notin> set buffer then
        (if buffer \<noteq> [] \<and> bytes_isdigit buffer then Inr (INCOMPLETE buffer) else Inr (NOT_FRAME buffer))
      else
        let head = takeWhile (\<lambda>b. b \<noteq> 10) buffer; body = tl (dropWhile (\<lambda>b. b \<noteq> 10) buffer) in
        if \<not> bytes_isdigit head then Inr (NOT_FRAME buffer)
        else
          rbind (int_of_dec head)
            (\<lambda>len. if len > int MAX_FRAME_BYTES then Inl (bad_request (lit ''frame too large''))
              else if int (length body) < len then Inr (INCOMPLETE buffer)
              else rbind (utf8_decode (take (nat len) body))
                     (\<lambda>text. Inr (COMPLETE text (drop (nat len) body)))))"

type_synonym socket = "bytes res list"

definition closed_before_prefix :: exn where
  "closed_before_prefix =
     ClosedBeforeFrame INVALID_REQUEST (lit ''connection closed before length prefix'') None"

text \<open>The first loop of \<open>read_frame\<close>: receive until the buffer holds a line feed.\<close>

fun read_prefix :: "bytes \<Rightarrow> socket \<Rightarrow> (bytes \<times> socket) res" where
  "read_prefix buffer [] =
     (if 10 \<in> set buffer then Inr (buffer, []) else Inl closed_before_prefix)"
| "read_prefix buffer (r # sock) =
     (if 10 \<in> set buffer then Inr (buffer, r # sock)
      else rbind r
        (\<lambda>chunk. if chunk = [] then Inl closed_before_prefix
          else if length (buffer @ chunk) > MAX_FRAME_BYTES
            then Inl (bad_request (lit ''length prefix too long''))
          else read_prefix (buffer @ chunk) sock))"

text \<open>The second loop: receive until the buffer holds the whole frame.\<close>

definition closed_mid_frame :: exn where
  "closed_mid_frame = bad_request (lit ''connection closed mid-frame'')"

definition not_a_frame :: exn where
  "not_a_frame = bad_request (lit ''expected a length-prefixed frame'')"

fun read_body :: "bytes \<Rightarrow> socket \<Rightarrow> pystr res" where
  "read_body buffer [] =
     rbind (inspect_frame buffer)
       (\<lambda>view. case view of
          COMPLETE body _ \<Rightarrow> Inr body
        | NOT_FRAME _ \<Rightarrow> Inl not_a_frame
        | INCOMPLETE _ \<Rightarrow> Inl closed_mid_frame)"
| "read_body buffer (r # sock) =
     rbind (inspect_frame buffer)
       (\<lambda>view. case view of
          COMPLETE body _ \<Rightarrow> Inr body
        | NOT_FRAME _ \<Rightarrow> Inl not_a_frame
        | INCOMPLETE _ \<Rightarrow>
            rbind r (\<lambda>chunk. if chunk = [] then Inl closed_mid_frame else read_body (buffer @ chunk) sock))"

definition read_frame :: "socket \<Rightarrow> pystr res" where
  "read_frame sock = rbind (read_prefix [] sock) (\<lambda>p. read_body (fst p) (snd p))"

section \<open>Frames and their prefixes\<close>

text \<open>The frame of a body, as bytes.\<close>

lemma encode_frame_shape:
  "encode_frame body = Inr bs \<longleftrightarrow>
     (\<exists>payload. utf8_encode body = Inr payload \<and> bs = nat_str (length payload) @ 10 # payload)"
  by (auto simp: encode_frame_def rbind_eq_Inr_iff)

lemma nat_str_no_newline: "10 \<notin> set (nat_str n)"
  using is_digit_nat_str by (fastforce simp: is_digit_def)

lemma bytes_isdigit_nat_str [simp]: "bytes_isdigit (nat_str n)"
  using is_digit_nat_str by (simp add: bytes_isdigit_def list_all_iff)

lemma int_of_dec_nat_str: "n < 10 ^ max_str_digits \<Longrightarrow> int_of_dec (nat_str n) = Inr (int n)"
proof -
  assume "n < 10 ^ max_str_digits"
  then have "\<bar>int n\<bar> < 10 ^ max_str_digits"
    by (metis of_nat_less_iff of_nat_numeral of_nat_power abs_of_nat)
  from int_of_dec_int_str [OF this] show ?thesis by (simp add: int_str_def)
qed

lemma head_split:
  "takeWhile (\<lambda>b. b \<noteq> 10) (nat_str n @ 10 # t) = nat_str n"
  "dropWhile (\<lambda>b. b \<noteq> 10) (nat_str n @ 10 # t) = 10 # t"
  using nat_str_no_newline [of n]
  by (auto intro!: takeWhile_append_stop dropWhile_append_stop)

text \<open>The limit on the prefix is far below the digit limit of \<open>int\<close>.\<close>

lemma frame_length_readable: "n \<le> MAX_FRAME_BYTES \<Longrightarrow> n < 10 ^ max_str_digits"
proof -
  assume "n \<le> MAX_FRAME_BYTES"
  also have "MAX_FRAME_BYTES < 10 ^ 5" by (simp add: MAX_FRAME_BYTES_def)
  also have "(10::nat) ^ 5 \<le> 10 ^ max_str_digits"
    by (rule power_increasing) (simp_all add: max_str_digits_def)
  finally show ?thesis .
qed

lemma inspect_after_prefix:
  assumes "n < 10 ^ max_str_digits"
  shows "inspect_frame (nat_str n @ 10 # t) =
    (if n > MAX_FRAME_BYTES then Inl (bad_request (lit ''frame too large''))
     else if length t < n then Inr (INCOMPLETE (nat_str n @ 10 # t))
     else rbind (utf8_decode (take n t)) (\<lambda>text. Inr (COMPLETE text (drop n t))))"
  using assms by (simp add: inspect_frame_def head_split int_of_dec_nat_str Let_def)

lemma inspect_strict_prefix:
  assumes "length payload \<le> MAX_FRAME_BYTES" and "buffer \<noteq> []"
    and "buffer @ t = (nat_str (length payload) @ 10 # payload) @ rest"
    and "length buffer < length (nat_str (length payload) @ 10 # payload)"
  shows "inspect_frame buffer = Inr (INCOMPLETE buffer)"
proof -
  let ?n = "length payload"
  let ?h = "nat_str ?n"
  have "take (length buffer) (buffer @ t) = take (length buffer) ((?h @ 10 # payload) @ rest)"
    by (simp only: assms(3))
  then have b: "buffer = take (length buffer) (?h @ 10 # payload)"
    using assms(4) by (simp del: append_assoc)
  show ?thesis
  proof (cases "length buffer \<le> length ?h")
    case True
    then have b': "buffer = take (length buffer) ?h" using b by simp
    then have sub: "set buffer \<subseteq> set ?h" by (metis set_take_subset)
    then have "10 \<notin> set buffer" using nat_str_no_newline by blast
    moreover have "bytes_isdigit buffer"
      using sub is_digit_nat_str assms(2) by (auto simp: bytes_isdigit_def list_all_iff)
    ultimately show ?thesis using assms(2) by (simp add: inspect_frame_def)
  next
    case False
    let ?k = "length buffer - length ?h - 1"
    have "buffer = ?h @ 10 # take ?k payload"
      using b False by (simp add: take_Cons' split: if_splits)
    moreover have "?k < ?n" using assms(4) False by simp
    ultimately show ?thesis
      using inspect_after_prefix [of ?n "take ?k payload"] frame_length_readable assms(1) by simp
  qed
qed

lemma inspect_whole_frame:
  assumes "length payload \<le> MAX_FRAME_BYTES" and "utf8_encode body = Inr payload"
  shows "inspect_frame ((nat_str (length payload) @ 10 # payload) @ rest) = Inr (COMPLETE body rest)"
  using assms inspect_after_prefix [of "length payload" "payload @ rest"] frame_length_readable
  by (simp add: utf8_decode_encode)

section \<open>Reading a frame in pieces\<close>

definition chunk_ok :: "bytes \<Rightarrow> bool" where
  "chunk_ok c \<longleftrightarrow> c \<noteq> [] \<and> length c \<le> 4096"

lemma read_prefix_reaches:
  assumes "length (payload :: bytes) \<le> MAX_FRAME_BYTES" and "list_all chunk_ok chunks"
    and "buffer @ concat chunks = nat_str (length payload) @ 10 # rest"
  shows "\<exists>buffer' chunks'. read_prefix buffer (map Inr chunks @ more) = Inr (buffer', map Inr chunks' @ more)
    \<and> buffer' @ concat chunks' = buffer @ concat chunks \<and> buffer' \<noteq> [] \<and> list_all chunk_ok chunks'"
  using assms(2,3)
proof (induction chunks arbitrary: buffer)
  case Nil
  then have "10 \<in> set buffer" by simp
  then have "read_prefix buffer more = Inr (buffer, more) \<and> buffer \<noteq> []"
    by (cases more) auto
  then show ?case by (intro exI [of _ buffer] exI [of _ "[]"]) simp
next
  case (Cons c cs)
  show ?case
  proof (cases "10 \<in> set buffer")
    case True
    then have "buffer \<noteq> []" by auto
    with True Cons.prems show ?thesis
      by (intro exI [of _ buffer] exI [of _ "c # cs"]) auto
  next
    case False
    let ?h = "nat_str (length payload)"
    have "length buffer \<le> length ?h"
    proof (rule ccontr)
      assume "\<not> length buffer \<le> length ?h"
      then have l: "length ?h < length buffer" by simp
      have "(buffer @ concat (c # cs)) ! length ?h = 10"
        unfolding Cons.prems(2) by (simp add: nth_append)
      with l have "buffer ! length ?h = 10" by (simp add: nth_append)
      with l False show False by (metis nth_mem)
    qed
    moreover have "length ?h \<le> 5"
      using assms(1) by (intro nat_str_length_le) (simp_all add: MAX_FRAME_BYTES_def)
    moreover have c: "c \<noteq> []" "length c \<le> 4096" using Cons.prems(1) by (auto simp: chunk_ok_def)
    ultimately have "length buffer + length c \<le> MAX_FRAME_BYTES" by (simp add: MAX_FRAME_BYTES_def)
    then have "read_prefix buffer (map Inr (c # cs) @ more) = read_prefix (buffer @ c) (map Inr cs @ more)"
      using False c by simp
    with Cons.IH [of "buffer @ c"] Cons.prems show ?thesis by simp
  qed
qed

lemma read_body_chunks:
  assumes "length payload \<le> MAX_FRAME_BYTES" and "utf8_encode body = Inr payload"
    and "list_all chunk_ok chunks" and "buffer \<noteq> []"
    and "buffer @ concat chunks = (nat_str (length payload) @ 10 # payload) @ rest"
  shows "read_body buffer (map Inr chunks @ more) = Inr body"
  using assms(3-5)
proof (induction chunks arbitrary: buffer)
  case Nil
  then show ?case
    using inspect_whole_frame [OF assms(1,2), of rest] by (cases more) auto
next
  case (Cons c cs)
  let ?full = "nat_str (length payload) @ 10 # payload"
  show ?case
  proof (cases "length buffer < length ?full")
    case True
    have "inspect_frame buffer = Inr (INCOMPLETE buffer)"
      by (rule inspect_strict_prefix [OF assms(1) Cons.prems(2,3) True])
    then show ?thesis using Cons by (simp add: chunk_ok_def)
  next
    case False
    let ?r = "drop (length ?full) buffer"
    have "take (length ?full) (buffer @ concat (c # cs)) = ?full"
      unfolding Cons.prems(3) by simp
    with False have "buffer = ?full @ ?r"
      by (metis append_take_drop_id take_append diff_is_0_eq not_less take0 append_Nil2)
    then have "inspect_frame buffer = Inr (COMPLETE body ?r)"
      using inspect_whole_frame [OF assms(1,2), of ?r] by metis
    then show ?thesis by simp
  qed
qed

lemma read_frame_chunks:
  assumes "length payload \<le> MAX_FRAME_BYTES" and "utf8_encode body = Inr payload"
    and "list_all chunk_ok chunks"
    and "concat chunks = (nat_str (length payload) @ 10 # payload) @ rest"
  shows "read_frame (map Inr chunks @ more) = Inr body"
proof -
  obtain b cs where "read_prefix [] (map Inr chunks @ more) = Inr (b, map Inr cs @ more)"
    "b @ concat cs = (nat_str (length payload) @ 10 # payload) @ rest" "b \<noteq> []" "list_all chunk_ok cs"
    using read_prefix_reaches [OF assms(1,3), of "[]" "payload @ rest" more] assms(4) by auto
  then show ?thesis
    using read_body_chunks [OF assms(1,2)] by (simp add: read_frame_def)
qed

lemma concat_singletons: "concat (map (\<lambda>b. [b]) xs) = xs"
  by (induction xs) auto

text \<open>One buffer as a codec: the frame of a body is read back when it comes in one piece of each byte.\<close>

definition frame_bytes :: "pystr \<Rightarrow> socket" where
  "frame_bytes body = (case encode_frame body of Inr bs \<Rightarrow> map (\<lambda>b. Inr [b]) bs | Inl _ \<Rightarrow> [])"

definition fits_frame :: "pystr \<Rightarrow> bool" where
  "fits_frame body \<longleftrightarrow> list_all is_scalar body \<and> length (utf8_bytes body) \<le> MAX_FRAME_BYTES"

interpretation frame: codec fits_frame frame_bytes read_frame
proof unfold_locales
  fix body assume ok: "fits_frame body"
  let ?p = "utf8_bytes body"
  have enc: "utf8_encode body = Inr ?p" using ok by (simp add: fits_frame_def utf8_encode_bytes)
  let ?bs = "nat_str (length ?p) @ 10 # ?p"
  have "frame_bytes body = map Inr (map (\<lambda>b. [b]) ?bs) @ []"
    using enc by (simp add: frame_bytes_def encode_frame_def)
  moreover have "concat (map (\<lambda>b. [b]) ?bs) = ?bs @ []"
    by (simp only: concat_singletons append_Nil2)
  moreover have "list_all chunk_ok (map (\<lambda>b. [b]) ?bs)"
    by (auto simp: chunk_ok_def list_all_iff)
  ultimately show "read_frame (frame_bytes body) = Inr body"
    using read_frame_chunks [OF _ enc, of _ "[]" "[]"] ok unfolding fits_frame_def by metis
qed

text \<open>A frame that fits, in chunks of any sizes, is read back; what follows is not looked at.\<close>

lemma read_fitting_frame:
  assumes "fits_frame body" and "encode_frame body = Inr bs"
    and "list_all chunk_ok chunks" and "concat chunks = bs @ rest"
  shows "read_frame (map Inr chunks @ more) = Inr body"
proof -
  obtain payload where p: "utf8_encode body = Inr payload" "bs = nat_str (length payload) @ 10 # payload"
    using assms(2) by (auto simp: encode_frame_shape)
  moreover have "length payload \<le> MAX_FRAME_BYTES"
    using assms(1) p(1) by (simp add: fits_frame_def utf8_bytes_def)
  ultimately show ?thesis using read_frame_chunks [OF _ p(1) assms(3)] assms(4) by simp
qed

text \<open>A connection closed inside a frame is an error, whatever the chunks.\<close>

lemma read_body_cut:
  assumes "length payload \<le> MAX_FRAME_BYTES" and "list_all chunk_ok chunks"
    and "buffer @ concat chunks @ t = nat_str (length payload) @ 10 # payload" and "t \<noteq> []"
    and "buffer \<noteq> []"
  shows "read_body buffer (map Inr chunks) = Inl closed_mid_frame"
  using assms(2,3,5)
proof (induction chunks arbitrary: buffer)
  case Nil
  have "length buffer < length (nat_str (length payload) @ 10 # payload)"
    using Nil(2) assms(4) by (metis append_Nil concat.simps(1) length_append
        length_greater_0_conv less_add_same_cancel1)
  then have "inspect_frame buffer = Inr (INCOMPLETE buffer)"
    using inspect_strict_prefix [OF assms(1) Nil(3), of t "[]"] Nil(2) by simp
  then show ?case by simp
next
  case (Cons c cs)
  have "length buffer < length (nat_str (length payload) @ 10 # payload)"
    unfolding Cons.prems(2) [symmetric] using assms(4) by simp
  then have "inspect_frame buffer = Inr (INCOMPLETE buffer)"
    using inspect_strict_prefix [OF assms(1) Cons.prems(3), of "concat (c # cs) @ t" "[]"] Cons.prems(2)
    by simp
  with Cons show ?case by (simp add: chunk_ok_def)
qed

lemma read_prefix_cut:
  "list_all chunk_ok chunks \<Longrightarrow> 10 \<notin> set (buffer @ concat chunks) \<Longrightarrow>
     length (buffer @ concat chunks) \<le> MAX_FRAME_BYTES \<Longrightarrow>
     read_prefix buffer (map Inr chunks) = Inl closed_before_prefix"
  by (induction chunks arbitrary: buffer) (auto simp: chunk_ok_def)

lemma read_frame_cut:
  assumes "length payload \<le> MAX_FRAME_BYTES" and "list_all chunk_ok chunks"
    and "concat chunks @ t = nat_str (length payload) @ 10 # payload" and "t \<noteq> []"
  shows "read_frame (map Inr chunks) = Inl closed_before_prefix
    \<or> read_frame (map Inr chunks) = Inl closed_mid_frame"
proof (cases "10 \<in> set (concat chunks)")
  case True
  let ?n = "length payload"
  obtain u v where cc: "concat chunks = u @ 10 # v" "10 \<notin> set u"
    using True by (metis split_list_first)
  have "takeWhile (\<lambda>b. b \<noteq> 10) (concat chunks @ t) = u"
    unfolding cc(1) using cc(2) by (auto intro!: takeWhile_append_stop)
  with assms(3) have "u = nat_str ?n" by (simp add: head_split)
  then have pay: "payload = v @ t" using assms(3) cc(1) by simp
  have whole: "concat chunks = nat_str ?n @ 10 # v" using cc(1) \<open>u = nat_str ?n\<close> by simp
  have "\<exists>b cs. read_prefix [] (map Inr chunks @ []) = Inr (b, map Inr cs @ [])
    \<and> b @ concat cs = [] @ concat chunks \<and> b \<noteq> [] \<and> list_all chunk_ok cs"
    by (rule read_prefix_reaches [OF assms(1,2)]) (simp add: whole)
  then obtain b cs where "read_prefix [] (map Inr chunks) = Inr (b, map Inr cs)"
    "b @ concat cs = concat chunks" "b \<noteq> []" "list_all chunk_ok cs" by auto
  then show ?thesis
    using read_body_cut [OF assms(1), of cs b t] assms(3,4)
    by (metis append.assoc fst_conv rbind_Inr read_frame_def snd_conv)
next
  case False
  have "length (concat chunks) \<le> length (nat_str (length payload))"
  proof (rule ccontr)
    assume "\<not> ?thesis"
    then have "concat chunks ! length (nat_str (length payload)) = 10"
      using arg_cong [OF assms(3), of "\<lambda>l. l ! length (nat_str (length payload))"]
      by (simp add: nth_append)
    with \<open>\<not> ?thesis\<close> False show False by (metis not_le nth_mem)
  qed
  also have "\<dots> \<le> 5"
    using assms(1) by (intro nat_str_length_le) (simp_all add: MAX_FRAME_BYTES_def)
  finally have "length (concat chunks) \<le> MAX_FRAME_BYTES" by (simp add: MAX_FRAME_BYTES_def)
  with False show ?thesis
    using read_prefix_cut [OF assms(2), of "[]"] by (simp add: read_frame_def)
qed

section \<open>Properties\<close>

text \<open>
  C35. However the bytes of a frame arrive (any number of chunks of at most 4096
  bytes, the last one possibly carrying bytes of what follows), \<open>read_frame\<close>
  returns the body that \<open>encode_frame\<close> was given.
\<close>

theorem read_frame_of_any_chunking:
  assumes "fits_frame body" and "encode_frame body = Inr bs"
    and "list_all chunk_ok chunks" and "concat chunks = bs @ rest"
  shows "read_frame (map Inr chunks @ more) = Inr body"
  using assms by (rule read_fitting_frame)

theorem read_frame_of_any_chunking_witness:
  "read_frame (map Inr [[53], [10, 118, 32], [226, 130], [172, 55]] @ [Inl TimeoutError]) = Inr [118, 32, 8364]"
  by (rule read_frame_of_any_chunking [of _ "[53, 10, 118, 32, 226, 130, 172]" _ "[55]"])
    (simp_all add: fits_frame_def utf8_bytes_def is_scalar_def MAX_FRAME_BYTES_def utf8_char_def
      encode_frame_def nat_str_single chunk_ok_def)

text \<open>
  A connection that is closed before the frame is complete never yields a
  body: \<open>read_frame\<close> raises \<open>ConnectionClosedBeforeFrame\<close> or a protocol error,
  however the received part was cut.
\<close>

theorem read_frame_of_cut_stream:
  assumes "fits_frame body" and "encode_frame body = Inr (concat chunks @ missing)" and "missing \<noteq> []"
    and "list_all chunk_ok chunks"
  shows "read_frame (map Inr chunks) \<in> {Inl closed_before_prefix, Inl closed_mid_frame}"
proof -
  obtain payload where p: "utf8_encode body = Inr payload"
    "concat chunks @ missing = nat_str (length payload) @ 10 # payload"
    using assms(2) by (auto simp: encode_frame_shape)
  moreover have "length payload \<le> MAX_FRAME_BYTES"
    using assms(1) p(1) by (simp add: fits_frame_def utf8_bytes_def)
  ultimately show ?thesis using read_frame_cut [OF _ assms(4) p(2) assms(3)] by simp
qed

theorem read_frame_of_cut_stream_witness:
  "read_frame (map Inr [[51, 10], [118]]) \<in> {Inl closed_before_prefix, Inl closed_mid_frame}"
  by (rule read_frame_of_cut_stream [of "lit ''v 3''" _ "lit '' 3''"])
    (simp_all add: lit_def fits_frame_def utf8_bytes_def is_scalar_def MAX_FRAME_BYTES_def utf8_char_def
      encode_frame_def nat_str_single chunk_ok_def)

text \<open>
  A length prefix of more digits than \<open>int\<close> reads is not answered with a
  protocol error: the ValueError of \<open>int(head)\<close> leaves \<open>read_frame\<close>, whatever
  follows the prefix.
\<close>

theorem long_prefix_raises_value_error:
  "read_frame (Inr (replicate 4000 57) # Inr (replicate 301 57 @ [10]) # more) = Inl ValueError"
proof -
  let ?h = "replicate 4301 (57 :: nat)"
  have split: "replicate 4000 57 @ replicate 301 57 = ?h"
    by (simp flip: replicate_add)
  have "inspect_frame (?h @ [10]) = Inl ValueError"
  proof -
    have t: "takeWhile (\<lambda>b. b \<noteq> 10) (?h @ [10]) = ?h"
      by (rule takeWhile_append_stop) auto
    have "sign_split ?h = (False, ?h)"
      by (rule sign_split_digits) (auto simp: is_digit_def)
    then have "int_of_dec ?h = Inl ValueError"
      by (simp add: int_of_dec_def max_str_digits_def del: replicate.simps)
    moreover have "bytes_isdigit ?h" by (auto simp: bytes_isdigit_def list_all_iff is_digit_def)
    ultimately show ?thesis unfolding inspect_frame_def Let_def t by simp
  qed
  then have "read_body (?h @ [10]) more = Inl ValueError"
    by (cases more) simp_all
  moreover have "read_prefix [] (Inr (replicate 4000 57) # Inr (replicate 301 57 @ [10]) # more)
      = Inr (?h @ [10], more)"
    unfolding split [symmetric]
    by (cases more) (simp_all add: MAX_FRAME_BYTES_def del: replicate.simps)
  ultimately show ?thesis by (simp add: read_frame_def del: replicate.simps read_prefix.simps)
qed

end
