(* ===== verification/Auth.thy ===== *)
theory Auth
  imports Framing
begin

text \<open>
  The authentication primitives of \<open>src/kid_pc_monitor/agent_auth.py\<close>: the key, the
  signature of a canonical text, nonces and the timestamp window. The keyed hash
  \<open>hmac.new(key, msg, hashlib.sha256).digest()\<close> is the function \<open>hmac_digest\<close> of a
  record of parameters, so every theorem holds for any such function; the other
  two parameters are the texts Python gives strings and exceptions in messages
  (\<open>repr(text)\<close> and \<open>str(exc)\<close>).
\<close>

record python =
  hmac_digest :: "bytes \<Rightarrow> bytes \<Rightarrow> bytes"
  str_repr :: "pystr \<Rightarrow> pystr"
  exc_text :: "exn \<Rightarrow> pystr"

text \<open>\<open>str(value)\<close>.\<close>

definition str_of :: "pyval \<Rightarrow> pystr" where
  "str_of v =
     (case v of PNone \<Rightarrow> lit ''None'' | PBool True \<Rightarrow> lit ''True'' | PBool False \<Rightarrow> lit ''False''
      | PInt i \<Rightarrow> int_str i | PStr s \<Rightarrow> s)"

text \<open>\<open>repr(value)\<close>, as \<open>f"{value!r}"\<close> prints it.\<close>

definition repr_of :: "python \<Rightarrow> pyval \<Rightarrow> pystr" where
  "repr_of py v = (case v of PStr s \<Rightarrow> str_repr py s | _ \<Rightarrow> str_of v)"

section \<open>Keys, signatures, nonces, timestamps\<close>

definition ALGORITHM :: pystr where
  "ALGORITHM = lit ''hmac-sha256''"

definition DEFAULT_KEY_ID :: pystr where
  "DEFAULT_KEY_ID = lit ''kid-pc-monitor-shared-secret''"

definition TIMESTAMP_WINDOW_SECONDS :: int where
  "TIMESTAMP_WINDOW_SECONDS = 60"

definition NONCE_BYTES :: nat where
  "NONCE_BYTES = 16"

definition NONCE_MIN_HEX_CHARS :: nat where
  "NONCE_MIN_HEX_CHARS = NONCE_BYTES * 2"

definition derive_key :: "pystr \<Rightarrow> bytes res" where
  "derive_key shared_secret = utf8_encode shared_secret"

definition compute_signature :: "python \<Rightarrow> bytes \<Rightarrow> pystr \<Rightarrow> pystr res" where
  "compute_signature py key canonical =
     rbind (utf8_encode canonical) (\<lambda>msg. Inr (b64url (hmac_digest py key msg)))"

definition verify_signature :: "python \<Rightarrow> bytes \<Rightarrow> pystr \<Rightarrow> pystr \<Rightarrow> bool res" where
  "verify_signature py key canonical signature =
     rbind (compute_signature py key canonical)
       (\<lambda>expected. rbind (utf8_encode signature) (\<lambda>given. Inr (expected = given)))"

definition hex_digit_char :: "nat \<Rightarrow> nat" where
  "hex_digit_char d = (if d < 10 then 48 + d else 87 + d)"

text \<open>\<open>secrets.token_hex(NONCE_BYTES)\<close>, on the random bytes it draws.\<close>

definition make_nonce :: "bytes \<Rightarrow> pystr" where
  "make_nonce random = concat (map (\<lambda>b. [hex_digit_char (b div 16), hex_digit_char (b mod 16)]) random)"

definition is_valid_nonce :: "pyval \<Rightarrow> bool" where
  "is_valid_nonce nonce \<longleftrightarrow>
     (case nonce of
        PStr s \<Rightarrow> \<not> length s < NONCE_MIN_HEX_CHARS \<and> list_all is_hexdigit s
      | _ \<Rightarrow> False)"

definition timestamp_in_window :: "int \<Rightarrow> int \<Rightarrow> bool" where
  "timestamp_in_window timestamp current \<longleftrightarrow> \<bar>current - timestamp\<bar> \<le> TIMESTAMP_WINDOW_SECONDS"

section \<open>Facts\<close>

lemma b64_char_ascii [simp]: "b64_char v < 128"
  by (auto simp: b64_char_def)

lemma b64url_ascii: "\<forall>c \<in> set (b64url bs). c < 128"
  by (induction bs rule: b64url.induct) simp_all

text \<open>A signature is accepted exactly when it is the one the key gives.\<close>

lemma verify_signature_iff:
  "verify_signature py key canonical sig = Inr True \<longleftrightarrow> compute_signature py key canonical = Inr sig"
proof
  assume "verify_signature py key canonical sig = Inr True"
  then obtain msg where m: "utf8_encode canonical = Inr msg"
    "utf8_encode sig = Inr (b64url (hmac_digest py key msg))"
    by (auto simp: verify_signature_def compute_signature_def rbind_eq_Inr_iff)
  have "utf8_encode (b64url (hmac_digest py key msg)) = Inr (b64url (hmac_digest py key msg))"
    using b64url_ascii by (rule utf8_encode_ascii)
  then have "sig = b64url (hmac_digest py key msg)"
    using m(2) utf8_decode_encode by (metis sum.inject(2))
  with m(1) show "compute_signature py key canonical = Inr sig"
    by (simp add: compute_signature_def)
next
  assume "compute_signature py key canonical = Inr sig"
  then show "verify_signature py key canonical sig = Inr True"
    using b64url_ascii
    by (auto simp: verify_signature_def compute_signature_def rbind_eq_Inr_iff utf8_encode_ascii)
qed

lemma make_nonce_valid:
  assumes "length random = NONCE_BYTES" and "\<forall>b \<in> set random. b < 256"
  shows "is_valid_nonce (PStr (make_nonce random))"
proof -
  have len: "length (make_nonce bs) = 2 * length bs" for bs
    by (induction bs) (auto simp: make_nonce_def)
  have "is_hexdigit (hex_digit_char d)" if "d < 16" for d
    using that by (auto simp: hex_digit_char_def is_hexdigit_def is_digit_def)
  moreover have "b div 16 < 16" if "b < 256" for b :: nat using that by auto
  ultimately have "list_all is_hexdigit (make_nonce random)"
    using assms(2) by (auto simp: make_nonce_def list_all_iff)
  with len show ?thesis
    using assms(1) by (simp add: is_valid_nonce_def NONCE_MIN_HEX_CHARS_def)
qed

end
