(* ===== verification/Protocol.thy ===== *)
theory Protocol
  imports Auth
begin

text \<open>
  The messages of \<open>src/kid_pc_monitor/agent_protocol.py\<close>: signed requests and
  signed responses, on top of the document layer (\<open>Kdl\<close>) and the primitives of
  \<open>Auth\<close>. The clock reading and the random nonce a message takes are arguments of
  its builder; the clock reading against which a message is checked is an argument
  of its parser.
\<close>

section \<open>Actions and variables\<close>

definition SUPPORTED_VERSIONS :: "int set" where
  "SUPPORTED_VERSIONS = {3}"

definition CLIENT_DEFAULT_VERSION :: int where
  "CLIENT_DEFAULT_VERSION = 3"

definition DEFAULT_LOG_TAIL_LINES :: int where
  "DEFAULT_LOG_TAIL_LINES = 500"

definition MAX_LOG_TAIL_LINES :: int where
  "MAX_LOG_TAIL_LINES = 5000"

definition ACTIONS :: "(pystr \<times> pystr) list" where
  "ACTIONS =
    [(lit ''get'', lit ''get a single variable or \"settings\" to get all variables''),
     (lit ''set'', lit ''set a single variable to a new value''),
     (lit ''clear'', lit ''clear a single variable''),
     (lit ''lock'', lit ''immediately lock''),
     (lit ''unlock'', lit ''release a manual lock''),
     (lit ''extend'', lit ''add minutes of extra allowance for today (val=minutes)''),
     (lit ''message'', lit ''show a popup message on the PC (val=text)''),
     (lit ''shutdown'', lit ''shut down the PC after a warning (val=seconds, default 60)''),
     (lit ''list_capabilities'', lit ''describe supported actions and variables''),
     (lit ''get_logs'', lit ''read the agent log file (tail=N lines, default 500, max 5000)'')]"

definition WRITE_ACTIONS :: "pystr list" where
  "WRITE_ACTIONS =
    [lit ''set'', lit ''clear'', lit ''lock'', lit ''unlock'', lit ''extend'', lit ''shutdown'', lit ''message'']"

definition DEFAULT_SHUTDOWN_SECONDS :: int where
  "DEFAULT_SHUTDOWN_SECONDS = 60"

definition VARIABLES :: "(pystr \<times> pystr) list" where
  "VARIABLES =
    [(lit ''name'', lit ''read-only, name of computer''),
     (lit ''status'', lit ''read-only, the lock status (LOCKED/UNLOCKED)''),
     (lit ''current_user'', lit ''read-only, the username of the currently logged-in user''),
     (lit ''daily_limit'', lit ''current daily limit in minutes''),
     (lit ''bed_time'', lit ''bed time, at which the computer will be locked''),
     (lit ''manual_lock'', lit ''boolean, whether a manual lock is in effect''),
     (lit ''wake_time'', lit ''time, at which the computer can be used the following morning''),
     (lit ''cumulative_extension'', lit ''read-only, a running total of extension seconds today''),
     (lit ''accumulated_seconds'', lit ''read-only, a running total of active seconds used today''),
     (lit ''time_remaining'', lit ''read-only, minutes remaining today (or null)''),
     (lit ''enforcement_active'', lit ''read-only, whether schedule/limit enforcement is active''),
     (lit ''enforcement_reason'', lit ''read-only, brief reason when enforcement is active (or null)''),
     (lit ''access_status'', lit ''read-only, brief overall access status for the parent panel'')]"

definition WRITABLE_VARIABLES :: "pystr list" where
  "WRITABLE_VARIABLES = [lit ''daily_limit'', lit ''bed_time'', lit ''manual_lock'', lit ''wake_time'']"

definition CLEARABLE_VARIABLES :: "pystr list" where
  "CLEARABLE_VARIABLES =
    [lit ''daily_limit'', lit ''bed_time'', lit ''manual_lock'', lit ''cumulative_extension'']"

definition MIN_DAILY_LIMIT :: int where
  "MIN_DAILY_LIMIT = 1"

definition MAX_DAILY_LIMIT :: int where
  "MAX_DAILY_LIMIT = 1440"

section \<open>Fields\<close>

text \<open>\<open>fields.get(key)\<close>: None when absent; \<open>str(x)\<close> unless it is None.\<close>

definition field :: "(pystr \<Rightarrow> pyval option) \<Rightarrow> pystr \<Rightarrow> pyval" where
  "field fs k = (case fs k of None \<Rightarrow> PNone | Some v \<Rightarrow> v)"

definition opt_str :: "pyval \<Rightarrow> pystr option" where
  "opt_str v = (case v of PNone \<Rightarrow> None | _ \<Rightarrow> Some (str_of v))"

definition peek_version :: "pystr \<Rightarrow> int res" where
  "peek_version body =
     (case parse body of
        Inr nodes \<Rightarrow>
          (case find (\<lambda>n. nname n = lit ''v'' \<and> nargs n \<noteq> []
                 \<and> (\<exists>i \<in> SUPPORTED_VERSIONS. hd (nargs n) = PInt i)) nodes of
             Some n \<Rightarrow> (case hd (nargs n) of PInt i \<Rightarrow> Inr i | _ \<Rightarrow> Inr CLIENT_DEFAULT_VERSION)
           | None \<Rightarrow> Inr CLIENT_DEFAULT_VERSION)
      | Inl (ProtocolError _ _ _) \<Rightarrow> Inr CLIENT_DEFAULT_VERSION
      | Inl e \<Rightarrow> Inl e)"

section \<open>Signing and verifying\<close>

text \<open>The first \<open>auth\<close> node and the other nodes, in order.\<close>

fun split_auth :: "node list \<Rightarrow> node option \<times> node list" where
  "split_auth [] = (None, [])"
| "split_auth (n # ns) =
     (if nname n = lit ''auth'' then (Some n, ns)
      else (let (a, rest) = split_auth ns in (a, n # rest)))"

definition auth_node :: "python \<Rightarrow> node list \<Rightarrow> pystr \<Rightarrow> node res" where
  "auth_node py signed_nodes secret =
     (let canonical = serialize signed_nodes in
      rbind (derive_key secret)
        (\<lambda>key. rbind (compute_signature py key canonical)
          (\<lambda>signature. Inr (Node (lit ''auth'') []
             [Node (lit ''algorithm'') [PStr ALGORITHM] [],
              Node (lit ''key_id'') [PStr DEFAULT_KEY_ID] [],
              Node (lit ''signature'') [PStr signature] []]))))"

definition check_signature :: "python \<Rightarrow> pystr \<Rightarrow> node list \<Rightarrow> pystr \<Rightarrow> pystr option \<Rightarrow> unit res" where
  "check_signature py secret rest signature req_id =
     rbind (derive_key secret)
       (\<lambda>key. rbind (verify_signature py key (serialize rest) signature)
         (\<lambda>ok. guard ok (ProtocolError AUTHENTICATION_FAILED (lit ''signature did not verify.'' @ [10]) req_id)))"

definition verify_frame ::
  "python \<Rightarrow> node list \<Rightarrow> pystr \<Rightarrow> pystr option \<Rightarrow> int \<Rightarrow> pystr option res" where
  "verify_frame py nodes secret req_id now =
     (case split_auth nodes of (auth, rest) \<Rightarrow>
        let fs = fields_of rest; name = opt_str (field fs (lit ''name'')) in
        case auth of
          None \<Rightarrow> Inl (ProtocolError AUTHENTICATION_REQUIRED (lit ''missing auth block'') req_id)
        | Some auth \<Rightarrow>
            let timestamp = field fs (lit ''timestamp''); nonce = field fs (lit ''nonce'') in
            if timestamp = PNone
              then Inl (ProtocolError AUTHENTICATION_REQUIRED (lit ''missing timestamp'') req_id)
            else if nonce = PNone
              then Inl (ProtocolError AUTHENTICATION_REQUIRED (lit ''missing nonce'') req_id)
            else
              case timestamp of
                PInt ts \<Rightarrow>
                  if \<not> is_valid_nonce nonce
                    then Inl (ProtocolError INVALID_REQUEST (lit ''nonce must be hex randomness'') req_id)
                  else
                    let signature = field (child_map auth) (lit ''signature'') in
                    if signature = PNone
                      then Inl (ProtocolError AUTHENTICATION_REQUIRED (lit ''missing signature'') req_id)
                    else
                      rbind (check_signature py secret rest (str_of signature) req_id)
                        (\<lambda>_. if \<not> timestamp_in_window ts now
                           then Inl (ProtocolError STALE_TIMESTAMP
                                       (lit ''timestamp outside allowed window'') req_id)
                           else Inr name)
              | _ \<Rightarrow> Inl (ProtocolError INVALID_REQUEST (lit ''timestamp must be an integer'') req_id))"

section \<open>Requests\<close>

record request =
  rversion :: int
  rid :: "pystr option"
  raction :: pystr
  rvar :: "pystr option"
  rval :: pyval
  rname :: "pystr option"
  rtimestamp :: pyval
  rnonce :: pyval
  rtail :: "int option"

text \<open>A field that is written only when it is given.\<close>

definition opt_node :: "pystr \<Rightarrow> pyval option \<Rightarrow> node list" where
  "opt_node k v = (case v of None \<Rightarrow> [] | Some x \<Rightarrow> [Node k [x] []])"

definition request_nodes ::
  "pystr \<Rightarrow> pystr option \<Rightarrow> pyval option \<Rightarrow> pystr option \<Rightarrow> pystr option \<Rightarrow> int \<Rightarrow> pystr \<Rightarrow> int \<Rightarrow>
   int option \<Rightarrow> node list" where
  "request_nodes action var val req_id name timestamp nonce version tail =
     [Node (lit ''v'') [PInt version] []]
     @ opt_node (lit ''id'') (map_option PStr req_id)
     @ opt_node (lit ''name'') (map_option PStr name)
     @ [Node (lit ''timestamp'') [PInt timestamp] []]
     @ [Node (lit ''nonce'') [PStr nonce] []]
     @ [Node (lit ''action'') [PStr action] []]
     @ opt_node (lit ''var'') (map_option PStr var)
     @ opt_node (lit ''val'') val
     @ opt_node (lit ''tail'') (map_option PInt tail)"

definition build_request ::
  "python \<Rightarrow> pystr \<Rightarrow> pystr \<Rightarrow> pystr option \<Rightarrow> pyval option \<Rightarrow> pystr option \<Rightarrow> pystr option \<Rightarrow> int \<Rightarrow>
   pystr \<Rightarrow> int \<Rightarrow> int option \<Rightarrow> pystr res" where
  "build_request py secret action var val req_id name timestamp nonce version tail =
     (if version \<notin> SUPPORTED_VERSIONS then Inl ValueError
      else
        let nodes = request_nodes action var val req_id name timestamp nonce version tail in
        rbind (auth_node py nodes secret) (\<lambda>auth. Inr (serialize (nodes @ [auth]))))"

definition MAX_PARSED_INT :: int where
  "MAX_PARSED_INT = 2 ^ 53"

definition parse_int :: "pyval \<Rightarrow> pystr option \<Rightarrow> int res" where
  "parse_int raw req_id =
     rbind
       (case raw of
          PInt i \<Rightarrow> Inr (Some i)
        | PStr s \<Rightarrow> if is_int_word (strip s) then rbind (int_of_dec (strip s)) (\<lambda>i. Inr (Some i))
                    else Inr None
        | _ \<Rightarrow> Inr None)
       (\<lambda>number. case number of
          None \<Rightarrow> Inl (ProtocolError INVALID_VALUE (lit ''expected a number'') req_id)
        | Some n \<Rightarrow>
            if \<bar>n\<bar> > MAX_PARSED_INT
            then Inl (ProtocolError INVALID_VALUE (lit ''number out of range'') req_id)
            else Inr n)"

text \<open>The fields \<open>parse_request\<close> reads: every node but the \<open>auth\<close> ones.\<close>

definition request_fields :: "node list \<Rightarrow> pystr \<Rightarrow> pyval option" where
  "request_fields nodes = fields_of (filter (\<lambda>n. nname n \<noteq> lit ''auth'') nodes)"

definition is_action :: "pyval \<Rightarrow> bool" where
  "is_action a \<longleftrightarrow> (case a of PStr s \<Rightarrow> s \<in> set (map fst ACTIONS) | _ \<Rightarrow> False)"

definition check_variable :: "pystr \<Rightarrow> pystr option \<Rightarrow> pyval \<Rightarrow> pystr option \<Rightarrow> unit res" where
  "check_variable action var val req_id =
     (if action = lit ''get'' then
        (case var of
           None \<Rightarrow> Inl (ProtocolError INVALID_REQUEST (lit ''get requires a variable'') req_id)
         | Some v \<Rightarrow>
             guard (v = lit ''settings'' \<or> v \<in> set (map fst VARIABLES))
               (ProtocolError UNKNOWN_VARIABLE (lit ''unknown variable: '' @ v) req_id))
      else if action = lit ''set'' \<or> action = lit ''clear'' then
        (case var of
           None \<Rightarrow> Inl (ProtocolError INVALID_REQUEST (action @ lit '' requires a variable'') req_id)
         | Some v \<Rightarrow>
             if v \<notin> set (map fst VARIABLES)
               then Inl (ProtocolError UNKNOWN_VARIABLE (lit ''unknown variable: '' @ v) req_id)
             else guard (\<not> (action = lit ''set'' \<and> val = PNone))
                    (ProtocolError INVALID_REQUEST (lit ''set requires a value'') req_id))
      else if action = lit ''extend'' \<and> val = PNone
        then Inl (ProtocolError INVALID_REQUEST (lit ''extend requires minutes'') req_id)
      else if action = lit ''message'' \<and> val = PNone
        then Inl (ProtocolError INVALID_REQUEST (lit ''message requires text'') req_id)
      else Inr ())"

definition check_tail :: "pyval \<Rightarrow> pystr option \<Rightarrow> int option res" where
  "check_tail raw req_id =
     (if raw = PNone then Inr None
      else
        rbind (parse_int raw req_id)
          (\<lambda>tail. if tail < 1
             then Inl (ProtocolError INVALID_VALUE (lit ''tail must be at least 1'') req_id)
             else if tail > MAX_LOG_TAIL_LINES
             then Inl (ProtocolError INVALID_VALUE
                         (lit ''tail must be at most '' @ int_str MAX_LOG_TAIL_LINES) req_id)
             else Inr (Some tail)))"

definition check_version :: "python \<Rightarrow> pyval \<Rightarrow> pystr option \<Rightarrow> int res" where
  "check_version py version req_id =
     (case version of
        PNone \<Rightarrow> Inl (ProtocolError INVALID_REQUEST (lit ''missing protocol version'') req_id)
      | PInt i \<Rightarrow>
          if i \<in> SUPPORTED_VERSIONS then Inr i
          else Inl (ProtocolError UNSUPPORTED_VERSION
                 (lit ''protocol version '' @ repr_of py (PInt i) @ lit '' is not supported'') req_id)
      | _ \<Rightarrow> Inl (ProtocolError INVALID_REQUEST (lit ''protocol version must be an integer'') req_id))"

definition check_destination :: "pystr \<Rightarrow> pystr option \<Rightarrow> pystr \<Rightarrow> pystr option \<Rightarrow> unit res" where
  "check_destination action name hostname req_id =
     (if name \<noteq> None \<and> name \<noteq> Some hostname
        then Inl (ProtocolError AUTHENTICATION_FAILED (lit ''frame addressed to a different agent'') req_id)
      else if action \<in> set WRITE_ACTIONS \<and> name = None
        then Inl (ProtocolError AUTHENTICATION_REQUIRED
                    (action @ lit '' requires a name identifying the target agent'') req_id)
      else Inr ())"

definition parse_request :: "python \<Rightarrow> pystr \<Rightarrow> pystr \<Rightarrow> pystr \<Rightarrow> int \<Rightarrow> request res" where
  "parse_request py body secret hostname now =
     (case parse body of
        Inl (ProtocolError _ _ _) \<Rightarrow>
          Inl (ProtocolError INVALID_REQUEST (lit ''could not parse request'') None)
      | Inl e \<Rightarrow> Inl e
      | Inr nodes \<Rightarrow>
          let fs = request_fields nodes; req_id = opt_str (field fs (lit ''id'')) in
          rbind (check_version py (field fs (lit ''v'')) req_id)
            (\<lambda>version. rbind (verify_frame py nodes secret req_id now)
              (\<lambda>name.
                 let action = field fs (lit ''action'') in
                 if \<not> is_action action
                   then Inl (ProtocolError UNKNOWN_ACTION (lit ''unknown action: '' @ repr_of py action) req_id)
                 else
                   let action = str_of action; var = opt_str (field fs (lit ''var''));
                       val = field fs (lit ''val'') in
                   rbind (check_destination action name hostname req_id)
                     (\<lambda>_. rbind (check_variable action var val req_id)
                       (\<lambda>_. rbind (check_tail (field fs (lit ''tail'')) req_id)
                         (\<lambda>tail. Inr \<lparr>rversion = version, rid = req_id, raction = action, rvar = var,
                              rval = val, rname = name, rtimestamp = field fs (lit ''timestamp''),
                              rnonce = field fs (lit ''nonce''), rtail = tail\<rparr>))))))"

section \<open>Responses\<close>

definition ok_content :: "pyval \<Rightarrow> node list" where
  "ok_content result = [Node (lit ''status'') [PStr (lit ''ok'')] [], Node (lit ''result'') [result] []]"

definition block_content :: "node \<Rightarrow> node list" where
  "block_content block = [Node (lit ''status'') [PStr (lit ''ok'')] [], block]"

definition error_content :: "pystr \<Rightarrow> pystr \<Rightarrow> node list" where
  "error_content code message =
     (let error = Node (lit ''error'') []
            [Node (lit ''code'') [PStr code] [], Node (lit ''message'') [PStr message] []]
      in [Node (lit ''status'') [PStr (lit ''failure'')] [], error])"

definition capabilities_content :: "int \<Rightarrow> node list" where
  "capabilities_content version =
     (let actions = Node (lit ''actions'') [] (map (\<lambda>(k, v). Node k [PStr v] []) ACTIONS);
          vals = Node (lit ''values'') [] (map (\<lambda>(k, v). Node k [PStr v] []) VARIABLES)
      in [Node (lit ''status'') [PStr (lit ''ok'')] [], actions, vals])"

definition response_nodes ::
  "node list \<Rightarrow> pystr \<Rightarrow> pystr option \<Rightarrow> int \<Rightarrow> pystr \<Rightarrow> int \<Rightarrow> node list" where
  "response_nodes content_nodes hostname req_id timestamp nonce version =
     [Node (lit ''v'') [PInt version] []]
     @ opt_node (lit ''id'') (map_option PStr req_id)
     @ [Node (lit ''name'') [PStr hostname] []]
     @ [Node (lit ''timestamp'') [PInt timestamp] []]
     @ [Node (lit ''nonce'') [PStr nonce] []]
     @ content_nodes"

definition sign_response ::
  "python \<Rightarrow> node list \<Rightarrow> pystr \<Rightarrow> pystr \<Rightarrow> pystr option \<Rightarrow> int \<Rightarrow> pystr \<Rightarrow> int \<Rightarrow> pystr res" where
  "sign_response py content_nodes secret hostname req_id timestamp nonce version =
     (if version \<notin> SUPPORTED_VERSIONS then Inl ValueError
      else
        let nodes = response_nodes content_nodes hostname req_id timestamp nonce version in
        rbind (auth_node py nodes secret) (\<lambda>auth. Inr (serialize (nodes @ [auth]))))"

record logs_result =
  lpath :: pystr
  ltruncated :: bool
  llines :: "pystr list"

record response =
  sversion :: pyval
  sid :: "pystr option"
  sstatus :: pystr
  sresult :: pyval
  serror_code :: pyval
  serror_message :: pyval
  ssettings :: "(pystr \<Rightarrow> pyval option) option"
  slogs :: "logs_result option"
  sname :: "pystr option"
  stimestamp :: pyval
  snonce :: pyval

text \<open>The \<open>ok\<close> and \<open>text\<close> properties of \<open>Response\<close>.\<close>

definition response_ok :: "response \<Rightarrow> bool" where
  "response_ok r \<longleftrightarrow> sstatus r = lit ''ok''"

definition response_text :: "response \<Rightarrow> pystr" where
  "response_text r =
     (if response_ok r then
        (if ssettings r \<noteq> None then lit ''ok''
         else if sresult r = PNone then [] else str_of (sresult r))
      else str_of (serror_code r) @ lit '': '' @ str_of (serror_message r))"

definition truthy :: "pyval \<Rightarrow> bool" where
  "truthy v \<longleftrightarrow> (case v of PNone \<Rightarrow> False | PBool b \<Rightarrow> b | PInt i \<Rightarrow> i \<noteq> 0 | PStr s \<Rightarrow> s \<noteq> [])"

text \<open>The nodes of a response by name (the last of several), without \<open>auth\<close>.\<close>

definition by_name :: "node list \<Rightarrow> pystr \<Rightarrow> node option" where
  "by_name nodes =
     dict_of_pairs (map (\<lambda>n. (nname n, n)) (filter (\<lambda>n. nname n \<noteq> lit ''auth'') nodes))"

definition named_arg :: "(pystr \<Rightarrow> node option) \<Rightarrow> pystr \<Rightarrow> pyval" where
  "named_arg nodes k = (case nodes k of None \<Rightarrow> PNone | Some n \<Rightarrow> arg n)"

definition logs_of :: "node \<Rightarrow> logs_result" where
  "logs_of block =
     (let fs = child_map block;
          lines_node = find (\<lambda>c. nname c = lit ''lines'') (nchildren block)
      in \<lparr>lpath = (case fs (lit ''path'') of None \<Rightarrow> [] | Some v \<Rightarrow> str_of v),
          ltruncated = truthy (field fs (lit ''truncated'')),
          llines = (case lines_node of None \<Rightarrow> [] | Some n \<Rightarrow> map str_of (nargs n))\<rparr>)"

text \<open>The part of \<open>parse_response\<close> after the checks.\<close>

definition read_response :: "node list \<Rightarrow> pystr option \<Rightarrow> response" where
  "read_response nodes name =
     (let bn = by_name nodes;
          err = (case bn (lit ''error'') of None \<Rightarrow> (\<lambda>_. None) | Some n \<Rightarrow> child_map n)
      in \<lparr>sversion = named_arg bn (lit ''v''),
          sid = opt_str (named_arg bn (lit ''id'')),
          sstatus = (case bn (lit ''status'') of None \<Rightarrow> lit ''failure'' | Some n \<Rightarrow> str_of (arg n)),
          sresult = named_arg bn (lit ''result''),
          serror_code = field err (lit ''code''),
          serror_message = field err (lit ''message''),
          ssettings = map_option child_map (bn (lit ''settings'')),
          slogs = map_option logs_of (bn (lit ''logs'')),
          sname = name,
          stimestamp = named_arg bn (lit ''timestamp''),
          snonce = named_arg bn (lit ''nonce'')\<rparr>)"

definition parse_response ::
  "python \<Rightarrow> pystr \<Rightarrow> pystr \<Rightarrow> pystr option \<Rightarrow> int option \<Rightarrow> int \<Rightarrow> response res" where
  "parse_response py body secret expected_name expected_version now =
     rbind (parse body)
       (\<lambda>nodes.
          let bn = by_name nodes; version = named_arg bn (lit ''v'');
              req_id = opt_str (named_arg bn (lit ''id'')) in
          if \<not> (\<exists>i \<in> SUPPORTED_VERSIONS. version = PInt i)
            then Inl (ProtocolError UNSUPPORTED_VERSION
                   (lit ''protocol version '' @ repr_of py version @ lit '' is not supported'') req_id)
          else
            rbind
              (case expected_version of
                 None \<Rightarrow> Inr ()
               | Some e \<Rightarrow>
                   guard (version = PInt e)
                     (ProtocolError UNSUPPORTED_VERSION
                        (lit ''expected protocol version '' @ int_str e @ lit '', got ''
                         @ repr_of py version) req_id))
            (\<lambda>_. rbind (verify_frame py nodes secret req_id now)
              (\<lambda>name. if expected_name \<noteq> None \<and> name \<noteq> expected_name
                 then Inl (ProtocolError AUTHENTICATION_FAILED
                        (lit ''response came from an unexpected agent'') req_id)
                 else Inr (read_response nodes name))))"

section \<open>Fields of documents\<close>

lemma fields_of_Nil [simp]: "fields_of [] k = None"
  by (simp add: fields_of_def)

lemma fields_of_Cons:
  "fields_of (n # ns) k =
     (case fields_of ns k of Some w \<Rightarrow> Some w | None \<Rightarrow> if k = nname n then Some (arg n) else None)"
  by (simp add: fields_of_def dict_of_pairs_Cons)

lemma fields_of_append:
  "fields_of (ns @ ms) k = (case fields_of ms k of Some w \<Rightarrow> Some w | None \<Rightarrow> fields_of ns k)"
  by (simp add: fields_of_def dict_of_pairs_append split: option.split)

lemma fields_of_opt_node:
  "fields_of (opt_node n v) k = (if k = n then v else None)"
  by (auto simp: opt_node_def fields_of_Cons arg_def split: option.split)

lemma arg_Node [simp]: "arg (Node n [v] cs) = v"
  by (simp add: arg_def)

lemmas field_simps' = fields_of_Cons fields_of_append fields_of_opt_node field_def

lemma field_None [simp]: "fs k = None \<Longrightarrow> field fs k = PNone"
  and field_Some [simp]: "fs k = Some v \<Longrightarrow> field fs k = v"
  by (simp_all add: field_def)

lemma opt_str_simps [simp]: "opt_str PNone = None" "opt_str (PStr s) = Some s"
  by (simp_all add: opt_str_def str_of_def)

lemma str_of_PStr [simp]: "str_of (PStr s) = s"
  by (simp add: str_of_def)

text \<open>The names of the protocol are bare identifiers.\<close>

lemmas bare_simps = is_bare_def bare_start_def bare_char_def is_alpha_def is_digit_def is_keyword_def lit_def

lemma bare_names [simp]:
  "is_bare (lit ''v'')" "is_bare (lit ''id'')" "is_bare (lit ''name'')" "is_bare (lit ''timestamp'')"
  "is_bare (lit ''nonce'')" "is_bare (lit ''action'')" "is_bare (lit ''var'')" "is_bare (lit ''val'')"
  "is_bare (lit ''tail'')" "is_bare (lit ''auth'')" "is_bare (lit ''algorithm'')" "is_bare (lit ''key_id'')"
  "is_bare (lit ''signature'')" "is_bare (lit ''status'')" "is_bare (lit ''result'')" "is_bare (lit ''error'')"
  "is_bare (lit ''code'')" "is_bare (lit ''message'')" "is_bare (lit ''settings'')" "is_bare (lit ''logs'')"
  "is_bare (lit ''path'')" "is_bare (lit ''truncated'')" "is_bare (lit ''lines'')"
  by (simp_all add: bare_simps)

lemma ok_nodes_Cons' [simp]:
  "ok_nodes (Node n args cs # r) \<longleftrightarrow> is_bare n \<and> list_all ok_val args \<and> ok_nodes cs \<and> ok_nodes r"
  by simp

lemma ok_nodes_opt_node [simp]:
  "ok_nodes (opt_node n v) \<longleftrightarrow> (case v of None \<Rightarrow> True | Some x \<Rightarrow> is_bare n \<and> ok_val x)"
  by (simp add: opt_node_def split: option.split)

lemma height_opt_node [simp]: "height (opt_node n v) = 0"
  by (simp add: opt_node_def split: option.split)

section \<open>Signed documents\<close>

definition no_auth :: "node list \<Rightarrow> bool" where
  "no_auth ns \<longleftrightarrow> (\<forall>n \<in> set ns. nname n \<noteq> lit ''auth'')"

lemma no_auth_simps [simp]:
  "no_auth []" "no_auth (n # ns) \<longleftrightarrow> nname n \<noteq> lit ''auth'' \<and> no_auth ns"
  "no_auth (ns @ ms) \<longleftrightarrow> no_auth ns \<and> no_auth ms"
  "no_auth (opt_node k v) \<longleftrightarrow> v = None \<or> k \<noteq> lit ''auth''"
  by (auto simp: no_auth_def opt_node_def split: option.split)

definition signature_block :: "pystr \<Rightarrow> node" where
  "signature_block sig =
     Node (lit ''auth'') []
       [Node (lit ''algorithm'') [PStr ALGORITHM] [], Node (lit ''key_id'') [PStr DEFAULT_KEY_ID] [],
        Node (lit ''signature'') [PStr sig] []]"

lemma auth_node_iff:
  "auth_node py ns secret = Inr a \<longleftrightarrow>
     (\<exists>key sig. derive_key secret = Inr key \<and> compute_signature py key (serialize ns) = Inr sig
        \<and> a = signature_block sig)"
  by (auto simp: auth_node_def Let_def rbind_eq_Inr_iff signature_block_def)

lemma split_auth_no_auth: "no_auth ns \<Longrightarrow> split_auth (ns @ [signature_block sig]) = (Some (signature_block sig), ns)"
  by (induction ns) (auto simp: signature_block_def)

lemma signature_of_block [simp]: "field (child_map (signature_block sig)) (lit ''signature'') = PStr sig"
  by (simp add: child_map_def signature_block_def field_simps')

text \<open>A frame signed with the secret is verified with it.\<close>

lemma verify_signed:
  assumes "no_auth ns" and "auth_node py ns secret = Inr a"
    and "fields_of ns (lit ''timestamp'') = Some (PInt ts)" and "timestamp_in_window ts now"
    and "fields_of ns (lit ''nonce'') = Some nonce" and "is_valid_nonce nonce"
  shows "verify_frame py (ns @ [a]) secret req_id now = Inr (opt_str (field (fields_of ns) (lit ''name'')))"
proof -
  obtain key sig where k: "derive_key secret = Inr key" "compute_signature py key (serialize ns) = Inr sig"
    and a: "a = signature_block sig" using assms(2) by (auto simp: auth_node_iff)
  have "nonce \<noteq> PNone" using assms(6) by (auto simp: is_valid_nonce_def)
  moreover have "check_signature py secret ns sig req_id = Inr ()"
    using k by (simp add: check_signature_def verify_signature_iff [THEN iffD2])
  ultimately show ?thesis
    using assms by (simp add: verify_frame_def a split_auth_no_auth Let_def)
qed

lemma ok_doc_signed: "ok_doc ns \<Longrightarrow> ok_doc (ns @ [signature_block sig])"
  by (simp add: ok_doc_def signature_block_def MAX_NESTING_DEPTH_def)

section \<open>Documents that can be sent\<close>

text \<open>Names and texts without lone surrogates: their canonical text has a UTF-8 form.\<close>

definition scalar_val :: "pyval \<Rightarrow> bool" where
  "scalar_val v \<longleftrightarrow> (case v of PStr s \<Rightarrow> list_all is_scalar s | _ \<Rightarrow> True)"

lemma scalar_val_simps [simp]:
  "scalar_val PNone" "scalar_val (PBool b)" "scalar_val (PInt i)"
  "scalar_val (PStr s) \<longleftrightarrow> list_all is_scalar s"
  by (simp_all add: scalar_val_def)

fun texts_ok :: "node list \<Rightarrow> bool" where
  "texts_ok [] \<longleftrightarrow> True"
| "texts_ok (Node n args cs # r) \<longleftrightarrow>
     list_all is_scalar n \<and> list_all scalar_val args \<and> texts_ok cs \<and> texts_ok r"

lemma texts_ok_append [simp]: "texts_ok (xs @ ys) \<longleftrightarrow> texts_ok xs \<and> texts_ok ys"
  by (induction xs rule: texts_ok.induct) auto

lemma texts_ok_opt_node [simp]:
  "texts_ok (opt_node k v) \<longleftrightarrow> v = None \<or> (list_all is_scalar k \<and> scalar_val (the v))"
  by (auto simp: opt_node_def split: option.split)

lemma scalar_ascii: "c < 128 \<Longrightarrow> is_scalar c"
  by (simp add: is_scalar_def)

lemma scalar_lit [simp]: "list_all is_scalar (lit s)"
proof -
  have lt: "of_char c < (256 :: nat)" for c :: char by simp
  have "is_scalar (of_char c)" for c :: char
    unfolding is_scalar_def using lt [of c] by linarith
  then show ?thesis by (simp add: lit_def list_all_iff)
qed

lemma scalar_int_str [simp]: "list_all is_scalar (int_str i)"
  using int_str_chars by (fastforce simp: list_all_iff is_digit_def is_scalar_def)

lemma scalar_escape: "list_all is_scalar s \<Longrightarrow> list_all is_scalar (escape s)"
  unfolding escape_charwise by (induction s) (auto simp: escape_char_def is_scalar_def)

lemma scalar_format_value: "scalar_val v \<Longrightarrow> list_all is_scalar (format_value v)"
  by (auto simp: format_value_def scalar_escape scalar_ascii split: pyval.splits bool.splits)

lemma scalar_join_with:
  "list_all (list_all is_scalar) ls \<Longrightarrow> is_scalar c \<Longrightarrow> list_all is_scalar (join_with c ls)"
  by (induction c ls rule: join_with.induct) auto

lemma scalar_lines: "texts_ok ns \<Longrightarrow> list_all (list_all is_scalar) (serialize_into ns k)"
proof (induction ns k rule: serialize_into.induct)
  case (2 n args cs r k)
  have "list_all (list_all is_scalar) (map format_value args)"
    using 2(3) by (auto simp: list_all_iff scalar_format_value [unfolded list_all_iff])
  then have "list_all is_scalar (join_with 32 (n # map format_value args))"
    using 2(3) by (intro scalar_join_with) (auto simp: scalar_ascii)
  with 2 show ?case by (auto simp: Let_def scalar_ascii list_all_iff)
qed simp

lemma scalar_serialize: "texts_ok ns \<Longrightarrow> list_all is_scalar (serialize ns)"
  unfolding serialize_def by (intro scalar_join_with scalar_lines) (simp_all add: scalar_ascii)

lemma auth_node_total:
  assumes "texts_ok ns" and "list_all is_scalar secret"
  shows "\<exists>sig. auth_node py ns secret = Inr (signature_block sig)"
proof -
  obtain key where "derive_key secret = Inr key"
    using utf8_encode_total [OF assms(2)] by (auto simp: derive_key_def)
  moreover obtain msg where "utf8_encode (serialize ns) = Inr msg"
    using utf8_encode_total [OF scalar_serialize [OF assms(1)]] by auto
  ultimately have "auth_node py ns secret = Inr (signature_block (b64url (hmac_digest py key msg)))"
    by (simp add: auth_node_iff compute_signature_def)
  then show ?thesis ..
qed

lemma build_request_total:
  assumes "texts_ok (request_nodes action var val req_id name ts nonce 3 tail)"
    and "list_all is_scalar secret"
  shows "\<exists>body. build_request py secret action var val req_id name ts nonce 3 tail = Inr body"
proof -
  obtain sig where "auth_node py (request_nodes action var val req_id name ts nonce 3 tail) secret
      = Inr (signature_block sig)"
    using auth_node_total [OF assms] by blast
  then show ?thesis by (simp add: build_request_def SUPPORTED_VERSIONS_def)
qed

section \<open>What a client may send\<close>

text \<open>The requests the agent \<open>hostname\<close> admits, as the documentation describes them.\<close>

definition sendable ::
  "pystr \<Rightarrow> pystr \<Rightarrow> pystr option \<Rightarrow> pyval option \<Rightarrow> pystr option \<Rightarrow> int option \<Rightarrow> bool" where
  "sendable hostname action var val name tail \<longleftrightarrow>
     action \<in> set (map fst ACTIONS)
     \<and> (name = None \<or> name = Some hostname)
     \<and> (action \<in> set WRITE_ACTIONS \<longrightarrow> name \<noteq> None)
     \<and> (action = lit ''get'' \<longrightarrow>
          (case var of None \<Rightarrow> False | Some v \<Rightarrow> v = lit ''settings'' \<or> v \<in> set (map fst VARIABLES)))
     \<and> (action = lit ''set'' \<or> action = lit ''clear'' \<longrightarrow>
          (case var of None \<Rightarrow> False | Some v \<Rightarrow> v \<in> set (map fst VARIABLES)))
     \<and> (action = lit ''set'' \<or> action = lit ''extend'' \<or> action = lit ''message'' \<longrightarrow>
          (case val of None \<Rightarrow> False | Some v \<Rightarrow> v \<noteq> PNone))
     \<and> (case val of None \<Rightarrow> True | Some v \<Rightarrow> ok_val v)
     \<and> (case tail of None \<Rightarrow> True | Some t \<Rightarrow> 1 \<le> t \<and> t \<le> MAX_LOG_TAIL_LINES)"

definition fresh_stamp :: "int \<Rightarrow> pystr \<Rightarrow> int \<Rightarrow> bool" where
  "fresh_stamp ts nonce now \<longleftrightarrow>
     ok_val (PInt ts) \<and> timestamp_in_window ts now \<and> is_valid_nonce (PStr nonce)"

definition val_or_none :: "pyval option \<Rightarrow> pyval" where
  "val_or_none v = (case v of None \<Rightarrow> PNone | Some x \<Rightarrow> x)"

lemma request_nodes_ok:
  "ok_val (PInt ts) \<Longrightarrow> (case val of None \<Rightarrow> True | Some v \<Rightarrow> ok_val v) \<Longrightarrow>
     (case tail of None \<Rightarrow> True | Some t \<Rightarrow> ok_val (PInt t)) \<Longrightarrow>
     ok_doc (request_nodes action var val req_id name ts nonce 3 tail)"
  by (auto simp: ok_doc_def request_nodes_def MAX_NESTING_DEPTH_def ok_val_def split: option.split)

lemma no_auth_request [simp]: "no_auth (request_nodes action var val req_id name ts nonce ver tail)"
  by (simp add: request_nodes_def)

lemma request_field_values:
  fixes action var val req_id name ts nonce ver tail
  defines "fs \<equiv> fields_of (request_nodes action var val req_id name ts nonce ver tail)"
  shows "fs (lit ''v'') = Some (PInt ver)" "fs (lit ''id'') = map_option PStr req_id"
    "fs (lit ''name'') = map_option PStr name" "fs (lit ''timestamp'') = Some (PInt ts)"
    "fs (lit ''nonce'') = Some (PStr nonce)" "fs (lit ''action'') = Some (PStr action)"
    "fs (lit ''var'') = map_option PStr var" "fs (lit ''val'') = val"
    "fs (lit ''tail'') = map_option PInt tail"
  unfolding fs_def request_nodes_def
  by (simp_all add: fields_of_append fields_of_Cons fields_of_opt_node split: option.split)

lemma opt_str_field:
  "fs k = map_option PStr x \<Longrightarrow> opt_str (field fs k) = x"
  by (cases x) simp_all

lemma request_opt_values:
  fixes action var val req_id name ts nonce ver tail
  defines "fs \<equiv> fields_of (request_nodes action var val req_id name ts nonce ver tail)"
  shows "opt_str (field fs (lit ''id'')) = req_id" "opt_str (field fs (lit ''name'')) = name"
    "opt_str (field fs (lit ''var'')) = var"
  unfolding fs_def by (rule opt_str_field, rule request_field_values)+

lemma request_fields_signed:
  "no_auth ns \<Longrightarrow> request_fields (ns @ [signature_block sig]) = fields_of ns"
  by (simp add: request_fields_def signature_block_def no_auth_def filter_id_conv [THEN iffD2])

lemma check_variable_sendable:
  "sendable hostname action var val name tail \<Longrightarrow>
     check_variable action var (val_or_none val) req_id = Inr ()"
  by (auto simp: sendable_def check_variable_def val_or_none_def split: option.splits)

lemma check_tail_sendable:
  "sendable hostname action var val name tail \<Longrightarrow>
     check_tail (field (\<lambda>_. map_option PInt tail) k) req_id = Inr tail"
  by (cases tail) (auto simp: sendable_def check_tail_def parse_int_def MAX_PARSED_INT_def
      MAX_LOG_TAIL_LINES_def)

lemma check_destination_sendable:
  "sendable hostname action var val name tail \<Longrightarrow> check_destination action name hostname req_id = Inr ()"
  by (auto simp: sendable_def check_destination_def)

section \<open>What an accepted request says\<close>

lemma fields_of_filter:
  "k \<noteq> lit ''auth'' \<Longrightarrow> fields_of (filter (\<lambda>n. nname n \<noteq> lit ''auth'') ns) k = fields_of ns k"
  by (induction ns) (auto simp: fields_of_Cons split: option.split)

lemma request_fields_rest:
  assumes "split_auth nodes = (Some a, rest)" and "k \<noteq> lit ''auth''"
  shows "request_fields nodes k = fields_of rest k"
proof -
  have "fields_of nodes k = fields_of rest k"
    using assms
  proof (induction nodes arbitrary: rest)
    case (Cons n ns)
    show ?case
    proof (cases "nname n = lit ''auth''")
      case True
      with Cons.prems show ?thesis by (auto simp: fields_of_Cons split: option.split)
    next
      case False
      then obtain r where "split_auth ns = (Some a, r)" "rest = n # r"
        using Cons.prems by (auto split: prod.splits)
      with Cons show ?thesis by (simp add: fields_of_Cons)
    qed
  qed simp
  with assms(2) show ?thesis by (simp add: request_fields_def fields_of_filter)
qed

lemma field_cong: "f k = g k \<Longrightarrow> field f k = field g k"
  by (simp add: field_def)

lemma check_signature_iff:
  "check_signature py secret rest sig req_id = Inr u \<longleftrightarrow>
     (\<exists>key. derive_key secret = Inr key \<and> compute_signature py key (serialize rest) = Inr sig)"
  by (auto simp: check_signature_def rbind_eq_Inr_iff guard_eq_Inr_iff verify_signature_iff [symmetric])

lemma verify_frame_accepts:
  "verify_frame py nodes secret req_id now = Inr nm \<longleftrightarrow>
     (\<exists>auth rest ts key.
        split_auth nodes = (Some auth, rest)
        \<and> field (fields_of rest) (lit ''timestamp'') = PInt ts \<and> timestamp_in_window ts now
        \<and> is_valid_nonce (field (fields_of rest) (lit ''nonce''))
        \<and> field (child_map auth) (lit ''signature'') \<noteq> PNone
        \<and> derive_key secret = Inr key
        \<and> compute_signature py key (serialize rest)
            = Inr (str_of (field (child_map auth) (lit ''signature'')))
        \<and> nm = opt_str (field (fields_of rest) (lit ''name'')))"
  by (cases "split_auth nodes")
    (auto simp: verify_frame_def Let_def rbind_eq_Inr_iff check_signature_iff is_valid_nonce_def
       split: option.splits pyval.splits if_splits)

lemma is_action_str: "is_action a \<Longrightarrow> \<exists>s. a = PStr s"
  by (auto simp: is_action_def split: pyval.splits)

lemma parse_request_accepts:
  assumes "parse_request py body secret hostname now = Inr req"
  obtains nodes rid' where "parse body = Inr nodes"
    "verify_frame py nodes secret rid' now = Inr (rname req)"
    "check_version py (field (request_fields nodes) (lit ''v'')) rid' = Inr (rversion req)"
    "field (request_fields nodes) (lit ''action'') = PStr (raction req)"
    "is_action (PStr (raction req))"
    "check_destination (raction req) (rname req) hostname rid' = Inr ()"
    "check_variable (raction req) (rvar req) (rval req) rid' = Inr ()"
    "check_tail (field (request_fields nodes) (lit ''tail'')) rid' = Inr (rtail req)"
    "rid' = opt_str (field (request_fields nodes) (lit ''id''))" "rid req = rid'"
    "rvar req = opt_str (field (request_fields nodes) (lit ''var''))"
    "rval req = field (request_fields nodes) (lit ''val'')"
    "rtimestamp req = field (request_fields nodes) (lit ''timestamp'')"
    "rnonce req = field (request_fields nodes) (lit ''nonce'')"
proof -
  obtain nodes where n: "parse body = Inr nodes"
    using assms by (auto simp: parse_request_def split: sum.splits exn.splits)
  have "is_action (field (request_fields nodes) (lit ''action''))"
    using assms n by (auto simp: parse_request_def Let_def rbind_eq_Inr_iff split: if_splits)
  then obtain a where a: "field (request_fields nodes) (lit ''action'') = PStr a" "is_action (PStr a)"
    using is_action_str by metis
  show thesis
    by (rule that [OF n])
      (use assms n a in \<open>auto simp: parse_request_def Let_def rbind_eq_Inr_iff split: if_splits\<close>)
qed

text \<open>A signed document is accepted as the request its fields describe.\<close>

lemma signed_document_accepted:
  assumes "parse body = Inr (ns @ [signature_block sig])" and "no_auth ns"
    and "auth_node py ns secret = Inr (signature_block sig)"
    and "fresh_stamp ts nonce now"
    and fs: "fields_of ns (lit ''v'') = Some (PInt 3)" "fields_of ns (lit ''timestamp'') = Some (PInt ts)"
      "fields_of ns (lit ''nonce'') = Some (PStr nonce)" "fields_of ns (lit ''action'') = Some (PStr a)"
    and "is_action (PStr a)"
    and "\<And>r. check_destination a (opt_str (field (fields_of ns) (lit ''name''))) hostname r = Inr ()"
    and "\<And>r. check_variable a (opt_str (field (fields_of ns) (lit ''var''))) (field (fields_of ns) (lit ''val'')) r = Inr ()"
    and "\<And>r. check_tail (field (fields_of ns) (lit ''tail'')) r = Inr tl'"
  shows "parse_request py body secret hostname now = Inr
    \<lparr>rversion = 3, rid = opt_str (field (fields_of ns) (lit ''id'')), raction = a,
     rvar = opt_str (field (fields_of ns) (lit ''var'')), rval = field (fields_of ns) (lit ''val''),
     rname = opt_str (field (fields_of ns) (lit ''name'')),
     rtimestamp = PInt ts, rnonce = PStr nonce, rtail = tl'\<rparr>"
proof -
  have verify: "verify_frame py (ns @ [signature_block sig]) secret r now
      = Inr (opt_str (field (fields_of ns) (lit ''name'')))" for r
    using verify_signed [OF assms(2,3) fs(2) _ fs(3)] assms(4) by (simp add: fresh_stamp_def)
  show ?thesis
    using assms by (simp add: parse_request_def request_fields_signed Let_def verify
        check_version_def SUPPORTED_VERSIONS_def)
qed

lemma built_request_parses:
  assumes "build_request py secret action var val req_id name ts nonce 3 tail = Inr body"
    and "sendable hostname action var val name tail" and "fresh_stamp ts nonce now"
  shows "parse_request py body secret hostname now = Inr
    \<lparr>rversion = 3, rid = req_id, raction = action, rvar = var, rval = val_or_none val, rname = name,
     rtimestamp = PInt ts, rnonce = PStr nonce, rtail = tail\<rparr>"
proof -
  let ?ns = "request_nodes action var val req_id name ts nonce 3 tail"
  obtain sig where auth: "auth_node py ?ns secret = Inr (signature_block sig)"
    and body: "body = serialize (?ns @ [signature_block sig])"
    using assms(1) by (auto simp: build_request_def Let_def rbind_eq_Inr_iff auth_node_iff split: if_splits)
  have vals: "(case val of None \<Rightarrow> True | Some v \<Rightarrow> ok_val v)"
    "(case tail of None \<Rightarrow> True | Some t \<Rightarrow> ok_val (PInt t))"
    using assms(2) by (auto simp: sendable_def ok_val_def MAX_LOG_TAIL_LINES_def split: option.splits)
  have parse: "parse body = Inr (?ns @ [signature_block sig])"
    unfolding body using assms(3) vals
    by (intro parse_serialize ok_doc_signed request_nodes_ok) (auto simp: fresh_stamp_def)
  have tail: "check_tail (field (fields_of ?ns) (lit ''tail'')) r = Inr tail" for r
    using check_tail_sendable [OF assms(2), of "lit ''tail''" r] request_field_values(9)
    by (simp add: field_def)
  have val: "field (fields_of ?ns) (lit ''val'') = val_or_none val"
    by (simp add: field_def val_or_none_def request_field_values)
  have "is_action (PStr action)" using assms(2) by (simp add: sendable_def is_action_def)
  from signed_document_accepted [OF parse no_auth_request auth assms(3) request_field_values(1,4,5,6) this _ _ tail]
  show ?thesis
    by (simp add: val request_opt_values check_variable_sendable [OF assms(2)]
        check_destination_sendable [OF assms(2)])
qed

section \<open>Unquoted names\<close>

text \<open>
  \<open>serialize\<close> prints node names as they are, while \<open>parse\<close> also takes a quoted
  text as a name. A field and its value, put together in quotes, are one node
  with a different name and the same canonical text.
\<close>

lemma escape_plain: "\<forall>c \<in> set s. c \<notin> {92, 34, 10, 9, 13} \<Longrightarrow> escape s = s"
  unfolding escape_charwise by (induction s) (auto simp: escape_char_def)

lemma lexes_quoted: "lexes ([34] @ escape w @ [34]) [VAL (PStr w)]"
  unfolding lexes_def using scan_escaped [of w] by (simp add: rbind_def split: sum.split)

lemma join_with_middle:
  "join_with c (xs @ y # ys) = concat (map (\<lambda>l. l @ [c]) xs) @ y @ concat (map (\<lambda>l. c # l) ys)"
proof (induction xs)
  case Nil
  show ?case by (simp add: join_with_Cons)
next
  case (Cons x xs)
  then show ?case by (cases "xs @ y # ys") auto
qed

lemma serialize_into_append: "serialize_into (ns @ ms) k = serialize_into ns k @ serialize_into ms k"
  by (induction ns k rule: serialize_into.induct) (auto simp: Let_def)

lemma line_tokens_append: "line_tokens (ns @ ms) = line_tokens ns @ line_tokens ms"
  by (induction ns rule: line_tokens.induct) auto

text \<open>The line of a field, and the same line in quotes.\<close>

definition field_line :: "pystr \<Rightarrow> pyval \<Rightarrow> pystr" where
  "field_line k v = k @ [32] @ format_value v"

lemma quoted_field_parses:
  assumes "ok_doc (ns @ Node k [v] [] # ms)" and "\<forall>c \<in> set (field_line k v). c \<notin> {92, 34, 10, 9, 13}"
  obtains pre post where "serialize (ns @ Node k [v] [] # ms) = pre @ field_line k v @ post"
    and "parse (pre @ [34] @ field_line k v @ [34] @ post) = Inr (ns @ Node (field_line k v) [] [] # ms)"
proof -
  let ?w = "field_line k v"
  let ?pre = "concat (map (\<lambda>l. l @ [10]) (serialize_into ns 0))"
  let ?post = "concat (map (\<lambda>l. 10 # l) (serialize_into ms 0))"
  have line: "serialize_into (Node k [v] [] # ms) 0 = ?w # serialize_into ms 0"
    by (simp add: field_line_def Let_def)
  have ser: "serialize (ns @ Node k [v] [] # ms) = ?pre @ ?w @ ?post"
    unfolding serialize_def serialize_into_append line by (rule join_with_middle)
  have ok: "ok_nodes ns" "ok_nodes ms" using assms(1) by (auto simp: ok_doc_def)
  let ?ls = "serialize_into ns 0 @ ([34] @ ?w @ [34]) # serialize_into ms 0"
  have "lexes ([34] @ ?w @ [34]) [VAL (PStr ?w)]"
    using lexes_quoted [of ?w] escape_plain [OF assms(2)] by simp
  then have "list_all2 lexes ?ls (line_tokens (ns @ Node ?w [] [] # ms))"
    using lexes_lines [OF ok(1)] lexes_lines [OF ok(2)]
    by (simp add: line_tokens_append list_all2_appendI)
  moreover have "height (ns @ Node ?w [] [] # ms) \<le> MAX_NESTING_DEPTH"
    using assms(1) by (simp add: ok_doc_def)
  ultimately have "parse (join_with 10 ?ls) = Inr (ns @ Node ?w [] [] # ms)" by (rule parse_lines)
  then show thesis using that [OF ser] by (simp add: join_with_middle)
qed

lemma serialize_quoted_field:
  "serialize (ns @ Node (field_line k v) [] [] # ms) = serialize (ns @ Node k [v] [] # ms)"
  by (simp add: serialize_def serialize_into_append field_line_def Let_def)

section \<open>Signed responses\<close>

lemma by_name_Nil [simp]: "by_name [] k = None"
  by (simp add: by_name_def)

lemma by_name_append:
  "by_name (ns @ ms) k = (case by_name ms k of Some n \<Rightarrow> Some n | None \<Rightarrow> by_name ns k)"
  by (simp add: by_name_def dict_of_pairs_append split: option.split)

lemma by_name_Cons:
  "by_name (n # ns) k =
     (case by_name ns k of Some m \<Rightarrow> Some m
      | None \<Rightarrow> if nname n \<noteq> lit ''auth'' \<and> k = nname n then Some n else None)"
  by (auto simp: by_name_def dict_of_pairs_Cons split: option.split)

lemma by_name_opt_node:
  "k \<noteq> lit ''auth'' \<Longrightarrow>
     by_name (opt_node n v) k = (if k = n then map_option (\<lambda>x. Node n [x] []) v else None)"
  by (auto simp: opt_node_def by_name_Cons split: option.split)

lemma nname_signature [simp]: "nname (signature_block sig) = lit ''auth''"
  by (simp add: signature_block_def)

lemma by_name_signature [simp]: "by_name [signature_block sig] k = None"
  by (simp add: by_name_Cons signature_block_def)

text \<open>The names of the envelope, and content that leaves them alone.\<close>

definition envelope_names :: "pystr list" where
  "envelope_names =
     [lit ''v'', lit ''id'', lit ''name'', lit ''timestamp'', lit ''nonce'', lit ''auth'']"

definition content_ok :: "node list \<Rightarrow> bool" where
  "content_ok content \<longleftrightarrow> ok_doc content \<and> (\<forall>n \<in> set content. nname n \<notin> set envelope_names)"

lemma content_ok_no_auth: "content_ok content \<Longrightarrow> no_auth content"
  by (auto simp: content_ok_def envelope_names_def no_auth_def)

lemma by_name_content:
  "\<forall>n \<in> set content. nname n \<notin> K \<Longrightarrow> k \<in> K \<Longrightarrow> by_name content k = None"
  by (induction content) (auto simp: by_name_Cons)

lemma by_name_response:
  fixes content hostname req_id ts nonce ver sig
  assumes "content_ok content"
  defines "bn \<equiv> by_name (response_nodes content hostname req_id ts nonce ver @ [signature_block sig])"
  shows "bn (lit ''v'') = Some (Node (lit ''v'') [PInt ver] [])"
    "bn (lit ''id'') = map_option (\<lambda>i. Node (lit ''id'') [PStr i] []) req_id"
    "bn (lit ''timestamp'') = Some (Node (lit ''timestamp'') [PInt ts] [])"
    "bn (lit ''nonce'') = Some (Node (lit ''nonce'') [PStr nonce] [])"
    "k \<notin> set envelope_names \<Longrightarrow> bn k = by_name content k"
proof -
  have none: "k \<in> set envelope_names \<Longrightarrow> by_name content k = None" for k
    using assms(1) by_name_content by (auto simp: content_ok_def)
  show "bn (lit ''v'') = Some (Node (lit ''v'') [PInt ver] [])"
    "bn (lit ''id'') = map_option (\<lambda>i. Node (lit ''id'') [PStr i] []) req_id"
    "bn (lit ''timestamp'') = Some (Node (lit ''timestamp'') [PInt ts] [])"
    "bn (lit ''nonce'') = Some (Node (lit ''nonce'') [PStr nonce] [])"
    "k \<notin> set envelope_names \<Longrightarrow> bn k = by_name content k"
    unfolding bn_def response_nodes_def
    by (auto simp: by_name_append by_name_Cons by_name_opt_node none envelope_names_def
        option.map_comp comp_def split: option.split)
qed

text \<open>What a client reads from a signed content.\<close>

definition response_of :: "node list \<Rightarrow> pystr \<Rightarrow> pystr option \<Rightarrow> int \<Rightarrow> pystr \<Rightarrow> int \<Rightarrow> response" where
  "response_of content hostname req_id ts nonce ver =
     (read_response content (Some hostname))
       \<lparr>sversion := PInt ver, sid := req_id, stimestamp := PInt ts, snonce := PStr nonce\<rparr>"

lemma fields_of_absent:
  "\<forall>n \<in> set ns. nname n \<noteq> k \<Longrightarrow> fields_of ns k = None"
  by (induction ns) (auto simp: fields_of_Cons)

lemma response_field_values:
  fixes content hostname req_id ts nonce ver
  assumes "content_ok content"
  defines "fs \<equiv> fields_of (response_nodes content hostname req_id ts nonce ver)"
  shows "fs (lit ''name'') = Some (PStr hostname)" "fs (lit ''timestamp'') = Some (PInt ts)"
    "fs (lit ''nonce'') = Some (PStr nonce)"
proof -
  have "k \<in> set envelope_names \<Longrightarrow> fields_of content k = None" for k
    using assms(1) by (intro fields_of_absent) (auto simp: content_ok_def)
  then have none: "fields_of content (lit ''name'') = None" "fields_of content (lit ''timestamp'') = None"
    "fields_of content (lit ''nonce'') = None"
    by (simp_all add: envelope_names_def)
  show "fs (lit ''name'') = Some (PStr hostname)" "fs (lit ''timestamp'') = Some (PInt ts)"
    "fs (lit ''nonce'') = Some (PStr nonce)"
    unfolding fs_def response_nodes_def
    by (simp_all add: fields_of_append fields_of_Cons fields_of_opt_node none)
qed

lemma signed_response_parses:
  assumes "sign_response py content secret hostname req_id ts nonce 3 = Inr body"
    and "content_ok content" and "fresh_stamp ts nonce now"
    and "expected_name = None \<or> expected_name = Some hostname"
    and "expected_version = None \<or> expected_version = Some 3"
  shows "parse_response py body secret expected_name expected_version now
    = Inr (response_of content hostname req_id ts nonce 3)"
proof -
  let ?ns = "response_nodes content hostname req_id ts nonce 3"
  obtain sig where auth: "auth_node py ?ns secret = Inr (signature_block sig)"
    and body: "body = serialize (?ns @ [signature_block sig])"
    using assms(1) by (auto simp: sign_response_def Let_def rbind_eq_Inr_iff auth_node_iff split: if_splits)
  have "ok_doc ?ns"
    using assms(2,3) by (auto simp: ok_doc_def response_nodes_def content_ok_def fresh_stamp_def
        ok_val_def MAX_NESTING_DEPTH_def split: option.split)
  then have parse: "parse body = Inr (?ns @ [signature_block sig])"
    unfolding body by (intro parse_serialize ok_doc_signed)
  have "no_auth ?ns" using content_ok_no_auth [OF assms(2)] by (simp add: response_nodes_def)
  then have verify: "verify_frame py (?ns @ [signature_block sig]) secret r now = Inr (Some hostname)" for r
    using verify_signed [OF _ auth, of ts now "PStr nonce" r] assms(3)
    by (simp add: response_field_values [OF assms(2)] fresh_stamp_def)
  let ?all = "?ns @ [signature_block sig]"
  note bn = by_name_response [OF assms(2)]
  have read: "read_response ?all (Some hostname) = response_of content hostname req_id ts nonce 3"
    by (simp add: read_response_def response_of_def Let_def bn named_arg_def envelope_names_def
        opt_str_def str_of_def split: option.split)
  show ?thesis
    using assms(4,5) by (auto simp: parse_response_def parse Let_def bn named_arg_def
        SUPPORTED_VERSIONS_def verify read)
qed

section \<open>A concrete sender\<close>

definition sample_python :: python where
  "sample_python =
     \<lparr>hmac_digest = (\<lambda>key msg. [foldl (\<lambda>a b. (a * 31 + b) mod 256) 7 (key @ msg), length msg mod 256]),
      str_repr = (\<lambda>s. s), exc_text = (\<lambda>_. lit ''error'')\<rparr>"

definition sample_nonce :: pystr where
  "sample_nonce = lit ''0123456789abcdef0123456789abcdef''"

lemma sample_nonce_valid: "is_valid_nonce (PStr sample_nonce)"
  by code_simp

lemma sample_stamp: "fresh_stamp 1000 sample_nonce 1030"
  using sample_nonce_valid
  by (simp add: fresh_stamp_def ok_val_def timestamp_in_window_def TIMESTAMP_WINDOW_SECONDS_def)

definition sample_request :: "pystr res" where
  "sample_request = build_request sample_python (lit ''key'') (lit ''set'') (Some (lit ''bed_time''))
     (Some (PStr (lit ''20:30''))) None (Some (lit ''kid'')) 1000 sample_nonce 3 None"

lemma sample_request_built: "\<exists>body. sample_request = Inr body"
  unfolding sample_request_def
  by (rule build_request_total) (simp_all add: request_nodes_def sample_nonce_def)

text \<open>The sender's request is accepted.\<close>

lemma sample_sendable:
  "sendable (lit ''kid'') (lit ''set'') (Some (lit ''bed_time'')) (Some (PStr (lit ''20:30''))) (Some (lit ''kid'')) None"
  by (simp add: sendable_def ACTIONS_def WRITE_ACTIONS_def VARIABLES_def ok_val_def)

lemma sample_request_accepted:
  "sample_request = Inr body \<Longrightarrow>
     \<exists>req. parse_request sample_python body (lit ''key'') (lit ''kid'') 1030 = Inr req"
  using built_request_parses [OF _ sample_sendable sample_stamp]
  unfolding sample_request_def by blast

text \<open>What the parser has checked when it accepts.\<close>

lemma accepted_authentic:
  assumes "parse_request py body secret hostname now = Inr req"
  shows "\<exists>nodes auth rest key ts.
    parse body = Inr nodes \<and> split_auth nodes = (Some auth, rest)
    \<and> derive_key secret = Inr key
    \<and> compute_signature py key (serialize rest)
        = Inr (str_of (field (child_map auth) (lit ''signature'')))
    \<and> field (fields_of rest) (lit ''timestamp'') = PInt ts \<and> \<bar>now - ts\<bar> \<le> 60
    \<and> is_valid_nonce (field (fields_of rest) (lit ''nonce''))
    \<and> field (fields_of rest) (lit ''action'') = PStr (raction req)
    \<and> opt_str (field (fields_of rest) (lit ''var'')) = rvar req
    \<and> field (fields_of rest) (lit ''val'') = rval req
    \<and> opt_str (field (fields_of rest) (lit ''name'')) = rname req"
  using assms
proof (rule parse_request_accepts)
  fix nodes rid'
  assume p: "parse body = Inr nodes" and v: "verify_frame py nodes secret rid' now = Inr (rname req)"
    and f: "field (request_fields nodes) (lit ''action'') = PStr (raction req)"
      "rvar req = opt_str (field (request_fields nodes) (lit ''var''))"
      "rval req = field (request_fields nodes) (lit ''val'')"
  obtain auth rest ts key where
    s: "split_auth nodes = (Some auth, rest)" "field (fields_of rest) (lit ''timestamp'') = PInt ts"
      "timestamp_in_window ts now" "is_valid_nonce (field (fields_of rest) (lit ''nonce''))"
      "derive_key secret = Inr key"
      "compute_signature py key (serialize rest) = Inr (str_of (field (child_map auth) (lit ''signature'')))"
      "rname req = opt_str (field (fields_of rest) (lit ''name''))"
    using v unfolding verify_frame_accepts by blast
  have "field (request_fields nodes) k = field (fields_of rest) k" if "k \<noteq> lit ''auth''" for k
    using request_fields_rest [OF s(1) that] by (rule field_cong)
  then have "field (fields_of rest) (lit ''action'') = PStr (raction req)"
    "opt_str (field (fields_of rest) (lit ''var'')) = rvar req"
    "field (fields_of rest) (lit ''val'') = rval req"
    using f by simp_all
  moreover have "\<bar>now - ts\<bar> \<le> 60"
    using s(3) by (simp add: timestamp_in_window_def TIMESTAMP_WINDOW_SECONDS_def)
  ultimately show ?thesis using p s(1,2,4-7) by metis
qed

section \<open>Properties\<close>

text \<open>
  C21. Every request a client may send, signed with the shared secret, is accepted
  by the agent it is addressed to while its timestamp is in the window, and the
  agent sees exactly the action, variable, value, name, id and tail that were sent.
\<close>

theorem request_roundtrip:
  assumes "build_request py secret action var val req_id name ts nonce 3 tail = Inr body"
    and "sendable hostname action var val name tail" and "fresh_stamp ts nonce now"
  shows "parse_request py body secret hostname now = Inr
    \<lparr>rversion = 3, rid = req_id, raction = action, rvar = var, rval = val_or_none val, rname = name,
     rtimestamp = PInt ts, rnonce = PStr nonce, rtail = tail\<rparr>"
  using assms by (rule built_request_parses)

theorem request_roundtrip_witness:
  "\<exists>body. sample_request = Inr body \<and>
     parse_request sample_python body (lit ''key'') (lit ''kid'') 1030 = Inr
       \<lparr>rversion = 3, rid = None, raction = lit ''set'', rvar = Some (lit ''bed_time''),
        rval = PStr (lit ''20:30''), rname = Some (lit ''kid''),
        rtimestamp = PInt 1000, rnonce = PStr sample_nonce, rtail = None\<rparr>"
proof -
  obtain body where b: "sample_request = Inr body" using sample_request_built ..
  have "parse_request sample_python body (lit ''key'') (lit ''kid'') 1030 = Inr
       \<lparr>rversion = 3, rid = None, raction = lit ''set'', rvar = Some (lit ''bed_time''),
        rval = PStr (lit ''20:30''), rname = Some (lit ''kid''),
        rtimestamp = PInt 1000, rnonce = PStr sample_nonce, rtail = None\<rparr>"
    using request_roundtrip [OF b [unfolded sample_request_def] sample_sendable sample_stamp]
    by (simp add: val_or_none_def)
  with b show ?thesis by blast
qed

text \<open>
  C9. A request is accepted only if it is authentic: the text carries an auth
  block whose signature is the MAC, under the agent's secret, of the canonical
  text of all its other fields; its timestamp is within 60 seconds of the clock;
  its nonce is at least 32 hex digits; and what the agent acts on (action,
  variable, value, destination) are exactly those signed fields.
\<close>

theorem accepted_request_is_authentic:
  assumes "parse_request py body secret hostname now = Inr req"
  shows "\<exists>nodes auth rest key ts.
    parse body = Inr nodes \<and> split_auth nodes = (Some auth, rest)
    \<and> derive_key secret = Inr key
    \<and> compute_signature py key (serialize rest)
        = Inr (str_of (field (child_map auth) (lit ''signature'')))
    \<and> field (fields_of rest) (lit ''timestamp'') = PInt ts \<and> \<bar>now - ts\<bar> \<le> 60
    \<and> is_valid_nonce (field (fields_of rest) (lit ''nonce''))
    \<and> field (fields_of rest) (lit ''action'') = PStr (raction req)
    \<and> opt_str (field (fields_of rest) (lit ''var'')) = rvar req
    \<and> field (fields_of rest) (lit ''val'') = rval req
    \<and> opt_str (field (fields_of rest) (lit ''name'')) = rname req"
  using assms by (rule accepted_authentic)

theorem accepted_request_is_authentic_witness:
  "\<exists>body nodes auth rest key. sample_request = Inr body \<and> parse body = Inr nodes
     \<and> split_auth nodes = (Some auth, rest) \<and> derive_key (lit ''key'') = Inr key
     \<and> compute_signature sample_python key (serialize rest)
         = Inr (str_of (field (child_map auth) (lit ''signature'')))"
proof -
  obtain body where b: "sample_request = Inr body" using sample_request_built ..
  then obtain req where "parse_request sample_python body (lit ''key'') (lit ''kid'') 1030 = Inr req"
    using sample_request_accepted by blast
  from accepted_request_is_authentic [OF this] b show ?thesis by blast
qed

text \<open>
  A request is accepted only if the agent may act on it: a known action,
  addressed to this agent or to nobody, and to this agent by name when it writes;
  a known variable where the action takes one, a value where it needs one, and a
  log tail of 1 to 5000 lines.
\<close>

theorem accepted_request_is_admissible:
  assumes "parse_request py body secret hostname now = Inr req"
  shows "rversion req = 3 \<and> raction req \<in> set (map fst ACTIONS)
    \<and> (rname req = None \<or> rname req = Some hostname)
    \<and> (raction req \<in> set WRITE_ACTIONS \<longrightarrow> rname req = Some hostname)
    \<and> (raction req = lit ''set'' \<or> raction req = lit ''clear'' \<longrightarrow>
         (\<exists>v \<in> set (map fst VARIABLES). rvar req = Some v))
    \<and> (raction req = lit ''set'' \<or> raction req = lit ''extend'' \<or> raction req = lit ''message'' \<longrightarrow>
         rval req \<noteq> PNone)
    \<and> (\<forall>t. rtail req = Some t \<longrightarrow> 1 \<le> t \<and> t \<le> 5000)"
  using assms
proof (rule parse_request_accepts)
  fix nodes rid'
  assume v: "check_version py (field (request_fields nodes) (lit ''v'')) rid' = Inr (rversion req)"
    and a: "is_action (PStr (raction req))"
    and d: "check_destination (raction req) (rname req) hostname rid' = Inr ()"
    and c: "check_variable (raction req) (rvar req) (rval req) rid' = Inr ()"
    and t: "check_tail (field (request_fields nodes) (lit ''tail'')) rid' = Inr (rtail req)"
  have "rversion req = 3"
    using v by (auto simp: check_version_def SUPPORTED_VERSIONS_def split: pyval.splits if_splits)
  moreover have "raction req \<in> set (map fst ACTIONS)" using a by (simp add: is_action_def)
  moreover have "rname req = None \<or> rname req = Some hostname"
    "raction req \<in> set WRITE_ACTIONS \<Longrightarrow> rname req = Some hostname"
    using d by (auto simp: check_destination_def split: if_splits)
  moreover have "raction req = lit ''set'' \<or> raction req = lit ''clear'' \<Longrightarrow>
      \<exists>v \<in> set (map fst VARIABLES). rvar req = Some v"
    using c by (auto simp: check_variable_def split: option.splits if_splits)
  moreover have "raction req = lit ''set'' \<or> raction req = lit ''extend'' \<or> raction req = lit ''message'' \<Longrightarrow>
      rval req \<noteq> PNone"
    using c by (auto simp: check_variable_def guard_eq_Inr_iff split: option.splits if_splits)
  moreover have "rtail req = Some t \<Longrightarrow> 1 \<le> t \<and> t \<le> 5000" for t
    using t by (auto simp: check_tail_def rbind_eq_Inr_iff MAX_LOG_TAIL_LINES_def split: if_splits)
  ultimately show ?thesis by blast
qed

theorem accepted_request_is_admissible_witness:
  "\<exists>body req. sample_request = Inr body
     \<and> parse_request sample_python body (lit ''key'') (lit ''kid'') 1030 = Inr req
     \<and> raction req \<in> set (map fst ACTIONS)"
proof -
  obtain body where b: "sample_request = Inr body" using sample_request_built ..
  then obtain req where r: "parse_request sample_python body (lit ''key'') (lit ''kid'') 1030 = Inr req"
    using sample_request_accepted by blast
  from accepted_request_is_admissible [OF r] b r show ?thesis by blast
qed

text \<open>
  A signed response is read back by the client that expects it: the name of
  the agent, the request id, the stamps, and the payload (a result, an error with
  its code and message, a block of settings, a log) are those of the content.
\<close>

theorem response_roundtrip:
  assumes "sign_response py content secret hostname req_id ts nonce 3 = Inr body"
    and "content_ok content" and "fresh_stamp ts nonce now"
    and "expected_name \<in> {None, Some hostname}" and "expected_version \<in> {None, Some 3}"
  shows "\<exists>r. parse_response py body secret expected_name expected_version now = Inr r
    \<and> sname r = Some hostname \<and> sid r = req_id \<and> stimestamp r = PInt ts \<and> snonce r = PStr nonce
    \<and> (\<forall>v. content = ok_content v \<longrightarrow> response_ok r \<and> sresult r = v \<and> ssettings r = None)
    \<and> (\<forall>code msg. content = error_content code msg \<longrightarrow>
          \<not> response_ok r \<and> response_text r = code @ lit '': '' @ msg)
    \<and> (\<forall>cs. content = block_content (Node (lit ''settings'') [] cs) \<longrightarrow>
          response_ok r \<and> ssettings r = Some (fields_of cs))
    \<and> (\<forall>path b ls. content = block_content (Node (lit ''logs'') []
            [Node (lit ''path'') [PStr path] [], Node (lit ''truncated'') [PBool b] [],
             Node (lit ''lines'') (map PStr ls) []]) \<longrightarrow>
          slogs r = Some \<lparr>lpath = path, ltruncated = b, llines = ls\<rparr>)"
proof -
  have p: "parse_response py body secret expected_name expected_version now
      = Inr (response_of content hostname req_id ts nonce 3)"
    using assms by (intro signed_response_parses) auto
  note defs = response_of_def read_response_def Let_def response_ok_def response_text_def
    ok_content_def error_content_def block_content_def by_name_Cons named_arg_def child_map_def
    field_simps' logs_of_def truthy_def
  have lines: "map (str_of \<circ> PStr) ls = ls" for ls by (induction ls) auto
  show ?thesis
    by (rule exI [of _ "response_of content hostname req_id ts nonce 3"], rule conjI [OF p])
      (simp add: defs lines)
qed

theorem response_roundtrip_witness:
  "\<exists>body r. sign_response sample_python (error_content FORBIDDEN (lit ''no'')) (lit ''key'') (lit ''kid'')
       (Some (lit ''7'')) 1000 sample_nonce 3 = Inr body
     \<and> parse_response sample_python body (lit ''key'') (Some (lit ''kid'')) None 1030 = Inr r
     \<and> response_text r = FORBIDDEN @ lit '': '' @ lit ''no''"
proof -
  let ?c = "error_content FORBIDDEN (lit ''no'')"
  obtain sig where "auth_node sample_python (response_nodes ?c (lit ''kid'') (Some (lit ''7'')) 1000 sample_nonce 3)
      (lit ''key'') = Inr (signature_block sig)"
    using auth_node_total [of "response_nodes ?c (lit ''kid'') (Some (lit ''7'')) 1000 sample_nonce 3" "lit ''key''"]
    by (auto simp: response_nodes_def error_content_def FORBIDDEN_def sample_nonce_def)
  then obtain body where s: "sign_response sample_python ?c (lit ''key'') (lit ''kid'')
      (Some (lit ''7'')) 1000 sample_nonce 3 = Inr body"
    by (simp add: sign_response_def SUPPORTED_VERSIONS_def)
  have "content_ok ?c"
    by (simp add: content_ok_def ok_doc_def error_content_def envelope_names_def MAX_NESTING_DEPTH_def)
  from response_roundtrip [OF s this sample_stamp, of "Some (lit ''kid'')" None] s
  show ?thesis by auto
qed

text \<open>
  A captured request stays valid for the whole window: the parser keeps no
  record of the nonces it has seen, so any later reading of the same text within
  60 seconds of its timestamp is accepted again, with the same content.
\<close>

theorem captured_request_is_accepted_again:
  assumes "parse_request py body secret hostname now = Inr req"
    and "rtimestamp req = PInt ts" and "\<bar>later - ts\<bar> \<le> 60"
  shows "parse_request py body secret hostname later = Inr req"
  using assms(1)
proof (rule parse_request_accepts)
  fix nodes rid'
  assume p: "parse body = Inr nodes" and v: "verify_frame py nodes secret rid' now = Inr (rname req)"
    and t: "rtimestamp req = field (request_fields nodes) (lit ''timestamp'')"
    and r: "rid' = opt_str (field (request_fields nodes) (lit ''id''))"
  have "verify_frame py nodes secret rid' later = Inr (rname req)"
    using v unfolding verify_frame_accepts
  proof (elim exE conjE, intro exI conjI)
    fix auth rest ts' key
    assume s: "split_auth nodes = (Some auth, rest)" "field (fields_of rest) (lit ''timestamp'') = PInt ts'"
    have "field (request_fields nodes) (lit ''timestamp'') = field (fields_of rest) (lit ''timestamp'')"
      using request_fields_rest [OF s(1)] by (intro field_cong) simp
    with s(2) t assms(2) have "ts' = ts" by simp
    with assms(3) show "timestamp_in_window ts' later"
      by (simp add: timestamp_in_window_def TIMESTAMP_WINDOW_SECONDS_def)
  qed assumption+
  with assms(1) p v r show ?thesis by (simp add: parse_request_def Let_def)
qed

theorem captured_request_is_accepted_again_witness:
  "\<exists>body req. sample_request = Inr body
     \<and> parse_request sample_python body (lit ''key'') (lit ''kid'') 1030 = Inr req
     \<and> parse_request sample_python body (lit ''key'') (lit ''kid'') 1059 = Inr req"
proof -
  obtain body where b: "sample_request = Inr body" using sample_request_built ..
  let ?r = "\<lparr>rversion = 3, rid = None, raction = lit ''set'', rvar = Some (lit ''bed_time''),
        rval = PStr (lit ''20:30''), rname = Some (lit ''kid''),
        rtimestamp = PInt 1000, rnonce = PStr sample_nonce, rtail = None\<rparr>"
  have "parse_request sample_python body (lit ''key'') (lit ''kid'') 1030 = Inr ?r"
    using built_request_parses [OF b [unfolded sample_request_def] sample_sendable sample_stamp]
    by (simp add: val_or_none_def)
  with captured_request_is_accepted_again [OF this, of 1000 1059] b show ?thesis by auto
qed

text \<open>
  The signature does not bind the field names: anybody who captures a signed
  shutdown request can put quotes around its \<open>val\<close> line. The agent still accepts
  the text, under the same signature, but as a shutdown without a value, which
  it executes after the default of 60 seconds.
\<close>

theorem captured_shutdown_can_lose_its_value:
  assumes "build_request py secret (lit ''shutdown'') None (Some (PInt n)) req_id (Some hostname) ts nonce 3 None
      = Inr body"
    and "ok_val (PInt n)" and "fresh_stamp ts nonce now"
  shows "\<exists>pre post. body = pre @ lit ''val '' @ int_str n @ post
    \<and> parse_request py (pre @ [34] @ lit ''val '' @ int_str n @ [34] @ post) secret hostname now = Inr
        \<lparr>rversion = 3, rid = req_id, raction = lit ''shutdown'', rvar = None, rval = PNone,
         rname = Some hostname, rtimestamp = PInt ts, rnonce = PStr nonce, rtail = None\<rparr>"
proof -
  let ?ns = "request_nodes (lit ''shutdown'') None (Some (PInt n)) req_id (Some hostname) ts nonce 3 None"
  let ?as = "request_nodes (lit ''shutdown'') None None req_id (Some hostname) ts nonce 3 None"
  let ?w = "field_line (lit ''val'') (PInt n)"
  let ?ms = "?as @ [Node ?w [] []]"
  have ns: "?ns = ?as @ [Node (lit ''val'') [PInt n] []]"
    by (simp add: request_nodes_def opt_node_def)
  obtain sig where auth: "auth_node py ?ns secret = Inr (signature_block sig)"
    and body: "body = serialize (?ns @ [signature_block sig])"
    using assms(1) by (auto simp: build_request_def Let_def rbind_eq_Inr_iff auth_node_iff split: if_splits)
  have w: "?w = lit ''val '' @ int_str n" by (simp add: field_line_def format_value_def lit_def)
  have plain: "\<forall>c \<in> set ?w. c \<notin> {92, 34, 10, 9, 13}"
    unfolding w by (auto simp: lit_def is_digit_def dest: int_str_chars)
  have "ok_doc (?ns @ [signature_block sig])"
    using assms(2,3) by (intro ok_doc_signed request_nodes_ok) (auto simp: fresh_stamp_def)
  then obtain pre post where
    pre: "body = pre @ ?w @ post" "parse (pre @ [34] @ ?w @ [34] @ post) = Inr (?ms @ [signature_block sig])"
    using quoted_field_parses [of ?as "lit ''val''" "PInt n" "[signature_block sig]"] plain body ns
    by auto
  have "serialize ?ms = serialize ?ns" unfolding ns by (rule serialize_quoted_field)
  then have auth': "auth_node py ?ms secret = Inr (signature_block sig)"
    using auth by (simp add: auth_node_def)
  have other: "?w \<noteq> lit ''v''" "?w \<noteq> lit ''id''" "?w \<noteq> lit ''name''" "?w \<noteq> lit ''timestamp''"
    "?w \<noteq> lit ''nonce''" "?w \<noteq> lit ''action''" "?w \<noteq> lit ''var''" "?w \<noteq> lit ''val''"
    "?w \<noteq> lit ''tail''" "?w \<noteq> lit ''auth''"
    unfolding w by (simp_all add: lit_def)
  have fs: "fields_of ?ms k = fields_of ?as k" if "k \<noteq> ?w" for k
    using that by (simp add: fields_of_append fields_of_Cons)
  have fm: "field (fields_of ?ms) k = field (fields_of ?as) k" if "k \<noteq> ?w" for k
    using fs [OF that] by (rule field_cong)
  have vals: "opt_str (field (fields_of ?ms) (lit ''id'')) = req_id"
    "opt_str (field (fields_of ?ms) (lit ''var'')) = None"
    "opt_str (field (fields_of ?ms) (lit ''name'')) = Some hostname"
    "field (fields_of ?ms) (lit ''val'') = PNone" "field (fields_of ?ms) (lit ''tail'') = PNone"
    unfolding fm [OF other(2) [symmetric]] fm [OF other(3) [symmetric]] fm [OF other(7) [symmetric]]
      fm [OF other(8) [symmetric]] fm [OF other(9) [symmetric]]
    by (simp_all add: request_opt_values request_field_values)
  have "no_auth ?ms" using other(10) by simp
  moreover have "fields_of ?ms (lit ''v'') = Some (PInt 3)" "fields_of ?ms (lit ''timestamp'') = Some (PInt ts)"
    "fields_of ?ms (lit ''nonce'') = Some (PStr nonce)"
    "fields_of ?ms (lit ''action'') = Some (PStr (lit ''shutdown''))"
    unfolding fs [OF other(1) [symmetric]] fs [OF other(4) [symmetric]] fs [OF other(5) [symmetric]]
      fs [OF other(6) [symmetric]]
    by (simp_all add: request_field_values)
  moreover have "is_action (PStr (lit ''shutdown''))" by (simp add: is_action_def ACTIONS_def)
  ultimately have "parse_request py (pre @ [34] @ ?w @ [34] @ post) secret hostname now = Inr
    \<lparr>rversion = 3, rid = req_id, raction = lit ''shutdown'', rvar = None, rval = PNone,
     rname = Some hostname, rtimestamp = PInt ts, rnonce = PStr nonce, rtail = None\<rparr>"
    using signed_document_accepted [OF pre(2) _ auth' assms(3), of "lit ''shutdown''" hostname None]
    by (simp add: vals check_destination_def check_variable_def check_tail_def)
  with pre(1) show ?thesis unfolding w by (metis append.assoc)
qed

theorem captured_shutdown_can_lose_its_value_witness:
  "\<exists>pre post req. build_request sample_python (lit ''key'') (lit ''shutdown'') None (Some (PInt 600)) None
       (Some (lit ''kid'')) 1000 sample_nonce 3 None = Inr (pre @ lit ''val '' @ int_str 600 @ post)
     \<and> parse_request sample_python (pre @ [34] @ lit ''val '' @ int_str 600 @ [34] @ post)
         (lit ''key'') (lit ''kid'') 1030 = Inr req
     \<and> raction req = lit ''shutdown'' \<and> rval req = PNone"
proof -
  obtain body where b: "build_request sample_python (lit ''key'') (lit ''shutdown'') None (Some (PInt 600)) None
       (Some (lit ''kid'')) 1000 sample_nonce 3 None = Inr body"
    using build_request_total [of "lit ''shutdown''" None "Some (PInt 600)" None "Some (lit ''kid'')" 1000
        sample_nonce None "lit ''key''"]
    by (auto simp: request_nodes_def sample_nonce_def)
  from captured_shutdown_can_lose_its_value [OF b _ sample_stamp] obtain pre post where
    "body = pre @ lit ''val '' @ int_str 600 @ post"
    "parse_request sample_python (pre @ [34] @ lit ''val '' @ int_str 600 @ [34] @ post)
       (lit ''key'') (lit ''kid'') 1030 = Inr
        \<lparr>rversion = 3, rid = None, raction = lit ''shutdown'', rvar = None, rval = PNone,
         rname = Some (lit ''kid''), rtimestamp = PInt 1000, rnonce = PStr sample_nonce, rtail = None\<rparr>"
    by (auto simp: ok_val_def)
  then show ?thesis using b by (intro exI conjI) auto
qed

text \<open>
  A number field is a whole number of at most 2^53 in absolute value, given
  as an integer or as its decimal text with blanks around it; every such number
  is read back from both forms, and nothing else is accepted.
\<close>

theorem parse_int_accepts_small_numbers:
  "((\<exists>raw. parse_int raw req_id = Inr n) \<longleftrightarrow> \<bar>n\<bar> \<le> 2 ^ 53)
   \<and> (parse_int (PInt n) req_id = Inr n \<longleftrightarrow> \<bar>n\<bar> \<le> 2 ^ 53)
   \<and> (parse_int (PStr (int_str n)) req_id = Inr n \<longleftrightarrow> \<bar>n\<bar> \<le> 2 ^ 53)
   \<and> parse_int (PBool b) req_id \<noteq> Inr n \<and> parse_int PNone req_id \<noteq> Inr n"
proof (intro conjI)
  have strip: "strip (int_str n) = int_str n"
    using int_str_chars [of "hd (int_str n)" n] int_str_chars [of "last (int_str n)" n]
    by (intro strip_id) (auto simp: is_space_def is_digit_def)
  have only: "parse_int raw req_id = Inr n \<Longrightarrow> \<bar>n\<bar> \<le> 2 ^ 53" for raw
    by (auto simp: parse_int_def MAX_PARSED_INT_def rbind_eq_Inr_iff split: option.splits if_splits)
  show int: "parse_int (PInt n) req_id = Inr n \<longleftrightarrow> \<bar>n\<bar> \<le> 2 ^ 53"
    by (simp add: parse_int_def MAX_PARSED_INT_def)
  show "(\<exists>raw. parse_int raw req_id = Inr n) \<longleftrightarrow> \<bar>n\<bar> \<le> 2 ^ 53"
    using only int by blast
  show "parse_int (PStr (int_str n)) req_id = Inr n \<longleftrightarrow> \<bar>n\<bar> \<le> 2 ^ 53"
  proof
    assume small: "\<bar>n\<bar> \<le> 2 ^ 53"
    also have "(2::int) ^ 53 \<le> 2 ^ 64" by simp
    finally have "int_of_dec (int_str n) = Inr n" by (intro int_of_dec_int_str small_int_limit)
    with small show "parse_int (PStr (int_str n)) req_id = Inr n"
      by (simp add: parse_int_def MAX_PARSED_INT_def strip)
  qed (rule only)
  show "parse_int (PBool b) req_id \<noteq> Inr n" "parse_int PNone req_id \<noteq> Inr n"
    by (simp_all add: parse_int_def)
qed

end
