(* ===== verification/Time_Control.thy ===== *)
theory Time_Control
  imports State_Store Auth
begin

text \<open>
  \<open>PCTimeControl\<close> of \<open>src/kid_pc_monitor/pc_time_control.py\<close>: the object the agent
  runs around. Its attributes, the disk, the state of the host and the clock
  reading make up the world; every method is an action on it. The host platform
  (\<open>host_platform.py\<close>) is a record of actions on a host state of any type, each of
  which may raise. A method works with the one reading of the clock in its world, also where
  the source reads the clock more than once within a call. Log lines and console output are left out; the one place where
  they matter for control flow, the \<open>try\<close> around them, is kept.
\<close>

section \<open>The host platform\<close>

record 'h platform =
  p_check_session_locked :: "('h, bool) act"
  p_session_is_active :: "('h, bool) act"
  p_lock_workstation :: "('h, unit) act"
  p_shutdown :: "int \<Rightarrow> ('h, unit) act"
  p_cancel_shutdown :: "('h, unit) act"
  p_show_message :: "pystr \<Rightarrow> pystr \<Rightarrow> ('h, unit) act"
  p_get_hostname :: "('h, pystr) act"

section \<open>The world\<close>

text \<open>What is fixed when the agent starts.\<close>

record 'h env =
  e_python :: python
  e_platform :: "'h platform"
  e_store :: store_config
  e_monitored :: "pystr list"
  e_exempt :: "pystr list"
  e_log_path :: pystr

text \<open>
  The mutable attributes; \<open>w_log\<close> is what reading the log file would give, None when
  there is no such file. A key \<open>f"{m}min"\<close> of \<open>warnings_sent\<close> is the threshold
  \<open>m\<close>; \<open>step_errors\<close> maps the name of a failing query or phase to the last message.
\<close>

record 'h world =
  w_clock :: datetime
  w_disk :: disk
  w_host :: 'h
  w_daily :: daily_settings
  w_runtime :: runtime_state
  w_last_tick_at :: "datetime option"
  w_last_persist_at :: "datetime option"
  w_is_locked :: bool
  w_warnings_sent :: "int set"
  w_warnings_date :: "date option"
  w_last_logged_reason :: "pystr option"
  w_step_errors :: "pystr \<Rightarrow> pystr option"
  w_state_load_failed :: bool
  w_log :: "bytes option res"

type_synonym ('h, 'a) wact = "('h world, 'a) act"

definition on_disk :: "(disk, 'a) act \<Rightarrow> ('h, 'a) wact" where
  "on_disk = zoom w_disk (\<lambda>d w. w\<lparr>w_disk := d\<rparr>)"

definition on_host :: "('h, 'a) act \<Rightarrow> ('h, 'a) wact" where
  "on_host = zoom w_host (\<lambda>h w. w\<lparr>w_host := h\<rparr>)"

definition set_daily :: "(daily_settings \<Rightarrow> daily_settings) \<Rightarrow> ('h, unit) wact" where
  "set_daily f = modify (\<lambda>w. w\<lparr>w_daily := f (w_daily w)\<rparr>)"

definition set_runtime :: "(runtime_state \<Rightarrow> runtime_state) \<Rightarrow> ('h, unit) wact" where
  "set_runtime f = modify (\<lambda>w. w\<lparr>w_runtime := f (w_runtime w)\<rparr>)"

text \<open>\<open>try: m except Exception as e: h(e)\<close>: everything is caught.\<close>

definition try_all :: "('s, 'a) act \<Rightarrow> (exn \<Rightarrow> ('s, 'a) act) \<Rightarrow> ('s, 'a) act" where
  "try_all m h = try_with m (\<lambda>e. Some (h e))"

section \<open>Settings the policy is asked with\<close>

definition monitors_user :: "'h env \<Rightarrow> bool" where
  "monitors_user env = should_monitor_user (user_name (e_store env)) (Some (e_monitored env)) (Some (e_exempt env))"

definition effective_allowance :: "'h world \<Rightarrow> rat option" where
  "effective_allowance w = effective_daily_allowance_minutes (w_daily w) (w_runtime w)"

definition used_minutes :: "'h world \<Rightarrow> rat" where
  "used_minutes w = accumulated_seconds (w_runtime w) / 60"

definition world_lock_decision :: "'h env \<Rightarrow> 'h world \<Rightarrow> lock_decision" where
  "world_lock_decision env w =
     lock_decision (w_clock w) (bed_time (w_daily w)) (effective_allowance w) (used_minutes w)
       (monitors_user env) (manual_lock_active (w_runtime w)) (wake_time (w_daily w))"

definition currently_in_lock_window :: "'h env \<Rightarrow> ('h, bool \<times> pystr) wact" where
  "currently_in_lock_window env =
     gets (\<lambda>w. (should_lock (world_lock_decision env w), reason (world_lock_decision env w)))"

definition enforcement_lock_state :: "'h env \<Rightarrow> ('h, bool \<times> pystr option) wact" where
  "enforcement_lock_state env =
     gets (\<lambda>w. enforcement_state (w_clock w) (bed_time (w_daily w)) (effective_allowance w)
                 (used_minutes w) (monitors_user env) (wake_time (w_daily w)))"

definition get_time_remaining :: "'h env \<Rightarrow> ('h, rat option) wact" where
  "get_time_remaining env w =
     (minutes_until_lock (w_clock w) (bed_time (w_daily w)) (effective_allowance w) (used_minutes w)
        (monitors_user env) (manual_lock_active (w_runtime w)) (wake_time (w_daily w)), w)"

section \<open>Failures that repeat\<close>

text \<open>\<open>_note_failure\<close> (the log line apart) and \<open>_note_recovered\<close>.\<close>

definition note_failure :: "pystr \<Rightarrow> pystr \<Rightarrow> ('h, unit) wact" where
  "note_failure key msg =
     modify (\<lambda>w. if w_step_errors w key \<noteq> Some msg
                 then w\<lparr>w_step_errors := (w_step_errors w)(key \<mapsto> msg)\<rparr> else w)"

definition note_recovered :: "pystr \<Rightarrow> ('h, unit) wact" where
  "note_recovered key = modify (\<lambda>w. w\<lparr>w_step_errors := (w_step_errors w)(key := None)\<rparr>)"

definition platform_query_failed :: "'h env \<Rightarrow> pystr \<Rightarrow> exn \<Rightarrow> ('h, unit) wact" where
  "platform_query_failed env name e =
     note_failure name (lit ''Platform '' @ name @ lit '' failed: '' @ exc_text (e_python env) e)"

text \<open>A query of the platform with the answer that stands in when it fails.\<close>

definition guarded_query :: "'h env \<Rightarrow> pystr \<Rightarrow> ('h, bool) act \<Rightarrow> bool \<Rightarrow> ('h, bool) wact" where
  "guarded_query env name query fallback =
     bind
       (try_all (bind (on_host query) (\<lambda>b. ret (Inr b)))
          (\<lambda>e. bind (platform_query_failed env name e) (\<lambda>_. ret (Inl fallback))))
       (\<lambda>r. case r of
          Inl b \<Rightarrow> ret b
        | Inr b \<Rightarrow> bind (note_recovered name) (\<lambda>_. ret b))"

definition check_if_locked :: "'h env \<Rightarrow> ('h, bool) wact" where
  "check_if_locked env =
     guarded_query env (lit ''check_session_locked'') (p_check_session_locked (e_platform env)) False"

definition session_is_active :: "'h env \<Rightarrow> ('h, bool) wact" where
  "session_is_active env =
     guarded_query env (lit ''session_is_active'') (p_session_is_active (e_platform env)) True"

section \<open>Loading and saving\<close>

definition load_state :: "'h env \<Rightarrow> ('h, unit) wact" where
  "load_state env =
     try_all
       (bind (gets w_clock)
         (\<lambda>now. bind (on_disk (load (e_store env) now))
           (\<lambda>p. modify (\<lambda>w. w\<lparr>w_daily := fst p, w_runtime := snd p, w_state_load_failed := False\<rparr>))))
       (\<lambda>e. modify (\<lambda>w. w\<lparr>w_state_load_failed := True\<rparr>))"

text \<open>\<open>state_store.save\<close> stamps the runtime state it is given before it writes.\<close>

definition store_state :: "('h, unit) wact" where
  "store_state =
     try_all
       (bind (gets w_clock)
         (\<lambda>now. bind (set_runtime (\<lambda>r. r\<lparr>timestamp := now\<rparr>))
           (\<lambda>_. bind (gets (\<lambda>w. (w_daily w, w_runtime w)))
             (\<lambda>p. on_disk (save (fst p) (snd p) now)))))
       (\<lambda>e. ret ())"

definition save_state :: "'h env \<Rightarrow> ('h, unit) wact" where
  "save_state env =
     bind (gets w_state_load_failed)
       (\<lambda>failed. if failed then
            bind (load_state env)
              (\<lambda>_. bind (gets w_state_load_failed)
                (\<lambda>still. if still then ret () else store_state))
          else store_state)"

section \<open>The accumulator\<close>

definition reset_runtime :: "'h env \<Rightarrow> datetime \<Rightarrow> ('h, bool) wact" where
  "reset_runtime env now =
     bind (gets (\<lambda>w. reset_runtime_if_needed (w_runtime w) (wake_time (w_daily w)) now))
       (\<lambda>r. bind (lift r)
         (\<lambda>q. bind (set_runtime (\<lambda>_. snd q)) (\<lambda>_. ret (fst q))))"

text \<open>The seconds credited between two active ticks: gaps and steps back count nothing.\<close>

definition credited :: "datetime option \<Rightarrow> datetime \<Rightarrow> rat" where
  "credited previous now =
     (case previous of
        None \<Rightarrow> 0
      | Some t \<Rightarrow> (let delta = seconds_between now t in if 0 < delta \<and> delta < 60 then delta else 0))"

text \<open>The part of \<open>tick_accumulator\<close> after the roll-over check.\<close>

definition accumulate :: "'h env \<Rightarrow> datetime \<Rightarrow> ('h, unit) wact" where
  "accumulate env now =
     bind (currently_in_lock_window env)
       (\<lambda>window. bind (if monitors_user env then session_is_active env else ret False)
         (\<lambda>active. if monitors_user env \<and> active \<and> \<not> fst window
            then modify (\<lambda>w. w\<lparr>w_runtime :=
                   (w_runtime w)\<lparr>accumulated_seconds :=
                      accumulated_seconds (w_runtime w) + credited (w_last_tick_at w) now\<rparr>,
                   w_last_tick_at := Some now\<rparr>)
            else modify (\<lambda>w. w\<lparr>w_last_tick_at := None\<rparr>)))"

definition tick_accumulator :: "'h env \<Rightarrow> ('h, unit) wact" where
  "tick_accumulator env =
     bind (gets w_clock)
       (\<lambda>now. bind (reset_runtime env now)
         (\<lambda>was_reset. bind (only_if was_reset (modify (\<lambda>w. w\<lparr>w_last_tick_at := None\<rparr>)))
           (\<lambda>_. accumulate env now)))"

definition observe_lock_state :: "'h env \<Rightarrow> ('h, unit) wact" where
  "observe_lock_state env =
     bind (check_if_locked env)
       (\<lambda>actual. modify (\<lambda>w. if w_is_locked w \<and> \<not> actual then w\<lparr>w_is_locked := False\<rparr> else w))"

section \<open>Parent actions\<close>

definition set_bed_time :: "nat \<Rightarrow> nat \<Rightarrow> ('h, unit) wact" where
  "set_bed_time h m = set_daily (\<lambda>d. d\<lparr>bed_time := Some (Time h m)\<rparr>)"

definition clear_bed_time :: "('h, unit) wact" where
  "clear_bed_time = set_daily (\<lambda>d. d\<lparr>bed_time := None\<rparr>)"

definition clear_warnings :: "('h, unit) wact" where
  "clear_warnings = modify (\<lambda>w. w\<lparr>w_warnings_sent := {}\<rparr>)"

definition set_wake_time :: "nat \<Rightarrow> nat \<Rightarrow> ('h, unit) wact" where
  "set_wake_time h m =
     bind (gets w_clock)
       (\<lambda>now. bind (gets (\<lambda>w. wake_time (w_daily w)))
         (\<lambda>previous. bind (set_daily (\<lambda>d. d\<lparr>wake_time := Time h m\<rparr>))
           (\<lambda>_. bind (lift (usage_period_date now previous))
             (\<lambda>old_day. bind (lift (usage_period_date now (Time h m)))
               (\<lambda>new_day. bind
                  (only_if (old_day < new_day)
                    (modify (\<lambda>w. w\<lparr>w_runtime := reset_runtime_for_new_period (w_runtime w) now,
                                   w_last_tick_at := None, w_warnings_sent := {}\<rparr>)))
                  (\<lambda>_. modify (\<lambda>w. w\<lparr>w_warnings_date := Some new_day\<rparr>)))))))"

definition set_daily_allowance :: "int option \<Rightarrow> ('h, unit) wact" where
  "set_daily_allowance minutes = set_daily (\<lambda>d. d\<lparr>allowance := minutes\<rparr>)"

definition extend_time :: "int \<Rightarrow> ('h, unit) wact" where
  "extend_time minutes =
     bind
       (set_runtime (\<lambda>r. r\<lparr>cumulative_extension_seconds := cumulative_extension_seconds r + minutes * 60,
                          manual_lock_active := False\<rparr>))
       (\<lambda>_. clear_warnings)"

definition clear_extensions :: "('h, unit) wact" where
  "clear_extensions = set_runtime (\<lambda>r. r\<lparr>cumulative_extension_seconds := 0\<rparr>)"

definition window_title :: pystr where
  "window_title = lit ''PC Time Control''"

definition show_message :: "'h env \<Rightarrow> pystr \<Rightarrow> pystr \<Rightarrow> ('h, unit) wact" where
  "show_message env msg title = on_host (p_show_message (e_platform env) msg title)"

definition send_parent_message :: "'h env \<Rightarrow> pystr \<Rightarrow> ('h, unit) wact" where
  "send_parent_message env msg = show_message env msg window_title"

definition lock_pc :: "'h env \<Rightarrow> ('h, unit) wact" where
  "lock_pc env =
     try_all
       (bind (on_host (p_lock_workstation (e_platform env))) (\<lambda>_. modify (\<lambda>w. w\<lparr>w_is_locked := True\<rparr>)))
       (\<lambda>e. ret ())"

definition engage_manual_lock :: "'h env \<Rightarrow> ('h, unit) wact" where
  "engage_manual_lock env =
     bind (set_runtime (\<lambda>r. r\<lparr>manual_lock_active := True\<rparr>)) (\<lambda>_. lock_pc env)"

definition clear_manual_lock :: "('h, unit) wact" where
  "clear_manual_lock = set_runtime (\<lambda>r. r\<lparr>manual_lock_active := False\<rparr>)"

definition shutdown_pc :: "'h env \<Rightarrow> int \<Rightarrow> ('h, unit) wact" where
  "shutdown_pc env seconds = try_all (on_host (p_shutdown (e_platform env) seconds)) (\<lambda>e. ret ())"

definition cancel_shutdown :: "'h env \<Rightarrow> ('h, unit) wact" where
  "cancel_shutdown env = on_host (p_cancel_shutdown (e_platform env))"

section \<open>Warnings\<close>

definition warning_intervals :: "int list" where
  "warning_intervals = [30, 15, 5, 1]"

text \<open>The text of a warning; its first two characters are U+26A0 and U+FE0F.\<close>

definition warning_text :: "rat \<Rightarrow> pystr" where
  "warning_text remaining =
     (let actual = max 1 \<lceil>remaining\<rceil>; unit_name = (if actual = 1 then lit ''minute'' else lit ''minutes'') in
      [9888, 65039] @ lit '' Computer will lock in '' @ int_str actual @ lit '' '' @ unit_name @ lit ''!'')"

text \<open>The loop over the thresholds, smallest first; the first that applies ends it.\<close>

fun send_first_warning :: "'h env \<Rightarrow> rat \<Rightarrow> int list \<Rightarrow> ('h, unit) wact" where
  "send_first_warning env remaining [] = ret ()"
| "send_first_warning env remaining (m # ms) =
     bind (gets w_warnings_sent)
       (\<lambda>sent. if m \<in> sent \<or> of_int m < remaining then send_first_warning env remaining ms
          else bind (show_message env (warning_text remaining) (lit ''Warning''))
            (\<lambda>_. modify (\<lambda>w. w\<lparr>w_warnings_sent :=
               w_warnings_sent w \<union> insert m (set (filter (\<lambda>k. m < k) warning_intervals))\<rparr>)))"

definition check_and_send_warnings :: "'h env \<Rightarrow> ('h, unit) wact" where
  "check_and_send_warnings env =
     bind (gets (\<lambda>w. usage_period_date (w_clock w) (wake_time (w_daily w))))
       (\<lambda>r. bind (lift r)
         (\<lambda>today. bind
            (modify (\<lambda>w. if w_warnings_date w \<noteq> Some today
                         then w\<lparr>w_warnings_sent := {}, w_warnings_date := Some today\<rparr> else w))
            (\<lambda>_. bind (get_time_remaining env)
              (\<lambda>remaining. case remaining of
                 None \<Rightarrow> ret ()
               | Some t \<Rightarrow> if t \<le> 0 then ret () else send_first_warning env t (sort warning_intervals)))))"

section \<open>Enforcement and the monitoring step\<close>

definition get_access_status :: "'h env \<Rightarrow> ('h, pystr) wact" where
  "get_access_status env =
     bind (enforcement_lock_state env)
       (\<lambda>e. bind (gets (\<lambda>w. manual_lock_active (w_runtime w)))
         (\<lambda>manual. bind (check_if_locked env)
           (\<lambda>screen. ret (format_access_status manual (fst e) (snd e) screen))))"

definition enforce_lock_window :: "'h env \<Rightarrow> ('h, unit) wact" where
  "enforce_lock_window env =
     bind (currently_in_lock_window env)
       (\<lambda>window. bind (if fst window then check_if_locked env else ret False)
         (\<lambda>screen.
            if fst window \<and> \<not> screen then
              bind (modify (\<lambda>w. if w_last_logged_reason w \<noteq> Some (snd window)
                                then w\<lparr>w_last_logged_reason := Some (snd window)\<rparr> else w))
                (\<lambda>_. lock_pc env)
            else if \<not> fst window then modify (\<lambda>w. w\<lparr>w_last_logged_reason := None\<rparr>)
            else ret ()))"

definition PERSIST_INTERVAL_SECONDS :: rat where
  "PERSIST_INTERVAL_SECONDS = 60"

definition persist_if_due :: "'h env \<Rightarrow> ('h, unit) wact" where
  "persist_if_due env =
     bind (gets (\<lambda>w. (w_clock w, w_last_persist_at w)))
       (\<lambda>p. let now = fst p;
                recent = (case snd p of
                            None \<Rightarrow> False
                          | Some t \<Rightarrow> 0 \<le> seconds_between now t
                                      \<and> seconds_between now t < PERSIST_INTERVAL_SECONDS)
            in if recent then ret ()
               else bind (save_state env) (\<lambda>_. modify (\<lambda>w. w\<lparr>w_last_persist_at := Some now\<rparr>)))"

text \<open>One phase of the step, on its own: what it raises is noted, not passed on.\<close>

definition run_phase :: "'h env \<Rightarrow> pystr \<times> ('h, unit) wact \<Rightarrow> ('h, unit) wact" where
  "run_phase env p =
     bind
       (try_all (bind (snd p) (\<lambda>_. ret None)) (\<lambda>e. ret (Some e)))
       (\<lambda>failure. case failure of
          Some e \<Rightarrow> note_failure (fst p)
             (lit ''Monitor phase '' @ fst p @ lit '' failed: '' @ exc_text (e_python env) e)
        | None \<Rightarrow> note_recovered (fst p))"

definition phases :: "'h env \<Rightarrow> (pystr \<times> ('h, unit) wact) list" where
  "phases env =
     [(lit ''tick_accumulator'', tick_accumulator env),
      (lit ''check_and_send_warnings'', check_and_send_warnings env),
      (lit ''enforce_lock_window'', enforce_lock_window env),
      (lit ''persist_state'', persist_if_due env)]"

definition monitor_step :: "'h env \<Rightarrow> ('h, unit) wact" where
  "monitor_step env = for_each (phases env) (run_phase env)"

text \<open>\<open>__init__\<close>, on the disk and host it finds (the background thread not started).\<close>

definition init_control ::
  "'h env \<Rightarrow> datetime \<Rightarrow> disk \<Rightarrow> 'h \<Rightarrow> bytes option res \<Rightarrow> unit res \<times> 'h world" where
  "init_control env now d h logged =
     (let w = \<lparr>w_clock = now, w_disk = d, w_host = h, w_daily = default_daily,
               w_runtime = fresh_runtime_state now, w_last_tick_at = None, w_last_persist_at = None,
               w_is_locked = False, w_warnings_sent = {}, w_warnings_date = None,
               w_last_logged_reason = None, w_step_errors = (\<lambda>_. None), w_state_load_failed = False,
               w_log = logged\<rparr>
      in bind (load_state env)
           (\<lambda>_. bind (gets (\<lambda>w. usage_period_date (w_clock w) (wake_time (w_daily w))))
             (\<lambda>r. bind (lift r) (\<lambda>today. modify (\<lambda>w. w\<lparr>w_warnings_date := Some today\<rparr>)))) w)"

section \<open>Running the actions\<close>

lemma on_host_eq: "on_host m w = (fst (m (w_host w)), w\<lparr>w_host := snd (m (w_host w))\<rparr>)"
  by (simp add: on_host_def zoom_def split: prod.split)

lemma on_disk_eq: "on_disk m w = (fst (m (w_disk w)), w\<lparr>w_disk := snd (m (w_disk w))\<rparr>)"
  by (simp add: on_disk_def zoom_def split: prod.split)

lemma set_daily_eq [simp]: "set_daily f w = (Inr (), w\<lparr>w_daily := f (w_daily w)\<rparr>)"
  and set_runtime_eq [simp]: "set_runtime g w = (Inr (), w\<lparr>w_runtime := g (w_runtime w)\<rparr>)"
  by (simp_all add: set_daily_def set_runtime_def)

lemma try_all_eq:
  "try_all m h w = (case m w of (Inl e, w') \<Rightarrow> h e w' | (Inr x, w') \<Rightarrow> (Inr x, w'))"
  by (auto simp: try_all_def try_with_def split: prod.split sum.split)

text \<open>A query gives its answer or the fallback; it only touches the host and the notes.\<close>

definition answer :: "('h, bool) act \<Rightarrow> bool \<Rightarrow> 'h \<Rightarrow> bool" where
  "answer query fallback h = (case fst (query h) of Inr b \<Rightarrow> b | Inl _ \<Rightarrow> fallback)"

lemma note_failure_eq:
  "\<exists>errs. note_failure key msg w = (Inr (), w\<lparr>w_step_errors := errs\<rparr>)"
proof (cases "w_step_errors w key = Some msg")
  case True
  then show ?thesis by (intro exI [of _ "w_step_errors w"]) (simp add: note_failure_def)
next
  case False
  then show ?thesis by (auto simp: note_failure_def)
qed

lemma note_recovered_eq:
  "note_recovered key w = (Inr (), w\<lparr>w_step_errors := (w_step_errors w)(key := None)\<rparr>)"
  by (simp add: note_recovered_def)

lemma guarded_query_eq:
  "\<exists>errs. guarded_query env name query fallback w =
     (Inr (answer query fallback (w_host w)),
      w\<lparr>w_host := snd (query (w_host w)), w_step_errors := errs\<rparr>)"
proof (cases "query (w_host w)")
  case (Pair r h)
  show ?thesis
  proof (cases r)
    case (Inr b)
    then show ?thesis
      by (auto simp: guarded_query_def bind_def try_all_eq on_host_eq Pair answer_def note_recovered_eq)
  next
    case (Inl e)
    obtain errs where "note_failure name (lit ''Platform '' @ name @ lit '' failed: '' @ exc_text (e_python env) e)
        (w\<lparr>w_host := h\<rparr>) = (Inr (), w\<lparr>w_host := h, w_step_errors := errs\<rparr>)"
      using note_failure_eq [of name _ "w\<lparr>w_host := h\<rparr>"] by fastforce
    with Inl show ?thesis
      by (auto simp: guarded_query_def bind_def try_all_eq on_host_eq Pair answer_def
          platform_query_failed_def)
  qed
qed

definition screen_locked :: "'h env \<Rightarrow> 'h \<Rightarrow> bool" where
  "screen_locked env h = answer (p_check_session_locked (e_platform env)) False h"

definition session_active :: "'h env \<Rightarrow> 'h \<Rightarrow> bool" where
  "session_active env h = answer (p_session_is_active (e_platform env)) True h"

lemma check_if_locked_eq:
  "\<exists>errs. check_if_locked env w = (Inr (screen_locked env (w_host w)),
     w\<lparr>w_host := snd (p_check_session_locked (e_platform env) (w_host w)), w_step_errors := errs\<rparr>)"
  unfolding check_if_locked_def screen_locked_def by (rule guarded_query_eq)

lemma session_is_active_eq:
  "\<exists>errs. session_is_active env w = (Inr (session_active env (w_host w)),
     w\<lparr>w_host := snd (p_session_is_active (e_platform env) (w_host w)), w_step_errors := errs\<rparr>)"
  unfolding session_is_active_def session_active_def by (rule guarded_query_eq)

text \<open>The decision does not look at the host, the disk or the bookkeeping.\<close>

lemma world_lock_decision_cong:
  "w_clock w' = w_clock w \<Longrightarrow> w_daily w' = w_daily w \<Longrightarrow> w_runtime w' = w_runtime w \<Longrightarrow>
     world_lock_decision env w' = world_lock_decision env w"
  by (simp add: world_lock_decision_def effective_allowance_def used_minutes_def)

lemma world_lock_decision_simps [simp]:
  "world_lock_decision env (w\<lparr>w_host := h\<rparr>) = world_lock_decision env w"
  "world_lock_decision env (w\<lparr>w_last_tick_at := t\<rparr>) = world_lock_decision env w"
  "world_lock_decision env (w\<lparr>w_step_errors := e\<rparr>) = world_lock_decision env w"
  "world_lock_decision env (w\<lparr>w_last_logged_reason := l\<rparr>) = world_lock_decision env w"
  by (simp_all add: world_lock_decision_def effective_allowance_def used_minutes_def)

section \<open>The accumulator, branch by branch\<close>

text \<open>The world after the roll-over check of a tick.\<close>

definition rolled_over :: "bool \<times> runtime_state \<Rightarrow> 'h world \<Rightarrow> 'h world" where
  "rolled_over q w =
     w\<lparr>w_runtime := snd q, w_last_tick_at := (if fst q then None else w_last_tick_at w)\<rparr>"

lemma rolled_over_simps [simp]:
  "w_clock (rolled_over q w) = w_clock w" "w_daily (rolled_over q w) = w_daily w"
  "w_runtime (rolled_over q w) = snd q" "w_host (rolled_over q w) = w_host w"
  "w_last_tick_at (rolled_over q w) = (if fst q then None else w_last_tick_at w)"
  by (simp_all add: rolled_over_def)

definition counts :: "'h env \<Rightarrow> 'h world \<Rightarrow> bool" where
  "counts env w \<longleftrightarrow>
     monitors_user env \<and> session_active env (w_host w) \<and> \<not> should_lock (world_lock_decision env w)"

lemma reset_runtime_eq:
  "reset_runtime env now w =
     (case reset_runtime_if_needed (w_runtime w) (wake_time (w_daily w)) now of
        Inl e \<Rightarrow> (Inl e, w)
      | Inr q \<Rightarrow> (Inr (fst q), w\<lparr>w_runtime := snd q\<rparr>))"
  by (simp add: reset_runtime_def bind_def [of "set_runtime _"] split: sum.split)

lemma tick_raises:
  "reset_runtime_if_needed (w_runtime w) (wake_time (w_daily w)) (w_clock w) = Inl e \<Longrightarrow>
     tick_accumulator env w = (Inl e, w)"
  by (simp add: tick_accumulator_def bind_def [of "reset_runtime _ _"] reset_runtime_eq)

lemma tick_rolled:
  "reset_runtime_if_needed (w_runtime w) (wake_time (w_daily w)) (w_clock w) = Inr q \<Longrightarrow>
     tick_accumulator env w = accumulate env (w_clock w) (rolled_over q w)"
  by (simp add: tick_accumulator_def bind_def [of "reset_runtime _ _"] reset_runtime_eq rolled_over_def
      only_if_def)

lemma accumulate_eq:
  "\<exists>errs. accumulate env now v =
    (Inr (),
     v\<lparr>w_host := (if monitors_user env then snd (p_session_is_active (e_platform env) (w_host v)) else w_host v),
       w_step_errors := errs,
       w_runtime := (w_runtime v)\<lparr>accumulated_seconds := accumulated_seconds (w_runtime v)
          + (if counts env v then credited (w_last_tick_at v) now else 0)\<rparr>,
       w_last_tick_at := (if counts env v then Some now else None)\<rparr>)"
proof (cases "monitors_user env")
  case False
  then show ?thesis
    by (intro exI [of _ "w_step_errors v"])
      (simp add: accumulate_def currently_in_lock_window_def counts_def)
next
  case True
  obtain errs where "session_is_active env v = (Inr (session_active env (w_host v)),
     v\<lparr>w_host := snd (p_session_is_active (e_platform env) (w_host v)), w_step_errors := errs\<rparr>)"
    using session_is_active_eq by blast
  with True show ?thesis
    by (intro exI [of _ errs])
      (simp add: accumulate_def currently_in_lock_window_def counts_def bind_def [of "session_is_active env"])
qed

lemma credited_bounds: "0 \<le> credited t now" "credited t now < 60"
  by (auto simp: credited_def Let_def split: option.split)

lemma credited_pos: "0 < credited t now \<Longrightarrow> \<exists>u. t = Some u \<and> credited t now = seconds_between now u"
  by (auto simp: credited_def Let_def split: option.splits if_splits)

lemma reset_if_needed_cases:
  assumes "reset_runtime_if_needed r wake now = Inr q"
  shows "(q = (False, r) \<and> runtime_state_is_current r wake now = Inr True)
    \<or> (q = (True, fresh_runtime_state now) \<and> runtime_state_is_current r wake now = Inr False)"
  using assms by (auto simp: reset_runtime_if_needed_def rbind_eq_Inr_iff reset_runtime_eq_fresh split: if_splits)

section \<open>Usage over a run of ticks\<close>

text \<open>
  A run of the accumulator: a tick at each reading of a clock that does not go
  back (readings outside the calendar, in its first year or before the last one
  are not taken).
\<close>

definition clock_tick :: "'h env \<Rightarrow> datetime \<Rightarrow> 'h world \<Rightarrow> 'h world" where
  "clock_tick env t w =
     (if valid_datetime t \<and> 2 \<le> year_of (date_of t) \<and> w_clock w \<le> t
      then snd (tick_accumulator env (w\<lparr>w_clock := t\<rparr>)) else w)"

definition elapsed_us :: "date \<Rightarrow> dtime \<Rightarrow> datetime \<Rightarrow> rat" where
  "elapsed_us d wake t = of_int (dt_us t - day_start d wake)"

text \<open>
  The invariant: the state belongs to the usage period of the clock, and the
  seconds used fit between the start of the period and the last active tick.
\<close>

definition usage_fits :: "'h world \<Rightarrow> bool" where
  "usage_fits w \<longleftrightarrow>
     valid_datetime (w_clock w) \<and> valid_time (wake_time (w_daily w))
     \<and> (\<exists>d. usage_period_date (w_clock w) (wake_time (w_daily w)) = Inr d
          \<and> usage_period_date (timestamp (w_runtime w)) (wake_time (w_daily w)) = Inr d
          \<and> accumulated_seconds (w_runtime w) * 1000000 \<le> elapsed_us d (wake_time (w_daily w)) (w_clock w)
          \<and> (\<forall>t. w_last_tick_at w = Some t \<longrightarrow>
               dt_us t \<le> dt_us (w_clock w)
               \<and> accumulated_seconds (w_runtime w) * 1000000 \<le> elapsed_us d (wake_time (w_daily w)) t))"

lemma usage_period_defined:
  "2 \<le> year_of (date_of t) \<Longrightarrow> \<exists>d. usage_period_date t wake = Inr d"
  by (auto simp: usage_period_date_def prev_day_def)

lemma usage_fits_tick:
  assumes inv: "usage_fits w" and t: "valid_datetime t" "2 \<le> year_of (date_of t)" "w_clock w \<le> t"
  shows "usage_fits (snd (tick_accumulator env (w\<lparr>w_clock := t\<rparr>)))"
proof -
  let ?wake = "wake_time (w_daily w)" and ?w = "w\<lparr>w_clock := t\<rparr>"
  obtain d where d: "usage_period_date (w_clock w) ?wake = Inr d"
    "usage_period_date (timestamp (w_runtime w)) ?wake = Inr d"
    "accumulated_seconds (w_runtime w) * 1000000 \<le> elapsed_us d ?wake (w_clock w)"
    "\<And>u. w_last_tick_at w = Some u \<Longrightarrow> dt_us u \<le> dt_us (w_clock w)
       \<and> accumulated_seconds (w_runtime w) * 1000000 \<le> elapsed_us d ?wake u"
    and wake: "valid_time ?wake" and c: "valid_datetime (w_clock w)"
    using inv by (auto simp: usage_fits_def)
  obtain e where e: "usage_period_date t ?wake = Inr e" using usage_period_defined t(2) by blast
  have now: "dt_us (w_clock w) \<le> dt_us t" using t(3) c t(1) by (simp add: dt_us_le_iff)
  define q where "q = (if d = e then (False, w_runtime w) else (True, fresh_runtime_state t))"
  have q: "reset_runtime_if_needed (w_runtime ?w) (wake_time (w_daily ?w)) (w_clock ?w) = Inr q"
    using d(2) e by (simp add: reset_runtime_if_needed_def runtime_state_is_current_def q_def
        reset_runtime_eq_fresh)
  let ?v = "rolled_over q ?w"
  obtain errs h where tick: "tick_accumulator env ?w = (Inr (), ?v\<lparr>w_host := h, w_step_errors := errs,
      w_runtime := (w_runtime ?v)\<lparr>accumulated_seconds := accumulated_seconds (w_runtime ?v)
          + (if counts env ?v then credited (w_last_tick_at ?v) t else 0)\<rparr>,
      w_last_tick_at := (if counts env ?v then Some t else None)\<rparr>)"
    using tick_rolled [OF q, of env] accumulate_eq [of env t ?v] by auto
  let ?acc = "accumulated_seconds (snd q) + (if counts env ?v then credited (w_last_tick_at ?v) t else 0)"
  have start: "0 \<le> elapsed_us e ?wake t"
    using usage_period_window [OF t(1) wake e] by (simp add: elapsed_us_def)
  have "?acc * 1000000 \<le> elapsed_us e ?wake t"
  proof (cases "d = e")
    case False
    then show ?thesis using start by (simp add: q_def fresh_runtime_state_def credited_def)
  next
    case True
    have mono: "elapsed_us e ?wake (w_clock w) \<le> elapsed_us e ?wake t"
      using now by (simp add: elapsed_us_def)
    have old: "accumulated_seconds (w_runtime w) * 1000000 \<le> elapsed_us e ?wake t"
      using d(3) True mono by simp
    show ?thesis
    proof (cases "0 < credited (w_last_tick_at w) t")
      case True
      then obtain u where u: "w_last_tick_at w = Some u" "credited (w_last_tick_at w) t = seconds_between t u"
        using credited_pos by blast
      have "accumulated_seconds (w_runtime w) * 1000000 \<le> elapsed_us e ?wake u"
        using d(4) [OF u(1)] \<open>d = e\<close> by simp
      moreover have "seconds_between t u * 1000000 = of_int (dt_us t) - of_int (dt_us u)"
        by (simp add: seconds_between_def)
      ultimately have "(accumulated_seconds (w_runtime w) + seconds_between t u) * 1000000 \<le> elapsed_us e ?wake t"
        by (simp add: elapsed_us_def distrib_right)
      then show ?thesis using old u(2) \<open>d = e\<close> by (simp add: q_def)
    next
      case False
      then have "credited (w_last_tick_at w) t = 0" using credited_bounds(1) [of "w_last_tick_at w" t] by simp
      then show ?thesis using old \<open>d = e\<close> by (simp add: q_def)
    qed
  qed
  moreover have "usage_period_date (timestamp (snd q)) ?wake = Inr e"
    using d(2) e by (simp add: q_def fresh_runtime_state_def)
  ultimately show ?thesis
    using e t(1) wake by (cases "fst q"; cases "counts env ?v") (simp_all add: tick usage_fits_def)
qed

interpretation usage: stepper usage_fits "clock_tick env"
  by unfold_locales (simp add: clock_tick_def usage_fits_tick)

section \<open>A monitoring step\<close>

text \<open>A phase does what it does up to the point where it raises; the step goes on.\<close>

lemma run_phase_eq:
  "\<exists>errs. run_phase env (name, m) w = (Inr (), (snd (m w))\<lparr>w_step_errors := errs\<rparr>)"
proof (cases "m w")
  case (Pair r w')
  show ?thesis
  proof (cases r)
    case (Inr u)
    then show ?thesis
      by (auto simp: run_phase_def bind_def try_all_eq Pair note_recovered_eq)
  next
    case (Inl e)
    then have "run_phase env (name, m) w = note_failure name
        (lit ''Monitor phase '' @ name @ lit '' failed: '' @ exc_text (e_python env) e) w'"
      by (simp add: run_phase_def bind_def try_all_eq Pair)
    then show ?thesis using note_failure_eq Pair by fastforce
  qed
qed

definition after_phase :: "('h, unit) wact \<Rightarrow> 'h world \<Rightarrow> 'h world" where
  "after_phase m w = snd (m w)"

lemma monitor_step_phases:
  obtains e1 e2 e3 e4 where
    "monitor_step env w = (Inr (),
       (after_phase (persist_if_due env)
         ((after_phase (enforce_lock_window env)
           ((after_phase (check_and_send_warnings env)
             ((after_phase (tick_accumulator env) w)\<lparr>w_step_errors := e1\<rparr>))\<lparr>w_step_errors := e2\<rparr>))
              \<lparr>w_step_errors := e3\<rparr>))\<lparr>w_step_errors := e4\<rparr>)"
proof -
  obtain e1 where 1: "run_phase env (lit ''tick_accumulator'', tick_accumulator env) w
      = (Inr (), (after_phase (tick_accumulator env) w)\<lparr>w_step_errors := e1\<rparr>)" (is "_ = (_, ?w1)")
    using run_phase_eq unfolding after_phase_def by blast
  obtain e2 where 2: "run_phase env (lit ''check_and_send_warnings'', check_and_send_warnings env) ?w1
      = (Inr (), (after_phase (check_and_send_warnings env) ?w1)\<lparr>w_step_errors := e2\<rparr>)" (is "_ = (_, ?w2)")
    using run_phase_eq unfolding after_phase_def by blast
  obtain e3 where 3: "run_phase env (lit ''enforce_lock_window'', enforce_lock_window env) ?w2
      = (Inr (), (after_phase (enforce_lock_window env) ?w2)\<lparr>w_step_errors := e3\<rparr>)" (is "_ = (_, ?w3)")
    using run_phase_eq unfolding after_phase_def by blast
  obtain e4 where 4: "run_phase env (lit ''persist_state'', persist_if_due env) ?w3
      = (Inr (), (after_phase (persist_if_due env) ?w3)\<lparr>w_step_errors := e4\<rparr>)"
    using run_phase_eq unfolding after_phase_def by blast
  have "monitor_step env w = (Inr (), (after_phase (persist_if_due env) ?w3)\<lparr>w_step_errors := e4\<rparr>)"
    by (simp add: monitor_step_def phases_def bind_def 1 2 3 4)
  then show thesis by (rule that)
qed

section \<open>What the phases leave alone\<close>

definition same_policy :: "'h world \<Rightarrow> 'h world \<Rightarrow> bool" where
  "same_policy w w' \<longleftrightarrow>
     w_clock w' = w_clock w \<and> w_daily w' = w_daily w \<and> w_runtime w' = w_runtime w"

interpretation policy: step_relation same_policy
  by unfold_locales (auto simp: same_policy_def)

definition same_screen :: "('h \<Rightarrow> 'b) \<Rightarrow> 'h world \<Rightarrow> 'h world \<Rightarrow> bool" where
  "same_screen locked w w' \<longleftrightarrow> locked (w_host w') = locked (w_host w)"

interpretation screen: step_relation "same_screen locked"
  by unfold_locales (auto simp: same_screen_def)

text \<open>
  A platform that does what it is asked: it reports whether the screen is locked,
  a lock request locks it, and nothing else the agent asks for unlocks it.
\<close>

definition obedient :: "'h platform \<Rightarrow> ('h \<Rightarrow> bool) \<Rightarrow> bool" where
  "obedient P locked \<longleftrightarrow>
     (\<forall>h. fst (p_check_session_locked P h) = Inr (locked h)
        \<and> locked (snd (p_check_session_locked P h)) = locked h
        \<and> locked (snd (p_session_is_active P h)) = locked h
        \<and> fst (p_lock_workstation P h) = Inr () \<and> locked (snd (p_lock_workstation P h))
        \<and> (\<forall>msg title. locked (snd (p_show_message P msg title h)) = locked h))"

lemma keeps_on_host:
  "keeps same_policy (on_host m)"
  "(\<And>h. locked (snd (m h)) = locked h) \<Longrightarrow> keeps (same_screen locked) (on_host m)"
  by (simp_all add: keeps_def on_host_eq same_policy_def same_screen_def)

lemma keeps_on_disk: "keeps (same_screen locked) (on_disk m)"
  by (simp add: keeps_def on_disk_eq same_screen_def)

lemma keeps_query:
  "keeps same_policy (guarded_query env name query fallback)"
  "(\<And>h. locked (snd (query h)) = locked h) \<Longrightarrow> keeps (same_screen locked) (guarded_query env name query fallback)"
proof -
  have step: "\<exists>errs. snd (guarded_query env name query fallback w)
      = w\<lparr>w_host := snd (query (w_host w)), w_step_errors := errs\<rparr>" for w
    using guarded_query_eq [of env name query fallback w] by auto
  show "keeps same_policy (guarded_query env name query fallback)"
    unfolding keeps_def
  proof
    fix w
    obtain errs where "snd (guarded_query env name query fallback w)
        = w\<lparr>w_host := snd (query (w_host w)), w_step_errors := errs\<rparr>" using step by blast
    then show "same_policy w (snd (guarded_query env name query fallback w))" by (simp add: same_policy_def)
  qed
  assume l: "\<And>h. locked (snd (query h)) = locked h"
  show "keeps (same_screen locked) (guarded_query env name query fallback)"
    unfolding keeps_def
  proof
    fix w
    obtain errs where "snd (guarded_query env name query fallback w)
        = w\<lparr>w_host := snd (query (w_host w)), w_step_errors := errs\<rparr>" using step by blast
    then show "same_screen locked w (snd (guarded_query env name query fallback w))"
      by (simp add: same_screen_def l)
  qed
qed

lemma keeps_get_time_remaining:
  "keeps same_policy (get_time_remaining env)" "keeps (same_screen locked) (get_time_remaining env)"
  by (simp_all add: keeps_def get_time_remaining_def same_policy_def same_screen_def)

lemma keeps_warnings:
  "keeps same_policy (check_and_send_warnings env)"
  "(\<And>msg title h. locked (snd (p_show_message (e_platform env) msg title h)) = locked h) \<Longrightarrow>
     keeps (same_screen locked) (check_and_send_warnings env)"
proof -
  have "keeps same_policy (send_first_warning env t ms)" for t ms
  proof (induction ms)
    case Nil
    show ?case unfolding send_first_warning.simps by (rule policy.keeps_pure)
  next
    case (Cons m ms)
    show ?case unfolding send_first_warning.simps show_message_def
      by (intro policy.keeps_rules keeps_on_host Cons.IH) (simp add: same_policy_def)
  qed
  then show "keeps same_policy (check_and_send_warnings env)"
    unfolding check_and_send_warnings_def
    by (intro policy.keeps_rules keeps_get_time_remaining) (simp_all add: same_policy_def)
  assume l: "\<And>msg title h. locked (snd (p_show_message (e_platform env) msg title h)) = locked h"
  have "keeps (same_screen locked) (send_first_warning env t ms)" for t ms
  proof (induction ms)
    case Nil
    show ?case unfolding send_first_warning.simps by (rule screen.keeps_pure)
  next
    case (Cons m ms)
    show ?case unfolding send_first_warning.simps show_message_def
      by (intro screen.keeps_rules keeps_on_host Cons.IH l) (simp add: same_screen_def)
  qed
  then show "keeps (same_screen locked) (check_and_send_warnings env)"
    unfolding check_and_send_warnings_def
    by (intro screen.keeps_rules keeps_get_time_remaining) (simp_all add: same_screen_def)
qed

lemma keeps_persist: "keeps (same_screen locked) (persist_if_due env)"
proof -
  have "keeps (same_screen locked) (load_state env)"
    unfolding load_state_def try_all_def
    by (intro screen.keeps_rules keeps_on_disk) (simp_all add: same_screen_def)
  moreover have "keeps (same_screen locked) store_state"
    unfolding store_state_def set_runtime_def try_all_def
    by (intro screen.keeps_rules keeps_on_disk) (simp_all add: same_screen_def)
  ultimately have "keeps (same_screen locked) (save_state env)"
    unfolding save_state_def by (intro screen.keeps_rules)
  then show ?thesis
    unfolding persist_if_due_def Let_def by (intro screen.keeps_rules) (simp_all add: same_screen_def)
qed

lemma keeps_tick:
  "(\<And>h. locked (snd (p_session_is_active (e_platform env) h)) = locked h) \<Longrightarrow>
     keeps (same_screen locked) (tick_accumulator env)"
  unfolding tick_accumulator_def accumulate_def reset_runtime_def currently_in_lock_window_def
    session_is_active_def set_runtime_def
  by (intro screen.keeps_rules keeps_query(2)) (simp_all add: same_screen_def)

section \<open>Enforcement\<close>

lemma lock_pc_eq:
  "obedient (e_platform env) locked \<Longrightarrow> locked (w_host (snd (lock_pc env w)))"
  by (auto simp: lock_pc_def try_all_eq bind_def on_host_eq obedient_def split: prod.split sum.split)

lemma enforce_locks:
  assumes "obedient (e_platform env) locked"
  shows "locked (w_host (snd (enforce_lock_window env w))) \<longleftrightarrow>
    locked (w_host w) \<or> should_lock (world_lock_decision env w)"
proof (cases "should_lock (world_lock_decision env w)")
  case False
  then show ?thesis by (simp add: enforce_lock_window_def currently_in_lock_window_def)
next
  case True
  obtain errs where c: "check_if_locked env w = (Inr (screen_locked env (w_host w)),
     w\<lparr>w_host := snd (p_check_session_locked (e_platform env) (w_host w)), w_step_errors := errs\<rparr>)"
    using check_if_locked_eq by blast
  have "screen_locked env (w_host w) = locked (w_host w)"
    using assms by (simp add: screen_locked_def answer_def obedient_def)
  moreover have "locked (snd (p_check_session_locked (e_platform env) (w_host w))) = locked (w_host w)"
    using assms by (simp add: obedient_def)
  ultimately show ?thesis
    using True c lock_pc_eq [OF assms]
    by (simp add: enforce_lock_window_def currently_in_lock_window_def bind_def [of "check_if_locked env"])
qed

text \<open>
  Within a step only its enforcement has to do with the screen: whatever view of the host
  the other phases leave alone, the step changes it as the enforcement does, which asks the
  policy on the usage counted in this step.
\<close>

lemma monitor_step_screen:
  assumes "\<And>h. view (snd (p_session_is_active (e_platform env) h)) = view h"
    and "\<And>msg title h. view (snd (p_show_message (e_platform env) msg title h)) = view h"
  obtains u where "view (w_host u) = view (w_host w)"
    "world_lock_decision env u = world_lock_decision env (snd (tick_accumulator env w))"
    "view (w_host (snd (monitor_step env w))) = view (w_host (snd (enforce_lock_window env u)))"
proof (rule monitor_step_phases [of env w])
  fix e1 e2 e3 e4
  let ?t = "snd (tick_accumulator env w)"
  let ?u = "snd (check_and_send_warnings env (?t\<lparr>w_step_errors := e1\<rparr>))"
  let ?v = "snd (enforce_lock_window env (?u\<lparr>w_step_errors := e2\<rparr>))"
  assume "monitor_step env w = (Inr (),
       (after_phase (persist_if_due env)
         ((after_phase (enforce_lock_window env)
           ((after_phase (check_and_send_warnings env)
             ((after_phase (tick_accumulator env) w)\<lparr>w_step_errors := e1\<rparr>))\<lparr>w_step_errors := e2\<rparr>))
              \<lparr>w_step_errors := e3\<rparr>))\<lparr>w_step_errors := e4\<rparr>)"
  then have s: "snd (monitor_step env w) = (snd (persist_if_due env (?v\<lparr>w_step_errors := e3\<rparr>)))\<lparr>w_step_errors := e4\<rparr>"
    by (simp add: after_phase_def)
  have "view (w_host ?t) = view (w_host w)"
    using keeps_tick [of view env] assms by (simp add: keeps_def same_screen_def)
  moreover have "view (w_host ?u) = view (w_host ?t)"
    using keeps_warnings(2) [of view env] assms by (simp add: keeps_def same_screen_def)
  moreover have "same_policy (?t\<lparr>w_step_errors := e1\<rparr>) ?u"
    by (rule keeps_warnings(1) [unfolded keeps_def, rule_format])
  then have "world_lock_decision env ?u = world_lock_decision env ?t"
    by (intro world_lock_decision_cong) (simp_all add: same_policy_def)
  moreover have "view (w_host (snd (persist_if_due env (?v\<lparr>w_step_errors := e3\<rparr>)))) = view (w_host ?v)"
    using keeps_persist [of view env] by (simp add: keeps_def same_screen_def)
  ultimately show thesis using s by (intro that [of "?u\<lparr>w_step_errors := e2\<rparr>"]) simp_all
qed

lemma monitor_step_enforces:
  assumes "obedient (e_platform env) locked"
  shows "locked (w_host (snd (monitor_step env w))) \<longleftrightarrow>
    locked (w_host w) \<or> should_lock (world_lock_decision env (snd (tick_accumulator env w)))"
  by (rule monitor_step_screen [of locked env w])
    (use assms enforce_locks [OF assms] in \<open>simp_all add: obedient_def\<close>)

section \<open>Warnings\<close>

lemma send_first_warning_eq:
  "send_first_warning env t ms w =
     (case find (\<lambda>m. m \<notin> w_warnings_sent w \<and> t \<le> of_int m) ms of
        None \<Rightarrow> (Inr (), w)
      | Some m \<Rightarrow>
          (case p_show_message (e_platform env) (warning_text t) (lit ''Warning'') (w_host w) of
             (Inl e, h) \<Rightarrow> (Inl e, w\<lparr>w_host := h\<rparr>)
           | (Inr _, h) \<Rightarrow> (Inr (), w\<lparr>w_host := h, w_warnings_sent := w_warnings_sent w
               \<union> insert m (set (filter (\<lambda>k. m < k) warning_intervals))\<rparr>)))"
proof (induction ms)
  case (Cons m ms)
  show ?case
  proof (cases "m \<in> w_warnings_sent w \<or> of_int m < t")
    case True
    then have "(m \<notin> w_warnings_sent w \<and> t \<le> of_int m) = False" by auto
    with True show ?thesis
      by (simp only: find.simps if_False) (simp add: Cons.IH)
  next
    case False
    then have "m \<notin> w_warnings_sent w \<and> t \<le> of_int m" by auto
    with False show ?thesis
      by (simp add: bind_def [of "on_host _"] show_message_def on_host_eq
          split: prod.split sum.split)
  qed
qed simp

section \<open>A platform for examples\<close>

text \<open>A screen that is locked or not; popups always fail.\<close>

definition sample_platform :: "bool platform" where
  "sample_platform =
     \<lparr>p_check_session_locked = gets (\<lambda>l. l), p_session_is_active = gets (\<lambda>l. \<not> l),
      p_lock_workstation = modify (\<lambda>_. True), p_shutdown = (\<lambda>_. ret ()), p_cancel_shutdown = ret (),
      p_show_message = (\<lambda>_ _. raising (HostError (lit ''no display''))),
      p_get_hostname = ret (lit ''kid'')\<rparr>"

lemma sample_platform_obedient: "obedient sample_platform (\<lambda>l. l)"
  by (simp add: obedient_def sample_platform_def)

definition sample_env :: "bool env" where
  "sample_env =
     \<lparr>e_python = \<lparr>hmac_digest = (\<lambda>_ _. []), str_repr = (\<lambda>s. s), exc_text = (\<lambda>_. lit ''error'')\<rparr>,
      e_platform = sample_platform,
      e_store = \<lparr>user_name = lit ''kid'', fold_case = lower, has_program_data = False\<rparr>,
      e_monitored = [], e_exempt = [], e_log_path = []\<rparr>"

definition sample_world :: "bool world" where
  "sample_world = \<lparr>w_clock = DateTime (Date 2026 3 4) 20 59 30 0,
      w_disk = \<lparr>files = (\<lambda>_. None), read_fault = (\<lambda>_. False), write_fault = (\<lambda>_. False),
         torn_write = (\<lambda>_. None), mkdir_fault = (\<lambda>_. False), problems = []\<rparr>,
      w_host = False,
      w_daily = \<lparr>bed_time = Some (Time 21 0), wake_time = Time 7 0, allowance = Some 90\<rparr>,
      w_runtime = \<lparr>timestamp = DateTime (Date 2026 3 4) 20 59 0 0, accumulated_seconds = 60,
         manual_lock_active = False, cumulative_extension_seconds = 0\<rparr>,
      w_last_tick_at = Some (DateTime (Date 2026 3 4) 20 59 29 0), w_last_persist_at = None,
      w_is_locked = False, w_warnings_sent = {}, w_warnings_date = Some (Date 2026 3 4),
      w_last_logged_reason = None, w_step_errors = (\<lambda>_. None), w_state_load_failed = False, w_log = Inr None\<rparr>"

lemma sample_monitors [simp]: "monitors_user sample_env"
  by (simp add: monitors_user_def should_monitor_user_def or_empty_def sample_env_def)

lemma sample_session [simp]: "e_platform sample_env = sample_platform"
  "session_active sample_env = (\<lambda>l. \<not> l)"
  by (auto simp: sample_env_def session_active_def answer_def sample_platform_def)

section \<open>Properties\<close>

text \<open>
  C6. Enforcement cannot be stopped by anything else failing: on a platform that
  carries out lock requests, one monitoring step never raises, and afterwards the
  screen is locked exactly if it was locked before or the policy (on the usage
  counted in this very step) asks for a lock. Failing popups, a failing disk or a
  failing accumulator do not change that, and the agent never unlocks.
\<close>

theorem monitor_step_enforces_policy:
  assumes "obedient (e_platform env) locked"
  shows "fst (monitor_step env w) = Inr ()
    \<and> (locked (w_host (snd (monitor_step env w))) \<longleftrightarrow>
         locked (w_host w) \<or> should_lock (world_lock_decision env (snd (tick_accumulator env w))))"
proof -
  obtain e1 e2 e3 e4 where "monitor_step env w = (Inr (),
       (after_phase (persist_if_due env)
         ((after_phase (enforce_lock_window env)
           ((after_phase (check_and_send_warnings env)
             ((after_phase (tick_accumulator env) w)\<lparr>w_step_errors := e1\<rparr>))\<lparr>w_step_errors := e2\<rparr>))
              \<lparr>w_step_errors := e3\<rparr>))\<lparr>w_step_errors := e4\<rparr>)"
    by (rule monitor_step_phases)
  then have "fst (monitor_step env w) = Inr ()" by simp
  with monitor_step_enforces [OF assms] show ?thesis by blast
qed

theorem monitor_step_enforces_policy_witness:
  "w_host (snd (monitor_step sample_env (sample_world\<lparr>w_clock := DateTime (Date 2026 3 4) 21 0 0 0\<rparr>)))"
proof -
  let ?w = "sample_world\<lparr>w_clock := DateTime (Date 2026 3 4) 21 0 0 0\<rparr>"
  have r: "reset_runtime_if_needed (w_runtime ?w) (wake_time (w_daily ?w)) (w_clock ?w) = Inr (False, w_runtime ?w)"
    by (simp add: reset_runtime_if_needed_def runtime_state_is_current_def usage_period_date_def
        before_time_def sample_world_def)
  have "w_clock (snd (tick_accumulator sample_env ?w)) = w_clock ?w
      \<and> w_daily (snd (tick_accumulator sample_env ?w)) = w_daily ?w"
    using tick_rolled [OF r, of sample_env] accumulate_eq [of sample_env "w_clock ?w" "rolled_over (False, w_runtime ?w) ?w"]
    by auto
  then have "should_lock (world_lock_decision sample_env (snd (tick_accumulator sample_env ?w)))"
    by (simp add: world_lock_decision_def should_lock_iff)
      (simp add: sample_world_def in_curfew_def is_in_bedtime_curfew_def minutes_since_midnight_def Let_def)
  then show ?thesis
    using monitor_step_enforces_policy [of sample_env "\<lambda>l. l" ?w] sample_platform_obedient by simp
qed

text \<open>
  C15. One tick of the accumulator counts exactly the active time: it fails when the roll-over
  check does, and then changes nothing. In a new usage period the counter starts from zero.
  Within a period, when the user is monitored, the session is active (or the platform
  cannot say) and no lock is due, the counter grows by exactly the time since the last active
  tick if that is less than 60 seconds ago, and by nothing if there is none, if it is
  longer ago or if the clock went back; the tick becomes the last active one. Otherwise the
  counter stays and there is no last active tick. Nothing else of the day's state changes.
\<close>

theorem tick_credits_exactly_the_active_time:
  "case reset_runtime_if_needed (w_runtime w) (wake_time (w_daily w)) (w_clock w) of
     Inl e \<Rightarrow> tick_accumulator env w = (Inl e, w)
   | Inr (True, r) \<Rightarrow>
       \<exists>w'. tick_accumulator env w = (Inr (), w') \<and> w_daily w' = w_daily w
          \<and> w_runtime w' = fresh_runtime_state (w_clock w)
   | Inr (False, r) \<Rightarrow>
       \<exists>w'. tick_accumulator env w = (Inr (), w') \<and> w_daily w' = w_daily w
          \<and> (if monitors_user env \<and> session_active env (w_host w) \<and> \<not> should_lock (world_lock_decision env w)
             then w_last_tick_at w' = Some (w_clock w)
               \<and> w_runtime w' = (case w_last_tick_at w of
                     None \<Rightarrow> w_runtime w
                   | Some t \<Rightarrow>
                       if 0 < seconds_between (w_clock w) t \<and> seconds_between (w_clock w) t < 60
                       then (w_runtime w)\<lparr>accumulated_seconds :=
                              accumulated_seconds (w_runtime w) + seconds_between (w_clock w) t\<rparr>
                       else w_runtime w)
             else w_last_tick_at w' = None \<and> w_runtime w' = w_runtime w)"
proof (cases "reset_runtime_if_needed (w_runtime w) (wake_time (w_daily w)) (w_clock w)")
  case (Inl e)
  then show ?thesis by (simp add: tick_raises)
next
  case (Inr q)
  let ?v = "rolled_over q w"
  obtain errs h where t: "tick_accumulator env w = (Inr (), ?v\<lparr>w_host := h, w_step_errors := errs,
      w_runtime := (w_runtime ?v)\<lparr>accumulated_seconds := accumulated_seconds (w_runtime ?v)
        + (if counts env ?v then credited (w_last_tick_at ?v) (w_clock w) else 0)\<rparr>,
      w_last_tick_at := (if counts env ?v then Some (w_clock w) else None)\<rparr>)"
    using tick_rolled [OF Inr, of env] accumulate_eq [of env "w_clock w" ?v] by auto
  consider "q = (False, w_runtime w)" | "q = (True, fresh_runtime_state (w_clock w))"
    using reset_if_needed_cases [OF Inr] by blast
  then show ?thesis
  proof cases
    case 1
    have "world_lock_decision env ?v = world_lock_decision env w"
      using 1 by (intro world_lock_decision_cong) simp_all
    then have "counts env ?v \<longleftrightarrow>
        monitors_user env \<and> session_active env (w_host w) \<and> \<not> should_lock (world_lock_decision env w)"
      by (simp add: counts_def)
    then show ?thesis unfolding Inr 1 using t [unfolded 1]
      by (auto simp: credited_def Let_def split: option.split)
  next
    case 2
    then show ?thesis unfolding Inr 2 using t [unfolded 2] by (simp add: credited_def)
  qed
qed

text \<open>
  Uninterrupted use is counted in full: over any number of ticks in the usage period, less
  than a minute apart, at each of which the session is active and no lock is due, the counter
  grows by the time from the first to the last.
\<close>

fun in_use :: "'h env \<Rightarrow> datetime list \<Rightarrow> 'h world \<Rightarrow> bool" where
  "in_use env [] w = True"
| "in_use env (t # ts) w =
     (let v = w\<lparr>w_clock := t\<rparr> in
      valid_datetime t \<and> 2 \<le> year_of (date_of t) \<and> w_clock w \<le> t
      \<and> runtime_state_is_current (w_runtime w) (wake_time (w_daily w)) t = Inr True \<and> counts env v
      \<and> (case w_last_tick_at w of None \<Rightarrow> False | Some u \<Rightarrow> 0 < seconds_between t u \<and> seconds_between t u < 60)
      \<and> in_use env ts (clock_tick env t w))"

theorem uninterrupted_use_counts_in_full:
  assumes "in_use env ts w" and "w_last_tick_at w = Some u"
  shows "accumulated_seconds (w_runtime (fold (clock_tick env) ts w))
    = accumulated_seconds (w_runtime w) + seconds_between (last (u # ts)) u"
  using assms
proof (induction ts arbitrary: w u)
  case Nil
  then show ?case by (simp add: seconds_between_def)
next
  case (Cons t ts)
  let ?v = "w\<lparr>w_clock := t\<rparr>"
  have r: "reset_runtime_if_needed (w_runtime ?v) (wake_time (w_daily ?v)) (w_clock ?v) = Inr (False, w_runtime w)"
    using Cons.prems(1) by (simp add: reset_current Let_def)
  have same: "rolled_over (False, w_runtime w) ?v = ?v" by (simp add: rolled_over_def)
  obtain errs h where k: "clock_tick env t w = ?v\<lparr>w_host := h, w_step_errors := errs,
      w_runtime := (w_runtime w)\<lparr>accumulated_seconds := accumulated_seconds (w_runtime w) + seconds_between t u\<rparr>,
      w_last_tick_at := Some t\<rparr>"
    using Cons.prems tick_rolled [OF r, of env, unfolded same] accumulate_eq [of env t ?v]
    by (auto simp: clock_tick_def credited_def Let_def)
  have "accumulated_seconds (w_runtime (fold (clock_tick env) ts (clock_tick env t w)))
      = accumulated_seconds (w_runtime (clock_tick env t w)) + seconds_between (last (t # ts)) t"
    using Cons.prems(1) by (intro Cons.IH) (simp_all add: k Let_def)
  moreover have "seconds_between (last (t # ts)) u = seconds_between (last (t # ts)) t + seconds_between t u"
    by (simp add: seconds_between_def field_simps)
  ultimately show ?case by (simp add: k)
qed

text \<open>
  However often and however irregularly the accumulator is called on a clock
  that does not go back, the seconds it has counted never exceed the time that has
  passed since the current usage period began at wake time.
\<close>

theorem usage_never_exceeds_the_clock:
  assumes "usage_fits w"
  shows "\<exists>d. usage_period_date (w_clock (fold (clock_tick env) ts w))
      (wake_time (w_daily (fold (clock_tick env) ts w))) = Inr d
    \<and> accumulated_seconds (w_runtime (fold (clock_tick env) ts w)) * 1000000
        \<le> elapsed_us d (wake_time (w_daily (fold (clock_tick env) ts w))) (w_clock (fold (clock_tick env) ts w))"
  using usage.run_inv [OF assms, of env ts] by (auto simp: usage_fits_def)

lemma sample_fits: "usage_fits sample_world"
proof -
  have "usage_period_date (w_clock sample_world) (wake_time (w_daily sample_world)) = Inr (Date 2026 3 4)"
    "usage_period_date (timestamp (w_runtime sample_world)) (wake_time (w_daily sample_world)) = Inr (Date 2026 3 4)"
    by (simp_all add: sample_world_def usage_period_date_def before_time_def)
  moreover have "valid_datetime (w_clock sample_world)" "valid_time (wake_time (w_daily sample_world))"
    by (simp_all add: sample_world_def valid_datetime_def valid_date_def days_in_month_def valid_time_def)
  moreover have "elapsed_us (Date 2026 3 4) (wake_time (w_daily sample_world)) (w_clock sample_world) = 50370000000"
    "elapsed_us (Date 2026 3 4) (wake_time (w_daily sample_world)) (DateTime (Date 2026 3 4) 20 59 29 0) = 50369000000"
    by (simp_all add: sample_world_def elapsed_us_def day_start_def dt_us_def minutes_since_midnight_def
        day_us_def minute_us_def)
  moreover have "dt_us (DateTime (Date 2026 3 4) 20 59 29 0) \<le> dt_us (w_clock sample_world)"
    by (simp add: sample_world_def dt_us_def)
  ultimately show ?thesis
    unfolding usage_fits_def by (auto simp: sample_world_def)
qed

theorem usage_never_exceeds_the_clock_witness:
  "\<exists>d. accumulated_seconds (w_runtime (fold (clock_tick sample_env)
      [DateTime (Date 2026 3 4) 20 59 31 0, DateTime (Date 2026 3 5) 8 0 0 0] sample_world)) * 1000000
     \<le> elapsed_us d (wake_time (w_daily (fold (clock_tick sample_env)
        [DateTime (Date 2026 3 4) 20 59 31 0, DateTime (Date 2026 3 5) 8 0 0 0] sample_world)))
        (w_clock (fold (clock_tick sample_env)
        [DateTime (Date 2026 3 4) 20 59 31 0, DateTime (Date 2026 3 5) 8 0 0 0] sample_world))"
  using usage_never_exceeds_the_clock [OF sample_fits, of sample_env
      "[DateTime (Date 2026 3 4) 20 59 31 0, DateTime (Date 2026 3 5) 8 0 0 0]"]
  by blast

text \<open>
  C38. The warnings of a step within a usage period: with \<open>t\<close> minutes left, the
  popup goes out for the smallest threshold that is at least \<open>t\<close> and has not been
  sent, and only for that one; once it is shown, that threshold and all larger ones
  count as sent; if it fails, none does, and the next step tries again.
\<close>

theorem warning_sent_once_per_threshold:
  assumes "usage_period_date (w_clock w) (wake_time (w_daily w)) = Inr today"
    and "w_warnings_date w = Some today"
    and "fst (get_time_remaining env w) = Inr (Some t)" and "0 < t"
  shows "check_and_send_warnings env w =
     (case find (\<lambda>m. m \<notin> w_warnings_sent w \<and> t \<le> of_int m) [1, 5, 15, 30] of
        None \<Rightarrow> (Inr (), w)
      | Some m \<Rightarrow>
          (case p_show_message (e_platform env) (warning_text t) (lit ''Warning'') (w_host w) of
             (Inl e, h) \<Rightarrow> (Inl e, w\<lparr>w_host := h\<rparr>)
           | (Inr _, h) \<Rightarrow> (Inr (), w\<lparr>w_host := h,
               w_warnings_sent := w_warnings_sent w \<union> {k \<in> {1, 5, 15, 30}. m \<le> k}\<rparr>)))"
proof -
  have srt: "sort warning_intervals = [1, 5, 15, 30]" by (simp add: warning_intervals_def)
  have g: "get_time_remaining env w = (Inr (Some t), w)"
    using assms(3) by (cases "get_time_remaining env w") (auto simp: get_time_remaining_def)
  have "check_and_send_warnings env w = send_first_warning env t [1, 5, 15, 30] w"
    using assms(1,2,4) by (simp add: check_and_send_warnings_def bind_def [of "get_time_remaining env"] g srt)
  moreover have "insert m (set (filter (\<lambda>k. m < k) warning_intervals)) = {k \<in> {1, 5, 15, 30}. m \<le> k}"
    if "find (\<lambda>m. m \<notin> w_warnings_sent w \<and> t \<le> of_int m) [1, 5, 15, 30] = Some m" for m
  proof -
    have "m \<in> {1, 5, 15, 30}" using that by (auto split: if_splits)
    then show ?thesis by (auto simp: warning_intervals_def)
  qed
  ultimately show ?thesis
    unfolding send_first_warning_eq by (auto split: option.split prod.split sum.split)
qed

theorem warning_sent_once_per_threshold_witness:
  "check_and_send_warnings sample_env sample_world = (Inl (HostError (lit ''no display'')), sample_world)"
proof -
  have p: "usage_period_date (w_clock sample_world) (wake_time (w_daily sample_world)) = Inr (Date 2026 3 4)"
    by (simp add: sample_world_def usage_period_date_def before_time_def)
  have d: "w_warnings_date sample_world = Some (Date 2026 3 4)" by (simp add: sample_world_def)
  have t: "fst (get_time_remaining sample_env sample_world) = Inr (Some (1 / 2))"
    by (simp add: get_time_remaining_def minutes_until_lock_def should_lock_iff)
      (simp add: sample_world_def in_curfew_def is_in_bedtime_curfew_def minutes_since_midnight_def Let_def
        allowance_used_up_def effective_allowance_def used_minutes_def effective_daily_allowance_minutes_def
        next_bed_datetime_def less_eq_datetime_def seconds_between_def dt_us_def)
  have "sample_world\<lparr>w_host := w_host sample_world\<rparr> = sample_world" by simp
  then show ?thesis
    using warning_sent_once_per_threshold [OF p d t]
    by (simp add: sample_world_def sample_platform_def)
qed

text \<open>
  When the files could not be read at start-up, the first change a parent makes
  afterwards is lost although it is reported as done: saving first retries the
  load, and a load that now succeeds replaces the settings that were just set.
\<close>

theorem change_is_lost_after_failed_load:
  assumes "w_state_load_failed w"
    and "load (e_store env) (w_clock w) (w_disk w) = (Inr (s, r), d)"
  shows "w_daily (snd (bind (set_bed_time h m) (\<lambda>_. save_state env) w)) = s"
proof -
  let ?w = "w\<lparr>w_daily := (w_daily w)\<lparr>bed_time := Some (Time h m)\<rparr>\<rparr>"
  let ?v = "?w\<lparr>w_disk := d, w_daily := s, w_runtime := r, w_state_load_failed := False\<rparr>"
  have l: "load_state env ?w = (Inr (), ?v)"
    using assms(2) by (simp add: load_state_def try_all_eq bind_def [of "on_disk _"] on_disk_eq)
  have "w_daily (snd (store_state w')) = w_daily w'" for w' :: "'a world"
    by (auto simp: store_state_def try_all_eq on_disk_eq bind_def [of "set_runtime _"]
        split: prod.split sum.split)
  then show ?thesis
    using assms(1) by (simp add: set_bed_time_def bind_def [of "set_daily _"] save_state_def
        bind_def [of "load_state env"] l)
qed

theorem change_is_lost_after_failed_load_witness:
  "w_daily (snd (bind (set_bed_time 20 30) (\<lambda>_. save_state sample_env)
     (sample_world\<lparr>w_state_load_failed := True\<rparr>))) = default_daily"
proof -
  let ?w = "sample_world\<lparr>w_state_load_failed := True\<rparr>"
  have "usage_period_date (w_clock ?w) DEFAULT_WAKE_TIME = Inr (Date 2026 3 4)"
    by (simp add: usage_period_date_def sample_world_def before_time_def DEFAULT_WAKE_TIME_def)
  then have "\<exists>d. load (e_store sample_env) (w_clock ?w) (w_disk ?w)
      = (Inr (default_daily, fresh_runtime_state (w_clock ?w)), d)"
    by (intro load_fresh_install) (simp_all add: sample_world_def no_faults_def sample_env_def)
  then obtain d where "load (e_store sample_env) (w_clock ?w) (w_disk ?w)
      = (Inr (default_daily, fresh_runtime_state (w_clock ?w)), d)" ..
  from change_is_lost_after_failed_load [OF _ this, of 20 30] show ?thesis by simp
qed

text \<open>
  Granting extra minutes can take time away: for a monitored user without a
  daily limit, an extension becomes a limit, so a user who has already used more
  than those minutes is locked out by it.
\<close>

theorem extension_without_limit_locks:
  assumes "monitors_user env" and "allowance (w_daily w) = None" and "bed_time (w_daily w) = None"
    and "\<not> manual_lock_active (w_runtime w)" and "cumulative_extension_seconds (w_runtime w) = 0"
    and "0 < minutes" and "of_int minutes * 60 \<le> accumulated_seconds (w_runtime w)"
  shows "\<not> should_lock (world_lock_decision env w)
    \<and> should_lock (world_lock_decision env (snd (extend_time minutes w)))"
proof
  show "\<not> should_lock (world_lock_decision env w)"
    using assms by (simp add: world_lock_decision_def should_lock_iff in_curfew_def allowance_used_up_def
        effective_allowance_def effective_daily_allowance_minutes_def)
  have "of_int (minutes * 60) / (60 :: rat) = of_int minutes" by simp
  then show "should_lock (world_lock_decision env (snd (extend_time minutes w)))"
    using assms by (simp add: extend_time_def clear_warnings_def bind_def [of "set_runtime _"]
        world_lock_decision_def should_lock_iff allowance_used_up_def used_minutes_def
        effective_allowance_def effective_daily_allowance_minutes_def)
qed

theorem extension_without_limit_locks_witness:
  "should_lock (world_lock_decision sample_env (snd (extend_time 30
     (sample_world\<lparr>w_daily := default_daily, w_runtime := (fresh_runtime_state (w_clock sample_world))
        \<lparr>accumulated_seconds := 7200\<rparr>\<rparr>))))"
  using extension_without_limit_locks [of sample_env "sample_world\<lparr>w_daily := default_daily,
      w_runtime := (fresh_runtime_state (w_clock sample_world))\<lparr>accumulated_seconds := 7200\<rparr>\<rparr>" 30]
  by (simp add: default_daily_def fresh_runtime_state_def)

end
