(* ===== verification/Log_Tail.thy ===== *)
theory Log_Tail
  imports PyText
begin

text \<open>
  \<open>read_log_tail\<close> of \<open>src/kid_pc_monitor/pc_time_control.py\<close>: the last lines of the
  agent's log, read backwards in blocks of 8 KiB so that a long log is not read
  whole. It is shown to give what splitting the whole file into lines would give.
\<close>

section \<open>Decoding with replacement\<close>

text \<open>
  \<open>bytes.decode("utf-8", errors="replace")\<close>: each longest prefix of a well-formed
  sequence that is not one becomes U+FFFD, and so does each byte that starts none.
\<close>

definition second_ok :: "nat \<Rightarrow> nat \<Rightarrow> bool" where
  "second_ok lead b \<longleftrightarrow>
     is_cont b \<and> (lead = 224 \<longrightarrow> 160 \<le> b) \<and> (lead = 237 \<longrightarrow> b < 160)
     \<and> (lead = 240 \<longrightarrow> 144 \<le> b) \<and> (lead = 244 \<longrightarrow> b < 144)"

definition replacement :: nat where
  "replacement = 65533"

fun decode_replace :: "bytes \<Rightarrow> pystr" where
  "decode_replace [] = []"
| "decode_replace (a # bs) =
     (if a < 128 then a # decode_replace bs
      else if 194 \<le> a \<and> a < 224 then
        (case bs of
           b # bs' \<Rightarrow> if is_cont b then ((a - 192) * 64 + (b - 128)) # decode_replace bs'
                      else replacement # decode_replace bs
         | [] \<Rightarrow> [replacement])
      else if 224 \<le> a \<and> a < 240 then
        (case bs of
           b # c # bs' \<Rightarrow>
             if \<not> second_ok a b then replacement # decode_replace bs
             else if is_cont c
             then ((a - 224) * 4096 + (b - 128) * 64 + (c - 128)) # decode_replace bs'
             else replacement # decode_replace (c # bs')
         | [b] \<Rightarrow> if second_ok a b then [replacement] else replacement # decode_replace bs
         | [] \<Rightarrow> [replacement])
      else if 240 \<le> a \<and> a < 245 then
        (case bs of
           b # c # d # bs' \<Rightarrow>
             if \<not> second_ok a b then replacement # decode_replace bs
             else if \<not> is_cont c then replacement # decode_replace (c # d # bs')
             else if is_cont d
             then ((a - 240) * 262144 + (b - 128) * 4096 + (c - 128) * 64 + (d - 128)) # decode_replace bs'
             else replacement # decode_replace (d # bs')
         | [b, c] \<Rightarrow>
             if \<not> second_ok a b then replacement # decode_replace bs
             else if is_cont c then [replacement] else replacement # decode_replace [c]
         | [b] \<Rightarrow> if second_ok a b then [replacement] else replacement # decode_replace bs
         | [] \<Rightarrow> [replacement])
      else replacement # decode_replace bs)"

section \<open>Reading backwards in blocks\<close>

text \<open>\<open>bytes.split(b"\n")\<close>.\<close>

fun split_nl :: "bytes \<Rightarrow> bytes list" where
  "split_nl [] = [[]]"
| "split_nl (c # cs) =
     (if c = 10 then [] # split_nl cs
      else (case split_nl cs of l # ls \<Rightarrow> (c # l) # ls | [] \<Rightarrow> [[c]]))"

definition block :: nat where
  "block = 8192"

text \<open>The inner loop over the parts of a block, last line first.\<close>

fun collect :: "int \<Rightarrow> bytes list \<Rightarrow> bytes list \<Rightarrow> bytes list" where
  "collect tail [] raw_lines = raw_lines"
| "collect tail (part # parts) raw_lines =
     (let raw_lines = (if part \<noteq> [] \<or> raw_lines \<noteq> [] then raw_lines @ [part] else raw_lines)
      in if int (length raw_lines) > tail then raw_lines else collect tail parts raw_lines)"

text \<open>The loop over the blocks; it returns what \<open>remaining\<close> and \<open>raw_lines\<close> are after it.\<close>

function read_blocks :: "int \<Rightarrow> bytes \<Rightarrow> nat \<Rightarrow> bytes \<Rightarrow> bytes list \<Rightarrow> nat \<times> bytes list" where
  "read_blocks tail data remaining fragment raw_lines =
     (if 0 < remaining \<and> int (length raw_lines) \<le> tail then
        let read_size = min block remaining; rest = remaining - read_size;
            chunk = take read_size (drop rest data); parts = split_nl (chunk @ fragment)
        in if 0 < rest
           then read_blocks tail data rest (hd parts) (collect tail (rev (tl parts)) raw_lines)
           else read_blocks tail data rest [] (collect tail (rev parts) raw_lines)
      else (remaining, raw_lines))"
  by pat_completeness auto
termination
  by (relation "measure (\<lambda>(tail, data, remaining, fragment, raw_lines). remaining)") (auto simp: block_def)

declare read_blocks.simps [simp del]

text \<open>On the contents of the file, None when there is no file.\<close>

definition read_log_tail :: "bytes option \<Rightarrow> int \<Rightarrow> pystr list \<times> bool" where
  "read_log_tail file tail =
     (case file of
        None \<Rightarrow> ([], False)
      | Some data \<Rightarrow>
          if length data = 0 then ([], False)
          else
            (case read_blocks tail data (length data) [] [] of (remaining, raw_lines) \<Rightarrow>
               let truncated = (0 < remaining \<or> int (length raw_lines) > tail);
                   raw_lines = (if int (length raw_lines) > tail then take (nat tail) raw_lines else raw_lines)
               in (map decode_replace (rev raw_lines), truncated)))"

section \<open>The lines of a file\<close>

text \<open>All lines, empty ones at the end of the file dropped, the last line first.\<close>

definition is_blank :: "bytes \<Rightarrow> bool" where
  "is_blank l \<longleftrightarrow> l = []"

definition lines_back :: "bytes \<Rightarrow> bytes list" where
  "lines_back data = dropWhile is_blank (rev (split_nl data))"

definition log_lines :: "bytes \<Rightarrow> bytes list" where
  "log_lines data = rev (lines_back data)"

definition add_lines :: "bytes list \<Rightarrow> bytes list \<Rightarrow> bytes list" where
  "add_lines raw parts = (if raw = [] then dropWhile is_blank parts else raw @ parts)"

lemma split_nl_nonempty [simp]: "split_nl xs \<noteq> []"
  by (induction xs) (auto split: list.split)

lemma split_nl_plain: "10 \<notin> set l \<Longrightarrow> split_nl l = [l]"
  by (induction l) auto

lemma split_nl_hd: "10 \<notin> set (hd (split_nl xs))"
  by (induction xs) (auto split: list.split)

lemma split_nl_append:
  "split_nl (xs @ ys) = split_nl (xs @ hd (split_nl ys)) @ tl (split_nl ys)"
proof (induction xs)
  case Nil
  then show ?case by (simp add: split_nl_plain [OF split_nl_hd])
next
  case (Cons x xs)
  obtain l ls where "split_nl (xs @ hd (split_nl ys)) = l # ls"
    by (cases "split_nl (xs @ hd (split_nl ys))") auto
  with Cons show ?case by simp
qed

lemma split_nl_line: "10 \<notin> set l \<Longrightarrow> split_nl (l @ 10 # xs) = l # split_nl xs"
  by (induction l) auto

lemma add_lines_append: "add_lines raw (ps @ qs) = add_lines (add_lines raw ps) qs"
proof (cases "raw = [] \<and> (\<forall>p \<in> set ps. is_blank p)")
  case True
  then have "dropWhile is_blank ps = []" by (simp add: dropWhile_eq_Nil_conv)
  with True show ?thesis by (simp add: add_lines_def dropWhile_append2)
next
  case False
  then show ?thesis
    by (auto simp: add_lines_def dropWhile_append1)
qed

lemma add_lines_Cons:
  "add_lines raw (p # ps) = add_lines (if p \<noteq> [] \<or> raw \<noteq> [] then raw @ [p] else raw) ps"
  by (simp add: add_lines_def is_blank_def)

lemma add_lines_nonempty: "raw \<noteq> [] \<Longrightarrow> add_lines raw ps = raw @ ps"
  by (simp add: add_lines_def)

lemma collect_eq:
  "int (length raw) \<le> tail \<Longrightarrow> collect tail ps raw = take (nat tail + 1) (add_lines raw ps)"
proof (induction ps arbitrary: raw)
  case Nil
  then show ?case by (simp add: add_lines_def)
next
  case (Cons p ps)
  let ?raw = "if p \<noteq> [] \<or> raw \<noteq> [] then raw @ [p] else raw"
  show ?case
  proof (cases "int (length ?raw) > tail")
    case True
    then have "length ?raw = nat tail + 1" using Cons.prems by (auto split: if_splits)
    moreover from this have "?raw \<noteq> []" by (metis add_is_0 list.size(3) one_neq_zero)
    ultimately show ?thesis
      using True by (simp only: collect.simps Let_def add_lines_Cons if_True) (simp add: add_lines_nonempty)
  next
    case False
    then show ?thesis
      using Cons.IH [of ?raw] by (simp add: Let_def add_lines_Cons split del: if_split)
  qed
qed

lemma read_blocks_step:
  "0 < remaining \<Longrightarrow> int (length raw_lines) \<le> tail \<Longrightarrow> rest = remaining - min block remaining \<Longrightarrow>
   parts = split_nl (take (min block remaining) (drop rest data) @ fragment) \<Longrightarrow>
   read_blocks tail data remaining fragment raw_lines =
     (if 0 < rest then read_blocks tail data rest (hd parts) (collect tail (rev (tl parts)) raw_lines)
      else read_blocks tail data rest [] (collect tail (rev parts) raw_lines))"
  by (subst read_blocks.simps) (simp add: Let_def)

text \<open>What the loop over the blocks finds: the first \<open>tail + 1\<close> lines from the end.\<close>

lemma read_blocks_eq:
  assumes "0 \<le> tail" and "remaining \<le> length data"
    and "remaining = 0 \<longrightarrow> fragment = []"
    and "raw_lines = take (nat tail + 1) full"
    and "if remaining = 0 then lines_back data = full
         else lines_back data = add_lines full (rev (split_nl (take remaining data @ fragment)))"
  shows "\<exists>rest. read_blocks tail data remaining fragment raw_lines
      = (rest, take (nat tail + 1) (lines_back data))
    \<and> (0 < rest \<longrightarrow> nat tail < length (lines_back data))"
  using assms
proof (induction remaining arbitrary: fragment raw_lines full rule: less_induct)
  case (less remaining)
  consider "remaining = 0" | "0 < remaining" "int (length raw_lines) > tail"
    | "0 < remaining" "int (length raw_lines) \<le> tail" by linarith
  then show ?case
  proof cases
    case 1
    with less.prems show ?thesis by (simp add: read_blocks.simps)
  next
    case 2
    then have l: "nat tail + 1 \<le> length full" using less.prems(1,4) by auto
    then have "full \<noteq> []" by auto
    then have "lines_back data = full @ rev (split_nl (take remaining data @ fragment))"
      using less.prems(5) 2(1) by (simp add: add_lines_nonempty)
    with 2 l less.prems(4) show ?thesis by (simp add: read_blocks.simps)
  next
    case 3
    then have raw: "raw_lines = full" using less.prems(1,4) by auto
    define rest where "rest = remaining - min block remaining"
    define parts where "parts = split_nl (take (min block remaining) (drop rest data) @ fragment)"
    note step = read_blocks_step [OF 3 rest_def parts_def]
    have less': "rest < remaining" "rest \<le> length data"
      using 3(1) less.prems(2) by (auto simp: block_def rest_def)
    have split: "take remaining data = take rest data @ take (min block remaining) (drop rest data)"
      using take_add [of rest "min block remaining" data] by (simp add: rest_def)
    have lb: "lines_back data = add_lines full (rev (split_nl (take remaining data @ fragment)))"
      using less.prems(5) 3(1) by simp
    have coll: "collect tail ps raw_lines = take (nat tail + 1) (add_lines full ps)" for ps
      using 3(2) raw by (simp add: collect_eq)
    show ?thesis
    proof (cases "rest = 0")
      case True
      then have "lines_back data = add_lines full (rev parts)" using lb split by (simp add: parts_def)
      then have "if rest = 0 then lines_back data = add_lines full (rev parts)
          else lines_back data = add_lines (add_lines full (rev parts)) (rev (split_nl (take rest data @ [])))"
        using True by (simp only: refl if_True)
      from this have IH: "\<exists>q. read_blocks tail data rest [] (collect tail (rev parts) raw_lines)
          = (q, take (nat tail + 1) (lines_back data)) \<and> (0 < q \<longrightarrow> nat tail < length (lines_back data))"
        using less.IH [OF less'(1) less.prems(1) less'(2) _ coll] by blast
      moreover have "read_blocks tail data remaining fragment raw_lines
          = read_blocks tail data rest [] (collect tail (rev parts) raw_lines)"
        unfolding step using True by (simp only: less_irrefl if_False)
      ultimately show ?thesis by (simp only:)
    next
      case False
      have "split_nl (take remaining data @ fragment) = split_nl (take rest data @ hd parts) @ tl parts"
        unfolding split parts_def append_assoc by (rule split_nl_append)
      then have "lines_back data = add_lines (add_lines full (rev (tl parts)))
          (rev (split_nl (take rest data @ hd parts)))"
        by (simp add: lb add_lines_append)
      then have "if rest = 0 then lines_back data = add_lines full (rev (tl parts))
          else lines_back data = add_lines (add_lines full (rev (tl parts)))
             (rev (split_nl (take rest data @ hd parts)))"
        using False by (simp only: if_False)
      from this have IH: "\<exists>q. read_blocks tail data rest (hd parts) (collect tail (rev (tl parts)) raw_lines)
          = (q, take (nat tail + 1) (lines_back data)) \<and> (0 < q \<longrightarrow> nat tail < length (lines_back data))"
        using False less.IH [OF less'(1) less.prems(1) less'(2) _ coll] by blast
      moreover have "read_blocks tail data remaining fragment raw_lines
          = read_blocks tail data rest (hd parts) (collect tail (rev (tl parts)) raw_lines)"
        unfolding step using False by (simp only: neq0_conv if_True)
      ultimately show ?thesis by (simp only:)
    qed
  qed
qed

lemma read_log_tail_lines:
  assumes "0 \<le> tail"
  shows "read_log_tail (Some data) tail =
    (map decode_replace (drop (length (log_lines data) - nat tail) (log_lines data)),
     nat tail < length (log_lines data))"
proof (cases "data = []")
  case True
  then show ?thesis by (simp add: read_log_tail_def log_lines_def lines_back_def is_blank_def)
next
  case False
  let ?n = "nat tail" and ?ls = "lines_back data"
  have "lines_back data = add_lines [] (rev (split_nl (take (length data) data @ [])))"
    by (simp add: lines_back_def add_lines_def)
  then obtain rest where r: "read_blocks tail data (length data) [] [] = (rest, take (?n + 1) ?ls)"
    "0 < rest \<longrightarrow> ?n < length ?ls"
    using read_blocks_eq [OF assms, of "length data" data "[]" "[]" "[]"] False by auto
  have i: "int (length (take (?n + 1) ?ls)) > tail \<longleftrightarrow> ?n < length ?ls" using assms by auto
  have m: "take ?n (take (?n + 1) ?ls) = take ?n ?ls" by (simp add: min_def)
  have l: "\<not> ?n < length ?ls \<Longrightarrow> take (?n + 1) ?ls = take ?n ?ls" by simp
  have "drop (length (log_lines data) - ?n) (log_lines data) = rev (take ?n ?ls)"
    by (simp add: log_lines_def rev_take)
  then show ?thesis
    using False r(2) l unfolding read_log_tail_def option.case Let_def r(1) prod.case i m
    by (auto simp: log_lines_def)
qed

section \<open>Logs that were written as text\<close>

lemma decode_replace_char:
  assumes "utf8_char c = Inr bs"
  shows "decode_replace (bs @ rest) = c # decode_replace rest"
proof -
  consider (one) "c < 128" | (two) "128 \<le> c" "c < 2048"
    | (three) "2048 \<le> c" "c < 65536" "\<not> (55296 \<le> c \<and> c \<le> 57343)"
    | (four) "65536 \<le> c" "c < 1114112"
    using assms by (auto simp: utf8_char_def split: if_splits)
  then show ?thesis
  proof cases
    case one
    with assms show ?thesis by (auto simp: utf8_char_def)
  next
    case two
    then have "2 \<le> c div 64" "c div 64 < 32" by auto
    with two assms show ?thesis by (auto simp: utf8_char_def is_cont_def)
  next
    case three
    have d: "c div 64 = c div 4096 * 64 + c div 64 mod 64"
      using div_mult_mod_eq [of "c div 64" 64] by (simp add: div_mult2_eq [symmetric])
    have "c div 4096 < 16" "32 \<le> c div 64" using three by auto
    moreover have "c div 4096 = 0 \<Longrightarrow> 32 \<le> c div 64 mod 64" using d calculation(2) by simp
    moreover have "c div 4096 = 13 \<Longrightarrow> c div 64 mod 64 < 32"
    proof -
      assume "c div 4096 = 13"
      then have "c < 55296" using three(3) by linarith
      then have "c div 64 < 864" by auto
      with d \<open>c div 4096 = 13\<close> show ?thesis by linarith
    qed
    ultimately have "second_ok (224 + c div 4096) (128 + c div 64 mod 64)" "c div 4096 < 16"
      by (auto simp: second_ok_def is_cont_def)
    moreover have "bs = [224 + c div 4096, 128 + c div 64 mod 64, 128 + c mod 64]"
      using three assms by (auto simp: utf8_char_def)
    ultimately show ?thesis using split_three [of c] by (simp add: is_cont_def)
  next
    case four
    have d: "c div 4096 = c div 262144 * 64 + c div 4096 mod 64"
      using div_mult_mod_eq [of "c div 4096" 64] by (simp add: div_mult2_eq [symmetric])
    have "c div 262144 < 5" "16 \<le> c div 4096" "c div 4096 < 272" using four by auto
    moreover have "c div 262144 = 0 \<Longrightarrow> 16 \<le> c div 4096 mod 64" "c div 262144 = 4 \<Longrightarrow> c div 4096 mod 64 < 16"
      using d calculation(2,3) by linarith+
    ultimately have "second_ok (240 + c div 262144) (128 + c div 4096 mod 64)" "c div 262144 < 5"
      by (auto simp: second_ok_def is_cont_def)
    moreover have "bs = [240 + c div 262144, 128 + c div 4096 mod 64, 128 + c div 64 mod 64, 128 + c mod 64]"
      using four assms by (auto simp: utf8_char_def)
    ultimately show ?thesis using split_four [of c] by (simp add: is_cont_def)
  qed
qed

lemma decode_replace_encoded: "utf8_encode s = Inr bs \<Longrightarrow> decode_replace bs = s"
  by (induction s arbitrary: bs) (auto simp: rbind_eq_Inr_iff decode_replace_char)

lemma decode_replace_bytes: "list_all is_scalar s \<Longrightarrow> decode_replace (utf8_bytes s) = s"
  using utf8_encode_bytes decode_replace_encoded by blast

text \<open>The file a logger leaves behind: each line encoded and ended by a newline.\<close>

definition log_file :: "pystr list \<Rightarrow> bytes" where
  "log_file ls = concat (map (\<lambda>l. utf8_bytes l @ [10]) ls)"

definition is_line :: "pystr \<Rightarrow> bool" where
  "is_line l \<longleftrightarrow> l \<noteq> [] \<and> list_all is_scalar l \<and> 10 \<notin> set l"

lemma utf8_char_newline: "utf8_char c = Inr bs \<Longrightarrow> 10 \<in> set bs \<Longrightarrow> c = 10"
  by (auto simp: utf8_char_def split: if_splits)

lemma utf8_encode_newline: "utf8_encode s = Inr bs \<Longrightarrow> 10 \<in> set bs \<Longrightarrow> 10 \<in> set s"
  by (induction s arbitrary: bs) (auto simp: rbind_eq_Inr_iff dest: utf8_char_newline)

lemma is_line_bytes:
  "is_line l \<Longrightarrow> 10 \<notin> set (utf8_bytes l) \<and> utf8_bytes l \<noteq> [] \<and> decode_replace (utf8_bytes l) = l"
  using utf8_encode_newline [OF utf8_encode_bytes] decode_replace_bytes [of l]
  by (auto simp: is_line_def)

lemma split_log_file: "list_all is_line ls \<Longrightarrow> split_nl (log_file ls) = map utf8_bytes ls @ [[]]"
  by (induction ls) (auto simp: log_file_def split_nl_line is_line_bytes)

lemma log_lines_log_file: "list_all is_line ls \<Longrightarrow> log_lines (log_file ls) = map utf8_bytes ls"
proof (cases ls rule: rev_cases)
  case (snoc ms m)
  assume "list_all is_line ls"
  then show ?thesis
    using is_line_bytes [of m]
    by (simp add: log_lines_def lines_back_def split_log_file snoc is_blank_def)
qed (simp add: log_lines_def lines_back_def log_file_def is_blank_def)

section \<open>Properties\<close>

text \<open>
  C40. Reading the log backwards block by block gives what reading it whole would
  give: with the file split at its newlines and the empty lines at its end
  dropped, the result is the last \<open>tail\<close> lines in order, and the flag tells
  whether there are more. In particular the loop over the blocks ends.
\<close>

theorem read_log_tail_equals_whole_file:
  assumes "0 \<le> tail"
  shows "read_log_tail (Some data) tail =
    (map decode_replace (drop (length (log_lines data) - nat tail) (log_lines data)),
     nat tail < length (log_lines data))"
  using assms by (rule read_log_tail_lines)

theorem read_log_tail_equals_whole_file_witness:
  "read_log_tail (Some [97, 10, 10, 195, 10, 98, 10]) 2 = ([[65533], [98]], True)"
proof -
  have "log_lines [97, 10, 10, 195, 10, 98, 10] = [[97], [], [195], [98]]"
    by (simp add: log_lines_def lines_back_def is_blank_def)
  then show ?thesis
    using read_log_tail_equals_whole_file [of 2 "[97, 10, 10, 195, 10, 98, 10]"]
    by (simp add: replacement_def)
qed

text \<open>
  What was logged is what the parent reads: of a file of non-empty text lines,
  each written in UTF-8 and ended by a newline, the last \<open>tail\<close> lines come back
  unchanged, whatever the block boundaries cut through.
\<close>

theorem log_tail_roundtrip:
  assumes "list_all is_line ls" and "0 \<le> tail"
  shows "read_log_tail (Some (log_file ls)) tail =
    (drop (length ls - nat tail) ls, nat tail < length ls)"
proof -
  have "map (decode_replace \<circ> utf8_bytes) ls = ls"
    using assms(1) by (induction ls) (auto simp: is_line_bytes)
  then show ?thesis
    using read_log_tail_lines [OF assms(2)] assms(1)
    by (simp add: log_lines_log_file drop_map [symmetric])
qed

theorem log_tail_roundtrip_witness:
  "read_log_tail (Some (log_file [lit ''agent started'', [9888, 33], lit ''locked''])) 2
     = ([[9888, 33], lit ''locked''], True)"
  using log_tail_roundtrip [of "[lit ''agent started'', [9888, 33], lit ''locked'']" 2]
  by (simp add: is_line_def is_scalar_def lit_def)

end
