(* ===== verification/Dispatcher.thy ===== *)
theory Dispatcher
  imports Time_Control Protocol Log_Tail
begin

text \<open>
  \<open>src/kid_pc_monitor/request_dispatcher.py\<close>: what each action of an accepted
  request does to the control object, and the content of the answer. Every
  operation is an action on the world of \<open>Time_Control\<close>.
\<close>

section \<open>Values in requests and answers\<close>

definition format_time :: "dtime option \<Rightarrow> pyval" where
  "format_time t = (case t of None \<Rightarrow> PNone | Some t \<Rightarrow> PStr (format_hhmm t))"

definition parse_hhmm :: "pyval \<Rightarrow> pystr option \<Rightarrow> dtime res" where
  "parse_hhmm raw req_id =
     (case raw of
        PStr s \<Rightarrow>
          value_error_as
            (ProtocolError INVALID_VALUE
              (lit ''time must be HH:MM (00:00'' @ [8211] @ lit ''23:59)'') req_id)
            (parse_time_hhmm s)
      | _ \<Rightarrow> Inl (ProtocolError INVALID_VALUE (lit ''time must be HH:MM'') req_id))"

definition TRUE_WORDS :: "pystr list" where
  "TRUE_WORDS = [lit ''true'', lit ''yes'', lit ''1'']"

definition FALSE_WORDS :: "pystr list" where
  "FALSE_WORDS = [lit ''false'', lit ''no'', lit ''0'']"

definition parse_bool :: "pyval \<Rightarrow> pystr option \<Rightarrow> bool res" where
  "parse_bool raw req_id =
     (case raw of
        PBool b \<Rightarrow> Inr b
      | _ \<Rightarrow>
          let txt = (if raw = PNone then [] else lower (strip (str_of raw))) in
          if txt \<in> set TRUE_WORDS then Inr True
          else if txt \<in> set FALSE_WORDS then Inr False
          else Inl (ProtocolError INVALID_VALUE (lit ''expected a boolean'') req_id))"

text \<open>\<open>f"{None}"\<close> and \<open>f"{text}"\<close>.\<close>

definition opt_text :: "pystr option \<Rightarrow> pystr" where
  "opt_text v = (case v of None \<Rightarrow> lit ''None'' | Some s \<Rightarrow> s)"

definition opt_val :: "pystr option \<Rightarrow> pyval" where
  "opt_val v = (case v of None \<Rightarrow> PNone | Some s \<Rightarrow> PStr s)"

section \<open>Reading variables\<close>

definition read_variable :: "'h env \<Rightarrow> pystr \<Rightarrow> ('h, pyval) wact" where
  "read_variable env var =
     (if var = lit ''name'' then bind (on_host (p_get_hostname (e_platform env))) (\<lambda>n. ret (PStr n))
      else if var = lit ''status'' then
        bind (check_if_locked env)
          (\<lambda>locked. ret (PStr (if locked then lit ''LOCKED'' else lit ''UNLOCKED'')))
      else if var = lit ''current_user'' then ret (PStr (user_name (e_store env)))
      else if var = lit ''daily_limit'' then
        gets (\<lambda>w. case allowance (w_daily w) of None \<Rightarrow> PNone | Some m \<Rightarrow> PInt m)
      else if var = lit ''bed_time'' then gets (\<lambda>w. format_time (bed_time (w_daily w)))
      else if var = lit ''manual_lock'' then gets (\<lambda>w. PBool (manual_lock_active (w_runtime w)))
      else if var = lit ''wake_time'' then gets (\<lambda>w. format_time (Some (wake_time (w_daily w))))
      else if var = lit ''cumulative_extension'' then
        gets (\<lambda>w. PInt (cumulative_extension_seconds (w_runtime w)))
      else if var = lit ''accumulated_seconds'' then
        gets (\<lambda>w. PInt (trunc_rat (accumulated_seconds (w_runtime w))))
      else if var = lit ''time_remaining'' then
        bind (get_time_remaining env)
          (\<lambda>remaining. ret (case remaining of None \<Rightarrow> PNone | Some m \<Rightarrow> PInt (round_half_even m)))
      else if var = lit ''enforcement_active'' then
        bind (enforcement_lock_state env) (\<lambda>e. ret (PBool (fst e)))
      else if var = lit ''enforcement_reason'' then
        bind (enforcement_lock_state env) (\<lambda>e. ret (if fst e then opt_val (snd e) else PNone))
      else if var = lit ''access_status'' then
        bind (get_access_status env) (\<lambda>s. ret (PStr s))
      else raising (ProtocolError UNKNOWN_VARIABLE (lit ''unknown variable: '' @ var) None))"

text \<open>The list comprehension over all variables.\<close>

fun read_all :: "'h env \<Rightarrow> pystr list \<Rightarrow> ('h, node list) wact" where
  "read_all env [] = ret []"
| "read_all env (v # vs) =
     bind (read_variable env v) (\<lambda>x. bind (read_all env vs) (\<lambda>ns. ret (Node v [x] [] # ns)))"

definition do_get :: "'h env \<Rightarrow> request \<Rightarrow> ('h, node list) wact" where
  "do_get env req =
     (if rvar req = Some (lit ''settings'') then
        bind (read_all env (map fst VARIABLES)) (\<lambda>children. ret (block_content (Node (lit ''settings'') [] children)))
      else bind (read_variable env (opt_text (rvar req))) (\<lambda>x. ret (ok_content x)))"

section \<open>Changing variables\<close>

definition check_minutes :: "int \<Rightarrow> pystr option \<Rightarrow> unit res" where
  "check_minutes minutes req_id =
     guard (MIN_DAILY_LIMIT \<le> minutes \<and> minutes \<le> MAX_DAILY_LIMIT)
       (ProtocolError INVALID_VALUE
         (lit ''minutes must be between '' @ int_str MIN_DAILY_LIMIT @ lit '' and '' @ int_str MAX_DAILY_LIMIT)
         req_id)"

definition set_variable :: "'h env \<Rightarrow> request \<Rightarrow> ('h, pyval) wact" where
  "set_variable env req =
     (if rvar req = Some (lit ''daily_limit'') then
        bind (lift (parse_int (rval req) (rid req)))
          (\<lambda>minutes. bind (lift (check_minutes minutes (rid req)))
            (\<lambda>_. bind (set_daily_allowance (Some minutes)) (\<lambda>_. ret (PInt minutes))))
      else if rvar req = Some (lit ''bed_time'') then
        bind (lift (parse_hhmm (rval req) (rid req)))
          (\<lambda>t. bind (set_bed_time (hour t) (minute t))
            (\<lambda>_. ret (PStr (fmt02 (hour t) @ [58] @ fmt02 (minute t)))))
      else if rvar req = Some (lit ''wake_time'') then
        bind (lift (parse_hhmm (rval req) (rid req)))
          (\<lambda>t. bind (set_wake_time (hour t) (minute t))
            (\<lambda>_. ret (PStr (fmt02 (hour t) @ [58] @ fmt02 (minute t)))))
      else
        bind (lift (parse_bool (rval req) (rid req)))
          (\<lambda>engaged. bind (if engaged then engage_manual_lock env else clear_manual_lock)
            (\<lambda>_. ret (PBool engaged))))"

definition in_vars :: "pystr option \<Rightarrow> pystr list \<Rightarrow> bool" where
  "in_vars v vs \<longleftrightarrow> (case v of None \<Rightarrow> False | Some s \<Rightarrow> s \<in> set vs)"

definition do_set :: "'h env \<Rightarrow> request \<Rightarrow> ('h, node list) wact" where
  "do_set env req =
     (if \<not> in_vars (rvar req) WRITABLE_VARIABLES
      then raising (ProtocolError FORBIDDEN (opt_text (rvar req) @ lit '' is read-only'') (rid req))
      else bind (set_variable env req)
             (\<lambda>result. bind (save_state env) (\<lambda>_. ret (ok_content result))))"

definition clear_variable :: "request \<Rightarrow> ('h, unit) wact" where
  "clear_variable req =
     (if rvar req = Some (lit ''daily_limit'') then set_daily_allowance None
      else if rvar req = Some (lit ''bed_time'') then bind clear_bed_time (\<lambda>_. clear_warnings)
      else if rvar req = Some (lit ''cumulative_extension'') then clear_extensions
      else clear_manual_lock)"

definition do_clear :: "'h env \<Rightarrow> request \<Rightarrow> ('h, node list) wact" where
  "do_clear env req =
     (if \<not> in_vars (rvar req) CLEARABLE_VARIABLES
      then raising (ProtocolError FORBIDDEN (opt_text (rvar req) @ lit '' cannot be cleared'') (rid req))
      else bind (clear_variable req)
             (\<lambda>_. bind (save_state env) (\<lambda>_. ret (ok_content (PStr (lit ''cleared''))))))"

definition do_extend :: "'h env \<Rightarrow> request \<Rightarrow> ('h, node list) wact" where
  "do_extend env req =
     bind (lift (parse_int (rval req) (rid req)))
       (\<lambda>minutes. bind (lift (check_minutes minutes (rid req)))
         (\<lambda>_. bind (extend_time minutes)
           (\<lambda>_. bind (save_state env) (\<lambda>_. ret (ok_content (PInt minutes))))))"

definition do_message :: "'h env \<Rightarrow> request \<Rightarrow> ('h, node list) wact" where
  "do_message env req =
     (let bad = raising (ProtocolError INVALID_VALUE (lit ''message must be non-empty text'') (rid req)) in
      case rval req of
        PStr txt \<Rightarrow>
          if strip txt = [] then bad
          else bind (send_parent_message env txt) (\<lambda>_. ret (ok_content (PStr (lit ''message sent''))))
      | _ \<Rightarrow> bad)"

definition do_shutdown :: "'h env \<Rightarrow> request \<Rightarrow> ('h, node list) wact" where
  "do_shutdown env req =
     bind (lift (if rval req = PNone then Inr DEFAULT_SHUTDOWN_SECONDS else parse_int (rval req) (rid req)))
       (\<lambda>seconds.
          if seconds < 0
          then raising (ProtocolError INVALID_VALUE (lit ''seconds must not be negative'') (rid req))
          else bind (shutdown_pc env seconds) (\<lambda>_. ret (ok_content (PInt seconds))))"

section \<open>Reading the log\<close>

definition logs_block :: "pystr \<Rightarrow> pystr list \<Rightarrow> bool \<Rightarrow> node" where
  "logs_block path ls truncated =
     Node (lit ''logs'') []
       [Node (lit ''path'') [PStr path] [],
        Node (lit ''truncated'') [PBool truncated] [],
        Node (lit ''lines'') (map PStr ls) []]"

definition logs_block_byte_size :: "pystr \<Rightarrow> pystr list \<Rightarrow> bool \<Rightarrow> int res" where
  "logs_block_byte_size path ls truncated =
     (let content = block_content (logs_block path ls truncated) in
      rbind (utf8_encode (serialize
         ([Node (lit ''v'') [PInt 3] [],
           Node (lit ''name'') [PStr (lit ''hostname'')] [],
           Node (lit ''timestamp'') [PInt 0] [],
           Node (lit ''nonce'') [PStr (replicate 32 97)] []]
          @ content
          @ [Node (lit ''auth'') [] [Node (lit ''signature'') [PStr (replicate 43 120)] []]])))
        (\<lambda>bs. Inr (int (length bs))))"

definition line_cost :: "pystr \<Rightarrow> int res" where
  "line_cost l = rbind (utf8_encode (format_value (PStr l))) (\<lambda>bs. Inr (1 + int (length bs)))"

fun line_costs :: "pystr list \<Rightarrow> int list res" where
  "line_costs [] = Inr []"
| "line_costs (l # ls) = rbind (line_cost l) (\<lambda>c. rbind (line_costs ls) (\<lambda>cs. Inr (c # cs)))"

text \<open>
  The loop that drops the oldest lines; \<open>flag_change\<close> is what setting the truncated
  flag adds to the size, evaluated when the first line is dropped.
\<close>

fun drop_oldest :: "int \<Rightarrow> int res \<Rightarrow> int list \<Rightarrow> int \<Rightarrow> bool \<Rightarrow> nat \<Rightarrow> (nat \<times> bool) res" where
  "drop_oldest budget flag_change [] sz truncated dropped = Inr (dropped, truncated)"
| "drop_oldest budget flag_change (c # cs) sz truncated dropped =
     (if sz > budget then
        (if \<not> truncated then
           rbind flag_change (\<lambda>x. drop_oldest budget flag_change cs (sz - c + x) True (dropped + 1))
         else drop_oldest budget flag_change cs (sz - c) True (dropped + 1))
      else Inr (dropped, truncated))"

definition fit_log_lines_to_frame :: "pystr \<Rightarrow> pystr list \<Rightarrow> bool \<Rightarrow> (pystr list \<times> bool) res" where
  "fit_log_lines_to_frame path ls truncated =
     rbind (line_costs ls)
       (\<lambda>costs. rbind (logs_block_byte_size path [] truncated)
         (\<lambda>base. rbind
            (drop_oldest (int MAX_FRAME_BYTES - 1024)
               (rbind (logs_block_byte_size path [] True)
                 (\<lambda>a. rbind (logs_block_byte_size path [] False) (\<lambda>b. Inr (a - b))))
               costs (base + sum_list costs) truncated 0)
            (\<lambda>p. Inr (drop (fst p) ls, snd p))))"

definition do_get_logs :: "'h env \<Rightarrow> request \<Rightarrow> ('h, node list) wact" where
  "do_get_logs env req =
     (let tail = (case rtail req of Some t \<Rightarrow> t | None \<Rightarrow> DEFAULT_LOG_TAIL_LINES) in
      bind
        (try_with
          (bind (gets w_log) (\<lambda>r. bind (lift r) (\<lambda>file. ret (read_log_tail file tail))))
          (\<lambda>e. case e of
             OSError _ \<Rightarrow> Some (raising (ProtocolError FORBIDDEN
               (lit ''cannot read log file: '' @ exc_text (e_python env) e) (rid req)))
           | _ \<Rightarrow> None))
        (\<lambda>p. bind (lift (fit_log_lines_to_frame (e_log_path env) (fst p) (snd p)))
          (\<lambda>q. ret (block_content (logs_block (e_log_path env) (fst q) (snd q))))))"

section \<open>Dispatch\<close>

definition dispatch :: "'h env \<Rightarrow> request \<Rightarrow> ('h, node list) wact" where
  "dispatch env req =
     (if raction req = lit ''list_capabilities'' then ret (capabilities_content (rversion req))
      else if raction req = lit ''get_logs'' then do_get_logs env req
      else if raction req = lit ''get'' then do_get env req
      else if raction req = lit ''set'' then do_set env req
      else if raction req = lit ''clear'' then do_clear env req
      else if raction req = lit ''extend'' then do_extend env req
      else if raction req = lit ''message'' then do_message env req
      else if raction req = lit ''shutdown'' then do_shutdown env req
      else if raction req = lit ''lock'' then
        bind (engage_manual_lock env)
          (\<lambda>_. bind (save_state env) (\<lambda>_. ret (ok_content (PStr (lit ''locked'')))))
      else if raction req = lit ''unlock'' then
        bind clear_manual_lock
          (\<lambda>_. bind (save_state env) (\<lambda>_. ret (ok_content (PStr (lit ''unlocked'')))))
      else raising (ProtocolError UNKNOWN_ACTION (lit ''unknown action: '' @ raction req) (rid req)))"

section \<open>What a request asks for\<close>

text \<open>
  The abstract specification of the write actions: the parent's view of the agent
  (settings, manual lock, extensions and usage of the day), the commands that
  change it, and the command a request stands for, or the reason it is refused.
\<close>

record parental =
  par_daily :: daily_settings
  par_manual :: bool
  par_extension :: int
  par_used :: rat

definition parental_of :: "'h world \<Rightarrow> parental" where
  "parental_of w =
     \<lparr>par_daily = w_daily w, par_manual = manual_lock_active (w_runtime w),
      par_extension = cumulative_extension_seconds (w_runtime w),
      par_used = accumulated_seconds (w_runtime w)\<rparr>"

datatype command =
    Limit "int option"
  | Bed "dtime option"
  | Wake dtime
  | Manual bool
  | Extend_by int
  | No_extension
  | No_change

text \<open>Moving the wake time from \<open>old\<close> to \<open>new\<close> starts a new usage period.\<close>

definition starts_period :: "datetime \<Rightarrow> dtime \<Rightarrow> dtime \<Rightarrow> bool" where
  "starts_period now old new \<longleftrightarrow> before_time now old \<and> \<not> before_time now new"

fun obey :: "datetime \<Rightarrow> command \<Rightarrow> parental \<Rightarrow> parental" where
  "obey now (Limit m) p = p\<lparr>par_daily := (par_daily p)\<lparr>allowance := m\<rparr>\<rparr>"
| "obey now (Bed t) p = p\<lparr>par_daily := (par_daily p)\<lparr>bed_time := t\<rparr>\<rparr>"
| "obey now (Wake t) p =
     (let q = p\<lparr>par_daily := (par_daily p)\<lparr>wake_time := t\<rparr>\<rparr> in
      if starts_period now (wake_time (par_daily p)) t
      then q\<lparr>par_manual := False, par_extension := 0, par_used := 0\<rparr> else q)"
| "obey now (Manual b) p = p\<lparr>par_manual := b\<rparr>"
| "obey now (Extend_by m) p = p\<lparr>par_extension := par_extension p + m * 60, par_manual := False\<rparr>"
| "obey now No_extension p = p\<lparr>par_extension := 0\<rparr>"
| "obey now No_change p = p"

definition minutes_of :: "request \<Rightarrow> int res" where
  "minutes_of req =
     rbind (parse_int (rval req) (rid req))
       (\<lambda>m. rbind (check_minutes m (rid req)) (\<lambda>_. Inr m))"

definition set_command :: "request \<Rightarrow> command res" where
  "set_command req =
     (if rvar req = Some (lit ''daily_limit'') then rbind (minutes_of req) (\<lambda>m. Inr (Limit (Some m)))
      else if rvar req = Some (lit ''bed_time'')
        then rbind (parse_hhmm (rval req) (rid req)) (\<lambda>t. Inr (Bed (Some t)))
      else if rvar req = Some (lit ''wake_time'')
        then rbind (parse_hhmm (rval req) (rid req)) (\<lambda>t. Inr (Wake t))
      else rbind (parse_bool (rval req) (rid req)) (\<lambda>b. Inr (Manual b)))"

definition clear_command :: "request \<Rightarrow> command" where
  "clear_command req =
     (if rvar req = Some (lit ''daily_limit'') then Limit None
      else if rvar req = Some (lit ''bed_time'') then Bed None
      else if rvar req = Some (lit ''cumulative_extension'') then No_extension
      else Manual False)"

definition refusal :: "request \<Rightarrow> pystr \<Rightarrow> pystr \<Rightarrow> exn" where
  "refusal req code msg = ProtocolError code msg (rid req)"

definition command_of :: "request \<Rightarrow> command res" where
  "command_of req =
     (if raction req = lit ''set'' then
        (if in_vars (rvar req) WRITABLE_VARIABLES then set_command req
         else Inl (refusal req FORBIDDEN (opt_text (rvar req) @ lit '' is read-only'')))
      else if raction req = lit ''clear'' then
        (if in_vars (rvar req) CLEARABLE_VARIABLES then Inr (clear_command req)
         else Inl (refusal req FORBIDDEN (opt_text (rvar req) @ lit '' cannot be cleared'')))
      else if raction req = lit ''extend'' then rbind (minutes_of req) (\<lambda>m. Inr (Extend_by m))
      else if raction req = lit ''lock'' then Inr (Manual True)
      else if raction req = lit ''unlock'' then Inr (Manual False)
      else Inr No_change)"

text \<open>The actions that change settings, all of which end by saving.\<close>

definition settings_actions :: "pystr list" where
  "settings_actions = [lit ''set'', lit ''clear'', lit ''extend'', lit ''lock'', lit ''unlock'']"

section \<open>Effects of the operations\<close>

lemma parental_of_simps [simp]:
  "parental_of (w\<lparr>w_host := h\<rparr>) = parental_of w"
  "parental_of (w\<lparr>w_is_locked := b\<rparr>) = parental_of w"
  "parental_of (w\<lparr>w_disk := d\<rparr>) = parental_of w"
  "parental_of (w\<lparr>w_step_errors := e\<rparr>) = parental_of w"
  "parental_of (w\<lparr>w_warnings_sent := s\<rparr>) = parental_of w"
  "parental_of (w\<lparr>w_warnings_date := t\<rparr>) = parental_of w"
  "parental_of (w\<lparr>w_last_tick_at := u\<rparr>) = parental_of w"
  "parental_of (w\<lparr>w_runtime := (w_runtime w)\<lparr>timestamp := now\<rparr>\<rparr>) = parental_of w"
  by (simp_all add: parental_of_def)

definition stamped :: "'h world \<Rightarrow> 'h world" where
  "stamped w = w\<lparr>w_runtime := (w_runtime w)\<lparr>timestamp := w_clock w\<rparr>\<rparr>"

lemma stamped_simps [simp]:
  "parental_of (stamped w) = parental_of w" "w_clock (stamped w) = w_clock w"
  "w_daily (stamped w) = w_daily w" "w_disk (stamped w) = w_disk w"
  "w_state_load_failed (stamped w) = w_state_load_failed w"
  by (simp_all add: stamped_def parental_of_def)

lemma save_state_eq:
  "\<not> w_state_load_failed w \<Longrightarrow>
     save_state env w = (Inr (), (stamped w)\<lparr>w_disk :=
       snd (save (w_daily w) (w_runtime (stamped w)) (w_clock w) (w_disk w))\<rparr>)"
  by (auto simp: save_state_def store_state_def try_all_eq on_disk_eq stamped_def
      bind_def [of "set_runtime _"] split: prod.split sum.split)

lemma engage_manual_lock_eq:
  "\<exists>h b. engage_manual_lock env w = (Inr (),
     w\<lparr>w_runtime := (w_runtime w)\<lparr>manual_lock_active := True\<rparr>, w_host := h, w_is_locked := b\<rparr>)"
proof -
  let ?w = "w\<lparr>w_runtime := (w_runtime w)\<lparr>manual_lock_active := True\<rparr>\<rparr>"
  obtain r h where p: "p_lock_workstation (e_platform env) (w_host w) = (r, h)" by fastforce
  show ?thesis
  proof (cases r)
    case (Inl e)
    then show ?thesis
      by (intro exI [of _ h] exI [of _ "w_is_locked w"])
        (simp add: engage_manual_lock_def lock_pc_def try_all_eq on_host_eq bind_def p)
  next
    case (Inr u)
    then show ?thesis
      by (intro exI [of _ h] exI [of _ True])
        (simp add: engage_manual_lock_def lock_pc_def try_all_eq on_host_eq bind_def p)
  qed
qed

lemma starts_period_iff:
  assumes "prev_day (date_of now) = Inr y"
  shows "usage_period_date now wake = Inr (if before_time now wake then y else date_of now)"
  using assms by (simp add: usage_period_date_def)

text \<open>What the settings actions never touch before they save.\<close>

definition unsaved :: "'h world \<Rightarrow> 'h world \<Rightarrow> bool" where
  "unsaved w w' \<longleftrightarrow>
     w_clock w' = w_clock w \<and> w_disk w' = w_disk w \<and> w_state_load_failed w' = w_state_load_failed w
     \<and> w_log w' = w_log w"

text \<open>\<open>carries_out m c w\<close>: the action \<open>m\<close> succeeds and does what the command \<open>c\<close> says.\<close>

definition carries_out :: "('h, 'a) wact \<Rightarrow> command \<Rightarrow> 'h world \<Rightarrow> bool" where
  "carries_out m c w \<longleftrightarrow>
     (\<exists>x w'. m w = (Inr x, w') \<and> parental_of w' = obey (w_clock w) c (parental_of w) \<and> unsaved w w')"

lemma carries_outI:
  "m w = (Inr x, w') \<Longrightarrow> parental_of w' = obey (w_clock w) c (parental_of w) \<Longrightarrow> unsaved w w' \<Longrightarrow>
     carries_out m c w"
  by (auto simp: carries_out_def)

lemma carries_out_bind_ret: "carries_out m c w \<Longrightarrow> carries_out (bind m (\<lambda>x. ret (f x))) c w"
  by (auto simp: carries_out_def bind_def)

lemma engage_carries_out: "carries_out (engage_manual_lock env) (Manual True) w"
  using engage_manual_lock_eq [of env w]
  by (auto intro!: carries_outI simp: unsaved_def parental_of_def)

lemma simple_carry_out:
  "carries_out (set_daily_allowance m) (Limit m) w"
  "carries_out (set_bed_time h n) (Bed (Some (Time h n))) w"
  "carries_out clear_manual_lock (Manual False) w"
  "carries_out clear_extensions No_extension w"
  "carries_out (bind clear_bed_time (\<lambda>_. clear_warnings)) (Bed None) w"
  "carries_out (extend_time k) (Extend_by k) w"
  by (auto intro!: carries_outI simp: set_daily_allowance_def set_bed_time_def clear_manual_lock_def
      clear_extensions_def clear_bed_time_def clear_warnings_def extend_time_def unsaved_def
      parental_of_def bind_def [of "set_daily _"] bind_def [of "set_runtime _"])

lemma wake_carries_out:
  assumes "prev_day (date_of (w_clock w)) = Inr y" and "valid_date (date_of (w_clock w))"
  shows "carries_out (set_wake_time h m) (Wake (Time h m)) w"
proof -
  let ?old = "wake_time (w_daily w)"
  have "y < date_of (w_clock w)" using prev_day_less assms by blast
  then have "((if before_time (w_clock w) ?old then y else date_of (w_clock w))
      < (if before_time (w_clock w) (Time h m) then y else date_of (w_clock w)))
      = starts_period (w_clock w) ?old (Time h m)"
    by (auto simp: starts_period_def)
  then show ?thesis
    using starts_period_iff [OF assms(1)]
    by (auto intro!: carries_outI simp: set_wake_time_def bind_def [of "set_daily _"] bind_def [of "only_if _ _"]
        only_if_def unsaved_def parental_of_def Let_def reset_runtime_for_new_period_def)
qed

text \<open>An action that refuses, changing nothing, or carries out the command.\<close>

definition implements :: "('h, 'a) wact \<Rightarrow> command res \<Rightarrow> 'h world \<Rightarrow> bool" where
  "implements m r w = (case r of Inl e \<Rightarrow> m w = (Inl e, w) | Inr c \<Rightarrow> carries_out m c w)"

lemma implements_lift:
  "(\<And>x. r = Inr x \<Longrightarrow> implements (f x) (g x) w) \<Longrightarrow> implements (bind (lift r) f) (rbind r g) w"
  by (cases r) (auto simp: implements_def carries_out_def split: sum.split)

lemma implements_basic:
  "implements (raising e) (Inl e) w" "carries_out m c w \<Longrightarrow> implements m (Inr c) w"
  by (simp_all add: implements_def)

lemma implements_if:
  "implements m r w \<Longrightarrow> implements m' r' w \<Longrightarrow> implements (if b then m else m') (if b then r else r') w"
  by simp

lemma set_variable_implements:
  assumes "prev_day (date_of (w_clock w)) = Inr y" and "valid_date (date_of (w_clock w))"
  shows "implements (set_variable env req) (set_command req) w"
proof -
  have "carries_out (set_bed_time (hour t) (minute t)) (Bed (Some t)) w"
    "carries_out (set_wake_time (hour t) (minute t)) (Wake t) w" for t
    using simple_carry_out(2) [of "hour t" "minute t" w] wake_carries_out [OF assms, of "hour t" "minute t"]
    by simp_all
  moreover have "carries_out (if b then engage_manual_lock env else clear_manual_lock) (Manual b) w" for b
    using engage_carries_out simple_carry_out(3) by (cases b) auto
  ultimately show ?thesis
    unfolding set_variable_def set_command_def minutes_of_def rbind_assoc rbind_Inr
    by (intro implements_if implements_lift implements_basic carries_out_bind_ret simple_carry_out) simp_all
qed

lemma clear_variable_carries_out: "carries_out (clear_variable req) (clear_command req) w"
  unfolding clear_variable_def clear_command_def by (simp add: simple_carry_out)

text \<open>
  Saving afterwards keeps the parent's view. The disk is left as the save leaves it, whether it
  succeeds or not: a failing save is only logged.
\<close>

definition save_tried :: "'h world \<Rightarrow> 'h world \<Rightarrow> bool" where
  "save_tried w w' \<longleftrightarrow>
     w_clock w' = w_clock w \<and> w_state_load_failed w' = w_state_load_failed w
     \<and> timestamp (w_runtime w') = w_clock w
     \<and> w_disk w' = snd (save (w_daily w') (w_runtime w') (w_clock w) (w_disk w))"

definition executes :: "('h, 'a) wact \<Rightarrow> command res \<Rightarrow> 'h world \<Rightarrow> bool" where
  "executes m r w =
     (case r of
        Inl e \<Rightarrow> m w = (Inl e, w)
      | Inr c \<Rightarrow> (\<exists>x w'. m w = (Inr x, w') \<and> parental_of w' = obey (w_clock w) c (parental_of w) \<and> save_tried w w'))"

text \<open>The two files hold the settings and the state.\<close>

definition on_file :: "'h world \<Rightarrow> bool" where
  "on_file w \<longleftrightarrow>
     files (w_disk w) daily_path = daily_doc (w_daily w) \<and> files (w_disk w) state_path = runtime_doc (w_runtime w)"

lemma tried_on_file:
  assumes "save_tried w w'" and "no_faults (w_disk w)"
  shows "on_file w'"
proof -
  obtain d where "save (w_daily w') (w_runtime w') (w_clock w) (w_disk w) = (Inr (), d)" "no_faults d"
    by (rule save_no_faults [OF assms(2)])
  moreover have "(w_runtime w')\<lparr>timestamp := w_clock w\<rparr> = w_runtime w'" "w_disk w' = d"
    using assms(1) calculation by (simp_all add: save_tried_def)
  ultimately show ?thesis using save_files [of "w_daily w'" "w_runtime w'" "w_clock w" "w_disk w" "Inr ()" d]
    unfolding on_file_def by metis
qed

text \<open>
  What the parent sees after the save. If the files could not be read when the agent started,
  the save reads them again first, and what it reads replaces the settings.
\<close>

definition seen_as :: "daily_settings \<Rightarrow> runtime_state \<Rightarrow> parental" where
  "seen_as s r =
     \<lparr>par_daily = s, par_manual = manual_lock_active r, par_extension = cumulative_extension_seconds r,
      par_used = accumulated_seconds r\<rparr>"

definition view_after_save :: "'h env \<Rightarrow> 'h world \<Rightarrow> parental \<Rightarrow> parental" where
  "view_after_save env w p =
     (if w_state_load_failed w
      then (case fst (load (e_store env) (w_clock w) (w_disk w)) of Inr (s, r) \<Rightarrow> seen_as s r | Inl e \<Rightarrow> p)
      else p)"

lemma store_state_view:
  "\<exists>w'. store_state w = (Inr (), w') \<and> parental_of w' = parental_of w"
  by (auto simp: store_state_def try_all_eq on_disk_eq bind_def [of "set_runtime _"] parental_of_def
      split: prod.split sum.split)

lemma save_state_view:
  "\<exists>w'. save_state env w = (Inr (), w') \<and> parental_of w' = view_after_save env w (parental_of w)"
proof (cases "w_state_load_failed w")
  case False
  then show ?thesis using store_state_view [of w] by (simp add: save_state_def view_after_save_def)
next
  case True
  obtain res d where l: "load (e_store env) (w_clock w) (w_disk w) = (res, d)" by fastforce
  show ?thesis
  proof (cases res)
    case (Inl e)
    then have "load_state env w = (Inr (), w\<lparr>w_disk := d, w_state_load_failed := True\<rparr>)"
      using l by (simp add: load_state_def try_all_eq bind_def [of "on_disk _"] on_disk_eq)
    then show ?thesis using True l Inl
      by (simp add: save_state_def bind_def [of "load_state env"] view_after_save_def parental_of_def)
  next
    case (Inr p)
    let ?v = "w\<lparr>w_disk := d, w_daily := fst p, w_runtime := snd p, w_state_load_failed := False\<rparr>"
    have "load_state env w = (Inr (), ?v)"
      using l Inr by (simp add: load_state_def try_all_eq bind_def [of "on_disk _"] on_disk_eq)
    moreover obtain w' where "store_state ?v = (Inr (), w')" "parental_of w' = parental_of ?v"
      using store_state_view by blast
    ultimately show ?thesis using True l Inr
      by (auto simp: save_state_def bind_def [of "load_state env"] view_after_save_def seen_as_def parental_of_def
          split: prod.split)
  qed
qed

text \<open>Refusing with nothing changed, or doing what the command says and saving.\<close>

definition does :: "'h env \<Rightarrow> ('h, 'a) wact \<Rightarrow> command res \<Rightarrow> 'h world \<Rightarrow> bool" where
  "does env m r w =
     (case r of
        Inl e \<Rightarrow> m w = (Inl e, w)
      | Inr c \<Rightarrow> (\<exists>x w1. m w = (Inr x, snd (save_state env w1))
                     \<and> parental_of w1 = obey (w_clock w) c (parental_of w) \<and> unsaved w w1))"

lemma does_saving:
  assumes "implements m r w"
  shows "does env (bind m (\<lambda>x. bind (save_state env) (\<lambda>_. ret (f x)))) r w"
proof (cases r)
  case (Inl e)
  with assms show ?thesis by (simp add: implements_def does_def bind_def)
next
  case (Inr c)
  then obtain x w1 where m: "m w = (Inr x, w1)" "parental_of w1 = obey (w_clock w) c (parental_of w)"
    "unsaved w w1" using assms by (auto simp: implements_def carries_out_def)
  moreover obtain w' where "save_state env w1 = (Inr (), w')" using save_state_view by blast
  ultimately show ?thesis using Inr by (auto simp: does_def bind_def intro!: exI [of _ w1])
qed

lemma dispatch_does:
  assumes "prev_day (date_of (w_clock w)) = Inr y" and "valid_date (date_of (w_clock w))"
    and "raction req \<in> set settings_actions"
  shows "does env (dispatch env req) (command_of req) w"
proof -
  note save = does_saving
  have set: "does env (do_set env req)
      (if in_vars (rvar req) WRITABLE_VARIABLES then set_command req
       else Inl (refusal req FORBIDDEN (opt_text (rvar req) @ lit '' is read-only''))) w"
    using save [OF set_variable_implements [OF assms(1,2)], where env = env and f = ok_content]
    by (cases "in_vars (rvar req) WRITABLE_VARIABLES") (simp_all add: do_set_def, simp add: does_def refusal_def)
  have clear: "does env (do_clear env req)
      (if in_vars (rvar req) CLEARABLE_VARIABLES then Inr (clear_command req)
       else Inl (refusal req FORBIDDEN (opt_text (rvar req) @ lit '' cannot be cleared''))) w"
    using save [OF implements_basic(2) [OF clear_variable_carries_out],
        where env = env and f = "\<lambda>_. ok_content (PStr (lit ''cleared''))"]
    by (cases "in_vars (rvar req) CLEARABLE_VARIABLES") (simp_all add: do_clear_def, simp add: does_def refusal_def)
  have "do_extend env req
      = bind (lift (minutes_of req)) (\<lambda>m. bind (extend_time m) (\<lambda>_. bind (save_state env) (\<lambda>_. ret (ok_content (PInt m)))))"
    by (auto simp: do_extend_def minutes_of_def fun_eq_iff bind_def rbind_def split: sum.split)
  then have extend: "does env (do_extend env req) (rbind (minutes_of req) (\<lambda>m. Inr (Extend_by m))) w"
    using save [OF implements_basic(2) [OF simple_carry_out(6)]]
    by (cases "minutes_of req") (auto simp: does_def)
  note lock = save [OF implements_basic(2) [OF engage_carries_out]]
    save [OF implements_basic(2) [OF simple_carry_out(3)]]
  show ?thesis
    using assms(3) set clear extend lock
    by (auto simp: settings_actions_def dispatch_def command_of_def does_def)
qed

lemma dispatch_executes:
  assumes "prev_day (date_of (w_clock w)) = Inr y" and "valid_date (date_of (w_clock w))"
    and "\<not> w_state_load_failed w" and "raction req \<in> set settings_actions"
  shows "executes (dispatch env req) (command_of req) w"
proof (cases "command_of req")
  case (Inl e)
  with dispatch_does [OF assms(1,2,4), of env] show ?thesis by (simp add: does_def executes_def)
next
  case (Inr c)
  then obtain x w1 where d: "dispatch env req w = (Inr x, snd (save_state env w1))"
    "parental_of w1 = obey (w_clock w) c (parental_of w)" "unsaved w w1"
    using dispatch_does [OF assms(1,2,4), of env] by (auto simp: does_def)
  then have "save_state env w1 = (Inr (), (stamped w1)\<lparr>w_disk :=
       snd (save (w_daily w1) (w_runtime (stamped w1)) (w_clock w1) (w_disk w1))\<rparr>)"
    using assms(3) by (intro save_state_eq) (simp add: unsaved_def)
  with d Inr show ?thesis
    by (auto simp: executes_def save_tried_def unsaved_def stamped_def)
qed

section \<open>The answers of the settings actions\<close>

text \<open>Values that survive printing and can be encoded.\<close>

definition clean_val :: "pyval \<Rightarrow> bool" where
  "clean_val v \<longleftrightarrow> ok_val v \<and> scalar_val v"

lemma clean_simps [simp]:
  "clean_val (PBool b)" "clean_val (PStr (lit s))" "clean_val PNone"
  "clean_val (PStr t) \<longleftrightarrow> list_all is_scalar t"
  by (simp_all add: clean_val_def ok_val_def)

lemma scalar_fmt02 [simp]: "list_all is_scalar (fmt02 n)"
  using fmt02_digits [of n] by (auto simp: list_all_iff is_digit_def is_scalar_def)

lemma scalar_colon [simp]: "is_scalar 58"
  by (simp add: is_scalar_def)

lemma outcome_any: "outcome (\<lambda>_. True) (\<lambda>_. True) m"
  by (intro outcomeI) simp_all

lemma outcome_then_ret: "P x \<Longrightarrow> outcome P (\<lambda>_. True) (bind m (\<lambda>_. ret x))"
  by (rule outcome_bind [OF outcome_any]) simp

lemma check_minutes_bounds: "check_minutes m i = Inr u \<Longrightarrow> 1 \<le> m \<and> m \<le> 1440"
  by (simp add: check_minutes_def guard_eq_Inr_iff MIN_DAILY_LIMIT_def MAX_DAILY_LIMIT_def)

lemma parse_hhmm_valid: "parse_hhmm raw i = Inr t \<Longrightarrow> valid_time t"
  by (auto simp: parse_hhmm_def value_error_as_Inr_iff dest: parse_time_hhmm_valid split: pyval.splits)

lemma set_variable_clean: "outcome clean_val (\<lambda>_. True) (set_variable env req)"
proof -
  have minutes: "outcome clean_val (\<lambda>_. True) (bind (lift (check_minutes m i))
      (\<lambda>_. bind (set_daily_allowance (Some m)) (\<lambda>_. ret (PInt m))))" for m i
    by (rule outcome_bind [OF outcome_lift [where P = "\<lambda>_. 1 \<le> m \<and> m \<le> 1440"]])
      (auto dest: check_minutes_bounds intro!: outcome_then_ret simp: clean_val_def ok_val_def)
  show ?thesis
    unfolding set_variable_def
    by (auto intro!: minutes outcome_bind [OF outcome_lift [where P = "\<lambda>_. True"]] outcome_then_ret)
qed

definition ok_reply :: "node list \<Rightarrow> bool" where
  "ok_reply content \<longleftrightarrow> (\<exists>v. content = ok_content v \<and> clean_val v)"

lemma ok_replyI: "clean_val v \<Longrightarrow> ok_reply (ok_content v)"
  by (auto simp: ok_reply_def)

lemma saving_reply:
  "outcome clean_val (\<lambda>_. True) m \<Longrightarrow>
     outcome ok_reply (\<lambda>_. True) (bind m (\<lambda>x. bind (save_state env) (\<lambda>_. ret (ok_content x))))"
  by (rule outcome_bind, assumption) (auto intro!: outcome_then_ret ok_replyI)

lemma settings_reply:
  assumes "raction req \<in> set settings_actions"
  shows "outcome ok_reply (\<lambda>_. True) (dispatch env req)"
proof -
  have fixed: "outcome ok_reply (\<lambda>_. True) (bind m (\<lambda>_. bind (save_state env) (\<lambda>_. ret (ok_content (PStr (lit s))))))"
    for m :: "('a, unit) wact" and s
    by (rule outcome_bind [OF outcome_any]) (auto intro!: outcome_then_ret ok_replyI)
  have "outcome ok_reply (\<lambda>_. True) (bind (lift (check_minutes m i))
      (\<lambda>_. bind (extend_time m) (\<lambda>_. bind (save_state env) (\<lambda>_. ret (ok_content (PInt m))))))" for m i
    by (rule outcome_bind [OF outcome_lift [where P = "\<lambda>_. 1 \<le> m \<and> m \<le> 1440"]])
      (auto intro!: outcome_bind [OF outcome_any] outcome_then_ret ok_replyI dest!: check_minutes_bounds
         simp: clean_val_def ok_val_def)
  then have extend: "outcome ok_reply (\<lambda>_. True) (do_extend env req)"
    unfolding do_extend_def by (rule outcome_bind [OF outcome_any])
  show ?thesis
    using assms extend fixed saving_reply [OF set_variable_clean]
    by (auto simp: settings_actions_def dispatch_def do_set_def do_clear_def)
qed

section \<open>What the other actions touch\<close>

text \<open>Everything but the host and the notes about failing queries stays.\<close>

definition same_but_host :: "'h world \<Rightarrow> 'h world \<Rightarrow> bool" where
  "same_but_host w w' \<longleftrightarrow> w'\<lparr>w_host := w_host w, w_step_errors := w_step_errors w\<rparr> = w"

interpretation host_only: step_relation same_but_host
proof unfold_locales
  fix s t u :: "'a world"
  show "same_but_host s s" by (simp add: same_but_host_def)
  assume "same_but_host s t" and "same_but_host t u"
  then have "s = t\<lparr>w_host := w_host s, w_step_errors := w_step_errors s\<rparr>"
    "t = u\<lparr>w_host := w_host t, w_step_errors := w_step_errors t\<rparr>" by (simp_all add: same_but_host_def)
  then have "s = u\<lparr>w_host := w_host s, w_step_errors := w_step_errors s\<rparr>" by (metis (no_types, lifting) world.surjective world.update_convs(3,12))
  then show "same_but_host s u" by (simp add: same_but_host_def)
qed

lemma host_only_on_host: "keeps same_but_host (on_host m)"
  by (simp add: keeps_def on_host_eq same_but_host_def)

lemma host_only_check: "keeps same_but_host (check_if_locked env)"
  unfolding keeps_def
proof
  fix w
  obtain errs where "check_if_locked env w = (Inr (screen_locked env (w_host w)),
     w\<lparr>w_host := snd (p_check_session_locked (e_platform env) (w_host w)), w_step_errors := errs\<rparr>)"
    using check_if_locked_eq by blast
  then show "same_but_host w (snd (check_if_locked env w))" by (auto simp: same_but_host_def)
qed

lemma host_only_reads:
  "keeps same_but_host (get_time_remaining env)" "keeps same_but_host (enforcement_lock_state env)"
  "keeps same_but_host (get_access_status env)"
proof -
  show "keeps same_but_host (get_time_remaining env)"
    by (simp add: keeps_def get_time_remaining_def same_but_host_def)
  show e: "keeps same_but_host (enforcement_lock_state env)"
    unfolding enforcement_lock_state_def by (rule host_only.keeps_pure)
  show "keeps same_but_host (get_access_status env)"
    unfolding get_access_status_def
    by (intro host_only.keeps_rules host_only_check e)
qed

lemma host_only_variable: "keeps same_but_host (read_variable env v)"
  unfolding read_variable_def
  by (intro host_only.keeps_if host_only.keeps_bind host_only.keeps_pure host_only_on_host host_only_check
      host_only_reads)

lemma host_only_all: "keeps same_but_host (read_all env vs)"
proof (induction vs)
  case Nil
  show ?case unfolding read_all.simps by (rule host_only.keeps_pure)
next
  case (Cons v vs)
  then show ?case
    unfolding read_all.simps by (intro host_only.keeps_bind host_only.keeps_pure host_only_variable)
qed

lemma host_only_dispatch:
  assumes "raction req \<notin> set settings_actions"
  shows "keeps same_but_host (dispatch env req)"
proof -
  have get: "keeps same_but_host (do_get env req)"
    unfolding do_get_def
    by (intro host_only.keeps_if host_only.keeps_bind host_only.keeps_pure host_only_all host_only_variable)
  have msg: "keeps same_but_host (do_message env req)"
    unfolding do_message_def Let_def send_parent_message_def show_message_def
    by (auto intro!: host_only.keeps_bind host_only.keeps_pure host_only_on_host split: pyval.split)
  have shutdown: "keeps same_but_host (do_shutdown env req)"
    unfolding do_shutdown_def shutdown_pc_def try_all_def
    by (intro host_only.keeps_rules host_only_on_host)
  have logs: "keeps same_but_host (do_get_logs env req)"
    unfolding do_get_logs_def Let_def
    by (intro host_only.keeps_bind host_only.keeps_pure host_only.keeps_try)
      (auto split: exn.splits intro: host_only.keeps_pure)
  show ?thesis
    using assms get msg shutdown logs host_only.keeps_pure
    by (auto simp: dispatch_def settings_actions_def)
qed

section \<open>Commands keep the state valid\<close>

fun valid_command :: "command \<Rightarrow> bool" where
  "valid_command (Limit m) \<longleftrightarrow> pred_option (\<lambda>m. 1 \<le> m \<and> m \<le> 1440) m"
| "valid_command (Bed t) \<longleftrightarrow> pred_option valid_time t"
| "valid_command (Wake t) \<longleftrightarrow> valid_time t"
| "valid_command (Extend_by m) \<longleftrightarrow> 1 \<le> m \<and> m \<le> 1440"
| "valid_command _ \<longleftrightarrow> True"

lemma minutes_of_bounds: "minutes_of req = Inr m \<Longrightarrow> 1 \<le> m \<and> m \<le> 1440"
  by (auto simp: minutes_of_def rbind_eq_Inr_iff dest: check_minutes_bounds)

lemma command_of_valid: "command_of req = Inr c \<Longrightarrow> valid_command c"
  by (auto simp: command_of_def set_command_def clear_command_def rbind_eq_Inr_iff
      dest: minutes_of_bounds parse_hhmm_valid split: if_splits)

definition valid_parental :: "parental \<Rightarrow> bool" where
  "valid_parental p \<longleftrightarrow> valid_daily (par_daily p) \<and> 0 \<le> par_extension p \<and> 0 \<le> par_used p"

lemma obey_valid: "valid_parental p \<Longrightarrow> valid_command c \<Longrightarrow> valid_parental (obey now c p)"
  by (cases "(now, c, p)" rule: obey.cases)
    (auto simp: valid_parental_def valid_daily_def Let_def MAX_ABS_INT_def pred_option_def)

lemma valid_parental_of:
  "valid_parental (parental_of w) \<longleftrightarrow>
     valid_daily (w_daily w) \<and> 0 \<le> cumulative_extension_seconds (w_runtime w)
     \<and> 0 \<le> accumulated_seconds (w_runtime w)"
  by (simp add: valid_parental_def parental_of_def)

lemma saved_loads:
  assumes "save_tried w w'" and "no_faults (w_disk w)" and "valid_datetime (w_clock w)"
    and "valid_parental (parental_of w')" and "par_extension (parental_of w') \<le> MAX_ABS_INT"
    and "usage_period_date later (wake_time (w_daily w')) = usage_period_date (w_clock w) (wake_time (w_daily w'))"
    and "usage_period_date (w_clock w) (wake_time (w_daily w')) = Inr day"
  shows "\<exists>d. load cfg later (w_disk w') = (Inr (w_daily w', stored_runtime (w_runtime w')), d)"
proof -
  have t: "(w_runtime w')\<lparr>timestamp := w_clock w\<rparr> = w_runtime w'" using assms(1) by (simp add: save_tried_def)
  obtain d where d: "save (w_daily w') (w_runtime w') (w_clock w) (w_disk w) = (Inr (), d)" "no_faults d"
    by (rule save_no_faults [OF assms(2)])
  then have "w_disk w' = d" using assms(1) by (simp add: save_tried_def)
  moreover have "files d daily_path = daily_doc (w_daily w')" "files d state_path = runtime_doc (w_runtime w')"
    using save_files [OF d(1)] t by simp_all
  moreover have "valid_runtime (w_runtime w')"
    using assms(1,3,4) by (simp add: valid_runtime_def valid_parental_of save_tried_def)
  moreover have "reset_runtime_if_needed (stored_runtime (w_runtime w')) (wake_time (w_daily w')) later
      = Inr (False, stored_runtime (w_runtime w'))"
    using assms(1,6,7) period_of_seconds [of "w_clock w"]
    by (simp add: reset_runtime_if_needed_def runtime_state_is_current_def stored_runtime_def save_tried_def)
  moreover have "valid_daily (w_daily w')" "cumulative_extension_seconds (w_runtime w') \<le> MAX_ABS_INT"
    using assms(4,5) by (simp_all add: valid_parental_of) (simp add: parental_of_def)
  ultimately show ?thesis using load_stored [OF d(2)] by simp
qed

section \<open>Properties\<close>

text \<open>
  C2. What a parent's request does is what the command it stands for says: for the
  actions that change settings, on a clock that shows a day of the calendar after the first,
  the dispatcher either refuses the request with the
  error its checks give and changes nothing at all, or succeeds, and then settings,
  manual lock, extensions and used time are exactly those the command prescribes
  (the rest of the parent's view unchanged), with one exception: if the agent could not read
  its files when it started and can read them now, they are those of the files, and the
  change is lost although it was acknowledged (\<open>Time_Control.change_is_lost_after_failed_load\<close>).
\<close>

theorem dispatch_refines_commands:
  assumes "prev_day (date_of (w_clock w)) = Inr y" and "valid_date (date_of (w_clock w))"
    and "raction req \<in> set settings_actions"
  shows "case command_of req of
      Inl e \<Rightarrow> dispatch env req w = (Inl e, w)
    | Inr c \<Rightarrow> (\<exists>content w'. dispatch env req w = (Inr content, w')
                   \<and> parental_of w' =
                       (if w_state_load_failed w
                        then (case fst (load (e_store env) (w_clock w) (w_disk w)) of
                                Inr (s, r) \<Rightarrow> seen_as s r
                              | Inl e \<Rightarrow> obey (w_clock w) c (parental_of w))
                        else obey (w_clock w) c (parental_of w)))"
proof (cases "command_of req")
  case (Inl e)
  then show ?thesis using dispatch_does [OF assms, of env] by (simp add: does_def)
next
  case (Inr c)
  then obtain x w1 where d: "dispatch env req w = (Inr x, snd (save_state env w1))"
    "parental_of w1 = obey (w_clock w) c (parental_of w)" "unsaved w w1"
    using dispatch_does [OF assms, of env] by (auto simp: does_def)
  moreover obtain w' where "save_state env w1 = (Inr (), w')" "parental_of w' = view_after_save env w1 (parental_of w1)"
    using save_state_view by blast
  moreover have "view_after_save env w1 p = view_after_save env w p" for p
    using d(3) by (simp add: view_after_save_def unsaved_def)
  ultimately show ?thesis using Inr by (simp add: view_after_save_def)
qed

definition sample_extend :: request where
  "sample_extend =
     \<lparr>rversion = 3, rid = None, raction = lit ''extend'', rvar = None, rval = PInt 30,
      rname = Some (lit ''kid''), rtimestamp = PInt 1000, rnonce = PStr [], rtail = None\<rparr>"

lemma sample_extend_command: "command_of sample_extend = Inr (Extend_by 30)"
  by (simp add: command_of_def sample_extend_def minutes_of_def parse_int_def MAX_PARSED_INT_def
      check_minutes_def MIN_DAILY_LIMIT_def MAX_DAILY_LIMIT_def)

lemma sample_clock:
  "prev_day (date_of (w_clock sample_world)) = Inr (Date 2026 3 3)" "valid_date (date_of (w_clock sample_world))"
  "valid_datetime (w_clock sample_world)" "\<not> w_state_load_failed sample_world"
  by (simp_all add: sample_world_def prev_day_def valid_date_def valid_datetime_def days_in_month_def)

lemma sample_extend_action: "raction sample_extend \<in> set settings_actions"
  by (simp add: sample_extend_def settings_actions_def)

theorem dispatch_refines_commands_witness:
  "\<exists>content w'. dispatch sample_env sample_extend sample_world = (Inr content, w')
     \<and> parental_of w' = (parental_of sample_world)\<lparr>par_extension := 1800, par_manual := False\<rparr>"
  using dispatch_refines_commands [OF sample_clock(1,2) sample_extend_action, of sample_env]
  by (simp add: sample_extend_command sample_clock(4)) (simp add: parental_of_def sample_world_def)

text \<open>
  C5. A change the agent has acknowledged survives a restart: when the agent could read its
  files at its start (otherwise the change may be lost at once, see C2), the disk has no
  faults, the clock shows a day of the calendar after the first, the settings and state in
  memory are valid (as loading leaves them) and the extensions of the day are below the bound
  the reader of the file accepts, then, whatever the previous contents of the files, the next run that starts in the same usage
  period loads exactly the settings, the manual lock and the extensions the command prescribed.
\<close>

theorem acknowledged_change_survives_restart:
  assumes "prev_day (date_of (w_clock w)) = Inr y" and "valid_datetime (w_clock w)"
    and "\<not> w_state_load_failed w" and "raction req \<in> set settings_actions"
    and "command_of req = Inr c"
    and "no_faults (w_disk w)" and "valid_daily (w_daily w)" and "valid_runtime (w_runtime w)"
    and "cumulative_extension_seconds (w_runtime w) \<le> MAX_ABS_INT - 86400"
    and "usage_period_date later (wake_time (par_daily (obey (w_clock w) c (parental_of w))))
      = usage_period_date (w_clock w) (wake_time (par_daily (obey (w_clock w) c (parental_of w))))"
  shows "\<exists>content w' r d. dispatch env req w = (Inr content, w')
    \<and> load cfg later (w_disk w') = (Inr (par_daily (obey (w_clock w) c (parental_of w)), r), d)
    \<and> manual_lock_active r = par_manual (obey (w_clock w) c (parental_of w))
    \<and> cumulative_extension_seconds r = par_extension (obey (w_clock w) c (parental_of w))"
proof -
  have date: "valid_date (date_of (w_clock w))" using assms(2) by (simp add: valid_datetime_def)
  let ?p = "obey (w_clock w) c (parental_of w)"
  obtain content w' where w': "dispatch env req w = (Inr content, w')" "parental_of w' = ?p" "save_tried w w'"
    using dispatch_executes [OF assms(1) date assms(3,4), of env] assms(5) by (auto simp: executes_def)
  have cmd: "valid_command c" by (rule command_of_valid [OF assms(5)])
  have "valid_parental ?p"
    using assms(7,8) by (intro obey_valid cmd) (simp add: valid_parental_of valid_runtime_def)
  moreover have "par_extension ?p \<le> MAX_ABS_INT"
    using assms(9) cmd
    by (cases "(w_clock w, c, parental_of w)" rule: obey.cases)
      (auto simp: parental_of_def MAX_ABS_INT_def Let_def)
  moreover have daily: "w_daily w' = par_daily ?p" unfolding w'(2) [symmetric] by (simp add: parental_of_def)
  moreover obtain day where "usage_period_date (w_clock w) (wake_time (par_daily ?p)) = Inr day"
    using assms(1) by (cases "before_time (w_clock w) (wake_time (par_daily ?p))") (auto simp: usage_period_date_def)
  ultimately obtain d where "load cfg later (w_disk w') = (Inr (w_daily w', stored_runtime (w_runtime w')), d)"
    using saved_loads [OF w'(3) assms(6,2), of later day cfg] assms(10) w'(2) by metis
  moreover have "manual_lock_active (stored_runtime (w_runtime w')) = par_manual ?p"
    "cumulative_extension_seconds (stored_runtime (w_runtime w')) = par_extension ?p"
    unfolding w'(2) [symmetric] by (simp_all add: parental_of_def stored_runtime_def)
  ultimately show ?thesis using w'(1) daily by metis
qed

theorem acknowledged_change_survives_restart_witness:
  "\<exists>content w' r d. dispatch sample_env sample_extend sample_world = (Inr content, w')
    \<and> load (e_store sample_env) (DateTime (Date 2026 3 4) 23 0 0 0) (w_disk w') = (Inr (w_daily sample_world, r), d)
    \<and> cumulative_extension_seconds r = 1800"
proof -
  let ?p = "obey (w_clock sample_world) (Extend_by 30) (parental_of sample_world)"
  have view: "par_daily ?p = w_daily sample_world" "par_extension ?p = 1800"
    by (simp_all add: parental_of_def sample_world_def)
  have "usage_period_date (DateTime (Date 2026 3 4) 23 0 0 0)
        (wake_time (par_daily (obey (w_clock sample_world) (Extend_by 30) (parental_of sample_world))))
      = usage_period_date (w_clock sample_world)
          (wake_time (par_daily (obey (w_clock sample_world) (Extend_by 30) (parental_of sample_world))))"
    by (simp add: parental_of_def sample_world_def usage_period_date_def before_time_def)
  moreover have "no_faults (w_disk sample_world)" "valid_daily (w_daily sample_world)"
    "valid_runtime (w_runtime sample_world)"
    "cumulative_extension_seconds (w_runtime sample_world) \<le> MAX_ABS_INT - 86400"
    by (simp_all add: sample_world_def no_faults_def valid_daily_def valid_time_def valid_runtime_def
        valid_datetime_def valid_date_def days_in_month_def MAX_ABS_INT_def)
  ultimately show ?thesis
    using acknowledged_change_survives_restart [OF sample_clock(1,3,4) sample_extend_action sample_extend_command,
        where env = sample_env and cfg = "e_store sample_env" and later = "DateTime (Date 2026 3 4) 23 0 0 0"]
    unfolding view by blast
qed

text \<open>
  All other actions leave settings, usage, files and bookkeeping alone: reading
  variables or logs, listing capabilities, showing a message and shutting down can
  only change the state of the host and the notes about failing platform queries.
\<close>

theorem other_actions_change_only_the_host:
  assumes "raction req \<notin> set settings_actions"
  shows "(snd (dispatch env req w))\<lparr>w_host := w_host w, w_step_errors := w_step_errors w\<rparr> = w"
  using host_only_dispatch [OF assms, of env] by (simp add: keeps_def same_but_host_def)

theorem other_actions_change_only_the_host_witness:
  "w_disk (snd (dispatch sample_env (sample_extend\<lparr>raction := lit ''shutdown''\<rparr>) sample_world)) = w_disk sample_world"
proof -
  have "raction (sample_extend\<lparr>raction := lit ''shutdown''\<rparr>) \<notin> set settings_actions"
    by (simp add: settings_actions_def)
  from other_actions_change_only_the_host [OF this, where env = sample_env and w = sample_world] show ?thesis
    by (metis (no_types, lifting) world.select_convs(2) world.surjective world.update_convs(3,12))
qed

end
