(* ===== verification/Log_Reply.thy ===== *)
theory Log_Reply
  imports Dispatcher
begin

text \<open>
  The size of the answer to \<open>get_logs\<close>: the one-pass cut of
  \<open>_fit_log_lines_to_frame\<close> is the one that re-serializing after every dropped
  line would find, and the signed answer fits into a frame.
\<close>

section \<open>Sizes in bytes\<close>

definition nbytes :: "pystr \<Rightarrow> nat" where
  "nbytes s = length (utf8_bytes s)"

lemma nbytes_encode: "list_all is_scalar s \<Longrightarrow> rbind (utf8_encode s) (\<lambda>bs. Inr (f (length bs))) = Inr (f (nbytes s))"
  by (simp add: nbytes_def utf8_encode_bytes)

lemma nbytes_append [simp]:
  assumes "list_all is_scalar s" and "list_all is_scalar t"
  shows "nbytes (s @ t) = nbytes s + nbytes t"
proof -
  have "utf8_encode (s @ t) = Inr (utf8_bytes s @ utf8_bytes t)"
    using assms by (simp add: utf8_encode_append utf8_encode_bytes)
  then show ?thesis by (simp add: nbytes_def utf8_bytes_def)
qed

lemma nbytes_ascii: "\<forall>c \<in> set s. c < 128 \<Longrightarrow> nbytes s = length s"
  by (simp add: nbytes_def utf8_bytes_def utf8_encode_ascii)

lemma nbytes_Nil [simp]: "nbytes [] = 0"
  by (simp add: nbytes_ascii)

lemma nbytes_Cons: "c < 128 \<Longrightarrow> list_all is_scalar s \<Longrightarrow> nbytes (c # s) = Suc (nbytes s)"
  using nbytes_append [of "[c]" s] by (simp add: nbytes_ascii scalar_ascii)

definition lines_size :: "pystr list \<Rightarrow> nat" where
  "lines_size ls = (\<Sum>l\<leftarrow>ls. nbytes l + 1)"

definition doc_size :: "node list \<Rightarrow> nat \<Rightarrow> nat" where
  "doc_size ns k = lines_size (serialize_into ns k)"

lemma lines_size_simps [simp]:
  "lines_size [] = 0" "lines_size (l # ls) = nbytes l + 1 + lines_size ls"
  "lines_size (xs @ ys) = lines_size xs + lines_size ys"
  by (simp_all add: lines_size_def)

lemma nbytes_join:
  "ls \<noteq> [] \<Longrightarrow> list_all (list_all is_scalar) ls \<Longrightarrow> nbytes (join_with 10 ls) + 1 = lines_size ls"
proof (induction ls rule: induct_list012)
  case (3 x y zs)
  have "list_all is_scalar (join_with 10 (y # zs))"
    using 3(4) by (intro scalar_join_with) (simp_all add: scalar_ascii)
  with 3 show ?case by (simp add: nbytes_Cons scalar_ascii)
qed simp_all

lemma doc_size_append [simp]: "doc_size (ns @ ms) k = doc_size ns k + doc_size ms k"
  by (simp add: doc_size_def serialize_into_append)

lemma doc_size_Nil [simp]: "doc_size [] k = 0"
  by (simp add: doc_size_def)

definition args_size :: "pyval list \<Rightarrow> nat" where
  "args_size vs = (\<Sum>v\<leftarrow>vs. nbytes (format_value v) + 1)"

lemma nbytes_words:
  "list_all is_scalar n \<Longrightarrow> list_all scalar_val vs \<Longrightarrow>
     nbytes (join_with 32 (n # map format_value vs)) = nbytes n + args_size vs"
proof (induction vs rule: rev_induct)
  case Nil
  show ?case by (simp add: args_size_def)
next
  case (snoc v vs)
  have "list_all (list_all is_scalar) (map format_value vs)"
    using snoc(3) by (auto simp: list_all_iff scalar_format_value [unfolded list_all_iff])
  then have "list_all is_scalar (join_with 32 (n # map format_value vs))"
    using snoc(2) by (intro scalar_join_with) (simp_all add: scalar_ascii)
  moreover have "join_with 32 (n # map format_value (vs @ [v]))
      = join_with 32 (n # map format_value vs) @ 32 # format_value v"
    by (simp add: join_with_Cons)
  ultimately show ?case
    using snoc by (simp add: args_size_def nbytes_Cons scalar_format_value scalar_ascii)
qed

lemma scalar_pad [simp]: "list_all is_scalar (replicate k 32)" "nbytes (replicate k 32) = k"
  by (auto simp: list_all_iff scalar_ascii nbytes_ascii)

lemma doc_size_Cons:
  assumes "list_all is_scalar n" and "list_all scalar_val vs"
  shows "doc_size (Node n vs cs # r) k =
    k + nbytes n + args_size vs + 1 + (if cs \<noteq> [] then doc_size cs (k + 2) + k + 4 else 0) + doc_size r k"
proof -
  have "list_all (list_all is_scalar) (map format_value vs)"
    using assms(2) by (auto simp: list_all_iff scalar_format_value [unfolded list_all_iff])
  then have "list_all is_scalar (join_with 32 (n # map format_value vs))"
    using assms(1) by (intro scalar_join_with) (simp_all add: scalar_ascii)
  then show ?thesis
    using assms by (simp add: doc_size_def Let_def nbytes_words scalar_ascii nbytes_ascii)
qed

lemma nbytes_serialize:
  assumes "texts_ok ns" and "ns \<noteq> []"
  shows "nbytes (serialize ns) + 1 = doc_size ns 0"
proof -
  obtain n vs cs r where "ns = Node n vs cs # r" using assms(2) by (metis list.exhaust node.exhaust)
  then have "serialize_into ns 0 \<noteq> []" by (simp add: Let_def)
  then show ?thesis
    unfolding serialize_def doc_size_def by (intro nbytes_join scalar_lines assms)
qed

section \<open>The estimate\<close>

definition scalar_texts :: "pystr list \<Rightarrow> bool" where
  "scalar_texts ls \<longleftrightarrow> list_all (list_all is_scalar) ls"

definition cost :: "pystr \<Rightarrow> nat" where
  "cost l = nbytes (format_value (PStr l)) + 1"

definition flag_size :: "bool \<Rightarrow> nat" where
  "flag_size b = (if b then 4 else 5)"

definition fixed_size :: "pystr \<Rightarrow> nat" where
  "fixed_size path = 181 + nbytes (format_value (PStr path))"

lemma flag_bytes: "nbytes (format_value (PBool b)) = flag_size b"
  by (simp add: format_value_def flag_size_def nbytes_ascii lit_def)

lemma args_size_lines: "args_size (map PStr ls) = (\<Sum>l\<leftarrow>ls. cost l)"
  by (induction ls) (simp_all add: args_size_def cost_def)

lemma logs_block_size:
  assumes "list_all is_scalar path" and "scalar_texts ls"
  shows "doc_size (block_content (logs_block path ls b)) 0
    = 48 + nbytes (format_value (PStr path)) + flag_size b + (\<Sum>l\<leftarrow>ls. cost l)"
proof -
  have v: "list_all scalar_val (map PStr ls)" using assms(2) by (simp add: scalar_texts_def list_all_iff)
  have "nbytes (lit ''logs'') = 4" "nbytes (lit ''path'') = 4" "nbytes (lit ''truncated'') = 9"
    "nbytes (lit ''lines'') = 5" "nbytes (lit ''status'') = 6"
    "nbytes (format_value (PStr (lit ''ok''))) = 2"
    by (simp_all add: nbytes_ascii lit_def format_value_def is_bare_def bare_start_def bare_char_def is_alpha_def
        is_keyword_def)
  then show ?thesis
    using assms(1) v
    by (simp add: block_content_def logs_block_def doc_size_Cons args_size_lines)
      (simp add: args_size_def flag_bytes)
qed

lemma int_sum_list: "int (\<Sum>x\<leftarrow>xs. f x) = (\<Sum>x\<leftarrow>xs. int (f x))"
  by (induction xs) simp_all

lemma texts_ok_logs:
  assumes "list_all is_scalar path" and "scalar_texts ls"
  shows "texts_ok (block_content (logs_block path ls b))"
proof -
  have "list_all scalar_val (map PStr ls)" using assms(2) by (simp add: scalar_texts_def list_all_iff)
  with assms(1) show ?thesis by (simp add: block_content_def logs_block_def)
qed

lemma logs_block_byte_size_eq:
  assumes "list_all is_scalar path" and "scalar_texts ls"
  shows "logs_block_byte_size path ls b
    = Inr (int (fixed_size path) + int (flag_size b) + (\<Sum>l\<leftarrow>ls. int (cost l)))"
proof -
  let ?pre = "[Node (lit ''v'') [PInt 3] [], Node (lit ''name'') [PStr (lit ''hostname'')] [],
    Node (lit ''timestamp'') [PInt 0] [], Node (lit ''nonce'') [PStr (replicate 32 97)] []]"
  let ?post = "[Node (lit ''auth'') [] [Node (lit ''signature'') [PStr (replicate 43 120)] []]]"
  let ?doc = "?pre @ block_content (logs_block path ls b) @ ?post"
  have word: "format_value (PStr s) = s" if "is_bare s" for s
    using that by (simp add: format_value_def)
  have "is_bare (replicate 32 97)" "is_bare (replicate 43 120)" "is_bare (lit ''hostname'')"
    by (simp_all add: is_bare_def bare_start_def bare_char_def is_alpha_def is_keyword_def lit_def numeral_eq_Suc)
  then have "nbytes (format_value (PStr (replicate 32 97))) = 32"
    "nbytes (format_value (PStr (replicate 43 120))) = 43"
    "nbytes (format_value (PStr (lit ''hostname''))) = 8" "nbytes (format_value (PInt 3)) = 1"
    "nbytes (format_value (PInt 0)) = 1"
    by (simp_all add: word nbytes_ascii lit_def format_value_def int_str_def nat_str_single)
  moreover have "nbytes (lit ''v'') = 1" "nbytes (lit ''name'') = 4" "nbytes (lit ''timestamp'') = 9"
    "nbytes (lit ''nonce'') = 5" "nbytes (lit ''auth'') = 4" "nbytes (lit ''signature'') = 9"
    by (simp_all add: nbytes_ascii lit_def)
  moreover have replicates: "list_all is_scalar (replicate 32 97)" "list_all is_scalar (replicate 43 120)"
    by (simp_all add: list_all_iff scalar_ascii)
  ultimately have "doc_size ?pre 0 = 69" "doc_size ?post 0 = 65"
    by (simp_all add: doc_size_Cons args_size_def)
  then have "doc_size ?doc 0 = fixed_size path + flag_size b + (\<Sum>l\<leftarrow>ls. cost l) + 1"
    unfolding doc_size_append using logs_block_size [OF assms, of b] by (simp add: fixed_size_def)
  moreover have "texts_ok ?doc"
    using texts_ok_logs [OF assms] replicates by simp
  ultimately have "list_all is_scalar (serialize ?doc)"
    "nbytes (serialize ?doc) = fixed_size path + flag_size b + (\<Sum>l\<leftarrow>ls. cost l)"
    using nbytes_serialize [of ?doc] by (auto intro!: scalar_serialize)
  then show ?thesis
    by (simp add: logs_block_byte_size_def Let_def nbytes_encode [where f = int] int_sum_list)
qed

section \<open>The cut\<close>

lemma line_costs_eq: "scalar_texts ls \<Longrightarrow> line_costs ls = Inr (map (\<lambda>l. int (cost l)) ls)"
proof (induction ls)
  case (Cons l ls)
  then have "line_cost l = Inr (int (cost l))"
    by (simp add: line_cost_def scalar_texts_def cost_def scalar_format_value
        nbytes_encode [where f = "\<lambda>n. 1 + int n"])
  with Cons show ?case by (simp add: scalar_texts_def)
qed simp

lemma drop_oldest_spec:
  assumes "flag_change = Inr (flag True - flag False)" and "sz = base + flag tr + sum_list cs"
  shows "\<exists>k \<le> length cs. drop_oldest budget flag_change cs sz tr d = Inr (d + k, tr \<or> 0 < k)
    \<and> (k < length cs \<longrightarrow> base + flag (tr \<or> 0 < k) + sum_list (drop k cs) \<le> budget)
    \<and> (\<forall>j < k. budget < base + flag (tr \<or> 0 < j) + sum_list (drop j cs))"
  using assms(2)
proof (induction cs arbitrary: sz tr d)
  case Nil
  then show ?case by simp
next
  case (Cons c cs)
  show ?case
  proof (cases "sz > budget")
    case False
    then show ?thesis using Cons.prems by (intro exI [of _ 0]) auto
  next
    case True
    define sz' where "sz' = base + flag True + sum_list cs"
    have "drop_oldest budget flag_change (c # cs) sz tr d = drop_oldest budget flag_change cs sz' True (d + 1)"
      using True Cons.prems assms(1) by (cases tr) (simp_all add: sz'_def algebra_simps)
    moreover obtain k where k: "k \<le> length cs"
      "drop_oldest budget flag_change cs sz' True (d + 1) = Inr (d + 1 + k, True \<or> 0 < k)"
      "k < length cs \<longrightarrow> base + flag (True \<or> 0 < k) + sum_list (drop k cs) \<le> budget"
      "\<forall>j < k. budget < base + flag (True \<or> 0 < j) + sum_list (drop j cs)"
      using Cons.IH [OF sz'_def, of "d + 1"] by blast
    moreover have "budget < base + flag (tr \<or> 0 < j) + sum_list (drop j (c # cs))" if "j < Suc k" for j
      using that k(4) True Cons.prems by (cases j) auto
    ultimately show ?thesis by (intro exI [of _ "Suc k"]) auto
  qed
qed

text \<open>The size of the answer after dropping the oldest \<open>k\<close> lines.\<close>

definition cut_size :: "pystr \<Rightarrow> pystr list \<Rightarrow> bool \<Rightarrow> nat \<Rightarrow> int" where
  "cut_size path ls truncated k =
     int (fixed_size path) + int (flag_size (truncated \<or> 0 < k)) + (\<Sum>l\<leftarrow>drop k ls. int (cost l))"

lemma cut_size_estimate:
  "list_all is_scalar path \<Longrightarrow> scalar_texts ls \<Longrightarrow>
     logs_block_byte_size path (drop k ls) (truncated \<or> 0 < k) = Inr (cut_size path ls truncated k)"
  unfolding cut_size_def
  by (rule logs_block_byte_size_eq) (auto simp: scalar_texts_def list_all_iff dest: in_set_dropD)

lemma fit_log_lines_eq:
  assumes "list_all is_scalar path" and "scalar_texts ls"
  obtains k where "k \<le> length ls"
    and "fit_log_lines_to_frame path ls truncated = Inr (drop k ls, truncated \<or> 0 < k)"
    and "k < length ls \<longrightarrow> cut_size path ls truncated k \<le> 64512"
    and "\<forall>j < k. 64512 < cut_size path ls truncated j"
proof -
  have "scalar_texts []" by (simp add: scalar_texts_def)
  note base = logs_block_byte_size_eq [OF assms(1) this]
  let ?cs = "map (\<lambda>l. int (cost l)) ls"
  let ?fl = "\<lambda>b. int (flag_size b)"
  obtain k where "k \<le> length ?cs"
    "drop_oldest (int MAX_FRAME_BYTES - 1024) (Inr (?fl True - ?fl False)) ?cs
       (int (fixed_size path) + ?fl truncated + sum_list ?cs) truncated 0 = Inr (0 + k, truncated \<or> 0 < k)"
    "k < length ?cs \<longrightarrow> int (fixed_size path) + ?fl (truncated \<or> 0 < k) + sum_list (drop k ?cs)
       \<le> int MAX_FRAME_BYTES - 1024"
    "\<forall>j < k. int MAX_FRAME_BYTES - 1024
       < int (fixed_size path) + ?fl (truncated \<or> 0 < j) + sum_list (drop j ?cs)"
    using drop_oldest_spec [of "Inr (?fl True - ?fl False)" ?fl] by blast
  then show thesis
    by (intro that [of k]) (simp_all add: fit_log_lines_to_frame_def line_costs_eq assms(2) base
        cut_size_def drop_map MAX_FRAME_BYTES_def)
qed

section \<open>The signed answer\<close>

text \<open>A text of plain ASCII characters is printed as it is, possibly in quotes.\<close>

definition plain_ascii :: "pystr \<Rightarrow> bool" where
  "plain_ascii s \<longleftrightarrow> (\<forall>c \<in> set s. c < 128 \<and> c \<notin> {92, 34, 10, 9, 13})"

lemma format_plain: "plain_ascii s \<Longrightarrow> nbytes (format_value (PStr s)) \<le> length s + 2"
  by (auto simp: plain_ascii_def format_value_def escape_plain nbytes_ascii)

lemma plain_nonce: "\<forall>b \<in> set random. b < 256 \<Longrightarrow> plain_ascii (make_nonce random)"
  by (auto simp: plain_ascii_def make_nonce_def hex_digit_char_def)

lemma length_nonce: "length (make_nonce random) = 2 * length random"
  by (induction random) (auto simp: make_nonce_def)

lemma b64_char_plain: "b64_char v \<noteq> 92 \<and> b64_char v \<noteq> 34 \<and> b64_char v \<noteq> 10 \<and> b64_char v \<noteq> 9 \<and> b64_char v \<noteq> 13"
  by (auto simp: b64_char_def)

lemma plain_b64: "plain_ascii (b64url bs)"
  by (induction bs rule: b64url.induct) (auto simp: plain_ascii_def b64_char_plain)

lemma length_b64: "length (b64url bs) = 4 * ((length bs + 2) div 3)"
  by (induction bs rule: b64url.induct) (simp_all, presburger)

lemma length_int_str: "\<bar>i\<bar> < 10 ^ 16 \<Longrightarrow> length (int_str i) \<le> 17"
  using nat_str_length_le [of "nat \<bar>i\<bar>" 16] by (cases "i < 0") (simp_all add: int_str_def nat_less_iff)

lemma scalar_plain: "plain_ascii s \<Longrightarrow> list_all is_scalar s"
  by (auto simp: plain_ascii_def list_all_iff scalar_ascii)

lemma protocol_word_sizes:
  "nbytes (lit ''v'') = 1" "nbytes (lit ''id'') = 2" "nbytes (lit ''name'') = 4" "nbytes (lit ''timestamp'') = 9"
  "nbytes (lit ''nonce'') = 5" "nbytes (lit ''auth'') = 4" "nbytes (lit ''signature'') = 9"
  "nbytes (lit ''algorithm'') = 9" "nbytes (lit ''key_id'') = 6" "nbytes (format_value (PInt 3)) = 1"
  by (simp_all add: nbytes_ascii lit_def format_value_def int_str_def nat_str_single)

lemma signature_block_size:
  assumes "plain_ascii sig" and "length sig \<le> 44"
  shows "doc_size [signature_block sig] 0 \<le> 130"
proof -
  have "nbytes (format_value (PStr ALGORITHM)) = 11" "nbytes (format_value (PStr DEFAULT_KEY_ID)) = 28"
    by (simp_all add: ALGORITHM_def DEFAULT_KEY_ID_def format_value_def is_bare_def bare_start_def bare_char_def
        is_alpha_def is_digit_def is_keyword_def nbytes_ascii lit_def)
  then show ?thesis
    using format_plain [OF assms(1)] assms
    by (simp add: signature_block_def doc_size_Cons args_size_def protocol_word_sizes scalar_plain
        ALGORITHM_def DEFAULT_KEY_ID_def)
qed

lemma int_bytes: "\<bar>i\<bar> < 10 ^ 16 \<Longrightarrow> nbytes (format_value (PInt i)) \<le> 17"
proof -
  assume "\<bar>i\<bar> < 10 ^ 16"
  moreover have "\<forall>c \<in> set (int_str i). c < 128" using int_str_chars by (fastforce simp: is_digit_def)
  ultimately show ?thesis using length_int_str [of i] by (simp add: format_value_def nbytes_ascii)
qed

lemma envelope_size:
  assumes "list_all is_scalar hostname" and "nbytes (format_value (PStr hostname)) \<le> 255"
    and "\<forall>i. req_id = Some i \<longrightarrow> list_all is_scalar i \<and> nbytes (format_value (PStr i)) \<le> 255"
    and "\<bar>ts\<bar> < 10 ^ 16" and "length random = NONCE_BYTES" and "\<forall>b \<in> set random. b < 256"
  shows "doc_size (response_nodes [] hostname req_id ts (make_nonce random) 3) 0 \<le> 593"
proof -
  have "nbytes (format_value (PStr (make_nonce random))) \<le> 34"
    using format_plain [OF plain_nonce [OF assms(6)]] assms(5) by (simp add: length_nonce NONCE_BYTES_def)
  moreover note int_bytes [OF assms(4)]
  ultimately show ?thesis
    using assms(1,2,3) scalar_plain [OF plain_nonce [OF assms(6)]]
    by (cases req_id) (auto simp: response_nodes_def opt_node_def doc_size_Cons args_size_def protocol_word_sizes)
qed

text \<open>The size of a signed answer, over the size of its content.\<close>

lemma signed_answer_size:
  assumes "sign_response py content secret hostname req_id ts (make_nonce random) 3 = Inr body"
    and "texts_ok content"
    and "list_all is_scalar hostname" and "nbytes (format_value (PStr hostname)) \<le> 255"
    and "\<forall>i. req_id = Some i \<longrightarrow> list_all is_scalar i \<and> nbytes (format_value (PStr i)) \<le> 255"
    and "\<bar>ts\<bar> < 10 ^ 16" and "length random = NONCE_BYTES" and "\<forall>b \<in> set random. b < 256"
    and "\<forall>key msg. length (hmac_digest py key msg) \<le> 32"
  shows "list_all is_scalar body \<and> length (utf8_bytes body) + 1 \<le> doc_size content 0 + 723"
proof -
  let ?env = "response_nodes [] hostname req_id ts (make_nonce random) 3"
  have nodes: "response_nodes content hostname req_id ts (make_nonce random) 3 = ?env @ content"
    by (simp add: response_nodes_def)
  obtain sig where sig: "auth_node py (?env @ content) secret = Inr (signature_block sig)"
    and body: "body = serialize ((?env @ content) @ [signature_block sig])"
    using assms(1) nodes by (auto simp: sign_response_def Let_def rbind_eq_Inr_iff auth_node_iff split: if_splits)
  obtain msg key where "sig = b64url (hmac_digest py key msg)"
    using sig by (auto simp: auth_node_iff compute_signature_def rbind_eq_Inr_iff signature_block_def)
  moreover have "(length (hmac_digest py key msg) + 2) div 3 \<le> 11"
    using assms(9) [rule_format, of key msg] by simp
  ultimately have sigs: "plain_ascii sig" "length sig \<le> 44" by (simp_all add: plain_b64 length_b64)
  have "texts_ok ?env"
    using assms(3,5) scalar_plain [OF plain_nonce [OF assms(8)]]
    by (cases req_id) (auto simp: response_nodes_def)
  moreover have "texts_ok [signature_block sig]"
    using scalar_plain [OF sigs(1)] by (simp add: signature_block_def ALGORITHM_def DEFAULT_KEY_ID_def)
  ultimately have texts: "texts_ok ((?env @ content) @ [signature_block sig])" using assms(2) by simp
  then have "nbytes body + 1 = doc_size ?env 0 + doc_size content 0 + doc_size [signature_block sig] 0"
    unfolding body by (subst nbytes_serialize) simp_all
  moreover note envelope_size [OF assms(3-8)] signature_block_size [OF sigs]
  ultimately show ?thesis using scalar_serialize [OF texts] by (simp add: nbytes_def body)
qed

section \<open>Properties\<close>

text \<open>
  The one-pass cut of the log lines is the one that serializing the answer again
  after every dropped line finds: it drops the fewest of the oldest lines with which
  the estimated answer is within the budget (all of them if none is enough), and
  the answer is flagged as truncated exactly if it was before or a line was dropped.
\<close>

theorem log_cut_is_the_least:
  assumes "list_all is_scalar path" and "list_all (list_all is_scalar) ls"
  shows "\<exists>k \<le> length ls. fit_log_lines_to_frame path ls truncated = Inr (drop k ls, truncated \<or> 0 < k)
    \<and> (k < length ls \<longrightarrow>
         (\<exists>n. logs_block_byte_size path (drop k ls) (truncated \<or> 0 < k) = Inr n \<and> n \<le> 65536 - 1024))
    \<and> (\<forall>j < k. \<exists>n. logs_block_byte_size path (drop j ls) (truncated \<or> 0 < j) = Inr n \<and> 65536 - 1024 < n)"
proof -
  have s: "scalar_texts ls" using assms(2) by (simp add: scalar_texts_def)
  obtain k where k: "k \<le> length ls"
    "fit_log_lines_to_frame path ls truncated = Inr (drop k ls, truncated \<or> 0 < k)"
    "k < length ls \<longrightarrow> cut_size path ls truncated k \<le> 64512"
    "\<forall>j < k. 64512 < cut_size path ls truncated j"
    by (rule fit_log_lines_eq [OF assms(1) s])
  then show ?thesis
    unfolding cut_size_estimate [OF assms(1) s] by (intro exI [of _ k]) simp
qed

theorem log_cut_is_the_least_witness:
  "\<exists>k \<le> 2. fit_log_lines_to_frame (lit ''agent.log'') [lit ''a'', lit ''b''] False
     = Inr (drop k [lit ''a'', lit ''b''], False \<or> 0 < k)"
proof -
  have "list_all is_scalar (lit ''agent.log'')" "list_all (list_all is_scalar) [lit ''a'', lit ''b'']" by simp_all
  from log_cut_is_the_least [OF this, of False] obtain k where "k \<le> length [lit ''a'', lit ''b'']"
    "fit_log_lines_to_frame (lit ''agent.log'') [lit ''a'', lit ''b''] False
       = Inr (drop k [lit ''a'', lit ''b''], False \<or> 0 < k)"
    by blast
  then show ?thesis by (intro exI [of _ k] conjI) simp_all
qed

text \<open>
  C37. The answer to a log request always fits into a frame: for a 32-byte keyed hash,
  a host name and a request id of ordinary length and the agent's own nonce, the
  signed response built from the lines that were kept is at most 65536 bytes long,
  however many and however long the lines of the log are.
\<close>

theorem log_answer_fits_frame:
  assumes "fit_log_lines_to_frame path ls truncated = Inr (kept, flag)"
    and "sign_response py (block_content (logs_block path kept flag)) secret hostname req_id ts
           (make_nonce random) 3 = Inr body"
    and "list_all is_scalar path" and "list_all (list_all is_scalar) ls"
    and "nbytes (format_value (PStr path)) \<le> 60000"
    and "list_all is_scalar hostname" and "nbytes (format_value (PStr hostname)) \<le> 255"
    and "\<forall>i. req_id = Some i \<longrightarrow> list_all is_scalar i \<and> nbytes (format_value (PStr i)) \<le> 255"
    and "\<bar>ts\<bar> < 10 ^ 16" and "length random = NONCE_BYTES" and "\<forall>b \<in> set random. b < 256"
    and "\<forall>key msg. length (hmac_digest py key msg) = 32"
  shows "length (utf8_bytes body) \<le> MAX_FRAME_BYTES"
proof -
  have s: "scalar_texts ls" using assms(4) by (simp add: scalar_texts_def)
  obtain k where k: "k \<le> length ls" "kept = drop k ls" "flag = (truncated \<or> 0 < k)"
    "k < length ls \<longrightarrow> cut_size path ls truncated k \<le> 64512"
    using fit_log_lines_eq [OF assms(3) s, of truncated] assms(1) by (metis Inr_inject prod.inject)
  have kept: "scalar_texts kept" using s k(2) by (auto simp: scalar_texts_def list_all_iff dest: in_set_dropD)
  let ?content = "block_content (logs_block path kept flag)"
  have "\<forall>key msg. length (hmac_digest py key msg) \<le> 32" using assms(12) by simp
  from signed_answer_size [OF assms(2) texts_ok_logs [OF assms(3) kept] assms(6-11) this]
  have "length (utf8_bytes body) + 1 \<le> doc_size ?content 0 + 723" by blast
  moreover have "int (doc_size ?content 0) \<le> 64512"
  proof (cases "k < length ls")
    case True
    then show ?thesis
      using k(4) logs_block_size [OF assms(3) kept, of flag] unfolding k(2,3)
      by (simp add: cut_size_def fixed_size_def int_sum_list)
  next
    case False
    then have "kept = []" using k(1,2) by simp
    then show ?thesis
      using logs_block_size [OF assms(3) kept, of flag] assms(5) by (simp add: flag_size_def)
  qed
  ultimately show ?thesis by (simp add: MAX_FRAME_BYTES_def)
qed

theorem log_answer_fits_frame_witness:
  "\<exists>body. sign_response \<lparr>hmac_digest = \<lambda>_ _. replicate 32 0, str_repr = \<lambda>s. s, exc_text = \<lambda>_. []\<rparr>
       (block_content (logs_block (lit ''agent.log'') [] False)) (lit ''key'') (lit ''kid'') None 1000
       (make_nonce (replicate 16 7)) 3 = Inr body
     \<and> length (utf8_bytes body) \<le> MAX_FRAME_BYTES"
proof -
  let ?py = "\<lparr>hmac_digest = \<lambda>_ _. replicate 32 0, str_repr = \<lambda>s. s, exc_text = \<lambda>_. []\<rparr> :: python"
  let ?path = "lit ''agent.log''"
  let ?content = "block_content (logs_block ?path [] False)"
  have none: "scalar_texts []" by (simp add: scalar_texts_def)
  have fit: "fit_log_lines_to_frame ?path [] False = Inr ([], False)"
    by (simp add: fit_log_lines_to_frame_def logs_block_byte_size_eq none)
  have r: "\<forall>b \<in> set (replicate 16 (7 :: nat)). b < 256" "length (replicate 16 (7 :: nat)) = NONCE_BYTES"
    by (simp_all add: NONCE_BYTES_def)
  have "texts_ok (response_nodes ?content (lit ''kid'') None 1000 (make_nonce (replicate 16 7)) 3)"
    using texts_ok_logs [OF scalar_lit none] scalar_plain [OF plain_nonce [OF r(1)]]
    by (simp add: response_nodes_def)
  then obtain body where "sign_response ?py ?content (lit ''key'') (lit ''kid'') None 1000
      (make_nonce (replicate 16 7)) 3 = Inr body"
    using auth_node_total [of _ "lit ''key''" ?py]
    by (fastforce simp: sign_response_def SUPPORTED_VERSIONS_def Let_def)
  moreover have "plain_ascii ?path" "plain_ascii (lit ''kid'')" by (auto simp: plain_ascii_def lit_def)
  note format_plain [OF this(1)] format_plain [OF this(2)]
  ultimately show ?thesis
    using log_answer_fits_frame [OF fit _ scalar_lit _ _ scalar_lit _ _ _ r(2) r(1)]
    by fastforce
qed

end
