(* ===== verification/Control_Server.thy ===== *)
theory Control_Server
  imports Dispatcher
begin

text \<open>
  \<open>handle_request\<close> of \<open>src/kid_pc_monitor/remote_control_server.py\<close>: authenticate a
  request text, execute it, and sign the answer. The clock reading the request is
  checked against, the one stamped on the answer and the random bytes of the
  answer's nonce are arguments.
\<close>

section \<open>Handling a request\<close>

text \<open>\<open>exc.req_id or req_id\<close>: an empty id counts as none.\<close>

definition or_id :: "pystr option \<Rightarrow> pystr option \<Rightarrow> pystr option" where
  "or_id a b = (case a of Some i \<Rightarrow> if i \<noteq> [] then a else b | None \<Rightarrow> b)"

text \<open>The content and id of the answer to a request that raised.\<close>

definition error_reply :: "python \<Rightarrow> exn \<Rightarrow> pystr option \<Rightarrow> node list \<times> pystr option" where
  "error_reply py e req_id =
     (case e of
        ProtocolError code msg i \<Rightarrow> (error_content code msg, or_id i req_id)
      | ClosedBeforeFrame code msg i \<Rightarrow> (error_content code msg, or_id i req_id)
      | _ \<Rightarrow> (error_content INTERNAL_ERROR (exc_text py e), req_id))"

definition execute ::
  "'h env \<Rightarrow> request res \<Rightarrow> int \<Rightarrow> ('h, (node list \<times> pystr option) \<times> int) wact" where
  "execute env parsed version =
     (case parsed of
        Inl e \<Rightarrow> ret (error_reply (e_python env) e None, version)
      | Inr req \<Rightarrow>
          try_all
            (bind (dispatch env req) (\<lambda>content. ret ((content, rid req), rversion req)))
            (\<lambda>e. ret (error_reply (e_python env) e (rid req), rversion req)))"

definition handle_request ::
  "'h env \<Rightarrow> pystr \<Rightarrow> pystr \<Rightarrow> int \<Rightarrow> int \<Rightarrow> bytes \<Rightarrow> ('h, pystr) wact" where
  "handle_request env body secret now sent random =
     bind (on_host (p_get_hostname (e_platform env)))
       (\<lambda>hostname. bind (lift (peek_version body))
         (\<lambda>version. bind (execute env (parse_request (e_python env) body secret hostname now) version)
           (\<lambda>r. lift (sign_response (e_python env) (fst (fst r)) secret hostname (snd (fst r)) sent
                  (make_nonce random) (snd r)))))"

section \<open>Facts\<close>

text \<open>The host name is asked for without side effects.\<close>

definition named :: "'h platform \<Rightarrow> pystr \<Rightarrow> bool" where
  "named P n \<longleftrightarrow> (\<forall>h. p_get_hostname P h = (Inr n, h))"

lemma hostname_known:
  "named (e_platform env) n \<Longrightarrow> on_host (p_get_hostname (e_platform env)) w = (Inr n, w)"
  by (simp add: named_def on_host_eq)

lemma handle_request_named:
  assumes "named (e_platform env) n"
  shows "handle_request env body secret now sent random w =
    bind (lift (peek_version body))
      (\<lambda>version. bind (execute env (parse_request (e_python env) body secret n now) version)
        (\<lambda>r. lift (sign_response (e_python env) (fst (fst r)) secret n (snd (fst r)) sent
               (make_nonce random) (snd r)))) w"
  unfolding handle_request_def
  by (rule bind_Inr [where s = w, OF hostname_known [OF assms]])

lemma execute_state:
  "snd (execute env parsed version w)
     = (case parsed of Inl e \<Rightarrow> w | Inr req \<Rightarrow> snd (dispatch env req w))"
  by (auto simp: execute_def try_all_eq bind_def split: sum.split prod.split)

lemma execute_no_error: "\<exists>r. fst (execute env parsed version w) = Inr r"
  by (auto simp: execute_def try_all_eq bind_def split: sum.split prod.split)

lemma execute_eq:
  "execute env parsed version w =
     (Inr (case parsed of
             Inl e \<Rightarrow> (error_reply (e_python env) e None, version)
           | Inr req \<Rightarrow>
               ((case fst (dispatch env req w) of
                   Inl e \<Rightarrow> error_reply (e_python env) e (rid req)
                 | Inr content \<Rightarrow> (content, rid req)), rversion req)),
      case parsed of Inl e \<Rightarrow> w | Inr req \<Rightarrow> snd (dispatch env req w))"
  by (auto simp: execute_def try_all_eq bind_def split: sum.split prod.split)

lemma handle_request_state:
  assumes "named (e_platform env) n" and "peek_version body = Inr v"
  shows "snd (handle_request env body secret now sent random w) =
    (case parse_request (e_python env) body secret n now of
       Inl e \<Rightarrow> w | Inr req \<Rightarrow> snd (dispatch env req w))"
  unfolding handle_request_named [OF assms(1)]
  by (simp add: assms(2) bind_def [of "execute _ _ _"] execute_eq split: sum.split)

lemma peek_version_supported: "peek_version body = Inr v \<Longrightarrow> v = 3"
proof -
  assume p: "peek_version body = Inr v"
  have f: "find P xs = Some x \<Longrightarrow> P x" for P and xs :: "node list" and x
    by (induction xs) (auto split: if_splits)
  show ?thesis
    using p by (auto simp: peek_version_def CLIENT_DEFAULT_VERSION_def SUPPORTED_VERSIONS_def
        split: sum.splits exn.splits option.splits pyval.splits dest!: f)
qed

lemma peek_version_parsed: "parse body = Inr ns \<Longrightarrow> \<exists>v. peek_version body = Inr v"
  by (auto simp: peek_version_def split: option.split pyval.split)

section \<open>Answers the panel can read\<close>

definition clean_texts :: "python \<Rightarrow> pystr \<Rightarrow> pystr \<Rightarrow> bool" where
  "clean_texts py secret hostname \<longleftrightarrow>
     list_all is_scalar secret \<and> list_all is_scalar hostname \<and> (\<forall>e. list_all is_scalar (exc_text py e))"

lemma nonce_scalar: "is_valid_nonce (PStr s) \<Longrightarrow> list_all is_scalar s"
  by (auto simp: is_valid_nonce_def list_all_iff is_hexdigit_def is_digit_def is_scalar_def)

lemma reply_is_readable:
  assumes "content_ok content" and "texts_ok content" and "clean_texts py secret hostname"
    and "pred_option (list_all is_scalar) req_id" and "fresh_stamp sent nonce later"
  shows "\<exists>reply. sign_response py content secret hostname req_id sent nonce 3 = Inr reply
    \<and> parse_response py reply secret (Some hostname) (Some 3) later
        = Inr (response_of content hostname req_id sent nonce 3)"
proof -
  have "texts_ok (response_nodes content hostname req_id sent nonce 3)"
    using assms nonce_scalar [of nonce]
    by (cases req_id) (auto simp: response_nodes_def clean_texts_def fresh_stamp_def)
  moreover have "list_all is_scalar secret" using assms(3) by (simp add: clean_texts_def)
  ultimately obtain sig where "auth_node py (response_nodes content hostname req_id sent nonce 3) secret
      = Inr (signature_block sig)"
    using auth_node_total by blast
  then have "\<exists>reply. sign_response py content secret hostname req_id sent nonce 3 = Inr reply"
    by (simp add: sign_response_def SUPPORTED_VERSIONS_def)
  then show ?thesis using signed_response_parses [OF _ assms(1,5)] by blast
qed

lemma ok_reply_content: "ok_reply c \<Longrightarrow> content_ok c \<and> texts_ok c"
  by (auto simp: ok_reply_def content_ok_def ok_content_def ok_doc_def clean_val_def envelope_names_def
      MAX_NESTING_DEPTH_def)

lemma error_content_ok:
  "list_all is_scalar code \<Longrightarrow> list_all is_scalar msg \<Longrightarrow>
     content_ok (error_content code msg) \<and> texts_ok (error_content code msg)"
  by (simp add: error_content_def content_ok_def ok_doc_def envelope_names_def MAX_NESTING_DEPTH_def)

lemma response_of_ok: "ok_reply c \<Longrightarrow> response_ok (response_of c n i ts nonce 3)"
  by (auto simp: ok_reply_def response_of_def read_response_def Let_def response_ok_def ok_content_def
      by_name_Cons arg_def str_of_def)

lemma response_of_error:
  "\<not> response_ok (response_of (error_content code msg) n i ts nonce 3)
   \<and> response_text (response_of (error_content code msg) n i ts nonce 3) = code @ lit '': '' @ msg"
  by (simp add: response_of_def read_response_def Let_def response_ok_def response_text_def error_content_def
      by_name_Cons arg_def str_of_def child_map_def field_simps')

definition clean_exn :: "exn \<Rightarrow> bool" where
  "clean_exn e \<longleftrightarrow>
     (case e of
        ProtocolError code msg i \<Rightarrow> list_all is_scalar code \<and> list_all is_scalar msg
      | ClosedBeforeFrame code msg i \<Rightarrow> list_all is_scalar code \<and> list_all is_scalar msg
      | _ \<Rightarrow> True)"

lemma error_reply_clean:
  assumes "clean_exn e" and "\<forall>e. list_all is_scalar (exc_text py e)"
  shows "\<exists>code msg. fst (error_reply py e i) = error_content code msg
    \<and> list_all is_scalar code \<and> list_all is_scalar msg"
  using assms
  by (cases e) (auto simp: error_reply_def clean_exn_def INTERNAL_ERROR_def, (metis scalar_lit)+)

lemma or_id_same [simp]: "or_id i i = i"
  by (simp add: or_id_def split: option.split)

text \<open>The errors with which a settings action is refused.\<close>

definition refused_with :: "pystr option \<Rightarrow> exn \<Rightarrow> bool" where
  "refused_with i e \<longleftrightarrow> e = ValueError \<or> (\<exists>code msg. e = ProtocolError code msg i \<and> clean_exn e)"

lemma refused_with_protocol:
  "refused_with i (ProtocolError (lit code) msg i) \<longleftrightarrow> list_all is_scalar msg"
  by (simp add: refused_with_def clean_exn_def)

lemma int_of_dec_only: "int_of_dec s = Inl e \<Longrightarrow> e = ValueError"
  by (auto simp: int_of_dec_def Let_def split: if_splits prod.splits)

lemma parse_int_refused: "parse_int raw i = Inl e \<Longrightarrow> refused_with i e"
  by (auto simp: parse_int_def rbind_eq_Inl_iff INVALID_VALUE_def refused_with_protocol
      split: pyval.splits if_splits option.splits dest!: int_of_dec_only)
    (simp_all add: refused_with_def)

lemma parse_hhmm_refused: "parse_hhmm raw i = Inl e \<Longrightarrow> refused_with i e"
  by (auto simp: parse_hhmm_def INVALID_VALUE_def refused_with_protocol value_error_as_def is_scalar_def
      refused_with_def clean_exn_def parse_time_hhmm_def Let_def
      split: pyval.splits sum.splits option.splits if_splits)

lemma parse_bool_refused: "parse_bool raw i = Inl e \<Longrightarrow> refused_with i e"
  by (auto simp: parse_bool_def Let_def INVALID_VALUE_def refused_with_protocol split: pyval.splits if_splits)

lemma minutes_refused: "minutes_of req = Inl e \<Longrightarrow> refused_with (rid req) e"
  by (auto simp: minutes_of_def rbind_eq_Inl_iff check_minutes_def guard_eq_Inl_iff INVALID_VALUE_def
      refused_with_protocol dest: parse_int_refused)

lemma command_refused:
  assumes "command_of req = Inl e" and "pred_option (list_all is_scalar) (rvar req)"
  shows "refused_with (rid req) e"
proof -
  have "list_all is_scalar (opt_text (rvar req))" using assms(2) by (cases "rvar req") (simp_all add: opt_text_def)
  then show ?thesis
    using assms(1)
    by (auto simp: command_of_def set_command_def rbind_eq_Inl_iff refusal_def FORBIDDEN_def refused_with_protocol
        split: if_splits dest: minutes_refused parse_hhmm_refused parse_bool_refused)
qed

lemma error_reply_refused: "refused_with i e \<Longrightarrow> snd (error_reply py e i) = i \<and> clean_exn e"
  by (auto simp: refused_with_def error_reply_def clean_exn_def)

text \<open>A settings request, from the accepted record to the answer the panel reads.\<close>

lemma settings_request_answered:
  assumes "named (e_platform env) n" and "peek_version body = Inr v"
    and "parse_request (e_python env) body secret n now = Inr req"
    and "raction req \<in> set settings_actions" and "rversion req = 3"
    and "clean_texts (e_python env) secret n" and "pred_option (list_all is_scalar) (rid req)"
    and "pred_option (list_all is_scalar) (rvar req)"
    and "fresh_stamp sent (make_nonce random) later"
    and "prev_day (date_of (w_clock w)) = Inr y" and "valid_date (date_of (w_clock w))"
    and "\<not> w_state_load_failed w"
  shows "\<exists>reply w' resp. handle_request env body secret now sent random w = (Inr reply, w')
    \<and> parse_response (e_python env) reply secret (Some n) (Some 3) later = Inr resp \<and> sid resp = rid req
    \<and> (case command_of req of
          Inl e \<Rightarrow> w' = w \<and> \<not> response_ok resp
        | Inr c \<Rightarrow> parental_of w' = obey (w_clock w) c (parental_of w) \<and> save_tried w w' \<and> response_ok resp)"
proof -
  let ?d = "dispatch env req w"
  let ?reply = "case fst ?d of Inl e \<Rightarrow> error_reply (e_python env) e (rid req) | Inr content \<Rightarrow> (content, rid req)"
  have handled: "handle_request env body secret now sent random w
      = (sign_response (e_python env) (fst ?reply) secret n (snd ?reply) sent (make_nonce random) 3, snd ?d)"
    unfolding handle_request_named [OF assms(1)]
    by (simp add: assms(2,3,5) bind_def [of "execute _ _ _"] execute_eq)
  have run: "executes (dispatch env req) (command_of req) w"
    by (rule dispatch_executes [OF assms(10,11,12,4)])
  show ?thesis
  proof (cases "command_of req")
    case (Inl e)
    then have d: "?d = (Inl e, w)" using run by (simp add: executes_def)
    have r: "refused_with (rid req) e" by (rule command_refused [OF Inl assms(8)])
    obtain code msg where c: "fst (error_reply (e_python env) e (rid req)) = error_content code msg"
      "list_all is_scalar code" "list_all is_scalar msg"
      using error_reply_clean error_reply_refused [OF r] assms(6) by (metis clean_texts_def)
    obtain reply where reply: "sign_response (e_python env) (error_content code msg) secret n (rid req) sent
        (make_nonce random) 3 = Inr reply"
      "parse_response (e_python env) reply secret (Some n) (Some 3) later
        = Inr (response_of (error_content code msg) n (rid req) sent (make_nonce random) 3)"
      using reply_is_readable [OF _ _ assms(6,7,9)] error_content_ok [OF c(2,3)] by blast
    have "handle_request env body secret now sent random w = (Inr reply, w)"
      using handled d c(1) reply(1) error_reply_refused [OF r, of "e_python env"] by simp
    moreover have "sid (response_of (error_content code msg) n (rid req) sent (make_nonce random) 3) = rid req"
      by (simp add: response_of_def)
    ultimately show ?thesis unfolding Inl sum.case using reply(2) response_of_error by blast
  next
    case (Inr c)
    then obtain content w' where d: "?d = (Inr content, w')"
      "parental_of w' = obey (w_clock w) c (parental_of w)" "save_tried w w'"
      using run by (auto simp: executes_def)
    have ok: "ok_reply content" by (rule outcome_Inr [OF settings_reply [OF assms(4)] d(1)])
    obtain reply where reply: "sign_response (e_python env) content secret n (rid req) sent
        (make_nonce random) 3 = Inr reply"
      "parse_response (e_python env) reply secret (Some n) (Some 3) later
        = Inr (response_of content n (rid req) sent (make_nonce random) 3)"
      using reply_is_readable [OF _ _ assms(6,7,9)] ok_reply_content [OF ok] by blast
    have "handle_request env body secret now sent random w = (Inr reply, w')"
      using handled d(1) reply(1) by simp
    moreover have "sid (response_of content n (rid req) sent (make_nonce random) 3) = rid req"
      by (simp add: response_of_def)
    ultimately show ?thesis unfolding Inr sum.case using reply(2) d(2,3) response_of_ok [OF ok] by blast
  qed
qed

section \<open>A request on its way\<close>

text \<open>The record the agent reads from the fields \<open>build_request\<close> was given.\<close>

definition sent_request ::
  "pystr \<Rightarrow> pystr option \<Rightarrow> pyval option \<Rightarrow> pystr option \<Rightarrow> pystr option \<Rightarrow> int \<Rightarrow> pystr \<Rightarrow> int option \<Rightarrow> request" where
  "sent_request action var val req_id name ts nonce tail =
     \<lparr>rversion = 3, rid = req_id, raction = action, rvar = var, rval = val_or_none val, rname = name,
      rtimestamp = PInt ts, rnonce = PStr nonce, rtail = tail\<rparr>"

lemma sent_request_simps [simp]:
  "rversion (sent_request a v x i n ts nonce tail) = 3" "rid (sent_request a v x i n ts nonce tail) = i"
  "raction (sent_request a v x i n ts nonce tail) = a" "rvar (sent_request a v x i n ts nonce tail) = v"
  "rval (sent_request a v x i n ts nonce tail) = val_or_none x"
  by (simp_all add: sent_request_def)

lemma sent_request_answered:
  assumes "build_request (e_python env) secret action var val req_id name ts nonce 3 tail = Inr body"
    and "sendable n action var val name tail" and "fresh_stamp ts nonce now"
    and "named (e_platform env) n" and "action \<in> set settings_actions"
    and "clean_texts (e_python env) secret n" and "pred_option (list_all is_scalar) req_id"
    and "pred_option (list_all is_scalar) var" and "fresh_stamp sent (make_nonce random) later"
    and "prev_day (date_of (w_clock w)) = Inr y" and "valid_date (date_of (w_clock w))"
    and "\<not> w_state_load_failed w"
  shows "\<exists>reply w' resp. handle_request env body secret now sent random w = (Inr reply, w')
    \<and> parse_response (e_python env) reply secret (Some n) (Some 3) later = Inr resp \<and> sid resp = req_id
    \<and> (case command_of (sent_request action var val req_id name ts nonce tail) of
          Inl e \<Rightarrow> w' = w \<and> \<not> response_ok resp
        | Inr c \<Rightarrow> parental_of w' = obey (w_clock w) c (parental_of w) \<and> save_tried w w' \<and> response_ok resp)"
proof -
  let ?req = "sent_request action var val req_id name ts nonce tail"
  have p: "parse_request (e_python env) body secret n now = Inr ?req"
    using built_request_parses [OF assms(1-3)] by (simp add: sent_request_def)
  obtain v where "peek_version body = Inr v"
    using accepted_authentic [OF p] peek_version_parsed by blast
  from settings_request_answered [OF assms(4) this p _ _ assms(6) _ _ assms(9-12)] show ?thesis
    using assms(5,7,8) by simp
qed

section \<open>A text that is no code point\<close>

text \<open>\<open>v "\u{ffffffff}"\<close>: a node whose argument is an escape above every code point.\<close>

definition escaping_text :: pystr where
  "escaping_text = [118, 32, 34, 92, 117, 123, 102, 102, 102, 102, 102, 102, 102, 102, 125, 34]"

lemma overflowing_escape:
  "unescape [117, 123, 102, 102, 102, 102, 102, 102, 102, 102, 125, 34] = Inl OverflowError"
proof -
  have "map ascii_decimal [102, 102, 102, 102, 102, 102, 102, 102] = [102, 102, 102, 102, 102, 102, 102, 102]"
    by (simp add: ascii_decimal_def decimal_zeros_def)
  moreover have "strip [102, 102, 102, 102, 102, 102, 102, 102] = [102, 102, 102, 102, 102, 102, 102, 102]"
    by (simp add: strip_def is_space_def)
  ultimately have "int_of_hex [102, 102, 102, 102, 102, 102, 102, 102] = Inr 4294967295"
    by (simp add: int_of_hex_def sign_split_def hex_prefix_drop_def hex_val_def)
  then show ?thesis by (simp add: unescape_def chr_of_def value_error_as_def)
qed

lemma escaping_text_fails: "peek_version escaping_text = Inl OverflowError"
  by (simp add: peek_version_def parse_def escaping_text_def overflowing_escape is_delim_def parse_bare_def
      lit_def is_int_word_def sign_split_def is_digit_def)

section \<open>A request for examples\<close>

text \<open>Thirty more minutes for the computer \<open>kid\<close>, sent at 1000 and read at 1030.\<close>

definition extend_request :: "pystr res" where
  "extend_request = build_request (e_python sample_env) (lit ''key'') (lit ''extend'') None (Some (PInt 30)) None
     (Some (lit ''kid'')) 1000 sample_nonce 3 None"

definition sample_random :: bytes where
  "sample_random = [1, 2, 3, 4, 5, 6, 7, 8, 9, 10, 11, 12, 13, 14, 15, 16]"

lemma extend_request_built: "\<exists>body. extend_request = Inr body"
  unfolding extend_request_def by (rule build_request_total) (simp_all add: request_nodes_def sample_nonce_def)

lemma extend_sendable: "sendable (lit ''kid'') (lit ''extend'') None (Some (PInt 30)) (Some (lit ''kid'')) None"
  by (simp add: sendable_def ACTIONS_def WRITE_ACTIONS_def ok_val_def)

lemma extend_is_settings: "lit ''extend'' \<in> set settings_actions"
  by (simp add: settings_actions_def)

lemma sample_reply_stamp: "fresh_stamp 1030 (make_nonce sample_random) 1031"
proof -
  have "is_valid_nonce (PStr (make_nonce sample_random))"
    by (simp add: is_valid_nonce_def make_nonce_def sample_random_def hex_digit_char_def is_hexdigit_def is_digit_def
        NONCE_MIN_HEX_CHARS_def NONCE_BYTES_def)
  then show ?thesis by (simp add: fresh_stamp_def ok_val_def timestamp_in_window_def TIMESTAMP_WINDOW_SECONDS_def)
qed

lemma sample_named: "named (e_platform sample_env) (lit ''kid'')"
  by (simp add: named_def sample_env_def sample_platform_def ret_def)

lemma sample_clean: "clean_texts (e_python sample_env) (lit ''key'') (lit ''kid'')"
  by (simp add: clean_texts_def sample_env_def)

lemma extend_command:
  "command_of (sent_request (lit ''extend'') None (Some (PInt 30)) i n ts nonce t) = Inr (Extend_by 30)"
  by (simp add: command_of_def val_or_none_def minutes_of_def parse_int_def MAX_PARSED_INT_def
      check_minutes_def MIN_DAILY_LIMIT_def MAX_DAILY_LIMIT_def)

lemma extend_answered:
  "extend_request = Inr body \<Longrightarrow>
     \<exists>reply w'. handle_request sample_env body (lit ''key'') 1030 1030 sample_random sample_world = (Inr reply, w')
       \<and> par_extension (parental_of w') = 1800"
  using sent_request_answered [OF _ extend_sendable sample_stamp sample_named extend_is_settings sample_clean,
      where req_id = None and random = sample_random and sent = 1030 and later = 1031 and w = sample_world]
    sample_reply_stamp sample_clock
  by (fastforce simp: extend_request_def extend_command parental_of_def sample_world_def)

section \<open>Properties\<close>

text \<open>
  C4. Only signed requests act: if handling a text changes anything at all, the text
  carries the MAC, under the agent's secret, of its other fields, a timestamp within
  60 seconds of the clock, and no other agent's name. Any other text, answered or
  not, leaves the agent, its files and its host exactly as they were.
\<close>

theorem only_signed_requests_act:
  assumes "named (e_platform env) n"
    and "handle_request env body secret now sent random w = (r, w')" and "w' \<noteq> w"
  shows "\<exists>nodes auth rest key ts. parse body = Inr nodes \<and> split_auth nodes = (Some auth, rest)
    \<and> derive_key secret = Inr key
    \<and> compute_signature (e_python env) key (serialize rest)
        = Inr (str_of (field (child_map auth) (lit ''signature'')))
    \<and> field (fields_of rest) (lit ''timestamp'') = PInt ts \<and> \<bar>now - ts\<bar> \<le> 60
    \<and> opt_str (field (fields_of rest) (lit ''name'')) \<in> {None, Some n}"
proof -
  have w': "w' = snd (handle_request env body secret now sent random w)" using assms(2) by simp
  obtain v where v: "peek_version body = Inr v"
    using assms(3) unfolding w' handle_request_named [OF assms(1)] by (cases "peek_version body") auto
  obtain req where req: "parse_request (e_python env) body secret n now = Inr req"
    using assms(3) unfolding w' handle_request_state [OF assms(1) v] by (auto split: sum.splits)
  have "rname req \<in> {None, Some n}"
    using req by (auto simp: parse_request_def Let_def rbind_eq_Inr_iff check_destination_def
        split: sum.splits exn.splits if_splits)
  with accepted_authentic [OF req] show ?thesis by metis
qed

theorem only_signed_requests_act_witness:
  "\<exists>body nodes auth rest. extend_request = Inr body \<and> parse body = Inr nodes
     \<and> split_auth nodes = (Some auth, rest)"
proof -
  obtain body where b: "extend_request = Inr body" using extend_request_built ..
  then obtain reply w' where h:
    "handle_request sample_env body (lit ''key'') 1030 1030 sample_random sample_world = (Inr reply, w')"
    "par_extension (parental_of w') = 1800" using extend_answered by blast
  have "w' \<noteq> sample_world" using h(2) by (auto simp: parental_of_def sample_world_def)
  from only_signed_requests_act [OF sample_named h(1) this] b show ?thesis by blast
qed

text \<open>
  The handler does raise, against its promise to answer whatever happens: an
  unsigned text with an escape beyond the range of \<open>chr\<close> makes the version peek,
  which stands outside the handler's \<open>try\<close>, fail with an OverflowError.
\<close>

theorem unsigned_text_escapes_the_handler:
  assumes "named (e_platform env) n"
  shows "handle_request env escaping_text secret now sent random w = (Inl OverflowError, w)"
  unfolding handle_request_named [OF assms] by (simp add: escaping_text_fails)

theorem unsigned_text_escapes_the_handler_witness:
  "handle_request sample_env escaping_text (lit ''key'') 0 0 [] sample_world = (Inl OverflowError, sample_world)"
  by (rule unsigned_text_escapes_the_handler [OF sample_named])

end
