(* ===== verification/Panel_Data.thy ===== *)
theory Panel_Data
  imports Protocol Agent_State "HOL-Library.AList"
begin

text \<open>
  What the modules of the parent's panel share: Python dicts as JSON objects that are
  changed in place, the truth value and \<open>int()\<close> of a JSON value, \<open>int()\<close> of a text, and
  floats out of range. A dict keeps the order in which its keys were first inserted, as
  \<open>AList.update\<close> does.
\<close>

section \<open>Dicts\<close>

definition jset :: "jdict \<Rightarrow> string \<Rightarrow> json \<Rightarrow> jdict" where
  "jset d k v = AList.update (lit k) v d"

definition jpop :: "jdict \<Rightarrow> string \<Rightarrow> jdict" where
  "jpop d k = AList.delete (lit k) d"

text \<open>
  \<open>{**a, **b}\<close> and \<open>d.get(key, default)\<close>. A dict has each key once; of a list that repeats
  one, the entry a lookup finds counts.
\<close>

definition jmerge :: "jdict \<Rightarrow> jdict \<Rightarrow> jdict" where
  "jmerge a b = fold (\<lambda>p d. AList.update (fst p) (snd p) d) (AList.clearjunk b) a"

definition jget_or :: "jdict \<Rightarrow> string \<Rightarrow> json \<Rightarrow> json" where
  "jget_or d k v = (if jhas d k then jget d k else v)"

named_theorems dict_simps "looking up in changed dicts"

lemma jget_jset [simp, dict_simps]: "jget (jset d k v) k' = (if k' = k then v else jget d k')"
  by (auto simp: jget_def jset_def update_conv')

lemma jhas_jset [simp, dict_simps]: "jhas (jset d k v) k' \<longleftrightarrow> k' = k \<or> jhas d k'"
  by (auto simp: jhas_def jset_def update_conv')

lemma jget_jpop [simp, dict_simps]: "jget (jpop d k) k' = (if k' = k then JNull else jget d k')"
  by (auto simp: jget_def jpop_def delete_conv')

lemma jhas_jpop [simp, dict_simps]: "jhas (jpop d k) k' \<longleftrightarrow> k' \<noteq> k \<and> jhas d k'"
  by (auto simp: jhas_def jpop_def delete_conv')

lemma jget_or_jset [simp, dict_simps]:
  "jget_or (jset d k v) k' w = (if k' = k then v else jget_or d k' w)"
  by (simp add: jget_or_def)

lemma jget_Cons [dict_simps]: "jget ((lit k, v) # d) k' = (if k' = k then v else jget d k')"
  by (auto simp: jget_def)

lemma jhas_Cons [dict_simps]: "jhas ((lit k, v) # d) k' \<longleftrightarrow> k' = k \<or> jhas d k'"
  by (auto simp: jhas_def)

lemma jget_Nil [simp, dict_simps]: "jget [] k = JNull"
  by (simp add: jget_def)

lemma jhas_Nil [simp, dict_simps]: "\<not> jhas [] k"
  by (simp add: jhas_def)

lemma map_of_fold_update:
  "map_of (fold (\<lambda>p d. AList.update (fst p) (snd p) d) b a) = map_of a ++ map_of (rev b)"
  by (induction b arbitrary: a) (auto simp: update_conv' fun_eq_iff map_add_def split: option.split)

lemma map_of_jmerge: "map_of (jmerge a b) = map_of a ++ map_of b"
proof -
  have "map_of (rev (AList.clearjunk b)) = map_of (AList.clearjunk b)"
    by (subst map_of_inject_set) (simp_all add: distinct_clearjunk rev_map [symmetric])
  then show ?thesis by (simp add: jmerge_def map_of_fold_update map_of_clearjunk)
qed

lemma jget_jmerge [simp, dict_simps]: "jget (jmerge a b) k = (if jhas b k then jget b k else jget a k)"
  by (auto simp: jget_def jhas_def map_of_jmerge map_add_def split: option.splits)

lemma jhas_jmerge [simp, dict_simps]: "jhas (jmerge a b) k \<longleftrightarrow> jhas b k \<or> jhas a k"
  by (auto simp: jhas_def map_of_jmerge)

section \<open>Values\<close>

definition jtruthy :: "json \<Rightarrow> bool" where
  "jtruthy v \<longleftrightarrow>
     (case v of
        JNull \<Rightarrow> False
      | JBool b \<Rightarrow> b
      | JInt i \<Rightarrow> i \<noteq> 0
      | JFloat x \<Rightarrow> x \<noteq> Fin 0
      | JStr s \<Rightarrow> s \<noteq> []
      | JList xs \<Rightarrow> xs \<noteq> []
      | JObj d \<Rightarrow> d \<noteq> [])"

lemma jtruthy_simps [simp]:
  "\<not> jtruthy JNull" "jtruthy (JBool b) \<longleftrightarrow> b" "jtruthy (JInt i) \<longleftrightarrow> i \<noteq> 0"
  "jtruthy (JStr s) \<longleftrightarrow> s \<noteq> []"
  by (simp_all add: jtruthy_def)

text \<open>A value of the protocol as a JSON value, and \<open>a or b\<close>.\<close>

definition json_of :: "pyval \<Rightarrow> json" where
  "json_of v = (case v of PNone \<Rightarrow> JNull | PBool b \<Rightarrow> JBool b | PInt i \<Rightarrow> JInt i | PStr s \<Rightarrow> JStr s)"

lemma json_of_simps [simp]:
  "json_of PNone = JNull" "json_of (PBool b) = JBool b" "json_of (PInt i) = JInt i" "json_of (PStr s) = JStr s"
  by (simp_all add: json_of_def)

definition val_or :: "pyval \<Rightarrow> pyval \<Rightarrow> pyval" where
  "val_or a b = (if truthy a then a else b)"

definition json_or :: "json \<Rightarrow> json \<Rightarrow> json" where
  "json_or a b = (if jtruthy a then a else b)"

text \<open>
  \<open>int(text)\<close>: the digits of any script, blanks around, a sign, and single underscores
  between digits; at most \<open>max_str_digits\<close> digits.
\<close>

fun dec_digits :: "nat \<Rightarrow> pystr \<Rightarrow> nat option" where
  "dec_digits a [] = Some a"
| "dec_digits a (c # cs) =
     (if c = 95 then
        (case cs of
           [] \<Rightarrow> None
         | d # ds \<Rightarrow> if is_digit d then dec_digits (10 * a + (d - 48)) ds else None)
      else if is_digit c then dec_digits (10 * a + (c - 48)) cs else None)"

definition int_of_text :: "pystr \<Rightarrow> int res" where
  "int_of_text s =
     (case sign_split (strip (map ascii_decimal s)) of (neg, ds) \<Rightarrow>
        (case ds of
           [] \<Rightarrow> Inl ValueError
         | c # _ \<Rightarrow>
             if c = 95 \<or> length (filter is_digit ds) > max_str_digits then Inl ValueError
             else (case dec_digits 0 ds of
                     None \<Rightarrow> Inl ValueError
                   | Some v \<Rightarrow> Inr (if neg then - int v else int v))))"

definition py_int :: "json \<Rightarrow> int res" where
  "py_int v =
     (case v of
        JBool b \<Rightarrow> Inr (if b then 1 else 0)
      | JInt i \<Rightarrow> Inr i
      | JFloat (Fin r) \<Rightarrow> Inr (trunc_rat r)
      | JFloat (Infinite _) \<Rightarrow> Inl OverflowError
      | JFloat NaN \<Rightarrow> Inl ValueError
      | JStr s \<Rightarrow> int_of_text s
      | _ \<Rightarrow> Inl TypeError)"

lemma py_int_simps [simp]: "py_int (JInt i) = Inr i" "py_int (JBool b) = Inr (if b then 1 else 0)"
  by (simp_all add: py_int_def)

text \<open>\<open>float(i)\<close> and the quotient of two ints: OverflowError beyond the greatest double.\<close>

definition to_float :: "rat \<Rightarrow> rat res" where
  "to_float r = (if float_limit \<le> \<bar>r\<bar> then Inl OverflowError else Inr r)"

definition float_sum :: "rat \<Rightarrow> rat \<Rightarrow> pyfloat" where
  "float_sum a b = (if float_limit \<le> \<bar>a + b\<bar> then Infinite (0 < a + b) else Fin (a + b))"

lemma float_limit_large: "(10::rat) ^ 300 \<le> float_limit"
  by (simp add: float_limit_def)

end
