(* ===== verification/Remote_Client.thy ===== *)
theory Remote_Client
  imports Panel_Data Framing Effects
begin

text \<open>
  \<open>src/kid_pc_monitor/remote_client.py\<close>: the panel's side of an exchange with an agent,
  the request a button of the panel stands for, the shape in which the panel keeps an
  agent's settings, and the texts shown when an agent cannot be reached. A connection is
  whatever can take the bytes of a frame and give the body of the next one.
\<close>

section \<open>Exchanges\<close>

text \<open>
  A connection, and what one request takes from outside: the time it is stamped with, the
  random bytes of its nonce and id, and the time at which the answer is checked.
\<close>

record 's link =
  l_send :: "bytes \<Rightarrow> ('s, unit) act"
  l_read :: "('s, pystr) act"

record moment =
  m_sent :: int
  m_nonce :: bytes
  m_id :: bytes
  m_read :: int

text \<open>Send a request body, read the next frame, check the answer.\<close>

definition ask ::
  "python \<Rightarrow> 's link \<Rightarrow> pystr \<Rightarrow> pystr \<Rightarrow> pystr option \<Rightarrow> int option \<Rightarrow> int \<Rightarrow> ('s, response) act" where
  "ask py link secret body expected_name expected_version now =
     bind (lift (encode_frame body))
       (\<lambda>frame. bind (l_send link frame)
         (\<lambda>_. bind (l_read link)
           (\<lambda>answer. lift (parse_response py answer secret expected_name expected_version now))))"

definition discover_name :: "python \<Rightarrow> 's link \<Rightarrow> pystr \<Rightarrow> moment \<Rightarrow> ('s, pystr) act" where
  "discover_name py link secret m =
     bind (lift (build_request py secret (lit ''get'') (Some (lit ''name'')) None (Some (make_nonce (m_id m)))
              None (m_sent m) (make_nonce (m_nonce m)) CLIENT_DEFAULT_VERSION None))
       (\<lambda>body. bind (ask py link secret body None None (m_read m))
         (\<lambda>resp. case sname resp of
            None \<Rightarrow> raising (ProtocolError AUTHENTICATION_FAILED (lit ''could not discover the agent's name'') None)
          | Some n \<Rightarrow>
              if \<not> response_ok resp \<or> n = []
              then raising (ProtocolError AUTHENTICATION_FAILED (lit ''could not discover the agent's name'') None)
              else ret n))"

definition exchange_on_socket ::
  "python \<Rightarrow> 's link \<Rightarrow> pystr \<Rightarrow> pystr option \<Rightarrow> pyval option \<Rightarrow> pystr option \<Rightarrow> int \<Rightarrow> int option \<Rightarrow>
   pystr \<Rightarrow> moment \<Rightarrow> moment \<Rightarrow> ('s, response) act" where
  "exchange_on_socket py link action var val name version tail secret m1 m2 =
     bind (if name = None \<and> action \<in> set WRITE_ACTIONS
           then bind (discover_name py link secret m1) (\<lambda>n. ret (Some n)) else ret name)
       (\<lambda>name. bind (lift (build_request py secret action var val (Some (make_nonce (m_id m2))) name
                        (m_sent m2) (make_nonce (m_nonce m2)) version tail))
         (\<lambda>body. ask py link secret body name (Some version) (m_read m2)))"

section \<open>Texts for failures\<close>

text \<open>\<open>text.rfind(w)\<close>: the last position of \<open>w\<close>.\<close>

definition rfind :: "pystr \<Rightarrow> pystr \<Rightarrow> nat option" where
  "rfind w s = List.find (\<lambda>i. take (length w) (drop i s) = w) (rev [0..<Suc (length s)])"

definition detail_after :: "pystr \<Rightarrow> nat \<Rightarrow> pystr" where
  "detail_after s i = strip (drop (i + 2) s)"

lemma rfind_Some: "rfind w s = Some i \<Longrightarrow> i \<le> length s \<and> take (length w) (drop i s) = w"
  unfolding rfind_def by (auto simp: find_Some_iff rev_nth simp del: upt_Suc)

lemma length_strip: "length (strip s) \<le> length s"
proof -
  have "length (dropWhile is_space (rev (dropWhile is_space s))) \<le> length (rev (dropWhile is_space s))"
    by (rule length_dropWhile_le)
  also have "\<dots> \<le> length s" by (simp add: length_dropWhile_le)
  finally show ?thesis by (simp add: strip_def)
qed

lemma detail_shorter:
  assumes "rfind (lit '': '') (strip s) = Some i"
  shows "length (detail_after (strip s) i) < length s"
proof -
  have "take 2 (drop i (strip s)) = lit '': ''" using rfind_Some [OF assms] by (simp add: numeral_2_eq_2)
  then have "length (drop i (strip s)) \<ge> 2"
    by (metis length_lit length_take list.size(3,4) min.cobounded1 numeral_2_eq_2 add.right_neutral add_Suc_right)
  then have "length (drop (i + 2) (strip s)) < length (strip s)" by simp
  then show ?thesis
    using length_strip [of s] length_strip [of "drop (i + 2) (strip s)"] by (simp add: detail_after_def)
qed

text \<open>The function recurses on the part after the last colon, which is shorter.\<close>

function format_agent_connection_error :: "pystr \<Rightarrow> pystr" where
  "format_agent_connection_error message =
     (let txt = strip message; low = lower txt in
      if occurs_in (lit ''timestamp outside allowed window'') low \<or> occurs_in (lit ''stale_timestamp'') low
      then lit ''This PC's clock is out of sync (common after sleep or pausing a VM). ''
           @ lit ''Correct the date and time on that computer, then try again.''
      else if occurs_in (lit ''no shared secret is configured'') low
      then lit ''No shared secret is configured on this computer. ''
           @ lit ''Re-run the installer on the kid PC and web panel host.''
      else if occurs_in (lit ''authentication_failed'') low \<or> occurs_in (lit ''signature did not verify'') low
      then lit ''Authentication failed '' @ [8212] @ lit '' the shared secret on this panel may not match ''
           @ lit ''the kid PC. Re-run the installers with the same secret.''
      else
        case rfind (lit '': '') txt of
          Some i \<Rightarrow>
            if occurs_in (lit ''cannot reach agent at'') low \<and> detail_after txt i \<noteq> []
               \<and> lower (detail_after txt i) \<noteq> low
            then format_agent_connection_error (detail_after txt i)
            else if txt \<noteq> [] then txt else lit ''Could not communicate with the agent.''
        | None \<Rightarrow> if txt \<noteq> [] then txt else lit ''Could not communicate with the agent.'')"
  by pat_completeness auto
termination
  by (relation "measure length") (auto intro: detail_shorter)

text \<open>
  What the panel asks of an exception: its text, the \<open>errno\<close> of it and of its cause when
  they are OSErrors, and the \<open>errno\<close> table of the platform.
\<close>

record failure =
  f_text :: pystr
  f_errno :: "int option"
  f_cause_errno :: "int option"

type_synonym errno_table = "string \<Rightarrow> int option"

definition has_errno :: "failure \<Rightarrow> int set \<Rightarrow> bool" where
  "has_errno f ns \<longleftrightarrow> (\<exists>n \<in> ns. f_errno f = Some n \<or> f_cause_errno f = Some n)"

definition known_errnos :: "errno_table \<Rightarrow> string list \<Rightarrow> int set" where
  "known_errnos errno names = set (List.map_filter errno names)"

definition is_offline_connection_error :: "errno_table \<Rightarrow> failure \<Rightarrow> bool" where
  "is_offline_connection_error errno f \<longleftrightarrow>
     has_errno f (insert 113 (known_errnos errno [''EHOSTUNREACH'', ''EHOSTDOWN'', ''ENETUNREACH'']))
     \<or> occurs_in (lit ''no route to host'') (lower (f_text f))
     \<or> occurs_in (lit ''[errno 113]'') (lower (f_text f))"

definition is_agent_not_running_error :: "errno_table \<Rightarrow> failure \<Rightarrow> bool" where
  "is_agent_not_running_error errno f \<longleftrightarrow>
     has_errno f ({111, 10061} \<union> known_errnos errno [''ECONNREFUSED''])
     \<or> occurs_in (lit ''connection refused'') (lower (f_text f))
     \<or> occurs_in (lit ''[errno 111]'') (lower (f_text f))
     \<or> occurs_in (lit ''[winerror 10061]'') (lower (f_text f))"

definition connection_failure_fields :: "errno_table \<Rightarrow> failure \<Rightarrow> jdict" where
  "connection_failure_fields errno f =
     (if is_offline_connection_error errno f then [(lit ''reachable'', JBool False)]
      else if is_agent_not_running_error errno f
      then [(lit ''reachable'', JBool False), (lit ''agent_not_running'', JBool True)]
      else [(lit ''reachable'', JBool False),
            (lit ''connection_error'', JStr (format_agent_connection_error (f_text f)))])"

section \<open>Buttons\<close>

text \<open>The action, the variable, the value and the tail a button of the panel asks for.\<close>

type_synonym panel_request = "pystr \<times> pystr option \<times> json \<times> int option"

definition action_request_fields :: "pystr \<Rightarrow> jdict \<Rightarrow> panel_request res" where
  "action_request_fields name p =
     (if name = lit ''lock'' then Inr (lit ''lock'', None, JNull, None)
      else if name = lit ''shutdown'' then Inr (lit ''shutdown'', None, JNull, None)
      else if name = lit ''message'' then Inr (lit ''message'', None, jget_or p ''message'' (JStr []), None)
      else if name = lit ''extend_time'' then
        (if jhas p ''minutes''
         then rbind (py_int (jget p ''minutes'')) (\<lambda>m. Inr (lit ''extend'', None, JInt m, None))
         else Inl KeyError)
      else if name = lit ''clear_manual_lock'' then Inr (lit ''clear'', Some (lit ''manual_lock''), JNull, None)
      else if name = lit ''clear_extensions''
        then Inr (lit ''clear'', Some (lit ''cumulative_extension''), JNull, None)
      else if name = lit ''set_daily_limit'' then
        (let minutes = jget p ''minutes'' in
         if minutes = JNull \<or> minutes = JStr [] then Inr (lit ''clear'', Some (lit ''daily_limit''), JNull, None)
         else rbind (py_int minutes) (\<lambda>m. Inr (lit ''set'', Some (lit ''daily_limit''), JInt m, None)))
      else if name = lit ''set_bed_time'' then Inr (lit ''set'', Some (lit ''bed_time''), jget p ''time'', None)
      else if name = lit ''clear_bed_time'' \<or> name = lit ''clear_lock_times''
        then Inr (lit ''clear'', Some (lit ''bed_time''), JNull, None)
      else if name = lit ''set_wake_time'' then Inr (lit ''set'', Some (lit ''wake_time''), jget p ''time'', None)
      else if name = lit ''clear_usage_limit'' then Inr (lit ''clear'', Some (lit ''daily_limit''), JNull, None)
      else if name = lit ''get_logs'' then
        rbind (py_int (json_or (jget p ''tail'') (JInt DEFAULT_LOG_TAIL_LINES)))
          (\<lambda>t. Inr (lit ''get_logs'', None, JNull, Some t))
      else Inl KeyError)"

section \<open>The panel's view of a computer\<close>

definition legacy_access_status :: "pyval \<Rightarrow> bool \<Rightarrow> pystr" where
  "legacy_access_status status manual_lock =
     (if manual_lock then lit ''Locked '' @ [8212] @ lit '' manual lock''
      else if status = PStr (lit ''LOCKED'') then lit ''Screen locked''
      else lit ''Unlocked'')"

text \<open>\<open>(daily_limit or 0) + extension_seconds / 60\<close>; adding to a text is a TypeError.\<close>

definition effective_limit :: "pyval \<Rightarrow> int \<Rightarrow> json res" where
  "effective_limit daily_limit extension_seconds =
     (if daily_limit = PNone \<and> extension_seconds \<le> 0 then Inr JNull
      else
        rbind (to_float (of_int extension_seconds / 60))
          (\<lambda>ext. case val_or daily_limit (PInt 0) of
             PInt i \<Rightarrow> rbind (to_float (of_int i)) (\<lambda>base. Inr (JFloat (float_sum base ext)))
           | PBool b \<Rightarrow> Inr (JFloat (float_sum (if b then 1 else 0) ext))
           | _ \<Rightarrow> Inl TypeError))"

definition settings_to_pc_info :: "(pystr \<Rightarrow> pyval option) \<Rightarrow> pystr \<Rightarrow> pystr option \<Rightarrow> jdict res" where
  "settings_to_pc_info settings host hostname_fallback =
     (let get = (\<lambda>k. field settings (lit k));
          status = val_or (get ''status'') (PStr (lit ''UNKNOWN''));
          daily_limit = get ''daily_limit''; bed = get ''bed_time''; remaining = get ''time_remaining'';
          fallback = (case hostname_fallback of
             Some f \<Rightarrow> if f \<noteq> [] then f else lit ''PC at '' @ host
           | None \<Rightarrow> lit ''PC at '' @ host);
          manual = truthy (get ''manual_lock'') in
      rbind (py_int (json_of (val_or (get ''cumulative_extension'') (PInt 0))))
        (\<lambda>extension. rbind (py_int (json_of (val_or (get ''accumulated_seconds'') (PInt 0))))
          (\<lambda>accumulated. rbind (effective_limit daily_limit extension)
            (\<lambda>limit. Inr
              [(lit ''ip'', JStr host),
               (lit ''hostname'', json_of (val_or (get ''name'') (PStr fallback))),
               (lit ''status'', json_of status),
               (lit ''locked'', JBool (status = PStr (lit ''LOCKED''))),
               (lit ''current_user'', json_of (get ''current_user'')),
               (lit ''daily_limit'', json_of daily_limit),
               (lit ''usage_limit'', json_of daily_limit),
               (lit ''bed_time'', json_of bed),
               (lit ''lock_times'', if truthy bed then JList [json_of bed] else JNull),
               (lit ''wake_time'', json_of (get ''wake_time'')),
               (lit ''manual_lock_active'', JBool manual),
               (lit ''enforcement_active'', JBool (truthy (get ''enforcement_active''))),
               (lit ''enforcement_reason'', json_of (get ''enforcement_reason'')),
               (lit ''access_status'',
                  json_of (if get ''access_status'' = PNone then PStr (legacy_access_status status manual)
                           else get ''access_status'')),
               (lit ''cumulative_extension_seconds'', JInt extension),
               (lit ''accumulated_seconds'', JInt accumulated),
               (lit ''effective_limit_minutes'', limit),
               (lit ''time_remaining'',
                  if remaining = PNone then JNull else JStr (str_of remaining @ lit '' minutes'')),
               (lit ''reachable'', JBool True)]))))"

section \<open>Requests behind the buttons\<close>

text \<open>
  The value of a request as the wire carries it: scalars as they are, \<open>str(value)\<close> of a
  float, a list or a dict, which \<open>text_of\<close> stands for.
\<close>

definition wire_val :: "(json \<Rightarrow> pystr) \<Rightarrow> json \<Rightarrow> pyval option" where
  "wire_val text_of v =
     (case v of
        JNull \<Rightarrow> None
      | JBool b \<Rightarrow> Some (PBool b)
      | JInt i \<Rightarrow> Some (PInt i)
      | JStr s \<Rightarrow> Some (PStr s)
      | _ \<Rightarrow> Some (PStr (text_of v)))"

lemma wire_val_simps [simp]:
  "wire_val f JNull = None" "wire_val f (JBool b) = Some (PBool b)" "wire_val f (JInt i) = Some (PInt i)"
  "wire_val f (JStr s) = Some (PStr s)"
  by (simp_all add: wire_val_def)

lemma wire_val_None [simp]: "wire_val f v = None \<longleftrightarrow> v = JNull"
  by (simp add: wire_val_def split: json.split)

lemma wire_val_not_PNone [simp]: "wire_val f v \<noteq> Some PNone"
  by (simp add: wire_val_def split: json.split)

text \<open>The buttons, one by one: the action and variable of every request a button can make.\<close>

lemma action_request_cases:
  assumes "action_request_fields name p = Inr (a, v, x, t)"
  shows "(a, v) \<in> {(lit ''lock'', None), (lit ''shutdown'', None), (lit ''message'', None), (lit ''extend'', None),
      (lit ''clear'', Some (lit ''manual_lock'')), (lit ''clear'', Some (lit ''cumulative_extension'')),
      (lit ''clear'', Some (lit ''daily_limit'')), (lit ''clear'', Some (lit ''bed_time'')),
      (lit ''set'', Some (lit ''daily_limit'')), (lit ''set'', Some (lit ''bed_time'')),
      (lit ''set'', Some (lit ''wake_time'')), (lit ''get_logs'', None)}
    \<and> (a = lit ''extend'' \<longrightarrow> x \<noteq> JNull) \<and> (t \<noteq> None \<longrightarrow> a = lit ''get_logs'')"
  using assms unfolding action_request_fields_def Let_def
  by (auto simp: rbind_eq_Inr_iff split: if_splits)

section \<open>What an exchange has checked\<close>

lemma parse_response_authentic:
  assumes "parse_response py body secret expected version now = Inr resp"
  shows "\<exists>nodes auth rest key ts. parse body = Inr nodes \<and> split_auth nodes = (Some auth, rest)
    \<and> derive_key secret = Inr key
    \<and> compute_signature py key (serialize rest) = Inr (str_of (field (child_map auth) (lit ''signature'')))
    \<and> field (fields_of rest) (lit ''timestamp'') = PInt ts \<and> \<bar>now - ts\<bar> \<le> 60
    \<and> sname resp = opt_str (field (fields_of rest) (lit ''name''))
    \<and> (expected \<noteq> None \<longrightarrow> sname resp = expected)"
proof -
  obtain nodes name i where n: "parse body = Inr nodes" "verify_frame py nodes secret i now = Inr name"
    "expected \<noteq> None \<longrightarrow> name = expected" "resp = read_response nodes name"
    using assms by (auto simp: parse_response_def Let_def rbind_eq_Inr_iff split: if_splits)
  then have "sname resp = name" by (simp add: read_response_def Let_def)
  with n show ?thesis
    unfolding verify_frame_accepts
    by (auto simp: timestamp_in_window_def TIMESTAMP_WINDOW_SECONDS_def)
qed

lemma ask_reads_answer:
  "ask py link secret body expected version now s = (Inr resp, s') \<Longrightarrow>
     \<exists>frame answer u. encode_frame body = Inr frame \<and> l_send link frame s = (Inr (), u)
       \<and> l_read link u = (Inr answer, s') \<and> parse_response py answer secret expected version now = Inr resp"
  unfolding ask_def bind_eq_Inr_iff by auto

text \<open>An exchange that succeeds: the request that went out, to whom, and the answer that was read.\<close>

lemma exchange_reads_answer:
  assumes "exchange_on_socket py link action var val name version tail secret m1 m2 s = (Inr resp, s')"
  obtains addressed body frame answer t u where
    "build_request py secret action var val (Some (make_nonce (m_id m2))) addressed (m_sent m2)
       (make_nonce (m_nonce m2)) version tail = Inr body"
    "encode_frame body = Inr frame" "l_send link frame t = (Inr (), u)" "l_read link u = (Inr answer, s')"
    "parse_response py answer secret addressed (Some version) (m_read m2) = Inr resp"
    "name \<noteq> None \<longrightarrow> addressed = name" "action \<in> set WRITE_ACTIONS \<longrightarrow> addressed \<noteq> None"
proof -
  obtain addressed body t where
    b: "build_request py secret action var val (Some (make_nonce (m_id m2))) addressed (m_sent m2)
       (make_nonce (m_nonce m2)) version tail = Inr body" and
    e: "ask py link secret body addressed (Some version) (m_read m2) t = (Inr resp, s')" and
    a: "name \<noteq> None \<longrightarrow> addressed = name" "action \<in> set WRITE_ACTIONS \<longrightarrow> addressed \<noteq> None"
    using assms unfolding exchange_on_socket_def bind_eq_Inr_iff
    by (cases name; cases "action \<in> set WRITE_ACTIONS") (fastforce simp: bind_eq_Inr_iff)+
  with ask_reads_answer [OF e] that show thesis by metis
qed

text \<open>A request that is built can be sent, and the exchange goes on from there.\<close>

lemma signed_scalar:
  assumes "auth_node py ns secret = Inr a" and "texts_ok ns"
  shows "list_all is_scalar (serialize (ns @ [a]))"
proof -
  obtain key msg where "a = signature_block (b64url (hmac_digest py key msg))"
    using assms(1) by (auto simp: auth_node_iff compute_signature_def rbind_eq_Inr_iff)
  moreover have "list_all is_scalar (b64url bs)" for bs
    using b64url_ascii [of bs] by (auto simp: list_all_iff intro: scalar_ascii)
  ultimately have "texts_ok (ns @ [a])" using assms(2) by (simp add: signature_block_def ALGORITHM_def DEFAULT_KEY_ID_def)
  then show ?thesis by (rule scalar_serialize)
qed

lemma built_request_scalar:
  assumes "build_request py secret action var val req_id name ts nonce 3 tail = Inr body"
    and "texts_ok (request_nodes action var val req_id name ts nonce 3 tail)"
  shows "list_all is_scalar body"
proof -
  obtain a where "auth_node py (request_nodes action var val req_id name ts nonce 3 tail) secret = Inr a"
    "body = serialize (request_nodes action var val req_id name ts nonce 3 tail @ [a])"
    using assms(1) by (auto simp: build_request_def Let_def rbind_eq_Inr_iff split: if_splits)
  with signed_scalar [OF _ assms(2)] show ?thesis by blast
qed

lemma exchange_named:
  "exchange_on_socket py link action var val (Some n) version tail secret m1 m2 s =
     bind (lift (build_request py secret action var val (Some (make_nonce (m_id m2))) (Some n)
              (m_sent m2) (make_nonce (m_nonce m2)) version tail))
       (\<lambda>body. ask py link secret body (Some n) (Some version) (m_read m2)) s"
  by (simp add: exchange_on_socket_def)

lemma ask_eq:
  assumes "list_all is_scalar body"
  shows "\<exists>frame. encode_frame body = Inr frame
    \<and> ask py link secret body expected version now s =
        bind (l_send link frame)
          (\<lambda>_. bind (l_read link) (\<lambda>answer. lift (parse_response py answer secret expected version now))) s"
  using utf8_encode_total [OF assms] by (auto simp: ask_def encode_frame_def)

section \<open>Properties\<close>

text \<open>
  Whatever button is pressed, the request it makes is one the agent admits: unless
  the page sent no value, a number beyond 64 bits or an absurd number of log lines, it is
  a known action on a variable it applies to, addressed to this agent.
\<close>

theorem buttons_make_admissible_requests:
  assumes "action_request_fields name p = Inr (a, v, x, t)"
    and "a = lit ''set'' \<or> a = lit ''message'' \<longrightarrow> x \<noteq> JNull"
    and "case wire_val text_of x of None \<Rightarrow> True | Some y \<Rightarrow> ok_val y"
    and "case t of None \<Rightarrow> True | Some n \<Rightarrow> 1 \<le> n \<and> n \<le> MAX_LOG_TAIL_LINES"
  shows "sendable hostname a v (wire_val text_of x) (Some hostname) t"
proof -
  have "a \<noteq> lit ''get''" "a = lit ''set'' \<or> a = lit ''clear'' \<Longrightarrow> \<exists>w \<in> set (map fst VARIABLES). v = Some w"
    "a \<in> set (map fst ACTIONS)" "a = lit ''extend'' \<Longrightarrow> x \<noteq> JNull"
    using action_request_cases [OF assms(1)] by (auto simp: VARIABLES_def ACTIONS_def)
  with assms(2-4) show ?thesis
    by (auto simp: sendable_def split: option.splits)
qed

theorem buttons_make_admissible_requests_witness:
  "sendable (lit ''kid'') (lit ''extend'') None (Some (PInt 30)) (Some (lit ''kid'')) None"
proof -
  have b: "action_request_fields (lit ''extend_time'') [(lit ''minutes'', JStr (lit ''30''))]
      = Inr (lit ''extend'', None, JInt 30, None)"
  proof -
    have "map ascii_decimal [51, 48] = [51, 48]" by (simp add: ascii_decimal_def decimal_zeros_def)
    moreover have "strip [51, 48] = [51, 48]" by (simp add: strip_def is_space_def)
    ultimately have "int_of_text [51, 48] = Inr 30"
      by (simp add: int_of_text_def sign_split_def is_digit_def max_str_digits_def)
    then show ?thesis
      by (simp add: action_request_fields_def jhas_Cons jget_Cons py_int_def) (simp add: lit_def)
  qed
  from buttons_make_admissible_requests [OF b, of "\<lambda>_. []" "lit ''kid''"] show ?thesis
    by (simp add: ok_val_def)
qed

text \<open>
  C24. The panel believes nobody but the agent it asked: when an exchange returns a response,
  the request that went out was the one asked for, addressed to the name given, and by name in any
  case if it changes something; and the text that was read in reply carries the MAC, under the
  shared secret, of its other fields, a timestamp within 60 seconds of the panel's clock, and
  the name the request was addressed to, if it was.
\<close>

theorem exchange_answer_is_authentic:
  assumes "exchange_on_socket py link action var val name version tail secret m1 m2 s = (Inr resp, s')"
  shows "\<exists>addressed body frame t u answer nodes auth rest key ts.
    build_request py secret action var val (Some (make_nonce (m_id m2))) addressed (m_sent m2)
        (make_nonce (m_nonce m2)) version tail = Inr body
    \<and> (name \<noteq> None \<longrightarrow> addressed = name) \<and> (action \<in> set WRITE_ACTIONS \<longrightarrow> addressed \<noteq> None)
    \<and> encode_frame body = Inr frame \<and> l_send link frame t = (Inr (), u) \<and> l_read link u = (Inr answer, s')
    \<and> parse answer = Inr nodes \<and> split_auth nodes = (Some auth, rest)
    \<and> derive_key secret = Inr key
    \<and> compute_signature py key (serialize rest) = Inr (str_of (field (child_map auth) (lit ''signature'')))
    \<and> field (fields_of rest) (lit ''timestamp'') = PInt ts \<and> \<bar>m_read m2 - ts\<bar> \<le> 60
    \<and> sname resp = opt_str (field (fields_of rest) (lit ''name''))
    \<and> (addressed \<noteq> None \<longrightarrow> sname resp = addressed)"
proof -
  obtain addressed body frame answer t u where a:
    "build_request py secret action var val (Some (make_nonce (m_id m2))) addressed (m_sent m2)
       (make_nonce (m_nonce m2)) version tail = Inr body"
    "encode_frame body = Inr frame" "l_send link frame t = (Inr (), u)" "l_read link u = (Inr answer, s')"
    "parse_response py answer secret addressed (Some version) (m_read m2) = Inr resp"
    "name \<noteq> None \<longrightarrow> addressed = name" "action \<in> set WRITE_ACTIONS \<longrightarrow> addressed \<noteq> None"
    by (rule exchange_reads_answer [OF assms])
  from parse_response_authentic [OF a(5)] a(1-4,6,7) show ?thesis by metis
qed

definition canned_link :: "pystr link" where
  "canned_link = \<lparr>l_send = (\<lambda>_. ret ()), l_read = gets (\<lambda>s. s)\<rparr>"

definition sample_moment :: moment where
  "sample_moment = \<lparr>m_sent = 1000, m_nonce = [1, 2, 3], m_id = [4, 5, 6], m_read = 1030\<rparr>"

theorem exchange_answer_is_authentic_witness:
  "\<exists>answer resp nodes. exchange_on_socket sample_python canned_link (lit ''lock'') None None (Some (lit ''kid'')) 3 None
       (lit ''key'') sample_moment sample_moment answer = (Inr resp, answer)
     \<and> parse answer = Inr nodes \<and> sname resp = Some (lit ''kid'')"
proof -
  let ?c = "ok_content (PStr (lit ''locked''))"
  let ?req = "build_request sample_python (lit ''key'') (lit ''lock'') None None (Some (make_nonce [4, 5, 6])) (Some (lit ''kid''))
    1000 (make_nonce [1, 2, 3]) 3 None"
  have texts: "texts_ok (request_nodes (lit ''lock'') None None (Some (make_nonce [4, 5, 6])) (Some (lit ''kid'')) 1000
      (make_nonce [1, 2, 3]) 3 None)"
    by (simp add: request_nodes_def make_nonce_def hex_digit_char_def is_scalar_def)
  obtain body where body: "?req = Inr body" using build_request_total [OF texts scalar_lit] by blast
  obtain sig where "auth_node sample_python (response_nodes ?c (lit ''kid'') None 1000 sample_nonce 3) (lit ''key'')
      = Inr (signature_block sig)"
    using auth_node_total [of "response_nodes ?c (lit ''kid'') None 1000 sample_nonce 3" "lit ''key''"]
    by (auto simp: response_nodes_def ok_content_def sample_nonce_def)
  then obtain answer where answer: "sign_response sample_python ?c (lit ''key'') (lit ''kid'') None 1000 sample_nonce 3
      = Inr answer"
    by (simp add: sign_response_def SUPPORTED_VERSIONS_def)
  have "content_ok ?c"
    by (simp add: content_ok_def ok_doc_def ok_content_def envelope_names_def MAX_NESTING_DEPTH_def)
  then have "parse_response sample_python answer (lit ''key'') (Some (lit ''kid'')) (Some 3) 1030
      = Inr (response_of ?c (lit ''kid'') None 1000 sample_nonce 3)"
    using signed_response_parses [OF answer _ sample_stamp] by simp
  moreover obtain frame where "encode_frame body = Inr frame"
    using utf8_encode_total [OF built_request_scalar [OF body texts]] by (auto simp: encode_frame_def)
  ultimately have e: "exchange_on_socket sample_python canned_link (lit ''lock'') None None (Some (lit ''kid'')) 3 None
       (lit ''key'') sample_moment sample_moment answer
       = (Inr (response_of ?c (lit ''kid'') None 1000 sample_nonce 3), answer)"
    using body by (simp add: exchange_named ask_def canned_link_def sample_moment_def)
  from exchange_answer_is_authentic [OF e] have "\<exists>nodes. parse answer = Inr nodes"
    "sname (response_of ?c (lit ''kid'') None 1000 sample_nonce 3) = Some (lit ''kid'')"
    by (auto simp: canned_link_def)
  with e show ?thesis by blast
qed

end
