(* ===== verification/Panel_Db.thy ===== *)
theory Panel_Db
  imports Panel_Data Effects "HOL-Library.List_Lexorder" "HOL-Library.Product_Lexorder"
begin

text \<open>
  The database of the parent's panel (\<open>src/kid_pc_monitor/panel_db.py\<close>) and the clock its
  stores read (\<open>panel_clock.py\<close>). A table is the list of its rows in rowid order. A
  payload column is the JSON object its text holds; a time column is what \<open>isoformat\<close>
  wrote, a local time with the offset of the moment (rows of old versions have none), and
  is ordered, as SQLite orders it, by its text. Faults and transactions are
  those of \<open>Db_File\<close>.
\<close>

section \<open>Time\<close>

text \<open>An aware datetime: local time and the offset from UTC in minutes.\<close>

datatype aware = Aware (local_of: datetime) (offset_of: int)

datatype time_text = With_offset datetime int | Without_offset datetime

definition instant :: "aware \<Rightarrow> int" where
  "instant t = dt_us (local_of t) - offset_of t * minute_us"

text \<open>\<open>dt.isoformat(timespec="seconds")\<close>, and the text it is.\<close>

definition whole_second :: "datetime \<Rightarrow> datetime" where
  "whole_second d = DateTime (date_of d) (dt_hour d) (dt_minute d) (dt_second d) 0"

definition written :: "aware \<Rightarrow> time_text" where
  "written t = With_offset (whole_second (local_of t)) (offset_of t)"

definition offset_text :: "int \<Rightarrow> pystr" where
  "offset_text z = (if z < 0 then 45 else 43) # fmt02 (nat \<bar>z\<bar> div 60) @ [58] @ fmt02 (nat \<bar>z\<bar> mod 60)"

definition text_of_time :: "time_text \<Rightarrow> pystr" where
  "text_of_time t =
     (case t of
        With_offset d z \<Rightarrow> iso_seconds d @ offset_text z
      | Without_offset d \<Rightarrow> iso_seconds d)"

text \<open>
  \<open>_parse_db_datetime\<close>: a text without offset is in the local zone; \<open>zone\<close> gives the
  offset of a local time there.
\<close>

definition parse_db_datetime :: "(datetime \<Rightarrow> int) \<Rightarrow> time_text \<Rightarrow> aware" where
  "parse_db_datetime zone t =
     (case t of With_offset d z \<Rightarrow> Aware d z | Without_offset d \<Rightarrow> Aware d (zone d))"

lemma parse_written: "parse_db_datetime zone (written t) = Aware (whole_second (local_of t)) (offset_of t)"
  by (simp add: parse_db_datetime_def written_def)

section \<open>Tables\<close>

record snapshot_row =
  sn_username :: pystr
  sn_hostname :: pystr
  sn_ip :: pystr
  sn_date :: date
  sn_recorded_at :: time_text
  sn_payload :: jdict

record scan_row =
  sc_id :: int
  sc_scanned_at :: time_text
  sc_network_label :: pystr
  sc_subnet :: pystr
  sc_error :: "pystr option"

record scan_pc_row =
  sp_scan_id :: int
  sp_ip :: pystr
  sp_hostname :: "pystr option"
  sp_payload :: jdict

record reverse_row =
  ra_hostname :: pystr
  ra_ip :: pystr
  ra_last_seen :: time_text
  ra_payload :: jdict

text \<open>The meta values are time texts; \<open>db_next_scan\<close> is what AUTOINCREMENT gives next.\<close>

record panel_db =
  snapshots :: "snapshot_row list"
  scans :: "scan_row list"
  scan_pcs :: "scan_pc_row list"
  panel_meta :: "(pystr \<times> time_text) list"
  reverse_agents :: "reverse_row list"
  db_next_scan :: int

type_synonym 'a dbact = "(panel_db, 'a) act"

definition get_meta :: "panel_db \<Rightarrow> pystr \<Rightarrow> time_text option" where
  "get_meta db key = map_of (panel_meta db) key"

definition set_meta :: "pystr \<Rightarrow> time_text \<Rightarrow> panel_db \<Rightarrow> panel_db" where
  "set_meta key v db = db\<lparr>panel_meta := AList.delete key (panel_meta db) @ [(key, v)]\<rparr>"

text \<open>\<open>_backfill_scan_pcs_hostname\<close>: fill in host names older rows do not have.\<close>

definition backfill_hostname :: "panel_db \<Rightarrow> panel_db" where
  "backfill_hostname db =
     db\<lparr>scan_pcs := map (\<lambda>p.
          if sp_hostname p = None \<or> sp_hostname p = Some [] then
            (case jget (sp_payload p) ''hostname'' of
               JStr h \<Rightarrow> if h \<noteq> [] then p\<lparr>sp_hostname := Some h\<rparr> else p
             | _ \<Rightarrow> p)
          else p) (scan_pcs db)\<rparr>"

section \<open>Queries\<close>

text \<open>\<open>ORDER BY key DESC\<close>, equal keys in table order, and \<open>LIMIT 1\<close>.\<close>

definition order_desc :: "('r \<Rightarrow> 'k::linorder) \<Rightarrow> 'r list \<Rightarrow> 'r list" where
  "order_desc key rows = rev (sort_key key (rev rows))"

definition first_row :: "'r list \<Rightarrow> 'r option" where
  "first_row rows = (case rows of [] \<Rightarrow> None | r # _ \<Rightarrow> Some r)"

text \<open>
  A value bound to a TEXT column: numbers become text; a value without a text form makes
  the statement fail. (No float reaches a text column.)
\<close>

definition sql_text :: "json \<Rightarrow> pystr res" where
  "sql_text v =
     (case v of
        JStr s \<Rightarrow> Inr s
      | JInt i \<Rightarrow> Inr (int_str i)
      | JBool b \<Rightarrow> Inr (int_str (if b then 1 else 0))
      | _ \<Rightarrow> Inl (HostError (lit ''sqlite3'')))"

text \<open>\<open>COLLATE NOCASE\<close> folds the ASCII letters only.\<close>

definition nocase :: "pystr \<Rightarrow> pystr" where
  "nocase s = map (\<lambda>c. if 65 \<le> c \<and> c \<le> 90 then c + 32 else c) s"

text \<open>Rows with a key, the first one winning.\<close>

fun first_wins :: "('k \<times> 'v) list \<Rightarrow> ('k \<times> 'v) list" where
  "first_wins [] = []"
| "first_wins (kv # r) = kv # filter (\<lambda>q. fst q \<noteq> fst kv) (first_wins r)"

section \<open>Facts about queries\<close>

lemma set_order_desc [simp]: "set (order_desc key rows) = set rows"
  by (simp add: order_desc_def)

lemma order_desc_Nil [simp]: "order_desc key rows = [] \<longleftrightarrow> rows = []"
  by (metis set_empty set_order_desc)

lemma order_desc_sorted: "sorted_wrt (\<lambda>a b. key b \<le> key a) (order_desc key rows)"
proof -
  have "sorted_wrt (\<lambda>a b. key a \<le> key b) (sort_key key (rev rows))"
    using sorted_sort_key [of key "rev rows"] by (simp add: sorted_wrt_map)
  then show ?thesis by (simp add: order_desc_def sorted_wrt_rev)
qed

lemma first_row_max:
  assumes "first_row (order_desc key rows) = Some r"
  shows "r \<in> set rows \<and> (\<forall>x \<in> set rows. key x \<le> key r)"
proof -
  obtain rest where o: "order_desc key rows = r # rest"
    using assms by (auto simp: first_row_def split: list.splits)
  have "\<forall>x \<in> set (r # rest). key x \<le> key r" using order_desc_sorted [of key rows] unfolding o by auto
  moreover have "set rows = set (r # rest)" using o by (metis set_order_desc)
  ultimately show ?thesis by auto
qed

lemma first_row_None [simp]: "first_row rows = None \<longleftrightarrow> rows = []"
  by (cases rows) (simp_all add: first_row_def)

text \<open>A key that beats all others decides which row comes first.\<close>

lemma first_row_unique:
  assumes "r \<in> set rows" and "\<And>x. x \<in> set rows \<Longrightarrow> x \<noteq> r \<Longrightarrow> key x < key r"
  shows "first_row (order_desc key rows) = Some r"
proof (cases "first_row (order_desc key rows)")
  case None
  with assms(1) show ?thesis by simp
next
  case (Some x)
  from first_row_max [OF Some] assms have "x = r" by (meson not_less)
  with Some show ?thesis by simp
qed

lemma map_of_without: "map_of (filter (\<lambda>q. fst q \<noteq> j) ps) k = (if k = j then None else map_of ps k)"
  by (induction ps) auto

lemma map_of_first_wins: "map_of (first_wins xs) k = map_of xs k"
  by (induction xs) (auto simp: map_of_without)

lemma distinct_first_wins: "distinct (map fst (first_wins xs))"
  by (induction xs) (auto simp: distinct_map_filter)

lemma keys_first_wins: "fst ` set (first_wins xs) = fst ` set xs"
  using map_of_first_wins [of xs] by (metis dom_map_of_conv_image_fst ext)

lemma get_meta_set_meta [simp]: "get_meta (set_meta k v db) k' = (if k' = k then Some v else get_meta db k')"
  by (auto simp: get_meta_def set_meta_def map_add_def delete_conv' split: option.split)

lemma set_meta_tables [simp]:
  "snapshots (set_meta k v db) = snapshots db" "scans (set_meta k v db) = scans db"
  "scan_pcs (set_meta k v db) = scan_pcs db" "reverse_agents (set_meta k v db) = reverse_agents db"
  "db_next_scan (set_meta k v db) = db_next_scan db"
  by (simp_all add: set_meta_def)

end
