(* ===== verification/Scan_Store.thy ===== *)
theory Scan_Store
  imports Panel_Db
begin

text \<open>
  \<open>src/kid_pc_monitor/scan_store.py\<close>: the registry of the computers the panel tracks. A
  computer is the rows of \<open>scan_pcs\<close> with its address, each belonging to a row of
  \<open>scans\<close>; the row with the greatest scan id is its current state.
\<close>

section \<open>Status of a computer\<close>

definition dashboard_status_key :: "jdict \<Rightarrow> pystr" where
  "dashboard_status_key info =
     (if jtruthy (jget info ''connection_error'') then lit ''cant_control''
      else if jtruthy (jget info ''agent_not_running'') \<or> \<not> jtruthy (jget_or info ''reachable'' (JBool True))
        then lit ''not_connected''
      else if jtruthy (jget info ''locked'') then lit ''locked''
      else lit ''online'')"

definition payload_hostname :: "jdict \<Rightarrow> pystr option" where
  "payload_hostname payload =
     (case jget payload ''hostname'' of JStr h \<Rightarrow> if h \<noteq> [] then Some h else None | _ \<Rightarrow> None)"

section \<open>The rows of a computer\<close>

text \<open>\<open>scan_pcs sp JOIN scans s ON sp.scan_id = s.id WHERE s.error IS NULL\<close>.\<close>

definition tracked_rows :: "panel_db \<Rightarrow> (scan_pc_row \<times> scan_row) list" where
  "tracked_rows db =
     [(p, s). p \<leftarrow> scan_pcs db, s \<leftarrow> scans db, sp_scan_id p = sc_id s \<and> sc_error s = None]"

definition rows_of_ip :: "panel_db \<Rightarrow> pystr \<Rightarrow> (scan_pc_row \<times> scan_row) list" where
  "rows_of_ip db ip =
     order_desc (\<lambda>r. sp_scan_id (fst r)) (filter (\<lambda>r. sp_ip (fst r) = ip) (tracked_rows db))"

text \<open>\<open>_latest_scan_pc_for_ip\<close> and \<open>_latest_tracked_row\<close> are the same query.\<close>

definition latest_scan_pc_for_ip :: "panel_db \<Rightarrow> pystr \<Rightarrow> scan_pc_row option" where
  "latest_scan_pc_for_ip db ip = map_option fst (first_row (rows_of_ip db ip))"

definition payload_from_row :: "scan_pc_row \<Rightarrow> jdict" where
  "payload_from_row p = jset (sp_payload p) ''ip'' (JStr (sp_ip p))"

section \<open>Recording\<close>

definition POLL_NETWORK_LABEL :: pystr where
  "POLL_NETWORK_LABEL = lit ''poll''"

definition update_scan_pc ::
  "int \<Rightarrow> pystr \<Rightarrow> (scan_pc_row \<Rightarrow> scan_pc_row) \<Rightarrow> panel_db \<Rightarrow> panel_db" where
  "update_scan_pc scan_id ip f db =
     db\<lparr>scan_pcs := map (\<lambda>p. if sp_scan_id p = scan_id \<and> sp_ip p = ip then f p else p) (scan_pcs db)\<rparr>"

definition touch_scan :: "int \<Rightarrow> time_text \<Rightarrow> panel_db \<Rightarrow> panel_db" where
  "touch_scan scan_id t db =
     db\<lparr>scans := map (\<lambda>s. if sc_id s = scan_id then s\<lparr>sc_scanned_at := t\<rparr> else s) (scans db)\<rparr>"

definition insert_scan :: "pystr \<Rightarrow> jdict \<Rightarrow> time_text \<Rightarrow> panel_db \<Rightarrow> panel_db" where
  "insert_scan ip payload t db =
     (let scan_id = db_next_scan db in
      db\<lparr>scans := scans db @ [\<lparr>sc_id = scan_id, sc_scanned_at = t, sc_network_label = POLL_NETWORK_LABEL,
                              sc_subnet = [], sc_error = None\<rparr>],
         scan_pcs := scan_pcs db @ [\<lparr>sp_scan_id = scan_id, sp_ip = ip, sp_hostname = payload_hostname payload,
                                     sp_payload = payload\<rparr>],
         db_next_scan := scan_id + 1\<rparr>)"

definition record_poll_inspect :: "pystr \<Rightarrow> jdict \<Rightarrow> aware \<Rightarrow> panel_db \<Rightarrow> panel_db" where
  "record_poll_inspect ip info now db =
     (let payload = jset info ''ip'' (JStr ip); t = written now in
      case latest_scan_pc_for_ip db ip of
        Some latest \<Rightarrow>
          if dashboard_status_key (sp_payload latest) = dashboard_status_key payload
          then touch_scan (sp_scan_id latest) t
                 (update_scan_pc (sp_scan_id latest) ip
                    (\<lambda>p. p\<lparr>sp_hostname := payload_hostname payload, sp_payload := payload\<rparr>) db)
          else insert_scan ip payload t db
      | None \<Rightarrow> insert_scan ip payload t db)"

definition prune_orphan_scans :: "panel_db \<Rightarrow> panel_db" where
  "prune_orphan_scans db = db\<lparr>scans := filter (\<lambda>s. sc_id s \<in> sp_scan_id ` set (scan_pcs db)) (scans db)\<rparr>"

section \<open>Reading\<close>

text \<open>\<open>ORDER BY sp.ip, sp.scan_id DESC\<close>, the first row of each address.\<close>

definition get_tracked_ips :: "panel_db \<Rightarrow> (pystr \<times> jdict) list" where
  "get_tracked_ips db =
     first_wins (map (\<lambda>r. (sp_ip (fst r), sp_payload (fst r)))
       (sort_key (\<lambda>r. (sp_ip (fst r), - sp_scan_id (fst r))) (tracked_rows db)))"

definition get_scan_pc :: "panel_db \<Rightarrow> pystr \<Rightarrow> jdict option" where
  "get_scan_pc db ip = map_of (get_tracked_ips db) ip"

definition get_scan_pc_by_hostname :: "panel_db \<Rightarrow> pystr \<Rightarrow> jdict option" where
  "get_scan_pc_by_hostname db hostname =
     map_option (\<lambda>r. payload_from_row (fst r))
       (first_row (sort_key (\<lambda>r. (- sp_scan_id (fst r), sp_ip (fst r)))
          (filter (\<lambda>r. map_option nocase (sp_hostname (fst r)) = Some (nocase hostname)) (tracked_rows db))))"

definition latest_scan_time :: "(datetime \<Rightarrow> int) \<Rightarrow> panel_db \<Rightarrow> pystr \<Rightarrow> aware option" where
  "latest_scan_time zone db ip =
     map_option (\<lambda>r. parse_db_datetime zone (sc_scanned_at (snd r))) (first_row (rows_of_ip db ip))"

definition latest_reachable_snapshot_time :: "(datetime \<Rightarrow> int) \<Rightarrow> panel_db \<Rightarrow> pystr \<Rightarrow> aware option" where
  "latest_reachable_snapshot_time zone db ip =
     map_option (\<lambda>r. parse_db_datetime zone (sn_recorded_at r))
       (List.find (\<lambda>r. jtruthy (jget (sn_payload r) ''reachable''))
          (order_desc (\<lambda>r. text_of_time (sn_recorded_at r)) (filter (\<lambda>r. sn_ip r = ip) (snapshots db))))"

definition latest_reachable_scan_time :: "(datetime \<Rightarrow> int) \<Rightarrow> panel_db \<Rightarrow> pystr \<Rightarrow> aware option" where
  "latest_reachable_scan_time zone db ip =
     map_option (\<lambda>r. parse_db_datetime zone (sc_scanned_at (snd r)))
       (List.find (\<lambda>r. jtruthy (jget_or (sp_payload (fst r)) ''reachable'' (JBool True))) (rows_of_ip db ip))"

text \<open>\<open>max\<close> of the times there are; of two equal ones it is the first.\<close>

definition tracked_ip_last_updated :: "(datetime \<Rightarrow> int) \<Rightarrow> panel_db \<Rightarrow> pystr \<Rightarrow> aware option" where
  "tracked_ip_last_updated zone db ip =
     (case (latest_reachable_scan_time zone db ip, latest_reachable_snapshot_time zone db ip) of
        (None, b) \<Rightarrow> b
      | (Some a, None) \<Rightarrow> Some a
      | (Some a, Some b) \<Rightarrow> Some (if instant a < instant b then b else a))"

text \<open>\<open>SELECT DISTINCT sp.ip\<close>.\<close>

definition tracked_ips :: "panel_db \<Rightarrow> pystr list" where
  "tracked_ips db = remdups (map (\<lambda>r. sp_ip (fst r)) (tracked_rows db))"

definition get_tracked_ip_contact_times :: "(datetime \<Rightarrow> int) \<Rightarrow> panel_db \<Rightarrow> (pystr \<times> aware) list" where
  "get_tracked_ip_contact_times zone db =
     List.map_filter (\<lambda>ip. map_option (Pair ip) (tracked_ip_last_updated zone db ip)) (tracked_ips db)"

section \<open>Pruning\<close>

definition STALE_TRACKED_HOURS :: int where
  "STALE_TRACKED_HOURS = 12"

definition hours_us :: "int \<Rightarrow> int" where
  "hours_us h = h * 3600 * 1000000"

definition mark_latest_not_connected :: "pystr \<Rightarrow> panel_db \<Rightarrow> panel_db" where
  "mark_latest_not_connected ip db =
     (case latest_scan_pc_for_ip db ip of
        None \<Rightarrow> db
      | Some row \<Rightarrow>
          let payload = sp_payload row in
          if \<not> jtruthy (jget_or payload ''reachable'' (JBool True)) \<and> \<not> jhas payload ''connection_error''
          then db
          else update_scan_pc (sp_scan_id row) ip
                 (\<lambda>p. p\<lparr>sp_payload := jpop (jset payload ''reachable'' (JBool False)) ''connection_error''\<rparr>) db)"

definition is_stale :: "(datetime \<Rightarrow> int) \<Rightarrow> int \<Rightarrow> panel_db \<Rightarrow> pystr \<Rightarrow> bool" where
  "is_stale zone cutoff db ip \<longleftrightarrow>
     (case tracked_ip_last_updated zone db ip of None \<Rightarrow> True | Some t \<Rightarrow> instant t < cutoff)"

definition prune_stale_tracked_ips ::
  "(datetime \<Rightarrow> int) \<Rightarrow> int option \<Rightarrow> aware \<Rightarrow> panel_db \<Rightarrow> pystr list \<times> panel_db" where
  "prune_stale_tracked_ips zone max_age_hours now db =
     (let max_age = hours_us (case max_age_hours of None \<Rightarrow> STALE_TRACKED_HOURS | Some h \<Rightarrow> h);
          cutoff = instant now - max_age;
          ips = tracked_ips db;
          stale = filter (is_stale zone cutoff db) ips
      in if length ips = 1 \<and> stale \<noteq> [] then ([], mark_latest_not_connected (hd ips) db)
         else (stale,
               prune_orphan_scans (db\<lparr>scan_pcs := filter (\<lambda>p. sp_ip p \<notin> set stale) (scan_pcs db)\<rparr>)))"

section \<open>The registry as a set of sightings\<close>

text \<open>
  The keys of the tables (SQLite keeps them unique) and the one reference between them:
  every sighting belongs to a scan, and carries its address in its payload.
\<close>

definition registry_ok :: "panel_db \<Rightarrow> bool" where
  "registry_ok db \<longleftrightarrow>
     distinct (map sc_id (scans db)) \<and> (\<forall>s \<in> set (scans db). sc_id s < db_next_scan db)
     \<and> distinct (map (\<lambda>p. (sp_scan_id p, sp_ip p)) (scan_pcs db))
     \<and> (\<forall>p \<in> set (scan_pcs db). sp_scan_id p \<in> sc_id ` set (scans db)
          \<and> jget (sp_payload p) ''ip'' = JStr (sp_ip p))"

text \<open>
  The abstract view of the two tables: numbered sightings of an address. The current
  state of an address is its sighting with the greatest number.
\<close>

definition sightings :: "panel_db \<Rightarrow> (int \<times> pystr \<times> jdict) set" where
  "sightings db = (\<lambda>r. (sp_scan_id (fst r), sp_ip (fst r), sp_payload (fst r))) ` set (tracked_rows db)"

definition newest :: "(int \<times> pystr \<times> jdict) set \<Rightarrow> pystr \<Rightarrow> int \<Rightarrow> jdict \<Rightarrow> bool" where
  "newest S ip i v \<longleftrightarrow> (i, ip, v) \<in> S \<and> (\<forall>j u. (j, ip, u) \<in> S \<longrightarrow> j \<le> i)"

lemma set_tracked_rows:
  "set (tracked_rows db) =
     {(p, s). p \<in> set (scan_pcs db) \<and> s \<in> set (scans db) \<and> sp_scan_id p = sc_id s \<and> sc_error s = None}"
  by (auto simp: tracked_rows_def)

lemma distinct_key: "distinct (map f xs) \<Longrightarrow> x \<in> set xs \<Longrightarrow> y \<in> set xs \<Longrightarrow> f x = f y \<Longrightarrow> x = y"
  by (simp add: distinct_map inj_on_def)

lemma tracked_unique:
  assumes "registry_ok db" and "r \<in> set (tracked_rows db)" and "q \<in> set (tracked_rows db)"
    and "sp_ip (fst r) = sp_ip (fst q)" and "sp_scan_id (fst r) = sp_scan_id (fst q)"
  shows "r = q"
proof -
  have "fst r = fst q"
    using assms by (intro distinct_key [of "\<lambda>p. (sp_scan_id p, sp_ip p)" "scan_pcs db"])
      (auto simp: registry_ok_def set_tracked_rows)
  moreover have "snd r = snd q"
    using assms by (intro distinct_key [of sc_id "scans db"]) (auto simp: registry_ok_def set_tracked_rows)
  ultimately show ?thesis by (simp add: prod_eq_iff)
qed

lemma sightingE:
  assumes "(i, ip, v) \<in> sightings db"
  obtains r where "r \<in> set (tracked_rows db)" "sp_scan_id (fst r) = i" "sp_ip (fst r) = ip" "sp_payload (fst r) = v"
  using assms unfolding sightings_def by blast

lemma sightings_unique:
  assumes "registry_ok db" and "(i, ip, v) \<in> sightings db" and "(i, ip, u) \<in> sightings db"
  shows "v = u"
proof -
  obtain r where r: "r \<in> set (tracked_rows db)" "sp_scan_id (fst r) = i" "sp_ip (fst r) = ip" "sp_payload (fst r) = v"
    using assms(2) by (rule sightingE)
  obtain q where q: "q \<in> set (tracked_rows db)" "sp_scan_id (fst q) = i" "sp_ip (fst q) = ip" "sp_payload (fst q) = u"
    using assms(3) by (rule sightingE)
  have "r = q" using r q by (intro tracked_unique [OF assms(1)]) simp_all
  with r q show ?thesis by simp
qed

lemma newest_unique:
  assumes "registry_ok db" and "newest (sightings db) ip i v" and "newest (sightings db) ip j u"
  shows "i = j \<and> v = u"
proof -
  have "(i, ip, v) \<in> sightings db" "(j, ip, u) \<in> sightings db" "j \<le> i" "i \<le> j"
    using assms(2,3) unfolding newest_def by blast+
  moreover from this have "i = j" by simp
  ultimately show ?thesis using sightings_unique [OF assms(1)] by blast
qed

lemma newest_of_row:
  assumes "r \<in> set (tracked_rows db)" and "sp_ip (fst r) = ip"
    and "\<And>q. q \<in> set (tracked_rows db) \<Longrightarrow> sp_ip (fst q) = ip \<Longrightarrow> sp_scan_id (fst q) \<le> sp_scan_id (fst r)"
  shows "newest (sightings db) ip (sp_scan_id (fst r)) (sp_payload (fst r))"
  using assms by (force simp: newest_def sightings_def)

lemma latest_None: "latest_scan_pc_for_ip db ip = None \<longleftrightarrow> (\<forall>i v. (i, ip, v) \<notin> sightings db)"
  by (force simp: latest_scan_pc_for_ip_def rows_of_ip_def sightings_def filter_empty_conv)

lemma latest_Some:
  assumes "latest_scan_pc_for_ip db ip = Some p"
  shows "newest (sightings db) ip (sp_scan_id p) (sp_payload p) \<and> p \<in> set (scan_pcs db) \<and> sp_ip p = ip"
proof -
  obtain r where r: "first_row (rows_of_ip db ip) = Some r" "p = fst r"
    using assms by (auto simp: latest_scan_pc_for_ip_def)
  from first_row_max [OF r(1) [unfolded rows_of_ip_def]] have "r \<in> set (tracked_rows db)" "sp_ip (fst r) = ip"
    "\<And>q. q \<in> set (tracked_rows db) \<Longrightarrow> sp_ip (fst q) = ip \<Longrightarrow> sp_scan_id (fst q) \<le> sp_scan_id (fst r)"
    by auto
  with newest_of_row [of r db ip] show ?thesis by (auto simp: r(2) set_tracked_rows)
qed

lemma map_of_rows:
  "map_of (map (\<lambda>r. (k r, f r)) rows) x = map_option f (first_row (filter (\<lambda>r. k r = x) rows))"
  by (induction rows) (simp_all add: first_row_def)

lemma first_row_min:
  assumes "first_row (sort_key key rows) = Some r"
  shows "r \<in> set rows \<and> (\<forall>x \<in> set rows. key r \<le> key x)"
proof -
  obtain rest where o: "sort_key key rows = r # rest"
    using assms by (auto simp: first_row_def split: list.splits)
  have "sorted (map key (r # rest))" using sorted_sort_key [of key rows] by (simp add: o)
  moreover have "set rows = set (r # rest)" using o by (metis set_sort)
  ultimately show ?thesis by auto
qed

lemma sort_key_Nil [simp]: "sort_key f xs = [] \<longleftrightarrow> xs = []"
  by (metis length_0_conv length_sort)

lemma in_set_not_Nil: "x \<in> set xs \<Longrightarrow> xs \<noteq> []"
  by auto

lemma get_scan_pc_iff:
  assumes "registry_ok db"
  shows "get_scan_pc db ip = Some v \<longleftrightarrow> (\<exists>i. newest (sightings db) ip i v)"
proof -
  let ?rows = "filter (\<lambda>r. sp_ip (fst r) = ip) (tracked_rows db)"
  have g: "get_scan_pc db ip = map_option (\<lambda>r. sp_payload (fst r))
      (first_row (sort_key (\<lambda>r. (sp_ip (fst r), - sp_scan_id (fst r))) ?rows))"
    by (simp add: get_scan_pc_def get_tracked_ips_def map_of_first_wins map_of_rows filter_sort)
  have fwd: "\<exists>i. newest (sightings db) ip i w" if "get_scan_pc db ip = Some w" for w
  proof -
    have "\<exists>r. first_row (sort_key (\<lambda>r. (sp_ip (fst r), - sp_scan_id (fst r))) ?rows) = Some r \<and> w = sp_payload (fst r)"
      using that unfolding g by (cases "first_row (sort_key (\<lambda>r. (sp_ip (fst r), - sp_scan_id (fst r))) ?rows)") simp_all
    then obtain r where r: "first_row (sort_key (\<lambda>r. (sp_ip (fst r), - sp_scan_id (fst r))) ?rows) = Some r"
      "w = sp_payload (fst r)" by (elim exE conjE)
    from first_row_min [OF r(1)] have "r \<in> set (tracked_rows db)" "sp_ip (fst r) = ip"
      "\<And>q. q \<in> set (tracked_rows db) \<Longrightarrow> sp_ip (fst q) = ip \<Longrightarrow> sp_scan_id (fst q) \<le> sp_scan_id (fst r)"
      by (auto simp: less_eq_prod_def)
    from newest_of_row [OF this] show ?thesis by (auto simp: r(2))
  qed
  moreover have "get_scan_pc db ip \<noteq> None" if "newest (sightings db) ip i v" for i
  proof -
    have "(i, ip, v) \<in> sightings db" using that unfolding newest_def ..
    then obtain r where "r \<in> set (tracked_rows db)" "sp_ip (fst r) = ip" by (rule sightingE)
    then have "r \<in> set ?rows" by simp
    then have "?rows \<noteq> []" by (rule in_set_not_Nil)
    then show ?thesis unfolding g by simp
  qed
  ultimately show ?thesis using newest_unique [OF assms] by (metis not_None_eq)
qed

lemma get_scan_pc_None: "registry_ok db \<Longrightarrow> get_scan_pc db ip = None \<longleftrightarrow> (\<forall>i v. \<not> newest (sightings db) ip i v)"
  using get_scan_pc_iff by (metis not_None_eq)

text \<open>The three ways the tables change, as changes of the sightings.\<close>

definition good_ids :: "panel_db \<Rightarrow> int set" where
  "good_ids db = sc_id ` set (filter (\<lambda>s. sc_error s = None) (scans db))"

lemma in_sightings:
  "(i, a, v) \<in> sightings db \<longleftrightarrow>
     i \<in> good_ids db \<and> (\<exists>p \<in> set (scan_pcs db). sp_scan_id p = i \<and> sp_ip p = a \<and> sp_payload p = v)"
proof
  assume "(i, a, v) \<in> sightings db"
  then obtain r where r: "r \<in> set (tracked_rows db)" "sp_scan_id (fst r) = i" "sp_ip (fst r) = a" "sp_payload (fst r) = v"
    by (rule sightingE)
  then have "fst r \<in> set (scan_pcs db)" "sc_id (snd r) = i" "snd r \<in> set (scans db)" "sc_error (snd r) = None"
    by (auto simp: set_tracked_rows)
  with r show "i \<in> good_ids db \<and> (\<exists>p \<in> set (scan_pcs db). sp_scan_id p = i \<and> sp_ip p = a \<and> sp_payload p = v)"
    unfolding good_ids_def by (intro conjI bexI [of _ "fst r"] image_eqI [of _ _ "snd r"]) simp_all
next
  assume "i \<in> good_ids db \<and> (\<exists>p \<in> set (scan_pcs db). sp_scan_id p = i \<and> sp_ip p = a \<and> sp_payload p = v)"
  then obtain p t where "p \<in> set (scan_pcs db)" "sp_scan_id p = i" "sp_ip p = a" "sp_payload p = v"
    "t \<in> set (scans db)" "sc_error t = None" "sc_id t = i"
    unfolding good_ids_def by auto
  then have "(p, t) \<in> set (tracked_rows db)" by (simp add: set_tracked_rows)
  then show "(i, a, v) \<in> sightings db"
    unfolding sightings_def using \<open>sp_scan_id p = i\<close> \<open>sp_ip p = a\<close> \<open>sp_payload p = v\<close> by force
qed

lemma sightings_eqI:
  "good_ids db' = good_ids db \<Longrightarrow> scan_pcs db' = scan_pcs db \<Longrightarrow> sightings db' = sightings db"
  by (rule set_eqI) (simp add: split_paired_all in_sightings)

lemma good_ids_map:
  assumes "\<And>s. sc_id (g s) = sc_id s \<and> sc_error (g s) = sc_error s"
  shows "sc_id ` set (filter (\<lambda>s. sc_error s = None) (map g ss)) = sc_id ` set (filter (\<lambda>s. sc_error s = None) ss)"
  using assms by (induction ss) simp_all

lemma good_ids_touch_scan [simp]: "good_ids (touch_scan i t db) = good_ids db"
  unfolding good_ids_def touch_scan_def by (simp add: good_ids_map del: set_filter filter_map)

lemma sightings_touch_scan [simp]: "sightings (touch_scan i t db) = sightings db"
  by (rule sightings_eqI) (simp_all add: touch_scan_def good_ids_touch_scan [unfolded touch_scan_def])

lemma sightings_update:
  assumes "\<And>p. sp_scan_id (f p) = sp_scan_id p \<and> sp_ip (f p) = sp_ip p \<and> sp_payload (f p) = v"
  shows "(j, a, u) \<in> sightings (update_scan_pc i ip f db) \<longleftrightarrow>
    (if j = i \<and> a = ip then u = v \<and> (\<exists>w. (j, a, w) \<in> sightings db) else (j, a, u) \<in> sightings db)"
proof -
  have "good_ids (update_scan_pc i ip f db) = good_ids db" by (simp add: good_ids_def update_scan_pc_def)
  moreover have "(\<exists>p \<in> set (scan_pcs (update_scan_pc i ip f db)). sp_scan_id p = j \<and> sp_ip p = a \<and> sp_payload p = u) \<longleftrightarrow>
      (\<exists>p \<in> set (scan_pcs db). sp_scan_id p = j \<and> sp_ip p = a
         \<and> (if j = i \<and> a = ip then v else sp_payload p) = u)"
    using assms by (auto simp: update_scan_pc_def)
  ultimately show ?thesis by (auto simp: in_sightings)
qed

lemma old_number:
  assumes "registry_ok db" and "p \<in> set (scan_pcs db)"
  shows "sp_scan_id p < db_next_scan db"
proof -
  have "sp_scan_id p \<in> sc_id ` set (scans db)" using assms by (auto simp: registry_ok_def)
  then show ?thesis using assms(1) by (auto simp: registry_ok_def)
qed

lemma sightings_insert:
  assumes "registry_ok db"
  shows "(j, a, u) \<in> sightings (insert_scan ip payload t db) \<longleftrightarrow>
    j = db_next_scan db \<and> a = ip \<and> u = payload \<or> (j, a, u) \<in> sightings db"
proof -
  have "good_ids (insert_scan ip payload t db) = insert (db_next_scan db) (good_ids db)"
    by (simp add: good_ids_def insert_scan_def Let_def)
  moreover have "\<exists>p \<in> set (scan_pcs db). sp_scan_id p = j \<Longrightarrow> j \<noteq> db_next_scan db"
    using old_number [OF assms] by (metis less_irrefl)
  moreover have "db_next_scan db \<notin> good_ids db" using assms by (auto simp: good_ids_def registry_ok_def)
  ultimately show ?thesis by (auto simp: in_sightings insert_scan_def Let_def)
qed

lemma fresh_number: "registry_ok db \<Longrightarrow> (i, ip, v) \<in> sightings db \<Longrightarrow> i < db_next_scan db"
  using old_number by (auto simp: in_sightings)

text \<open>The current payload of an address changes only for the address that is recorded.\<close>

lemma newest_update:
  assumes "registry_ok db" and "newest (sightings db) ip i w"
    and "\<And>p. sp_scan_id (f p) = sp_scan_id p \<and> sp_ip (f p) = sp_ip p \<and> sp_payload (f p) = v"
  shows "newest (sightings (update_scan_pc i ip f db)) a j u \<longleftrightarrow>
    (if a = ip then j = i \<and> u = v else newest (sightings db) a j u)"
proof -
  note S = sightings_update [OF assms(3)]
  have "(i, ip, w) \<in> sightings db" "\<And>k x. (k, ip, x) \<in> sightings db \<Longrightarrow> k \<le> i"
    using assms(2) unfolding newest_def by blast+
  then show ?thesis unfolding newest_def S by (cases "a = ip") (auto intro: antisym)
qed

lemma newest_insert:
  assumes "registry_ok db"
  shows "newest (sightings (insert_scan ip payload t db)) a j u \<longleftrightarrow>
    (if a = ip then j = db_next_scan db \<and> u = payload else newest (sightings db) a j u)"
proof -
  have old: "k < db_next_scan db" if "(k, b, x) \<in> sightings db" for k b x
    using fresh_number [OF assms that] .
  note S = sightings_insert [OF assms]
  show ?thesis
  proof (cases "a = ip")
    case True
    have "\<not> db_next_scan db \<le> k" if "(k, ip, x) \<in> sightings db" for k x
      using old [OF that] by simp
    moreover have "k \<le> db_next_scan db" if "(k, ip, x) \<in> sightings db" for k x
      using old [OF that] by simp
    ultimately have "(((j = db_next_scan db \<and> u = payload) \<or> (j, ip, u) \<in> sightings db)
        \<and> (\<forall>k x. (k = db_next_scan db \<and> x = payload) \<or> (k, ip, x) \<in> sightings db \<longrightarrow> k \<le> j))
      \<longleftrightarrow> j = db_next_scan db \<and> u = payload" by blast
    then show ?thesis unfolding newest_def S True by simp
  next
    case False
    then show ?thesis unfolding newest_def S by simp
  qed
qed

section \<open>The keys stay keys\<close>

lemma registry_ok_update:
  assumes "registry_ok db"
    and "\<And>p. sp_scan_id (f p) = sp_scan_id p \<and> sp_ip (f p) = sp_ip p \<and> sp_payload (f p) = v"
    and "jget v ''ip'' = JStr ip"
  shows "registry_ok (update_scan_pc i ip f db)"
proof -
  have keys: "map (\<lambda>p. (sp_scan_id p, sp_ip p)) (map (\<lambda>p. if sp_scan_id p = i \<and> sp_ip p = ip then f p else p) ps)
      = map (\<lambda>p. (sp_scan_id p, sp_ip p)) ps" for ps
    using assms(2) by (induction ps) simp_all
  show ?thesis
    using assms keys by (auto simp: registry_ok_def update_scan_pc_def simp del: map_map)
qed

lemma registry_ok_cong:
  assumes "map sc_id (scans db') = map sc_id (scans db)" and "scan_pcs db' = scan_pcs db"
    and "db_next_scan db' = db_next_scan db"
  shows "registry_ok db' \<longleftrightarrow> registry_ok db"
proof -
  have ids: "sc_id ` set (scans db') = sc_id ` set (scans db)" using assms(1) by (metis list.set_map)
  have "(\<forall>s \<in> set (scans d). sc_id s < n) \<longleftrightarrow> (\<forall>i \<in> sc_id ` set (scans d). i < n)" for d n by simp
  then have "(\<forall>s \<in> set (scans db'). sc_id s < n) \<longleftrightarrow> (\<forall>s \<in> set (scans db). sc_id s < n)" for n
    using ids by metis
  then show ?thesis using assms ids by (simp only: registry_ok_def)
qed

lemma registry_ok_touch: "registry_ok db \<Longrightarrow> registry_ok (touch_scan i t db)"
proof -
  have "map sc_id (map (\<lambda>s. if sc_id s = i then s\<lparr>sc_scanned_at := t\<rparr> else s) ss) = map sc_id ss" for ss
    by (induction ss) simp_all
  then have "registry_ok (touch_scan i t db) \<longleftrightarrow> registry_ok db"
    by (intro registry_ok_cong) (simp_all add: touch_scan_def del: map_map)
  then show "registry_ok db \<Longrightarrow> registry_ok (touch_scan i t db)" by simp
qed

lemma registry_ok_insert:
  assumes "registry_ok db" and "jget payload ''ip'' = JStr ip"
  shows "registry_ok (insert_scan ip payload t db)"
proof -
  have "(db_next_scan db, ip) \<notin> (\<lambda>p. (sp_scan_id p, sp_ip p)) ` set (scan_pcs db)"
    using old_number [OF assms(1)] by fastforce
  moreover have "db_next_scan db \<notin> sc_id ` set (scans db)" using assms(1) by (auto simp: registry_ok_def)
  ultimately show ?thesis
    using assms by (auto simp: registry_ok_def insert_scan_def Let_def intro: less_SucI)
qed

lemma registry_ok_record: "registry_ok db \<Longrightarrow> registry_ok (record_poll_inspect ip info now db)"
  unfolding record_poll_inspect_def Let_def
  by (auto intro!: registry_ok_touch registry_ok_update registry_ok_insert split: option.split)

lemma registry_ok_mark:
  assumes "registry_ok db"
  shows "registry_ok (mark_latest_not_connected ip db)"
proof (cases "latest_scan_pc_for_ip db ip")
  case None
  with assms show ?thesis by (simp add: mark_latest_not_connected_def)
next
  case (Some p)
  from latest_Some [OF Some] assms have "jget (sp_payload p) ''ip'' = JStr ip" by (auto simp: registry_ok_def)
  then show ?thesis
    using assms Some by (auto simp: mark_latest_not_connected_def Let_def intro!: registry_ok_update)
qed

lemma registry_ok_filter:
  assumes "registry_ok db"
  shows "registry_ok (prune_orphan_scans (db\<lparr>scan_pcs := filter P (scan_pcs db)\<rparr>))"
proof -
  let ?db = "prune_orphan_scans (db\<lparr>scan_pcs := filter P (scan_pcs db)\<rparr>)"
  have "sp_scan_id p \<in> sc_id ` set (scans ?db)" if "p \<in> set (scan_pcs db)" "P p" for p
  proof -
    have "sp_scan_id p \<in> sc_id ` set (scans db)" using assms that(1) unfolding registry_ok_def by blast
    then obtain t where t: "t \<in> set (scans db)" "sp_scan_id p = sc_id t" by blast
    have "sc_id t \<in> sp_scan_id ` set (filter P (scan_pcs db))"
      unfolding t(2) [symmetric] using that by (intro imageI) simp
    then have "t \<in> set (scans ?db)" using t(1) by (simp add: prune_orphan_scans_def)
    with t(2) show ?thesis by (rule image_eqI)
  qed
  with assms show ?thesis
    by (simp add: registry_ok_def distinct_map_filter prune_orphan_scans_def)
qed

text \<open>The two ways the registry changes, as steps.\<close>

datatype registry_event = Recorded pystr jdict aware | Pruned "int option" aware

fun registry_step :: "(datetime \<Rightarrow> int) \<Rightarrow> registry_event \<Rightarrow> panel_db \<Rightarrow> panel_db" where
  "registry_step zone (Recorded ip info now) db = record_poll_inspect ip info now db"
| "registry_step zone (Pruned hours now) db = snd (prune_stale_tracked_ips zone hours now db)"

lemma registry_ok_step: "registry_ok db \<Longrightarrow> registry_ok (registry_step zone e db)"
  by (cases e) (auto simp: registry_ok_record prune_stale_tracked_ips_def Let_def
      intro!: registry_ok_mark registry_ok_filter)

interpretation registry: stepper registry_ok "registry_step zone" for zone
  by unfold_locales (rule registry_ok_step)

definition empty_db :: panel_db where
  "empty_db = \<lparr>snapshots = [], scans = [], scan_pcs = [], panel_meta = [], reverse_agents = [], db_next_scan = 1\<rparr>"

lemma registry_ok_empty: "registry_ok empty_db"
  by (simp add: registry_ok_def empty_db_def)

section \<open>Reading after recording\<close>

lemma newest_record:
  assumes "registry_ok db"
  shows "(\<exists>i. newest (sightings (record_poll_inspect ip info now db)) a i v) \<longleftrightarrow>
    (if a = ip then v = jset info ''ip'' (JStr ip) else (\<exists>i. newest (sightings db) a i v))"
proof (cases "latest_scan_pc_for_ip db ip")
  case None
  then show ?thesis by (simp add: record_poll_inspect_def Let_def newest_insert [OF assms])
next
  case (Some p)
  then have n: "newest (sightings db) ip (sp_scan_id p) (sp_payload p)" using latest_Some by blast
  show ?thesis
    unfolding record_poll_inspect_def Let_def Some option.case
    by (simp add: newest_insert [OF assms] newest_update [OF assms n])
qed

lemma option_eqI: "(\<And>v. x = Some v \<longleftrightarrow> y = Some v) \<Longrightarrow> x = y"
  by (cases x; cases y) auto

lemma get_scan_pc_record:
  assumes "registry_ok db"
  shows "get_scan_pc (record_poll_inspect ip info now db) a =
    (if a = ip then Some (jset info ''ip'' (JStr ip)) else get_scan_pc db a)"
proof -
  let ?db = "record_poll_inspect ip info now db"
  have "get_scan_pc ?db a = Some v \<longleftrightarrow> (if a = ip then v = jset info ''ip'' (JStr ip) else get_scan_pc db a = Some v)" for v
    using newest_record [OF assms] get_scan_pc_iff [OF assms] get_scan_pc_iff [OF registry_ok_record [OF assms]]
    by simp
  then show ?thesis by (cases "a = ip") (auto intro: option_eqI)
qed

lemma get_scan_pc_latest:
  assumes "registry_ok db"
  shows "get_scan_pc db ip = map_option sp_payload (latest_scan_pc_for_ip db ip)"
proof (cases "latest_scan_pc_for_ip db ip")
  case None
  then have "\<not> newest (sightings db) ip i v" for i v by (simp add: latest_None newest_def)
  then have "get_scan_pc db ip = None" using get_scan_pc_None [OF assms] by blast
  with None show ?thesis by simp
next
  case (Some p)
  with latest_Some [OF Some] get_scan_pc_iff [OF assms] show ?thesis by auto
qed

section \<open>Pruning\<close>

definition without_ips :: "pystr set \<Rightarrow> panel_db \<Rightarrow> panel_db" where
  "without_ips A db = prune_orphan_scans (db\<lparr>scan_pcs := filter (\<lambda>p. sp_ip p \<notin> A) (scan_pcs db)\<rparr>)"

lemma sightings_without: "(i, a, v) \<in> sightings (without_ips A db) \<longleftrightarrow> a \<notin> A \<and> (i, a, v) \<in> sightings db"
proof -
  have "i \<in> good_ids (without_ips A db) \<longleftrightarrow>
      i \<in> good_ids db \<and> i \<in> sp_scan_id ` set (filter (\<lambda>p. sp_ip p \<notin> A) (scan_pcs db))" for i
    by (auto simp: good_ids_def without_ips_def prune_orphan_scans_def)
  then show ?thesis by (auto simp: in_sightings without_ips_def prune_orphan_scans_def)
qed

lemma get_scan_pc_without:
  assumes "registry_ok db"
  shows "get_scan_pc (without_ips A db) a = (if a \<in> A then None else get_scan_pc db a)"
proof -
  have ok: "registry_ok (without_ips A db)" unfolding without_ips_def by (rule registry_ok_filter [OF assms])
  have "(\<exists>i. newest (sightings (without_ips A db)) a i v) \<longleftrightarrow> a \<notin> A \<and> (\<exists>i. newest (sightings db) a i v)" for v
    by (auto simp: newest_def sightings_without)
  then show ?thesis
    using get_scan_pc_iff [OF assms] get_scan_pc_iff [OF ok] by (intro option_eqI) simp
qed

lemma only_member:
  assumes "distinct xs" and "\<And>a. a \<in> set xs \<longleftrightarrow> a = x"
  shows "xs = [x]"
proof (cases xs)
  case Nil
  with assms(2) [of x] show ?thesis by simp
next
  case (Cons y ys)
  moreover from this have "y = x" using assms(2) [of y] by simp
  moreover have "ys = []"
  proof (cases ys)
    case (Cons z zs)
    then have "z = x" using assms(2) [of z] \<open>xs = y # ys\<close> by simp
    then show ?thesis using assms(1) \<open>xs = y # ys\<close> \<open>y = x\<close> Cons by simp
  qed simp
  ultimately show ?thesis by simp
qed

lemma in_tracked_ips: "a \<in> set (tracked_ips db) \<longleftrightarrow> (\<exists>i v. (i, a, v) \<in> sightings db)"
  by (force simp: tracked_ips_def sightings_def)

lemma newest_exists:
  assumes "registry_ok db" and "(i, a, v) \<in> sightings db"
  shows "\<exists>j u. newest (sightings db) a j u"
proof (cases "latest_scan_pc_for_ip db a")
  case None
  with assms(2) show ?thesis by (auto simp: latest_None)
next
  case (Some p)
  with latest_Some show ?thesis by blast
qed

lemma tracked_iff: "registry_ok db \<Longrightarrow> a \<in> set (tracked_ips db) \<longleftrightarrow> get_scan_pc db a \<noteq> None"
  unfolding in_tracked_ips using newest_exists get_scan_pc_None by (metis newest_def)

definition disconnected :: "jdict \<Rightarrow> jdict" where
  "disconnected v =
     (if \<not> jtruthy (jget_or v ''reachable'' (JBool True)) \<and> \<not> jhas v ''connection_error'' then v
      else jpop (jset v ''reachable'' (JBool False)) ''connection_error'')"

lemma disconnected_unreachable: "\<not> jtruthy (jget_or (disconnected v) ''reachable'' (JBool True))"
proof (cases "\<not> jtruthy (jget_or v ''reachable'' (JBool True)) \<and> \<not> jhas v ''connection_error''")
  case False
  then have "disconnected v = jpop (jset v ''reachable'' (JBool False)) ''connection_error''"
    unfolding disconnected_def by (rule if_not_P)
  then show ?thesis by (simp add: jget_or_def)
qed (simp add: disconnected_def)

lemma get_scan_pc_mark:
  assumes "registry_ok db"
  shows "get_scan_pc (mark_latest_not_connected ip db) a =
    (if a = ip then map_option disconnected (get_scan_pc db ip) else get_scan_pc db a)"
proof (cases "latest_scan_pc_for_ip db ip")
  case None
  then show ?thesis using get_scan_pc_latest [OF assms, of ip] by (simp add: mark_latest_not_connected_def)
next
  case (Some p)
  then have n: "newest (sightings db) ip (sp_scan_id p) (sp_payload p)" using latest_Some by blast
  have c: "get_scan_pc db ip = Some (sp_payload p)" using Some get_scan_pc_latest [OF assms] by simp
  show ?thesis
  proof (cases "\<not> jtruthy (jget_or (sp_payload p) ''reachable'' (JBool True)) \<and> \<not> jhas (sp_payload p) ''connection_error''")
    case True
    then show ?thesis using Some c by (simp add: mark_latest_not_connected_def Let_def disconnected_def)
  next
    case False
    let ?v = "jpop (jset (sp_payload p) ''reachable'' (JBool False)) ''connection_error''"
    have m: "mark_latest_not_connected ip db = update_scan_pc (sp_scan_id p) ip (\<lambda>q. q\<lparr>sp_payload := ?v\<rparr>) db"
      using False Some by (auto simp: mark_latest_not_connected_def Let_def)
    have "get_scan_pc (mark_latest_not_connected ip db) a = Some v \<longleftrightarrow>
        (if a = ip then v = ?v else get_scan_pc db a = Some v)" for v
      using get_scan_pc_iff [OF assms] get_scan_pc_iff [OF registry_ok_mark [OF assms], of ip]
      unfolding m by (simp add: newest_update [OF assms n])
    then have "get_scan_pc (mark_latest_not_connected ip db) a = (if a = ip then Some ?v else get_scan_pc db a)"
      by (intro option_eqI) auto
    with False c show ?thesis by (auto simp: disconnected_def)
  qed
qed

section \<open>Properties\<close>

text \<open>
  The panel shows the last thing it was told: after a report on an address is recorded,
  that report (with the address in it) is what the panel holds for the address, whatever
  it held before, and no other computer's state changes. A scan row is added only when the
  dashboard status of the address changes; otherwise the newest row is replaced.
\<close>

theorem recorded_report_is_current:
  assumes "registry_ok db"
  shows "get_scan_pc (record_poll_inspect ip info now db) a =
      (if a = ip then Some (jset info ''ip'' (JStr ip)) else get_scan_pc db a)
    \<and> length (scans (record_poll_inspect ip info now db)) =
        length (scans db)
        + (if map_option dashboard_status_key (get_scan_pc db ip)
              = Some (dashboard_status_key (jset info ''ip'' (JStr ip))) then 0 else 1)"
proof
  have n: "map_option dashboard_status_key (get_scan_pc db ip)
      = map_option (\<lambda>p. dashboard_status_key (sp_payload p)) (latest_scan_pc_for_ip db ip)"
    by (simp add: get_scan_pc_latest [OF assms] option.map_comp comp_def)
  show "length (scans (record_poll_inspect ip info now db)) =
        length (scans db)
        + (if map_option dashboard_status_key (get_scan_pc db ip)
              = Some (dashboard_status_key (jset info ''ip'' (JStr ip))) then 0 else 1)"
    unfolding n record_poll_inspect_def Let_def
    by (auto simp: insert_scan_def Let_def touch_scan_def update_scan_pc_def split: option.split)
qed (rule get_scan_pc_record [OF assms])

definition sample_time :: aware where
  "sample_time = Aware (DateTime (Date 2026 3 4) 20 0 0 0) (- 300)"

theorem recorded_report_is_current_witness:
  "get_scan_pc (record_poll_inspect (lit ''10.0.0.7'') [(lit ''reachable'', JBool False)] sample_time empty_db)
     (lit ''10.0.0.7'') = Some [(lit ''reachable'', JBool False), (lit ''ip'', JStr (lit ''10.0.0.7''))]"
  using recorded_report_is_current [OF registry_ok_empty, of "lit ''10.0.0.7''" "[(lit ''reachable'', JBool False)]"
      sample_time "lit ''10.0.0.7''"]
  by (simp add: jset_def)

text \<open>
  Pruning forgets exactly the stale computers: those whose last reachable report or
  snapshot is older than the limit (12 hours by default), or that have none; all others
  keep their state. The only computer there is is never forgotten: it is kept and marked
  not reachable.
\<close>

theorem pruning_forgets_the_stale:
  assumes "registry_ok db" and "prune_stale_tracked_ips zone hours now db = (gone, db')"
    and "cutoff = instant now - hours_us (case hours of None \<Rightarrow> 12 | Some h \<Rightarrow> h)"
  shows "if \<exists>ip. tracked_ips db = [ip] \<and> is_stale zone cutoff db ip
    then gone = [] \<and> (\<forall>ip v. tracked_ips db = [ip] \<and> get_scan_pc db' ip = Some v \<longrightarrow>
           \<not> jtruthy (jget_or v ''reachable'' (JBool True)) \<and> tracked_ips db' = [ip])
    else set gone = {ip \<in> set (tracked_ips db). is_stale zone cutoff db ip}
      \<and> (\<forall>a. get_scan_pc db' a = (if a \<in> set gone then None else get_scan_pc db a))"
proof (cases "\<exists>ip. tracked_ips db = [ip] \<and> is_stale zone cutoff db ip")
  case True
  then obtain ip where ip: "tracked_ips db = [ip]" "is_stale zone cutoff db ip" by blast
  then have p: "gone = []" "db' = mark_latest_not_connected ip db"
    using assms(2) unfolding prune_stale_tracked_ips_def Let_def STALE_TRACKED_HOURS_def assms(3) [symmetric]
    by simp_all
  have ok: "registry_ok db'" unfolding p(2) by (rule registry_ok_mark [OF assms(1)])
  have tr: "a \<in> set (tracked_ips db') \<longleftrightarrow> a = ip" for a
    using tracked_iff [OF ok, of a] tracked_iff [OF assms(1), of a] ip(1)
    unfolding p(2) get_scan_pc_mark [OF assms(1)] by (auto split: if_splits)
  have "distinct (tracked_ips db')" by (simp add: tracked_ips_def)
  then have "tracked_ips db' = [ip]" using tr by (rule only_member)
  moreover have "\<not> jtruthy (jget_or v ''reachable'' (JBool True))" if "get_scan_pc db' ip = Some v" for v
    using that disconnected_unreachable unfolding p(2) get_scan_pc_mark [OF assms(1)] by auto
  ultimately show ?thesis using True ip(1) p(1) by auto
next
  case False
  then have "\<not> (length (tracked_ips db) = 1 \<and> filter (is_stale zone cutoff db) (tracked_ips db) \<noteq> [])"
    by (auto simp: length_Suc_conv split: if_splits)
  then have p: "gone = filter (is_stale zone cutoff db) (tracked_ips db)" "db' = without_ips (set gone) db"
    using assms(2) unfolding prune_stale_tracked_ips_def Let_def STALE_TRACKED_HOURS_def assms(3) [symmetric]
    by (auto simp: without_ips_def)
  show ?thesis unfolding if_not_P [OF False] by (auto simp: p(1)) (simp_all add: p(2) get_scan_pc_without [OF assms(1)] p(1))
qed

definition one_computer :: panel_db where
  "one_computer = empty_db\<lparr>
     scans := [\<lparr>sc_id = 1, sc_scanned_at = written sample_time, sc_network_label = POLL_NETWORK_LABEL,
                sc_subnet = [], sc_error = None\<rparr>],
     scan_pcs := [\<lparr>sp_scan_id = 1, sp_ip = lit ''10.0.0.7'', sp_hostname = None,
                   sp_payload = [(lit ''ip'', JStr (lit ''10.0.0.7''))]\<rparr>],
     db_next_scan := 2\<rparr>"

lemma one_computer_ok: "registry_ok one_computer"
  by (simp add: one_computer_def registry_ok_def empty_db_def jget_Cons)

lemma one_computer_tracked: "tracked_ips one_computer = [lit ''10.0.0.7'']"
  by (simp add: one_computer_def tracked_ips_def tracked_rows_def empty_db_def)

theorem pruning_forgets_the_stale_witness:
  "\<exists>db' v. prune_stale_tracked_ips (\<lambda>_. 0) None (Aware (DateTime (Date 2026 3 5) 8 0 1 0) (- 300)) one_computer = ([], db')
     \<and> get_scan_pc db' (lit ''10.0.0.7'') = Some v \<and> \<not> jtruthy (jget_or v ''reachable'' (JBool True))"
proof -
  let ?now = "Aware (DateTime (Date 2026 3 5) 8 0 1 0) (- 300)"
  let ?c = "instant ?now - hours_us 12"
  have "first_row [x] = Some x" "order_desc k [x] = [x]" for x :: 'a and k :: "'a \<Rightarrow> 'b::linorder"
    by (simp_all add: first_row_def order_desc_def)
  then have "tracked_ip_last_updated (\<lambda>_. 0) one_computer (lit ''10.0.0.7'') = Some (Aware (whole_second (DateTime (Date 2026 3 4) 20 0 0 0)) (- 300))"
    by (simp add: tracked_ip_last_updated_def latest_reachable_scan_time_def latest_reachable_snapshot_time_def
        rows_of_ip_def one_computer_def tracked_rows_def empty_db_def jget_or_def jhas_Cons order_desc_def
        sample_time_def written_def parse_db_datetime_def)
  moreover have "instant (Aware (whole_second (DateTime (Date 2026 3 4) 20 0 0 0)) (- 300)) < ?c"
    by (simp add: instant_def whole_second_def hours_us_def dt_us_def toordinal_def minute_us_def)
  ultimately have stale: "is_stale (\<lambda>_. 0) ?c one_computer (lit ''10.0.0.7'')"
    by (simp add: is_stale_def)
  obtain gone db' where p: "prune_stale_tracked_ips (\<lambda>_. 0) None ?now one_computer = (gone, db')" by fastforce
  have "get_scan_pc one_computer (lit ''10.0.0.7'') \<noteq> None"
    using tracked_iff [OF one_computer_ok] one_computer_tracked by (metis list.set_intros(1))
  then obtain v where "get_scan_pc db' (lit ''10.0.0.7'') = Some v"
    using p stale one_computer_tracked
    by (auto simp: prune_stale_tracked_ips_def Let_def STALE_TRACKED_HOURS_def get_scan_pc_mark [OF one_computer_ok])
  with pruning_forgets_the_stale [OF one_computer_ok p, of ?c] stale one_computer_tracked p
  show ?thesis by auto
qed

end
