(* ===== verification/Snapshot_Store.thy ===== *)
theory Snapshot_Store
  imports Scan_Store
begin

text \<open>
  \<open>src/kid_pc_monitor/snapshot_store.py\<close>: the last state of each user on each computer on
  each day, the dashboard made from it and from the registry of \<open>Scan_Store\<close>, the usage
  history and the weekly trimming; with \<open>parse_remaining_minutes\<close> of
  \<open>panel_format.py\<close>. An operation uses one reading of the clock, also where the trimming
  reads it again. Saving is given here by its whole effect; \<open>Db_File\<close> has its statements.
\<close>

section \<open>Remaining minutes\<close>

text \<open>
  The pattern: blanks, an optional minus, digits of any script with an optional fraction,
  blanks, optionally \<open>min\<close>, \<open>mins\<close>, \<open>minute\<close> or \<open>minutes\<close>, blanks.
\<close>

definition minute_words :: "pystr list" where
  "minute_words = [[], lit ''min'', lit ''mins'', lit ''minute'', lit ''minutes'']"

definition scan_number :: "pystr \<Rightarrow> (rat \<times> pystr) option" where
  "scan_number s =
     (let (neg, u) = (case s of c # r \<Rightarrow> if c = 45 then (True, r) else (False, s) | [] \<Rightarrow> (False, s));
          i = takeWhile is_digit u; r = dropWhile is_digit u;
          (f, r') = (case r of
                       c # t \<Rightarrow> if c = 46 \<and> takeWhile is_digit t \<noteq> []
                                then (takeWhile is_digit t, dropWhile is_digit t) else ([], r)
                     | [] \<Rightarrow> ([], []));
          x = of_nat (digits_val (i @ f)) / 10 ^ length f
      in if i = [] then None else Some (if neg then - x else x, r'))"

definition float_value :: "rat \<Rightarrow> pyfloat" where
  "float_value x = float_sum x 0"

definition parse_remaining_minutes :: "json \<Rightarrow> pyfloat option res" where
  "parse_remaining_minutes v =
     (case v of
        JInt i \<Rightarrow> rbind (to_float (of_int i)) (\<lambda>x. Inr (Some (Fin x)))
      | JFloat x \<Rightarrow> Inr (Some x)
      | JStr s \<Rightarrow>
          (case scan_number (strip (map ascii_decimal s)) of
             Some (x, r) \<Rightarrow>
               if dropWhile is_space r \<in> set minute_words then Inr (Some (float_value x)) else Inr None
           | None \<Rightarrow> Inr None)
      | _ \<Rightarrow> Inr None)"

section \<open>Saving\<close>

definition snapshot_username :: "jdict \<Rightarrow> pystr" where
  "snapshot_username info = (case jget info ''current_user'' of JStr u \<Rightarrow> u | _ \<Rightarrow> [])"

text \<open>\<open>INSERT OR REPLACE\<close>: the row with the same key goes, the new one comes last.\<close>

definition same_snapshot :: "snapshot_row \<Rightarrow> snapshot_row \<Rightarrow> bool" where
  "same_snapshot a b \<longleftrightarrow>
     sn_username a = sn_username b \<and> sn_hostname a = sn_hostname b \<and> sn_date a = sn_date b"

definition replace_snapshot :: "snapshot_row \<Rightarrow> panel_db \<Rightarrow> panel_db" where
  "replace_snapshot row db =
     db\<lparr>snapshots := filter (\<lambda>r. \<not> same_snapshot r row) (snapshots db) @ [row]\<rparr>"

section \<open>Trimming\<close>

definition META_LAST_TRIM_AT :: pystr where
  "META_LAST_TRIM_AT = lit ''last_trim_at''"

definition RETENTION_DAYS :: nat where
  "RETENTION_DAYS = 7"

definition TRIM_INTERVAL_DAYS :: int where
  "TRIM_INTERVAL_DAYS = 7"

text \<open>\<open>day - timedelta(days=n)\<close>.\<close>

fun days_back :: "nat \<Rightarrow> date \<Rightarrow> date res" where
  "days_back 0 d = Inr d"
| "days_back (Suc n) d = rbind (days_back n d) prev_day"

definition trim_old_rows :: "(datetime \<Rightarrow> int) \<Rightarrow> aware \<Rightarrow> unit dbact" where
  "trim_old_rows zone now =
     bind (gets (\<lambda>db. case get_meta db META_LAST_TRIM_AT of
             None \<Rightarrow> True
           | Some t \<Rightarrow> \<not> instant now - instant (parse_db_datetime zone t) < TRIM_INTERVAL_DAYS * day_us))
       (\<lambda>due. if \<not> due then ret ()
         else bind (lift (days_back RETENTION_DAYS (date_of (local_of now))))
           (\<lambda>cutoff. modify (\<lambda>db. set_meta META_LAST_TRIM_AT (written now)
              (db\<lparr>snapshots := filter (\<lambda>r. \<not> sn_date r < cutoff) (snapshots db)\<rparr>))))"

definition save_snapshot :: "(datetime \<Rightarrow> int) \<Rightarrow> aware \<Rightarrow> jdict \<Rightarrow> unit dbact" where
  "save_snapshot zone now info =
     (if \<not> jtruthy (jget info ''reachable'') then ret ()
      else
        let username = snapshot_username info; hostname = jget info ''hostname'' in
        if username = [] \<or> \<not> jtruthy hostname then ret ()
        else
          bind (lift (sql_text hostname))
            (\<lambda>host. bind (lift (sql_text (json_or (jget info ''ip'') (JStr []))))
              (\<lambda>ip. bind (modify (replace_snapshot
                         \<lparr>sn_username = username, sn_hostname = host, sn_ip = ip,
                          sn_date = date_of (local_of now), sn_recorded_at = written now, sn_payload = info\<rparr>))
                (\<lambda>_. trim_old_rows zone now))))"

definition save_poll_snapshot :: "aware \<Rightarrow> jdict \<Rightarrow> unit dbact" where
  "save_poll_snapshot now info =
     (if \<not> jtruthy (jget_or info ''reachable'' (JBool True)) then ret ()
      else
        let ip = jget info ''ip'' in
        if \<not> jtruthy ip then ret ()
        else
          bind (lift (sql_text ip))
            (\<lambda>ip_text.
               let hostname = json_or (jget info ''hostname'') (JStr (lit ''PC at '' @ ip_text)) in
               bind (lift (sql_text hostname))
                 (\<lambda>host. modify (replace_snapshot
                    \<lparr>sn_username = snapshot_username info, sn_hostname = host, sn_ip = ip_text,
                     sn_date = date_of (local_of now), sn_recorded_at = written now,
                     sn_payload = jset (jset info ''ip'' ip) ''hostname'' hostname\<rparr>))))"

section \<open>Looking up\<close>

text \<open>The rows a clause selects, newest text first, skipping unreachable ones on demand.\<close>

definition query_latest_snapshot ::
  "(snapshot_row \<Rightarrow> bool) \<Rightarrow> bool \<Rightarrow> panel_db \<Rightarrow> (time_text \<times> jdict) option" where
  "query_latest_snapshot clause reachable_only db =
     map_option (\<lambda>r. (sn_recorded_at r, sn_payload r))
       (List.find (\<lambda>r. \<not> (reachable_only \<and> \<not> jtruthy (jget (sn_payload r) ''reachable'')))
          (order_desc (\<lambda>r. text_of_time (sn_recorded_at r)) (filter clause (snapshots db))))"

definition get_latest_snapshot_for_pc ::
  "pystr option \<Rightarrow> pystr option \<Rightarrow> bool \<Rightarrow> panel_db \<Rightarrow> (time_text \<times> jdict) option" where
  "get_latest_snapshot_for_pc hostname ip reachable_only db =
     (let by_ip = (case ip of
             Some a \<Rightarrow> if a \<noteq> [] then query_latest_snapshot (\<lambda>r. sn_ip r = a) reachable_only db else None
           | None \<Rightarrow> None)
      in case hostname of
           Some h \<Rightarrow>
             if h \<noteq> [] then
               (case query_latest_snapshot (\<lambda>r. sn_hostname r = h) reachable_only db of
                  Some x \<Rightarrow> Some x
                | None \<Rightarrow> by_ip)
             else by_ip
         | None \<Rightarrow> by_ip)"

definition snapshot_has_panel_data :: "jdict \<Rightarrow> bool" where
  "snapshot_has_panel_data payload \<longleftrightarrow> jget payload ''status'' \<noteq> JNull"

definition get_latest_panel_snapshot_for_pc ::
  "pystr option \<Rightarrow> pystr option \<Rightarrow> panel_db \<Rightarrow> (time_text \<times> jdict) option" where
  "get_latest_panel_snapshot_for_pc hostname ip db =
     (case get_latest_snapshot_for_pc hostname ip False db of
        Some (t, payload) \<Rightarrow>
          if snapshot_has_panel_data payload then Some (t, payload)
          else get_latest_snapshot_for_pc hostname ip True db
      | None \<Rightarrow> get_latest_snapshot_for_pc hostname ip True db)"

section \<open>The dashboard\<close>

definition status_rank :: "pystr \<Rightarrow> int" where
  "status_rank k =
     (if k = lit ''online'' \<or> k = lit ''locked'' then 3 else if k = lit ''not_connected'' then 1 else 0)"

text \<open>\<open>cf\<close> is \<open>str.casefold\<close>.\<close>

definition dedupe_hostname :: "(pystr \<Rightarrow> pystr) \<Rightarrow> jdict \<Rightarrow> pystr \<Rightarrow> pystr option" where
  "dedupe_hostname cf info ip =
     (case jget info ''hostname'' of
        JStr h \<Rightarrow> if h = [] \<or> h = lit ''PC at '' @ ip then None else Some (cf h)
      | _ \<Rightarrow> None)"

type_synonym dashboard = "(pystr \<times> jdict) list"

definition card :: "dashboard \<Rightarrow> pystr \<Rightarrow> jdict" where
  "card dash ip = (case map_of dash ip of Some info \<Rightarrow> info | None \<Rightarrow> [])"

definition card_key :: "dashboard \<Rightarrow> (pystr \<times> aware) list \<Rightarrow> pystr \<Rightarrow> int \<times> int \<times> pystr" where
  "card_key dash contacts ip =
     ((case map_of contacts ip of Some t \<Rightarrow> instant t | None \<Rightarrow> dt_us (DateTime (Date 1970 1 1) 0 0 0 0)),
      status_rank (dashboard_status_key (card dash ip)), ip)"

text \<open>The loop that keeps the best address of each host name.\<close>

definition better_card ::
  "(pystr \<Rightarrow> pystr) \<Rightarrow> dashboard \<Rightarrow> (pystr \<times> aware) list \<Rightarrow> pystr \<times> jdict \<Rightarrow>
   (pystr \<times> pystr) list \<Rightarrow> (pystr \<times> pystr) list" where
  "better_card cf dash contacts e best =
     (case dedupe_hostname cf (snd e) (fst e) of
        None \<Rightarrow> best
      | Some host \<Rightarrow>
          (case map_of best host of
             None \<Rightarrow> AList.update host (fst e) best
           | Some current \<Rightarrow>
               if card_key dash contacts current < card_key dash contacts (fst e)
               then AList.update host (fst e) best else best))"

definition dedupe_by_hostname ::
  "(pystr \<Rightarrow> pystr) \<Rightarrow> dashboard \<Rightarrow> (pystr \<times> aware) list \<Rightarrow> dashboard" where
  "dedupe_by_hostname cf dash contacts =
     (let best = fold (better_card cf dash contacts) dash [] in
      filter (\<lambda>e. dedupe_hostname cf (snd e) (fst e) = None \<or> fst e \<in> snd ` set best) dash)"

text \<open>One card: a live entry is overlaid with the newest snapshot of its address.\<close>

definition dashboard_card :: "panel_db \<Rightarrow> pystr \<times> jdict \<Rightarrow> jdict \<times> time_text option" where
  "dashboard_card db e =
     (let ip = fst e; entry = snd e in
      if \<not> jtruthy (jget_or entry ''reachable'' (JBool True)) \<or> jtruthy (jget entry ''connection_error'')
      then (jset entry ''ip'' (JStr ip), None)
      else
        case get_latest_snapshot_for_pc None (Some ip) False db of
          Some (t, payload) \<Rightarrow>
            (jset (jset payload ''ip'' (JStr ip)) ''snapshot_recorded_at'' (JStr (text_of_time t)), Some t)
        | None \<Rightarrow> (jset entry ''ip'' (JStr ip), None))"

text \<open>The time of the newest snapshot shown.\<close>

definition later_time :: "(datetime \<Rightarrow> int) \<Rightarrow> time_text option \<Rightarrow> aware option \<Rightarrow> aware option" where
  "later_time zone t shown =
     (case t of
        None \<Rightarrow> shown
      | Some t \<Rightarrow>
          let poll_time = parse_db_datetime zone t in
          case shown of
            None \<Rightarrow> Some poll_time
          | Some l \<Rightarrow> if instant l < instant poll_time then Some poll_time else Some l)"

definition get_dashboard_pcs ::
  "(pystr \<Rightarrow> pystr) \<Rightarrow> (datetime \<Rightarrow> int) \<Rightarrow> panel_db \<Rightarrow> dashboard \<times> aware option" where
  "get_dashboard_pcs cf zone db =
     (let cards = map (\<lambda>e. (fst e, dashboard_card db e)) (get_tracked_ips db);
          dash = map (\<lambda>c. (fst c, fst (snd c))) cards;
          last_poll_at = fold (later_time zone) (map (snd \<circ> snd) cards) None
      in (dedupe_by_hostname cf dash (get_tracked_ip_contact_times zone db), last_poll_at))"

section \<open>Usage history\<close>

definition json_of_float :: "pyfloat option \<Rightarrow> json" where
  "json_of_float x = (case x of None \<Rightarrow> JNull | Some f \<Rightarrow> JFloat f)"

definition iso_date :: "date \<Rightarrow> pystr" where
  "iso_date d = pad0 4 (nat_str (year_of d)) @ [45] @ fmt02 (month_of d) @ [45] @ fmt02 (day_of d)"

definition day_entry_from_payload :: "date \<Rightarrow> jdict \<Rightarrow> jdict res" where
  "day_entry_from_payload day payload =
     rbind (py_int (json_or (jget payload ''accumulated_seconds'') (JInt 0)))
       (\<lambda>accumulated. rbind (py_int (json_or (jget payload ''cumulative_extension_seconds'') (JInt 0)))
         (\<lambda>extension. rbind (parse_remaining_minutes (jget payload ''time_remaining''))
           (\<lambda>remaining. Inr
             [(lit ''date'', JStr (iso_date day)),
              (lit ''accumulated_seconds'', JInt accumulated),
              (lit ''daily_limit'', jget payload ''daily_limit''),
              (lit ''cumulative_extension_seconds'', JInt extension),
              (lit ''time_remaining'', jget payload ''time_remaining''),
              (lit ''remaining_minutes'', json_of_float remaining),
              (lit ''recorded_at'', jget payload ''_recorded_at'')])))"

definition empty_day_entry :: "date \<Rightarrow> jdict" where
  "empty_day_entry day = [(lit ''date'', JStr (iso_date day)), (lit ''no_data'', JBool True)]"

definition history_rows :: "pystr \<Rightarrow> date \<Rightarrow> date \<Rightarrow> panel_db \<Rightarrow> snapshot_row list" where
  "history_rows username start today db =
     sort_key (\<lambda>r. (sn_hostname r, sn_date r))
       (filter (\<lambda>r. sn_username r = username \<and> start \<le> sn_date r \<and> sn_date r \<le> today) (snapshots db))"

text \<open>The entries of all rows, in order; a payload that cannot be read ends the request.\<close>

fun day_entries :: "snapshot_row list \<Rightarrow> ((pystr \<times> date) \<times> jdict) list res" where
  "day_entries [] = Inr []"
| "day_entries (r # rs) =
     rbind (day_entry_from_payload (sn_date r)
              (jset (sn_payload r) ''_recorded_at'' (JStr (text_of_time (sn_recorded_at r)))))
       (\<lambda>e. rbind (day_entries rs) (\<lambda>es. Inr (((sn_hostname r, sn_date r), e) # es)))"

text \<open>\<open>[today - timedelta(days=offset) for offset in range(days)]\<close>.\<close>

fun day_range :: "nat \<Rightarrow> date \<Rightarrow> date list res" where
  "day_range 0 today = Inr []"
| "day_range (Suc n) today = rbind (day_range n today) (\<lambda>ds. rbind (days_back n today) (\<lambda>d. Inr (ds @ [d])))"

definition get_usage_history_for_user ::
  "pystr \<Rightarrow> nat \<Rightarrow> date \<Rightarrow> panel_db \<Rightarrow> (pystr \<times> jdict list) list res" where
  "get_usage_history_for_user username days today db =
     rbind (days_back (days - 1) today)
       (\<lambda>start. let rows = history_rows username start today db in
         rbind (day_entries rows)
           (\<lambda>entries. rbind (day_range days today)
             (\<lambda>range. Inr (map (\<lambda>host.
                 (host, map (\<lambda>day. case dict_of_pairs entries (host, day) of
                                     Some e \<Rightarrow> e | None \<Rightarrow> empty_day_entry day) range))
               (remdups (sort (map sn_hostname rows)))))))"

section \<open>Facts\<close>

lemma replace_snapshot_other [simp]:
  "scans (replace_snapshot row db) = scans db" "scan_pcs (replace_snapshot row db) = scan_pcs db"
  "panel_meta (replace_snapshot row db) = panel_meta db" "db_next_scan (replace_snapshot row db) = db_next_scan db"
  "reverse_agents (replace_snapshot row db) = reverse_agents db"
  by (simp_all add: replace_snapshot_def)

lemma query_newest:
  assumes "row \<in> set (snapshots db)" and "clause row"
    and "\<And>r. r \<in> set (snapshots db) \<Longrightarrow> clause r \<Longrightarrow> r \<noteq> row \<Longrightarrow>
          text_of_time (sn_recorded_at r) < text_of_time (sn_recorded_at row)"
  shows "query_latest_snapshot clause False db = Some (sn_recorded_at row, sn_payload row)"
proof -
  have "first_row (order_desc (\<lambda>r. text_of_time (sn_recorded_at r)) (filter clause (snapshots db))) = Some row"
    using assms by (intro first_row_unique) auto
  then show ?thesis
    by (auto simp: query_latest_snapshot_def first_row_def split: list.splits)
qed

lemma days_back_step: "days_back n d = Inr e \<Longrightarrow> valid_date d \<Longrightarrow> valid_date e \<and> toordinal e = toordinal d - int n"
proof (induction n arbitrary: e)
  case (Suc n)
  then obtain e' where e': "days_back n d = Inr e'" "prev_day e' = Inr e" by (auto simp: rbind_eq_Inr_iff)
  with Suc.IH Suc.prems(2) have "valid_date e'" "toordinal e' = toordinal d - int n" by blast+
  with e'(2) prev_day_valid toordinal_prev_day show ?case by fastforce
qed simp

lemma day_range_length: "day_range n d = Inr ds \<Longrightarrow> length ds = n"
  by (induction n arbitrary: ds) (auto simp: rbind_eq_Inr_iff)

lemma day_range_nth: "day_range n d = Inr ds \<Longrightarrow> i < n \<Longrightarrow> days_back i d = Inr (ds ! i)"
proof (induction n arbitrary: ds)
  case (Suc n)
  then obtain es e where "day_range n d = Inr es" "days_back n d = Inr e" "ds = es @ [e]"
    by (auto simp: rbind_eq_Inr_iff)
  with Suc day_range_length show ?case by (cases "i = n") (auto simp: nth_append)
qed simp

text \<open>The loop over the cards keeps, for every host name seen, the best address.\<close>

definition host_ok ::
  "(pystr \<Rightarrow> pystr) \<Rightarrow> dashboard \<Rightarrow> (pystr \<times> aware) list \<Rightarrow> dashboard \<Rightarrow> pystr \<Rightarrow> pystr option \<Rightarrow> bool" where
  "host_ok cf dash contacts seen host best_ip \<longleftrightarrow>
     (case best_ip of
        None \<Rightarrow> (\<forall>e \<in> set seen. dedupe_hostname cf (snd e) (fst e) \<noteq> Some host)
      | Some ip \<Rightarrow>
          (\<exists>e \<in> set seen. fst e = ip \<and> dedupe_hostname cf (snd e) (fst e) = Some host)
          \<and> (\<forall>e \<in> set seen. dedupe_hostname cf (snd e) (fst e) = Some host \<longrightarrow>
                card_key dash contacts (fst e) \<le> card_key dash contacts ip))"

definition best_ok ::
  "(pystr \<Rightarrow> pystr) \<Rightarrow> dashboard \<Rightarrow> (pystr \<times> aware) list \<Rightarrow> dashboard \<Rightarrow> (pystr \<times> pystr) list \<Rightarrow> bool" where
  "best_ok cf dash contacts seen best \<longleftrightarrow>
     distinct (map fst best) \<and> (\<forall>host. host_ok cf dash contacts seen host (map_of best host))"

lemma host_ok_other:
  "host_ok cf dash contacts seen host v \<Longrightarrow> dedupe_hostname cf (snd e) (fst e) \<noteq> Some host \<Longrightarrow>
     host_ok cf dash contacts (seen @ [e]) host v"
  by (cases v) (auto simp: host_ok_def)

lemma host_ok_same:
  assumes "host_ok cf dash contacts seen host v" and "dedupe_hostname cf (snd e) (fst e) = Some host"
  shows "host_ok cf dash contacts (seen @ [e]) host
    (case v of
       None \<Rightarrow> Some (fst e)
     | Some c \<Rightarrow> Some (if card_key dash contacts c < card_key dash contacts (fst e) then fst e else c))"
proof (cases v)
  case None
  with assms show ?thesis by (auto simp: host_ok_def)
next
  case (Some c)
  have old: "\<exists>d \<in> set seen. fst d = c \<and> dedupe_hostname cf (snd d) (fst d) = Some host"
    "\<And>d. d \<in> set seen \<Longrightarrow> dedupe_hostname cf (snd d) (fst d) = Some host \<Longrightarrow>
       card_key dash contacts (fst d) \<le> card_key dash contacts c"
    using assms(1) Some by (simp_all add: host_ok_def)
  show ?thesis
  proof (cases "card_key dash contacts c < card_key dash contacts (fst e)")
    case True
    have "card_key dash contacts (fst d) \<le> card_key dash contacts (fst e)"
      if "d \<in> set (seen @ [e])" "dedupe_hostname cf (snd d) (fst d) = Some host" for d
    proof (cases "d = e")
      case False
      then have "card_key dash contacts (fst d) \<le> card_key dash contacts c" using that old(2) by simp
      also have "\<dots> \<le> card_key dash contacts (fst e)" using True by (rule less_imp_le)
      finally show ?thesis .
    qed simp
    then show ?thesis using Some True assms(2) by (simp add: host_ok_def)
  next
    case False
    have "card_key dash contacts (fst d) \<le> card_key dash contacts c"
      if "d \<in> set (seen @ [e])" "dedupe_hostname cf (snd d) (fst d) = Some host" for d
    proof (cases "d = e")
      case True
      with False show ?thesis by simp
    next
      case False
      then show ?thesis using that old(2) by simp
    qed
    then show ?thesis using Some False old(1) by (auto simp: host_ok_def)
  qed
qed

lemma best_ok_step:
  assumes "best_ok cf dash contacts seen best"
  shows "best_ok cf dash contacts (seen @ [e]) (better_card cf dash contacts e best)"
proof (cases "dedupe_hostname cf (snd e) (fst e)")
  case None
  have "host_ok cf dash contacts (seen @ [e]) host (map_of best host)" for host
    using assms None by (intro host_ok_other) (simp_all add: best_ok_def)
  with assms None show ?thesis by (simp add: best_ok_def better_card_def)
next
  case (Some host)
  let ?best = "better_card cf dash contacts e best"
  have d: "distinct (map fst ?best)"
    using assms by (auto simp: best_ok_def better_card_def distinct_update split: option.split)
  have m: "map_of ?best h = (if h = host then
      (case map_of best host of
         None \<Rightarrow> Some (fst e)
       | Some c \<Rightarrow> Some (if card_key dash contacts c < card_key dash contacts (fst e) then fst e else c))
      else map_of best h)" for h
    using Some by (auto simp: better_card_def update_conv' split: option.split)
  have "host_ok cf dash contacts (seen @ [e]) h (map_of ?best h)" for h
  proof (cases "h = host")
    case True
    have "host_ok cf dash contacts seen host (map_of best host)" using assms by (simp add: best_ok_def)
    from host_ok_same [OF this Some] show ?thesis unfolding m if_P [OF True] using True by simp
  next
    case False
    then show ?thesis using assms Some unfolding m by (auto simp: best_ok_def intro!: host_ok_other)
  qed
  with d show ?thesis by (simp add: best_ok_def)
qed

lemma best_ok_fold:
  "best_ok cf dash contacts seen best \<Longrightarrow>
     best_ok cf dash contacts (seen @ es) (fold (better_card cf dash contacts) es best)"
proof (induction es arbitrary: seen best)
  case (Cons e es)
  from Cons.IH [OF best_ok_step [OF Cons.prems]] show ?case by simp
qed simp

section \<open>Properties\<close>

text \<open>
  The dashboard shows every computer once: of the cards with the same host name (up to
  case) exactly those of the best address remain, the one heard from last and, among
  equals, the most controllable; cards without a real host name all stay, and nothing is
  shown that was not there.
\<close>

theorem dashboard_shows_each_computer_once:
  assumes "distinct (map fst dash)" and "out = dedupe_by_hostname cf dash contacts"
  shows "set out \<subseteq> set dash
    \<and> (\<forall>e \<in> set dash. dedupe_hostname cf (snd e) (fst e) = None \<longrightarrow> e \<in> set out)
    \<and> (\<forall>e \<in> set dash. \<forall>host. dedupe_hostname cf (snd e) (fst e) = Some host \<longrightarrow>
         (\<exists>!k. k \<in> set out \<and> dedupe_hostname cf (snd k) (fst k) = Some host)
         \<and> (\<forall>k \<in> set out. dedupe_hostname cf (snd k) (fst k) = Some host \<longrightarrow>
              card_key dash contacts (fst e) \<le> card_key dash contacts (fst k)))"
proof -
  let ?ded = "\<lambda>e. dedupe_hostname cf (snd e) (fst e)"
  define best where "best = fold (better_card cf dash contacts) dash []"
  have "best_ok cf dash contacts [] []" by (simp add: best_ok_def host_ok_def)
  from best_ok_fold [OF this, of dash] have "best_ok cf dash contacts dash best" by (simp add: best_def)
  then have ok: "host_ok cf dash contacts dash h (map_of best h)" and dist: "distinct (map fst best)" for h
    unfolding best_ok_def by blast+
  have out: "e \<in> set out \<longleftrightarrow> e \<in> set dash \<and> (?ded e = None \<or> fst e \<in> snd ` set best)" for e
    unfolding assms(2) dedupe_by_hostname_def Let_def best_def by simp
  have same: "d = e" if "d \<in> set dash" "e \<in> set dash" "fst d = fst e" for d e
    using assms(1) that by (rule distinct_key)
  have owner: "map_of best h = Some (fst k)" if "k \<in> set out" "?ded k = Some h" for k h
  proof -
    have "fst k \<in> snd ` set best" using that out [of k] by simp
    then obtain h' where h': "(h', fst k) \<in> set best" by (metis imageE prod.collapse)
    then have "map_of best h' = Some (fst k)" using dist by simp
    with ok [of h'] obtain d where d: "d \<in> set dash" "fst d = fst k" "?ded d = Some h'"
      unfolding host_ok_def by auto
    have "k \<in> set dash" using that(1) out [of k] by simp
    then have "d = k" using same d(1,2) by blast
    with d(3) that(2) have "h' = h" by simp
    with \<open>map_of best h' = Some (fst k)\<close> show ?thesis by simp
  qed
  have "(\<exists>!k. k \<in> set out \<and> ?ded k = Some h)
      \<and> (\<forall>k \<in> set out. ?ded k = Some h \<longrightarrow> card_key dash contacts (fst e) \<le> card_key dash contacts (fst k))"
    if "e \<in> set dash" "?ded e = Some h" for e h
  proof -
    have "map_of best h \<noteq> None"
    proof
      assume "map_of best h = None"
      with ok [of h] have "\<forall>e \<in> set dash. ?ded e \<noteq> Some h" unfolding host_ok_def by simp
      with that show False by blast
    qed
    then obtain ip where ip: "map_of best h = Some ip" by blast
    with ok [of h] obtain k where k: "k \<in> set dash" "fst k = ip" "?ded k = Some h"
      and max: "\<And>d. d \<in> set dash \<Longrightarrow> ?ded d = Some h \<Longrightarrow> card_key dash contacts (fst d) \<le> card_key dash contacts ip"
      by (auto simp: host_ok_def)
    have "(h, ip) \<in> set best" using ip by (rule map_of_SomeD)
    then have "k \<in> set out" using k out [of k] by (metis image_eqI snd_conv)
    moreover have "k' = k" "fst k' = ip" if "k' \<in> set out" "?ded k' = Some h" for k'
    proof -
      show "fst k' = ip" using owner [OF that] ip by simp
      then show "k' = k" using k(1,2) same [of k' k] that(1) out [of k'] by simp
    qed
    ultimately show ?thesis using k(3) max [OF that] by metis
  qed
  then show ?thesis using out by blast
qed

theorem dashboard_shows_each_computer_once_witness:
  "set (dedupe_by_hostname lower [([1], [(lit ''hostname'', JStr (lit ''KID''))]), ([2], [(lit ''hostname'', JStr (lit ''kid''))])] [])
     \<subseteq> {([1], [(lit ''hostname'', JStr (lit ''KID''))]), ([2], [(lit ''hostname'', JStr (lit ''kid''))])}"
  using dashboard_shows_each_computer_once
    [of "[([1], [(lit ''hostname'', JStr (lit ''KID''))]), ([2], [(lit ''hostname'', JStr (lit ''kid''))])]" _ lower "[]"]
  by simp

text \<open>
  Trimming removes what is old and nothing else: when it runs, exactly the snapshots
  of days more than a week before today go, and the time is noted; within seven days of
  the noted time it does nothing.
\<close>

theorem trimming_keeps_the_last_week:
  assumes "trim_old_rows zone now db = (Inr (), db')" and "valid_date (date_of (local_of now))"
  shows "(case get_meta db META_LAST_TRIM_AT of
            Some t \<Rightarrow> instant now - instant (parse_db_datetime zone t) < 7 * day_us
          | None \<Rightarrow> False) \<and> db' = db
    \<or> (\<exists>cutoff. valid_date cutoff \<and> toordinal cutoff = toordinal (date_of (local_of now)) - 7
        \<and> snapshots db' = filter (\<lambda>r. cutoff \<le> sn_date r) (snapshots db)
        \<and> get_meta db' META_LAST_TRIM_AT = Some (written now))"
proof (cases "case get_meta db META_LAST_TRIM_AT of
    Some t \<Rightarrow> instant now - instant (parse_db_datetime zone t) < 7 * day_us | None \<Rightarrow> False")
  case True
  then have "db' = db"
    using assms(1) by (auto simp: trim_old_rows_def TRIM_INTERVAL_DAYS_def split: option.splits)
  with True show ?thesis by simp
next
  case False
  then have due: "(case get_meta db META_LAST_TRIM_AT of
             None \<Rightarrow> True
           | Some t \<Rightarrow> \<not> instant now - instant (parse_db_datetime zone t) < TRIM_INTERVAL_DAYS * day_us)"
    by (simp add: TRIM_INTERVAL_DAYS_def split: option.splits)
  obtain cutoff where c: "days_back 7 (date_of (local_of now)) = Inr cutoff"
    "db' = set_meta META_LAST_TRIM_AT (written now)
       (db\<lparr>snapshots := filter (\<lambda>r. \<not> sn_date r < cutoff) (snapshots db)\<rparr>)"
    using assms(1) due by (auto simp: trim_old_rows_def RETENTION_DAYS_def split: sum.splits)
  from days_back_step [OF c(1) assms(2)] show ?thesis by (auto simp: c(2) not_less)
qed

theorem trimming_keeps_the_last_week_witness:
  "\<exists>db' cutoff. trim_old_rows (\<lambda>_. 0) sample_time empty_db = (Inr (), db') \<and> toordinal cutoff = toordinal (Date 2026 3 4) - 7
     \<and> snapshots db' = filter (\<lambda>r. cutoff \<le> sn_date r) []"
proof -
  have v: "valid_date (date_of (local_of sample_time))"
    by (simp add: sample_time_def valid_date_def days_in_month_def)
  have "days_back 7 (Date 2026 3 4) = Inr (Date 2026 2 25)"
    by code_simp
  then obtain db' where t: "trim_old_rows (\<lambda>_. 0) sample_time empty_db = (Inr (), db')"
    by (simp add: trim_old_rows_def get_meta_def empty_db_def RETENTION_DAYS_def sample_time_def)
  from trimming_keeps_the_last_week [OF t v] have "\<exists>cutoff. toordinal cutoff = toordinal (Date 2026 3 4) - 7
      \<and> snapshots db' = filter (\<lambda>r. cutoff \<le> sn_date r) []"
    by (auto simp: get_meta_def empty_db_def sample_time_def)
  with t show ?thesis by blast
qed

text \<open>A poll before and one after the clocks go back from 2:00 to 1:00.\<close>

definition seen_by :: "string \<Rightarrow> jdict" where
  "seen_by u = [(lit ''ip'', JStr (lit ''10.0.0.7'')), (lit ''hostname'', JStr (lit ''kid'')),
     (lit ''current_user'', JStr (lit u)), (lit ''reachable'', JBool True)]"

definition before_change :: aware where
  "before_change = Aware (DateTime (Date 2026 11 1) 1 50 0 0) (- 240)"

definition after_change :: aware where
  "after_change = Aware (DateTime (Date 2026 11 1) 1 10 0 0) (- 300)"

lemma older_snapshot_first:
  "map_option (\<lambda>p. jget (snd p) ''current_user'')
     (get_latest_snapshot_for_pc None (Some (lit ''10.0.0.7'')) False
        (snd (bind (save_poll_snapshot before_change (seen_by ''ann''))
                (\<lambda>_. save_poll_snapshot after_change (seen_by ''bob'')) empty_db)))
   = Some (JStr (lit ''ann''))"
  by code_simp

text \<open>
  When the clocks go back, the panel shows an older snapshot as the newest: the texts
  of the times are compared, not the times. Twenty minutes after Ann was seen at 01:50
  summer time, Bob is seen at 01:10 standard time, and Ann's snapshot is still the latest.
\<close>

theorem older_snapshot_shown_when_clocks_go_back:
  "instant after_change = instant before_change + 20 * minute_us
   \<and> map_option (\<lambda>p. jget (snd p) ''current_user'')
       (get_latest_snapshot_for_pc None (Some (lit ''10.0.0.7'')) False
          (snd (bind (save_poll_snapshot before_change (seen_by ''ann''))
                  (\<lambda>_. save_poll_snapshot after_change (seen_by ''bob'')) empty_db)))
     = Some (JStr (lit ''ann''))"
proof
  show "instant after_change = instant before_change + 20 * minute_us"
    by (simp add: instant_def before_change_def after_change_def dt_us_def minute_us_def)
qed (rule older_snapshot_first)

lemma day_entries_keys:
  "day_entries rows = Inr es \<Longrightarrow> (key, e) \<in> set es \<Longrightarrow>
     \<exists>r \<in> set rows. key = (sn_hostname r, sn_date r)
       \<and> day_entry_from_payload (sn_date r)
            (jset (sn_payload r) ''_recorded_at'' (JStr (text_of_time (sn_recorded_at r)))) = Inr e"
  by (induction rows arbitrary: es) (auto simp: rbind_eq_Inr_iff)

text \<open>
  The usage page shows the asked number of days for every computer the user was seen
  on, newest first, one entry per day: entry \<open>i\<close> is of the day \<open>i\<close> days before today, and
  is either made from a snapshot of that user, computer and day or says that there is no
  data.
\<close>

theorem history_has_one_entry_per_day:
  assumes "get_usage_history_for_user username days today db = Inr groups" and "(host, es) \<in> set groups"
  shows "length es = days
    \<and> (\<forall>i < days. \<exists>day. days_back i today = Inr day
         \<and> (es ! i = empty_day_entry day
            \<or> (\<exists>r \<in> set (snapshots db). sn_username r = username \<and> sn_hostname r = host \<and> sn_date r = day
                 \<and> day_entry_from_payload day
                      (jset (sn_payload r) ''_recorded_at'' (JStr (text_of_time (sn_recorded_at r)))) = Inr (es ! i))))"
proof -
  obtain start entries range where g: "day_entries (history_rows username start today db) = Inr entries"
    "day_range days today = Inr range"
    "es = map (\<lambda>day. case dict_of_pairs entries (host, day) of Some e \<Rightarrow> e | None \<Rightarrow> empty_day_entry day) range"
    using assms by (auto simp: get_usage_history_for_user_def Let_def rbind_eq_Inr_iff)
  have len: "length range = days" by (rule day_range_length [OF g(2)])
  have "es ! i = empty_day_entry (range ! i)
      \<or> (\<exists>r \<in> set (snapshots db). sn_username r = username \<and> sn_hostname r = host \<and> sn_date r = range ! i
           \<and> day_entry_from_payload (range ! i)
                (jset (sn_payload r) ''_recorded_at'' (JStr (text_of_time (sn_recorded_at r)))) = Inr (es ! i))"
    if "i < days" for i
  proof (cases "dict_of_pairs entries (host, range ! i)")
    case None
    with that len show ?thesis by (simp add: g(3))
  next
    case (Some e)
    then have "((host, range ! i), e) \<in> set entries" by (auto simp: dict_of_pairs_def dest: map_of_SomeD)
    from day_entries_keys [OF g(1) this] Some that len show ?thesis
      by (auto simp: g(3) history_rows_def)
  qed
  with day_range_nth [OF g(2)] len show ?thesis by (simp add: g(3))
qed

theorem history_has_one_entry_per_day_witness:
  "\<exists>es. get_usage_history_for_user (lit ''ann'') 2 (Date 2026 11 1)
      (snd (save_poll_snapshot before_change (seen_by ''ann'') empty_db)) = Inr [(lit ''kid'', es)] \<and> length es = 2"
proof -
  have "get_usage_history_for_user (lit ''ann'') 2 (Date 2026 11 1)
      (snd (save_poll_snapshot before_change (seen_by ''ann'') empty_db)) =
    Inr [(lit ''kid'',
      [[(lit ''date'', JStr (lit ''2026-11-01'')), (lit ''accumulated_seconds'', JInt 0), (lit ''daily_limit'', JNull),
        (lit ''cumulative_extension_seconds'', JInt 0), (lit ''time_remaining'', JNull), (lit ''remaining_minutes'', JNull),
        (lit ''recorded_at'', JStr (lit ''2026-11-01T01:50:00-04:00''))],
       [(lit ''date'', JStr (lit ''2026-10-31'')), (lit ''no_data'', JBool True)]])]"
    by code_simp
  from history_has_one_entry_per_day [OF this, of "lit ''kid''"] this show ?thesis by auto
qed

end
