(* ===== verification/Sync_Store.thy ===== *)
theory Sync_Store
  imports Panel_Db
begin

text \<open>
  \<open>src/kid_pc_monitor/agent_sync_store.py\<close>: the last heartbeat of each agent that has
  connected to the panel, one row per host name.
\<close>

definition RECENT_AGENT_SECONDS :: int where
  "RECENT_AGENT_SECONDS = 180"

text \<open>\<open>_now()\<close>: the clock without its microseconds.\<close>

definition sync_now :: "aware \<Rightarrow> aware" where
  "sync_now now = Aware (whole_second (local_of now)) (offset_of now)"

definition record_agent_poll :: "pystr \<Rightarrow> pystr \<Rightarrow> jdict \<Rightarrow> aware \<Rightarrow> panel_db \<Rightarrow> panel_db" where
  "record_agent_poll hostname ip info now db =
     db\<lparr>reverse_agents := filter (\<lambda>r. ra_hostname r \<noteq> hostname) (reverse_agents db)
          @ [\<lparr>ra_hostname = hostname, ra_ip = ip, ra_last_seen = written (sync_now now),
              ra_payload = jset (jset (jset info ''hostname'' (JStr hostname)) ''ip'' (JStr ip))
                ''reachable'' (JBool True)\<rparr>]\<rparr>"

definition clear_agent_for_ip :: "pystr \<Rightarrow> panel_db \<Rightarrow> panel_db" where
  "clear_agent_for_ip ip db = db\<lparr>reverse_agents := filter (\<lambda>r. ra_ip r \<noteq> ip) (reverse_agents db)\<rparr>"

definition clear_agent_for_hostname :: "pystr \<Rightarrow> panel_db \<Rightarrow> panel_db" where
  "clear_agent_for_hostname hostname db =
     db\<lparr>reverse_agents := filter (\<lambda>r. ra_hostname r \<noteq> hostname) (reverse_agents db)\<rparr>"

text \<open>The payload of a row that is not too old.\<close>

definition recent_payload :: "(datetime \<Rightarrow> int) \<Rightarrow> int \<Rightarrow> aware \<Rightarrow> reverse_row option \<Rightarrow> jdict option" where
  "recent_payload zone max_age now row =
     (case row of
        None \<Rightarrow> None
      | Some r \<Rightarrow>
          if instant (parse_db_datetime zone (ra_last_seen r)) < instant (sync_now now) - max_age * 1000000 then None
          else Some (jset (jset (jset (ra_payload r) ''hostname'' (JStr (ra_hostname r))) ''ip'' (JStr (ra_ip r)))
                 ''last_seen'' (JStr (text_of_time (ra_last_seen r)))))"

definition recent_agent_for_ip :: "(datetime \<Rightarrow> int) \<Rightarrow> int \<Rightarrow> aware \<Rightarrow> pystr \<Rightarrow> panel_db \<Rightarrow> jdict option" where
  "recent_agent_for_ip zone max_age now ip db =
     recent_payload zone max_age now
       (first_row (order_desc (\<lambda>r. text_of_time (ra_last_seen r)) (filter (\<lambda>r. ra_ip r = ip) (reverse_agents db))))"

definition recent_agent_for_hostname ::
  "(datetime \<Rightarrow> int) \<Rightarrow> int \<Rightarrow> aware \<Rightarrow> pystr \<Rightarrow> panel_db \<Rightarrow> jdict option" where
  "recent_agent_for_hostname zone max_age now hostname db =
     recent_payload zone max_age now (first_row (filter (\<lambda>r. ra_hostname r = hostname) (reverse_agents db)))"

section \<open>Heartbeats\<close>

lemma filter_other_keys:
  "filter (\<lambda>r. k r = h) (filter (\<lambda>r. k r \<noteq> g) xs) = (if h = g then [] else filter (\<lambda>r. k r = h) xs)"
  by (induction xs) auto

lemma row_after_record:
  "first_row (filter (\<lambda>r. ra_hostname r = h) (reverse_agents (record_agent_poll g ip info now db))) =
     (if h = g then Some \<lparr>ra_hostname = g, ra_ip = ip, ra_last_seen = written (sync_now now),
              ra_payload = jset (jset (jset info ''hostname'' (JStr g)) ''ip'' (JStr ip))
                ''reachable'' (JBool True)\<rparr>
      else first_row (filter (\<lambda>r. ra_hostname r = h) (reverse_agents db)))"
  by (simp add: record_agent_poll_def filter_other_keys first_row_def del: filter_filter)

lemma whole_second_idem [simp]: "whole_second (whole_second d) = whole_second d"
  by (simp add: whole_second_def)

lemma instant_sync: "instant (parse_db_datetime zone (written (sync_now t))) = instant (sync_now t)"
  by (simp add: parse_written sync_now_def instant_def)

text \<open>
  A heartbeat counts for as long as it says and no longer: after a report of an agent,
  and until it reports again or is cleared, it is recent exactly until the maximal age has
  passed since then (in whole seconds), with the reported host name and address; other
  agents are not touched.
\<close>

theorem heartbeat_is_recent_until_it_expires:
  "(case recent_agent_for_hostname zone max_age later h (record_agent_poll g ip info now db) of
      Some p \<Rightarrow> (h = g \<longrightarrow> instant (sync_now later) \<le> instant (sync_now now) + max_age * 1000000
                  \<and> jget p ''hostname'' = JStr g \<and> jget p ''ip'' = JStr ip \<and> jget p ''reachable'' = JBool True)
              \<and> (h \<noteq> g \<longrightarrow> recent_agent_for_hostname zone max_age later h db = Some p)
    | None \<Rightarrow> (h = g \<longrightarrow> instant (sync_now now) + max_age * 1000000 < instant (sync_now later))
              \<and> (h \<noteq> g \<longrightarrow> recent_agent_for_hostname zone max_age later h db = None))
   \<and> recent_agent_for_hostname zone max_age later g (clear_agent_for_hostname g (record_agent_poll g ip info now db)) = None"
proof
  show "recent_agent_for_hostname zone max_age later g
      (clear_agent_for_hostname g (record_agent_poll g ip info now db)) = None"
    by (simp add: recent_agent_for_hostname_def clear_agent_for_hostname_def filter_other_keys first_row_def
        recent_payload_def del: filter_filter)
  let ?r = "recent_agent_for_hostname zone max_age later h (record_agent_poll g ip info now db)"
  show "case ?r of
      Some p \<Rightarrow> (h = g \<longrightarrow> instant (sync_now later) \<le> instant (sync_now now) + max_age * 1000000
                  \<and> jget p ''hostname'' = JStr g \<and> jget p ''ip'' = JStr ip \<and> jget p ''reachable'' = JBool True)
              \<and> (h \<noteq> g \<longrightarrow> recent_agent_for_hostname zone max_age later h db = Some p)
    | None \<Rightarrow> (h = g \<longrightarrow> instant (sync_now now) + max_age * 1000000 < instant (sync_now later))
              \<and> (h \<noteq> g \<longrightarrow> recent_agent_for_hostname zone max_age later h db = None)"
  proof (cases "h = g")
    case True
    then show ?thesis
      unfolding recent_agent_for_hostname_def row_after_record
      by (simp add: recent_payload_def instant_sync split: option.split)
  next
    case False
    then show ?thesis
      unfolding recent_agent_for_hostname_def row_after_record by (simp split: option.split)
  qed
qed

theorem heartbeat_is_recent_until_it_expires_witness:
  "\<exists>p. recent_agent_for_hostname (\<lambda>_. 0) RECENT_AGENT_SECONDS (Aware (DateTime (Date 2026 3 4) 20 3 0 0) 0) (lit ''mia-pc'')
       (record_agent_poll (lit ''mia-pc'') (lit ''10.0.0.7'') [] (Aware (DateTime (Date 2026 3 4) 20 0 0 0) 0)
         \<lparr>snapshots = [], scans = [], scan_pcs = [], panel_meta = [], reverse_agents = [], db_next_scan = 1\<rparr>) = Some p
     \<and> jget p ''ip'' = JStr (lit ''10.0.0.7'')"
proof -
  have t: "\<not> instant (sync_now (Aware (DateTime (Date 2026 3 4) 20 0 0 0) 0)) + RECENT_AGENT_SECONDS * 1000000
      < instant (sync_now (Aware (DateTime (Date 2026 3 4) 20 3 0 0) 0))"
    by (simp add: instant_def sync_now_def whole_second_def dt_us_def RECENT_AGENT_SECONDS_def)
  show ?thesis
    using t heartbeat_is_recent_until_it_expires [where zone = "\<lambda>_. 0" and max_age = RECENT_AGENT_SECONDS
        and later = "Aware (DateTime (Date 2026 3 4) 20 3 0 0) 0" and h = "lit ''mia-pc''" and g = "lit ''mia-pc''"
        and ip = "lit ''10.0.0.7''" and info = "[]" and now = "Aware (DateTime (Date 2026 3 4) 20 0 0 0) 0"
        and db = "\<lparr>snapshots = [], scans = [], scan_pcs = [], panel_meta = [], reverse_agents = [], db_next_scan = 1\<rparr>"]
    by (auto split: option.splits)
qed

end
