(* ===== verification/Reverse_Server.thy ===== *)
theory Reverse_Server
  imports Remote_Client Snapshot_Store Sync_Store
begin

text \<open>
  \<open>src/kid_pc_monitor/panel_reverse_server.py\<close>: the sessions of the agents connected to
  the panel. A session object is a number; the heap \<open>rv_sessions\<close> holds its attributes,
  and the two dicts of the server map host names and addresses to numbers. The methods
  run under the registry lock and are atomic; the thread of each connection goes through
  the phases of \<open>_handle_client\<close>, and the steps of different threads interleave freely.
  The status and disconnect callbacks are those the panel installs
  (\<open>_record_reverse_pc_info\<close>, \<open>_record_reverse_disconnect\<close> of \<open>web_panel.py\<close>).
\<close>

section \<open>Sessions\<close>

record session =
  rs_hostname :: pystr
  rs_ip :: pystr
  rs_last_seen :: aware
  rs_pc_info :: "pystr \<Rightarrow> pyval option"
  rs_closed :: bool

record server =
  rv_running :: bool
  rv_sessions :: "nat \<Rightarrow> session option"
  rv_by_hostname :: "pystr \<Rightarrow> nat option"
  rv_by_ip :: "pystr \<Rightarrow> nat option"

definition session_for_ip :: "server \<Rightarrow> pystr \<Rightarrow> nat option" where
  "session_for_ip srv ip = rv_by_ip srv ip"

definition session_for_hostname :: "server \<Rightarrow> pystr \<Rightarrow> nat option" where
  "session_for_hostname srv hostname = rv_by_hostname srv hostname"

definition has_session_for_ip :: "server \<Rightarrow> pystr \<Rightarrow> bool" where
  "has_session_for_ip srv ip \<longleftrightarrow> session_for_ip srv ip \<noteq> None"

text \<open>\<open>ReverseSession.close\<close>: the flag; the queue is woken and the socket closed with it.\<close>

definition close_session :: "nat \<Rightarrow> server \<Rightarrow> server" where
  "close_session k srv =
     srv\<lparr>rv_sessions := (rv_sessions srv)(k := map_option (\<lambda>s. s\<lparr>rs_closed := True\<rparr>) (rv_sessions srv k))\<rparr>"

definition register :: "nat \<Rightarrow> server \<Rightarrow> server" where
  "register k srv =
     (case rv_sessions srv k of
        None \<Rightarrow> srv
      | Some s \<Rightarrow>
          let previous = rv_by_hostname srv (rs_hostname s);
              srv1 = (case previous of Some p \<Rightarrow> if p \<noteq> k then close_session p srv else srv | None \<Rightarrow> srv);
              drop = (\<lambda>e. Some e = previous
                \<or> (map_option rs_hostname (rv_sessions srv e) = Some (rs_hostname s) \<and> e \<noteq> k))
          in srv1\<lparr>rv_by_ip := (\<lambda>ip. case rv_by_ip srv ip of Some e \<Rightarrow> if drop e then None else Some e | None \<Rightarrow> None)
                    (rs_ip s \<mapsto> k),
                  rv_by_hostname := (rv_by_hostname srv)(rs_hostname s \<mapsto> k)\<rparr>)"

definition unregister :: "nat \<Rightarrow> server \<Rightarrow> server" where
  "unregister k srv =
     (case rv_sessions srv k of
        None \<Rightarrow> srv
      | Some s \<Rightarrow>
          srv\<lparr>rv_by_hostname := (if rv_by_hostname srv (rs_hostname s) = Some k
                               then (rv_by_hostname srv)(rs_hostname s := None) else rv_by_hostname srv),
              rv_by_ip := (if rv_by_ip srv (rs_ip s) = Some k
                         then (rv_by_ip srv)(rs_ip s := None) else rv_by_ip srv)\<rparr>)"

text \<open>
  \<open>stop\<close>: the dicts are emptied under the lock, and the sessions they held (the result)
  are closed one after another after that.
\<close>

definition stop_server :: "server \<Rightarrow> nat set \<times> server" where
  "stop_server srv =
     (ran (rv_by_hostname srv), srv\<lparr>rv_running := False, rv_by_hostname := (\<lambda>_. None), rv_by_ip := (\<lambda>_. None)\<rparr>)"

text \<open>\<open>reverse_listen_port\<close>: the variable of the environment, if it is set and a number.\<close>

definition DEFAULT_REVERSE_PORT :: int where
  "DEFAULT_REVERSE_PORT = 9998"

definition reverse_listen_port :: "pystr option \<Rightarrow> int" where
  "reverse_listen_port variable =
     (case int_of_text (case variable of Some v \<Rightarrow> v | None \<Rightarrow> lit ''9998'') of
        Inr port \<Rightarrow> port
      | Inl _ \<Rightarrow> DEFAULT_REVERSE_PORT)"

section \<open>Requests on a session\<close>

text \<open>
  \<open>submit\<close>: the session's thread runs the exchange; \<open>run\<close> gives the result of the
  future (or the TimeoutError of waiting for it).
\<close>

definition submit :: "session \<Rightarrow> panel_request \<Rightarrow> (panel_request \<Rightarrow> response res) \<Rightarrow> response res" where
  "submit s rf run =
     (if rs_closed s then Inl (ConnectionError (lit ''Reverse agent session is closed'')) else run rf)"

definition live_session :: "server \<Rightarrow> pystr \<Rightarrow> session option" where
  "live_session srv ip = (case session_for_ip srv ip of None \<Rightarrow> None | Some k \<Rightarrow> rv_sessions srv k)"

definition perform_action ::
  "python \<Rightarrow> server \<Rightarrow> (session \<Rightarrow> panel_request \<Rightarrow> response res) \<Rightarrow> pystr \<Rightarrow> pystr \<Rightarrow> jdict \<Rightarrow> (bool \<times> pystr) option" where
  "perform_action py srv run ip action_name payload =
     (case live_session srv ip of
        None \<Rightarrow> None
      | Some s \<Rightarrow>
          (case rbind (action_request_fields action_name payload) (\<lambda>f. submit s f (run s)) of
             Inr response \<Rightarrow> Some (response_ok response, response_text response)
           | Inl e \<Rightarrow>
               if e = ValueError \<or> e = KeyError \<or> e = TypeError
               then Some (False, lit ''Invalid value for '' @ action_name @ lit '': '' @ exc_text py e)
               else Some (False, exc_text py e)))"

definition get_logs ::
  "server \<Rightarrow> (session \<Rightarrow> panel_request \<Rightarrow> response res) \<Rightarrow> pystr \<Rightarrow> int \<Rightarrow> logs_result res" where
  "get_logs srv run ip tail =
     (case live_session srv ip of
        None \<Rightarrow> Inl (ConnectionError (lit ''No reverse session for '' @ ip))
      | Some s \<Rightarrow>
          rbind (submit s (lit ''get_logs'', None, JNull, Some tail) (run s))
            (\<lambda>r. case slogs r of
               Some l \<Rightarrow> Inr l
             | None \<Rightarrow> Inl (ConnectionError
                 (if response_text r \<noteq> [] then response_text r else lit ''Agent did not return logs''))))"

text \<open>The item of the loop: an exchange addressed to the session's host.\<close>

definition run_item ::
  "python \<Rightarrow> (json \<Rightarrow> pystr) \<Rightarrow> 's link \<Rightarrow> pystr \<Rightarrow> pystr \<Rightarrow> panel_request \<Rightarrow> moment \<Rightarrow> ('s, response) act" where
  "run_item py text_of link secret hostname f m =
     (case f of (action, var, val, tail) \<Rightarrow>
        exchange_on_socket py link action var (wire_val text_of val) (Some hostname) CLIENT_DEFAULT_VERSION tail secret m m)"

text \<open>\<open>_refresh_status\<close>: the settings, or the error that ends the session.\<close>

definition refresh_status ::
  "python \<Rightarrow> 's link \<Rightarrow> pystr \<Rightarrow> pystr \<Rightarrow> moment \<Rightarrow> ('s, pystr \<Rightarrow> pyval option) act" where
  "refresh_status py link secret hostname m =
     bind (exchange_on_socket py link (lit ''get'') (Some (lit ''settings'')) None (Some hostname)
             CLIENT_DEFAULT_VERSION None secret m m)
       (\<lambda>r. case ssettings r of
          Some settings \<Rightarrow>
            if response_ok r then ret settings
            else raising (ProtocolError INTERNAL_ERROR
                   (if response_text r \<noteq> [] then response_text r else lit ''status refresh failed'') None)
        | None \<Rightarrow> raising (ProtocolError INTERNAL_ERROR
                   (if response_text r \<noteq> [] then response_text r else lit ''status refresh failed'') None))"

text \<open>The first exchange of a connection: the host name and settings of the agent, or None.\<close>

definition identify :: "python \<Rightarrow> 's link \<Rightarrow> pystr \<Rightarrow> moment \<Rightarrow> ('s, (pystr \<times> (pystr \<Rightarrow> pyval option)) option) act" where
  "identify py link secret m =
     bind (exchange_on_socket py link (lit ''get'') (Some (lit ''settings'')) None None
             CLIENT_DEFAULT_VERSION None secret m m)
       (\<lambda>r. ret (case (ssettings r, sname r) of
          (Some settings, Some n) \<Rightarrow> if response_ok r \<and> n \<noteq> [] then Some (n, settings) else None
        | _ \<Rightarrow> None))"

text \<open>
  \<open>_session_loop\<close>: what the queue gives each time (nothing for a while, the end marker, a
  request), and what comes out (a status to record, the result of a request). A failing
  request ends the session.
\<close>

datatype loop_event = Idle moment | Closing | Item panel_request moment

datatype loop_output = Status "pystr \<Rightarrow> pyval option" | Answer "response res"

fun session_loop ::
  "python \<Rightarrow> (json \<Rightarrow> pystr) \<Rightarrow> 's link \<Rightarrow> pystr \<Rightarrow> pystr \<Rightarrow> loop_event list \<Rightarrow> ('s, loop_output list) act" where
  "session_loop py text_of link secret hostname [] = ret []"
| "session_loop py text_of link secret hostname (Closing # es) = ret []"
| "session_loop py text_of link secret hostname (Idle m # es) =
     bind (try_with (bind (refresh_status py link secret hostname m) (\<lambda>st. ret (Some st)))
             (\<lambda>e. case e of
                OSError _ \<Rightarrow> Some (ret None) | ConnectionError _ \<Rightarrow> Some (ret None) | TimeoutError \<Rightarrow> Some (ret None)
              | ProtocolError _ _ _ \<Rightarrow> Some (ret None) | ClosedBeforeFrame _ _ _ \<Rightarrow> Some (ret None) | _ \<Rightarrow> None))
       (\<lambda>r. case r of
          None \<Rightarrow> ret []
        | Some st \<Rightarrow> bind (session_loop py text_of link secret hostname es) (\<lambda>out. ret (Status st # out)))"
| "session_loop py text_of link secret hostname (Item f m # es) =
     bind (try_with (bind (run_item py text_of link secret hostname f m) (\<lambda>r. ret (Inr r)))
             (\<lambda>e. Some (ret (Inl e))))
       (\<lambda>r. case r of
          Inl e \<Rightarrow> ret [Answer (Inl e)]
        | Inr resp \<Rightarrow> bind (session_loop py text_of link secret hostname es) (\<lambda>out. ret (Answer (Inr resp) # out)))"

section \<open>Callbacks\<close>

text \<open>
  \<open>_record_reverse_pc_info\<close>: the heartbeat is kept whatever happens to the stores after
  it; \<open>_emit_status\<close> swallows what the callback raises.
\<close>

definition record_reverse_pc_info ::
  "(datetime \<Rightarrow> int) \<Rightarrow> aware \<Rightarrow> pystr \<Rightarrow> pystr \<Rightarrow> (pystr \<Rightarrow> pyval option) \<Rightarrow> jdict dbact" where
  "record_reverse_pc_info zone now hostname ip settings =
     bind (lift (settings_to_pc_info settings ip (Some hostname)))
       (\<lambda>found. let info = jset found ''ip'' (JStr ip) in
          bind (modify (record_agent_poll hostname ip info now))
            (\<lambda>_. bind (try_with
                     (bind (save_poll_snapshot now info)
                       (\<lambda>_. bind (modify (record_poll_inspect ip info now))
                         (\<lambda>_. only_if (jtruthy (jget info ''current_user'')) (save_snapshot zone now info))))
                     (\<lambda>e. Some (ret ())))
              (\<lambda>_. ret info)))"

definition emit_status :: "(datetime \<Rightarrow> int) \<Rightarrow> aware \<Rightarrow> session \<Rightarrow> (pystr \<Rightarrow> pyval option) \<Rightarrow> unit dbact" where
  "emit_status zone now s settings =
     try_with (bind (record_reverse_pc_info zone now (rs_hostname s) (rs_ip s) settings) (\<lambda>_. ret ()))
       (\<lambda>e. Some (ret ()))"

definition record_reverse_disconnect :: "pystr \<Rightarrow> pystr \<Rightarrow> aware \<Rightarrow> panel_db \<Rightarrow> panel_db" where
  "record_reverse_disconnect hostname ip now db =
     record_poll_inspect ip
       [(lit ''hostname'', JStr hostname), (lit ''ip'', JStr ip), (lit ''reachable'', JBool False)] now
       (clear_agent_for_hostname hostname db)"

section \<open>The threads of the connections\<close>

text \<open>
  Where a connection's thread is in \<open>_handle_client\<close>: about to report a status, in its
  loop, out of the registry, closed, with the check of \<open>_emit_disconnect_if_gone\<close> passed
  and the callback not yet called, finished.
\<close>

datatype phase = Reporting | Serving | Left | Shut | Gone | Done

record panel_world =
  w_server :: server
  w_phase :: "nat \<Rightarrow> phase option"
  w_closing :: "nat set"
  w_db :: panel_db

definition new_server :: server where
  "new_server = \<lparr>rv_running = True, rv_sessions = (\<lambda>_. None), rv_by_hostname = (\<lambda>_. None), rv_by_ip = (\<lambda>_. None)\<rparr>"

definition put_session :: "nat \<Rightarrow> session \<Rightarrow> server \<Rightarrow> server" where
  "put_session k s srv = srv\<lparr>rv_sessions := (rv_sessions srv)(k \<mapsto> s)\<rparr>"

text \<open>One atomic step of some thread.\<close>

inductive thread_step :: "(datetime \<Rightarrow> int) \<Rightarrow> panel_world \<Rightarrow> panel_world \<Rightarrow> bool" for zone where
  connect: "\<lbrakk>rv_sessions (w_server w) k = None; \<not> rs_closed s\<rbrakk> \<Longrightarrow>
     thread_step zone w (w\<lparr>w_server := register k (put_session k s (w_server w)), w_phase := (w_phase w)(k \<mapsto> Reporting)\<rparr>)"
| report: "\<lbrakk>w_phase w k = Some Reporting; rv_sessions (w_server w) k = Some s\<rbrakk> \<Longrightarrow>
     thread_step zone w (w\<lparr>w_phase := (w_phase w)(k \<mapsto> Serving), w_db := snd (emit_status zone now s (rs_pc_info s) (w_db w))\<rparr>)"
| refresh: "\<lbrakk>w_phase w k = Some Serving; rv_sessions (w_server w) k = Some s\<rbrakk> \<Longrightarrow>
     thread_step zone w (w\<lparr>w_server := put_session k (s\<lparr>rs_last_seen := now, rs_pc_info := settings\<rparr>) (w_server w),
                           w_phase := (w_phase w)(k \<mapsto> Reporting)\<rparr>)"
| answer: "\<lbrakk>w_phase w k = Some Serving; rv_sessions (w_server w) k = Some s\<rbrakk> \<Longrightarrow>
     thread_step zone w (w\<lparr>w_server := put_session k (s\<lparr>rs_last_seen := now\<rparr>) (w_server w)\<rparr>)"
| leave: "w_phase w k = Some Serving \<Longrightarrow>
     thread_step zone w (w\<lparr>w_server := unregister k (w_server w), w_phase := (w_phase w)(k \<mapsto> Left)\<rparr>)"
| shut: "w_phase w k = Some Left \<Longrightarrow>
     thread_step zone w (w\<lparr>w_server := close_session k (w_server w), w_phase := (w_phase w)(k \<mapsto> Shut)\<rparr>)"
| replaced: "\<lbrakk>w_phase w k = Some Shut; rv_sessions (w_server w) k = Some s;
      rv_by_hostname (w_server w) (rs_hostname s) \<noteq> None\<rbrakk> \<Longrightarrow>
     thread_step zone w (w\<lparr>w_phase := (w_phase w)(k \<mapsto> Done)\<rparr>)"
| gone: "\<lbrakk>w_phase w k = Some Shut; rv_sessions (w_server w) k = Some s;
      rv_by_hostname (w_server w) (rs_hostname s) = None\<rbrakk> \<Longrightarrow>
     thread_step zone w (w\<lparr>w_phase := (w_phase w)(k \<mapsto> Gone)\<rparr>)"
| disconnect: "\<lbrakk>w_phase w k = Some Gone; rv_sessions (w_server w) k = Some s\<rbrakk> \<Longrightarrow>
     thread_step zone w (w\<lparr>w_phase := (w_phase w)(k \<mapsto> Done),
                           w_db := record_reverse_disconnect (rs_hostname s) (rs_ip s) now (w_db w)\<rparr>)"
| halt: "stop_server (w_server w) = (ks, srv) \<Longrightarrow>
     thread_step zone w (w\<lparr>w_server := srv, w_closing := w_closing w \<union> ks\<rparr>)"
| halt_close: "k \<in> w_closing w \<Longrightarrow>
     thread_step zone w (w\<lparr>w_server := close_session k (w_server w), w_closing := w_closing w - {k}\<rparr>)"

inductive reachable :: "(datetime \<Rightarrow> int) \<Rightarrow> panel_db \<Rightarrow> panel_world \<Rightarrow> bool" for zone db where
  start: "reachable zone db \<lparr>w_server = new_server, w_phase = (\<lambda>_. None), w_closing = {}, w_db = db\<rparr>"
| step: "reachable zone db w \<Longrightarrow> thread_step zone w w' \<Longrightarrow> reachable zone db w'"

inductive_cases thread_stepE: "thread_step zone w w'"

section \<open>The registry holds the open sessions\<close>

definition live_phase :: "phase option \<Rightarrow> bool" where
  "live_phase p \<longleftrightarrow> p = Some Reporting \<or> p = Some Serving"

lemma live_phase_simps [simp]:
  "live_phase (Some Reporting)" "live_phase (Some Serving)" "\<not> live_phase None" "\<not> live_phase (Some Left)"
  "\<not> live_phase (Some Shut)" "\<not> live_phase (Some Gone)" "\<not> live_phase (Some Done)"
  by (simp_all add: live_phase_def)

text \<open>
  A session is served while it is open, its thread is in its loop and nobody stops the
  server; the registry holds exactly these.
\<close>

definition serves :: "panel_world \<Rightarrow> nat \<Rightarrow> session \<Rightarrow> bool" where
  "serves w k s \<longleftrightarrow>
     rv_sessions (w_server w) k = Some s \<and> \<not> rs_closed s \<and> live_phase (w_phase w k) \<and> k \<notin> w_closing w"

definition server_ok :: "panel_world \<Rightarrow> bool" where
  "server_ok w \<longleftrightarrow>
     (\<forall>h k. rv_by_hostname (w_server w) h = Some k \<longleftrightarrow> (\<exists>s. serves w k s \<and> rs_hostname s = h))
     \<and> (\<forall>ip k. rv_by_ip (w_server w) ip = Some k \<longrightarrow> (\<exists>s. serves w k s \<and> rs_ip s = ip))
     \<and> (\<forall>k. rv_sessions (w_server w) k = None \<longrightarrow> w_phase w k = None \<and> k \<notin> w_closing w)"

text \<open>A step that keeps the dicts and who is served keeps the invariant.\<close>

lemma server_ok_cong:
  assumes "server_ok w"
    and "rv_by_hostname (w_server w') = rv_by_hostname (w_server w)"
    and "rv_by_ip (w_server w') = rv_by_ip (w_server w)"
    and "\<And>k h. (\<exists>s. serves w' k s \<and> rs_hostname s = h) \<longleftrightarrow> (\<exists>s. serves w k s \<and> rs_hostname s = h)"
    and "\<And>k ip. (\<exists>s. serves w' k s \<and> rs_ip s = ip) \<longleftrightarrow> (\<exists>s. serves w k s \<and> rs_ip s = ip)"
    and "\<And>k. rv_sessions (w_server w') k = None \<Longrightarrow> w_phase w' k = None \<and> k \<notin> w_closing w'"
  shows "server_ok w'"
  using assms unfolding server_ok_def by simp

lemma server_okD:
  assumes "server_ok w"
  shows by_hostname_iff: "rv_by_hostname (w_server w) h = Some k \<longleftrightarrow> (\<exists>s. serves w k s \<and> rs_hostname s = h)"
    and by_ip_serves: "rv_by_ip (w_server w) ip = Some k \<Longrightarrow> \<exists>s. serves w k s \<and> rs_ip s = ip"
    and no_session: "rv_sessions (w_server w) k = None \<Longrightarrow> w_phase w k = None \<and> k \<notin> w_closing w"
  using assms unfolding server_ok_def by blast+

lemma registered_session:
  assumes "server_ok w" and "rv_by_hostname (w_server w) h = Some k"
  shows "\<exists>s. rv_sessions (w_server w) k = Some s \<and> rs_hostname s = h"
  using by_hostname_iff [OF assms(1), of h k] assms(2) unfolding serves_def by blast

lemma served_is_registered:
  assumes "server_ok w" and "serves w k s"
  shows "rv_by_hostname (w_server w) (rs_hostname s) = Some k"
  using assms by_hostname_iff by blast

lemma server_ok_connect:
  assumes ok: "server_ok w" and new: "rv_sessions (w_server w) k = None" "\<not> rs_closed s"
  shows "server_ok (w\<lparr>w_server := register k (put_session k s (w_server w)), w_phase := (w_phase w)(k \<mapsto> Reporting)\<rparr>)"
    (is "server_ok ?w")
proof -
  have k: "w_phase w k = None" "k \<notin> w_closing w" using no_session [OF ok new(1)] by simp_all
  have fresh: "rv_by_hostname (w_server w) h \<noteq> Some k" for h
    using registered_session [OF ok, of h k] new(1) by auto
  have serves: "serves ?w j t \<longleftrightarrow> (j = k \<and> t = s) \<or> (serves w j t \<and> rv_by_hostname (w_server w) (rs_hostname s) \<noteq> Some j)" for j t
    using new k fresh
    by (auto simp: serves_def register_def put_session_def close_session_def Let_def split: option.splits if_splits)
  have names: "rv_by_hostname (w_server ?w) = (rv_by_hostname (w_server w))(rs_hostname s \<mapsto> k)"
    by (simp add: register_def put_session_def close_session_def Let_def split: option.split)
  have ips: "j = k \<or> (rv_by_ip (w_server w) ip = Some j \<and> rv_by_hostname (w_server w) (rs_hostname s) \<noteq> Some j)"
    if "rv_by_ip (w_server ?w) ip = Some j" for ip j
    using that by (auto simp: register_def put_session_def close_session_def Let_def split: option.splits if_splits)
  have ipk: "rs_ip s = ip" if "rv_by_ip (w_server ?w) ip = Some k" for ip
    using that by_ip_serves [OF ok, of ip k] new(1)
    by (auto simp: register_def put_session_def close_session_def Let_def serves_def split: option.splits if_splits)
  show ?thesis unfolding server_ok_def
  proof (intro conjI allI impI)
    fix h j
    show "rv_by_hostname (w_server ?w) h = Some j \<longleftrightarrow> (\<exists>t. serves ?w j t \<and> rs_hostname t = h)"
      unfolding serves names using by_hostname_iff [OF ok] fresh new(1) by (auto simp: serves_def)
  next
    fix ip j assume "rv_by_ip (w_server ?w) ip = Some j"
    then show "\<exists>t. serves ?w j t \<and> rs_ip t = ip"
      unfolding serves using ips [of ip j] ipk [of ip] by_ip_serves [OF ok, of ip j] by blast
  next
    fix j assume "rv_sessions (w_server ?w) j = None"
    then have "j \<noteq> k \<and> rv_sessions (w_server w) j = None"
      by (auto simp: register_def put_session_def close_session_def Let_def split: option.splits if_splits)
    then show "w_phase ?w j = None" "j \<notin> w_closing ?w" using no_session [OF ok, of j] by simp_all
  qed
qed

lemma server_ok_leave:
  assumes ok: "server_ok w" and at: "w_phase w k = Some Serving"
  shows "server_ok (w\<lparr>w_server := unregister k (w_server w), w_phase := (w_phase w)(k \<mapsto> Left)\<rparr>)"
    (is "server_ok ?w")
proof -
  obtain s where s: "rv_sessions (w_server w) k = Some s" using no_session [OF ok, of k] at by (metis option.distinct(1) option.exhaust)
  have sess: "rv_sessions (w_server ?w) = rv_sessions (w_server w)"
    by (simp add: unregister_def split: option.split)
  have serves: "serves ?w j t \<longleftrightarrow> serves w j t \<and> j \<noteq> k" for j t
    unfolding serves_def sess by auto
  have names: "rv_by_hostname (w_server ?w) h = Some j \<longleftrightarrow> rv_by_hostname (w_server w) h = Some j \<and> j \<noteq> k" for h j
    using registered_session [OF ok, of h j] s by (auto simp: unregister_def)
  have ips: "rv_by_ip (w_server ?w) ip = Some j \<Longrightarrow> rv_by_ip (w_server w) ip = Some j \<and> j \<noteq> k" for ip j
    using by_ip_serves [OF ok, of ip j] s by (auto simp: unregister_def serves_def split: if_splits)
  show ?thesis unfolding server_ok_def
  proof (intro conjI allI impI)
    show "rv_by_hostname (w_server ?w) h = Some j \<longleftrightarrow> (\<exists>t. serves ?w j t \<and> rs_hostname t = h)" for h j
      unfolding serves names using by_hostname_iff [OF ok] by auto
    show "\<exists>t. serves ?w j t \<and> rs_ip t = ip" if "rv_by_ip (w_server ?w) ip = Some j" for ip j
      unfolding serves using ips [OF that] by_ip_serves [OF ok] by blast
    show "w_phase ?w j = None" "j \<notin> w_closing ?w" if "rv_sessions (w_server ?w) j = None" for j
      using no_session [OF ok, of j] that s unfolding sess by auto
  qed
qed

lemma server_ok_halt:
  assumes ok: "server_ok w" and stop: "stop_server (w_server w) = (ks, srv)"
  shows "server_ok (w\<lparr>w_server := srv, w_closing := w_closing w \<union> ks\<rparr>)" (is "server_ok ?w")
proof -
  have none: "\<not> serves ?w k s" for k s
    using served_is_registered [OF ok, of k s] stop by (auto simp: serves_def stop_server_def ran_def)
  have "w_phase ?w k = None \<and> k \<notin> w_closing ?w" if "rv_sessions (w_server ?w) k = None" for k
    using that no_session [OF ok, of k] registered_session [OF ok, of _ k] stop
    by (auto simp: stop_server_def ran_def)
  then show ?thesis using none stop unfolding server_ok_def by (auto simp: stop_server_def)
qed

text \<open>A step on one session that is not served, or that leaves its names and the flag.\<close>

lemma server_ok_session:
  assumes ok: "server_ok w"
    and same: "rv_by_hostname (w_server w') = rv_by_hostname (w_server w)" "rv_by_ip (w_server w') = rv_by_ip (w_server w)"
      "\<And>j. j \<noteq> k \<Longrightarrow> rv_sessions (w_server w') j = rv_sessions (w_server w) j"
      "\<And>j. j \<noteq> k \<Longrightarrow> w_phase w' j = w_phase w j" "\<And>j. j \<noteq> k \<Longrightarrow> j \<in> w_closing w' \<longleftrightarrow> j \<in> w_closing w"
    and old: "rv_sessions (w_server w) k = Some s" and new: "rv_sessions (w_server w') k = Some t"
    and status: "(\<not> serves w k s \<and> \<not> serves w' k t) \<or>
      (serves w k s \<and> serves w' k t \<and> rs_hostname t = rs_hostname s \<and> rs_ip t = rs_ip s)"
  shows "server_ok w'"
proof (rule server_ok_cong [OF ok same(1,2)])
  have serves: "j \<noteq> k \<Longrightarrow> serves w' j x \<longleftrightarrow> serves w j x" for j x
    using same(3-5) [of j] by (auto simp: serves_def)
  have its: "serves w' k x \<Longrightarrow> x = t" for x
    using new by (auto simp: serves_def)
  have mine: "serves w k x \<Longrightarrow> x = s" for x
    using old by (auto simp: serves_def)
  show "(\<exists>x. serves w' j x \<and> rs_hostname x = h) \<longleftrightarrow> (\<exists>x. serves w j x \<and> rs_hostname x = h)" for j h
    using status by (cases "j = k") (metis mine its, simp add: serves)
  show "(\<exists>x. serves w' j x \<and> rs_ip x = a) \<longleftrightarrow> (\<exists>x. serves w j x \<and> rs_ip x = a)" for j a
    using status by (cases "j = k") (metis mine its, simp add: serves)
  show "w_phase w' j = None \<and> j \<notin> w_closing w'" if "rv_sessions (w_server w') j = None" for j
    using that no_session [OF ok, of j] same(3-5) [of j] new by (cases "j = k") auto
qed

lemma close_session_simps [simp]:
  "rv_by_hostname (close_session k srv) = rv_by_hostname srv" "rv_by_ip (close_session k srv) = rv_by_ip srv"
  "rv_sessions (close_session k srv) j =
     (if j = k then map_option (\<lambda>s. s\<lparr>rs_closed := True\<rparr>) (rv_sessions srv k) else rv_sessions srv j)"
  by (simp_all add: close_session_def)

lemma put_session_simps [simp]:
  "rv_by_hostname (put_session k s srv) = rv_by_hostname srv" "rv_by_ip (put_session k s srv) = rv_by_ip srv"
  "rv_sessions (put_session k s srv) j = (if j = k then Some s else rv_sessions srv j)"
  by (simp_all add: put_session_def)

lemma phase_has_session:
  assumes "server_ok w" and "w_phase w k = Some p"
  shows "\<exists>s. rv_sessions (w_server w) k = Some s"
  using no_session [OF assms(1), of k] assms(2) by (metis option.distinct(1) option.exhaust)

lemma server_ok_step: "thread_step zone w w' \<Longrightarrow> server_ok w \<Longrightarrow> server_ok w'"
proof (induction rule: thread_step.induct)
  case (connect w k s)
  then show ?case by (intro server_ok_connect)
next
  case (report w k s now)
  show ?case by (rule server_ok_session [of w _ k s s]) (use report in \<open>auto simp: serves_def\<close>)
next
  case (refresh w k s settings now)
  show ?case by (rule server_ok_session [of w _ k s "s\<lparr>rs_last_seen := now, rs_pc_info := settings\<rparr>"]) (use refresh in \<open>auto simp: serves_def\<close>)
next
  case (answer w k s now)
  show ?case by (rule server_ok_session [of w _ k s "s\<lparr>rs_last_seen := now\<rparr>"]) (use answer in \<open>auto simp: serves_def\<close>)
next
  case (leave w k)
  then show ?case by (intro server_ok_leave)
next
  case (shut w k)
  then obtain s where *: "rv_sessions (w_server w) k = Some s" using phase_has_session by blast
  show ?case by (rule server_ok_session [of w _ k s "s\<lparr>rs_closed := True\<rparr>"]) (use * shut in \<open>auto simp: serves_def\<close>)
next
  case (replaced w k s)
  show ?case by (rule server_ok_session [of w _ k s s]) (use replaced in \<open>auto simp: serves_def\<close>)
next
  case (gone w k s)
  show ?case by (rule server_ok_session [of w _ k s s]) (use gone in \<open>auto simp: serves_def\<close>)
next
  case (disconnect w k s now)
  show ?case by (rule server_ok_session [of w _ k s s]) (use disconnect in \<open>auto simp: serves_def\<close>)
next
  case (halt w ks srv)
  then show ?case by (intro server_ok_halt)
next
  case (halt_close k w)
  then obtain s where *: "rv_sessions (w_server w) k = Some s" using no_session by (metis option.exhaust)
  show ?case by (rule server_ok_session [of w _ k s "s\<lparr>rs_closed := True\<rparr>"]) (use * halt_close in \<open>auto simp: serves_def\<close>)
qed

lemma server_ok_reachable: "reachable zone db w \<Longrightarrow> server_ok w"
proof (induction rule: reachable.induct)
  case start
  show ?case by (simp add: server_ok_def serves_def new_server_def)
next
  case (step w w')
  then show ?case by (simp add: server_ok_step)
qed

section \<open>What a status report leaves in the database\<close>

definition same_scans :: "panel_db \<Rightarrow> panel_db \<Rightarrow> bool" where
  "same_scans db db' \<longleftrightarrow>
     scans db' = scans db \<and> scan_pcs db' = scan_pcs db \<and> db_next_scan db' = db_next_scan db
     \<and> reverse_agents db' = reverse_agents db"

interpretation scans_kept: step_relation same_scans
  by unfold_locales (auto simp: same_scans_def)

lemma same_scans_read:
  assumes "same_scans db db'"
  shows "get_scan_pc db' ip = get_scan_pc db ip" and "registry_ok db' \<longleftrightarrow> registry_ok db"
    and "reverse_agents db' = reverse_agents db"
  using assms
  by (simp_all add: same_scans_def get_scan_pc_def get_tracked_ips_def tracked_rows_def registry_ok_def)

lemma keeps_save_snapshot: "keeps same_scans (save_snapshot zone now info)"
proof -
  have "same_scans db (replace_snapshot r db)" for r db
    by (simp add: same_scans_def replace_snapshot_def)
  moreover have "same_scans db (set_meta k t (db\<lparr>snapshots := ss\<rparr>))" for k t ss db
    by (simp add: same_scans_def)
  ultimately show ?thesis
    unfolding save_snapshot_def trim_old_rows_def Let_def by (intro scans_kept.keeps_rules) auto
qed

lemma save_poll_returns:
  assumes "jget info ''ip'' = JStr ip" and "jget info ''hostname'' \<in> range json_of"
  shows "\<exists>db'. save_poll_snapshot now info db = (Inr (), db') \<and> same_scans db db'"
proof -
  have "\<exists>t. sql_text (json_or (jget info ''hostname'') (JStr (lit ''PC at '' @ ip))) = Inr t"
  proof -
    from assms(2) obtain v where "jget info ''hostname'' = json_of v" ..
    then show ?thesis by (cases v) (simp_all add: json_or_def sql_text_def)
  qed
  then show ?thesis
    using assms(1) by (auto simp: save_poll_snapshot_def Let_def sql_text_def same_scans_def replace_snapshot_def)
qed

lemma settings_hostname:
  assumes "settings_to_pc_info settings ip h = Inr found"
  shows "jget found ''hostname'' \<in> range json_of" and "jget found ''reachable'' = JBool True"
proof -
  from assms obtain e where "found = [
              (lit ''ip'', JStr ip),
               (lit ''hostname'', json_of (val_or (field settings (lit ''name''))
                 (PStr (case h of Some f \<Rightarrow> if f \<noteq> [] then f else lit ''PC at '' @ ip | None \<Rightarrow> lit ''PC at '' @ ip))))]
             @ e @ [(lit ''reachable'', JBool True)]" "jget (e @ [(lit ''reachable'', JBool True)]) ''reachable'' = JBool True"
    by (auto simp: settings_to_pc_info_def Let_def rbind_eq_Inr_iff dict_simps)
  then show "jget found ''hostname'' \<in> range json_of" and "jget found ''reachable'' = JBool True"
    by (simp_all add: dict_simps)
qed

lemma emit_status_records:
  assumes "settings_to_pc_info settings (rs_ip s) (Some (rs_hostname s)) = Inr found"
  shows "same_scans
      (record_poll_inspect (rs_ip s) (jset found ''ip'' (JStr (rs_ip s))) now
        (snd (save_poll_snapshot now (jset found ''ip'' (JStr (rs_ip s)))
          (record_agent_poll (rs_hostname s) (rs_ip s) (jset found ''ip'' (JStr (rs_ip s))) now db))))
      (snd (emit_status zone now s settings db))"
proof -
  let ?i = "jset found ''ip'' (JStr (rs_ip s))"
  let ?db = "record_agent_poll (rs_hostname s) (rs_ip s) ?i now db"
  obtain db1 where db1: "save_poll_snapshot now ?i ?db = (Inr (), db1)"
    using save_poll_returns [of ?i "rs_ip s" now ?db] settings_hostname(1) [OF assms] by auto
  have "keeps same_scans (only_if b (save_snapshot zone now ?i))" for b
    by (intro scans_kept.keeps_only_if keeps_save_snapshot)
  then have kept: "same_scans (record_poll_inspect (rs_ip s) ?i now db1)
      (snd (only_if b (save_snapshot zone now ?i) (record_poll_inspect (rs_ip s) ?i now db1)))" for b
    by (simp add: keeps_def)
  obtain r db2 where r: "only_if (jtruthy (jget found ''current_user'')) (save_snapshot zone now ?i)
      (record_poll_inspect (rs_ip s) ?i now db1) = (r, db2)" by fastforce
  have "bind (save_poll_snapshot now ?i) (\<lambda>_. bind (modify (record_poll_inspect (rs_ip s) ?i now))
      (\<lambda>_. only_if (jtruthy (jget found ''current_user'')) (save_snapshot zone now ?i))) ?db = (r, db2)"
    by (simp add: bind_Inr [where m = "save_poll_snapshot now ?i", OF db1] r)
  then have "try_with (bind (save_poll_snapshot now ?i) (\<lambda>_. bind (modify (record_poll_inspect (rs_ip s) ?i now))
      (\<lambda>_. only_if (jtruthy (jget found ''current_user'')) (save_snapshot zone now ?i))))
      (\<lambda>e. Some (ret ())) ?db = (Inr (), db2)"
    by (cases r) (simp_all add: try_with_def)
  then have "emit_status zone now s settings db = (Inr (), db2)"
    by (simp add: emit_status_def record_reverse_pc_info_def assms Let_def bind_assoc bind_Inr try_with_Inr)
  then show ?thesis using kept [of "jtruthy (jget found ''current_user'')"] db1 r by simp
qed

lemma emit_status_fails:
  assumes "settings_to_pc_info settings (rs_ip s) (Some (rs_hostname s)) = Inl e"
  shows "snd (emit_status zone now s settings db) = db"
  using assms by (simp add: emit_status_def record_reverse_pc_info_def try_with_def bind_assoc)

lemma registry_ok_agent_poll [simp]: "registry_ok (record_agent_poll h ip info now db) \<longleftrightarrow> registry_ok db"
  by (simp add: registry_ok_def record_agent_poll_def)

lemma registry_ok_saved:
  assumes "registry_ok db" and "settings_to_pc_info settings ip h = Inr found"
  shows "registry_ok (snd (save_poll_snapshot now (jset found ''ip'' (JStr ip)) db))"
proof -
  obtain db1 where "save_poll_snapshot now (jset found ''ip'' (JStr ip)) db = (Inr (), db1)" "same_scans db db1"
    using save_poll_returns [of "jset found ''ip'' (JStr ip)" ip now db] settings_hostname(1) [OF assms(2)] by auto
  with assms(1) show ?thesis by (simp add: same_scans_read)
qed

lemma registry_ok_emit: "registry_ok db \<Longrightarrow> registry_ok (snd (emit_status zone now s settings db))"
proof (cases "settings_to_pc_info settings (rs_ip s) (Some (rs_hostname s))")
  case (Inr found)
  assume "registry_ok db"
  then show ?thesis
    using same_scans_read(2) [OF emit_status_records [OF Inr]] registry_ok_record registry_ok_saved [OF _ Inr]
    by simp
qed (simp add: emit_status_fails)

lemma registry_ok_clear [simp]: "registry_ok (clear_agent_for_hostname h db) \<longleftrightarrow> registry_ok db"
  by (simp add: registry_ok_def clear_agent_for_hostname_def)

lemma registry_ok_disconnect: "registry_ok db \<Longrightarrow> registry_ok (record_reverse_disconnect h ip now db)"
  by (simp add: record_reverse_disconnect_def registry_ok_record)

lemma registry_ok_reachable: "reachable zone db w \<Longrightarrow> registry_ok db \<Longrightarrow> registry_ok (w_db w)"
proof (induction rule: reachable.induct)
  case (step w w')
  from step.hyps(2) step.IH [OF step.prems] show ?case
    by (cases rule: thread_step.cases)
      (auto intro: registry_ok_emit registry_ok_disconnect)
qed simp

text \<open>
  A status report of a connected agent arrives everywhere it is shown: it is the state the
  panel holds for the agent's address, marked reachable, and a heartbeat that is recent
  until its time is up; the other computers keep their states.
\<close>

theorem status_report_is_shown:
  assumes "registry_ok db" and "settings_to_pc_info settings (rs_ip s) (Some (rs_hostname s)) = Inr found"
    and "instant (sync_now later) \<le> instant (sync_now now) + max_age * 1000000"
  shows "get_scan_pc (snd (emit_status zone now s settings db)) a =
      (if a = rs_ip s then Some (jset found ''ip'' (JStr (rs_ip s))) else get_scan_pc db a)
    \<and> jget found ''reachable'' = JBool True
    \<and> recent_agent_for_hostname zone max_age later (rs_hostname s) (snd (emit_status zone now s settings db)) \<noteq> None"
proof -
  let ?i = "jset found ''ip'' (JStr (rs_ip s))"
  let ?db = "record_agent_poll (rs_hostname s) (rs_ip s) ?i now db"
  obtain db1 where db1: "save_poll_snapshot now ?i ?db = (Inr (), db1)" "same_scans ?db db1"
    using save_poll_returns [of ?i "rs_ip s" now ?db] settings_hostname(1) [OF assms(2)] by auto
  have rec: "same_scans (record_poll_inspect (rs_ip s) ?i now db1) (snd (emit_status zone now s settings db))"
    using emit_status_records [OF assms(2), of now db zone] by (simp add: db1)
  have ok: "registry_ok db1" using same_scans_read(2) [OF db1(2)] assms(1) by simp
  have scans: "get_scan_pc db1 a = get_scan_pc db a"
    using same_scans_read(1) [OF db1(2), of a]
    by (simp add: get_scan_pc_def get_tracked_ips_def tracked_rows_def record_agent_poll_def)
  have rows: "reverse_agents (snd (emit_status zone now s settings db)) = reverse_agents ?db"
    using same_scans_read(3) [OF rec] same_scans_read(3) [OF db1(2)]
    by (simp add: record_poll_inspect_def Let_def insert_scan_def touch_scan_def update_scan_pc_def split: option.splits if_splits)
  have "recent_agent_for_hostname zone max_age later (rs_hostname s) ?db \<noteq> None"
    using assms(3) unfolding recent_agent_for_hostname_def row_after_record
    by (simp add: recent_payload_def instant_sync)
  then have "recent_agent_for_hostname zone max_age later (rs_hostname s) (snd (emit_status zone now s settings db)) \<noteq> None"
    by (simp only: recent_agent_for_hostname_def rows not_False_eq_True)
  then show ?thesis
    using same_scans_read(1) [OF rec, of a] get_scan_pc_record [OF ok, of "rs_ip s" ?i now a] scans
      settings_hostname(2) [OF assms(2)]
    by (simp add: jset_def)
qed

text \<open>Settings an agent could send, and a session of a computer called \<open>mia-pc\<close>.\<close>

definition sample_settings :: "pystr \<Rightarrow> pyval option" where
  "sample_settings = [lit ''name'' \<mapsto> PStr (lit ''mia-pc''), lit ''status'' \<mapsto> PStr (lit ''UNLOCKED'')]"

definition sample_session :: session where
  "sample_session = \<lparr>rs_hostname = lit ''mia-pc'', rs_ip = lit ''10.0.0.7'', rs_last_seen = sample_time,
     rs_pc_info = sample_settings, rs_closed = False\<rparr>"

lemma sample_settings_shown:
  "\<exists>found. settings_to_pc_info sample_settings (lit ''10.0.0.7'') (Some (lit ''mia-pc'')) = Inr found"
  by (simp add: settings_to_pc_info_def sample_settings_def field_def val_or_def truthy_def effective_limit_def Let_def)

theorem status_report_is_shown_witness:
  "\<exists>found. get_scan_pc (snd (emit_status (\<lambda>_. 0) sample_time sample_session sample_settings empty_db))
      (lit ''10.0.0.7'') = Some found \<and> jget found ''reachable'' = JBool True"
proof -
  obtain found where f: "settings_to_pc_info sample_settings (rs_ip sample_session) (Some (rs_hostname sample_session)) = Inr found"
    using sample_settings_shown by (auto simp: sample_session_def)
  show ?thesis
    using status_report_is_shown [OF registry_ok_empty f, where later = sample_time and now = sample_time
        and max_age = 180 and a = "lit ''10.0.0.7''" and zone = "\<lambda>_. 0"]
    by (simp add: sample_session_def)
qed

section \<open>Properties of the sessions\<close>

lemma live_session_served:
  assumes "reachable zone db w" and "live_session (w_server w) ip = Some s"
  shows "rs_ip s = ip \<and> (\<exists>k. serves w k s \<and> (\<forall>j t. serves w j t \<longrightarrow> rs_hostname t = rs_hostname s \<longrightarrow> j = k))"
proof -
  have ok: "server_ok w" using assms(1) by (rule server_ok_reachable)
  from assms(2) obtain k where k: "rv_by_ip (w_server w) ip = Some k" "rv_sessions (w_server w) k = Some s"
    by (auto simp: live_session_def session_for_ip_def split: option.splits)
  with by_ip_serves [OF ok k(1)] have s: "serves w k s" "rs_ip s = ip" by (auto simp: serves_def)
  have "j = k" if "serves w j t" "rs_hostname t = rs_hostname s" for j t
    using served_is_registered [OF ok that(1)] served_is_registered [OF ok s(1)] that(2) by simp
  with s show ?thesis by blast
qed

lemma perform_action_runs:
  assumes "reachable zone db w" and "live_session (w_server w) ip = Some s"
    and "action_request_fields name payload = Inr f" and "run s f = Inr response"
  shows "perform_action py (w_server w) run ip name payload = Some (response_ok response, response_text response)"
proof -
  have "\<not> rs_closed s" using live_session_served [OF assms(1,2)] by (auto simp: serves_def)
  then show ?thesis using assms(2-4) by (simp add: perform_action_def submit_def)
qed

text \<open>
  C22. A button acts on the computer it was pressed for, however the threads of the
  connections interleave: the session the registry gives for an address is a connection
  from that address that is open and served, the only such connection of its host name, so
  the request is handed to it; without one the action answers that nothing is connected.
\<close>

theorem action_reaches_the_open_session:
  assumes "reachable zone db w"
  shows "(case live_session (w_server w) ip of
      None \<Rightarrow> perform_action py (w_server w) run ip name payload = None
    | Some s \<Rightarrow> rs_ip s = ip
        \<and> (\<exists>k. serves w k s \<and> (\<forall>j t. serves w j t \<longrightarrow> rs_hostname t = rs_hostname s \<longrightarrow> j = k))
        \<and> (\<forall>f response. action_request_fields name payload = Inr f \<longrightarrow> run s f = Inr response \<longrightarrow>
             perform_action py (w_server w) run ip name payload = Some (response_ok response, response_text response)))"
proof (cases "live_session (w_server w) ip")
  case None
  then show ?thesis by (simp add: perform_action_def)
next
  case (Some s)
  then show ?thesis
    using live_session_served [OF assms Some] perform_action_runs [OF assms Some] by auto
qed

text \<open>The registered session of a new connection.\<close>

definition connected :: "session \<Rightarrow> panel_world" where
  "connected s = \<lparr>w_server = register 0 (put_session 0 s new_server), w_phase = [0 \<mapsto> Reporting],
     w_closing = {}, w_db = empty_db\<rparr>"

lemma reachable_connected:
  assumes "\<not> rs_closed s"
  shows "reachable zone empty_db (connected s)"
proof -
  let ?w = "\<lparr>w_server = new_server, w_phase = (\<lambda>_. None), w_closing = {}, w_db = empty_db\<rparr>"
  have "thread_step zone ?w (connected s)"
    using thread_step.connect [of ?w 0 s zone] assms by (simp add: connected_def new_server_def)
  with start show ?thesis by (rule step)
qed

lemma connected_session: "live_session (w_server (connected s)) (rs_ip s) = Some s"
  by (simp add: live_session_def session_for_ip_def connected_def register_def put_session_def new_server_def Let_def)

lemma sample_session_open: "\<not> rs_closed sample_session"
  by (simp add: sample_session_def)

theorem action_reaches_the_open_session_witness:
  "\<forall>py r. perform_action py (w_server (connected sample_session)) (\<lambda>_ _. Inr r) (rs_ip sample_session) (lit ''lock'') [] =
     Some (response_ok r, response_text r)"
proof (intro allI)
  fix py and r :: response
  show "perform_action py (w_server (connected sample_session)) (\<lambda>_ _. Inr r) (rs_ip sample_session) (lit ''lock'') [] =
     Some (response_ok r, response_text r)"
    using action_reaches_the_open_session [OF reachable_connected [OF sample_session_open], where ip = "rs_ip sample_session"
      and py = py and run = "\<lambda>_ _. Inr r" and name = "lit ''lock''" and payload = "[]"]
    by (simp add: connected_session action_request_fields_def Let_def)
qed

section \<open>A late disconnect\<close>

text \<open>
  The check for a replacement holds the lock, the callback after it does not: when an
  agent reconnects in between, the panel shows it as unreachable and forgets its heartbeat
  although its new session is open and served, until the next status report.
\<close>

theorem late_disconnect_hides_a_live_agent:
  "\<exists>w s p. reachable zone empty_db w \<and> live_session (w_server w) (lit ''10.0.0.7'') = Some s
     \<and> serves w 1 s \<and> w_phase w 1 = Some Serving
     \<and> get_scan_pc (w_db w) (lit ''10.0.0.7'') = Some p \<and> \<not> jtruthy (jget_or p ''reachable'' (JBool True))
     \<and> recent_agent_for_hostname zone max_age now (rs_hostname s) (w_db w) = None"
proof -
  let ?s = sample_session
  let ?db1 = "snd (emit_status zone sample_time ?s sample_settings empty_db)"
  let ?db2 = "snd (emit_status zone sample_time ?s sample_settings ?db1)"
  let ?h = "lit ''mia-pc''" and ?ip = "lit ''10.0.0.7''"
  let ?a = "?s\<lparr>rs_closed := True\<rparr>"
  let ?in = "\<lambda>k m. \<lparr>rv_running = True, rv_sessions = m, rv_by_hostname = [?h \<mapsto> k], rv_by_ip = [?ip \<mapsto> k]\<rparr>"
  let ?out = "\<lambda>m. \<lparr>rv_running = True, rv_sessions = m, rv_by_hostname = (\<lambda>_. None), rv_by_ip = (\<lambda>_. None)\<rparr>"
  let ?w = "\<lambda>srv ph d. \<lparr>w_server = srv, w_phase = ph, w_closing = {}, w_db = d\<rparr>"
  note eqs = unregister_def close_session_def register_def put_session_def sample_session_def
  have "reachable zone empty_db (?w (?in 0 [0 \<mapsto> ?s]) [0 \<mapsto> Reporting] empty_db)"
  proof -
    have "connected ?s = ?w (?in 0 [0 \<mapsto> ?s]) [0 \<mapsto> Reporting] empty_db"
      by (simp add: connected_def new_server_def eqs)
    then show ?thesis using reachable_connected [OF sample_session_open] by simp
  qed
  then have "reachable zone empty_db (?w (?in 0 [0 \<mapsto> ?s]) [0 \<mapsto> Serving] ?db1)"
    by (rule step) (use thread_step.report [of "?w (?in 0 [0 \<mapsto> ?s]) [0 \<mapsto> Reporting] empty_db" 0 ?s zone sample_time]
        in \<open>simp add: eqs\<close>)
  then have "reachable zone empty_db (?w (?out [0 \<mapsto> ?s]) [0 \<mapsto> Left] ?db1)"
    by (rule step) (use thread_step.leave [of "?w (?in 0 [0 \<mapsto> ?s]) [0 \<mapsto> Serving] ?db1" 0 zone] in \<open>simp add: eqs\<close>)
  then have "reachable zone empty_db (?w (?out [0 \<mapsto> ?a]) [0 \<mapsto> Shut] ?db1)"
    by (rule step) (use thread_step.shut [of "?w (?out [0 \<mapsto> ?s]) [0 \<mapsto> Left] ?db1" 0 zone] in \<open>simp add: eqs\<close>)
  then have "reachable zone empty_db (?w (?out [0 \<mapsto> ?a]) [0 \<mapsto> Gone] ?db1)"
    by (rule step) (use thread_step.gone [of "?w (?out [0 \<mapsto> ?a]) [0 \<mapsto> Shut] ?db1" 0 "?a" zone] in \<open>simp add: eqs\<close>)
  then have "reachable zone empty_db (?w (?in 1 [0 \<mapsto> ?a, 1 \<mapsto> ?s]) [0 \<mapsto> Gone, 1 \<mapsto> Reporting] ?db1)"
    by (rule step) (use thread_step.connect [of "?w (?out [0 \<mapsto> ?a]) [0 \<mapsto> Gone] ?db1" 1 ?s zone] in \<open>simp add: eqs\<close>)
  then have "reachable zone empty_db (?w (?in 1 [0 \<mapsto> ?a, 1 \<mapsto> ?s]) [0 \<mapsto> Gone, 1 \<mapsto> Serving] ?db2)"
    by (rule step) (use thread_step.report [of "?w (?in 1 [0 \<mapsto> ?a, 1 \<mapsto> ?s]) [0 \<mapsto> Gone, 1 \<mapsto> Reporting] ?db1" 1 ?s zone sample_time]
        in \<open>simp add: eqs\<close>)
  then have r: "reachable zone empty_db (?w (?in 1 [0 \<mapsto> ?a, 1 \<mapsto> ?s]) [1 \<mapsto> Serving, 0 \<mapsto> Done] (record_reverse_disconnect ?h ?ip sample_time ?db2))"
    by (rule step) (use thread_step.disconnect [of "?w (?in 1 [0 \<mapsto> ?a, 1 \<mapsto> ?s]) [0 \<mapsto> Gone, 1 \<mapsto> Serving] ?db2" 0 "?a" zone sample_time]
        in \<open>simp add: eqs\<close>)
  let ?fin = "?w (?in 1 [0 \<mapsto> ?a, 1 \<mapsto> ?s]) [1 \<mapsto> Serving, 0 \<mapsto> Done] (record_reverse_disconnect ?h ?ip sample_time ?db2)"
  have "registry_ok (clear_agent_for_hostname ?h ?db2)" by (simp add: registry_ok_emit registry_ok_empty)
  then have "get_scan_pc (w_db ?fin) ?ip = Some
      (jset [(lit ''hostname'', JStr ?h), (lit ''ip'', JStr ?ip), (lit ''reachable'', JBool False)] ''ip'' (JStr ?ip))"
    by (simp add: record_reverse_disconnect_def get_scan_pc_record)
  moreover have "recent_agent_for_hostname zone max_age now ?h (w_db ?fin) = None"
    by (simp add: record_reverse_disconnect_def recent_agent_for_hostname_def clear_agent_for_hostname_def
        record_poll_inspect_def Let_def insert_scan_def touch_scan_def update_scan_pc_def filter_other_keys
        first_row_def recent_payload_def del: filter_filter split: option.split)
  moreover have "live_session (w_server ?fin) ?ip = Some ?s" "serves ?fin 1 ?s" "w_phase ?fin 1 = Some Serving"
    by (simp_all add: live_session_def session_for_ip_def serves_def sample_session_def)
  ultimately show ?thesis
    using r by (intro exI [of _ ?fin] exI [of _ ?s] exI) (auto simp: jget_or_def dict_simps sample_session_def)
qed

end
