(* ===== verification/Agent_Link.thy ===== *)
theory Agent_Link
  imports Control_Server Panel_Data
begin

text \<open>
  \<open>src/kid_pc_monitor/agent_sync_client.py\<close>: the agent's end of the connection to the
  panel. It finds the panel (a configured or remembered address, else every host of the
  local network), opens a connection to its reverse port, and answers the requests that
  arrive on it until the connection ends; then it starts again after a pause. Everything
  the client learns from outside in one cycle is a record of \<open>surroundings\<close>.
\<close>

section \<open>Addresses\<close>

definition strip_slashes :: "pystr \<Rightarrow> pystr" where
  "strip_slashes s = rev (dropWhile (\<lambda>c. c = 47) (rev s))"

definition normalize_panel_url :: "pystr \<Rightarrow> pystr" where
  "normalize_panel_url raw =
     (let url = strip_slashes (strip raw) in
      if url = [] then []
      else if \<not> occurs_in (lit ''://'') url then lit ''http://'' @ url
      else url)"

text \<open>
  \<open>urlparse(url).scheme\<close> and \<open>.hostname\<close>, for the addresses that could be fetched
  (\<open>http\<close> and \<open>https\<close>): the part up to the first colon, and what stands between the
  slashes and the path, without user and port, in lower case.
\<close>

definition url_scheme :: "pystr \<Rightarrow> pystr" where
  "url_scheme url = lower (takeWhile (\<lambda>c. c \<noteq> 58) url)"

definition url_netloc :: "pystr \<Rightarrow> pystr" where
  "url_netloc url =
     (let rest = tl (dropWhile (\<lambda>c. c \<noteq> 58) url) in
      if take 2 rest = lit ''//'' then takeWhile (\<lambda>c. c \<notin> {47, 63, 35}) (drop 2 rest) else [])"

definition url_hostname :: "pystr \<Rightarrow> pystr" where
  "url_hostname url =
     (let hostinfo = rev (takeWhile (\<lambda>c. c \<noteq> 64) (rev (url_netloc url))) in
      lower (if 91 \<in> set hostinfo
             then takeWhile (\<lambda>c. c \<noteq> 93) (tl (dropWhile (\<lambda>c. c \<noteq> 91) hostinfo))
             else takeWhile (\<lambda>c. c \<noteq> 58) hostinfo))"

section \<open>Finding the panel\<close>

text \<open>
  What \<open>_http_json\<close> gives for the discovery address under a base address: JSON, an
  HTTP or network error, a body that is not JSON, or another exception.
\<close>

datatype http_result = Answered json | Unreached | Not_json | Raised exn

definition DEFAULT_PANEL_PORT :: int where
  "DEFAULT_PANEL_PORT = 5000"

definition AGENT_REVERSE_PORT :: int where
  "AGENT_REVERSE_PORT = 9998"

definition RECONNECT_MIN_SEC :: rat where
  "RECONNECT_MIN_SEC = 2"

definition RECONNECT_MAX_SEC :: rat where
  "RECONNECT_MAX_SEC = 60"

definition MAX_DISCOVERY_HOSTS :: nat where
  "MAX_DISCOVERY_HOSTS = 254"

definition DISCOVERY_MARKER :: pystr where
  "DISCOVERY_MARKER = lit ''kid-pc-monitor-panel''"

text \<open>\<open>payload.get\<close> needs a JSON object.\<close>

definition discover_payload :: "(pystr \<Rightarrow> http_result) \<Rightarrow> pystr \<Rightarrow> jdict option res" where
  "discover_payload fetch base_url =
     (case fetch base_url of
        Answered (JObj payload) \<Rightarrow>
          Inr (if jget payload ''service'' = JStr DISCOVERY_MARKER then Some payload else None)
      | Answered _ \<Rightarrow> Inl AttributeError
      | Unreached \<Rightarrow> Inr None
      | Not_json \<Rightarrow> Inr None
      | Raised e \<Rightarrow> Inl e)"

definition is_panel_url :: "(pystr \<Rightarrow> http_result) \<Rightarrow> pystr \<Rightarrow> bool res" where
  "is_panel_url fetch base_url = rbind (discover_payload fetch base_url) (\<lambda>p. Inr (p \<noteq> None))"

text \<open>The first candidate that is a panel; empty ones are skipped.\<close>

fun first_panel :: "(pystr \<Rightarrow> http_result) \<Rightarrow> pystr list \<Rightarrow> pystr option res" where
  "first_panel fetch [] = Inr None"
| "first_panel fetch (c # cs) =
     (if c = [] then first_panel fetch cs
      else rbind (is_panel_url fetch c) (\<lambda>found. if found then Inr (Some c) else first_panel fetch cs))"

text \<open>
  The surroundings in one cycle: the variable of the environment, the network, the hosts
  of the local /24 network in the order they are tried (None when the own address is no
  address), whether the cache file can be written, the stored secret, the outcome of
  opening a connection, and \<open>random.uniform(0, 3)\<close>.
\<close>

record surroundings =
  su_panel_url :: pystr
  su_fetch :: "pystr \<Rightarrow> http_result"
  su_hosts :: "pystr list option"
  su_cache_writable :: bool
  su_secret :: "pystr option res"
  su_open :: "pystr \<Rightarrow> int \<Rightarrow> bool \<Rightarrow> unit res"
  su_jitter :: rat

text \<open>The client: the panel it knows, the cache file (or what reading it raises), the agent.\<close>

record 'h client =
  cl_panel_url :: "pystr option"
  cl_cache :: "pystr res"
  cl_world :: "'h world"

definition read_cached_panel_url :: "pystr res \<Rightarrow> pystr res" where
  "read_cached_panel_url cache =
     (case cache of
        Inr text \<Rightarrow> Inr (normalize_panel_url text)
      | Inl (OSError m) \<Rightarrow> Inr []
      | Inl e \<Rightarrow> Inl e)"

definition write_cached_panel_url :: "surroundings \<Rightarrow> pystr \<Rightarrow> 'h client \<Rightarrow> 'h client" where
  "write_cached_panel_url su url c =
     (if su_cache_writable su then c\<lparr>cl_cache := Inr (strip_slashes url @ [10])\<rparr> else c)"

definition lan_candidate :: "pystr \<Rightarrow> pystr" where
  "lan_candidate ip = lit ''http://'' @ ip @ [58] @ int_str DEFAULT_PANEL_PORT"

definition remember :: "surroundings \<Rightarrow> pystr option \<Rightarrow> ('h client, pystr option) act" where
  "remember su found =
     bind (case found of Some url \<Rightarrow> modify (write_cached_panel_url su url) | None \<Rightarrow> ret ()) (\<lambda>_. ret found)"

definition discover_panel_url :: "surroundings \<Rightarrow> ('h client, pystr option) act" where
  "discover_panel_url su =
     bind (gets cl_cache)
       (\<lambda>cache. bind (lift (read_cached_panel_url cache))
         (\<lambda>cached. bind (lift (first_panel (su_fetch su) [normalize_panel_url (su_panel_url su), cached]))
           (\<lambda>known. case known of
              Some url \<Rightarrow> remember su (Some url)
            | None \<Rightarrow>
                (case su_hosts su of
                   None \<Rightarrow> ret None
                 | Some hosts \<Rightarrow>
                     bind (lift (first_panel (su_fetch su) (map lan_candidate (take MAX_DISCOVERY_HOSTS hosts))))
                       (remember su)))))"

definition reverse_endpoint :: "(pystr \<Rightarrow> http_result) \<Rightarrow> pystr \<Rightarrow> (pystr \<times> int \<times> bool) res" where
  "reverse_endpoint fetch panel_url =
     (if url_hostname panel_url = [] then Inl ValueError
      else rbind (discover_payload fetch panel_url)
        (\<lambda>found. let payload = (case found of Some p \<Rightarrow> p | None \<Rightarrow> []) in
          case py_int (jget_or payload ''reverse_port'' (JInt AGENT_REVERSE_PORT)) of
            Inl e \<Rightarrow>
              if e = TypeError \<or> e = ValueError
              then Inr (url_hostname panel_url, AGENT_REVERSE_PORT, url_scheme panel_url = lit ''https'')
              else Inl e
          | Inr port \<Rightarrow> Inr (url_hostname panel_url, port, url_scheme panel_url = lit ''https'')))"

section \<open>Serving a connection\<close>

text \<open>
  One turn of the loop: what the agent's other thread does to it before the request is
  handled, what \<open>recv\<close> gives, the clock when the request is checked and when the answer
  is stamped, the random bytes of the answer, and the outcome of sending.
\<close>

record 'h turn =
  tn_meanwhile :: "'h world \<Rightarrow> 'h world"
  tn_socket :: socket
  tn_now :: int
  tn_sent :: int
  tn_random :: bytes
  tn_send :: "unit res"

definition is_socket_error :: "exn \<Rightarrow> bool" where
  "is_socket_error e \<longleftrightarrow> (case e of OSError _ \<Rightarrow> True | ConnectionError _ \<Rightarrow> True | TimeoutError \<Rightarrow> True | _ \<Rightarrow> False)"

definition is_protocol_error :: "exn \<Rightarrow> bool" where
  "is_protocol_error e \<longleftrightarrow> (case e of ProtocolError _ _ _ \<Rightarrow> True | ClosedBeforeFrame _ _ _ \<Rightarrow> True | _ \<Rightarrow> False)"

text \<open>The loop of \<open>_serve_connection\<close>, with the frames it has sent as its result.\<close>

fun serve_connection :: "'h env \<Rightarrow> pystr \<Rightarrow> 'h turn list \<Rightarrow> ('h, bytes list) wact" where
  "serve_connection env secret [] = ret []"
| "serve_connection env secret (t # ts) =
     bind (modify (tn_meanwhile t))
       (\<lambda>_. case read_frame (tn_socket t) of
          Inl e \<Rightarrow> if is_protocol_error e \<or> is_socket_error e then ret [] else raising e
        | Inr body \<Rightarrow>
            bind (handle_request env body secret (tn_now t) (tn_sent t) (tn_random t))
              (\<lambda>response. bind (lift (encode_frame response))
                (\<lambda>frame. case tn_send t of
                   Inl e \<Rightarrow> if is_socket_error e then ret [] else raising e
                 | Inr _ \<Rightarrow> bind (serve_connection env secret ts) (\<lambda>frames. ret (frame # frames)))))"

section \<open>Connecting again and again\<close>

definition reconnect_delay :: "surroundings \<Rightarrow> rat" where
  "reconnect_delay su = min RECONNECT_MAX_SEC (RECONNECT_MIN_SEC + su_jitter su)"

definition known_panel :: "surroundings \<Rightarrow> ('h client, pystr option) act" where
  "known_panel su =
     bind (gets cl_panel_url)
       (\<lambda>known. case known of
          Some url \<Rightarrow> ret (Some url)
        | None \<Rightarrow> bind (discover_panel_url su)
            (\<lambda>found. bind (modify (\<lambda>c. c\<lparr>cl_panel_url := found\<rparr>)) (\<lambda>_. ret found)))"

text \<open>Whether the connection is open; a failure to open it forgets the panel.\<close>

definition open_connection :: "surroundings \<Rightarrow> pystr \<Rightarrow> ('h client, bool) act" where
  "open_connection su url =
     try_with
       (bind (lift (reverse_endpoint (su_fetch su) url))
         (\<lambda>endpoint. case endpoint of (host, port, use_tls) \<Rightarrow>
            bind (lift (su_open su host port use_tls)) (\<lambda>_. ret True)))
       (\<lambda>e. if is_socket_error e \<or> e = ValueError
            then Some (bind (modify (\<lambda>c. c\<lparr>cl_panel_url := None\<rparr>)) (\<lambda>_. ret False))
            else None)"

definition connect_once :: "'h env \<Rightarrow> surroundings \<Rightarrow> 'h turn list \<Rightarrow> ('h client, rat) act" where
  "connect_once env su turns =
     bind (lift (su_secret su))
       (\<lambda>stored. case stored of
          None \<Rightarrow> ret 30
        | Some secret \<Rightarrow>
            if secret = [] then ret 30
            else bind (known_panel su)
              (\<lambda>panel. case panel of
                 None \<Rightarrow> ret 30
               | Some url \<Rightarrow>
                   bind (open_connection su url)
                     (\<lambda>connected. bind
                        (if connected
                         then bind (zoom cl_world (\<lambda>w c. c\<lparr>cl_world := w\<rparr>) (serve_connection env secret turns))
                                (\<lambda>_. ret ())
                         else ret ())
                        (\<lambda>_. ret (reconnect_delay su)))))"

text \<open>The loop of \<open>run\<close>, over the cycles there are: the pauses it makes.\<close>

fun run_client :: "'h env \<Rightarrow> (surroundings \<times> 'h turn list) list \<Rightarrow> ('h client, rat list) act" where
  "run_client env [] = ret []"
| "run_client env ((su, turns) # cycles) =
     bind (try_all (connect_once env su turns) (\<lambda>_. ret 15))
       (\<lambda>delay. bind (run_client env cycles) (\<lambda>delays. ret (delay # delays)))"

section \<open>Facts\<close>

text \<open>No fetch raises: every answer is an object, or counts as no panel.\<close>

definition fetches_cleanly :: "(pystr \<Rightarrow> http_result) \<Rightarrow> bool" where
  "fetches_cleanly fetch \<longleftrightarrow> (\<forall>url. \<exists>found. discover_payload fetch url = Inr found)"

definition is_panel :: "(pystr \<Rightarrow> http_result) \<Rightarrow> pystr \<Rightarrow> bool" where
  "is_panel fetch url \<longleftrightarrow>
     (\<exists>d. fetch url = Answered (JObj d) \<and> jget d ''service'' = JStr DISCOVERY_MARKER)"

lemma discover_payload_Some:
  "(\<exists>d. discover_payload fetch url = Inr (Some d)) \<longleftrightarrow> is_panel fetch url"
  by (auto simp: discover_payload_def is_panel_def split: http_result.split json.split)

lemma is_panel_url_clean: "fetches_cleanly fetch \<Longrightarrow> is_panel_url fetch url = Inr (is_panel fetch url)"
proof -
  assume "fetches_cleanly fetch"
  then obtain found where "discover_payload fetch url = Inr found" unfolding fetches_cleanly_def by blast
  then show ?thesis using discover_payload_Some [of fetch url] by (auto simp: is_panel_url_def)
qed

lemma first_panel_clean:
  assumes "fetches_cleanly fetch"
  shows "first_panel fetch cs = Inr (List.find (\<lambda>c. c \<noteq> [] \<and> is_panel fetch c) cs)"
  by (induction cs) (simp_all add: is_panel_url_clean [OF assms])

lemma find_append: "List.find P (xs @ ys) = (case List.find P xs of Some x \<Rightarrow> Some x | None \<Rightarrow> List.find P ys)"
  by (induction xs) auto

definition candidates :: "surroundings \<Rightarrow> pystr \<Rightarrow> pystr list" where
  "candidates su cached =
     [normalize_panel_url (su_panel_url su), cached]
     @ (case su_hosts su of None \<Rightarrow> [] | Some hosts \<Rightarrow> map lan_candidate (take MAX_DISCOVERY_HOSTS hosts))"

lemma remember_eq:
  "remember su found c =
     (Inr found, case found of Some url \<Rightarrow> write_cached_panel_url su url c | None \<Rightarrow> c)"
  by (simp add: remember_def split: option.split)

text \<open>
  Discovery finds the panel: unless a fetch raises, it returns the first address that
  answers as a panel among the configured one, the remembered one and the hosts of the
  local network, in this order, and None only if none of them does; the address found is
  what is remembered.
\<close>

theorem discovery_finds_the_first_panel:
  assumes "fetches_cleanly (su_fetch su)" and "read_cached_panel_url (cl_cache c) = Inr cached"
  shows "discover_panel_url su c =
    (let found = List.find (\<lambda>u. u \<noteq> [] \<and> is_panel (su_fetch su) u) (candidates su cached) in
     (Inr found, case found of Some url \<Rightarrow> write_cached_panel_url su url c | None \<Rightarrow> c))"
proof -
  let ?P = "\<lambda>u. u \<noteq> [] \<and> is_panel (su_fetch su) u"
  let ?lan = "\<lambda>hosts. map lan_candidate (take MAX_DISCOVERY_HOSTS hosts)"
  let ?known = "List.find ?P [normalize_panel_url (su_panel_url su), cached]"
  have all: "List.find ?P (candidates su cached) =
      (case ?known of Some u \<Rightarrow> Some u
       | None \<Rightarrow> (case su_hosts su of None \<Rightarrow> None | Some hosts \<Rightarrow> List.find ?P (?lan hosts)))"
    unfolding candidates_def find_append by (cases "su_hosts su") (simp_all only: option.case find.simps)
  have "discover_panel_url su c =
      (case ?known of
         Some u \<Rightarrow> remember su (Some u) c
       | None \<Rightarrow> (case su_hosts su of None \<Rightarrow> (Inr None, c)
                 | Some hosts \<Rightarrow> remember su (List.find ?P (?lan hosts)) c))"
    unfolding discover_panel_url_def
    by (cases ?known; cases "su_hosts su") (simp_all add: assms(2) first_panel_clean [OF assms(1)]
        del: first_panel.simps find.simps)
  then show ?thesis
    unfolding all Let_def remember_eq
    by (cases ?known; cases "su_hosts su") (simp_all del: find.simps)
qed

definition panel_answer :: http_result where
  "panel_answer = Answered (JObj [(lit ''service'', JStr DISCOVERY_MARKER), (lit ''reverse_port'', JInt 9998)])"

text \<open>A network with the panel at one address, and the surroundings of a client in it.\<close>

definition panel_at :: "pystr \<Rightarrow> pystr \<Rightarrow> http_result" where
  "panel_at url = (\<lambda>u. if u = url then panel_answer else Unreached)"

definition home_network :: surroundings where
  "home_network = \<lparr>su_panel_url = [], su_fetch = panel_at (lit ''http://10.0.0.2:5000''),
     su_hosts = Some [lit ''10.0.0.1'', lit ''10.0.0.2''], su_cache_writable = True,
     su_secret = Inr (Some (lit ''key'')), su_open = (\<lambda>_ _ _. Inr ()), su_jitter = 1\<rparr>"

lemma panel_at_clean: "fetches_cleanly (panel_at url)"
  by (auto simp: fetches_cleanly_def discover_payload_def panel_at_def panel_answer_def)

lemma lan_candidate_lit: "lan_candidate (lit ip) = lit (''http://'' @ ip @ '':5000'')"
proof -
  have "nat_str 5000 = lit ''5000''"
    by (simp add: lit_def nat_str.simps)
  then show ?thesis by (simp add: lan_candidate_def DEFAULT_PANEL_PORT_def int_str_def lit_append) (simp add: lit_def)
qed

definition new_client :: "'h world \<Rightarrow> 'h client" where
  "new_client w = \<lparr>cl_panel_url = None, cl_cache = Inl (OSError []), cl_world = w\<rparr>"

theorem discovery_finds_the_first_panel_witness:
  "fst (discover_panel_url home_network (new_client sample_world)) = Inr (Some (lit ''http://10.0.0.2:5000''))"
proof -
  have clean: "fetches_cleanly (su_fetch home_network)" by (simp add: home_network_def panel_at_clean)
  have cached: "read_cached_panel_url (cl_cache (new_client sample_world)) = Inr []"
    by (simp add: new_client_def read_cached_panel_url_def)
  have none: "normalize_panel_url (su_panel_url home_network) = []"
    by (simp add: home_network_def normalize_panel_url_def strip_def strip_slashes_def)
  have "List.find (\<lambda>u. u \<noteq> [] \<and> is_panel (su_fetch home_network) u) (candidates home_network [])
      = Some (lit ''http://10.0.0.2:5000'')"
    unfolding candidates_def none
    by (simp add: home_network_def lan_candidate_lit is_panel_def panel_at_def panel_answer_def jget_Cons
        MAX_DISCOVERY_HOSTS_def)
  then show ?thesis
    unfolding discovery_finds_the_first_panel [OF clean cached] by (simp add: Let_def)
qed

section \<open>Pauses\<close>

lemma connect_once_delay:
  assumes "0 \<le> su_jitter su" and "su_jitter su \<le> 3"
  shows "outcome (\<lambda>d. 2 \<le> d \<and> d \<le> 60) (\<lambda>_. True) (connect_once env su turns)"
proof -
  have any: "outcome (\<lambda>_. True) (\<lambda>_. True) m" for m :: "('a client, 'x) act"
    by (auto intro: outcomeI)
  have "2 \<le> reconnect_delay su \<and> reconnect_delay su \<le> 60"
    using assms by (simp add: reconnect_delay_def RECONNECT_MIN_SEC_def RECONNECT_MAX_SEC_def)
  then show ?thesis
    unfolding connect_once_def
    by (auto intro!: outcome_bind [OF any] split: option.split)
qed

text \<open>
  C19. The agent never gives up on its panel and never floods it: whatever goes wrong in a
  cycle, the client's loop does not end with an exception, and it pauses between 2 and 60
  seconds before the next cycle.
\<close>

theorem client_keeps_trying:
  assumes "\<forall>(su, turns) \<in> set cycles. 0 \<le> su_jitter su \<and> su_jitter su \<le> 3"
  shows "\<exists>delays c'. run_client env cycles c = (Inr delays, c') \<and> length delays = length cycles
    \<and> (\<forall>d \<in> set delays. 2 \<le> d \<and> d \<le> 60)"
  using assms
proof (induction cycles arbitrary: c)
  case (Cons cycle cycles)
  obtain su turns where cycle: "cycle = (su, turns)" by fastforce
  obtain r c1 where r: "connect_once env su turns c = (r, c1)" by fastforce
  have "\<exists>d. try_all (connect_once env su turns) (\<lambda>_. ret 15) c = (Inr d, c1) \<and> 2 \<le> d \<and> d \<le> 60"
  proof (cases r)
    case (Inl e)
    then show ?thesis using r by (simp add: try_all_eq)
  next
    case (Inr d)
    have "2 \<le> d \<and> d \<le> 60"
      using outcome_Inr [OF connect_once_delay [of su env turns]] Cons.prems r Inr cycle by auto
    then show ?thesis using r Inr by (simp add: try_all_eq)
  qed
  then obtain d where d: "try_all (connect_once env su turns) (\<lambda>_. ret 15) c = (Inr d, c1)" "2 \<le> d \<and> d \<le> 60"
    by blast
  from Cons.IH [of c1] Cons.prems cycle obtain delays c' where
    "run_client env cycles c1 = (Inr delays, c')" "length delays = length cycles" "\<forall>d \<in> set delays. 2 \<le> d \<and> d \<le> 60"
    by auto
  with d show ?case by (simp add: cycle bind_Inr)
qed simp

theorem client_keeps_trying_witness:
  "\<exists>delays c'. run_client sample_env [(home_network, []), (home_network, [])] (new_client sample_world) = (Inr delays, c')
     \<and> length delays = 2 \<and> (\<forall>d \<in> set delays. 2 \<le> d \<and> d \<le> 60)"
proof -
  have "\<forall>(su, turns) \<in> set [(home_network, []), (home_network, [])]. 0 \<le> su_jitter su \<and> su_jitter su \<le> 3"
    by (simp add: home_network_def)
  from client_keeps_trying [OF this, of sample_env "new_client sample_world"] show ?thesis
    by (simp add: numeral_2_eq_2 del: run_client.simps)
qed

text \<open>A network in which a device answers the discovery request with a JSON list.\<close>

definition odd_network :: surroundings where
  "odd_network = home_network
     \<lparr>su_fetch := (panel_at (lit ''http://10.0.0.2:5000''))(lit ''http://10.0.0.1:5000'' := Answered (JList []))\<rparr>"

text \<open>
  A device that answers on the panel's port with JSON that is no object hides the
  panel: reading the service name from it raises, the whole discovery ends there, and the
  client pauses with no panel known, although the next host of the network is the panel.
\<close>

theorem odd_device_hides_the_panel:
  "is_panel (su_fetch odd_network) (lan_candidate (lit ''10.0.0.2''))
   \<and> su_hosts odd_network = Some [lit ''10.0.0.1'', lit ''10.0.0.2'']
   \<and> discover_panel_url odd_network (new_client w) = (Inl AttributeError, new_client w)
   \<and> run_client env [(odd_network, turns)] (new_client w) = (Inr [15], new_client w)"
proof -
  have none: "normalize_panel_url [] = []"
    by (simp add: normalize_panel_url_def strip_def strip_slashes_def)
  have d: "discover_panel_url odd_network (new_client w) = (Inl AttributeError, new_client w)"
    by (simp add: discover_panel_url_def odd_network_def home_network_def new_client_def read_cached_panel_url_def none
        lan_candidate_lit is_panel_url_def discover_payload_def MAX_DISCOVERY_HOSTS_def)
  have "connect_once env odd_network turns (new_client w) = (Inl AttributeError, new_client w)"
  proof -
    have "known_panel odd_network (new_client w) = (Inl AttributeError, new_client w)"
      using d by (simp add: known_panel_def new_client_def) (simp add: bind_def)
    then show ?thesis
      by (simp add: connect_once_def bind_Inl) (simp add: odd_network_def home_network_def bind_Inl)
  qed
  then show ?thesis
    using d by (simp add: try_all_eq bind_def)
      (simp add: odd_network_def home_network_def is_panel_def lan_candidate_lit panel_at_def panel_answer_def jget_Cons)
qed

end
