(* ===== verification/Button_Press.thy ===== *)
theory Button_Press
  imports Agent_Link Reverse_Server Log_Reply
begin

text \<open>
  The two ends of a connection put together: the panel's session
  (\<open>panel_reverse_server.py\<close>, \<open>remote_client.py\<close>) talks to the agent's loop
  (\<open>agent_sync_client.py\<close>, \<open>remote_control_server.py\<close>) over a stream that may cut the
  bytes into chunks anywhere.
\<close>

section \<open>A connection with an agent at its other end\<close>

record 'h wire =
  wi_agent :: "'h world"
  wi_sent :: bytes

text \<open>
  What the panel sends waits for the agent; reading lets the agent take one turn on it and
  gives the frame it answers. An agent that answers nothing has ended the connection.
\<close>

definition agent_side ::
  "'h env \<Rightarrow> pystr \<Rightarrow> (bytes \<Rightarrow> bytes list) \<Rightarrow> 'h turn \<Rightarrow> 'h wire link" where
  "agent_side env secret chop t =
     \<lparr>l_send = (\<lambda>frame. modify (\<lambda>s. s\<lparr>wi_sent := wi_sent s @ frame\<rparr>)),
      l_read = (\<lambda>s. case serve_connection env secret [t\<lparr>tn_socket := map Inr (chop (wi_sent s))\<rparr>] (wi_agent s) of
         (Inr [frame], w) \<Rightarrow> (read_frame (map Inr (chop frame)), \<lparr>wi_agent = w, wi_sent = []\<rparr>)
       | (_, w) \<Rightarrow> (Inl closed_before_prefix, \<lparr>wi_agent = w, wi_sent = []\<rparr>))\<rparr>"

definition chops :: "(bytes \<Rightarrow> bytes list) \<Rightarrow> bool" where
  "chops chop \<longleftrightarrow> (\<forall>bs. concat (chop bs) = bs \<and> list_all chunk_ok (chop bs))"

lemma read_chopped:
  assumes "chops chop" and "fits_frame body" and "encode_frame body = Inr frame"
  shows "read_frame (map Inr (chop frame)) = Inr body"
  using read_fitting_frame [OF assms(2,3), of "chop frame" "[]" "[]"] assms(1) by (simp add: chops_def)

text \<open>One exchange: what the agent's handler answers is what the panel's parser gets.\<close>

lemma ask_agent:
  assumes "chops chop" and "fits_frame body" and "wi_sent s = []" and "tn_meanwhile t = (\<lambda>w. w)"
    and "tn_send t = Inr ()"
    and "handle_request env body secret (tn_now t) (tn_sent t) (tn_random t) (wi_agent s) = (Inr reply, w')"
    and "fits_frame reply"
  shows "ask py (agent_side env secret chop t) key body expected version now s =
    (parse_response py reply key expected version now, \<lparr>wi_agent = w', wi_sent = []\<rparr>)"
proof -
  obtain frame where frame: "encode_frame body = Inr frame"
    using utf8_encode_total assms(2) by (fastforce simp: fits_frame_def encode_frame_def)
  obtain answer where answer: "encode_frame reply = Inr answer"
    using utf8_encode_total assms(7) by (fastforce simp: fits_frame_def encode_frame_def)
  have "serve_connection env secret [t\<lparr>tn_socket := map Inr (chop frame)\<rparr>] (wi_agent s) = (Inr [answer], w')"
    using assms(4-6) answer by (simp add: read_chopped [OF assms(1,2) frame] bind_Inr)
  then have "l_read (agent_side env secret chop t) (s\<lparr>wi_sent := frame\<rparr>) = (Inr reply, \<lparr>wi_agent = w', wi_sent = []\<rparr>)"
    by (simp add: agent_side_def read_chopped [OF assms(1,7) answer] del: serve_connection.simps)
  then show ?thesis
    using assms(3) by (simp add: ask_def frame) (simp add: agent_side_def bind_Inr)
qed

text \<open>The result the session's loop hands to whoever pressed the button.\<close>

definition pressed ::
  "python \<Rightarrow> (json \<Rightarrow> pystr) \<Rightarrow> 's link \<Rightarrow> pystr \<Rightarrow> moment \<Rightarrow> 's \<Rightarrow> session \<Rightarrow> panel_request \<Rightarrow> response res" where
  "pressed py text_of link secret m s session rf =
     (case fst (session_loop py text_of link secret (rs_hostname session) [Item rf m] s) of
        Inr [Answer r] \<Rightarrow> r
      | _ \<Rightarrow> Inl TimeoutError)"

lemma session_loop_item:
  assumes "run_item py text_of link secret n rf m s = (Inr resp, s')"
  shows "session_loop py text_of link secret n [Item rf m] s = (Inr [Answer (Inr resp)], s')"
  using assms by (simp add: try_with_def bind_def)

text \<open>
  A settings button, from the session's queue to the agent and back: the agent obeys the
  command the button stands for and says so, or changes nothing and says why.
\<close>

lemma button_carried_out:
  assumes "action_request_fields button page = Inr (a, v, x, tail)" and "a \<in> set settings_actions"
    and "a = lit ''set'' \<longrightarrow> x \<noteq> JNull"
    and "case wire_val text_of x of None \<Rightarrow> True | Some y \<Rightarrow> ok_val y"
    and "build_request (e_python env) secret a v (wire_val text_of x) (Some (make_nonce (m_id m))) (Some n)
           (m_sent m) (make_nonce (m_nonce m)) 3 tail = Inr body"
    and "fits_frame body" and "\<forall>b \<in> set (m_id m). b < 256"
    and "fresh_stamp (m_sent m) (make_nonce (m_nonce m)) (tn_now t)"
    and "fresh_stamp (tn_sent t) (make_nonce (tn_random t)) (m_read m)"
    and "chops chop" and "wi_sent s = []" and "tn_meanwhile t = (\<lambda>w. w)" and "tn_send t = Inr ()"
    and "named (e_platform env) n" and "clean_texts (e_python env) secret n"
    and "prev_day (date_of (w_clock (wi_agent s))) = Inr y" and "valid_date (date_of (w_clock (wi_agent s)))"
    and "\<not> w_state_load_failed (wi_agent s)"
    and "\<forall>reply w'. handle_request env body secret (tn_now t) (tn_sent t) (tn_random t) (wi_agent s) = (Inr reply, w')
           \<longrightarrow> fits_frame reply"
  shows "\<exists>resp s'. run_item (e_python env) text_of (agent_side env secret chop t) secret n (a, v, x, tail) m s
      = (Inr resp, s')
    \<and> (case command_of (sent_request a v (wire_val text_of x) (Some (make_nonce (m_id m))) (Some n) (m_sent m)
              (make_nonce (m_nonce m)) tail) of
          Inl e \<Rightarrow> wi_agent s' = wi_agent s \<and> \<not> response_ok resp
        | Inr c \<Rightarrow> parental_of (wi_agent s') = obey (w_clock (wi_agent s)) c (parental_of (wi_agent s))
            \<and> save_tried (wi_agent s) (wi_agent s') \<and> response_ok resp)"
proof -
  have cases: "(a = lit ''message'' \<longrightarrow> x \<noteq> JNull) \<and> (tail \<noteq> None \<longrightarrow> a = lit ''get_logs'') \<and> a \<noteq> lit ''get_logs''
      \<and> (a = lit ''extend'' \<longrightarrow> x \<noteq> JNull) \<and> pred_option (list_all is_scalar) v"
    using action_request_cases [OF assms(1)] assms(2) unfolding settings_actions_def by fastforce
  have sendable: "sendable n a v (wire_val text_of x) (Some n) tail"
    using action_request_cases [OF assms(1)] assms(3,4) cases
    by (auto simp: sendable_def VARIABLES_def ACTIONS_def split: option.splits)
  have id: "pred_option (list_all is_scalar) (Some (make_nonce (m_id m)))"
    using scalar_plain [OF plain_nonce [OF assms(7)]] by simp
  have var: "pred_option (list_all is_scalar) v" using cases by blast
  obtain reply w' resp where r: "handle_request env body secret (tn_now t) (tn_sent t) (tn_random t) (wi_agent s) = (Inr reply, w')"
      "parse_response (e_python env) reply secret (Some n) (Some 3) (m_read m) = Inr resp"
      "case command_of (sent_request a v (wire_val text_of x) (Some (make_nonce (m_id m))) (Some n) (m_sent m)
              (make_nonce (m_nonce m)) tail) of
          Inl e \<Rightarrow> w' = wi_agent s \<and> \<not> response_ok resp
        | Inr c \<Rightarrow> parental_of w' = obey (w_clock (wi_agent s)) c (parental_of (wi_agent s))
            \<and> save_tried (wi_agent s) w' \<and> response_ok resp"
    using sent_request_answered [OF assms(5) sendable assms(8,14,2,15) id var assms(9,16-18)] by blast
  have "ask (e_python env) (agent_side env secret chop t) secret body (Some n) (Some 3) (m_read m) s
      = (Inr resp, \<lparr>wi_agent = w', wi_sent = []\<rparr>)"
    using ask_agent [OF assms(10,6,11-13) r(1)] assms(19) r(1,2) by auto
  then have "run_item (e_python env) text_of (agent_side env secret chop t) secret n (a, v, x, tail) m s
      = (Inr resp, \<lparr>wi_agent = w', wi_sent = []\<rparr>)"
    using assms(5) by (simp add: run_item_def exchange_named CLIENT_DEFAULT_VERSION_def)
  with r(3) show ?thesis
    by (intro exI [of _ resp] exI [of _ "\<lparr>wi_agent = w', wi_sent = []\<rparr>"] conjI)
      (simp_all only: wire.simps split: sum.splits)
qed

section \<open>Thirty more minutes\<close>

text \<open>An example: the parent of \<open>kid\<close> presses the button for thirty more minutes.\<close>

definition one_by_one :: "bytes \<Rightarrow> bytes list" where
  "one_by_one bs = map (\<lambda>b. [b]) bs"

definition kid_session :: session where
  "kid_session = \<lparr>rs_hostname = lit ''kid'', rs_ip = lit ''10.0.0.7'', rs_last_seen = sample_time,
     rs_pc_info = sample_settings, rs_closed = False\<rparr>"

definition press_moment :: moment where
  "press_moment = \<lparr>m_sent = 1030, m_nonce = sample_random, m_id = [4, 5, 6], m_read = 1031\<rparr>"

definition kid_turn :: "bool turn" where
  "kid_turn = \<lparr>tn_meanwhile = (\<lambda>w. w), tn_socket = [], tn_now = 1031, tn_sent = 1030, tn_random = sample_random,
     tn_send = Inr ()\<rparr>"

definition kid_wire :: "bool wire" where
  "kid_wire = \<lparr>wi_agent = sample_world, wi_sent = []\<rparr>"

lemma example_simps [simp]:
  "rs_hostname kid_session = lit ''kid''" "rs_ip kid_session = lit ''10.0.0.7''" "\<not> rs_closed kid_session"
  "m_sent press_moment = 1030" "m_nonce press_moment = sample_random" "m_id press_moment = [4, 5, 6]"
  "m_read press_moment = 1031" "tn_meanwhile kid_turn = (\<lambda>w. w)" "tn_now kid_turn = 1031" "tn_sent kid_turn = 1030"
  "tn_random kid_turn = sample_random" "tn_send kid_turn = Inr ()" "wi_agent kid_wire = sample_world" "wi_sent kid_wire = []"
  by (simp_all add: kid_session_def press_moment_def kid_turn_def kid_wire_def)

lemma chops_one_by_one: "chops one_by_one"
  by (auto simp: chops_def one_by_one_def concat_singletons chunk_ok_def list_all_iff)

lemma extend_action: "action_request_fields (lit ''extend_time'') [(lit ''minutes'', JInt 30)]
    = Inr (lit ''extend'', None, JInt 30, None)"
  by (simp add: action_request_fields_def dict_simps)

definition press_nodes :: "node list" where
  "press_nodes = request_nodes (lit ''extend'') None (Some (PInt 30)) (Some (make_nonce [4, 5, 6])) (Some (lit ''kid''))
     1030 (make_nonce sample_random) 3 None"

lemma bytes_random: "\<forall>b \<in> set sample_random. b < 256" "length sample_random = NONCE_BYTES"
  by (simp_all add: sample_random_def NONCE_BYTES_def)

lemma press_texts: "texts_ok press_nodes"
  using scalar_plain [OF plain_nonce [OF bytes_random(1)]] scalar_plain [OF plain_nonce [of "[4, 5, 6]"]]
  by (simp add: press_nodes_def request_nodes_def)

lemma press_size: "doc_size press_nodes 0 \<le> 500"
proof -
  have "nbytes (format_value (PStr (make_nonce sample_random))) \<le> 34"
    "nbytes (format_value (PStr (make_nonce [4, 5, 6]))) \<le> 8"
    using format_plain [OF plain_nonce [OF bytes_random(1)]] format_plain [OF plain_nonce [of "[4, 5, 6]"]]
    by (simp_all add: length_nonce bytes_random(2) NONCE_BYTES_def)
  moreover have "nbytes (format_value (PStr (lit ''kid''))) \<le> 5" "nbytes (format_value (PStr (lit ''extend''))) \<le> 8"
    using format_plain [of "lit ''kid''"] format_plain [of "lit ''extend''"]
    by (simp_all add: plain_ascii_def) (simp_all add: lit_def)
  moreover note int_bytes [of 30] int_bytes [of 1030]
  moreover have "nbytes (lit ''action'') = 6" "nbytes (lit ''val'') = 3"
    by (simp_all add: nbytes_ascii lit_def)
  ultimately show ?thesis
    using scalar_plain [OF plain_nonce [OF bytes_random(1)]] scalar_plain [OF plain_nonce [of "[4, 5, 6]"]]
    by (simp add: press_nodes_def request_nodes_def opt_node_def doc_size_Cons args_size_def protocol_word_sizes)
qed

lemma press_body:
  "\<exists>body. build_request (e_python sample_env) (lit ''key'') (lit ''extend'') None (Some (PInt 30))
      (Some (make_nonce [4, 5, 6])) (Some (lit ''kid'')) 1030 (make_nonce sample_random) 3 None = Inr body
    \<and> fits_frame body"
proof -
  let ?py = "e_python sample_env"
  obtain body where body: "build_request ?py (lit ''key'') (lit ''extend'') None (Some (PInt 30))
      (Some (make_nonce [4, 5, 6])) (Some (lit ''kid'')) 1030 (make_nonce sample_random) 3 None = Inr body"
    using build_request_total [OF press_texts [unfolded press_nodes_def] scalar_lit, of ?py] by blast
  then have b: "body = serialize (press_nodes @ [signature_block []])"
    by (auto simp: build_request_def Let_def rbind_eq_Inr_iff auth_node_iff compute_signature_def sample_env_def
        press_nodes_def split: if_splits)
  have sig: "doc_size [signature_block []] 0 \<le> 130"
    by (rule signature_block_size) (simp_all add: plain_ascii_def)
  have texts: "texts_ok (press_nodes @ [signature_block []])"
    using press_texts by (simp add: signature_block_def ALGORITHM_def DEFAULT_KEY_ID_def)
  then have "nbytes body + 1 = doc_size press_nodes 0 + doc_size [signature_block []] 0"
    unfolding b by (subst nbytes_serialize) (simp_all add: doc_size_append)
  with press_size sig have "nbytes body \<le> MAX_FRAME_BYTES" by (simp add: MAX_FRAME_BYTES_def)
  with body show ?thesis using scalar_serialize [OF texts] by (auto simp: fits_frame_def nbytes_def b)
qed

lemma extend_content:
  assumes "raction req = lit ''extend''" and "minutes_of req = Inr m" and "\<not> w_state_load_failed w"
  shows "\<exists>w'. dispatch env req w = (Inr (ok_content (PInt m)), w')"
proof -
  obtain w1 where w1: "extend_time m w = (Inr (), w1)" "\<not> w_state_load_failed w1"
    using assms(3) by (simp add: extend_time_def set_runtime_def clear_warnings_def)
  have "dispatch env req = bind (lift (minutes_of req))
      (\<lambda>m. bind (extend_time m) (\<lambda>_. bind (save_state env) (\<lambda>_. ret (ok_content (PInt m)))))"
    using assms(1)
    by (auto simp: dispatch_def do_extend_def minutes_of_def fun_eq_iff bind_def rbind_def split: sum.split)
  then show ?thesis using assms(2) w1 by (simp add: bind_Inr save_state_eq)
qed

lemma press_reply:
  assumes "build_request (e_python sample_env) (lit ''key'') (lit ''extend'') None (Some (PInt 30))
      (Some (make_nonce [4, 5, 6])) (Some (lit ''kid'')) 1030 (make_nonce sample_random) 3 None = Inr body"
    and "handle_request sample_env body (lit ''key'') 1031 1030 sample_random sample_world = (Inr reply, w')"
  shows "fits_frame reply"
proof -
  let ?req = "sent_request (lit ''extend'') None (Some (PInt 30)) (Some (make_nonce [4, 5, 6])) (Some (lit ''kid'')) 1030
    (make_nonce sample_random) None"
  have p: "parse_request (e_python sample_env) body (lit ''key'') (lit ''kid'') 1031 = Inr ?req"
    using built_request_parses [OF assms(1) extend_sendable sample_reply_stamp] by (simp add: sent_request_def)
  obtain v where v: "peek_version body = Inr v"
    using accepted_authentic [OF p] peek_version_parsed by blast
  have "minutes_of ?req = Inr 30"
    by (simp add: minutes_of_def val_or_none_def parse_int_def MAX_PARSED_INT_def check_minutes_def MIN_DAILY_LIMIT_def
        MAX_DAILY_LIMIT_def)
  then obtain w1 where d: "dispatch sample_env ?req sample_world = (Inr (ok_content (PInt 30)), w1)"
    using extend_content [of ?req 30 sample_world sample_env] by (auto simp: sample_world_def)
  have signed: "sign_response (e_python sample_env) (ok_content (PInt 30)) (lit ''key'') (lit ''kid'')
      (Some (make_nonce [4, 5, 6])) 1030 (make_nonce sample_random) 3 = Inr reply"
    using assms(2) unfolding handle_request_named [OF sample_named]
    by (simp add: v p execute_eq d bind_def [of "execute _ _ _"])
  have plain: "plain_ascii (lit ''kid'')" "plain_ascii (make_nonce [4, 5, 6])"
    using plain_nonce [of "[4, 5, 6]"] by (simp_all add: plain_ascii_def lit_def)
  have id: "list_all is_scalar i \<and> nbytes (format_value (PStr i)) \<le> 255" if "Some (make_nonce [4, 5, 6]) = Some i" for i
    using that format_plain [OF plain(2)] scalar_plain [OF plain(2)] length_nonce [of "[4, 5, 6]"] by auto
  have host: "nbytes (format_value (PStr (lit ''kid''))) \<le> 255" using format_plain [OF plain(1)] by simp
  have content: "texts_ok (ok_content (PInt 30))" by (simp add: ok_content_def)
  have "doc_size (ok_content (PInt 30)) 0 \<le> 1000"
    using int_bytes [of 30] format_plain [of "lit ''ok''"]
    by (simp add: ok_content_def doc_size_Cons args_size_def plain_ascii_def) (simp add: nbytes_ascii lit_def)
  then show ?thesis
    using signed_answer_size [OF signed content scalar_lit host _ _ bytes_random(2,1)] id
    by (simp add: sample_env_def fits_frame_def MAX_FRAME_BYTES_def)
qed

end
