(* ===== verification/Request_Queue.thy ===== *)
theory Request_Queue
  imports Button_Press
begin

text \<open>
  The queue of a reverse session (\<open>ReverseSession\<close> and \<open>_session_loop\<close> of
  \<open>src/kid_pc_monitor/panel_reverse_server.py\<close>): the threads of the web panel put
  requests in and wait for their futures, at most thirty seconds, while the thread of the
  session takes them out and talks to the agent. The steps of these threads interleave
  freely; an exchange is one step, and what it does on the connection is the \<open>link\<close>. A
  session may be closed by any thread at any time.
\<close>

section \<open>The queue and its threads\<close>

text \<open>A future no one has set is waiting; nobody cancels one.\<close>

datatype future = Waiting | Outcome "response res"

datatype queued = Job nat panel_request | Marker

text \<open>The thread of the session: about to test the condition of its loop, in its body, over.\<close>

datatype loop_phase = Checking | Taking | Over

text \<open>
  The queue, the flag, the futures and what \<open>submit\<close> has told its callers; the connection
  with the agent. \<open>dk_submitted\<close> records the requests in the order of their numbers.
\<close>

record 's desk =
  dk_items :: "queued list"
  dk_closed :: bool
  dk_future :: "nat \<Rightarrow> future"
  dk_told :: "nat \<Rightarrow> response res option"
  dk_phase :: loop_phase
  dk_agent :: 's
  dk_submitted :: "panel_request list"

definition new_desk :: "'s \<Rightarrow> 's desk" where
  "new_desk s = \<lparr>dk_items = [], dk_closed = False, dk_future = (\<lambda>_. Waiting), dk_told = (\<lambda>_. None),
     dk_phase = Checking, dk_agent = s, dk_submitted = []\<rparr>"

definition close_desk :: "'s desk \<Rightarrow> 's desk" where
  "close_desk d = d\<lparr>dk_closed := True, dk_items := dk_items d @ [Marker]\<rparr>"

text \<open>The two halves of \<open>submit\<close>: the request is queued; the future is waited for.\<close>

definition enqueue :: "panel_request \<Rightarrow> ('s desk, nat) act" where
  "enqueue f d =
     (if dk_closed d then (Inl (ConnectionError (lit ''Reverse agent session is closed'')), d)
      else let n = length (dk_submitted d)
           in (Inr n, d\<lparr>dk_items := dk_items d @ [Job n f], dk_submitted := dk_submitted d @ [f]\<rparr>))"

definition await_future :: "nat \<Rightarrow> 's desk \<Rightarrow> response res" where
  "await_future n d = (case dk_future d n of Outcome r \<Rightarrow> r | Waiting \<Rightarrow> Inl TimeoutError)"

text \<open>The loop: its condition, and its body with the next thing in the queue.\<close>

definition check_loop :: "bool \<Rightarrow> 's desk \<Rightarrow> 's desk" where
  "check_loop running d = d\<lparr>dk_phase := if running \<and> \<not> dk_closed d then Taking else Over\<rparr>"

definition bad_socket :: exn where
  "bad_socket = OSError (lit ''[Errno 9] Bad file descriptor'')"

definition loop_turn ::
  "python \<Rightarrow> (json \<Rightarrow> pystr) \<Rightarrow> 's link \<Rightarrow> pystr \<Rightarrow> pystr \<Rightarrow> moment \<Rightarrow> 's desk \<Rightarrow> 's desk" where
  "loop_turn py text_of link secret hostname m d =
     (case dk_items d of
        [] \<Rightarrow>
          (case refresh_status py link secret hostname m (dk_agent d) of
             (Inr _, s) \<Rightarrow> d\<lparr>dk_agent := s, dk_phase := Checking\<rparr>
           | (Inl _, s) \<Rightarrow> d\<lparr>dk_agent := s, dk_phase := Over\<rparr>)
      | Marker # rest \<Rightarrow> d\<lparr>dk_items := rest, dk_phase := Over\<rparr>
      | Job n f # rest \<Rightarrow>
          (case if dk_closed d then (Inl bad_socket, dk_agent d)
                else run_item py text_of link secret hostname f m (dk_agent d) of
             (Inr resp, s) \<Rightarrow> d\<lparr>dk_items := rest, dk_agent := s, dk_phase := Checking,
                               dk_future := (dk_future d)(n := Outcome (Inr resp))\<rparr>
           | (Inl e, s) \<Rightarrow> d\<lparr>dk_items := rest, dk_agent := s, dk_phase := Over,
                            dk_future := (dk_future d)(n := Outcome (Inl e))\<rparr>))"

text \<open>
  One step of some thread. \<open>tell\<close> is the return of \<open>submit\<close>: with the outcome, or because
  the time is up.
\<close>

inductive desk_step ::
  "python \<Rightarrow> (json \<Rightarrow> pystr) \<Rightarrow> 's link \<Rightarrow> pystr \<Rightarrow> pystr \<Rightarrow> 's desk \<Rightarrow> 's desk \<Rightarrow> bool"
  for py text_of link secret hostname where
  enqueue: "enqueue f d = (Inr n, d') \<Longrightarrow> desk_step py text_of link secret hostname d d'"
| tell: "n < length (dk_submitted d) \<Longrightarrow> dk_told d n = None \<Longrightarrow>
     desk_step py text_of link secret hostname d (d\<lparr>dk_told := (dk_told d)(n \<mapsto> await_future n d)\<rparr>)"
| closing: "desk_step py text_of link secret hostname d (close_desk d)"
| check: "dk_phase d = Checking \<Longrightarrow> desk_step py text_of link secret hostname d (check_loop running d)"
| turn: "dk_phase d = Taking \<Longrightarrow>
     desk_step py text_of link secret hostname d (loop_turn py text_of link secret hostname m d)"

inductive desk_reachable ::
  "python \<Rightarrow> (json \<Rightarrow> pystr) \<Rightarrow> 's link \<Rightarrow> pystr \<Rightarrow> pystr \<Rightarrow> 's \<Rightarrow> 's desk \<Rightarrow> bool"
  for py text_of link secret hostname s where
  start: "desk_reachable py text_of link secret hostname s (new_desk s)"
| step: "desk_reachable py text_of link secret hostname s d \<Longrightarrow>
     desk_step py text_of link secret hostname d d' \<Longrightarrow> desk_reachable py text_of link secret hostname s d'"

section \<open>The loop one event further\<close>

fun requests_of :: "loop_event list \<Rightarrow> panel_request list" where
  "requests_of [] = []"
| "requests_of (Item f m # es) = f # requests_of es"
| "requests_of (e # es) = requests_of es"

fun answers :: "loop_output list \<Rightarrow> response res list" where
  "answers [] = []"
| "answers (Answer r # out) = r # answers out"
| "answers (Status st # out) = answers out"

lemma requests_of_append [simp]: "requests_of (es @ es') = requests_of es @ requests_of es'"
  by (induction es rule: requests_of.induct) simp_all

lemma answers_append [simp]: "answers (out @ out') = answers out @ answers out'"
  by (induction out rule: answers.induct) simp_all

text \<open>A run that has not ended: every event gave an output, and no request failed.\<close>

definition goes_on :: "loop_event list \<Rightarrow> loop_output list \<Rightarrow> bool" where
  "goes_on es out \<longleftrightarrow> length out = length es \<and> (\<forall>e. Answer (Inl e) \<notin> set out)"

lemma session_loop_snoc:
  "session_loop py text_of link secret n es s = (Inr out, s1) \<Longrightarrow> goes_on es out \<Longrightarrow>
   session_loop py text_of link secret n (es @ es') s =
     bind (session_loop py text_of link secret n es') (\<lambda>o'. ret (out @ o')) s1"
proof (induction es arbitrary: s out)
  case Nil
  then show ?case by (simp add: goes_on_def bind_def split: prod.split sum.split)
next
  case (Cons e es)
  show ?case
  proof (cases e)
    case (Idle m)
    from Cons.prems obtain st o1 u where
      r: "refresh_status py link secret n m s = (Inr st, u)" and
      l: "session_loop py text_of link secret n es u = (Inr o1, s1)" and out: "out = Status st # o1"
      unfolding Idle
      by (auto simp: goes_on_def bind_def try_with_def split: prod.splits sum.splits option.splits exn.splits)
    have "goes_on es o1" using Cons.prems(2) out by (simp add: goes_on_def)
    with Cons.IH [OF l] r out show ?thesis
      unfolding Idle by (simp add: try_with_def bind_def split: prod.split sum.split)
  next
    case Closing
    then show ?thesis using Cons.prems by (simp add: goes_on_def)
  next
    case (Item f m)
    from Cons.prems obtain resp o1 u where
      r: "run_item py text_of link secret n f m s = (Inr resp, u)" and
      l: "session_loop py text_of link secret n es u = (Inr o1, s1)" and out: "out = Answer (Inr resp) # o1"
      unfolding Item by (auto simp: goes_on_def bind_def try_with_def split: prod.splits sum.splits)
    have "goes_on es o1" using Cons.prems(2) out by (simp add: goes_on_def)
    with Cons.IH [OF l] r out show ?thesis
      unfolding Item by (simp add: try_with_def bind_def split: prod.split sum.split)
  qed
qed

section \<open>The queue carries requests out in order\<close>

text \<open>The numbers of the jobs in the queue.\<close>

fun jobs :: "queued list \<Rightarrow> (nat \<times> panel_request) list" where
  "jobs [] = []"
| "jobs (Job n f # q) = (n, f) # jobs q"
| "jobs (Marker # q) = jobs q"

lemma jobs_append [simp]: "jobs (q @ q') = jobs q @ jobs q'"
  by (induction q rule: jobs.induct) simp_all

text \<open>
  The jobs in the queue are the requests from number \<open>j\<close> on, in order, and none of them
  has an outcome; what \<open>submit\<close> told is the outcome of the future or the time limit; a
  closed queue holds the end marker unless the loop has taken it.
\<close>

definition queue_ok :: "nat \<Rightarrow> 's desk \<Rightarrow> bool" where
  "queue_ok j d \<longleftrightarrow>
     jobs (dk_items d) = map (\<lambda>n. (n, dk_submitted d ! n)) [j..<length (dk_submitted d)]
     \<and> j \<le> length (dk_submitted d)
     \<and> (\<forall>n \<ge> j. dk_future d n = Waiting)
     \<and> (\<forall>n r. dk_told d n = Some (Inr r) \<longrightarrow> dk_future d n = Outcome (Inr r))
     \<and> (dk_closed d \<and> dk_phase d \<noteq> Over \<longrightarrow> Marker \<in> set (dk_items d))"

text \<open>
  What the agent has seen is a run of the sequential loop over the requests in order; while
  the loop goes on, over exactly those taken from the queue.
\<close>

definition loop_ok ::
  "(loop_event list \<Rightarrow> 's \<Rightarrow> loop_output list res \<times> 's) \<Rightarrow> 's \<Rightarrow> nat \<Rightarrow> 's desk \<Rightarrow> bool" where
  "loop_ok run s j d \<longleftrightarrow>
     (\<exists>es extra out s1. run es s = (Inr out, s1)
        \<and> requests_of es = take (length (answers out)) (dk_submitted d) \<and> requests_of extra = []
        \<and> length (answers out) \<le> j
        \<and> dk_agent d = snd (run (es @ extra) s)
        \<and> (\<forall>n r. dk_future d n = Outcome (Inr r) \<longrightarrow> n < length (answers out) \<and> answers out ! n = Inr r)
        \<and> (dk_phase d \<noteq> Over \<longrightarrow> extra = [] \<and> goes_on es out \<and> length (answers out) = j))"

lemma queue_okI:
  assumes "jobs (dk_items d) = map (\<lambda>n. (n, dk_submitted d ! n)) [j..<length (dk_submitted d)]"
    and "j \<le> length (dk_submitted d)" and "\<And>n. n \<ge> j \<Longrightarrow> dk_future d n = Waiting"
    and "\<And>n r. dk_told d n = Some (Inr r) \<Longrightarrow> dk_future d n = Outcome (Inr r)"
    and "dk_closed d \<Longrightarrow> dk_phase d \<noteq> Over \<Longrightarrow> Marker \<in> set (dk_items d)"
  shows "queue_ok j d"
  using assms unfolding queue_ok_def by blast

lemma queue_okD:
  assumes "queue_ok j d"
  shows jobs_in_order: "jobs (dk_items d) = map (\<lambda>n. (n, dk_submitted d ! n)) [j..<length (dk_submitted d)]"
    and taken_bound: "j \<le> length (dk_submitted d)"
    and not_taken_waits: "n \<ge> j \<Longrightarrow> dk_future d n = Waiting"
    and told_outcome: "dk_told d n = Some (Inr r) \<Longrightarrow> dk_future d n = Outcome (Inr r)"
    and closed_marker: "dk_closed d \<Longrightarrow> dk_phase d \<noteq> Over \<Longrightarrow> Marker \<in> set (dk_items d)"
  using assms unfolding queue_ok_def by blast+

lemma queue_ok_job:
  assumes "queue_ok j d" and "dk_items d = Job n f # rest"
  shows "n = j" "f = dk_submitted d ! j" "j < length (dk_submitted d)"
    "jobs rest = map (\<lambda>n. (n, dk_submitted d ! n)) [Suc j..<length (dk_submitted d)]"
proof -
  have *: "(n, f) # jobs rest = map (\<lambda>n. (n, dk_submitted d ! n)) [j..<length (dk_submitted d)]"
    using jobs_in_order [OF assms(1)] assms(2) by simp
  then show "j < length (dk_submitted d)" by (cases "j < length (dk_submitted d)") simp_all
  with * show "n = j" "f = dk_submitted d ! j"
    "jobs rest = map (\<lambda>n. (n, dk_submitted d ! n)) [Suc j..<length (dk_submitted d)]"
    by (simp_all add: upt_conv_Cons)
qed

text \<open>A step that leaves the agent, the outcomes and what was submitted first keeps \<open>loop_ok\<close>.\<close>

lemma loop_ok_same:
  assumes "loop_ok run s j d" and "j \<le> length (dk_submitted d)"
    and "dk_agent d' = dk_agent d" and "\<And>n r. dk_future d' n = Outcome (Inr r) \<Longrightarrow> dk_future d n = Outcome (Inr r)"
    and "\<exists>fs. dk_submitted d' = dk_submitted d @ fs" and "j \<le> j'"
    and "dk_phase d' \<noteq> Over \<Longrightarrow> dk_phase d \<noteq> Over \<and> j' = j"
  shows "loop_ok run s j' d'"
proof -
  obtain es extra out s1 where *: "run es s = (Inr out, s1)"
    "requests_of es = take (length (answers out)) (dk_submitted d)" "requests_of extra = []"
    "length (answers out) \<le> j" "dk_agent d = snd (run (es @ extra) s)"
    "\<forall>n r. dk_future d n = Outcome (Inr r) \<longrightarrow> n < length (answers out) \<and> answers out ! n = Inr r"
    "dk_phase d \<noteq> Over \<longrightarrow> extra = [] \<and> goes_on es out \<and> length (answers out) = j"
    using assms(1) unfolding loop_ok_def by blast
  obtain fs where "dk_submitted d' = dk_submitted d @ fs" using assms(5) by blast
  then have "requests_of es = take (length (answers out)) (dk_submitted d')"
    using *(2,4) assms(2) by simp
  then show ?thesis
    using * assms(3,4,6,7) unfolding loop_ok_def
    by (intro exI [of _ es] exI [of _ extra] exI [of _ out] exI [of _ s1]) auto
qed

lemma session_loop_idle:
  "refresh_status py link secret n m s = (Inr st, s') \<Longrightarrow>
     session_loop py text_of link secret n [Idle m] s = (Inr [Status st], s')"
  "refresh_status py link secret n m s = (Inl e, s') \<Longrightarrow>
     session_loop py text_of link secret n [Idle m] s = (Inr [], s')
     \<or> session_loop py text_of link secret n [Idle m] s = (Inl e, s')"
  by (auto simp: bind_def try_with_def split: exn.split)

lemma session_loop_job:
  "run_item py text_of link secret n f m s = (r, s') \<Longrightarrow>
     session_loop py text_of link secret n [Item f m] s = (Inr [Answer r], s')"
  by (cases r) (simp_all add: bind_def try_with_def)

text \<open>The loop's run so far, while it goes on.\<close>

lemma loop_okE:
  assumes "loop_ok run s j d" and "dk_phase d \<noteq> Over"
  obtains es out where "run es s = (Inr out, dk_agent d)" "goes_on es out"
    "requests_of es = take (length (answers out)) (dk_submitted d)" "length (answers out) = j"
    "\<And>n r. dk_future d n = Outcome (Inr r) \<Longrightarrow> n < length (answers out) \<and> answers out ! n = Inr r"
  using assms unfolding loop_ok_def by (auto simp: prod_eq_iff)

lemma loop_okI:
  assumes "run es s = (Inr out, s1)" and "requests_of es = take (length (answers out)) (dk_submitted d)"
    and "requests_of extra = []" and "length (answers out) \<le> j" and "dk_agent d = snd (run (es @ extra) s)"
    and "\<And>n r. dk_future d n = Outcome (Inr r) \<Longrightarrow> n < length (answers out) \<and> answers out ! n = Inr r"
    and "dk_phase d \<noteq> Over \<Longrightarrow> extra = [] \<and> goes_on es out \<and> length (answers out) = j"
  shows "loop_ok run s j d"
  unfolding loop_ok_def using assms by blast

lemma loop_ok_idle:
  assumes ok: "loop_ok (session_loop py text_of link secret n) s j d" and "dk_phase d \<noteq> Over"
    and r: "refresh_status py link secret n m (dk_agent d) = (r, s')"
  shows "loop_ok (session_loop py text_of link secret n) s j
    (d\<lparr>dk_agent := s', dk_phase := case r of Inr _ \<Rightarrow> Checking | Inl _ \<Rightarrow> Over\<rparr>)"
proof -
  obtain es out where es: "session_loop py text_of link secret n es s = (Inr out, dk_agent d)" "goes_on es out"
    "requests_of es = take (length (answers out)) (dk_submitted d)" "length (answers out) = j"
    "\<And>i r. dk_future d i = Outcome (Inr r) \<Longrightarrow> i < length (answers out) \<and> answers out ! i = Inr r"
    using loop_okE [OF ok assms(2)] by metis
  note snoc = session_loop_snoc [OF es(1,2), of "[Idle m]"]
  show ?thesis
  proof (cases r)
    case (Inr st)
    then have "session_loop py text_of link secret n (es @ [Idle m]) s = (Inr (out @ [Status st]), s')"
      using snoc session_loop_idle(1) [of py link secret n m] r by (simp add: bind_def del: session_loop.simps)
    then show ?thesis using es Inr
      by (intro loop_okI [of _ "es @ [Idle m]" s "out @ [Status st]" s' _ "[]"])
        (simp_all add: goes_on_def del: session_loop.simps)
  next
    case (Inl e)
    from session_loop_idle(2) [OF r [unfolded Inl], of text_of] show ?thesis
    proof
      assume "session_loop py text_of link secret n [Idle m] (dk_agent d) = (Inr [], s')"
      then have "session_loop py text_of link secret n (es @ [Idle m]) s = (Inr out, s')"
        using snoc by (simp add: bind_def del: session_loop.simps)
      then show ?thesis using es Inl
        by (intro loop_okI [of _ "es @ [Idle m]" s out s' _ "[]"]) (simp_all del: session_loop.simps)
    next
      assume "session_loop py text_of link secret n [Idle m] (dk_agent d) = (Inl e, s')"
      then have "session_loop py text_of link secret n (es @ [Idle m]) s = (Inl e, s')"
        using snoc by (simp add: bind_def del: session_loop.simps)
      then show ?thesis using es Inl
        by (intro loop_okI [of _ es s out "dk_agent d" _ "[Idle m]"]) (simp_all del: session_loop.simps)
    qed
  qed
qed

lemma loop_ok_job:
  assumes ok: "loop_ok (session_loop py text_of link secret n) s j d" and "dk_phase d \<noteq> Over"
    and q: "queue_ok j d" "dk_items d = Job i f # rest"
    and r: "run_item py text_of link secret n f m (dk_agent d) = (r, s')"
  shows "loop_ok (session_loop py text_of link secret n) s (Suc j)
    (d\<lparr>dk_items := rest, dk_agent := s', dk_phase := case r of Inr _ \<Rightarrow> Checking | Inl _ \<Rightarrow> Over,
       dk_future := (dk_future d)(i := Outcome r)\<rparr>)"
proof -
  obtain es out where es: "session_loop py text_of link secret n es s = (Inr out, dk_agent d)" "goes_on es out"
    "requests_of es = take (length (answers out)) (dk_submitted d)" "length (answers out) = j"
    "\<And>i r. dk_future d i = Outcome (Inr r) \<Longrightarrow> i < length (answers out) \<and> answers out ! i = Inr r"
    using loop_okE [OF ok assms(2)] by metis
  note job = queue_ok_job [OF q]
  have run: "session_loop py text_of link secret n (es @ [Item f m]) s = (Inr (out @ [Answer r]), s')"
    using session_loop_snoc [OF es(1,2), of "[Item f m]"] session_loop_job [OF r]
    by (simp add: bind_def del: session_loop.simps)
  have future: "k < length (answers out @ [r]) \<and> (answers out @ [r]) ! k = Inr x"
    if "((dk_future d)(i := Outcome r)) k = Outcome (Inr x)" for k x
    using that es(4) es(5) [of k x] job(1) by (auto simp: nth_append split: if_splits)
  show ?thesis
    using es(2-4) job future run
    by (intro loop_okI [of _ "es @ [Item f m]" s "out @ [Answer r]" s' _ "[]"])
      (auto simp: goes_on_def take_Suc_conv_app_nth simp del: session_loop.simps split: sum.splits)
qed

lemma desk_ok_turn:
  assumes q: "queue_ok j d" and l: "loop_ok (session_loop py text_of link secret n) s j d" and t: "dk_phase d = Taking"
  shows "\<exists>j'. queue_ok j' (loop_turn py text_of link secret n m d)
    \<and> loop_ok (session_loop py text_of link secret n) s j' (loop_turn py text_of link secret n m d)"
proof (cases "dk_items d")
  case Nil
  obtain r s' where r: "refresh_status py link secret n m (dk_agent d) = (r, s')" by force
  have "loop_turn py text_of link secret n m d
      = d\<lparr>dk_agent := s', dk_phase := case r of Inr _ \<Rightarrow> Checking | Inl _ \<Rightarrow> Over\<rparr>"
    using r Nil by (simp add: loop_turn_def split: sum.split)
  then show ?thesis
    using loop_ok_idle [OF l _ r] t q by (intro exI [of _ j]) (auto simp: queue_ok_def split: sum.splits)
next
  case (Cons item rest)
  show ?thesis
  proof (cases item)
    case Marker
    then have e: "loop_turn py text_of link secret n m d = d\<lparr>dk_items := rest, dk_phase := Over\<rparr>"
      using Cons by (simp add: loop_turn_def)
    show ?thesis
      unfolding e using q loop_ok_same [OF l taken_bound [OF q], of "d\<lparr>dk_items := rest, dk_phase := Over\<rparr>" j] Cons Marker
      by (intro exI [of _ j]) (auto simp: queue_ok_def)
  next
    case (Job i f)
    note job = queue_ok_job [OF q Cons [unfolded Job]]
    obtain r s' where r: "(if dk_closed d then (Inl bad_socket, dk_agent d)
        else run_item py text_of link secret n f m (dk_agent d)) = (r, s')" by force
    let ?d = "d\<lparr>dk_items := rest, dk_agent := s', dk_phase := case r of Inr _ \<Rightarrow> Checking | Inl _ \<Rightarrow> Over,
        dk_future := (dk_future d)(i := Outcome r)\<rparr>"
    have e: "loop_turn py text_of link secret n m d = ?d"
      using r Cons Job by (simp add: loop_turn_def split: sum.split)
    have "queue_ok (Suc j) ?d"
    proof (rule queue_okI)
      show "dk_future ?d k = Outcome (Inr x)" if "dk_told ?d k = Some (Inr x)" for k x
        using told_outcome [OF q, of k x] not_taken_waits [OF q, of k] that job(1) by auto
      show "Marker \<in> set (dk_items ?d)" if "dk_closed ?d" "dk_phase ?d \<noteq> Over"
        using closed_marker [OF q] that t Cons Job by auto
    qed (use job not_taken_waits [OF q] in auto)
    moreover have "loop_ok (session_loop py text_of link secret n) s (Suc j) ?d"
    proof (cases "dk_closed d")
      case True
      then have "r = Inl bad_socket" "s' = dk_agent d" using r by auto
      then show ?thesis
        by (intro loop_ok_same [OF l taken_bound [OF q]]) (auto split: if_splits)
    next
      case False
      with loop_ok_job [OF l _ q Cons [unfolded Job], of m r s'] r t show ?thesis by simp
    qed
    ultimately show ?thesis unfolding e by blast
  qed
qed

lemma desk_ok_step:
  assumes "desk_step py text_of link secret n d d'" and "queue_ok j d"
    and "loop_ok (session_loop py text_of link secret n) s j d"
  shows "\<exists>j'. queue_ok j' d' \<and> loop_ok (session_loop py text_of link secret n) s j' d'"
  using assms
proof (induction rule: desk_step.induct)
  case (enqueue f d i d')
  then have d': "d' = d\<lparr>dk_items := dk_items d @ [Job (length (dk_submitted d)) f], dk_submitted := dk_submitted d @ [f]\<rparr>"
    by (auto simp: enqueue_def Let_def split: if_splits)
  have "queue_ok j d'"
    using enqueue.prems(1) unfolding d' queue_ok_def by (auto simp: nth_append)
  moreover have "loop_ok (session_loop py text_of link secret n) s j d'"
    using taken_bound [OF enqueue.prems(1)] unfolding d' by (intro loop_ok_same [OF enqueue.prems(2)]) auto
  ultimately show ?case by blast
next
  case (tell i d)
  let ?d = "d\<lparr>dk_told := (dk_told d)(i \<mapsto> await_future i d)\<rparr>"
  have "queue_ok j ?d"
    using tell.prems(1) unfolding queue_ok_def by (auto simp: await_future_def split: future.splits)
  moreover have "loop_ok (session_loop py text_of link secret n) s j ?d"
    using taken_bound [OF tell.prems(1)] by (intro loop_ok_same [OF tell.prems(2)]) auto
  ultimately show ?case by blast
next
  case (closing d)
  have "queue_ok j (close_desk d)" using closing(1) unfolding queue_ok_def close_desk_def by auto
  moreover have "loop_ok (session_loop py text_of link secret n) s j (close_desk d)"
    using taken_bound [OF closing(1)] by (intro loop_ok_same [OF closing(2)]) (auto simp: close_desk_def)
  ultimately show ?case by blast
next
  case (check d running)
  have "queue_ok j (check_loop running d)" using check.prems(1) check.hyps unfolding queue_ok_def check_loop_def by auto
  moreover have "loop_ok (session_loop py text_of link secret n) s j (check_loop running d)"
    using taken_bound [OF check.prems(1)] check.hyps by (intro loop_ok_same [OF check.prems(2)]) (auto simp: check_loop_def)
  ultimately show ?case by blast
next
  case (turn d m)
  then show ?case by (intro desk_ok_turn) simp_all
qed

lemma desk_ok_reachable:
  "desk_reachable py text_of link secret n s d \<Longrightarrow>
     \<exists>j. queue_ok j d \<and> loop_ok (session_loop py text_of link secret n) s j d"
proof (induction rule: desk_reachable.induct)
  case start
  have "queue_ok 0 (new_desk s)" by (simp add: queue_ok_def new_desk_def)
  moreover have "loop_ok (session_loop py text_of link secret n) s 0 (new_desk s)"
    by (rule loop_okI [of _ "[]" s "[]" s _ "[]"]) (simp_all add: new_desk_def goes_on_def)
  ultimately show ?case by blast
next
  case (step d d')
  then show ?case using desk_ok_step by metis
qed

section \<open>Ordered, and answered truthfully\<close>

text \<open>
  C8. Requests are carried out in order: however the threads of the panel, the closing of
  the session and the thread of the session interleave, the agent has seen exactly what the
  sequential loop does with some events whose requests are the first ones submitted, in the
  order of submission, each once; and a caller who was told a response was told the
  agent's response to the very request it submitted.
\<close>

theorem requests_are_carried_out_in_order:
  assumes "desk_reachable py text_of link secret hostname s d"
  shows "\<exists>es extra out. fst (session_loop py text_of link secret hostname es s) = Inr out
    \<and> dk_agent d = snd (session_loop py text_of link secret hostname (es @ extra) s) \<and> requests_of extra = []
    \<and> requests_of es = take (length (answers out)) (dk_submitted d)
    \<and> (\<forall>n r. dk_told d n = Some (Inr r) \<longrightarrow> n < length (answers out) \<and> answers out ! n = Inr r)"
proof -
  obtain j where q: "queue_ok j d" and l: "loop_ok (session_loop py text_of link secret hostname) s j d"
    using desk_ok_reachable [OF assms] by blast
  obtain es extra out s1 where *: "session_loop py text_of link secret hostname es s = (Inr out, s1)"
    "requests_of es = take (length (answers out)) (dk_submitted d)" "requests_of extra = []"
    "dk_agent d = snd (session_loop py text_of link secret hostname (es @ extra) s)"
    "\<forall>n r. dk_future d n = Outcome (Inr r) \<longrightarrow> n < length (answers out) \<and> answers out ! n = Inr r"
    using l unfolding loop_ok_def by blast
  then show ?thesis
    using told_outcome [OF q] by (intro exI [of _ es] exI [of _ extra] exI [of _ out]) auto
qed

text \<open>A request that is queued while the loop is free, and its caller.\<close>

lemma desk_one_request:
  assumes "run_item py text_of link secret hostname f m s = (Inr resp, s')"
  shows "\<exists>d. desk_reachable py text_of link secret hostname s d \<and> dk_submitted d = [f] \<and> dk_agent d = s'
      \<and> dk_told d 0 = Some (Inr resp)"
    and "\<exists>d. desk_reachable py text_of link secret hostname s d \<and> dk_submitted d = [f] \<and> dk_agent d = s'
      \<and> dk_told d 0 = Some (Inl TimeoutError)"
proof -
  let ?R = "desk_reachable py text_of link secret hostname s"
  let ?d1 = "(new_desk s)\<lparr>dk_items := [Job 0 f], dk_submitted := [f]\<rparr>"
  let ?run = "\<lambda>d. loop_turn py text_of link secret hostname m (check_loop True d)"
  have d1: "?R ?d1"
    by (rule desk_reachable.step [OF desk_reachable.start desk_step.enqueue [of f _ 0]])
      (simp add: enqueue_def new_desk_def)
  have turn: "?R (?run d)" if "?R d" "dk_phase d = Checking" "\<not> dk_closed d" for d
    by (intro desk_reachable.step [OF _ desk_step.turn] desk_reachable.step [OF that(1) desk_step.check] that(2))
      (simp add: check_loop_def that(3))
  have tell: "?R (d\<lparr>dk_told := (dk_told d)(0 \<mapsto> await_future 0 d)\<rparr>)"
    if "?R d" "dk_submitted d = [f]" "dk_told d 0 = None" for d
    by (rule desk_reachable.step [OF that(1) desk_step.tell]) (use that in simp_all)
  note facts = new_desk_def check_loop_def loop_turn_def await_future_def
  have reached: "\<exists>d. ?R d \<and> dk_submitted d = [f] \<and> dk_agent d = s' \<and> dk_told d 0 = Some x"
    if "?R d" "dk_submitted d = [f] \<and> dk_agent d = s' \<and> dk_told d 0 = Some x" for d x
    using that by blast
  have "?R (?run ?d1)" by (rule turn [OF d1]) (simp_all add: facts)
  from reached [OF tell [OF this]] show "\<exists>d. ?R d \<and> dk_submitted d = [f] \<and> dk_agent d = s' \<and> dk_told d 0 = Some (Inr resp)"
    using assms by (simp add: facts)
  have "?R (?d1\<lparr>dk_told := (dk_told ?d1)(0 \<mapsto> await_future 0 ?d1)\<rparr>)"
    by (rule tell [OF d1]) (simp_all add: facts)
  from reached [OF turn [OF this]] show "\<exists>d. ?R d \<and> dk_submitted d = [f] \<and> dk_agent d = s' \<and> dk_told d 0 = Some (Inl TimeoutError)"
    using assms by (simp add: facts)
qed

text \<open>
  A request whose caller has given up is carried out nevertheless: nothing takes it out of
  the queue, so the parent is told of a failure and the agent obeys all the same.
\<close>

theorem timed_out_request_is_still_carried_out:
  assumes "run_item py text_of link secret hostname f m s = (Inr resp, s')"
  shows "\<exists>d. desk_reachable py text_of link secret hostname s d \<and> dk_submitted d = [f] \<and> dk_agent d = s'
      \<and> dk_told d 0 = Some (Inl TimeoutError)"
  using desk_one_request(2) [OF assms] .

text \<open>The button of Button_Press, through the queue.\<close>

lemma press_is_run:
  "\<exists>resp s'. run_item (e_python sample_env) (\<lambda>_. []) (agent_side sample_env (lit ''key'') one_by_one kid_turn) (lit ''key'')
      (lit ''kid'') (lit ''extend'', None, JInt 30, None) press_moment kid_wire = (Inr resp, s')
    \<and> response_ok resp \<and> par_extension (parental_of (wi_agent s')) = 1800"
proof -
  obtain body where body: "build_request (e_python sample_env) (lit ''key'') (lit ''extend'') None (Some (PInt 30))
      (Some (make_nonce [4, 5, 6])) (Some (lit ''kid'')) 1030 (make_nonce sample_random) 3 None = Inr body" "fits_frame body"
    using press_body by blast
  have page: "lit ''extend'' = lit ''set'' \<longrightarrow> JInt 30 \<noteq> JNull"
    "case wire_val (\<lambda>_. []) (JInt 30) of None \<Rightarrow> True | Some y \<Rightarrow> ok_val y"
    by (simp_all add: ok_val_def)
  have built: "build_request (e_python sample_env) (lit ''key'') (lit ''extend'') None (wire_val (\<lambda>_. []) (JInt 30))
      (Some (make_nonce (m_id press_moment))) (Some (lit ''kid'')) (m_sent press_moment)
      (make_nonce (m_nonce press_moment)) 3 None = Inr body"
    using body(1) by simp
  have reply: "\<forall>reply w'. handle_request sample_env body (lit ''key'') (tn_now kid_turn) (tn_sent kid_turn)
      (tn_random kid_turn) (wi_agent kid_wire) = (Inr reply, w') \<longrightarrow> fits_frame reply"
    using press_reply [OF body(1)] by simp
  have times: "fresh_stamp (m_sent press_moment) (make_nonce (m_nonce press_moment)) (tn_now kid_turn)"
    "fresh_stamp (tn_sent kid_turn) (make_nonce (tn_random kid_turn)) (m_read press_moment)"
    using sample_reply_stamp by simp_all
  have agent: "prev_day (date_of (w_clock (wi_agent kid_wire))) = Inr (Date 2026 3 3)"
    "valid_date (date_of (w_clock (wi_agent kid_wire)))" "\<not> w_state_load_failed (wi_agent kid_wire)"
    using sample_clock by simp_all
  have small: "\<forall>b \<in> set (m_id press_moment). b < 256" by simp
  have "par_extension (obey (w_clock sample_world) (Extend_by 30) (parental_of sample_world)) = 1800"
    by (simp add: parental_of_def sample_world_def)
  with button_carried_out [OF extend_action extend_is_settings page built body(2) small times chops_one_by_one
      example_simps(14,8,12) sample_named sample_clean agent reply]
  show ?thesis unfolding wire_val_simps extend_command sum.case by fastforce
qed

theorem requests_are_carried_out_in_order_witness:
  "\<exists>d es extra out resp. desk_reachable (e_python sample_env) (\<lambda>_. []) (agent_side sample_env (lit ''key'') one_by_one kid_turn)
        (lit ''key'') (lit ''kid'') kid_wire d
    \<and> dk_told d 0 = Some (Inr resp) \<and> response_ok resp \<and> par_extension (parental_of (wi_agent (dk_agent d))) = 1800
    \<and> requests_of es = [(lit ''extend'', None, JInt 30, None)] \<and> answers out ! 0 = Inr resp
    \<and> fst (session_loop (e_python sample_env) (\<lambda>_. []) (agent_side sample_env (lit ''key'') one_by_one kid_turn)
        (lit ''key'') (lit ''kid'') es kid_wire) = Inr out"
proof -
  obtain resp s' where r: "run_item (e_python sample_env) (\<lambda>_. []) (agent_side sample_env (lit ''key'') one_by_one kid_turn)
      (lit ''key'') (lit ''kid'') (lit ''extend'', None, JInt 30, None) press_moment kid_wire = (Inr resp, s')"
    "response_ok resp" "par_extension (parental_of (wi_agent s')) = 1800"
    using press_is_run by blast
  obtain d where d: "desk_reachable (e_python sample_env) (\<lambda>_. []) (agent_side sample_env (lit ''key'') one_by_one kid_turn)
      (lit ''key'') (lit ''kid'') kid_wire d"
    "dk_submitted d = [(lit ''extend'', None, JInt 30, None)]" "dk_agent d = s'" "dk_told d 0 = Some (Inr resp)"
    using desk_one_request(1) [OF r(1)] by blast
  obtain es extra out where e: "fst (session_loop (e_python sample_env) (\<lambda>_. [])
        (agent_side sample_env (lit ''key'') one_by_one kid_turn) (lit ''key'') (lit ''kid'') es kid_wire) = Inr out"
    "requests_of es = take (length (answers out)) (dk_submitted d)"
    "\<forall>n r. dk_told d n = Some (Inr r) \<longrightarrow> n < length (answers out) \<and> answers out ! n = Inr r"
    using requests_are_carried_out_in_order [OF d(1)] by blast
  from e(3) d(4) have o: "0 < length (answers out)" "answers out ! 0 = Inr resp" by blast+
  with e(2) d(2) have "requests_of es = [(lit ''extend'', None, JInt 30, None)]" by simp
  with d r e(1) o show ?thesis by blast
qed

end
