(* ===== verification/Listener.thy ===== *)
theory Listener
  imports Reverse_Server
begin

text \<open>
  The rest of \<open>src/kid_pc_monitor/panel_reverse_server.py\<close>: the thread that listens for
  agents (\<open>_serve\<close>), what the thread of one connection does from beginning to end
  (\<open>_handle_client\<close>), and the server of the process with its address and certificate
  (\<open>start_panel_reverse_server\<close>, \<open>stop_panel_reverse_server\<close>). The threads of Reverse_Server interleave freely; here
  \<open>_handle_client\<close> is written out in its own order, and shown to be a run of those steps.
\<close>

section \<open>Listening\<close>

text \<open>
  What a client does after it has connected: it goes through a TLS handshake, sends
  something else, or stays silent. Without TLS none of this is looked at here.
\<close>

datatype greeting = Handshake | Other_bytes | Silence

datatype arrival = Nobody | Connects pystr greeting | Accept_error pystr

text \<open>
  \<open>server.accept()\<close>, with a timeout of a second. On a TLS socket the handshake is part of
  it; a failed one is an \<open>ssl.SSLError\<close>, which is an OSError. The accepted socket has no
  timeout of its own at that moment, so the handshake with a silent client does not end: None.
\<close>

definition accept_client :: "bool \<Rightarrow> arrival \<Rightarrow> pystr res option" where
  "accept_client tls a =
     (case a of
        Nobody \<Rightarrow> Some (Inl TimeoutError)
      | Accept_error m \<Rightarrow> Some (Inl (OSError m))
      | Connects ip g \<Rightarrow>
          if tls then (case g of Handshake \<Rightarrow> Some (Inr ip) | Other_bytes \<Rightarrow> Some (Inl (OSError (lit ''SSL''))) | Silence \<Rightarrow> None)
          else Some (Inr ip))"

text \<open>
  Where the thread is: about to open the socket, in the inner loop, in an \<open>accept\<close> that
  does not return, ended. What happens during one turn of a loop: whether the server is
  stopped before it, the outcome of opening, what arrives, whether a thread can be started.
\<close>

datatype listener_phase = Opening | Accepting | Hung | Ended

record listener =
  li_running :: bool
  li_phase :: listener_phase
  li_handlers :: "pystr list"
  li_pauses :: nat

record happening =
  ha_stop :: bool
  ha_open :: "unit res"
  ha_arrival :: arrival
  ha_thread :: "unit res"

definition new_listener :: listener where
  "new_listener = \<lparr>li_running = True, li_phase = Opening, li_handlers = [], li_pauses = 0\<rparr>"

text \<open>A turn of the outer loop, and of the inner one.\<close>

definition open_turn :: "happening \<Rightarrow> listener \<Rightarrow> listener" where
  "open_turn h l =
     (if \<not> li_running l then l\<lparr>li_phase := Ended\<rparr>
      else case ha_open h of
        Inr _ \<Rightarrow> l\<lparr>li_phase := Accepting\<rparr>
      | Inl e \<Rightarrow> l\<lparr>li_pauses := li_pauses l + 1\<rparr>)"

definition accept_turn :: "bool \<Rightarrow> happening \<Rightarrow> listener \<Rightarrow> listener" where
  "accept_turn tls h l =
     (if \<not> li_running l then l\<lparr>li_phase := Opening\<rparr>
      else case accept_client tls (ha_arrival h) of
        None \<Rightarrow> l\<lparr>li_phase := Hung\<rparr>
      | Some (Inl e) \<Rightarrow> if e = TimeoutError then l else l\<lparr>li_phase := Opening\<rparr>
      | Some (Inr ip) \<Rightarrow>
          (case ha_thread h of
             Inr _ \<Rightarrow> l\<lparr>li_handlers := li_handlers l @ [ip]\<rparr>
           | Inl e \<Rightarrow> l\<lparr>li_phase := Opening, li_pauses := li_pauses l + 1\<rparr>))"

definition listen_step :: "bool \<Rightarrow> happening \<Rightarrow> listener \<Rightarrow> listener" where
  "listen_step tls h l0 =
     (let l = (if ha_stop h then l0\<lparr>li_running := False\<rparr> else l0) in
      case li_phase l of Opening \<Rightarrow> open_turn h l | Accepting \<Rightarrow> accept_turn tls h l | Hung \<Rightarrow> l | Ended \<Rightarrow> l)"

fun serve_listener :: "bool \<Rightarrow> happening list \<Rightarrow> listener \<Rightarrow> listener" where
  "serve_listener tls [] l = l"
| "serve_listener tls (h # hs) l = serve_listener tls hs (listen_step tls h l)"

lemma serve_listener_append [simp]:
  "serve_listener tls (hs @ hs') l = serve_listener tls hs' (serve_listener tls hs l)"
  by (induction hs arbitrary: l) simp_all

text \<open>A turn in which an agent connects and nothing is in its way.\<close>

definition agent_connects :: "pystr \<Rightarrow> happening" where
  "agent_connects ip = \<lparr>ha_stop = False, ha_open = Inr (), ha_arrival = Connects ip Handshake, ha_thread = Inr ()\<rparr>"

definition silent_client :: "happening \<Rightarrow> bool" where
  "silent_client h \<longleftrightarrow> (\<exists>ip. ha_arrival h = Connects ip Silence)"

definition listening :: "listener \<Rightarrow> bool" where
  "listening l \<longleftrightarrow> li_running l \<and> (li_phase l = Opening \<or> li_phase l = Accepting)"

lemma accept_hangs: "accept_client tls a = None \<longleftrightarrow> tls \<and> (\<exists>ip. a = Connects ip Silence)"
  by (auto simp: accept_client_def split: arrival.split greeting.split)

lemma turns_add_handlers:
  "\<exists>ips. li_handlers (open_turn h l) = li_handlers l @ ips"
  "\<exists>ips. li_handlers (accept_turn tls h l) = li_handlers l @ ips"
proof -
  show "\<exists>ips. li_handlers (open_turn h l) = li_handlers l @ ips"
    by (simp add: open_turn_def split: sum.split)
  show "\<exists>ips. li_handlers (accept_turn tls h l) = li_handlers l @ ips"
    by (cases "\<exists>ip. accept_client tls (ha_arrival h) = Some (Inr ip)")
      (auto simp: accept_turn_def split: sum.split option.split)
qed

lemma listening_step:
  assumes "listening l" and "\<not> ha_stop h" and "tls \<longrightarrow> \<not> silent_client h"
  shows "listening (listen_step tls h l)"
    and "\<exists>ips. li_handlers (listen_step tls h l) = li_handlers l @ ips"
proof -
  show "listening (listen_step tls h l)"
    using assms accept_hangs [of tls "ha_arrival h"]
    by (auto simp: listening_def listen_step_def open_turn_def accept_turn_def silent_client_def Let_def
        split: sum.split option.split)
  show "\<exists>ips. li_handlers (listen_step tls h l) = li_handlers l @ ips"
    using turns_add_handlers(1) [of h l] turns_add_handlers(2) [of tls h l] assms by (auto simp: listen_step_def listening_def)
qed

lemma listening_serve:
  "listening l \<Longrightarrow> \<forall>h \<in> set hs. \<not> ha_stop h \<Longrightarrow> tls \<longrightarrow> (\<forall>h \<in> set hs. \<not> silent_client h) \<Longrightarrow>
   listening (serve_listener tls hs l) \<and> (\<exists>ips. li_handlers (serve_listener tls hs l) = li_handlers l @ ips)"
proof (induction hs arbitrary: l)
  case (Cons h hs)
  then obtain ips where "listening (listen_step tls h l)" "li_handlers (listen_step tls h l) = li_handlers l @ ips"
    using listening_step [of l h tls] by auto
  then show ?case using Cons.IH [of "listen_step tls h l"] Cons.prems by fastforce
qed simp

lemma agent_is_accepted:
  assumes "listening l"
  shows "\<exists>ips. li_handlers (serve_listener tls [agent_connects ip, agent_connects ip] l) = li_handlers l @ ips @ [ip]"
  using assms
  by (auto simp: listening_def listen_step_def open_turn_def accept_turn_def accept_client_def agent_connects_def Let_def)

text \<open>
  C23. The panel keeps listening: whatever failed before (the port was taken, \<open>accept\<close>
  failed, a handshake failed, no thread could be started) and however often, as long as the
  server is not stopped and, when it serves with TLS, no client has stayed silent in its
  handshake, an agent that then tries twice is given its thread; no thread given to an
  earlier one is lost.
\<close>

theorem panel_keeps_listening:
  assumes "\<forall>h \<in> set hs. \<not> ha_stop h" and "tls \<longrightarrow> (\<forall>h \<in> set hs. \<not> silent_client h)"
  shows "\<exists>ips. li_handlers (serve_listener tls (hs @ [agent_connects ip, agent_connects ip]) new_listener)
    = li_handlers (serve_listener tls hs new_listener) @ ips @ [ip]"
proof -
  have "listening (serve_listener tls hs new_listener)"
    using listening_serve [OF _ assms] by (simp add: listening_def new_listener_def)
  from agent_is_accepted [OF this] show ?thesis by simp
qed

text \<open>The port is taken twice, then \<open>accept\<close> fails and a handshake fails.\<close>

definition bad_start :: "happening list" where
  "bad_start = map (\<lambda>(op, a). \<lparr>ha_stop = False, ha_open = op, ha_arrival = a, ha_thread = Inr ()\<rparr>)
     [(Inl (OSError (lit ''in use'')), Nobody), (Inl (OSError (lit ''in use'')), Nobody), (Inr (), Nobody),
      (Inr (), Accept_error (lit ''aborted'')), (Inr (), Nobody), (Inr (), Connects (lit ''10.0.0.9'') Other_bytes)]"

theorem panel_keeps_listening_witness:
  "li_pauses (serve_listener True bad_start new_listener) = 2
    \<and> (\<exists>ips. li_handlers (serve_listener True (bad_start @ [agent_connects (lit ''10.0.0.7''), agent_connects (lit ''10.0.0.7'')])
           new_listener) = ips @ [lit ''10.0.0.7''])"
proof -
  have "\<forall>h \<in> set bad_start. \<not> ha_stop h" "True \<longrightarrow> (\<forall>h \<in> set bad_start. \<not> silent_client h)"
    by (simp_all add: bad_start_def silent_client_def)
  from panel_keeps_listening [OF this, of "lit ''10.0.0.7''"]
  have "\<exists>ips. li_handlers (serve_listener True (bad_start @ [agent_connects (lit ''10.0.0.7''), agent_connects (lit ''10.0.0.7'')])
           new_listener) = ips @ [lit ''10.0.0.7'']" by (metis append.assoc)
  moreover have "li_pauses (serve_listener True bad_start new_listener) = 2"
    by (simp add: bad_start_def new_listener_def listen_step_def open_turn_def accept_turn_def accept_client_def)
  ultimately show ?thesis by blast
qed

text \<open>A listener that is stopped ends, unless it hangs.\<close>

lemma stopped_listener_ends:
  assumes "li_phase l \<noteq> Hung" and "ha_stop h"
  shows "li_phase (serve_listener tls [h, h'] l) = Ended"
  using assms
  by (cases "li_phase l")
    (simp_all add: listen_step_def open_turn_def accept_turn_def Let_def)

text \<open>
  With TLS a single client that connects and stays silent ends the listening for everybody:
  no agent is given a thread any more, whatever comes, and stopping does not help.
\<close>

theorem silent_client_blocks_the_listener:
  assumes "listening l" and "li_phase l = Accepting" and "silent_client h" and "\<not> ha_stop h"
  shows "li_handlers (serve_listener True (h # later) l) = li_handlers l
    \<and> li_phase (serve_listener True (h # later) l) = Hung"
proof -
  have hung: "li_phase (serve_listener True later l') = Hung \<and> li_handlers (serve_listener True later l') = li_handlers l'"
    if "li_phase l' = Hung" for l'
    using that
  proof (induction later arbitrary: l')
    case (Cons h later)
    then show ?case using Cons.IH [of "listen_step True h l'"] by (simp add: listen_step_def Let_def)
  qed simp
  have "listen_step True h l = l\<lparr>li_phase := Hung\<rparr>"
    using assms by (auto simp: listen_step_def accept_turn_def accept_client_def silent_client_def listening_def)
  then show ?thesis using hung [of "l\<lparr>li_phase := Hung\<rparr>"] by simp
qed

section \<open>One connection\<close>

text \<open>
  The state a connection's thread works on: its end of the connection, and the world of
  the panel. The parts of \<open>_handle_client\<close>, as they change it; \<open>now\<close> is the time.
\<close>

definition report_status :: "(datetime \<Rightarrow> int) \<Rightarrow> aware \<Rightarrow> nat \<Rightarrow> panel_world \<Rightarrow> panel_world" where
  "report_status zone now k w =
     (case rv_sessions (w_server w) k of
        None \<Rightarrow> w
      | Some s \<Rightarrow> w\<lparr>w_phase := (w_phase w)(k \<mapsto> Serving), w_db := snd (emit_status zone now s (rs_pc_info s) (w_db w))\<rparr>)"

definition open_session :: "nat \<Rightarrow> session \<Rightarrow> panel_world \<Rightarrow> panel_world" where
  "open_session k s w = w\<lparr>w_server := register k (put_session k s (w_server w)), w_phase := (w_phase w)(k \<mapsto> Reporting)\<rparr>"

definition refreshed :: "aware \<Rightarrow> (pystr \<Rightarrow> pyval option) \<Rightarrow> nat \<Rightarrow> panel_world \<Rightarrow> panel_world" where
  "refreshed now settings k w =
     (case rv_sessions (w_server w) k of
        None \<Rightarrow> w
      | Some s \<Rightarrow> w\<lparr>w_server := put_session k (s\<lparr>rs_last_seen := now, rs_pc_info := settings\<rparr>) (w_server w),
                   w_phase := (w_phase w)(k \<mapsto> Reporting)\<rparr>)"

definition answered :: "aware \<Rightarrow> nat \<Rightarrow> panel_world \<Rightarrow> panel_world" where
  "answered now k w =
     (case rv_sessions (w_server w) k of
        None \<Rightarrow> w
      | Some s \<Rightarrow> w\<lparr>w_server := put_session k (s\<lparr>rs_last_seen := now\<rparr>) (w_server w)\<rparr>)"

text \<open>The \<open>finally\<close> of \<open>_handle_client\<close>: \<open>_unregister\<close>, \<open>close\<close>, \<open>_emit_disconnect_if_gone\<close>.\<close>

definition emit_disconnect_if_gone :: "aware \<Rightarrow> nat \<Rightarrow> panel_world \<Rightarrow> panel_world" where
  "emit_disconnect_if_gone now k w =
     (case rv_sessions (w_server w) k of
        None \<Rightarrow> w
      | Some s \<Rightarrow>
          if rv_by_hostname (w_server w) (rs_hostname s) \<noteq> None then w\<lparr>w_phase := (w_phase w)(k \<mapsto> Done)\<rparr>
          else w\<lparr>w_phase := (w_phase w)(k \<mapsto> Done),
                 w_db := record_reverse_disconnect (rs_hostname s) (rs_ip s) now (w_db w)\<rparr>)"

definition end_session :: "aware \<Rightarrow> nat \<Rightarrow> panel_world \<Rightarrow> panel_world" where
  "end_session now k w =
     (let w1 = w\<lparr>w_server := unregister k (w_server w), w_phase := (w_phase w)(k \<mapsto> Left)\<rparr>;
          w2 = w1\<lparr>w_server := close_session k (w_server w1), w_phase := (w_phase w1)(k \<mapsto> Shut)\<rparr>
      in emit_disconnect_if_gone now k w2)"

text \<open>
  \<open>_session_loop\<close> with what it does to the panel: each event comes with the time at which
  it is over. The loop goes on while the server runs and the session is open.
\<close>

definition loop_goes_on :: "nat \<Rightarrow> panel_world \<Rightarrow> bool" where
  "loop_goes_on k w \<longleftrightarrow>
     rv_running (w_server w) \<and> (case rv_sessions (w_server w) k of Some s \<Rightarrow> \<not> rs_closed s | None \<Rightarrow> False)"

fun serve_session ::
  "python \<Rightarrow> (json \<Rightarrow> pystr) \<Rightarrow> (datetime \<Rightarrow> int) \<Rightarrow> 's link \<Rightarrow> pystr \<Rightarrow> pystr \<Rightarrow> nat \<Rightarrow> (aware \<times> loop_event) list
    \<Rightarrow> 's \<times> panel_world \<Rightarrow> 's \<times> panel_world" where
  "serve_session py text_of zone link secret hostname k [] (s, w) = (s, w)"
| "serve_session py text_of zone link secret hostname k ((now, e) # es) (s, w) =
     (if \<not> loop_goes_on k w then (s, w)
      else case e of
        Closing \<Rightarrow> (s, w)
      | Idle m \<Rightarrow>
          (case refresh_status py link secret hostname m s of
             (Inl e, s') \<Rightarrow> (s', w)
           | (Inr settings, s') \<Rightarrow>
               serve_session py text_of zone link secret hostname k es
                 (s', report_status zone now k (refreshed now settings k w)))
      | Item f m \<Rightarrow>
          (case run_item py text_of link secret hostname f m s of
             (Inl e, s') \<Rightarrow> (s', w)
           | (Inr resp, s') \<Rightarrow>
               serve_session py text_of zone link secret hostname k es (s', answered now k w)))"

text \<open>
  \<open>_handle_client\<close>: the secret, the first exchange, the registration and the first report,
  the loop, the end. Without a secret or a name the connection is just closed.
\<close>

definition handle_client ::
  "python \<Rightarrow> (json \<Rightarrow> pystr) \<Rightarrow> (datetime \<Rightarrow> int) \<Rightarrow> 's link \<Rightarrow> pystr res \<Rightarrow> moment \<Rightarrow> aware \<Rightarrow> aware
    \<Rightarrow> (aware \<times> loop_event) list \<Rightarrow> nat \<Rightarrow> pystr \<Rightarrow> 's \<times> panel_world \<Rightarrow> 's \<times> panel_world" where
  "handle_client py text_of zone link secret m since until es k peer_ip sw =
     (case sw of (s, w) \<Rightarrow>
      case secret of
        Inl e \<Rightarrow> (s, w)
      | Inr key \<Rightarrow>
          (case identify py link key m s of
             (Inr (Some (hostname, settings)), s1) \<Rightarrow>
               let ses = \<lparr>rs_hostname = hostname, rs_ip = peer_ip, rs_last_seen = since, rs_pc_info = settings,
                          rs_closed = False\<rparr>;
                   (s2, w2) = serve_session py text_of zone link key hostname k es
                                (s1, report_status zone since k (open_session k ses w))
               in (s2, end_session until k w2)
           | (_, s1) \<Rightarrow> (s1, w)))"

section \<open>A connection runs in the steps of the threads\<close>

lemma report_status_step:
  assumes "w_phase w k = Some Reporting" and "rv_sessions (w_server w) k = Some s"
  shows "thread_step zone w (report_status zone now k w)"
  using thread_step.report [OF assms] assms(2) by (simp add: report_status_def)

text \<open>What the loop keeps: the session is there, and its thread is in the loop.\<close>

definition in_loop :: "nat \<Rightarrow> panel_world \<Rightarrow> bool" where
  "in_loop k w \<longleftrightarrow> w_phase w k = Some Serving \<and> rv_sessions (w_server w) k \<noteq> None"

lemma refresh_and_report:
  assumes "in_loop k w"
  shows "(thread_step zone)\<^sup>*\<^sup>* w (report_status zone now k (refreshed now settings k w))"
    and "in_loop k (report_status zone now k (refreshed now settings k w))"
proof -
  obtain s where s: "w_phase w k = Some Serving" "rv_sessions (w_server w) k = Some s"
    using assms by (auto simp: in_loop_def)
  let ?w = "refreshed now settings k w"
  have w: "thread_step zone w ?w" using thread_step.refresh [OF s] s(2) by (simp add: refreshed_def)
  have "w_phase ?w k = Some Reporting" "rv_sessions (w_server ?w) k = Some (s\<lparr>rs_last_seen := now, rs_pc_info := settings\<rparr>)"
    using s by (simp_all add: refreshed_def)
  from report_status_step [OF this] w show "(thread_step zone)\<^sup>*\<^sup>* w (report_status zone now k ?w)"
    by (meson converse_rtranclp_into_rtranclp r_into_rtranclp)
  show "in_loop k (report_status zone now k ?w)" using s by (simp add: in_loop_def refreshed_def report_status_def)
qed

lemma answered_step:
  assumes "in_loop k w"
  shows "thread_step zone w (answered now k w)" and "in_loop k (answered now k w)"
proof -
  obtain s where s: "w_phase w k = Some Serving" "rv_sessions (w_server w) k = Some s"
    using assms by (auto simp: in_loop_def)
  show "thread_step zone w (answered now k w)" using thread_step.answer [OF s] s(2) by (simp add: answered_def)
  show "in_loop k (answered now k w)" using s by (simp add: in_loop_def answered_def)
qed

lemma serve_session_steps:
  "in_loop k w \<Longrightarrow> serve_session py text_of zone link secret n k es (s, w) = (s', w') \<Longrightarrow>
     (thread_step zone)\<^sup>*\<^sup>* w w' \<and> in_loop k w'"
proof (induction es arbitrary: s w)
  case (Cons te es)
  obtain now e where te: "te = (now, e)" by (cases te)
  show ?case
  proof (cases "loop_goes_on k w \<and> e \<noteq> Closing")
    case False
    then show ?thesis using Cons.prems unfolding te by (cases e) (auto split: if_splits)
  next
    case True
    show ?thesis
    proof (cases e)
      case (Idle m)
      obtain r u where r: "refresh_status py link secret n m s = (r, u)" by force
      show ?thesis
      proof (cases r)
        case (Inr st)
        then have "serve_session py text_of zone link secret n k es (u, report_status zone now k (refreshed now st k w)) = (s', w')"
          using Cons.prems(2) True r unfolding te Idle by simp
        from Cons.IH [OF refresh_and_report(2) [OF Cons.prems(1)] this] refresh_and_report(1) [OF Cons.prems(1), of zone now st]
        show ?thesis by (meson rtranclp_trans)
      qed (use Cons.prems True r in \<open>auto simp: te Idle\<close>)
    next
      case (Item f m)
      obtain r u where r: "run_item py text_of link secret n f m s = (r, u)" by force
      show ?thesis
      proof (cases r)
        case (Inr resp)
        then have "serve_session py text_of zone link secret n k es (u, answered now k w) = (s', w')"
          using Cons.prems(2) True r unfolding te Item by simp
        from Cons.IH [OF answered_step(2) [OF Cons.prems(1)] this] answered_step(1) [OF Cons.prems(1), of zone now]
        show ?thesis by (meson converse_rtranclp_into_rtranclp)
      qed (use Cons.prems True r in \<open>auto simp: te Item\<close>)
    qed (use True in simp)
  qed
qed simp

lemma unregister_sessions [simp]: "rv_sessions (unregister k srv) = rv_sessions srv"
  by (simp add: unregister_def split: option.split)

lemma emit_disconnect_steps:
  assumes p: "w_phase w k = Some Shut" "rv_sessions (w_server w) k = Some s"
  shows "(thread_step zone)\<^sup>*\<^sup>* w (emit_disconnect_if_gone now k w)"
    and "w_phase (emit_disconnect_if_gone now k w) k = Some Done"
proof -
  show "w_phase (emit_disconnect_if_gone now k w) k = Some Done"
    using p(2) by (simp add: emit_disconnect_if_gone_def)
  show "(thread_step zone)\<^sup>*\<^sup>* w (emit_disconnect_if_gone now k w)"
  proof (cases "rv_by_hostname (w_server w) (rs_hostname s) = None")
    case False
    with thread_step.replaced [OF p False] p(2) show ?thesis by (auto simp: emit_disconnect_if_gone_def)
  next
    case True
    let ?w = "w\<lparr>w_phase := (w_phase w)(k \<mapsto> Gone)\<rparr>"
    have "thread_step zone ?w (?w\<lparr>w_phase := (w_phase ?w)(k \<mapsto> Done),
        w_db := record_reverse_disconnect (rs_hostname s) (rs_ip s) now (w_db ?w)\<rparr>)"
      by (rule thread_step.disconnect) (use p in simp_all)
    then have "thread_step zone ?w (emit_disconnect_if_gone now k w)"
      using True p(2) by (simp add: emit_disconnect_if_gone_def)
    with thread_step.gone [OF p True] show ?thesis by (metis converse_rtranclp_into_rtranclp r_into_rtranclp)
  qed
qed

lemma end_session_steps:
  assumes "in_loop k w"
  shows "(thread_step zone)\<^sup>*\<^sup>* w (end_session now k w)" and "w_phase (end_session now k w) k = Some Done"
proof -
  obtain s where s: "w_phase w k = Some Serving" "rv_sessions (w_server w) k = Some s"
    using assms by (auto simp: in_loop_def)
  let ?w1 = "w\<lparr>w_server := unregister k (w_server w), w_phase := (w_phase w)(k \<mapsto> Left)\<rparr>"
  let ?w2 = "?w1\<lparr>w_server := close_session k (w_server ?w1), w_phase := (w_phase ?w1)(k \<mapsto> Shut)\<rparr>"
  have w1: "thread_step zone w ?w1" by (rule thread_step.leave [OF s(1)])
  have w2: "thread_step zone ?w1 ?w2" by (rule thread_step.shut) simp
  have p: "w_phase ?w2 k = Some Shut" "rv_sessions (w_server ?w2) k = Some (s\<lparr>rs_closed := True\<rparr>)"
    using s by simp_all
  have e: "end_session now k w = emit_disconnect_if_gone now k ?w2" by (simp add: end_session_def Let_def)
  from w1 w2 emit_disconnect_steps(1) [OF p] show "(thread_step zone)\<^sup>*\<^sup>* w (end_session now k w)"
    unfolding e by (meson converse_rtranclp_into_rtranclp)
  show "w_phase (end_session now k w) k = Some Done"
    unfolding e by (rule emit_disconnect_steps(2) [OF p])
qed

text \<open>
  A connection is a run of the steps of the threads, so all that holds of these holds
  of it, whatever the other connections do between two of its parts; and when it is over its
  session is in the registry no more, neither under its host name nor under an address.
\<close>

theorem connection_runs_in_thread_steps:
  assumes "rv_sessions (w_server w) k = None" and "reachable zone db w"
    and "handle_client py text_of zone link secret m since until es k peer_ip (s, w) = (s', w')"
  shows "(thread_step zone)\<^sup>*\<^sup>* w w' \<and> rv_by_hostname (w_server w') h \<noteq> Some k \<and> rv_by_ip (w_server w') ip \<noteq> Some k"
proof (cases "\<exists>key hostname settings s1. secret = Inr key \<and> identify py link key m s = (Inr (Some (hostname, settings)), s1)")
  case False
  then have w': "w' = w"
    using assms(3) by (auto simp: handle_client_def split: sum.splits prod.splits option.splits)
  have "\<not> serves w k t" for t using assms(1) by (simp add: serves_def)
  then show ?thesis
    unfolding w' using server_okD(1,2) [OF server_ok_reachable [OF assms(2)]] by blast
next
  case True
  then obtain key hostname settings s1 where i: "secret = Inr key" "identify py link key m s = (Inr (Some (hostname, settings)), s1)"
    by blast
  let ?ses = "\<lparr>rs_hostname = hostname, rs_ip = peer_ip, rs_last_seen = since, rs_pc_info = settings, rs_closed = False\<rparr>"
  let ?w1 = "open_session k ?ses w" and ?w2 = "report_status zone since k (open_session k ?ses w)"
  obtain w3 where l: "serve_session py text_of zone link key hostname k es (s1, ?w2) = (s', w3)" "w' = end_session until k w3"
    using assms(3) i by (auto simp: handle_client_def Let_def split: prod.splits)
  have sessions: "rv_sessions (w_server ?w1) k = Some ?ses" "w_phase ?w1 k = Some Reporting"
    by (simp_all add: open_session_def register_def Let_def split: option.split)
  have c: "thread_step zone w ?w1" unfolding open_session_def by (rule thread_step.connect [OF assms(1)]) simp
  have r: "thread_step zone ?w1 ?w2" by (rule report_status_step [OF sessions(2,1)])
  have "in_loop k ?w2" using sessions by (simp add: in_loop_def report_status_def)
  note served = serve_session_steps [OF this l(1)]
  then have loop: "in_loop k w3" ..
  have run: "(thread_step zone)\<^sup>*\<^sup>* w w'"
    using c r served end_session_steps(1) [OF loop, of zone until] unfolding l(2)
    by (meson converse_rtranclp_into_rtranclp rtranclp_trans)
  have "reachable zone db w'" using run assms(2) by (induction rule: rtranclp_induct) (auto intro: reachable.step)
  moreover have "\<not> serves w' k t" for t using end_session_steps(2) [OF loop, of until] l(2) by (simp add: serves_def)
  ultimately show ?thesis using run server_okD(1,2) [OF server_ok_reachable] by blast
qed

text \<open>
  And what it exchanges with the agent is what the loop of Reverse_Server does, as long as
  nobody stops the server or closes the session.
\<close>

lemma loop_keeps_going:
  assumes "loop_goes_on k w"
  shows "loop_goes_on k (report_status zone now k (refreshed now settings k w))" and "loop_goes_on k (answered now k w)"
  using assms
  by (auto simp: loop_goes_on_def report_status_def refreshed_def answered_def put_session_def split: option.splits)

theorem connection_talks_like_the_loop:
  "loop_goes_on k w \<Longrightarrow>
   fst (serve_session py text_of zone link secret n k es (s, w)) = snd (session_loop py text_of link secret n (map snd es) s)"
proof (induction es arbitrary: s w)
  case (Cons te es)
  obtain now e where te: "te = (now, e)" by (cases te)
  note later = Cons.IH [OF loop_keeps_going(1) [OF Cons.prems]] Cons.IH [OF loop_keeps_going(2) [OF Cons.prems]]
  show ?case
  proof (cases e)
    case (Idle m)
    obtain r u where r: "refresh_status py link secret n m s = (r, u)" by force
    show ?thesis
      unfolding te Idle using Cons.prems later(1) r
      by (cases r) (auto simp: bind_def try_with_def split: exn.split prod.split sum.split)
  next
    case (Item f m)
    obtain r u where r: "run_item py text_of link secret n f m s = (r, u)" by force
    show ?thesis
      unfolding te Item using Cons.prems later(2) r
      by (cases r) (auto simp: bind_def try_with_def split: prod.split sum.split)
  qed (use Cons.prems in \<open>simp add: te\<close>)
qed simp

section \<open>The server of the process\<close>

text \<open>
  Every server object there has been, by number, each with the address and certificate it was
  made with, and the one in \<open>_server\<close>. \<open>stop\<close> empties the registry and closes the sessions;
  the functions run under \<open>_server_lock\<close>.
\<close>

type_synonym certificate = "pystr \<times> pystr"

record server_address =
  ad_host :: pystr
  ad_port :: int
  ad_tls :: "certificate option"

record process =
  pr_servers :: "(server_address \<times> server) list"
  pr_current :: "nat option"

definition stop_whole :: "server \<Rightarrow> server" where
  "stop_whole srv =
     (case stop_server srv of (ks, srv') \<Rightarrow>
        srv'\<lparr>rv_sessions := (\<lambda>k. if k \<in> ks then map_option (\<lambda>s. s\<lparr>rs_closed := True\<rparr>) (rv_sessions srv' k) else rv_sessions srv' k)\<rparr>)"

definition created_server :: "pystr option \<Rightarrow> pystr \<Rightarrow> int option \<Rightarrow> certificate option \<Rightarrow> server_address \<times> server" where
  "created_server variable host port tls =
     (\<lparr>ad_host = host, ad_port = (case port of None \<Rightarrow> reverse_listen_port variable | Some p \<Rightarrow> p), ad_tls = tls\<rparr>,
      new_server\<lparr>rv_running := False\<rparr>)"

definition start_server :: "server \<Rightarrow> server" where
  "start_server srv = (if rv_running srv then srv else srv\<lparr>rv_running := True\<rparr>)"

definition get_reverse_server :: "process \<Rightarrow> server option" where
  "get_reverse_server p = map_option (\<lambda>i. snd (pr_servers p ! i)) (pr_current p)"

text \<open>Where the thread of the current server listens (the \<open>bind\<close> of \<open>_serve\<close>).\<close>

definition listening_at :: "process \<Rightarrow> server_address option" where
  "listening_at p =
     (case pr_current p of
        None \<Rightarrow> None
      | Some i \<Rightarrow> if rv_running (snd (pr_servers p ! i)) then Some (fst (pr_servers p ! i)) else None)"

definition stop_current :: "process \<Rightarrow> process" where
  "stop_current p =
     (case pr_current p of
        None \<Rightarrow> p
      | Some i \<Rightarrow> p\<lparr>pr_servers := (pr_servers p)[i := apsnd stop_whole (pr_servers p ! i)]\<rparr>)"

definition start_panel_reverse_server ::
  "pystr option \<Rightarrow> pystr \<Rightarrow> int option \<Rightarrow> certificate option \<Rightarrow> process \<Rightarrow> process" where
  "start_panel_reverse_server variable host port tls p =
     (let q = stop_current p
      in q\<lparr>pr_servers := pr_servers q @ [apsnd start_server (created_server variable host port tls)], pr_current := Some (length (pr_servers q))\<rparr>)"

definition stop_panel_reverse_server :: "process \<Rightarrow> process" where
  "stop_panel_reverse_server p =
     (case pr_current p of None \<Rightarrow> p | Some i \<Rightarrow> (stop_current p)\<lparr>pr_current := None\<rparr>)"

text \<open>The servers of a process after some starts and stops.\<close>

datatype management = Starts "pystr option" pystr "int option" "certificate option" | Stops

fun manage :: "management list \<Rightarrow> process \<Rightarrow> process" where
  "manage [] p = p"
| "manage (Starts variable host port tls # ms) p = manage ms (start_panel_reverse_server variable host port tls p)"
| "manage (Stops # ms) p = manage ms (stop_panel_reverse_server p)"

definition one_runs :: "process \<Rightarrow> bool" where
  "one_runs p \<longleftrightarrow>
     (\<forall>i < length (pr_servers p). rv_running (snd (pr_servers p ! i)) \<longleftrightarrow> pr_current p = Some i)
     \<and> (\<forall>i. pr_current p = Some i \<longrightarrow> i < length (pr_servers p))"

lemma stop_whole_simps [simp]:
  "\<not> rv_running (stop_whole srv)" "rv_by_hostname (stop_whole srv) = (\<lambda>_. None)" "rv_by_ip (stop_whole srv) = (\<lambda>_. None)"
  by (simp_all add: stop_whole_def stop_server_def)

lemma one_runs_start: "one_runs p \<Longrightarrow> one_runs (start_panel_reverse_server variable host port tls p)"
  unfolding one_runs_def start_panel_reverse_server_def stop_current_def
  by (auto simp: Let_def start_server_def created_server_def nth_append nth_list_update less_Suc_eq split: option.splits)

lemma one_runs_stop: "one_runs p \<Longrightarrow> one_runs (stop_panel_reverse_server p)"
  unfolding one_runs_def stop_panel_reverse_server_def stop_current_def
  by (auto simp: nth_list_update split: option.splits)

lemma started_server_listens:
  "get_reverse_server (start_panel_reverse_server variable host port tls p) = Some (new_server\<lparr>rv_running := True\<rparr>)"
  "listening_at (start_panel_reverse_server variable host port tls p) =
     Some \<lparr>ad_host = host, ad_port = (case port of None \<Rightarrow> reverse_listen_port variable | Some p \<Rightarrow> p), ad_tls = tls\<rparr>"
  by (simp_all add: start_panel_reverse_server_def get_reverse_server_def listening_at_def start_server_def created_server_def
      Let_def nth_append)

text \<open>
  However often the panel's server is started and stopped, at most one server runs, and it
  is the one that \<open>get_reverse_server\<close> gives.
\<close>

theorem one_server_runs: "one_runs p \<Longrightarrow> one_runs (manage ms p)"
proof (induction ms arbitrary: p)
  case (Cons m ms)
  then show ?case by (cases m) (simp_all add: one_runs_start one_runs_stop)
qed simp

end
