(* ===== verification/Windows_Host.thy ===== *)
theory Windows_Host
  imports Time_Control
begin

text \<open>
  The host platform of Windows (\<open>src/kid_pc_monitor/platforms/windows.py\<close>): whether the
  session is locked, from the session flags or else from the process that shows the lock
  screen, whether it is the one at the console, and the requests to lock, to shut down and
  to show a message. The answers of the Windows API are a record of functions of whether
  the screen is locked, and of how often it was asked to lock it: \<open>LockWorkStation\<close> works
  asynchronously and may fail. What the agent has asked Windows to do is kept in the state.
\<close>

section \<open>The Windows API\<close>

text \<open>The answers of \<open>WTSQuerySessionInformationW\<close>: failed, too short, the session flags, an exception.\<close>

datatype wts_answer = Call_failed | Too_short | Session_flags int | Call_raises exn

text \<open>
  The version (None where \<open>sys.getwindowsversion\<close> is missing), the session flags, the own
  session (None when the call fails), the session at the console, the processes with their
  sessions (no list when there is no snapshot), the name of the computer; whether the screen
  is locked when the \<open>n\<close>-th call of \<open>LockWorkStation\<close> returns, whose result the agent ignores.
\<close>

record windows_api =
  wa_version :: "(nat \<times> nat) option"
  wa_session_info :: "bool \<Rightarrow> wts_answer"
  wa_own_session :: "nat option res"
  wa_console_session :: "nat res"
  wa_processes :: "bool \<Rightarrow> (pystr \<times> nat option) list option res"
  wa_node :: pystr
  wa_lock_effect :: "nat \<Rightarrow> bool"

datatype windows_call = Lock_work_station | System pystr | Message_box pystr pystr

record windows_state =
  ws_locked :: bool
  ws_calls :: "windows_call list"

definition WTS_SESSIONSTATE_LOCK :: int where "WTS_SESSIONSTATE_LOCK = 0"
definition WTS_SESSIONSTATE_UNLOCK :: int where "WTS_SESSIONSTATE_UNLOCK = 1"
definition WTS_SESSIONSTATE_UNKNOWN :: int where "WTS_SESSIONSTATE_UNKNOWN = 4294967295"

section \<open>Is the session locked?\<close>

definition wts_session_flags_inverted :: "windows_api \<Rightarrow> bool" where
  "wts_session_flags_inverted api \<longleftrightarrow> wa_version api = Some (6, 1)"

definition session_flags_indicate_locked :: "int \<Rightarrow> bool \<Rightarrow> bool option" where
  "session_flags_indicate_locked flags inverted =
     (if flags = WTS_SESSIONSTATE_UNKNOWN then None
      else if flags = WTS_SESSIONSTATE_LOCK then Some (\<not> inverted)
      else if flags = WTS_SESSIONSTATE_UNLOCK then Some inverted
      else None)"

definition query_session_locked_via_wts :: "windows_api \<Rightarrow> windows_state \<Rightarrow> bool option" where
  "query_session_locked_via_wts api s =
     (case wa_session_info api (ws_locked s) of
        Session_flags flags \<Rightarrow> session_flags_indicate_locked flags (wts_session_flags_inverted api)
      | _ \<Rightarrow> None)"

definition current_session_id :: "windows_api \<Rightarrow> nat option res" where
  "current_session_id api = wa_own_session api"

text \<open>The loop over the snapshot: a process of that name, in the session if one is given.\<close>

fun process_in_session :: "pystr \<Rightarrow> nat option \<Rightarrow> (pystr \<times> nat option) list \<Rightarrow> bool" where
  "process_in_session target session [] = False"
| "process_in_session target session ((name, pid_session) # rest) =
     (if lower name = target \<and> (session = None \<or> (pid_session \<noteq> None \<and> pid_session = session)) then True
      else process_in_session target session rest)"

definition process_exists_in_session :: "windows_api \<Rightarrow> windows_state \<Rightarrow> pystr \<Rightarrow> nat option \<Rightarrow> bool res" where
  "process_exists_in_session api s image_name session =
     rbind (wa_processes api (ws_locked s))
       (\<lambda>snapshot. case snapshot of
          None \<Rightarrow> Inr False
        | Some processes \<Rightarrow> Inr (process_in_session (lower image_name) session processes))"

definition windows_check_session_locked :: "windows_api \<Rightarrow> (windows_state, bool) act" where
  "windows_check_session_locked api s =
     (case query_session_locked_via_wts api s of
        Some b \<Rightarrow> (Inr b, s)
      | None \<Rightarrow>
          (case rbind (current_session_id api) (process_exists_in_session api s (lit ''LogonUI.exe'')) of
             Inr b \<Rightarrow> (Inr b, s)
           | Inl e \<Rightarrow> (Inr False, s)))"

section \<open>Is it ours?\<close>

definition NO_CONSOLE_SESSION :: nat where
  "NO_CONSOLE_SESSION = 4294967295"

definition unlocked :: "windows_api \<Rightarrow> (windows_state, bool) act" where
  "unlocked api = bind (windows_check_session_locked api) (\<lambda>b. ret (\<not> b))"

definition windows_session_is_active :: "windows_api \<Rightarrow> (windows_state, bool) act" where
  "windows_session_is_active api =
     (case wa_own_session api of
        Inl e \<Rightarrow> unlocked api
      | Inr None \<Rightarrow> unlocked api
      | Inr (Some own) \<Rightarrow>
          (case wa_console_session api of
             Inl e \<Rightarrow> unlocked api
           | Inr console \<Rightarrow>
               if console = NO_CONSOLE_SESSION \<or> console \<noteq> own then ret False else unlocked api))"

section \<open>Requests\<close>

definition asked :: "windows_call \<Rightarrow> (windows_state, unit) act" where
  "asked c = modify (\<lambda>s. s\<lparr>ws_calls := ws_calls s @ [c]\<rparr>)"

text \<open>How often the agent has called \<open>LockWorkStation\<close>.\<close>

definition lock_requests :: "windows_state \<Rightarrow> nat" where
  "lock_requests s = count_list (ws_calls s) Lock_work_station"

definition windows_lock_workstation :: "windows_api \<Rightarrow> (windows_state, unit) act" where
  "windows_lock_workstation api =
     bind (asked Lock_work_station)
       (\<lambda>_. modify (\<lambda>s. s\<lparr>ws_locked := ws_locked s \<or> wa_lock_effect api (lock_requests s)\<rparr>))"

definition windows_shutdown :: "int \<Rightarrow> (windows_state, unit) act" where
  "windows_shutdown seconds =
     asked (System (lit ''shutdown /s /t '' @ int_str seconds
       @ lit '' /c '' @ [34] @ lit ''Computer will shutdown in '' @ int_str seconds @ lit '' seconds'' @ [34]))"

definition windows_cancel_shutdown :: "(windows_state, unit) act" where
  "windows_cancel_shutdown = asked (System (lit ''shutdown /a''))"

definition windows_show_message :: "pystr \<Rightarrow> pystr \<Rightarrow> (windows_state, unit) act" where
  "windows_show_message message title = asked (Message_box title message)"

definition windows_platform :: "windows_api \<Rightarrow> windows_state platform" where
  "windows_platform api =
     \<lparr>p_check_session_locked = windows_check_session_locked api,
      p_session_is_active = windows_session_is_active api,
      p_lock_workstation = windows_lock_workstation api,
      p_shutdown = windows_shutdown,
      p_cancel_shutdown = windows_cancel_shutdown,
      p_show_message = windows_show_message,
      p_get_hostname = ret (wa_node api)\<rparr>"

section \<open>Facts\<close>

text \<open>
  What Microsoft documents of the session flags: 0 when locked and 1 when unlocked, the
  other way round on Windows 7.
\<close>

definition flags_as_documented :: "windows_api \<Rightarrow> bool" where
  "flags_as_documented api \<longleftrightarrow>
     (\<forall>locked. wa_session_info api locked =
        Session_flags (if locked = (wa_version api = Some (6, 1)) then WTS_SESSIONSTATE_UNLOCK else WTS_SESSIONSTATE_LOCK))"

text \<open>The session is the one at the console, as far as Windows can tell.\<close>

definition at_console :: "windows_api \<Rightarrow> bool" where
  "at_console api \<longleftrightarrow>
     (case (wa_own_session api, wa_console_session api) of
        (Inr (Some own), Inr console) \<Rightarrow> console = own \<and> console \<noteq> NO_CONSOLE_SESSION
      | _ \<Rightarrow> True)"

lemma check_session_locked_truthful:
  "flags_as_documented api \<Longrightarrow> windows_check_session_locked api s = (Inr (ws_locked s), s)"
  by (cases "ws_locked s")
    (auto simp: windows_check_session_locked_def query_session_locked_via_wts_def flags_as_documented_def
      session_flags_indicate_locked_def wts_session_flags_inverted_def WTS_SESSIONSTATE_LOCK_def
      WTS_SESSIONSTATE_UNLOCK_def WTS_SESSIONSTATE_UNKNOWN_def)

lemma session_is_active_truthful:
  "flags_as_documented api \<Longrightarrow> windows_session_is_active api s = (Inr (at_console api \<and> \<not> ws_locked s), s)"
  by (auto simp: windows_session_is_active_def unlocked_def check_session_locked_truthful at_console_def bind_def
      split: sum.split option.split)

text \<open>A Windows whose requests to lock are carried out before they return.\<close>

definition locks_at_once :: "windows_api \<Rightarrow> bool" where
  "locks_at_once api \<longleftrightarrow> (\<forall>n. wa_lock_effect api n)"

lemma windows_obedient:
  "flags_as_documented api \<Longrightarrow> locks_at_once api \<Longrightarrow> obedient (windows_platform api) ws_locked"
  by (simp add: obedient_def windows_platform_def check_session_locked_truthful session_is_active_truthful
      windows_lock_workstation_def windows_show_message_def asked_def locks_at_once_def)

text \<open>What the screen shows, and how often the agent has asked Windows to lock it.\<close>

definition screen_view :: "windows_state \<Rightarrow> bool \<times> nat" where
  "screen_view s = (ws_locked s, lock_requests s)"

lemma lock_requests_ask [simp]:
  "lock_requests (s\<lparr>ws_calls := ws_calls s @ [c]\<rparr>) = lock_requests s + (if c = Lock_work_station then 1 else 0)"
  "lock_requests (s\<lparr>ws_locked := b\<rparr>) = lock_requests s"
  by (simp_all add: lock_requests_def)

lemma enforce_on_windows:
  assumes "flags_as_documented api" and "e_platform env = windows_platform api"
  shows "screen_view (w_host (snd (enforce_lock_window env u))) =
    (if should_lock (world_lock_decision env u) \<and> \<not> ws_locked (w_host u)
     then (wa_lock_effect api (Suc (lock_requests (w_host u))), Suc (lock_requests (w_host u)))
     else screen_view (w_host u))"
proof (cases "should_lock (world_lock_decision env u)")
  case False
  then show ?thesis by (simp add: enforce_lock_window_def currently_in_lock_window_def)
next
  case True
  have check: "p_check_session_locked (e_platform env) s = (Inr (ws_locked s), s)" for s
    using check_session_locked_truthful [OF assms(1)] by (simp add: assms(2) windows_platform_def)
  obtain errs where "check_if_locked env u = (Inr (ws_locked (w_host u)), u\<lparr>w_step_errors := errs\<rparr>)"
    using check_if_locked_eq [of env u] by (auto simp: check screen_locked_def answer_def)
  then show ?thesis using True
    by (simp add: enforce_lock_window_def currently_in_lock_window_def bind_def [of "check_if_locked env"]
        lock_pc_def try_all_eq bind_def [of "on_host _"] on_host_eq assms(2) windows_platform_def
        windows_lock_workstation_def asked_def screen_view_def)
qed


section \<open>An evening on Windows 7\<close>

definition windows_seven :: windows_api where
  "windows_seven = \<lparr>wa_version = Some (6, 1), wa_session_info = (\<lambda>locked. Session_flags (if locked then 1 else 0)),
     wa_own_session = Inr (Some 1), wa_console_session = Inr 1, wa_processes = (\<lambda>_. Inr None), wa_node = lit ''kid'',
     wa_lock_effect = (\<lambda>_. True)\<rparr>"

definition windows_env :: "windows_state env" where
  "windows_env = \<lparr>e_python = e_python sample_env, e_platform = windows_platform windows_seven,
     e_store = e_store sample_env, e_monitored = e_monitored sample_env, e_exempt = e_exempt sample_env,
     e_log_path = e_log_path sample_env\<rparr>"

definition windows_evening :: "windows_state world" where
  "windows_evening = \<lparr>w_clock = DateTime (Date 2026 3 4) 21 0 0 0, w_disk = w_disk sample_world,
     w_host = \<lparr>ws_locked = False, ws_calls = []\<rparr>, w_daily = w_daily sample_world, w_runtime = w_runtime sample_world,
     w_last_tick_at = None, w_last_persist_at = None, w_is_locked = False, w_warnings_sent = {}, w_warnings_date = None,
     w_last_logged_reason = None, w_step_errors = (\<lambda>_. None), w_state_load_failed = False, w_log = Inr None\<rparr>"

lemma windows_seven_laws: "flags_as_documented windows_seven" "locks_at_once windows_seven"
  by (simp_all add: flags_as_documented_def windows_seven_def WTS_SESSIONSTATE_LOCK_def WTS_SESSIONSTATE_UNLOCK_def
      locks_at_once_def)

lemma evening_curfew:
  "should_lock (world_lock_decision windows_env (snd (tick_accumulator windows_env windows_evening)))"
proof -
  have r: "reset_runtime_if_needed (w_runtime windows_evening) (wake_time (w_daily windows_evening)) (w_clock windows_evening)
      = Inr (False, w_runtime windows_evening)"
    by (simp add: reset_runtime_if_needed_def runtime_state_is_current_def usage_period_date_def
        before_time_def sample_world_def windows_evening_def)
  obtain w' where t: "tick_accumulator windows_env windows_evening = (Inr (), w')"
    and same: "w_clock w' = w_clock windows_evening" "w_daily w' = w_daily windows_evening"
    using tick_rolled [OF r, of windows_env] accumulate_eq [of windows_env "w_clock windows_evening" "rolled_over (False, w_runtime windows_evening) windows_evening"]
    by auto
  have "should_lock (world_lock_decision windows_env w')"
    by (simp add: world_lock_decision_def should_lock_iff same)
      (simp add: windows_evening_def windows_env_def sample_world_def sample_env_def monitors_user_def
        should_monitor_user_def or_empty_def in_curfew_def is_in_bedtime_curfew_def minutes_since_midnight_def Let_def)
  then show ?thesis by (simp add: t)
qed


end
