(* ===== verification/Monitor_Loop.thy ===== *)
theory Monitor_Loop
  imports Windows_Host
begin

text \<open>
  The endless loops of the agent (\<open>run_monitor\<close> and \<open>monitor_activity\<close> of
  \<open>src/kid_pc_monitor/pc_time_control.py\<close>) and the choice of the host
  (\<open>get_default_platform\<close> of \<open>host_platform.py\<close>). What happens while a loop sleeps (the clock
  goes on, the child unlocks the screen, the parent's commands arrive on the other thread)
  is a list of changes of the world, one for each sleep.
\<close>

text \<open>The worlds after each step; a step that raises ends the thread.\<close>

fun run_monitor :: "'h env \<Rightarrow> ('h world \<Rightarrow> 'h world) list \<Rightarrow> 'h world \<Rightarrow> 'h world list" where
  "run_monitor env [] w = []"
| "run_monitor env (meanwhile # later) w =
     (case monitor_step env w of
        (Inr _, w') \<Rightarrow> w' # run_monitor env later (meanwhile w')
      | (Inl e, w') \<Rightarrow> [])"

fun monitor_activity :: "'h env \<Rightarrow> ('h world \<Rightarrow> 'h world) list \<Rightarrow> 'h world \<Rightarrow> 'h world list" where
  "monitor_activity env [] w = []"
| "monitor_activity env (meanwhile # later) w =
     (case observe_lock_state env w of
        (Inr _, w') \<Rightarrow> w' # monitor_activity env later (meanwhile w')
      | (Inl e, w') \<Rightarrow> [])"

definition get_default_platform :: "bool \<Rightarrow> windows_api \<Rightarrow> windows_state platform res" where
  "get_default_platform win32 api =
     (if win32 then Inr (windows_platform api) else Inl (HostError (lit ''NotImplementedError'')))"

text \<open>The world at the beginning of the \<open>i\<close>-th step.\<close>

fun before_step :: "'h world list \<Rightarrow> ('h world \<Rightarrow> 'h world) list \<Rightarrow> 'h world \<Rightarrow> nat \<Rightarrow> 'h world" where
  "before_step ws happens w 0 = w"
| "before_step ws happens w (Suc i) = (happens ! i) (ws ! i)"

lemma before_step_Cons:
  "before_step (v # ws) (h # hs) w (Suc i) = before_step ws hs (h v) i"
  by (cases i) simp_all

text \<open>
  C7. The monitor never stops enforcing: on a host that locks when asked and answers truly
  whether it is locked, every second has its step, whatever failed in the steps before, and
  whatever the child, the parent or the clock did meanwhile; and after each step the screen
  is locked exactly if it was before or the policy asks for a lock. So a child who unlocks
  the screen in the curfew is locked again at the next step.
\<close>

theorem monitor_never_stops_enforcing:
  assumes "obedient (e_platform env) locked"
  shows "length (run_monitor env happens w) = length happens
    \<and> (\<forall>i < length happens.
         let ws = run_monitor env happens w; v = before_step ws happens w i in
         locked (w_host (ws ! i)) \<longleftrightarrow>
           locked (w_host v) \<or> should_lock (world_lock_decision env (snd (tick_accumulator env v))))"
proof (induction happens arbitrary: w)
  case (Cons h hs)
  obtain w' where s: "monitor_step env w = (Inr (), w')"
    using monitor_step_phases [of env w] by metis
  then have r: "run_monitor env (h # hs) w = w' # run_monitor env hs (h w')" by simp
  have "locked (w_host w') \<longleftrightarrow> locked (w_host w) \<or> should_lock (world_lock_decision env (snd (tick_accumulator env w)))"
    using monitor_step_enforces [OF assms, of w] s by simp
  with Cons.IH [of "h w'"] show ?case
    unfolding r by (auto simp: Let_def before_step_Cons less_Suc_eq_0_disj simp del: before_step.simps(2))
qed simp

text \<open>The child unlocks the screen in the evening.\<close>

definition unlocking :: "windows_state world \<Rightarrow> windows_state world" where
  "unlocking w = w\<lparr>w_host := (w_host w)\<lparr>ws_locked := False\<rparr>\<rparr>"

theorem monitor_never_stops_enforcing_witness:
  "length (run_monitor windows_env [unlocking, unlocking] windows_evening) = 2
    \<and> ws_locked (w_host (run_monitor windows_env [unlocking, unlocking] windows_evening ! 0))"
proof -
  have ob: "obedient (e_platform windows_env) ws_locked"
    using windows_obedient [OF windows_seven_laws] by (simp add: windows_env_def)
  from monitor_never_stops_enforcing [OF ob, of "[unlocking, unlocking]" windows_evening] evening_curfew show ?thesis
    by (auto simp: Let_def dest: spec [of _ 0])
qed

end
