(* ===== verification/Agent_Process.thy ===== *)
theory Agent_Process
  imports Agent_Link Monitor_Loop
begin

text \<open>
  The agent as a process (\<open>main\<close> of \<open>src/kid_pc_monitor/pc_control.py\<close>): the thread that
  enforces the rules, the thread that watches the screen and the thread that answers the
  panel work on the same \<open>PCTimeControl\<close>, which has no lock. A phase of the monitor's step,
  a look at the screen and the handling of one request are the units here; they interleave
  in any order, and between them the child, the clock and the disk do what they like.
\<close>

section \<open>Starting\<close>

text \<open>
  \<open>_log_level_from_env\<close>: the attributes of \<open>logging\<close> in capitals; the one that is no number
  makes \<open>setLevel\<close> raise. \<open>upper\<close> is that of the words these can be compared with: the
  small letters, and the two other characters whose capital is an ASCII letter (U+0131 and
  U+017F); ligatures with such capitals spell no name of a level.
\<close>

definition upper_char :: "nat \<Rightarrow> nat" where
  "upper_char c = (if 97 \<le> c \<and> c \<le> 122 then c - 32 else if c = 305 then 73 else if c = 383 then 83 else c)"

definition level_names :: "(pystr \<times> int) list" where
  "level_names =
     [(lit ''CRITICAL'', 50), (lit ''FATAL'', 50), (lit ''ERROR'', 40), (lit ''WARNING'', 30), (lit ''WARN'', 30),
      (lit ''INFO'', 20), (lit ''DEBUG'', 10), (lit ''NOTSET'', 0)]"

definition log_level_from_env :: "pystr option \<Rightarrow> int res" where
  "log_level_from_env variable =
     (let raw = map upper_char (strip (case variable of Some v \<Rightarrow> v | None \<Rightarrow> lit ''INFO'')) in
      if raw = lit ''BASIC_FORMAT'' then Inl ValueError
      else Inr (case map_of level_names raw of Some level \<Rightarrow> level | None \<Rightarrow> 20))"

text \<open>
  What \<open>log_connectivity_diagnostics\<close> (\<open>agent_diagnostics.py\<close>) hands to the platform: the log
  file, the name \<open>logging\<close> has for the level (the first of its names), the interpreter. On a
  platform that does not override the hook nothing happens.
\<close>

definition level_name_of :: "int \<Rightarrow> pystr" where
  "level_name_of level =
     (case List.find (\<lambda>e. snd e = level \<and> fst e \<noteq> lit ''FATAL'' \<and> fst e \<noteq> lit ''WARN'') level_names of
        Some (n, _) \<Rightarrow> n | None \<Rightarrow> lit ''Level '' @ int_str level)"

definition log_connectivity_diagnostics ::
  "pystr option \<Rightarrow> pystr \<Rightarrow> pystr \<Rightarrow> (pystr \<Rightarrow> pystr \<Rightarrow> pystr \<Rightarrow> 's \<Rightarrow> 's) option \<Rightarrow> 's \<Rightarrow> 's res" where
  "log_connectivity_diagnostics variable log_name executable hook s =
     rbind (log_level_from_env variable)
       (\<lambda>level. Inr (case hook of None \<Rightarrow> s | Some h \<Rightarrow> h log_name (level_name_of level) executable s))"

lemma level_name_is_of_the_level:
  "log_level_from_env variable = Inr level \<Longrightarrow> map_of level_names (level_name_of level) = Some level"
  by (auto simp: log_level_from_env_def level_names_def level_name_of_def Let_def split: if_splits option.splits)

text \<open>
  \<open>main\<close> up to the waiting: the platform, the control object on what the disk and the host
  hold. The waiting ends with the interruption of the user, after which the reverse client
  is stopped, or with an exception.
\<close>

datatype waiting = Interrupted | Failed exn

definition start_agent ::
  "bool \<Rightarrow> windows_api \<Rightarrow> (windows_state platform \<Rightarrow> windows_state env) \<Rightarrow> datetime \<Rightarrow> disk \<Rightarrow> windows_state
    \<Rightarrow> bytes option res \<Rightarrow> windows_state world res" where
  "start_agent win32 api settings now d h logged =
     rbind (get_default_platform win32 api)
       (\<lambda>P. case init_control (settings P) now d h logged of (Inl e, w) \<Rightarrow> Inl e | (Inr _, w) \<Rightarrow> Inr w)"

definition exit_status :: "waiting \<Rightarrow> int" where
  "exit_status how = (case how of Interrupted \<Rightarrow> 0 | Failed e \<Rightarrow> 1)"

section \<open>The threads\<close>

text \<open>
  One of the four phases of the monitor's step, a look at the screen, a request that
  arrives (its text, the time, the time and the random bytes of the answer), and what
  happens outside: the clock, the host, the files and the log change.
\<close>

datatype 'h happens =
    Phase nat
  | Look
  | Arrives pystr int int bytes
  | Outside datetime 'h disk "bytes option res"

definition happen :: "'h env \<Rightarrow> pystr \<Rightarrow> 'h happens \<Rightarrow> 'h world \<Rightarrow> 'h world" where
  "happen env secret e w =
     (case e of
        Phase i \<Rightarrow> snd (run_phase env (phases env ! (i mod length (phases env))) w)
      | Look \<Rightarrow> snd (observe_lock_state env w)
      | Arrives body now sent random \<Rightarrow> snd (handle_request env body secret now sent random w)
      | Outside now h d logged \<Rightarrow> w\<lparr>w_clock := now, w_host := h, w_disk := d, w_log := logged\<rparr>)"

fun run_agent :: "'h env \<Rightarrow> pystr \<Rightarrow> 'h happens list \<Rightarrow> 'h world \<Rightarrow> 'h world" where
  "run_agent env secret [] w = w"
| "run_agent env secret (e # es) w = run_agent env secret es (happen env secret e w)"

text \<open>The four phases in order are the step.\<close>

lemma monitor_step_is_phases:
  fixes env :: "'b env"
  shows "run_agent env secret (map Phase [0, 1, 2, 3]) w = snd (monitor_step env w)"
proof -
  have p: "\<exists>v. run_phase env p u = (Inr (), v)" for p u
    using run_phase_eq [of env "fst p" "snd p"] by auto
  have q: "bind (run_phase env p) (\<lambda>_. m) u = m (snd (run_phase env p u))" for p m u
    using p [of p u] by (auto simp: bind_def)
  have "bind m ret = m" for m :: "('b world, unit) act"
    by (auto simp: bind_def fun_eq_iff split: prod.split sum.split)
  then show ?thesis by (simp add: monitor_step_def phases_def happen_def q)
qed

section \<open>The parent's rules\<close>

text \<open>
  The specification: the rules the child is under are those of the commands that arrived
  under the agent's secret, one after another, a repeated delivery included.
\<close>

fun change_rules :: "command \<Rightarrow> daily_settings \<Rightarrow> daily_settings" where
  "change_rules (Limit m) d = d\<lparr>allowance := m\<rparr>"
| "change_rules (Bed t) d = d\<lparr>bed_time := t\<rparr>"
| "change_rules (Wake t) d = d\<lparr>wake_time := t\<rparr>"
| "change_rules c d = d"

definition command_in :: "'h env \<Rightarrow> pystr \<Rightarrow> pystr \<Rightarrow> pystr \<Rightarrow> int \<Rightarrow> command option" where
  "command_in env secret n body now =
     (case parse_request (e_python env) body secret n now of
        Inl e \<Rightarrow> None
      | Inr req \<Rightarrow>
          if raction req \<in> set settings_actions
          then (case command_of req of Inr c \<Rightarrow> Some c | Inl e \<Rightarrow> None) else None)"

fun parents_commands :: "'h env \<Rightarrow> pystr \<Rightarrow> pystr \<Rightarrow> 'h happens list \<Rightarrow> command list" where
  "parents_commands env secret n [] = []"
| "parents_commands env secret n (Arrives body now sent random # es) =
     (case command_in env secret n body now of
        Some c \<Rightarrow> c # parents_commands env secret n es
      | None \<Rightarrow> parents_commands env secret n es)"
| "parents_commands env secret n (e # es) = parents_commands env secret n es"

lemma par_daily_obey: "par_daily (obey now c p) = change_rules c (par_daily p)"
  by (cases c) (simp_all add: Let_def)

text \<open>What leaves the rules alone, once the state has been loaded.\<close>

definition same_rules :: "'h world \<Rightarrow> 'h world \<Rightarrow> bool" where
  "same_rules w w' \<longleftrightarrow>
     w_clock w' = w_clock w \<and>
     (\<not> w_state_load_failed w \<longrightarrow> \<not> w_state_load_failed w' \<and> w_daily w' = w_daily w)"

interpretation rules: step_relation same_rules
  by unfold_locales (auto simp: same_rules_def)

lemma rules_on_host: "keeps same_rules (on_host m)" and rules_on_disk: "keeps same_rules (on_disk k)"
  by (simp_all add: keeps_def on_host_eq on_disk_eq same_rules_def)

lemma rules_query: "keeps same_rules (guarded_query env name query fallback)"
  unfolding keeps_def
proof
  fix w
  obtain errs where "snd (guarded_query env name query fallback w)
      = w\<lparr>w_host := snd (query (w_host w)), w_step_errors := errs\<rparr>"
    using guarded_query_eq [of env name query fallback w] by auto
  then show "same_rules w (snd (guarded_query env name query fallback w))" by (simp add: same_rules_def)
qed

lemma rules_of_policy: "keeps same_policy m \<Longrightarrow> (\<And>w. w_state_load_failed (snd (m w)) = w_state_load_failed w) \<Longrightarrow> keeps same_rules m"
  by (auto simp: keeps_def same_policy_def same_rules_def)

lemma rules_tick: "keeps same_rules (tick_accumulator env)"
  unfolding tick_accumulator_def accumulate_def reset_runtime_def currently_in_lock_window_def
    session_is_active_def set_runtime_def
  by (intro rules.keeps_rules rules_query) (simp_all add: same_rules_def)

lemma rules_warnings: "keeps same_rules (check_and_send_warnings env)"
proof -
  have "keeps same_rules (send_first_warning env t ms)" for t ms
  proof (induction ms)
    case Nil
    show ?case unfolding send_first_warning.simps by (rule rules.keeps_pure)
  next
    case (Cons m ms)
    show ?case unfolding send_first_warning.simps show_message_def
      by (intro rules.keeps_rules rules_on_host Cons.IH) (simp add: same_rules_def)
  qed
  then show ?thesis
    unfolding check_and_send_warnings_def
    by (intro rules.keeps_rules) (simp_all add: same_rules_def keeps_def get_time_remaining_def)
qed

lemma rules_enforce: "keeps same_rules (enforce_lock_window env)"
  unfolding enforce_lock_window_def currently_in_lock_window_def check_if_locked_def lock_pc_def try_all_def
  by (intro rules.keeps_rules rules_query rules_on_host) (simp_all add: same_rules_def)

lemma rules_store: "keeps same_rules store_state"
  unfolding store_state_def set_runtime_def try_all_def
  by (intro rules.keeps_rules rules_on_disk) (simp_all add: same_rules_def)

lemma clock_stays: "w_clock (snd (load_state env w)) = w_clock w" "w_clock (snd (store_state w)) = w_clock w"
proof -
  show "w_clock (snd (load_state env w)) = w_clock w"
    by (auto simp: load_state_def try_all_eq bind_def on_disk_eq split: prod.split sum.split)
  show "w_clock (snd (store_state w)) = w_clock w"
    using rules_store [unfolded keeps_def, THEN spec, of w] by (simp add: same_rules_def)
qed

lemma rules_save: "keeps same_rules (save_state env)"
  unfolding keeps_def
proof
  fix w
  show "same_rules w (snd (save_state env w))"
  proof (cases "w_state_load_failed w")
    case True
    obtain r u where l: "load_state env w = (r, u)" by force
    then have "w_clock u = w_clock w" using clock_stays(1) [of env w] by simp
    then have "w_clock (snd (save_state env w)) = w_clock w"
      using True l clock_stays(2) [of u] by (cases r) (simp_all add: save_state_def bind_def)
    then show ?thesis using True by (simp add: same_rules_def)
  next
    case False
    then show ?thesis using rules_store [unfolded keeps_def, THEN spec, of w] by (simp add: save_state_def)
  qed
qed

lemma rules_persist: "keeps same_rules (persist_if_due env)"
  unfolding persist_if_due_def Let_def by (intro rules.keeps_rules rules_save) (simp_all add: same_rules_def)

lemma rules_phase:
  assumes "p \<in> set (phases env)"
  shows "keeps same_rules (run_phase env p)"
proof -
  have "keeps same_rules (snd p)"
    using assms rules_tick rules_warnings rules_enforce rules_persist by (auto simp: phases_def)
  moreover have "keeps same_rules (note_failure key msg)" "keeps same_rules (note_recovered key)" for key msg
    unfolding note_failure_def note_recovered_def by (intro rules.keeps_modify; simp add: same_rules_def)+
  ultimately show ?thesis
    unfolding run_phase_def try_all_def by (intro rules.keeps_rules)
qed

lemma rules_look: "keeps same_rules (observe_lock_state env)"
  unfolding observe_lock_state_def check_if_locked_def
  by (intro rules.keeps_rules rules_query) (simp_all add: same_rules_def)

lemma rules_of_request:
  assumes "named (e_platform env) n" and "prev_day (date_of (w_clock w)) = Inr y" and "valid_date (date_of (w_clock w))"
    and "\<not> w_state_load_failed w"
  shows "w_clock (snd (handle_request env body secret now sent random w)) = w_clock w"
    and "\<not> w_state_load_failed (snd (handle_request env body secret now sent random w))"
    and "w_daily (snd (handle_request env body secret now sent random w))
      = (case command_in env secret n body now of Some c \<Rightarrow> change_rules c (w_daily w) | None \<Rightarrow> w_daily w)"
proof -
  let ?w = "snd (handle_request env body secret now sent random w)"
  have "w_clock ?w = w_clock w \<and> \<not> w_state_load_failed ?w
      \<and> w_daily ?w = (case command_in env secret n body now of Some c \<Rightarrow> change_rules c (w_daily w) | None \<Rightarrow> w_daily w)"
  proof (cases "parse_request (e_python env) body secret n now")
    case (Inl e)
    have "?w = w"
    proof (cases "peek_version body")
      case (Inl e')
      then show ?thesis by (simp add: handle_request_named [OF assms(1)])
    next
      case (Inr v)
      then show ?thesis using handle_request_state [OF assms(1) Inr] Inl by simp
    qed
    then show ?thesis using Inl assms(4) by (simp add: command_in_def)
  next
    case (Inr req)
    obtain v where "peek_version body = Inr v" using accepted_authentic [OF Inr] peek_version_parsed by blast
    then have w: "?w = snd (dispatch env req w)" using handle_request_state [OF assms(1)] Inr by simp
    show ?thesis
    proof (cases "raction req \<in> set settings_actions")
      case True
      have d: "par_daily (parental_of u) = w_daily u" for u :: "'a world" by (simp add: parental_of_def)
      from dispatch_executes [OF assms(2-4) True, of env] show ?thesis
        unfolding w executes_def command_in_def Inr
        using True assms(4) d par_daily_obey
        by (auto simp: save_tried_def split: sum.splits) (metis d par_daily_obey)
    next
      case False
      have "same_but_host w (snd (dispatch env req w))"
        using host_only_dispatch [OF False, of env] by (simp add: keeps_def)
      then have e: "(snd (dispatch env req w))\<lparr>w_host := w_host w, w_step_errors := w_step_errors w\<rparr> = w"
        by (simp add: same_but_host_def)
      have "w_clock (snd (dispatch env req w)) = w_clock w" "w_daily (snd (dispatch env req w)) = w_daily w"
        "w_state_load_failed (snd (dispatch env req w)) = w_state_load_failed w"
        using arg_cong [OF e, of w_clock] arg_cong [OF e, of w_daily] arg_cong [OF e, of w_state_load_failed] by simp_all
      then show ?thesis unfolding w using False Inr assms(4) by (simp add: command_in_def)
    qed
  qed
  then show "w_clock ?w = w_clock w" "\<not> w_state_load_failed ?w"
    "w_daily ?w = (case command_in env secret n body now of Some c \<Rightarrow> change_rules c (w_daily w) | None \<Rightarrow> w_daily w)"
    by blast+
qed

text \<open>A clock that shows a day of the calendar with a day before it.\<close>

definition sound_clock :: "datetime \<Rightarrow> bool" where
  "sound_clock t \<longleftrightarrow> valid_date (date_of t) \<and> (\<exists>y. prev_day (date_of t) = Inr y)"

fun sound_outside :: "'h happens \<Rightarrow> bool" where
  "sound_outside (Outside now h d logged) \<longleftrightarrow> sound_clock now"
| "sound_outside _ \<longleftrightarrow> True"

text \<open>
  C3. The rules are made by signed requests only: once the agent could read its files (before
  that, a later successful reading replaces the rules), on a host that tells its name and a clock
  that shows days of the calendar, after any interleaving of the agent's threads with whatever
  else happens (the child's doings on the host and on the files, changes of the clock, failing
  queries, requests that were forged, altered, out of date or refused), the limit, the bedtime and
  the wake-up time are those that the commands of the requests signed with the agent's secret,
  addressed to it and fresh on arrival made, one after another, of the rules at the start. A
  signed request that was captured counts as a command each time it is delivered within its window:
  the agent remembers no nonce, so the protocol does not keep such replays out.
\<close>

theorem rules_are_the_parents:
  assumes "named (e_platform env) n" and "\<not> w_state_load_failed w" and "sound_clock (w_clock w)"
    and "\<forall>e \<in> set es. sound_outside e"
  shows "w_daily (run_agent env secret es w) = fold change_rules (parents_commands env secret n es) (w_daily w)"
  using assms(2-4)
proof (induction es arbitrary: w)
  case (Cons e es)
  let ?w = "happen env secret e w"
  note later = Cons.IH [of ?w]
  show ?case
  proof (cases e)
    case (Phase i)
    have "phases env ! (i mod length (phases env)) \<in> set (phases env)"
      by (rule nth_mem) (simp add: phases_def)
    from rules_phase [OF this] have "same_rules w ?w" using Phase by (simp add: keeps_def happen_def)
    then show ?thesis using later Cons.prems Phase by (simp add: same_rules_def)
  next
    case Look
    have "same_rules w ?w" using rules_look [of env, unfolded keeps_def, THEN spec, of w] Look by (simp add: happen_def)
    then show ?thesis using later Cons.prems Look by (simp add: same_rules_def)
  next
    case (Arrives body now sent random)
    obtain y where y: "prev_day (date_of (w_clock w)) = Inr y" "valid_date (date_of (w_clock w))"
      using Cons.prems(2) by (auto simp: sound_clock_def)
    show ?thesis
      using later Cons.prems rules_of_request [OF assms(1) y Cons.prems(1), of body secret now sent random]
      by (simp add: Arrives happen_def split: option.split)
  next
    case (Outside now h d logged)
    then show ?thesis using later Cons.prems by (simp add: happen_def)
  qed
qed simp

text \<open>The parent allows ninety minutes; the child then unlocks the screen and deletes the log.\<close>

definition limit_request :: "pystr res" where
  "limit_request = build_request (e_python sample_env) (lit ''key'') (lit ''set'') (Some (lit ''daily_limit'')) (Some (PInt 90))
     None (Some (lit ''kid'')) 1000 sample_nonce 3 None"

definition child_acts :: "pystr \<Rightarrow> bool happens list" where
  "child_acts body =
     [Phase 0, Arrives body 1030 1030 sample_random, Phase 1,
      Outside (w_clock sample_world) False (w_disk sample_world) (Inr None), Look, Phase 2, Phase 3]"

lemma limit_command: "limit_request = Inr body \<Longrightarrow> command_in sample_env (lit ''key'') (lit ''kid'') body 1030 = Some (Limit (Some 90))"
proof -
  assume b: "limit_request = Inr body"
  have "sendable (lit ''kid'') (lit ''set'') (Some (lit ''daily_limit'')) (Some (PInt 90)) (Some (lit ''kid'')) None"
    by (simp add: sendable_def ACTIONS_def WRITE_ACTIONS_def ok_val_def VARIABLES_def)
  note p = built_request_parses [OF b [unfolded limit_request_def] this sample_stamp]
  show ?thesis
    unfolding command_in_def p
    by (simp add: settings_actions_def command_of_def set_command_def in_vars_def WRITABLE_VARIABLES_def val_or_none_def
        minutes_of_def parse_int_def MAX_PARSED_INT_def check_minutes_def MIN_DAILY_LIMIT_def MAX_DAILY_LIMIT_def)
qed

theorem rules_are_the_parents_witness:
  "\<exists>body. limit_request = Inr body
     \<and> allowance (w_daily (run_agent sample_env (lit ''key'') (child_acts body) sample_world)) = Some 90"
proof -
  obtain body where b: "limit_request = Inr body"
    using build_request_total [of "lit ''set''" "Some (lit ''daily_limit'')" "Some (PInt 90)" None "Some (lit ''kid'')" 1000
        sample_nonce None "lit ''key''" "e_python sample_env"]
    by (auto simp: limit_request_def request_nodes_def sample_nonce_def)
  have c: "sound_clock (w_clock sample_world)" using sample_clock by (auto simp: sound_clock_def)
  then have "\<forall>e \<in> set (child_acts body). sound_outside e" by (simp add: child_acts_def)
  from rules_are_the_parents [OF sample_named sample_clock(4) c this, of "lit ''key''"]
  have "w_daily (run_agent sample_env (lit ''key'') (child_acts body) sample_world)
      = fold change_rules [Limit (Some 90)] (w_daily sample_world)"
    by (simp add: child_acts_def limit_command [OF b])
  then have "allowance (w_daily (run_agent sample_env (lit ''key'') (child_acts body) sample_world)) = Some 90" by simp
  with b show ?thesis by blast
qed

end
