(* ===== verification/Panel_Connection.thy ===== *)
theory Panel_Connection
  imports Agent_Link
begin

text \<open>
  The rest of \<open>src/kid_pc_monitor/agent_sync_client.py\<close>: how the connection to the panel is
  opened, with TLS when the panel's address asks for it, and how the client is stopped.
\<close>

section \<open>Opening\<close>

text \<open>
  The network as one call of \<open>_open_reverse_socket\<close> finds it: what the first and the second
  attempt to connect give, and how the handshakes with and without verification end.
\<close>

datatype handshake = Accepted | Ssl_error pystr | Breaks exn

record network =
  nw_connect :: "nat \<Rightarrow> unit res"
  nw_verified :: handshake
  nw_unverified :: handshake

datatype channel = Clear | Verified | Unverified

definition open_reverse_socket :: "network \<Rightarrow> bool \<Rightarrow> channel res" where
  "open_reverse_socket nw use_tls =
     rbind (nw_connect nw 0)
       (\<lambda>_. if \<not> use_tls then Inr Clear
          else case nw_verified nw of
            Accepted \<Rightarrow> Inr Verified
          | Breaks e \<Rightarrow> Inl e
          | Ssl_error m \<Rightarrow>
              rbind (nw_connect nw 1)
                (\<lambda>_. case nw_unverified nw of
                   Accepted \<Rightarrow> Inr Unverified
                 | Ssl_error m' \<Rightarrow> Inl (OSError m')
                 | Breaks e \<Rightarrow> Inl e))"

text \<open>Surroundings in which connections are opened that way.\<close>

definition opens_with :: "(pystr \<Rightarrow> int \<Rightarrow> network) \<Rightarrow> surroundings \<Rightarrow> surroundings" where
  "opens_with net su = su\<lparr>su_open := (\<lambda>host port use_tls. rbind (open_reverse_socket (net host port) use_tls) (\<lambda>_. Inr ()))\<rparr>"

text \<open>
  A panel reached by \<open>https\<close> is never talked to in the clear; without verification only if
  the verification failed.
\<close>

theorem https_is_never_clear:
  assumes "open_reverse_socket nw use_tls = Inr ch"
  shows "(ch = Clear \<longleftrightarrow> \<not> use_tls) \<and> (ch = Unverified \<longrightarrow> (\<exists>m. nw_verified nw = Ssl_error m))"
  using assms
  by (auto simp: open_reverse_socket_def rbind_eq_Inr_iff split: if_splits handshake.splits)

text \<open>
  And that is all it takes: whoever answers at the address, with any certificate, gets the
  connection. What comes over it is only believed with the secret's signature
  (Control_Server).
\<close>

lemma any_certificate_will_do:
  assumes "\<And>i. nw_connect nw i = Inr ()" and "nw_verified nw = Ssl_error m" and "nw_unverified nw = Accepted"
  shows "open_reverse_socket nw True = Inr Unverified"
  using assms by (simp add: open_reverse_socket_def)

section \<open>Stopping\<close>

text \<open>\<open>AgentReverseClient\<close>: the client with the flag of its loop and its socket.\<close>

record 'h reverse_client =
  rc_running :: bool
  rc_socket_open :: bool
  rc_client :: "'h client"

definition stop_client :: "'h reverse_client \<Rightarrow> 'h reverse_client" where
  "stop_client rc = rc\<lparr>rc_running := False, rc_socket_open := False\<rparr>"

text \<open>
  \<open>run\<close>: cycles until it is stopped; with each comes whether it is stopped during it. The
  socket of a cycle is closed at its end.
\<close>

fun run_reverse_client ::
  "'h env \<Rightarrow> (surroundings \<times> 'h turn list \<times> bool) list \<Rightarrow> 'h reverse_client \<Rightarrow> rat list \<times> 'h reverse_client" where
  "run_reverse_client env [] rc = ([], rc)"
| "run_reverse_client env ((su, turns, stopped) # cycles) rc =
     (if \<not> rc_running rc then ([], rc)
      else case try_all (connect_once env su turns) (\<lambda>_. ret 15) (rc_client rc) of
        (Inl e, c) \<Rightarrow> ([], rc\<lparr>rc_client := c, rc_socket_open := False\<rparr>)
      | (Inr delay, c) \<Rightarrow>
          (let rc' = rc\<lparr>rc_client := c, rc_socket_open := False\<rparr> in
           case run_reverse_client env cycles (if stopped then stop_client rc' else rc') of
             (delays, rc'') \<Rightarrow> (if stopped then delays else delay # delays, rc'')))"

lemma cycle_returns: "\<exists>d c'. try_all m (\<lambda>_. ret x) c = (Inr d, c')"
  by (cases "m c"; cases "fst (m c)") (auto simp: try_all_eq)

text \<open>It does what \<open>run_client\<close> does, up to the cycle in which it is stopped.\<close>

theorem reverse_client_runs_until_stopped:
  assumes "rc_running rc" and "\<forall>(su, turns, stopped) \<in> set cycles. \<not> stopped"
  shows "run_client env (map (\<lambda>(su, turns, stopped). (su, turns)) cycles) (rc_client rc)
      = (Inr (fst (run_reverse_client env cycles rc)), rc_client (snd (run_reverse_client env cycles rc)))
    \<and> rc_running (snd (run_reverse_client env cycles rc))"
  using assms
proof (induction cycles arbitrary: rc)
  case (Cons cycle cycles)
  obtain su turns where cycle: "cycle = (su, turns, False)" using Cons.prems(2) by (cases cycle) auto
  obtain d c where t: "try_all (connect_once env su turns) (\<lambda>_. ret 15) (rc_client rc) = (Inr d, c)"
    using cycle_returns [of "connect_once env su turns" 15 "rc_client rc"] by blast
  show ?case using Cons.IH [of "rc\<lparr>rc_client := c, rc_socket_open := False\<rparr>"] Cons.prems t
    by (auto simp: cycle bind_def Let_def split: prod.splits)
qed simp

lemma stopped_client_is_idle:
  "\<not> rc_running rc \<Longrightarrow> run_reverse_client env cycles rc = ([], rc)"
  by (cases "(env, cycles, rc)" rule: run_reverse_client.cases) simp_all

section \<open>The first that answers keeps the agent\<close>

text \<open>
  Discovery is not authenticated, and a panel that lets itself be connected to is never
  questioned: as long as connections to it succeed, the agent keeps it, whatever happens on
  them, even if every one is closed at once and another panel is on the network.
\<close>

lemma connected_keeps_panel:
  assumes "cl_panel_url c = Some url" and "reverse_endpoint (su_fetch su) url = Inr (h, p, tls)"
    and "su_open su h p tls = Inr ()"
  shows "cl_panel_url (snd (connect_once env su turns c)) = Some url"
proof -
  have o: "open_connection su url c = (Inr True, c)"
    using assms(2,3) by (simp add: open_connection_def try_with_def)
  have k: "known_panel su c = (Inr (Some url), c)" using assms(1) by (simp add: known_panel_def)
  have z: "cl_panel_url (snd (zoom cl_world (\<lambda>w c. c\<lparr>cl_world := w\<rparr>) m c)) = Some url" for m :: "('a world, bytes list) act"
    using assms(1) by (simp add: zoom_def split: prod.split)
  show ?thesis
  proof (cases "su_secret su")
    case (Inl e)
    then show ?thesis using assms(1) by (simp add: connect_once_def)
  next
    case (Inr stored)
    show ?thesis
    proof (cases "stored = None \<or> stored = Some []")
      case True
      then show ?thesis using assms(1) Inr by (auto simp: connect_once_def)
    next
      case False
      then obtain secret where s: "stored = Some secret" "secret \<noteq> []" by (cases stored) auto
      obtain r c' where zr: "zoom cl_world (\<lambda>w c. c\<lparr>cl_world := w\<rparr>) (serve_connection env secret turns) c = (r, c')" by force
      then show ?thesis using z [of "serve_connection env secret turns"] Inr s k o
        by (cases r) (simp_all add: connect_once_def bind_def [of "known_panel su"] bind_def [of "open_connection su url"]
          bind_def [of "zoom _ _ _"] bind_def [of "bind _ _"])
    qed
  qed
qed

theorem false_panel_keeps_the_agent:
  assumes "cl_panel_url c = Some url"
    and "\<forall>(su, turns) \<in> set cycles. \<exists>h p tls. reverse_endpoint (su_fetch su) url = Inr (h, p, tls) \<and> su_open su h p tls = Inr ()"
  shows "cl_panel_url (snd (run_client env cycles c)) = Some url"
  using assms
proof (induction cycles arbitrary: c)
  case (Cons cycle cycles)
  obtain su turns where cycle: "cycle = (su, turns)" by fastforce
  obtain r c1 where r: "connect_once env su turns c = (r, c1)" by fastforce
  obtain h p tls where o: "reverse_endpoint (su_fetch su) url = Inr (h, p, tls)" "su_open su h p tls = Inr ()"
    using Cons.prems(2) cycle by auto
  have "cl_panel_url c1 = Some url"
    using connected_keeps_panel [OF Cons.prems(1) o, of env turns] r by simp
  moreover have "\<exists>d. try_all (connect_once env su turns) (\<lambda>_. ret 15) c = (Inr d, c1)"
    using r by (cases r) (simp_all add: try_all_eq)
  ultimately show ?case using Cons.IH [of c1] Cons.prems(2) cycle
    by (auto simp: bind_def split: prod.split sum.split)
qed simp

end
