(* ===== verification/Text_Lines.thy ===== *)
theory Text_Lines
  imports PyText
begin

text \<open>
  Cutting texts the way Python's methods do: \<open>splitlines\<close>, \<open>split\<close> at blanks or at a
  character, \<open>partition\<close>; the inputs are the outputs of system tools and configuration files.
\<close>

section \<open>Operations\<close>

definition is_line_break :: "nat \<Rightarrow> bool" where
  "is_line_break c \<longleftrightarrow> (10 \<le> c \<and> c \<le> 13) \<or> (28 \<le> c \<and> c \<le> 30) \<or> c = 133 \<or> c = 8232 \<or> c = 8233"

text \<open>\<open>text.splitlines()\<close>, with the line read so far.\<close>

fun lines_from :: "pystr \<Rightarrow> pystr \<Rightarrow> pystr list" where
  "lines_from line [] = (if line = [] then [] else [line])"
| "lines_from line (c # cs) =
     (if c = 13 then line # (case cs of d # ds \<Rightarrow> if d = 10 then lines_from [] ds else lines_from [] cs | [] \<Rightarrow> [])
      else if is_line_break c then line # lines_from [] cs
      else lines_from (line @ [c]) cs)"

definition splitlines :: "pystr \<Rightarrow> pystr list" where
  "splitlines text = lines_from [] text"

text \<open>\<open>text.split()\<close>.\<close>

fun words_from :: "pystr \<Rightarrow> pystr \<Rightarrow> pystr list" where
  "words_from word [] = (if word = [] then [] else [word])"
| "words_from word (c # cs) =
     (if is_space c then (if word = [] then words_from [] cs else word # words_from [] cs)
      else words_from (word @ [c]) cs)"

definition split_words :: "pystr \<Rightarrow> pystr list" where
  "split_words text = words_from [] text"

text \<open>\<open>text.split(c)\<close> and \<open>text.partition(c)\<close>.\<close>

fun split_at :: "nat \<Rightarrow> pystr \<Rightarrow> pystr list" where
  "split_at sep [] = [[]]"
| "split_at sep (c # cs) =
     (if c = sep then [] # split_at sep cs
      else case split_at sep cs of [] \<Rightarrow> [[c]] | s # ss \<Rightarrow> (c # s) # ss)"

definition partition_at :: "nat \<Rightarrow> pystr \<Rightarrow> pystr \<times> bool \<times> pystr" where
  "partition_at sep text =
     (takeWhile (\<lambda>c. c \<noteq> sep) text, sep \<in> set text, drop 1 (dropWhile (\<lambda>c. c \<noteq> sep) text))"

text \<open>\<open>text.strip(chars)\<close>.\<close>

definition strip_of :: "nat set \<Rightarrow> pystr \<Rightarrow> pystr" where
  "strip_of chars text = rev (dropWhile (\<lambda>c. c \<in> chars) (rev (dropWhile (\<lambda>c. c \<in> chars) text)))"

definition starts_with :: "pystr \<Rightarrow> pystr \<Rightarrow> bool" where
  "starts_with p text \<longleftrightarrow> take (length p) text = p"

section \<open>Facts\<close>

lemma split_at_none: "sep \<notin> set a \<Longrightarrow> split_at sep a = [a]"
  by (induction a) auto

named_theorems cut_simps "cutting concrete texts"

definition plain_word :: "pystr \<Rightarrow> bool" where
  "plain_word w \<longleftrightarrow> w \<noteq> [] \<and> list_all (\<lambda>c. \<not> is_space c) w"

lemma is_line_break_space: "is_line_break c \<Longrightarrow> is_space c"
  by (auto simp: is_line_break_def is_space_def)

lemma words_from_word:
  "list_all (\<lambda>c. \<not> is_space c) w \<Longrightarrow> words_from v (w @ cs) = words_from (v @ w) cs"
  by (induction w arbitrary: v) auto

lemma words_from_space: "is_space c \<Longrightarrow> word \<noteq> [] \<Longrightarrow> words_from word (c # cs) = word # words_from [] cs"
  by simp

lemma split_words_word [cut_simps]:
  "plain_word w \<Longrightarrow> is_space c \<Longrightarrow> split_words (w @ c # cs) = w # split_words cs"
  by (simp add: split_words_def plain_word_def words_from_word)

lemma split_words_last [cut_simps]: "plain_word w \<Longrightarrow> split_words w = [w]"
  using words_from_word [of w "[]" "[]"] by (simp add: split_words_def plain_word_def)

text \<open>A text with a blank and a word appended has that word after its own.\<close>

lemma words_from_snoc:
  assumes "plain_word w"
  shows "words_from v (cs @ 32 # w) = words_from v cs @ [w]"
proof (induction cs arbitrary: v)
  case Nil
  have "is_space 32" by (simp add: is_space_def)
  moreover have "words_from [] w = [w]"
    using split_words_last [OF assms] by (simp add: split_words_def)
  ultimately show ?case by simp
qed auto

lemma split_words_snoc: "plain_word w \<Longrightarrow> split_words (cs @ 32 # w) = split_words cs @ [w]"
  by (simp add: split_words_def words_from_snoc)

lemma split_words_appended:
  "list_all plain_word ws \<Longrightarrow> split_words (cs @ concat (map (\<lambda>w. 32 # w) ws)) = split_words cs @ ws"
proof (induction ws arbitrary: cs)
  case (Cons w ws)
  then have "split_words ((cs @ 32 # w) @ concat (map (\<lambda>w. 32 # w) ws)) = split_words (cs @ 32 # w) @ ws"
    by (intro Cons.IH) simp
  then show ?case using Cons.prems by (simp add: split_words_snoc)
qed simp

lemma lines_from_line:
  "list_all (\<lambda>c. \<not> is_line_break c) l \<Longrightarrow> lines_from v (l @ cs) = lines_from (v @ l) cs"
proof (induction l arbitrary: v)
  case (Cons c l)
  then have "c \<noteq> 13" "\<not> is_line_break c" by (auto simp: is_line_break_def)
  then show ?case using Cons by simp
qed simp

text \<open>A text that ends with a line break and has full lines appended has those lines after its own.\<close>

definition plain_line :: "pystr \<Rightarrow> bool" where
  "plain_line l \<longleftrightarrow> l \<noteq> [] \<and> list_all (\<lambda>c. \<not> is_line_break c) l"

lemma one_line: "plain_line l \<Longrightarrow> lines_from [] (l @ [10]) = [l]"
  using lines_from_line [of l "[]" "[10]"] by (simp add: plain_line_def is_line_break_def)

lemma lines_from_snoc:
  assumes "plain_line l" and "cs \<noteq> [] \<and> is_line_break (last cs)"
  shows "lines_from v (cs @ l @ [10]) = lines_from v cs @ [l]"
  using assms(2)
proof (induction v cs rule: lines_from.induct)
  case (2 v c cs)
  obtain d ds where l: "l = d # ds" "d \<noteq> 10" using assms(1) by (cases l) (auto simp: plain_line_def is_line_break_def)
  show ?case
  proof (cases "cs = []")
    case True
    then show ?thesis using 2 one_line [OF assms(1)] l by (auto simp: is_line_break_def)
  next
    case False
    then obtain e es where cs: "cs = e # es" by (cases cs) auto
    show ?thesis
    proof (cases "c = 13 \<and> e = 10 \<and> es = []")
      case True
      then show ?thesis using cs one_line [OF assms(1)] by simp
    next
      case other: False
      then show ?thesis using 2 cs False by (auto split: if_splits)
    qed
  qed
qed simp

lemma splitlines_appended:
  assumes "list_all plain_line ls" and "cs = [] \<or> is_line_break (last cs)"
  shows "splitlines (cs @ concat (map (\<lambda>l. l @ [10]) ls)) = splitlines cs @ ls"
  using assms
proof (induction ls arbitrary: cs)
  case (Cons l ls)
  have "splitlines (cs @ l @ [10]) = splitlines cs @ [l]"
    using Cons.prems one_line [of l] lines_from_snoc [of l cs "[]"] by (cases "cs = []") (simp_all add: splitlines_def)
  moreover have "splitlines ((cs @ l @ [10]) @ concat (map (\<lambda>l. l @ [10]) ls)) = splitlines (cs @ l @ [10]) @ ls"
    by (rule Cons.IH) (use Cons.prems in \<open>simp_all add: is_line_break_def\<close>)
  ultimately show ?case by simp
qed simp

end
