(* ===== verification/Firewall.thy ===== *)
theory Firewall
  imports Panel_Data Text_Lines
begin

text \<open>
  Advice of the panel's installer (\<open>src/kid_pc_monitor/linux_firewall.py\<close>, and from
  \<open>src/kid_pc_monitor/network.py\<close> the interface of the default route): whether an active
  firewall blocks the panel's ports, and which commands would open them. What a command
  prints and what a file holds are the functions \<open>run\<close> and \<open>read\<close>, as in the source.
\<close>

section \<open>Reports\<close>

datatype firewall_status = No_firewall | Open | Blocked | Unknown

record firewall_report =
  fr_status :: firewall_status
  fr_firewall :: "pystr option"
  fr_blocked_ports :: "int list"
  fr_commands :: "pystr list list"
  fr_detail :: pystr

type_synonym runner = "pystr list \<Rightarrow> int \<times> pystr"
type_synonym reader = "pystr \<Rightarrow> pystr option"

definition UFW_CONF :: pystr where "UFW_CONF = lit ''/etc/ufw/ufw.conf''"
definition UFW_DEFAULTS :: pystr where "UFW_DEFAULTS = lit ''/etc/default/ufw''"
definition UFW_USER_RULES :: pystr where "UFW_USER_RULES = lit ''/etc/ufw/user.rules''"

definition RAW_FIREWALL_SERVICES :: "pystr list" where
  "RAW_FIREWALL_SERVICES = [lit ''nftables'', lit ''iptables'', lit ''netfilter-persistent'']"

section \<open>Reading specifications\<close>

text \<open>\<open>_port_spec_covers\<close>: the specification lets TCP connections to the port in.\<close>

definition port_spec_covers :: "pystr \<Rightarrow> int \<Rightarrow> bool" where
  "port_spec_covers spec port =
     (let (number, _, proto) = partition_at 47 spec in
      if proto \<noteq> [] \<and> proto \<noteq> lit ''tcp'' \<and> proto \<noteq> lit ''any'' then False
      else if lower number = lit ''any'' \<or> lower number = lit ''anywhere'' then True
      else
        let (low, sep, high) = partition_at 45 (map (\<lambda>c. if c = 58 then 45 else c) number) in
        case int_of_text low of
          Inl _ \<Rightarrow> False
        | Inr l \<Rightarrow>
            if sep then (case int_of_text high of Inl _ \<Rightarrow> False | Inr h \<Rightarrow> l \<le> port \<and> port \<le> h)
            else l = port)"

fun shell_value_in :: "pystr \<Rightarrow> pystr list \<Rightarrow> pystr option" where
  "shell_value_in key [] = None"
| "shell_value_in key (line # rest) =
     (let (name, sep, val) = partition_at 61 (strip line) in
      if sep \<and> name = key then Some (strip_of {34, 39} (strip val)) else shell_value_in key rest)"

definition shell_config_value :: "pystr \<Rightarrow> pystr \<Rightarrow> pystr option" where
  "shell_config_value text key = shell_value_in key (splitlines text)"

definition blocked_ports :: "pystr list \<Rightarrow> int list \<Rightarrow> int list" where
  "blocked_ports specs ports = filter (\<lambda>p. \<not> list_ex (\<lambda>s. port_spec_covers s p) specs) ports"

text \<open>\<open>f"{p}/tcp"\<close>.\<close>

definition tcp_spec :: "int \<Rightarrow> pystr" where
  "tcp_spec p = int_str p @ lit ''/tcp''"

section \<open>firewalld\<close>

definition firewalld_zone :: "runner \<Rightarrow> pystr option \<Rightarrow> pystr option" where
  "firewalld_zone run iface =
     (let of_iface =
        (case iface of
           None \<Rightarrow> None
         | Some i \<Rightarrow>
             if i = [] then None
             else (case run [lit ''firewall-cmd'', lit ''--get-zone-of-interface='' @ i] of
                     (status, out) \<Rightarrow> if status = 0 \<and> strip out \<noteq> [] then Some (strip out) else None))
      in case of_iface of
           Some z \<Rightarrow> Some z
         | None \<Rightarrow>
             (case run [lit ''firewall-cmd'', lit ''--get-default-zone''] of
                (status, out) \<Rightarrow> if status = 0 \<and> strip out \<noteq> [] then Some (strip out) else None))"

definition list_ports_command :: "pystr \<Rightarrow> pystr list" where
  "list_ports_command zone = [lit ''firewall-cmd'', lit ''--zone='' @ zone, lit ''--list-ports'']"

definition check_firewalld :: "runner \<Rightarrow> int list \<Rightarrow> pystr option \<Rightarrow> firewall_report option" where
  "check_firewalld run ports iface =
     (case run [lit ''firewall-cmd'', lit ''--state''] of
        (status, out) \<Rightarrow>
          if status \<noteq> 0 \<or> strip out \<noteq> lit ''running'' then None
          else
            let unknown = \<lparr>fr_status = Unknown, fr_firewall = Some (lit ''firewalld''), fr_blocked_ports = [],
                  fr_commands = [[lit ''sudo'', lit ''firewall-cmd'', lit ''--list-all'']],
                  fr_detail = lit ''firewalld is running, but its rules could not be read without root.''\<rparr>
            in case firewalld_zone run iface of
                 None \<Rightarrow> Some unknown
               | Some zone \<Rightarrow>
                   (case run (list_ports_command zone) of
                      (list_status, listed) \<Rightarrow>
                        if list_status \<noteq> 0 then Some unknown
                        else
                          let blocked = blocked_ports (split_words listed) ports in
                          if blocked = []
                          then Some \<lparr>fr_status = Open, fr_firewall = Some (lit ''firewalld''), fr_blocked_ports = [],
                                 fr_commands = [], fr_detail = lit ''zone '' @ zone\<rparr>
                          else Some \<lparr>fr_status = Blocked, fr_firewall = Some (lit ''firewalld''),
                                 fr_blocked_ports = blocked,
                                 fr_commands =
                                   [[lit ''sudo'', lit ''firewall-cmd'', lit ''--zone='' @ zone, lit ''--permanent'']
                                      @ map (\<lambda>p. lit ''--add-port='' @ tcp_spec p) blocked,
                                    [lit ''sudo'', lit ''firewall-cmd'', lit ''--reload'']],
                                 fr_detail = lit ''zone '' @ zone\<rparr>))"

section \<open>ufw\<close>

definition rule_specs :: "pystr \<Rightarrow> pystr list" where
  "rule_specs line =
     (let fields = split_words line in
      if take 3 fields \<noteq> [lit ''###'', lit ''tuple'', lit ''###''] \<or> length fields < 6 then []
      else if fields ! 3 \<noteq> lit ''allow'' \<or> last fields \<noteq> lit ''in'' then []
      else map (\<lambda>p. p @ 47 # fields ! 4) (split_at 44 (fields ! 5)))"

definition ufw_allowed_specs_from_rules :: "pystr \<Rightarrow> pystr list" where
  "ufw_allowed_specs_from_rules text = concat (map rule_specs (splitlines text))"

text \<open>
  A line of \<open>ufw status\<close>, matched by \<open>^(\S+)\s+(?:\(v6\)\s+)?ALLOW(?: IN)?\s\<close>: a word at the
  start of the line, blanks, perhaps \<open>(v6)\<close> and blanks, and \<open>ALLOW\<close> before a blank.
\<close>

definition allows :: "pystr \<Rightarrow> bool" where
  "allows rest \<longleftrightarrow>
     starts_with (lit ''ALLOW'') rest \<and> (case drop 5 rest of [] \<Rightarrow> False | c # _ \<Rightarrow> is_space c)"

definition status_specs :: "pystr \<Rightarrow> pystr list" where
  "status_specs line =
     (let word = takeWhile (\<lambda>c. \<not> is_space c) line;
          gap = dropWhile (\<lambda>c. \<not> is_space c) line;
          rest = dropWhile is_space gap;
          after_v6 = drop 4 rest
      in if word \<noteq> [] \<and> gap \<noteq> []
            \<and> (allows rest
               \<or> (starts_with (lit ''(v6)'') rest \<and> (case after_v6 of [] \<Rightarrow> False | c # _ \<Rightarrow> is_space c)
                  \<and> allows (dropWhile is_space after_v6)))
         then split_at 44 word else [])"

definition ufw_allowed_specs_from_status :: "pystr \<Rightarrow> pystr list" where
  "ufw_allowed_specs_from_status text = concat (map status_specs (splitlines text))"

definition ufw_allow_commands :: "int list \<Rightarrow> pystr list list" where
  "ufw_allow_commands ports = map (\<lambda>p. [lit ''sudo'', lit ''ufw'', lit ''allow'', tcp_spec p]) ports"

definition ufw_enabled :: "reader \<Rightarrow> bool" where
  "ufw_enabled read \<longleftrightarrow>
     (case read UFW_CONF of
        None \<Rightarrow> False
      | Some conf \<Rightarrow>
          lower (case shell_config_value conf (lit ''ENABLED'') of Some v \<Rightarrow> v | None \<Rightarrow> []) = lit ''yes'')"

definition check_ufw :: "runner \<Rightarrow> reader \<Rightarrow> int list \<Rightarrow> firewall_report option" where
  "check_ufw run read ports =
     (if \<not> ufw_enabled read then None
      else
        let defaults = (case read UFW_DEFAULTS of Some t \<Rightarrow> t | None \<Rightarrow> []) in
        if shell_config_value defaults (lit ''DEFAULT_INPUT_POLICY'') = Some (lit ''ACCEPT'')
        then Some \<lparr>fr_status = Open, fr_firewall = Some (lit ''ufw''), fr_blocked_ports = [], fr_commands = [],
               fr_detail = lit ''default incoming policy is allow''\<rparr>
        else
          let specs = (case read UFW_USER_RULES of
              Some rules \<Rightarrow> Some (ufw_allowed_specs_from_rules rules)
            | None \<Rightarrow>
                (case run [lit ''sudo'', lit ''-n'', lit ''ufw'', lit ''status''] of
                   (status, out) \<Rightarrow> if status = 0 then Some (ufw_allowed_specs_from_status out) else None))
          in case specs of
               None \<Rightarrow>
                 Some \<lparr>fr_status = Unknown, fr_firewall = Some (lit ''ufw''), fr_blocked_ports = ports,
                   fr_commands = ufw_allow_commands ports,
                   fr_detail = lit ''ufw is enabled, but its rules could not be read without root.''\<rparr>
             | Some ss \<Rightarrow>
                 let blocked = blocked_ports ss ports in
                 if blocked = []
                 then Some \<lparr>fr_status = Open, fr_firewall = Some (lit ''ufw''), fr_blocked_ports = [],
                        fr_commands = [], fr_detail = []\<rparr>
                 else Some \<lparr>fr_status = Blocked, fr_firewall = Some (lit ''ufw''), fr_blocked_ports = blocked,
                        fr_commands = ufw_allow_commands blocked, fr_detail = []\<rparr>)"

section \<open>Raw rules, and the whole check\<close>

fun check_raw_in :: "runner \<Rightarrow> pystr list \<Rightarrow> firewall_report option" where
  "check_raw_in run [] = None"
| "check_raw_in run (service # services) =
     (case run [lit ''systemctl'', lit ''is-active'', service @ lit ''.service''] of
        (status, out) \<Rightarrow>
          if status = 0 \<and> strip out = lit ''active''
          then Some \<lparr>fr_status = Unknown, fr_firewall = Some service, fr_blocked_ports = [],
                 fr_commands = [[lit ''sudo'', lit ''nft'', lit ''list'', lit ''ruleset'']],
                 fr_detail = lit ''The '' @ service @ lit '' service is active; its rules can only be read as root.''\<rparr>
          else check_raw_in run services)"

definition check_raw_services :: "runner \<Rightarrow> firewall_report option" where
  "check_raw_services run = check_raw_in run RAW_FIREWALL_SERVICES"

definition check_firewall :: "runner \<Rightarrow> reader \<Rightarrow> int list \<Rightarrow> pystr option \<Rightarrow> firewall_report" where
  "check_firewall run read ports iface =
     (case check_firewalld run ports iface of
        Some r \<Rightarrow> r
      | None \<Rightarrow>
          (case check_ufw run read ports of
             Some r \<Rightarrow> r
           | None \<Rightarrow>
               (case check_raw_services run of
                  Some r \<Rightarrow> r
                | None \<Rightarrow> \<lparr>fr_status = No_firewall, fr_firewall = None, fr_blocked_ports = [],
                    fr_commands = [], fr_detail = []\<rparr>)))"

definition can_offer_fix :: "firewall_report \<Rightarrow> bool" where
  "can_offer_fix r \<longleftrightarrow>
     (if fr_status r = Blocked then fr_firewall r \<in> {Some (lit ''ufw''), Some (lit ''firewalld'')}
      else fr_status r = Unknown \<and> fr_firewall r = Some (lit ''ufw''))"

text \<open>
  \<open>_offer_to_run\<close>: what the user answers (None at the end of the input) decides whether the
  commands are run; the first that fails ends it. \<open>exec\<close> runs a command on the computer.
\<close>

fun run_commands :: "(pystr list \<Rightarrow> 's \<Rightarrow> int \<times> 's) \<Rightarrow> pystr list list \<Rightarrow> 's \<Rightarrow> int \<times> 's" where
  "run_commands exec [] s = (0, s)"
| "run_commands exec (c # cs) s =
     (case exec c s of (status, s') \<Rightarrow> if status \<noteq> 0 then (status, s') else run_commands exec cs s')"

definition offer_to_run ::
  "(pystr list \<Rightarrow> 's \<Rightarrow> int \<times> 's) \<Rightarrow> pystr option \<Rightarrow> firewall_report \<Rightarrow> 's \<Rightarrow> int \<times> 's" where
  "offer_to_run exec answer r s =
     (if \<not> can_offer_fix r then (0, s)
      else
        case answer of
          None \<Rightarrow> (0, s)
        | Some a \<Rightarrow>
            if lower (strip a) = lit ''y'' \<or> lower (strip a) = lit ''yes'' then run_commands exec (fr_commands r) s
            else (0, s))"

section \<open>The interface of the default route\<close>

text \<open>A line of \<open>/proc/net/route\<close>: the interface and metric of a default route that is up.\<close>

definition default_route :: "pystr \<Rightarrow> (pystr \<times> int) option" where
  "default_route line =
     (let fields = split_words line in
      if length fields < 8 \<or> fields ! 1 \<noteq> lit ''00000000'' then None
      else
        case (int_of_hex (fields ! 3), int_of_text (fields ! 6)) of
          (Inr flags, Inr metric) \<Rightarrow> if flags mod 2 = 1 then Some (fields ! 0, metric) else None
        | _ \<Rightarrow> None)"

fun best_route :: "(pystr \<times> int) option \<Rightarrow> pystr list \<Rightarrow> (pystr \<times> int) option" where
  "best_route best [] = best"
| "best_route best (line # rest) =
     best_route
       (case default_route line of
          None \<Rightarrow> best
        | Some (iface, metric) \<Rightarrow>
            (case best of
               None \<Rightarrow> Some (iface, metric)
             | Some (_, m) \<Rightarrow> if metric < m then Some (iface, metric) else best)) rest"

definition linux_default_interface_from_proc :: "pystr \<Rightarrow> pystr option" where
  "linux_default_interface_from_proc proc_text = map_option fst (best_route None (drop 1 (splitlines proc_text)))"

end
