(* ===== verification/Firewall_Fix.thy ===== *)
theory Firewall_Fix
  imports Firewall
begin

text \<open>
  What the firewall advice is worth: the commands suggested for a blocked port open it, and
  nothing is suggested that is not needed.
\<close>

section \<open>A suggested port is covered\<close>

lemma ascii_decimal_digit: "is_digit c \<Longrightarrow> ascii_decimal c = c"
  by (simp add: is_digit_def ascii_decimal_def decimal_zeros_def)

lemma dec_digits_plain: "\<forall>c \<in> set ds. is_digit c \<Longrightarrow> dec_digits a ds = Some (foldl (\<lambda>a c. 10 * a + (c - 48)) a ds)"
  by (induction ds arbitrary: a) (auto simp: is_digit_def)

lemma int_of_text_nat_str:
  assumes "n < 10 ^ max_str_digits"
  shows "int_of_text (nat_str n) = Inr (int n)"
proof -
  have d: "\<forall>c \<in> set (nat_str n). is_digit c" by (rule is_digit_nat_str)
  then have "map ascii_decimal (nat_str n) = nat_str n" by (intro map_idI) (simp add: ascii_decimal_digit)
  moreover have "strip (nat_str n) = nat_str n"
    using d is_digit_not_space by (intro strip_id) auto
  moreover have "length (filter is_digit (nat_str n)) \<le> max_str_digits"
    using nat_str_length_le [OF assms] d by (simp add: max_str_digits_def)
  moreover obtain c cs where n: "nat_str n = c # cs" "c \<noteq> 95"
    using d by (cases "nat_str n") (auto simp: is_digit_def dest: arg_cong [where f = length])
  moreover have "sign_split (c # cs) = (False, c # cs)" using sign_split_nat_str [of n] n by simp
  moreover have "dec_digits 0 (nat_str n) = Some n"
    using dec_digits_plain [OF d] digits_val_nat_str [of n] by (simp add: digits_val_def)
  ultimately show ?thesis by (simp add: int_of_text_def)
qed

lemma partition_at_append:
  assumes "sep \<notin> set a"
  shows "partition_at sep (a @ sep # b) = (a, True, b)"
proof -
  have "takeWhile (\<lambda>c. c \<noteq> sep) (a @ sep # b) = a" by (rule takeWhile_append_stop) (use assms in auto)
  moreover have "dropWhile (\<lambda>c. c \<noteq> sep) (a @ sep # b) = sep # b" by (rule dropWhile_append_stop) (use assms in auto)
  ultimately show ?thesis by (simp add: partition_at_def)
qed

lemma partition_at_none: "sep \<notin> set a \<Longrightarrow> partition_at sep a = (a, False, [])"
proof -
  assume "sep \<notin> set a"
  then have "takeWhile (\<lambda>c. c \<noteq> sep) a = a" "dropWhile (\<lambda>c. c \<noteq> sep) a = []"
    by (auto simp: takeWhile_eq_all_conv dropWhile_eq_Nil_conv)
  then show ?thesis using \<open>sep \<notin> set a\<close> by (simp only: partition_at_def drop_Nil)
qed

text \<open>The ports of the panel: numbers of the range TCP has.\<close>

definition tcp_port :: "int \<Rightarrow> bool" where
  "tcp_port p \<longleftrightarrow> 0 \<le> p \<and> p < 65536"

lemma digits_no_letters: "\<forall>c \<in> set ds. is_digit c \<Longrightarrow> lower ds = ds"
  by (induction ds) (auto simp: lower_def lower_char_def is_digit_def)

lemma tcp_port_digits: "tcp_port p \<Longrightarrow> int_str p = nat_str (nat p)"
  by (simp add: tcp_port_def int_str_def)

lemma port_spec_covers_itself:
  assumes "tcp_port p"
  shows "port_spec_covers (tcp_spec p) p"
proof -
  let ?n = "nat_str (nat p)"
  have d: "\<forall>c \<in> set ?n. is_digit c" by (rule is_digit_nat_str)
  then have c: "c \<noteq> 47 \<and> c \<noteq> 45 \<and> c \<noteq> 58" if "c \<in> set ?n" for c using that by (auto simp: is_digit_def)
  have "partition_at 47 (tcp_spec p) = (?n, True, lit ''tcp'')"
    using partition_at_append [of 47 ?n "lit ''tcp''"] c
    by (auto simp: tcp_spec_def tcp_port_digits [OF assms] lit_def)
  moreover have "map (\<lambda>c. if c = 58 then 45 else c) ?n = ?n" using c by (intro map_idI) auto
  moreover have "partition_at 45 ?n = (?n, False, [])" using c by (intro partition_at_none) auto
  moreover have "lower ?n \<noteq> lit w" if "w \<noteq> []" "\<not> is_digit (hd (lit w))" for w
    using that d digits_no_letters [OF d] by (metis hd_in_set lit_eq_Nil_iff)
  moreover have "nat p < 10 ^ max_str_digits"
  proof -
    have "nat p < 10 ^ 5" using assms by (simp add: tcp_port_def nat_less_iff)
    also have "(10::nat) ^ 5 \<le> 10 ^ max_str_digits" by (rule power_increasing) (simp_all add: max_str_digits_def)
    finally show ?thesis .
  qed
  ultimately show ?thesis
    using assms int_of_text_nat_str [of "nat p"]
    by (simp add: port_spec_covers_def tcp_port_def)
qed

lemma blocked_ports_subset: "set (blocked_ports specs ports) \<subseteq> set ports"
  by (auto simp: blocked_ports_def)

text \<open>Specifications that cover all that were blocked leave nothing blocked.\<close>

lemma blocked_ports_opened:
  assumes "list_all tcp_port ports" "set (map tcp_spec (blocked_ports specs ports)) \<subseteq> set wide" "set specs \<subseteq> set wide"
  shows "blocked_ports wide ports = []"
proof -
  have "\<exists>s \<in> set wide. port_spec_covers s p" if "p \<in> set ports" for p
  proof (cases "p \<in> set (blocked_ports specs ports)")
    case True
    then show ?thesis using assms(1,2) that port_spec_covers_itself by (auto simp: list_all_iff)
  next
    case False
    then show ?thesis using assms(3) that by (auto simp: blocked_ports_def list_ex_iff)
  qed
  then show ?thesis by (auto simp: blocked_ports_def list_ex_iff filter_empty_conv)
qed

lemma plain_word_tcp_spec: "tcp_port p \<Longrightarrow> plain_word (tcp_spec p)"
  using is_digit_nat_str [of "nat p"] is_digit_not_space
  by (auto simp: plain_word_def tcp_spec_def tcp_port_digits list_all_iff lit_def is_space_def)

section \<open>The suggested commands help\<close>

text \<open>
  After \<open>firewall-cmd --add-port\<close> and a reload, the zone lists the added ports after its own.
\<close>

definition ports_added :: "runner \<Rightarrow> pystr \<Rightarrow> int list \<Rightarrow> runner" where
  "ports_added run zone ps =
     run (list_ports_command zone := (0, snd (run (list_ports_command zone)) @ concat (map (\<lambda>w. 32 # w) (map tcp_spec ps))))"

lemma ports_added_other:
  "length c \<noteq> 3 \<Longrightarrow> ports_added run zone ps c = run c"
  by (auto simp: ports_added_def list_ports_command_def)

lemma firewalld_zone_same: "firewalld_zone (ports_added run zone ps) iface = firewalld_zone run iface"
  by (simp add: firewalld_zone_def ports_added_other split: option.split)

lemma check_firewalld_status:
  assumes "run [lit ''firewall-cmd'', lit ''--state''] = (0, out)" "strip out = lit ''running''"
    "firewalld_zone run iface = Some zone" "run (list_ports_command zone) = (0, listed)"
  shows "map_option fr_status (check_firewalld run ports iface)
    = Some (if blocked_ports (split_words listed) ports = [] then Open else Blocked)"
  using assms by (simp add: check_firewalld_def Let_def)


text \<open>What \<open>ufw allow p/tcp\<close> writes into the rules.\<close>

definition ufw_rule :: "int \<Rightarrow> pystr" where
  "ufw_rule p = lit ''### tuple ### allow tcp '' @ int_str p @ lit '' 0.0.0.0/0 any 0.0.0.0/0 in''"

lemma split_words_lits:
  "plain_word w \<Longrightarrow> split_words (w @ lit (CHR '' '' # s)) = w # split_words (lit s)"
  using split_words_word [of w 32 "lit s"] by (simp add: lit_def is_space_def)

lemma ufw_rule_words:
  assumes "tcp_port p"
  shows "split_words (ufw_rule p) = map lit [''###'', ''tuple'', ''###'', ''allow'', ''tcp''] @ [int_str p]
    @ map lit [''0.0.0.0/0'', ''any'', ''0.0.0.0/0'', ''in'']"
proof -
  have d: "\<forall>c \<in> set (int_str p). is_digit c" using assms is_digit_nat_str by (simp add: tcp_port_digits)
  then have w: "plain_word (int_str p)" by (auto simp: plain_word_def list_all_iff is_digit_not_space)
  have "split_words (lit ''0.0.0.0/0 any 0.0.0.0/0 in'') = map lit [''0.0.0.0/0'', ''any'', ''0.0.0.0/0'', ''in'']"
    by (simp add: split_words_def lit_def is_space_def)
  then have "split_words (int_str p @ lit '' 0.0.0.0/0 any 0.0.0.0/0 in'')
      = int_str p # map lit [''0.0.0.0/0'', ''any'', ''0.0.0.0/0'', ''in'']"
    using split_words_lits [OF w, of "''0.0.0.0/0 any 0.0.0.0/0 in''"] by simp
  then show ?thesis
    by (simp add: ufw_rule_def split_words_def) (simp add: lit_def is_space_def)
qed

lemma ufw_rule_specs:
  assumes "tcp_port p"
  shows "rule_specs (ufw_rule p) = [tcp_spec p]"
proof -
  have "44 \<notin> set (int_str p)" using assms is_digit_nat_str [of "nat p"] by (auto simp: tcp_port_digits is_digit_def)
  then show ?thesis
    unfolding rule_specs_def ufw_rule_words [OF assms]
    by (simp add: split_at_none tcp_spec_def) (simp add: lit_def)
qed

lemma concat_rule_specs: "list_all tcp_port ps \<Longrightarrow> concat (map rule_specs (map ufw_rule ps)) = map tcp_spec ps"
  by (induction ps) (simp_all add: ufw_rule_specs)

lemma ufw_rule_plain:
  assumes "tcp_port p"
  shows "plain_line (ufw_rule p)"
proof -
  have "list_all (\<lambda>c. \<not> is_line_break c) (int_str p)"
    using assms is_digit_nat_str [of "nat p"] by (auto simp: tcp_port_digits list_all_iff is_digit_def is_line_break_def)
  moreover have "list_all (\<lambda>c. \<not> is_line_break c) (lit ''### tuple ### allow tcp '')"
    "list_all (\<lambda>c. \<not> is_line_break c) (lit '' 0.0.0.0/0 any 0.0.0.0/0 in'')"
    by (simp_all add: lit_def is_line_break_def)
  ultimately show ?thesis by (simp add: plain_line_def ufw_rule_def)
qed

text \<open>
  The advice for ufw works: when the check reports blocked ports from the rules it could
  read, it suggests to allow just them, and with the rules these commands add to the file
  the check reports that every port is open.
\<close>

theorem ufw_advice_opens_the_ports:
  assumes "check_ufw run read ports = Some r" and "fr_status r = Blocked" and "list_all tcp_port ports"
    and "read UFW_USER_RULES = Some rules" and "rules = [] \<or> last rules = 10"
  shows "set (fr_blocked_ports r) \<subseteq> set ports
    \<and> fr_commands r = map (\<lambda>p. [lit ''sudo'', lit ''ufw'', lit ''allow'', tcp_spec p]) (fr_blocked_ports r)
    \<and> map_option fr_status (check_ufw run
        (read(UFW_USER_RULES \<mapsto> rules @ concat (map (\<lambda>p. ufw_rule p @ [10]) (fr_blocked_ports r)))) ports) = Some Open"
proof -
  let ?specs = "ufw_allowed_specs_from_rules rules"
  let ?blocked = "blocked_ports ?specs ports"
  let ?read = "read(UFW_USER_RULES \<mapsto> rules @ concat (map (\<lambda>p. ufw_rule p @ [10]) ?blocked))"
  have on: "ufw_enabled read" using assms(1) by (auto simp: check_ufw_def split: if_splits)
  have r: "fr_blocked_ports r = ?blocked" "fr_commands r = ufw_allow_commands ?blocked"
    using assms(1,2,4) on by (auto simp: check_ufw_def Let_def split: if_splits)
  have deny: "shell_config_value (case read UFW_DEFAULTS of Some t \<Rightarrow> t | None \<Rightarrow> []) (lit ''DEFAULT_INPUT_POLICY'')
      \<noteq> Some (lit ''ACCEPT'')"
    using assms(1,2) on by (auto simp: check_ufw_def Let_def)
  have files: "?read UFW_CONF = read UFW_CONF" "?read UFW_DEFAULTS = read UFW_DEFAULTS"
    by (simp_all add: UFW_CONF_def UFW_DEFAULTS_def UFW_USER_RULES_def)
  have ports: "list_all tcp_port ?blocked"
    using assms(3) blocked_ports_subset by (auto simp: list_all_iff)
  then have "list_all plain_line (map ufw_rule ?blocked)" by (auto simp: list_all_iff ufw_rule_plain)
  then have "splitlines (rules @ concat (map (\<lambda>l. l @ [10]) (map ufw_rule ?blocked))) = splitlines rules @ map ufw_rule ?blocked"
    by (rule splitlines_appended) (use assms(5) in \<open>auto simp: is_line_break_def\<close>)
  moreover have "concat (map rule_specs (map ufw_rule ?blocked)) = map tcp_spec ?blocked"
    using ports by (rule concat_rule_specs)
  ultimately have "ufw_allowed_specs_from_rules (rules @ concat (map (\<lambda>p. ufw_rule p @ [10]) ?blocked))
      = ?specs @ map tcp_spec ?blocked"
    by (simp add: ufw_allowed_specs_from_rules_def comp_def)
  then have "blocked_ports (ufw_allowed_specs_from_rules (the (?read UFW_USER_RULES))) ports = []"
    by (intro blocked_ports_opened [OF assms(3), of ?specs]) simp_all
  then have "map_option fr_status (check_ufw run ?read ports) = Some Open"
    using on deny files by (simp add: check_ufw_def ufw_enabled_def Let_def)
  then show ?thesis using r blocked_ports_subset [of ?specs ports] by (simp add: ufw_allow_commands_def)
qed

section \<open>A computer with a firewall\<close>

definition sample_run :: runner where
  "sample_run c =
     (if c = [lit ''firewall-cmd'', lit ''--state''] then (0, lit ''running'' @ [10])
      else if c = [lit ''firewall-cmd'', lit ''--get-default-zone''] then (0, lit ''public'' @ [10])
      else if c = list_ports_command (lit ''public'') then (0, lit ''5353/udp'')
      else (127, []))"

definition sample_read :: reader where
  "sample_read = [UFW_CONF \<mapsto> lit ''ENABLED=yes'' @ [10], UFW_USER_RULES \<mapsto> lit ''### RULES ###'' @ [10]]"


theorem ufw_advice_opens_the_ports_witness:
  "\<exists>r. check_ufw sample_run sample_read [5000, 9998] = Some r
    \<and> map_option fr_status (check_ufw sample_run
        (sample_read(UFW_USER_RULES \<mapsto> (lit ''### RULES ###'' @ [10]) @ concat (map (\<lambda>p. ufw_rule p @ [10]) (fr_blocked_ports r))))
        [5000, 9998]) = Some Open"
proof -
  have "sample_read UFW_CONF = Some (lit ''ENABLED=yes'' @ [10])"
    by (simp add: sample_read_def UFW_CONF_def UFW_USER_RULES_def)
  then have "ufw_enabled sample_read"
    by (simp add: ufw_enabled_def shell_config_value_def lower_def)
      (simp add: splitlines_def strip_def partition_at_def strip_of_def lit_def is_line_break_def is_space_def lower_char_def)
  moreover have "ufw_allowed_specs_from_rules (lit ''### RULES ###'' @ [10]) = []"
    by (simp add: ufw_allowed_specs_from_rules_def splitlines_def lit_def is_line_break_def rule_specs_def
        split_words_def is_space_def)
  moreover have "sample_read UFW_DEFAULTS = None" "sample_read UFW_USER_RULES = Some (lit ''### RULES ###'' @ [10])"
    by (simp_all add: sample_read_def UFW_DEFAULTS_def UFW_USER_RULES_def UFW_CONF_def)
  ultimately have "map_option fr_status (check_ufw sample_run sample_read [5000, 9998]) = Some Blocked"
    by (simp add: check_ufw_def blocked_ports_def Let_def shell_config_value_def splitlines_def)
  then obtain r where r: "check_ufw sample_run sample_read [5000, 9998] = Some r" "fr_status r = Blocked" by auto
  have "sample_read UFW_USER_RULES = Some (lit ''### RULES ###'' @ [10])" by (simp add: sample_read_def)
  from ufw_advice_opens_the_ports [OF r _ this] r(1) show ?thesis by (auto simp: tcp_port_def)
qed

section \<open>The interface of the default route\<close>

definition routes :: "pystr list \<Rightarrow> (pystr \<times> int) list" where
  "routes lines = List.map_filter default_route lines"

text \<open>The first of the entries whose metric is the least.\<close>

definition least_route :: "(pystr \<times> int) list \<Rightarrow> (pystr \<times> int) option" where
  "least_route rs = List.find (\<lambda>r. \<forall>q \<in> set rs. snd r \<le> snd q) rs"

lemma find_eq_cong: "(\<And>x. x \<in> set xs \<Longrightarrow> P x = Q x) \<Longrightarrow> List.find P xs = List.find Q xs"
  by (induction xs) auto

lemma least_route_two:
  "least_route (r # q # rest) = least_route ((if snd q < snd r then q else r) # rest)"
proof (cases "snd q < snd r")
  case True
  have "List.find (\<lambda>x. \<forall>y \<in> set (r # q # rest). snd x \<le> snd y) (q # rest)
      = List.find (\<lambda>x. \<forall>y \<in> set (q # rest). snd x \<le> snd y) (q # rest)"
    by (rule find_eq_cong) (use True in auto)
  then show ?thesis using True by (simp add: least_route_def)
next
  case False
  have "List.find (\<lambda>x. \<forall>y \<in> set (r # q # rest). snd x \<le> snd y) rest
      = List.find (\<lambda>x. \<forall>y \<in> set (r # rest). snd x \<le> snd y) rest"
    by (rule find_eq_cong) (use False in auto)
  moreover have "\<not> (\<forall>y \<in> set rest. snd q \<le> snd y)" if "\<exists>y \<in> set rest. snd y < snd r"
    using that False by force
  ultimately show ?thesis using False by (auto simp: least_route_def not_le)
qed

lemma best_route_spec:
  "best_route best lines = least_route ((case best of None \<Rightarrow> [] | Some r \<Rightarrow> [r]) @ routes lines)"
proof (induction lines arbitrary: best)
  case Nil
  then show ?case by (simp add: routes_def map_filter_simps least_route_def split: option.split)
next
  case (Cons line lines)
  show ?case
    by (cases "default_route line"; cases best)
      (simp_all add: Cons.IH routes_def map_filter_simps least_route_two split: prod.split)
qed

text \<open>
  The panel's host is known by the interface that carries its default route: the parser
  of the kernel's table returns the first of the entries for the default destination that
  are up and whose metric is the least, and none only if there is no such entry; the title
  line and lines it cannot read do not matter.
\<close>

theorem default_interface_has_the_least_metric:
  "case linux_default_interface_from_proc text of
     None \<Rightarrow> routes (drop 1 (splitlines text)) = []
   | Some iface \<Rightarrow> \<exists>before metric after. routes (drop 1 (splitlines text)) = before @ (iface, metric) # after
       \<and> (\<forall>(i, m) \<in> set before. metric < m) \<and> (\<forall>(i, m) \<in> set after. metric \<le> m)"
proof -
  let ?rs = "routes (drop 1 (splitlines text))"
  have l: "linux_default_interface_from_proc text = map_option fst (least_route ?rs)"
    by (simp add: linux_default_interface_from_proc_def best_route_spec)
  show ?thesis
  proof (cases "least_route ?rs")
    case None
    then have none: "\<forall>r \<in> set ?rs. \<exists>q \<in> set ?rs. snd q < snd r"
      by (auto simp: least_route_def find_None_iff not_le)
    have "?rs = []"
    proof (rule ccontr)
      assume "?rs \<noteq> []"
      then have "Min (snd ` set ?rs) \<in> snd ` set ?rs" by (intro Min_in) simp_all
      then obtain r where r: "r \<in> set ?rs" "snd r = Min (snd ` set ?rs)" by auto
      then obtain q where "q \<in> set ?rs" "snd q < snd r" using none by blast
      moreover from \<open>q \<in> set ?rs\<close> have "Min (snd ` set ?rs) \<le> snd q" by (intro Min_le) simp_all
      ultimately show False using r(2) by simp
    qed
    then show ?thesis using None l by simp
  next
    case (Some r)
    obtain iface metric where r: "r = (iface, metric)" by (cases r)
    from Some obtain i where i: "i < length ?rs" "\<forall>q \<in> set ?rs. snd (?rs ! i) \<le> snd q" "r = ?rs ! i"
      "\<forall>j < i. \<not> (\<forall>q \<in> set ?rs. snd (?rs ! j) \<le> snd q)"
      by (auto simp: least_route_def find_Some_iff)
    let ?before = "take i ?rs" and ?after = "drop (Suc i) ?rs"
    have "(iface, metric) = ?rs ! i" using i(3) r by simp
    then have parts: "?rs = ?before @ (iface, metric) # ?after" using id_take_nth_drop [OF i(1)] by metis
    have before: "metric < snd x" if "x \<in> set ?before" for x
    proof -
      obtain j where "j < i" "x = ?rs ! j" using \<open>x \<in> set ?before\<close> i(1) by (auto simp: in_set_conv_nth)
      then obtain q where "q \<in> set ?rs" "snd q < snd x" using i(4) by (auto simp: not_le)
      then show ?thesis using i(2,3) r by force
    qed
    have after: "metric \<le> snd x" if "x \<in> set ?after" for x
      using i(2,3) r in_set_dropD [OF that] by (metis snd_conv)
    have "linux_default_interface_from_proc text = Some iface" using Some l r by simp
    moreover have "\<forall>(i, m) \<in> set ?before. metric < m" "\<forall>(i, m) \<in> set ?after. metric \<le> m"
      using before after by (auto simp: split_beta)
    ultimately show ?thesis using parts by (simp only: option.case) blast
  qed
qed

definition sample_table :: pystr where
  "sample_table = lit ''Iface'' @ [10] @ lit ''eth0 00000000 0101A8C0 0003 0 0 100 00000000'' @ [10]"

lemma sample_table_lines:
  "splitlines sample_table = [lit ''Iface'', lit ''eth0 00000000 0101A8C0 0003 0 0 100 00000000'']"
  by (simp add: splitlines_def sample_table_def lit_def is_line_break_def)

lemma sample_table_route:
  "default_route (lit ''eth0 00000000 0101A8C0 0003 0 0 100 00000000'') = Some (lit ''eth0'', 100)"
proof -
  have "split_words (lit ''eth0 00000000 0101A8C0 0003 0 0 100 00000000'')
      = map lit [''eth0'', ''00000000'', ''0101A8C0'', ''0003'', ''0'', ''0'', ''100'', ''00000000'']"
    by (simp add: split_words_def lit_def is_space_def)
  moreover have "int_of_hex (lit ''0003'') = Inr 3"
    by (simp add: int_of_hex_def lit_def ascii_decimal_def decimal_zeros_def strip_def is_space_def sign_split_def
        hex_prefix_drop_def hex_val_def)
  moreover have "int_of_text (lit ''100'') = Inr 100"
    by (simp add: int_of_text_def lit_def ascii_decimal_def decimal_zeros_def strip_def is_space_def sign_split_def
        is_digit_def max_str_digits_def)
  ultimately show ?thesis by (simp add: default_route_def)
qed

theorem default_interface_has_the_least_metric_witness:
  "\<exists>before metric after. routes [lit ''eth0 00000000 0101A8C0 0003 0 0 100 00000000'']
     = before @ (lit ''eth0'', metric) # after \<and> (\<forall>(i, m) \<in> set after. metric \<le> m)"
proof -
  have "linux_default_interface_from_proc sample_table = Some (lit ''eth0'')"
    by (simp add: linux_default_interface_from_proc_def sample_table_lines sample_table_route)
  then show ?thesis
    using default_interface_has_the_least_metric [of sample_table] by (auto simp: sample_table_lines)
qed

end
