(* ===== verification/Firewall_Report.thy ===== *)
theory Firewall_Report
  imports Firewall_Fix
begin

text \<open>
  What \<open>src/kid_pc_monitor/linux_firewall.py\<close> prints about the firewall, and its \<open>main\<close>. The
  advised commands are printed as lines for a shell (\<open>shlex.join\<close>); a small reader of such
  lines, after the quoting rules of POSIX, shows that the shell gets the very arguments that
  \<open>_offer_to_run\<close> would execute.
\<close>

section \<open>Quoting for the shell\<close>

text \<open>\<open>shlex.quote\<close>: the characters that need no quotes, and the quoting of the others.\<close>

definition shell_safe :: "nat \<Rightarrow> bool" where
  "shell_safe c \<longleftrightarrow>
     (48 \<le> c \<and> c \<le> 57) \<or> (65 \<le> c \<and> c \<le> 90) \<or> (97 \<le> c \<and> c \<le> 122) \<or> c \<in> set (lit ''_@%+=:,./-'')"

definition shell_escape :: "nat \<Rightarrow> pystr" where
  "shell_escape c = (if c = 39 then [39, 34, 39, 34, 39] else [c])"

definition shlex_quote :: "pystr \<Rightarrow> pystr" where
  "shlex_quote s =
     (if s = [] then [39, 39]
      else if list_all shell_safe s then s
      else [39] @ concat (map shell_escape s) @ [39])"

definition shlex_join :: "pystr list \<Rightarrow> pystr" where
  "shlex_join cmd = join_with 32 (map shlex_quote cmd)"

text \<open>
  The words of a line, as a shell reads them: outside quotes a space ends a word, a safe
  character stands for itself and every other one has a meaning of its own (None); between
  single quotes everything stands for itself, between double quotes everything but the
  dollar sign, the backquote and the backslash. The word so far is None before it begins.
\<close>

datatype quoting = Bare | Single | Double

definition word_so_far :: "pystr option \<Rightarrow> pystr" where
  "word_so_far w = (case w of None \<Rightarrow> [] | Some x \<Rightarrow> x)"

fun shell_words :: "quoting \<Rightarrow> pystr option \<Rightarrow> pystr \<Rightarrow> pystr list option" where
  "shell_words Bare w [] = Some (case w of None \<Rightarrow> [] | Some x \<Rightarrow> [x])"
| "shell_words Single w [] = None"
| "shell_words Double w [] = None"
| "shell_words Bare w (c # r) =
     (if c = 32 then map_option (\<lambda>ws. (case w of None \<Rightarrow> ws | Some x \<Rightarrow> x # ws)) (shell_words Bare None r)
      else if c = 39 then shell_words Single (Some (word_so_far w)) r
      else if c = 34 then shell_words Double (Some (word_so_far w)) r
      else if shell_safe c then shell_words Bare (Some (word_so_far w @ [c])) r
      else None)"
| "shell_words Single w (c # r) =
     (if c = 39 then shell_words Bare w r else shell_words Single (Some (word_so_far w @ [c])) r)"
| "shell_words Double w (c # r) =
     (if c = 34 then shell_words Bare w r
      else if c \<in> {36, 96, 92} then None
      else shell_words Double (Some (word_so_far w @ [c])) r)"

lemma word_so_far_simps [simp]: "word_so_far None = []" "word_so_far (Some x) = x"
  by (simp_all add: word_so_far_def)

lemma shell_safe_plain: "shell_safe c \<Longrightarrow> c \<noteq> 32 \<and> c \<noteq> 34 \<and> c \<noteq> 39"
  by (auto simp: shell_safe_def lit_def)

lemma safe_word:
  "list_all shell_safe s \<Longrightarrow> s \<noteq> [] \<or> w \<noteq> None \<Longrightarrow>
     shell_words Bare w (s @ rest) = shell_words Bare (Some (word_so_far w @ s)) rest"
proof (induction s arbitrary: w)
  case (Cons c s)
  then show ?case using shell_safe_plain [of c] by simp
qed auto

lemma quoted_word:
  "shell_words Single (Some w) (concat (map shell_escape s) @ 39 # rest) = shell_words Bare (Some (w @ s)) rest"
  by (induction s arbitrary: w) (simp_all add: shell_escape_def)

lemma quote_is_read:
  "shell_words Bare None (shlex_quote s @ rest) = shell_words Bare (Some s) rest"
  using safe_word [of s None rest] quoted_word [of "[]" s rest] by (auto simp: shlex_quote_def)

lemma join_is_read: "shell_words Bare None (shlex_join cmd) = Some cmd"
proof (induction cmd)
  case Nil
  show ?case by (simp add: shlex_join_def)
next
  case (Cons s cmd)
  show ?case
  proof (cases cmd)
    case Nil
    then show ?thesis using quote_is_read [of s "[]"] by (simp add: shlex_join_def)
  next
    case (Cons t cmd')
    then have "shlex_join (s # cmd) = shlex_quote s @ 32 # shlex_join cmd" by (simp add: shlex_join_def)
    then show ?thesis using quote_is_read [of s "32 # shlex_join cmd"] Cons.IH by simp
  qed
qed

section \<open>The report\<close>

text \<open>\<open>" and ".join(f"{p}/tcp" for p in ports)\<close>; a field that is None prints as such.\<close>

fun and_list :: "pystr list \<Rightarrow> pystr" where
  "and_list [] = []"
| "and_list [x] = x"
| "and_list (x # y # r) = x @ lit '' and '' @ and_list (y # r)"

definition port_text :: "int list \<Rightarrow> pystr" where
  "port_text ports = and_list (map tcp_spec ports)"

definition firewall_name :: "firewall_report \<Rightarrow> pystr" where
  "firewall_name r = (case fr_firewall r of Some f \<Rightarrow> f | None \<Rightarrow> lit ''None'')"

text \<open>The lines before the commands.\<close>

definition report_head :: "firewall_report \<Rightarrow> int list \<Rightarrow> pystr list" where
  "report_head r ports =
     (if fr_status r = Blocked then
        [lit ''Firewall: '' @ firewall_name r @ lit '' is active and blocks '' @ port_text (fr_blocked_ports r) @ lit ''.'',
         lit ''  Kid PCs and your phone cannot reach the panel until these are allowed:'']
      else
        [lit ''Firewall: '' @ fr_detail r,
         if fr_firewall r = Some (lit ''ufw'')
         then lit ''  If you have not already allowed '' @ port_text ports @ lit '', run:''
         else lit ''  Check that it allows inbound '' @ port_text ports @ lit '', e.g.:''])"

definition command_line :: "pystr list \<Rightarrow> pystr" where
  "command_line cmd = lit ''    '' @ shlex_join cmd"

definition format_report :: "firewall_report \<Rightarrow> int list \<Rightarrow> pystr" where
  "format_report r ports =
     (let detail = (if fr_detail r \<noteq> [] \<and> fr_status r = Open then lit '' ('' @ fr_detail r @ lit '')'' else []) in
      if fr_status r = No_firewall then
        lit ''Firewall: no active firewall found (checked firewalld, ufw, nftables/iptables);'' @ [10]
          @ lit ''  no changes needed for '' @ port_text ports @ lit ''.''
      else if fr_status r = Open then
        lit ''Firewall: '' @ firewall_name r @ lit '' already allows '' @ port_text ports @ detail @ lit ''.''
      else join_with 10 (report_head r ports @ map command_line (fr_commands r)))"

text \<open>\<open>main\<close>: the report is printed, and on a terminal the commands are offered.\<close>

definition check_main ::
  "runner \<Rightarrow> reader \<Rightarrow> (pystr list \<Rightarrow> 's \<Rightarrow> int \<times> 's) \<Rightarrow> int list \<Rightarrow> pystr option \<Rightarrow> bool \<Rightarrow> bool \<Rightarrow> pystr option
    \<Rightarrow> 's \<Rightarrow> pystr \<times> int \<times> 's" where
  "check_main run read exec ports iface interactive tty answer s =
     (let r = check_firewall run read ports iface in
      (format_report r ports, if interactive \<and> tty then offer_to_run exec answer r s else (0, s)))"

text \<open>\<open>_run\<close> and \<open>_read\<close>, on what \<open>subprocess.run\<close> and \<open>read_text\<close> give or raise.\<close>

datatype run_result = Finished int pystr | Command_not_found | Could_not_run

definition run_with :: "(pystr list \<Rightarrow> run_result) \<Rightarrow> runner" where
  "run_with sub cmd = (case sub cmd of Finished code out \<Rightarrow> (code, out) | Command_not_found \<Rightarrow> (127, []) | Could_not_run \<Rightarrow> (1, []))"

definition read_with :: "(pystr \<Rightarrow> pystr res) \<Rightarrow> pystr \<Rightarrow> pystr option res" where
  "read_with files path =
     (case files path of Inr t \<Rightarrow> Inr (Some t) | Inl (OSError m) \<Rightarrow> Inr None | Inl e \<Rightarrow> Inl e)"

text \<open>
  The printed advice is what would be run: a report that advises commands ends with one
  line for each of them, and a shell that is given such a line gets exactly the arguments of
  the command, whatever characters the name of a zone or a service holds.
\<close>

theorem printed_commands_are_the_advised_ones:
  assumes "fr_status r = Blocked \<or> fr_status r = Unknown"
  shows "\<exists>lines. format_report r ports = join_with 10 (report_head r ports @ lines)
    \<and> map (shell_words Bare None) lines = map Some (fr_commands r)"
proof (intro exI conjI)
  show "format_report r ports = join_with 10 (report_head r ports @ map command_line (fr_commands r))"
    using assms by (auto simp: format_report_def Let_def)
  have "shell_words Bare None (command_line cmd) = Some cmd" for cmd
    by (simp add: command_line_def lit_def join_is_read)
  then show "map (shell_words Bare None) (map command_line (fr_commands r)) = map Some (fr_commands r)" by simp
qed

text \<open>A zone whose name holds a quote, a dollar sign and a space.\<close>

definition odd_zone :: firewall_report where
  "odd_zone = \<lparr>fr_status = Blocked, fr_firewall = Some (lit ''firewalld''), fr_blocked_ports = [5000],
     fr_commands = [[lit ''sudo'', lit ''firewall-cmd'', lit ''--zone=dad'' @ [39] @ lit ''s $HOME'', lit ''--add-port=5000/tcp'']],
     fr_detail = []\<rparr>"

theorem printed_commands_are_the_advised_ones_witness:
  "\<exists>lines. format_report odd_zone [5000, 9998] = join_with 10 (report_head odd_zone [5000, 9998] @ lines)
    \<and> map (shell_words Bare None) lines
      = [Some [lit ''sudo'', lit ''firewall-cmd'', lit ''--zone=dad'' @ [39] @ lit ''s $HOME'', lit ''--add-port=5000/tcp'']]"
proof -
  have "fr_status odd_zone = Blocked \<or> fr_status odd_zone = Unknown" by (simp add: odd_zone_def)
  from printed_commands_are_the_advised_ones [OF this, of "[5000, 9998]"] show ?thesis
    by (simp add: odd_zone_def)
qed

end
