(* ===== verification/Web_Auth.thy ===== *)
theory Web_Auth
  imports Panel_Data Effects
begin

text \<open>
  The password of the parent's panel (the first part of
  \<open>src/kid_pc_monitor/web_panel.py\<close>): the file it is kept in, the session a browser
  holds, the token against forged forms, and the addresses a login may lead to. The hash
  functions of werkzeug are parameters.
\<close>

section \<open>The password file\<close>

text \<open>
  A file as the panel meets it: none, one that cannot be read (or is not UTF-8), one whose
  text is not JSON, a JSON document.
\<close>

datatype auth_file = No_file | Unreadable | Not_json_text | Holds json

datatype auth_problem = Cannot_read | Not_valid_json | Not_an_object | Hash_not_a_string | Old_format

text \<open>The file under the configuration directory and the old one in the package.\<close>

record auth_store =
  as_canonical :: auth_file
  as_legacy :: auth_file
  as_writable :: bool

record hasher =
  h_check :: "pystr \<Rightarrow> pystr \<Rightarrow> bool res"
  h_generate :: "pystr \<Rightarrow> pystr"

definition may_exist :: "auth_file \<Rightarrow> bool" where
  "may_exist f \<longleftrightarrow> f \<noteq> No_file"

definition auth_path :: "auth_store \<Rightarrow> auth_file" where
  "auth_path a =
     (if may_exist (as_canonical a) then as_canonical a
      else if may_exist (as_legacy a) then as_legacy a
      else as_canonical a)"

definition stored_password_hash :: "jdict option \<Rightarrow> pystr option" where
  "stored_password_hash record =
     (case record of
        None \<Rightarrow> None
      | Some r \<Rightarrow> (case jget r ''password_hash'' of JStr h \<Rightarrow> if h \<noteq> [] then Some h else None | _ \<Rightarrow> None))"

definition panel_secret_key :: "jdict option \<Rightarrow> pystr option" where
  "panel_secret_key record =
     (case record of
        None \<Rightarrow> None
      | Some r \<Rightarrow> (case jget r ''secret_key'' of JStr k \<Rightarrow> if length k \<ge> 16 then Some k else None | _ \<Rightarrow> None))"

definition verify_password :: "hasher \<Rightarrow> jdict \<Rightarrow> pystr \<Rightarrow> bool res" where
  "verify_password h record password =
     (case stored_password_hash (Some record) of None \<Rightarrow> Inr False | Some stored \<Rightarrow> h_check h stored password)"

definition is_json_str :: "json \<Rightarrow> bool" where
  "is_json_str v = (case v of JStr _ \<Rightarrow> True | _ \<Rightarrow> False)"

definition read_auth_file :: "auth_store \<Rightarrow> jdict option \<times> auth_problem option" where
  "read_auth_file a =
     (case auth_path a of
        No_file \<Rightarrow> (None, None)
      | Unreadable \<Rightarrow> (None, Some Cannot_read)
      | Not_json_text \<Rightarrow> (None, Some Not_valid_json)
      | Holds (JObj record) \<Rightarrow>
          if jget record ''password_hash'' \<noteq> JNull \<and> \<not> is_json_str (jget record ''password_hash'')
            then (None, Some Hash_not_a_string)
          else if \<not> jtruthy (jget record ''password_hash'') \<and> jhas record ''hash'' then (None, Some Old_format)
          else (Some record, None)
      | Holds _ \<Rightarrow> (None, Some Not_an_object))"

definition auth_file_problem :: "auth_store \<Rightarrow> auth_problem option" where
  "auth_file_problem a = snd (read_auth_file a)"

definition load_auth_record :: "auth_store \<Rightarrow> jdict option" where
  "load_auth_record a = fst (read_auth_file a)"

definition password_is_configured :: "auth_store \<Rightarrow> bool" where
  "password_is_configured a \<longleftrightarrow> stored_password_hash (load_auth_record a) \<noteq> None"

text \<open>\<open>save_password\<close>; \<open>token\<close> is \<open>secrets.token_hex(32)\<close>.\<close>

definition save_password :: "hasher \<Rightarrow> pystr \<Rightarrow> pystr \<Rightarrow> (auth_store, unit) act" where
  "save_password h token password a =
     (case read_auth_file a of
        (_, Some p) \<Rightarrow> (Inl (HostError (lit ''RuntimeError'')), a)
      | (loaded, None) \<Rightarrow>
          let record = (case loaded of Some r \<Rightarrow> r | None \<Rightarrow> []);
              secret_key = (case panel_secret_key (Some record) of Some k \<Rightarrow> k | None \<Rightarrow> token)
          in if as_writable a
             then (Inr (), a\<lparr>as_canonical := Holds (JObj [(lit ''secret_key'', JStr secret_key),
                     (lit ''password_hash'', JStr (h_generate h password))])\<rparr>)
             else (Inl (OSError (lit ''auth file'')), a))"

section \<open>Sessions and forms\<close>

text \<open>What the signed cookie of a browser says.\<close>

record browser_session =
  bs_authenticated :: bool
  bs_csrf :: "pystr option"

text \<open>\<open>_csrf_token()\<close>, with the token it draws when there is none.\<close>

definition csrf_token :: "pystr \<Rightarrow> browser_session \<Rightarrow> browser_session" where
  "csrf_token drawn s =
     (case bs_csrf s of
        Some t \<Rightarrow> if t \<noteq> [] then s else s\<lparr>bs_csrf := Some drawn\<rparr>
      | None \<Rightarrow> s\<lparr>bs_csrf := Some drawn\<rparr>)"

text \<open>
  \<open>_csrf_valid()\<close>: the form field, else the header. \<open>compare_digest\<close> of two texts raises
  TypeError unless both are ASCII.
\<close>

definition csrf_valid :: "browser_session \<Rightarrow> pystr option \<Rightarrow> pystr option \<Rightarrow> bool res" where
  "csrf_valid s in_form in_header =
     (case bs_csrf s of
        None \<Rightarrow> Inr False
      | Some expected \<Rightarrow>
          if expected = [] then Inr False
          else
            let supplied = (case in_form of Some t \<Rightarrow> if t \<noteq> [] then in_form else in_header | None \<Rightarrow> in_header) in
            case supplied of
              None \<Rightarrow> Inr False
            | Some t \<Rightarrow>
                if t = [] then Inr False
                else if list_all (\<lambda>c. c < 128) (expected @ t) then Inr (expected = t)
                else Inl TypeError)"

section \<open>Where a login leads\<close>

definition is_local_path :: "pystr \<Rightarrow> bool" where
  "is_local_path target \<longleftrightarrow>
     take 1 target = [47] \<and> take 2 target \<noteq> [47, 47]
     \<and> \<not> list_ex (\<lambda>c. c = 92 \<or> c < 32 \<or> c = 127) target"

definition index_url :: pystr where
  "index_url = lit ''/''"

definition safe_next_url :: "pystr option \<Rightarrow> pystr" where
  "safe_next_url target =
     (case target of
        None \<Rightarrow> index_url
      | Some t \<Rightarrow> if t = [] \<or> \<not> is_local_path t then index_url else t)"

text \<open>
  How a browser reads the address it is sent to: it drops the control characters (and
  blanks around), takes a backslash for a slash, and leaves the site when what is left
  names a host (two slashes first) or a scheme (a colon before any slash).
\<close>

definition browser_reads :: "pystr \<Rightarrow> pystr" where
  "browser_reads t = map (\<lambda>c. if c = 92 then 47 else c) (filter (\<lambda>c. 32 \<le> c \<and> c \<noteq> 127) (strip t))"

definition leaves_the_site :: "pystr \<Rightarrow> bool" where
  "leaves_the_site t \<longleftrightarrow>
     take 2 (browser_reads t) = [47, 47]
     \<or> 58 \<in> set (takeWhile (\<lambda>c. c \<noteq> 47) (browser_reads t))"

lemma strip_leading:
  assumes "\<not> is_space c"
  shows "strip (c # cs) = c # rev (dropWhile is_space (rev cs))"
proof -
  have "dropWhile is_space (rev cs @ [c]) = dropWhile is_space (rev cs) @ [c]"
    using assms by (simp add: dropWhile_append)
  then show ?thesis using assms by (simp add: strip_def)
qed

lemma set_rev_dropWhile: "set (rev (dropWhile P (rev xs))) \<subseteq> set xs"
  by (metis set_dropWhileD set_rev subsetI)

lemma one_slash: "take 1 q \<noteq> [47] \<Longrightarrow> take 2 (47 # q) \<noteq> [47, 47 :: nat]"
  by (cases q) auto

text \<open>
  C31. A login never leads off the panel: whatever target the login form names, the address
  the browser is sent to, read the way browsers read addresses, stays on the panel's site.
\<close>

theorem login_stays_on_the_panel:
  "\<not> leaves_the_site (safe_next_url target)"
proof -
  have ok: "\<not> leaves_the_site t" if "is_local_path t" for t
  proof -
    from that obtain r where t: "t = 47 # r" by (cases t) (auto simp: is_local_path_def)
    let ?r = "rev (dropWhile is_space (rev r))"
    have clean: "\<forall>c \<in> set r. c \<noteq> 92 \<and> 32 \<le> c \<and> c \<noteq> 127"
      using that t by (auto simp: is_local_path_def list_ex_iff not_less)
    then have clean': "\<forall>c \<in> set ?r. c \<noteq> 92 \<and> 32 \<le> c \<and> c \<noteq> 127"
      using set_rev_dropWhile [of is_space r] by blast
    have "\<not> is_space 47" by (simp add: is_space_def)
    then have "strip t = 47 # ?r" by (simp add: t strip_leading)
    moreover have "map (\<lambda>c. if c = 92 then 47 else c) (filter (\<lambda>c. 32 \<le> c \<and> c \<noteq> 127) ?r) = ?r"
      using clean' by (auto simp: filter_id_conv [THEN iffD2] intro!: map_idI)
    ultimately have reads: "browser_reads t = 47 # ?r" by (simp add: browser_reads_def)
    have "take 1 ?r \<noteq> [47]"
    proof
      assume a: "take 1 ?r = [47]"
      then obtain u where u: "?r = 47 # u" by (cases ?r) auto
      have "r = ?r @ rev (takeWhile is_space (rev r))"
        by (metis rev_append rev_rev_ident takeWhile_dropWhile_id)
      then obtain v where "r = 47 # v" using u by (metis append_Cons)
      then show False using that t by (simp add: is_local_path_def)
    qed
    then have "take 2 (47 # ?r) \<noteq> [47, 47]" by (rule one_slash)
    moreover have "takeWhile (\<lambda>c. c \<noteq> 47) (47 # ?r) = []" by simp
    ultimately show ?thesis unfolding leaves_the_site_def reads by (simp only: list.set(1) empty_iff simp_thms)
  qed
  have "is_local_path index_url" by (simp add: is_local_path_def index_url_def lit_def)
  then show ?thesis using ok by (auto simp: safe_next_url_def split: option.split)
qed

end
