(* ===== verification/Web_Panel.thy ===== *)
theory Web_Panel
  imports Web_Auth Reverse_Server
begin

text \<open>
  The pages and actions of the parent's panel (\<open>src/kid_pc_monitor/web_panel.py\<close>): which
  view a request reaches, the checks before every view, and the views. A view is an action
  on the panel and the browser's session; what it hands to its template is its result.
  Flask's dispatching is modelled as far as the rules of the source use it, for the verbs GET
  and POST that its rules name: HEAD and OPTIONS, which Flask answers by itself from the GET
  rules, are left out, and a path known only under the other verb (405) is answered like an
  unknown one. Flashed messages, templates and caching headers are left out.
\<close>

section \<open>Requests and replies\<close>

datatype verb = GET | POST

datatype endpoint =
    Static | Login | Logout | Set_password | Agent_discover | Index | Control pystr | Control_poll_meta pystr
  | Control_stats pystr | Agent_logs pystr | Daily_settings pystr | Usage_history pystr | Do_action

record web_request =
  rq_verb :: verb
  rq_path :: pystr
  rq_form :: "pystr \<Rightarrow> pystr option"
  rq_args :: "pystr \<Rightarrow> pystr option"
  rq_csrf_header :: "pystr option"
  rq_json :: "json option"

datatype reply =
    Redirect pystr | To_login pystr | Bad_request | Locked auth_problem | Not_found | Failed exn
  | Static_file | Login_form pystr | Password_form bool | Discovery int
  | Dashboard dashboard "aware option" | Control_page pystr jdict "aware option" | Poll_meta "aware option"
  | Stats_page pystr jdict | Logs_page pystr json pystr bool "pystr option" | Settings_page pystr jdict
  | History_page pystr "(pystr \<times> jdict list) list" | Action_result bool pystr

text \<open>
  The panel, and what a request meets besides it: the hash functions, the local zone,
  \<open>casefold\<close>, \<open>ip_address\<close>, \<open>str\<close> of a JSON value, the clock, the random texts drawn, and
  the sessions' way to run a request.
\<close>

record panel =
  pn_auth :: auth_store
  pn_secret_key :: pystr
  pn_server :: "server option"
  pn_db :: panel_db

record site =
  st_hasher :: hasher
  st_python :: python
  st_zone :: "datetime \<Rightarrow> int"
  st_casefold :: "pystr \<Rightarrow> pystr"
  st_is_ip :: "pystr \<Rightarrow> bool"
  st_str :: "json \<Rightarrow> pystr"
  st_reverse_port :: int
  st_now :: aware
  st_csrf_drawn :: pystr
  st_key_drawn :: pystr
  st_run :: "session \<Rightarrow> panel_request \<Rightarrow> response res"

record visit =
  vi_panel :: panel
  vi_session :: browser_session

type_synonym 'a view = "(visit, 'a) act"

section \<open>Routes\<close>

fun split_slash :: "pystr \<Rightarrow> pystr list" where
  "split_slash [] = [[]]"
| "split_slash (c # cs) =
     (if c = 47 then [] # split_slash cs
      else case split_slash cs of [] \<Rightarrow> [[c]] | s # ss \<Rightarrow> (c # s) # ss)"

definition route_one :: "verb \<Rightarrow> pystr \<Rightarrow> endpoint option" where
  "route_one v s =
     (if s = [] then (if v = GET then Some Index else None)
      else if s = lit ''login'' then Some Login
      else if s = lit ''set-password'' then Some Set_password
      else if s = lit ''logout'' \<and> v = GET then Some Logout
      else if s = lit ''action'' \<and> v = POST then Some Do_action
      else None)"

definition route_two :: "pystr \<Rightarrow> pystr \<Rightarrow> endpoint option" where
  "route_two s t =
     (if t = [] then None
      else if s = lit ''control'' then Some (Control t)
      else if s = lit ''logs'' then Some (Agent_logs t)
      else if s = lit ''daily_settings'' then Some (Daily_settings t)
      else None)"

definition route_three :: "pystr \<Rightarrow> pystr \<Rightarrow> pystr \<Rightarrow> endpoint option" where
  "route_three s t u =
     (if s = lit ''control'' \<and> t \<noteq> [] \<and> u = lit ''poll-meta'' then Some (Control_poll_meta t)
      else if s = lit ''control'' \<and> t \<noteq> [] \<and> u = lit ''stats'' then Some (Control_stats t)
      else if s = lit ''agent'' \<and> t = lit ''v1'' \<and> u = lit ''discover'' then Some Agent_discover
      else None)"

text \<open>The two rules whose last part may hold slashes.\<close>

definition route_path :: "pystr \<Rightarrow> pystr list \<Rightarrow> endpoint option" where
  "route_path s rest =
     (case rest of
        [] \<Rightarrow> None
      | t # _ \<Rightarrow>
          if t = [] then None
          else if s = lit ''usage'' then Some (Usage_history (join_with 47 rest))
          else if s = lit ''static'' then Some Static
          else None)"

definition route :: "verb \<Rightarrow> pystr \<Rightarrow> endpoint option" where
  "route v path =
     (case split_slash path of
        [] # s # rest \<Rightarrow>
          (case (if v = GET then route_path s rest else None) of
             Some e \<Rightarrow> Some e
           | None \<Rightarrow>
               (case rest of
                  [] \<Rightarrow> route_one v s
                | [t] \<Rightarrow> if v = GET then route_two s t else None
                | [t, u] \<Rightarrow> if v = GET then route_three s t u else None
                | _ \<Rightarrow> None))
      | _ \<Rightarrow> None)"

definition for_agents :: "pystr \<Rightarrow> bool" where
  "for_agents path \<longleftrightarrow> take (length (lit ''/agent/v1/'')) path = lit ''/agent/v1/''"

section \<open>What the panel knows of a computer\<close>

definition placeholder :: "pystr \<Rightarrow> pystr" where
  "placeholder ip = lit ''PC at '' @ ip"

definition snapshot_lookup_hostname :: "(json \<Rightarrow> pystr) \<Rightarrow> panel_db \<Rightarrow> jdict \<Rightarrow> pystr \<Rightarrow> json" where
  "snapshot_lookup_hostname str db pc_info ip =
     (let hostname = jget pc_info ''hostname'' in
      if jtruthy hostname \<and> hostname \<noteq> JStr (placeholder ip) then hostname
      else
        case get_scan_pc db ip of
          Some scan_pc \<Rightarrow>
            if jtruthy (jget scan_pc ''hostname'') then JStr (str (jget scan_pc ''hostname'')) else hostname
        | None \<Rightarrow> hostname)"

text \<open>A host name as the parameter of a query; an empty one is not asked for.\<close>

definition hostname_param :: "json \<Rightarrow> pystr option res" where
  "hostname_param v = (if jtruthy v then rbind (sql_text v) (\<lambda>t. Inr (Some t)) else Inr None)"

definition apply_pc_snapshot :: "(json \<Rightarrow> pystr) \<Rightarrow> panel_db \<Rightarrow> jdict \<Rightarrow> pystr \<Rightarrow> jdict res" where
  "apply_pc_snapshot str db pc_info ip =
     (if jtruthy (jget_or pc_info ''reachable'' (JBool True)) \<and> \<not> jtruthy (jget pc_info ''connection_error'')
      then Inr pc_info
      else
        rbind (hostname_param (snapshot_lookup_hostname str db pc_info ip))
          (\<lambda>h. case get_latest_panel_snapshot_for_pc h (Some ip) db of
             None \<Rightarrow> Inr pc_info
           | Some (t, payload) \<Rightarrow>
               let shown = jset (jset (jset (jset payload ''reachable'' (JBool False)) ''is_snapshot'' (JBool True))
                       ''snapshot_recorded_at'' (JStr (text_of_time t))) ''ip'' (JStr ip);
                   plain = jpop (jpop shown ''connection_error'') ''agent_not_running''
               in Inr (if jtruthy (jget pc_info ''agent_not_running'')
                       then jset plain ''agent_not_running'' (JBool True) else plain)))"

text \<open>\<open>_resolve_control_target\<close>: an address, or the address last known for a host name.\<close>

definition resolve_control_target :: "site \<Rightarrow> panel_db \<Rightarrow> pystr \<Rightarrow> (pystr \<times> pystr option) option" where
  "resolve_control_target st db target =
     (if st_is_ip st target then Some (target, None)
      else
        case get_scan_pc_by_hostname db target of
          None \<Rightarrow> None
        | Some scan_pc \<Rightarrow>
            if jtruthy (jget scan_pc ''ip'')
            then Some (st_str st (jget scan_pc ''ip''), Some (st_str st (json_or (jget scan_pc ''hostname'') (JStr target))))
            else None)"

definition unknown_pc_msg :: "pystr \<Rightarrow> pystr" where
  "unknown_pc_msg target =
     lit ''No connected PC found for '' @ target
     @ lit ''. PCs appear here after the agent connects to this panel.''"

text \<open>The entry of a computer that is not connected, with a name and the last snapshot.\<close>

definition offline_pc_info :: "site \<Rightarrow> panel_db \<Rightarrow> pystr \<Rightarrow> pystr option \<Rightarrow> jdict \<Rightarrow> jdict res" where
  "offline_pc_info st db ip requested entry =
     (let asked = (case requested of Some h \<Rightarrow> JStr h | None \<Rightarrow> JNull);
          first = json_or (json_or asked (jget entry ''hostname'')) (JStr (placeholder ip));
          found = snapshot_lookup_hostname (st_str st) db [(lit ''hostname'', first)] ip;
          name = json_or (json_or found (jget entry ''hostname'')) (JStr (placeholder ip))
      in apply_pc_snapshot (st_str st) db (jmerge [(lit ''hostname'', name)] entry) ip)"

text \<open>The settings of the live session of an address, if it has any.\<close>

definition live_settings :: "panel \<Rightarrow> pystr \<Rightarrow> session option" where
  "live_settings p ip =
     (case pn_server p of
        None \<Rightarrow> None
      | Some srv \<Rightarrow>
          (case live_session srv ip of
             Some s \<Rightarrow> if rs_pc_info s \<noteq> (\<lambda>_. None) then Some s else None
           | None \<Rightarrow> None))"

definition fetch_control_pc_info :: "site \<Rightarrow> panel \<Rightarrow> pystr \<Rightarrow> (pystr + pystr \<times> jdict) res" where
  "fetch_control_pc_info st p target =
     (case resolve_control_target st (pn_db p) target of
        None \<Rightarrow> Inr (Inl (unknown_pc_msg target))
      | Some (ip, requested) \<Rightarrow>
          (case live_settings p ip of
             Some s \<Rightarrow>
               rbind (settings_to_pc_info (rs_pc_info s) ip (Some (rs_hostname s)))
                 (\<lambda>info. Inr (Inr (ip, jset (jset info ''ip'' (JStr ip)) ''reachable'' (JBool True))))
           | None \<Rightarrow>
               (case get_scan_pc (pn_db p) ip of
                  None \<Rightarrow> Inr (Inl (unknown_pc_msg target))
                | Some entry \<Rightarrow>
                    rbind (offline_pc_info st (pn_db p) ip requested
                             (jset (jset entry ''ip'' (JStr ip)) ''reachable'' (JBool False)))
                      (\<lambda>info. Inr (Inr (ip, info))))))"

definition fetch_control_pc_info_cached :: "site \<Rightarrow> panel \<Rightarrow> pystr \<Rightarrow> (pystr + pystr \<times> jdict) res" where
  "fetch_control_pc_info_cached st p target =
     (case resolve_control_target st (pn_db p) target of
        None \<Rightarrow> Inr (Inl (unknown_pc_msg target))
      | Some (ip, requested) \<Rightarrow>
          (case get_scan_pc (pn_db p) ip of
             None \<Rightarrow> Inr (Inl (unknown_pc_msg target))
           | Some entry \<Rightarrow>
               let info = jset entry ''ip'' (JStr ip) in
               if \<not> jtruthy (jget_or info ''reachable'' (JBool True)) \<or> jtruthy (jget info ''connection_error'')
               then rbind (offline_pc_info st (pn_db p) ip requested info) (\<lambda>shown. Inr (Inr (ip, shown)))
               else Inr (Inr (ip, info))))"

section \<open>Views\<close>

definition on_session :: "(browser_session \<Rightarrow> browser_session) \<Rightarrow> unit view" where
  "on_session f = modify (\<lambda>v. v\<lparr>vi_session := f (vi_session v)\<rparr>)"

text \<open>Every page carries the token against forged forms; rendering one draws it if need be.\<close>

definition render :: "site \<Rightarrow> reply \<Rightarrow> reply view" where
  "render st page = bind (on_session (csrf_token (st_csrf_drawn st))) (\<lambda>_. ret page)"

definition configured :: "visit \<Rightarrow> bool" where
  "configured v = password_is_configured (pn_auth (vi_panel v))"

definition authenticated :: "visit \<Rightarrow> bool" where
  "authenticated v = bs_authenticated (vi_session v)"

definition login_required :: "web_request \<Rightarrow> reply view \<Rightarrow> reply view" where
  "login_required rq view =
     bind (gets (\<lambda>v. configured v \<and> \<not> authenticated v))
       (\<lambda>stranger. if stranger then ret (To_login (rq_path rq)) else view)"

definition text_of_field :: "(pystr \<Rightarrow> pystr option) \<Rightarrow> string \<Rightarrow> pystr" where
  "text_of_field form k = (case form (lit k) of Some t \<Rightarrow> t | None \<Rightarrow> [])"

text \<open>\<open>record and _verify_password(record, password)\<close>; an empty record is none.\<close>

definition password_matches :: "hasher \<Rightarrow> jdict option \<Rightarrow> pystr \<Rightarrow> bool res" where
  "password_matches h record password =
     (case record of
        None \<Rightarrow> Inr False
      | Some r \<Rightarrow> if r = [] then Inr False else verify_password h r password)"

definition login_form :: "site \<Rightarrow> web_request \<Rightarrow> reply view" where
  "login_form st rq =
     (let next_arg = text_of_field (rq_args rq) ''next'' in
      render st (Login_form (if safe_next_url (Some next_arg) = next_arg then next_arg else [])))"

definition login :: "site \<Rightarrow> web_request \<Rightarrow> reply view" where
  "login st rq =
     bind (gets configured)
       (\<lambda>c. if \<not> c then ret (Redirect index_url)
         else if rq_verb rq = POST then
           bind (gets (\<lambda>v. load_auth_record (pn_auth (vi_panel v))))
             (\<lambda>record. bind (lift (password_matches (st_hasher st) record (text_of_field (rq_form rq) ''password'')))
               (\<lambda>ok. if ok
                  then bind (on_session (\<lambda>s. s\<lparr>bs_authenticated := True\<rparr>))
                         (\<lambda>_. ret (Redirect (safe_next_url (rq_form rq (lit ''next'')))))
                  else login_form st rq))
         else login_form st rq)"

definition logout :: "reply view" where
  "logout = bind (on_session (\<lambda>s. s\<lparr>bs_authenticated := False\<rparr>)) (\<lambda>_. ret (Redirect index_url))"

text \<open>Storing the password: the file, the key that signs the sessions, this session.\<close>

definition store_password :: "site \<Rightarrow> pystr \<Rightarrow> reply view" where
  "store_password st password =
     bind (zoom (\<lambda>v. pn_auth (vi_panel v)) (\<lambda>a v. v\<lparr>vi_panel := (vi_panel v)\<lparr>pn_auth := a\<rparr>\<rparr>)
             (save_password (st_hasher st) (st_key_drawn st) password))
       (\<lambda>_. bind (modify (\<lambda>v. case panel_secret_key (load_auth_record (pn_auth (vi_panel v))) of
               Some k \<Rightarrow> v\<lparr>vi_panel := (vi_panel v)\<lparr>pn_secret_key := k\<rparr>\<rparr>
             | None \<Rightarrow> v))
         (\<lambda>_. bind (on_session (\<lambda>s. s\<lparr>bs_authenticated := True\<rparr>))
           (\<lambda>_. ret (Redirect index_url))))"

definition set_password :: "site \<Rightarrow> web_request \<Rightarrow> reply view" where
  "set_password st rq =
     bind (gets (\<lambda>v. configured v \<and> \<not> authenticated v))
       (\<lambda>stranger. if stranger then ret (To_login (lit ''/set-password''))
         else bind (gets configured)
           (\<lambda>changing. if rq_verb rq = POST then
              let password = text_of_field (rq_form rq) ''password'';
                  confirm = text_of_field (rq_form rq) ''password_confirm'';
                  current = text_of_field (rq_form rq) ''current_password''
              in bind (gets (\<lambda>v. load_auth_record (pn_auth (vi_panel v))))
                   (\<lambda>record. bind (if changing then lift (password_matches (st_hasher st) record current) else ret True)
                     (\<lambda>allowed. if \<not> allowed then render st (Password_form changing)
                       else if length password < 8 then render st (Password_form changing)
                       else if password \<noteq> confirm then render st (Password_form changing)
                       else store_password st password))
            else render st (Password_form changing)))"

definition index :: "site \<Rightarrow> reply view" where
  "index st =
     bind (gets (\<lambda>v. get_dashboard_pcs (st_casefold st) (st_zone st) (pn_db (vi_panel v))))
       (\<lambda>d. render st (Dashboard (fst d) (snd d)))"

definition control :: "site \<Rightarrow> pystr \<Rightarrow> reply view" where
  "control st target =
     bind (gets vi_panel)
       (\<lambda>p. bind (lift (fetch_control_pc_info st p target))
         (\<lambda>fetched. case fetched of
            Inl msg \<Rightarrow> ret Not_found
          | Inr (ip, info) \<Rightarrow> render st (Control_page ip info (latest_scan_time (st_zone st) (pn_db p) ip))))"

definition control_poll_meta :: "site \<Rightarrow> pystr \<Rightarrow> reply view" where
  "control_poll_meta st target =
     bind (gets vi_panel)
       (\<lambda>p. case resolve_control_target st (pn_db p) target of
          None \<Rightarrow> ret Not_found
        | Some (ip, _) \<Rightarrow> ret (Poll_meta (latest_scan_time (st_zone st) (pn_db p) ip)))"

definition control_stats :: "site \<Rightarrow> web_request \<Rightarrow> pystr \<Rightarrow> reply view" where
  "control_stats st rq target =
     bind (gets vi_panel)
       (\<lambda>p. bind (lift (if rq_args rq (lit ''source'') = Some (lit ''poll'')
                        then fetch_control_pc_info_cached st p target else fetch_control_pc_info st p target))
         (\<lambda>fetched. case fetched of
            Inl msg \<Rightarrow> ret Not_found
          | Inr (ip, info) \<Rightarrow> ret (Stats_page ip info)))"

text \<open>The name on the log page: of the tracked computer, else of its last snapshot.\<close>

definition logs_hostname :: "panel_db \<Rightarrow> pystr \<Rightarrow> json" where
  "logs_hostname db ip =
     (let default = JStr (placeholder ip) in
      case get_scan_pc db ip of
        Some (key # keys) \<Rightarrow> jget_or (key # keys) ''hostname'' default
      | _ \<Rightarrow>
          (case get_latest_snapshot_for_pc None (Some ip) False db of
             Some (_, payload) \<Rightarrow> jget_or payload ''hostname'' default
           | None \<Rightarrow> default))"

definition shown_as_text :: "exn \<Rightarrow> bool" where
  "shown_as_text e \<longleftrightarrow>
     (case e of ConnectionError _ \<Rightarrow> True | ProtocolError _ _ _ \<Rightarrow> True | ClosedBeforeFrame _ _ _ \<Rightarrow> True
      | TimeoutError \<Rightarrow> True | OSError _ \<Rightarrow> True | _ \<Rightarrow> False)"

definition agent_logs :: "site \<Rightarrow> pystr \<Rightarrow> reply view" where
  "agent_logs st ip =
     bind (gets vi_panel)
       (\<lambda>p. let known = logs_hostname (pn_db p) ip;
                live = (case pn_server p of None \<Rightarrow> None | Some srv \<Rightarrow> map_option (Pair srv) (live_session srv ip))
         in case live of
              None \<Rightarrow> render st (Logs_page ip known [] False
                (Some (lit ''PC is not connected. Wait for the agent to reconnect, then open logs again.'')))
            | Some (srv, s) \<Rightarrow>
                let name = (if rs_hostname s \<noteq> [] then JStr (rs_hostname s) else known) in
                (case get_logs srv (st_run st) ip DEFAULT_LOG_TAIL_LINES of
                   Inr r \<Rightarrow>
                     let log_text = join_with 10 (llines r) in
                     render st (Logs_page ip name (if log_text \<noteq> [] then log_text else lit ''(log file is empty)'')
                       (ltruncated r) None)
                 | Inl e \<Rightarrow>
                     if shown_as_text e
                     then render st (Logs_page ip name [] False
                            (Some (format_agent_connection_error (exc_text (st_python st) e))))
                     else raising e))"

definition daily_settings_page :: "site \<Rightarrow> pystr \<Rightarrow> reply view" where
  "daily_settings_page st ip =
     bind (gets vi_panel)
       (\<lambda>p. bind (lift (fetch_control_pc_info st p ip))
         (\<lambda>fetched. case fetched of
            Inl msg \<Rightarrow> ret (Redirect index_url)
          | Inr (_, info) \<Rightarrow>
              if jtruthy (jget info ''connection_error'') then ret (Redirect index_url)
              else render st (Settings_page ip info)))"

definition usage_history :: "site \<Rightarrow> pystr \<Rightarrow> reply view" where
  "usage_history st username =
     bind (gets (\<lambda>v. pn_db (vi_panel v)))
       (\<lambda>db. bind (lift (get_usage_history_for_user username 7 (date_of (local_of (st_now st))) db))
         (\<lambda>groups. render st (History_page username groups)))"

definition perform_control_action :: "site \<Rightarrow> panel \<Rightarrow> pystr \<Rightarrow> pystr \<Rightarrow> jdict \<Rightarrow> bool \<times> pystr" where
  "perform_control_action st p ip action_name payload =
     (case (case pn_server p of
              None \<Rightarrow> None
            | Some srv \<Rightarrow> perform_action (st_python st) srv (st_run st) ip action_name payload) of
        Some result \<Rightarrow> result
      | None \<Rightarrow> (False, lit ''PC is not connected. Wait for the agent to reconnect, then try again.''))"

text \<open>\<open>request.get_json(silent=True) or {}\<close>; \<open>payload.get\<close> needs an object.\<close>

definition action_payload :: "json option \<Rightarrow> jdict res" where
  "action_payload j =
     (case j of
        None \<Rightarrow> Inr []
      | Some v \<Rightarrow>
          if \<not> jtruthy v then Inr []
          else (case v of JObj d \<Rightarrow> Inr d | _ \<Rightarrow> Inl AttributeError))"

definition do_action :: "site \<Rightarrow> web_request \<Rightarrow> reply view" where
  "do_action st rq =
     bind (lift (action_payload (rq_json rq)))
       (\<lambda>payload. let ip = jget payload ''ip''; action_name = jget payload ''action'' in
          if \<not> jtruthy ip \<or> \<not> jtruthy action_name
          then ret (Action_result False (lit ''Missing ip or action''))
          else bind (gets vi_panel)
            (\<lambda>p. case perform_control_action st p (st_str st ip) (st_str st action_name) payload of
               (ok, response) \<Rightarrow> ret (Action_result ok response)))"

section \<open>Handling a request\<close>

fun view_of :: "site \<Rightarrow> web_request \<Rightarrow> endpoint \<Rightarrow> reply view" where
  "view_of st rq Static = ret Static_file"
| "view_of st rq Login = login st rq"
| "view_of st rq Logout = logout"
| "view_of st rq Set_password = set_password st rq"
| "view_of st rq Agent_discover = ret (Discovery (st_reverse_port st))"
| "view_of st rq Index = login_required rq (index st)"
| "view_of st rq (Control target) = login_required rq (control st target)"
| "view_of st rq (Control_poll_meta target) = login_required rq (control_poll_meta st target)"
| "view_of st rq (Control_stats target) = login_required rq (control_stats st rq target)"
| "view_of st rq (Agent_logs ip) = login_required rq (agent_logs st ip)"
| "view_of st rq (Daily_settings ip) = login_required rq (daily_settings_page st ip)"
| "view_of st rq (Usage_history username) = login_required rq (usage_history st username)"
| "view_of st rq Do_action = login_required rq (do_action st rq)"

definition require_csrf_on_post :: "web_request \<Rightarrow> reply option view" where
  "require_csrf_on_post rq =
     (if for_agents (rq_path rq) \<or> rq_verb rq \<noteq> POST then ret None
      else bind (gets vi_session)
        (\<lambda>s. bind (lift (csrf_valid s (rq_form rq (lit ''csrf_token'')) (rq_csrf_header rq)))
          (\<lambda>ok. ret (if ok then None else Some Bad_request))))"

definition require_usable_auth_file :: "web_request \<Rightarrow> reply option view" where
  "require_usable_auth_file rq =
     (if route (rq_verb rq) (rq_path rq) = Some Static \<or> for_agents (rq_path rq) then ret None
      else gets (\<lambda>v. map_option Locked (auth_file_problem (pn_auth (vi_panel v)))))"

definition dispatch_request :: "site \<Rightarrow> web_request \<Rightarrow> reply view" where
  "dispatch_request st rq =
     bind (require_csrf_on_post rq)
       (\<lambda>stopped. case stopped of
          Some r \<Rightarrow> ret r
        | None \<Rightarrow> bind (require_usable_auth_file rq)
            (\<lambda>locked. case locked of
               Some r \<Rightarrow> ret r
             | None \<Rightarrow> (case route (rq_verb rq) (rq_path rq) of
                 None \<Rightarrow> ret Not_found
               | Some e \<Rightarrow> view_of st rq e)))"

text \<open>An exception no view handles becomes an error page; the session is kept as it is.\<close>

definition handle_web_request :: "site \<Rightarrow> web_request \<Rightarrow> visit \<Rightarrow> reply \<times> visit" where
  "handle_web_request st rq v =
     (case dispatch_request st rq v of
        (Inr r, w) \<Rightarrow> (r, w)
      | (Inl e, w) \<Rightarrow> (Failed e, w))"

section \<open>Routes the checks skip\<close>

lemma split_slash_nonempty [simp]: "split_slash cs \<noteq> []"
  by (induction cs) (auto split: list.split)

lemma split_slash_plain:
  "47 \<notin> set s \<Longrightarrow> split_slash (s @ 47 # r) = s # split_slash r"
  by (induction s) auto

lemma agents_only_discover:
  assumes "for_agents path"
  shows "route v path = None \<or> route v path = Some Agent_discover"
proof -
  obtain r where "path = lit ''/agent/v1/'' @ r"
    using assms by (metis append_take_drop_id for_agents_def)
  moreover have "lit ''/agent/v1/'' = 47 # lit ''agent'' @ 47 # lit ''v1'' @ [47]" by (simp add: lit_def)
  ultimately have p: "path = 47 # lit ''agent'' @ 47 # lit ''v1'' @ 47 # r" by simp
  have "47 \<notin> set (lit ''agent'')" "47 \<notin> set (lit ''v1'')" by (simp_all add: lit_def)
  then have "split_slash path = [] # lit ''agent'' # lit ''v1'' # split_slash r"
    by (simp add: p split_slash_plain)
  then show ?thesis
    by (auto simp: route_def route_path_def route_three_def split: list.split)
qed

section \<open>Views that only look\<close>

definition same_standing :: "visit \<Rightarrow> visit \<Rightarrow> bool" where
  "same_standing v w \<longleftrightarrow>
     vi_panel w = vi_panel v \<and> bs_authenticated (vi_session w) = bs_authenticated (vi_session v)"

interpretation looking: step_relation same_standing
  by unfold_locales (auto simp: same_standing_def)

lemma csrf_token_authenticated [simp]: "bs_authenticated (csrf_token t s) = bs_authenticated s"
  by (simp add: csrf_token_def split: option.split)

lemma keeps_render: "keeps same_standing (render st page)"
  unfolding render_def on_session_def
  by (intro looking.keeps_rules) (simp add: same_standing_def)

lemma keeps_sum: "(\<And>x. keeps R (f x)) \<Longrightarrow> (\<And>x. keeps R (g x)) \<Longrightarrow> keeps R (case r of Inl x \<Rightarrow> f x | Inr x \<Rightarrow> g x)"
  by (simp split: sum.split)

lemma keeps_pair: "(\<And>x y. keeps R (f x y)) \<Longrightarrow> keeps R (case p of (x, y) \<Rightarrow> f x y)"
  by (simp split: prod.split)

lemmas looking_rules = looking.keeps_rules keeps_render keeps_sum keeps_pair

lemma keeps_pages:
  "keeps same_standing (index st)" "keeps same_standing (control st target)"
  "keeps same_standing (control_poll_meta st target)" "keeps same_standing (control_stats st rq target)"
  "keeps same_standing (agent_logs st ip)" "keeps same_standing (daily_settings_page st ip)"
  "keeps same_standing (usage_history st username)" "keeps same_standing (do_action st rq)"
  "keeps same_standing (login_form st rq)"
  unfolding index_def control_def control_poll_meta_def control_stats_def agent_logs_def daily_settings_page_def
    usage_history_def do_action_def login_form_def Let_def
  by (intro looking_rules)+

lemma keeps_guards:
  "keeps same_standing (require_csrf_on_post rq)" "keeps same_standing (require_usable_auth_file rq)"
  unfolding require_csrf_on_post_def require_usable_auth_file_def by (intro looking_rules)+

end
