(* ===== verification/Web_Guards.thy ===== *)
theory Web_Guards
  imports Web_Panel
begin

text \<open>
  What the checks in front of the panel's pages promise (\<open>src/kid_pc_monitor/web_panel.py\<close>):
  a stranger learns and changes nothing, a forged form does nothing, a damaged password
  file locks the panel, and a stored password is the one that logs in.
\<close>

section \<open>Requests of a stranger\<close>

text \<open>The password in the form of a request is not the panel's.\<close>

definition wrong_password :: "site \<Rightarrow> auth_store \<Rightarrow> web_request \<Rightarrow> bool" where
  "wrong_password st a rq \<longleftrightarrow>
     password_matches (st_hasher st) (load_auth_record a) (text_of_field (rq_form rq) ''password'') \<noteq> Inr True"

text \<open>
  A browser's requests, one after another; in between others may have changed the panel,
  so each request comes with the panel it meets.
\<close>

fun browse :: "(site \<times> web_request \<times> panel) list \<Rightarrow> browser_session \<Rightarrow> (reply \<times> panel) list \<times> browser_session" where
  "browse [] s = ([], s)"
| "browse ((st, rq, p) # rest) s =
     (case handle_web_request st rq \<lparr>vi_panel = p, vi_session = s\<rparr> of
        (r, w) \<Rightarrow> (case browse rest (vi_session w) of (rs, s') \<Rightarrow> ((r, vi_panel w) # rs, s')))"

definition same_door :: "panel \<Rightarrow> panel \<Rightarrow> bool" where
  "same_door p q \<longleftrightarrow> pn_auth p = pn_auth q"

lemma page_for_stranger:
  "configured v \<Longrightarrow> \<not> authenticated v \<Longrightarrow> login_required rq view v = (Inr (To_login (rq_path rq)), v)"
  by (simp add: login_required_def)

lemma set_password_for_stranger:
  "configured v \<Longrightarrow> \<not> authenticated v \<Longrightarrow> set_password st rq v = (Inr (To_login (lit ''/set-password'')), v)"
  by (simp add: set_password_def)

lemma login_form_run:
  "login_form st rq v =
     (Inr (Login_form (let n = text_of_field (rq_args rq) ''next'' in if safe_next_url (Some n) = n then n else [])),
      v\<lparr>vi_session := csrf_token (st_csrf_drawn st) (vi_session v)\<rparr>)"
  by (simp add: login_form_def render_def on_session_def Let_def)

lemma login_for_stranger:
  assumes "configured v" "wrong_password st (pn_auth (vi_panel v)) rq"
  shows "login st rq v =
    (if rq_verb rq = POST
     then (case password_matches (st_hasher st) (load_auth_record (pn_auth (vi_panel v)))
             (text_of_field (rq_form rq) ''password'') of
             Inl e \<Rightarrow> (Inl e, v) | Inr _ \<Rightarrow> login_form st rq v)
     else login_form st rq v)"
  using assms by (auto simp: login_def wrong_password_def split: sum.split)


text \<open>
  What a stranger gets depends on the password file only, and leaves the panel alone: the
  outcome of an action on any panel with that file.
\<close>

definition from_the_door :: "auth_store \<Rightarrow> browser_session \<Rightarrow> 'a view \<Rightarrow> bool" where
  "from_the_door a s act \<longleftrightarrow>
     (\<exists>r s'. \<not> bs_authenticated s' \<and>
       (\<forall>p. pn_auth p = a \<longrightarrow> act \<lparr>vi_panel = p, vi_session = s\<rparr> = (r, \<lparr>vi_panel = p, vi_session = s'\<rparr>)))"

lemma from_the_doorI:
  "\<not> bs_authenticated s' \<Longrightarrow>
   (\<And>p. pn_auth p = a \<Longrightarrow> act \<lparr>vi_panel = p, vi_session = s\<rparr> = (r, \<lparr>vi_panel = p, vi_session = s'\<rparr>)) \<Longrightarrow>
   from_the_door a s act"
  unfolding from_the_door_def by blast

lemma view_from_the_door:
  assumes a: "password_is_configured a" "\<not> bs_authenticated s" "wrong_password st a rq"
  shows "from_the_door a s (view_of st rq e)"
proof -
  have page: "from_the_door a s (login_required rq view)" for view
    by (rule from_the_doorI [where s' = s and r = "Inr (To_login (rq_path rq))"])
      (use a in \<open>simp_all add: page_for_stranger configured_def authenticated_def\<close>)
  have form: "from_the_door a s (login_form st rq)"
    by (rule from_the_doorI [where s' = "csrf_token (st_csrf_drawn st) s"]) (use a in \<open>simp_all add: login_form_run\<close>)
  have login: "from_the_door a s (login st rq)"
  proof (cases "rq_verb rq = POST \<and> (\<exists>e. password_matches (st_hasher st) (load_auth_record a)
      (text_of_field (rq_form rq) ''password'') = Inl e)")
    case True
    then obtain e where "password_matches (st_hasher st) (load_auth_record a)
      (text_of_field (rq_form rq) ''password'') = Inl e" by blast
    then show ?thesis
      by (intro from_the_doorI [where s' = s and r = "Inl e"]) (use a True in \<open>auto simp: login_for_stranger configured_def\<close>)
  next
    case False
    then have "login st rq \<lparr>vi_panel = p, vi_session = s\<rparr> = login_form st rq \<lparr>vi_panel = p, vi_session = s\<rparr>"
      if "pn_auth p = a" for p
      using a that by (auto simp: login_for_stranger configured_def split: sum.split)
    then show ?thesis using form by (auto simp: from_the_door_def)
  qed
  have logout: "from_the_door a s logout"
    by (rule from_the_doorI [where s' = "s\<lparr>bs_authenticated := False\<rparr>"]) (simp_all add: logout_def on_session_def)
  have set_password: "from_the_door a s (set_password st rq)"
    by (rule from_the_doorI [where s' = s and r = "Inr (To_login (lit ''/set-password''))"])
      (use a in \<open>simp_all add: set_password_for_stranger configured_def authenticated_def\<close>)
  have ret: "from_the_door a s (ret r)" for r
    by (rule from_the_doorI [where s' = s]) (use a in simp_all)
  show ?thesis by (cases e) (simp_all add: page login logout set_password ret)
qed

lemma request_from_the_door:
  assumes a: "password_is_configured a" "\<not> bs_authenticated s" "wrong_password st a rq"
  obtains r s' where "\<not> bs_authenticated s'"
    "\<And>p. pn_auth p = a \<Longrightarrow>
      handle_web_request st rq \<lparr>vi_panel = p, vi_session = s\<rparr> = (r, \<lparr>vi_panel = p, vi_session = s'\<rparr>)"
proof -
  let ?view = "case route (rq_verb rq) (rq_path rq) of None \<Rightarrow> ret Not_found | Some e \<Rightarrow> view_of st rq e"
  let ?checked = "bind (require_usable_auth_file rq)
    (\<lambda>locked. case locked of Some r \<Rightarrow> ret r | None \<Rightarrow> ?view)"
  have ret: "from_the_door a s (ret r)" for r :: reply
    by (rule from_the_doorI [where s' = s]) (use a in simp_all)
  have view: "from_the_door a s ?view"
    using view_from_the_door [OF a] ret by (simp split: option.split)
  have checked: "from_the_door a s ?checked"
  proof (cases "route (rq_verb rq) (rq_path rq) = Some Static \<or> for_agents (rq_path rq)")
    case True
    then show ?thesis using view by (simp add: require_usable_auth_file_def)
  next
    case False
    then have run: "?checked \<lparr>vi_panel = p, vi_session = s\<rparr> =
        (case auth_file_problem a of None \<Rightarrow> ?view \<lparr>vi_panel = p, vi_session = s\<rparr>
         | Some q \<Rightarrow> ret (Locked q) \<lparr>vi_panel = p, vi_session = s\<rparr>)" if "pn_auth p = a" for p
      using that by (simp add: require_usable_auth_file_def split: option.split)
    show ?thesis
    proof (cases "auth_file_problem a")
      case None then show ?thesis using view run by (auto simp: from_the_door_def)
    next
      case (Some q) then show ?thesis using ret [of "Locked q"] run by (auto simp: from_the_door_def)
    qed
  qed
  have "from_the_door a s (dispatch_request st rq)"
  proof (cases "for_agents (rq_path rq) \<or> rq_verb rq \<noteq> POST")
    case True
    then show ?thesis using checked by (simp add: dispatch_request_def require_csrf_on_post_def)
  next
    case False
    then have run: "dispatch_request st rq \<lparr>vi_panel = p, vi_session = s\<rparr> =
        (case csrf_valid s (rq_form rq (lit ''csrf_token'')) (rq_csrf_header rq) of
           Inl e \<Rightarrow> raising e \<lparr>vi_panel = p, vi_session = s\<rparr>
         | Inr ok \<Rightarrow> (if ok then ?checked else ret Bad_request) \<lparr>vi_panel = p, vi_session = s\<rparr>)" for p
      by (simp add: dispatch_request_def require_csrf_on_post_def bind_assoc bind_def split: sum.split)
    show ?thesis
    proof (cases "csrf_valid s (rq_form rq (lit ''csrf_token'')) (rq_csrf_header rq)")
      case (Inl e)
      then show ?thesis using run a by (intro from_the_doorI [where s' = s and r = "Inl e"]) simp_all
    next
      case (Inr ok)
      then show ?thesis using run checked ret [of Bad_request] by (cases ok) (simp_all add: from_the_door_def)
    qed
  qed
  then obtain r s' where r: "\<not> bs_authenticated s'"
    "\<And>p. pn_auth p = a \<Longrightarrow> dispatch_request st rq \<lparr>vi_panel = p, vi_session = s\<rparr> = (r, \<lparr>vi_panel = p, vi_session = s'\<rparr>)"
    unfolding from_the_door_def by blast
  show ?thesis
    by (rule that [of s' "case r of Inr x \<Rightarrow> x | Inl e \<Rightarrow> Failed e"])
      (use r in \<open>simp_all add: handle_web_request_def split: sum.split\<close>)
qed

text \<open>
  C10. A stranger learns nothing and changes nothing: while a password is set, whatever a
  browser that is not logged in asks for (any method, path, form or token, in any order,
  with any wrong password), its replies are the same for any two panels with the same
  password file, whatever computers, usage or sessions they know; it stays logged out, and
  every panel it meets is left as it was.
\<close>

theorem stranger_learns_and_changes_nothing:
  assumes "\<not> bs_authenticated s"
    and "list_all2 (\<lambda>(st, rq, p) (st', rq', q). st' = st \<and> rq' = rq \<and> pn_auth q = pn_auth p) xs ys"
    and "list_all (\<lambda>(st, rq, p). password_is_configured (pn_auth p) \<and> wrong_password st (pn_auth p) rq) xs"
  shows "\<not> bs_authenticated (snd (browse xs s))
    \<and> snd (browse ys s) = snd (browse xs s)
    \<and> map fst (fst (browse ys s)) = map fst (fst (browse xs s))
    \<and> map snd (fst (browse xs s)) = map (\<lambda>(st, rq, p). p) xs"
  using assms
proof (induction xs arbitrary: s ys)
  case Nil
  then show ?case by simp
next
  case (Cons x xs)
  obtain st rq p where x: "x = (st, rq, p)" by (cases x)
  obtain q zs where y: "ys = (st, rq, q) # zs" "pn_auth q = pn_auth p"
    and rest: "list_all2 (\<lambda>(st, rq, p) (st', rq', q). st' = st \<and> rq' = rq \<and> pn_auth q = pn_auth p) xs zs"
    using Cons.prems(2) x by (auto simp: list_all2_Cons1)
  have stranger: "password_is_configured (pn_auth p)" "wrong_password st (pn_auth p) rq"
    using Cons.prems(3) x by simp_all
  obtain r s' where s': "\<not> bs_authenticated s'"
    and run: "\<And>u. pn_auth u = pn_auth p \<Longrightarrow>
      handle_web_request st rq \<lparr>vi_panel = u, vi_session = s\<rparr> = (r, \<lparr>vi_panel = u, vi_session = s'\<rparr>)"
    using request_from_the_door [OF stranger(1) Cons.prems(1) stranger(2)] by metis
  show ?case
    using run [OF refl] run [OF y(2)] Cons.IH [OF s' rest] Cons.prems(3) x y by (auto split: prod.splits)
qed

section \<open>Forged forms and damaged files\<close>

definition token_ok :: "web_request \<Rightarrow> browser_session \<Rightarrow> bool" where
  "token_ok rq s \<longleftrightarrow> csrf_valid s (rq_form rq (lit ''csrf_token'')) (rq_csrf_header rq) = Inr True"

definition view_at :: "site \<Rightarrow> web_request \<Rightarrow> reply view" where
  "view_at st rq = (case route (rq_verb rq) (rq_path rq) of None \<Rightarrow> ret Not_found | Some e \<Rightarrow> view_of st rq e)"

lemma dispatch_cases:
  obtains
    (token) "rq_verb rq = POST" "\<not> for_agents (rq_path rq)" "\<not> token_ok rq (vi_session v)"
      "dispatch_request st rq v = (Inr Bad_request, v) \<or> (\<exists>e. dispatch_request st rq v = (Inl e, v))"
  | (locked) q where "auth_file_problem (pn_auth (vi_panel v)) = Some q"
      "route (rq_verb rq) (rq_path rq) \<noteq> Some Static" "\<not> for_agents (rq_path rq)"
      "dispatch_request st rq v = (Inr (Locked q), v)"
  | (free) "rq_verb rq = POST \<Longrightarrow> \<not> for_agents (rq_path rq) \<Longrightarrow> token_ok rq (vi_session v)"
      "auth_file_problem (pn_auth (vi_panel v)) = None \<or> route (rq_verb rq) (rq_path rq) = Some Static
        \<or> for_agents (rq_path rq)"
      "dispatch_request st rq v = view_at st rq v"
proof (cases "rq_verb rq = POST \<and> \<not> for_agents (rq_path rq) \<and> \<not> token_ok rq (vi_session v)")
  case True
  then show ?thesis
    by (intro token) (auto simp: dispatch_request_def require_csrf_on_post_def token_ok_def bind_assoc split: sum.split)
next
  case False
  then have csrf: "require_csrf_on_post rq v = (Inr None, v)"
    by (auto simp: require_csrf_on_post_def token_ok_def)
  then have d: "dispatch_request st rq v = bind (require_usable_auth_file rq)
     (\<lambda>locked. case locked of Some r \<Rightarrow> ret r | None \<Rightarrow> view_at st rq) v"
    unfolding dispatch_request_def view_at_def by (simp add: bind_def)
  show ?thesis
  proof (cases "route (rq_verb rq) (rq_path rq) = Some Static \<or> for_agents (rq_path rq)")
    case True
    then show ?thesis using d False by (intro free) (auto simp: require_usable_auth_file_def)
  next
    case not_open: False
    show ?thesis
    proof (cases "auth_file_problem (pn_auth (vi_panel v))")
      case None
      then show ?thesis using d not_open False by (intro free) (auto simp: require_usable_auth_file_def)
    next
      case (Some q)
      then show ?thesis using d not_open by (intro locked [of q]) (auto simp: require_usable_auth_file_def)
    qed
  qed
qed

lemma route_Static_get: "route v path = Some Static \<Longrightarrow> v = GET"
  unfolding route_def route_one_def route_two_def route_three_def
  by (cases v) (auto split: list.splits option.splits if_splits)

text \<open>
  C12. A damaged password file locks the panel: while the file exists but cannot be used (it
  cannot be read, is not a JSON object, or has a hash the panel cannot check), no request
  changes the panel or the browser's standing, and nothing is served but the notice that the
  panel is locked, static files, the discovery answer and error pages.
\<close>

theorem damaged_password_file_locks_the_panel:
  assumes "auth_file_problem (pn_auth (vi_panel v)) = Some q"
  shows "snd (handle_web_request st rq v) = v
    \<and> fst (handle_web_request st rq v)
      \<in> {Locked q, Bad_request, Failed TypeError, Static_file, Discovery (st_reverse_port st), Not_found}"
proof -
  have type: "csrf_valid s f h = Inl e \<Longrightarrow> e = TypeError" for s f h e
    by (auto simp: csrf_valid_def Let_def split: option.splits if_splits)
  show ?thesis
  proof (cases rule: dispatch_cases [where st = st and rq = rq and v = v])
    case token
    have "\<exists>r. dispatch_request st rq v = (r, v) \<and> (r = Inr Bad_request \<or> r = Inl TypeError)"
      using token by (auto simp: dispatch_request_def require_csrf_on_post_def token_ok_def bind_assoc bind_def
          dest: type split: sum.split)
    then show ?thesis by (auto simp: handle_web_request_def)
  next
    case (locked q')
    then show ?thesis using assms by (simp add: handle_web_request_def)
  next
    case free
    then consider "route (rq_verb rq) (rq_path rq) = Some Static" | "for_agents (rq_path rq)"
      using assms by auto
    then have "view_at st rq v \<in> {(Inr Static_file, v), (Inr (Discovery (st_reverse_port st)), v), (Inr Not_found, v)}"
      by cases (auto simp: view_at_def dest: agents_only_discover [where v = "rq_verb rq"])
    then show ?thesis using free by (auto simp: handle_web_request_def)
  qed
qed

text \<open>What the views that answer a GET leave behind, and what only \<open>/action\<close> answers.\<close>

lemma keeps_login_required: "keeps same_standing view \<Longrightarrow> keeps same_standing (login_required rq view)"
  unfolding login_required_def by (intro looking.keeps_rules)

lemma keeps_GET_pages:
  assumes "rq_verb rq = GET"
  shows "keeps same_standing (login st rq)" "keeps same_standing (set_password st rq)"
proof -
  have get: "(rq_verb rq = POST) = False" using assms by simp
  show "keeps same_standing (login st rq)"
    unfolding login_def get if_False by (intro looking_rules keeps_pages)
  show "keeps same_standing (set_password st rq)"
    unfolding set_password_def get if_False by (intro looking_rules)
qed

definition no_more_rights :: "visit \<Rightarrow> visit \<Rightarrow> bool" where
  "no_more_rights v w \<longleftrightarrow> vi_panel w = vi_panel v \<and> (authenticated w \<longrightarrow> authenticated v)"

lemma keeps_no_more_rights: "keeps same_standing m \<Longrightarrow> keeps no_more_rights m"
  by (auto simp: keeps_def same_standing_def no_more_rights_def authenticated_def)

lemma keeps_GET_views:
  assumes "rq_verb rq = GET"
  shows "keeps no_more_rights (view_of st rq e)"
proof (cases e)
  case Logout
  then show ?thesis by (simp add: keeps_def logout_def on_session_def no_more_rights_def authenticated_def)
qed (use assms in \<open>auto intro!: keeps_no_more_rights keeps_login_required keeps_pages keeps_GET_pages
    simp: looking.keeps_pure\<close>)

definition not_an_action :: "reply res \<Rightarrow> bool" where
  "not_an_action r \<longleftrightarrow> (\<forall>ok m. r \<noteq> Inr (Action_result ok m))"

lemma not_an_action_render: "(\<And>ok m. page \<noteq> Action_result ok m) \<Longrightarrow> not_an_action (fst (render st page v))"
  by (simp add: render_def on_session_def not_an_action_def)


lemma only_action_acts:
  assumes "e \<noteq> Do_action"
  shows "not_an_action (fst (view_of st rq e v))"
proof -
  note r = not_an_action_def render_def on_session_def bind_def
  have page: "not_an_action (fst (login_required rq view v))" if "not_an_action (fst (view v))" for view
    using that by (simp add: login_required_def not_an_action_def)
  have form: "not_an_action (fst (login_form st rq v))" for v
    by (simp add: login_form_run not_an_action_def)
  have "not_an_action (fst (index st v))" "not_an_action (fst (control st t v))"
    "not_an_action (fst (control_poll_meta st t v))" "not_an_action (fst (control_stats st rq t v))"
    "not_an_action (fst (daily_settings_page st t v))" "not_an_action (fst (usage_history st t v))"
    "not_an_action (fst (logout v))" for t
    unfolding index_def control_def control_poll_meta_def control_stats_def daily_settings_page_def
      usage_history_def logout_def
    by (auto simp: r Let_def split: sum.splits prod.splits option.splits)
  moreover have "not_an_action (fst (agent_logs st t v))" for t
    unfolding agent_logs_def by (auto simp: r Let_def split: sum.splits prod.splits option.splits)
  moreover have "not_an_action (fst (login st rq v))"
    unfolding login_def using form by (auto simp: r Let_def split: sum.splits prod.splits)
  moreover have "not_an_action (fst (set_password st rq v))"
    unfolding set_password_def store_password_def
    by (auto simp: r Let_def split: sum.splits prod.splits)
  moreover have "not_an_action (fst (ret Static_file v))"
    "not_an_action (fst (ret (Discovery (st_reverse_port st)) v))"
    by (simp_all add: not_an_action_def)
  ultimately show ?thesis using assms by (cases e) (auto intro!: page)
qed


lemma handle_view:
  assumes "dispatch_request st rq v = view_at st rq v" "route (rq_verb rq) (rq_path rq) = Some e"
  shows "handle_web_request st rq v =
    (case view_of st rq e v of (Inr r, w) \<Rightarrow> (r, w) | (Inl x, w) \<Rightarrow> (Failed x, w))"
  using assms by (simp add: handle_web_request_def view_at_def)

lemma handle_not_an_action:
  "not_an_action (fst (view_of st rq e v)) \<Longrightarrow> dispatch_request st rq v = view_at st rq v \<Longrightarrow>
   route (rq_verb rq) (rq_path rq) = Some e \<Longrightarrow> fst (handle_web_request st rq v) \<noteq> Action_result ok m"
  by (auto simp: handle_view not_an_action_def split: prod.split sum.split)

lemma route_action_POST: "route v path = Some Do_action \<Longrightarrow> v = POST"
  unfolding route_def route_path_def route_one_def route_two_def route_three_def
  by (cases v) (auto split: list.splits option.splits if_splits)

text \<open>
  The views reach a computer only through \<open>st_run\<close>, what the loop of its session answers to a
  request that is put into its queue. Apart from the log page and the form of the actions none
  does, and the log page only ever asks for logs.
\<close>

definition asks_logs_only :: "(session \<Rightarrow> panel_request \<Rightarrow> response res) \<Rightarrow> site \<Rightarrow> bool" where
  "asks_logs_only run st \<longleftrightarrow>
     (\<forall>s tail. run s (lit ''get_logs'', None, JNull, tail) = st_run st s (lit ''get_logs'', None, JNull, tail))"

lemma other_site:
  "st_hasher (st\<lparr>st_run := run\<rparr>) = st_hasher st" "st_python (st\<lparr>st_run := run\<rparr>) = st_python st"
  "st_zone (st\<lparr>st_run := run\<rparr>) = st_zone st" "st_casefold (st\<lparr>st_run := run\<rparr>) = st_casefold st"
  "st_is_ip (st\<lparr>st_run := run\<rparr>) = st_is_ip st" "st_str (st\<lparr>st_run := run\<rparr>) = st_str st"
  "st_reverse_port (st\<lparr>st_run := run\<rparr>) = st_reverse_port st" "st_now (st\<lparr>st_run := run\<rparr>) = st_now st"
  "st_csrf_drawn (st\<lparr>st_run := run\<rparr>) = st_csrf_drawn st" "st_key_drawn (st\<lparr>st_run := run\<rparr>) = st_key_drawn st"
  "st_run (st\<lparr>st_run := run\<rparr>) = run"
  by simp_all

lemma other_runs:
  "resolve_control_target (st\<lparr>st_run := run\<rparr>) db t = resolve_control_target st db t"
  "offline_pc_info (st\<lparr>st_run := run\<rparr>) db ip h i = offline_pc_info st db ip h i"
  "render (st\<lparr>st_run := run\<rparr>) page = render st page"
  "store_password (st\<lparr>st_run := run\<rparr>) password = store_password st password"
  unfolding resolve_control_target_def offline_pc_info_def render_def store_password_def other_site by (rule refl)+

lemma other_runs_fetch:
  "fetch_control_pc_info (st\<lparr>st_run := run\<rparr>) p t = fetch_control_pc_info st p t"
  "fetch_control_pc_info_cached (st\<lparr>st_run := run\<rparr>) p t = fetch_control_pc_info_cached st p t"
  unfolding fetch_control_pc_info_def fetch_control_pc_info_cached_def other_runs by (rule refl)+

lemma other_runs_forms: "login_form (st\<lparr>st_run := run\<rparr>) rq = login_form st rq"
  unfolding login_form_def other_runs by (rule refl)

lemma logs_ask_logs:
  assumes "asks_logs_only run st"
  shows "agent_logs (st\<lparr>st_run := run\<rparr>) ip = agent_logs st ip"
proof -
  have "run s (lit ''get_logs'', None, JNull, t) = st_run st s (lit ''get_logs'', None, JNull, t)" for s t
    using assms by (simp add: asks_logs_only_def)
  then have "get_logs srv run ip n = get_logs srv (st_run st) ip n" for srv n
    by (auto simp: get_logs_def submit_def split: option.split)
  then show ?thesis unfolding agent_logs_def other_runs other_site by (simp cong: option.case_cong)
qed

lemma view_asks_logs:
  assumes "asks_logs_only run st" and "e \<noteq> Do_action"
  shows "view_of (st\<lparr>st_run := run\<rparr>) rq e = view_of st rq e"
proof -
  note views = login_def set_password_def index_def control_def control_poll_meta_def control_stats_def
    daily_settings_page_def usage_history_def
  have "login (st\<lparr>st_run := run\<rparr>) rq = login st rq" "set_password (st\<lparr>st_run := run\<rparr>) rq = set_password st rq"
    "index (st\<lparr>st_run := run\<rparr>) = index st" "control (st\<lparr>st_run := run\<rparr>) t = control st t"
    "control_poll_meta (st\<lparr>st_run := run\<rparr>) t = control_poll_meta st t"
    "control_stats (st\<lparr>st_run := run\<rparr>) rq t = control_stats st rq t"
    "daily_settings_page (st\<lparr>st_run := run\<rparr>) t = daily_settings_page st t"
    "usage_history (st\<lparr>st_run := run\<rparr>) t = usage_history st t" for t
    unfolding views other_runs other_runs_fetch other_runs_forms other_site by (rule refl)+
  then show ?thesis using assms(2) logs_ask_logs [OF assms(1)] by (cases e) simp_all
qed

lemma handled_alike:
  assumes "\<And>e. route (rq_verb rq) (rq_path rq) = Some e \<Longrightarrow> view_of st' rq e = view_of st rq e"
  shows "handle_web_request st' rq v = handle_web_request st rq v"
proof -
  have "(case route (rq_verb rq) (rq_path rq) of None \<Rightarrow> ret Not_found | Some e \<Rightarrow> view_of st' rq e)
      = (case route (rq_verb rq) (rq_path rq) of None \<Rightarrow> ret Not_found | Some e \<Rightarrow> view_of st rq e)"
    using assms by (auto split: option.split)
  then show ?thesis unfolding handle_web_request_def dispatch_request_def by (rule arg_cong)
qed

lemma refused_alike:
  assumes "rq_verb rq = POST" and "\<not> token_ok rq (vi_session v)"
  shows "handle_web_request st' rq v = handle_web_request (st'\<lparr>st_run := run\<rparr>) rq v"
proof (cases "for_agents (rq_path rq)")
  case True
  then have "route (rq_verb rq) (rq_path rq) \<in> {None, Some Agent_discover}"
    using agents_only_discover by blast
  then show ?thesis by (intro handled_alike) auto
next
  case False
  then show ?thesis
    using assms by (cases "csrf_valid (vi_session v) (rq_form rq (lit ''csrf_token'')) (rq_csrf_header rq)")
      (auto simp: handle_web_request_def dispatch_request_def require_csrf_on_post_def bind_def token_ok_def)
qed

lemma tokenless_changes_nothing:
  assumes "\<not> token_ok rq (vi_session v)"
  shows "vi_panel (snd (handle_web_request st rq v)) = vi_panel v
    \<and> (authenticated (snd (handle_web_request st rq v)) \<longrightarrow> authenticated v)
    \<and> fst (handle_web_request st rq v) \<noteq> Action_result ok m"
proof (cases rule: dispatch_cases [where st = st and rq = rq and v = v])
  case free
  show ?thesis
  proof (cases "route (rq_verb rq) (rq_path rq)")
    case None
    then show ?thesis using free(3) by (simp add: handle_web_request_def view_at_def)
  next
    case (Some e)
    have "e = Agent_discover \<or> rq_verb rq = GET"
      using free(1) assms Some agents_only_discover [of "rq_path rq" "rq_verb rq"] by (cases "rq_verb rq") auto
    then have "keeps no_more_rights (view_of st rq e)"
      using keeps_GET_views keeps_no_more_rights [OF looking.keeps_pure(1)] by auto
    then have "no_more_rights v (snd (view_of st rq e v))" by (simp add: keeps_def)
    then have "no_more_rights v (snd (handle_web_request st rq v))"
      by (auto simp: handle_view [OF free(3) Some] split: prod.split sum.split)
    moreover have "e \<noteq> Do_action"
      using \<open>e = Agent_discover \<or> rq_verb rq = GET\<close> Some by (auto dest: route_action_POST)
    ultimately show ?thesis
      using handle_not_an_action [OF only_action_acts free(3) Some] by (auto simp: no_more_rights_def)
  qed
qed (auto simp: handle_web_request_def)

text \<open>
  C11. A forged form does nothing: a POST without the token the browser's session holds
  (another site's form, or no session at all) leaves the panel as it was, gives the browser
  no login it did not have, shows no result of an action, and asks no computer anything: the
  answer is the same whatever the computers would answer. A request of another kind without
  the token changes no more than that, and the only thing a computer can be asked by it is its
  log (by the log page, for a browser that may see it).
\<close>

theorem forged_request_does_nothing:
  assumes "\<not> token_ok rq (vi_session v)"
  shows "vi_panel (snd (handle_web_request st rq v)) = vi_panel v
    \<and> (authenticated (snd (handle_web_request st rq v)) \<longrightarrow> authenticated v)
    \<and> fst (handle_web_request st rq v) \<noteq> Action_result ok m
    \<and> (rq_verb rq = POST \<or> asks_logs_only run st
       \<longrightarrow> handle_web_request (st\<lparr>st_run := run\<rparr>) rq v = handle_web_request st rq v)"
proof -
  have alone: "vi_panel (snd (handle_web_request st rq v)) = vi_panel v
    \<and> (authenticated (snd (handle_web_request st rq v)) \<longrightarrow> authenticated v)
    \<and> fst (handle_web_request st rq v) \<noteq> Action_result ok m"
    by (rule tokenless_changes_nothing [OF assms])
  moreover have "handle_web_request (st\<lparr>st_run := run\<rparr>) rq v = handle_web_request st rq v"
    if "rq_verb rq = POST"
    using refused_alike [OF that assms, of st run] by simp
  moreover have "handle_web_request (st\<lparr>st_run := run\<rparr>) rq v = handle_web_request st rq v"
    if "asks_logs_only run st" "rq_verb rq \<noteq> POST"
    using view_asks_logs [OF that(1)] that(2) route_action_POST by (intro handled_alike) metis
  ultimately show ?thesis by blast
qed

section \<open>Changing the password\<close>

text \<open>What the panel and the session are once a password is stored.\<close>

definition password_record :: "site \<Rightarrow> jdict option \<Rightarrow> pystr \<Rightarrow> jdict" where
  "password_record st loaded password =
     [(lit ''secret_key'', JStr (case panel_secret_key loaded of Some k \<Rightarrow> k | None \<Rightarrow> st_key_drawn st)),
      (lit ''password_hash'', JStr (h_generate (st_hasher st) password))]"

definition with_password :: "site \<Rightarrow> pystr \<Rightarrow> panel \<Rightarrow> panel" where
  "with_password st password p =
     (let a = (pn_auth p)\<lparr>as_canonical := Holds (JObj (password_record st (load_auth_record (pn_auth p)) password))\<rparr>;
          key = (case panel_secret_key (load_auth_record a) of Some k \<Rightarrow> k | None \<Rightarrow> pn_secret_key p)
      in p\<lparr>pn_auth := a, pn_secret_key := key\<rparr>)"

lemma panel_secret_key_empty: "panel_secret_key (Some []) = None"
  by (simp add: panel_secret_key_def jget_def)

lemma store_password_run:
  assumes "auth_file_problem (pn_auth (vi_panel v)) = None"
  shows "store_password st password v =
    (if as_writable (pn_auth (vi_panel v))
     then (Inr (Redirect index_url),
           v\<lparr>vi_panel := with_password st password (vi_panel v),
             vi_session := (vi_session v)\<lparr>bs_authenticated := True\<rparr>\<rparr>)
     else (Inl (OSError (lit ''auth file'')), v))"
proof -
  obtain l where l: "read_auth_file (pn_auth (vi_panel v)) = (l, None)"
    using assms by (cases "read_auth_file (pn_auth (vi_panel v))") (simp add: auth_file_problem_def)
  have k: "panel_secret_key (Some (case l of None \<Rightarrow> [] | Some r \<Rightarrow> r)) = panel_secret_key l"
    by (cases l) (simp_all add: panel_secret_key_empty, simp add: panel_secret_key_def)
  show ?thesis
    using l k
    by (simp add: store_password_def save_password_def zoom_def bind_def on_session_def with_password_def
        password_record_def load_auth_record_def Let_def split: option.split)
qed

lemma set_password_POST:
  assumes "rq_verb rq = POST" "\<not> (configured v \<and> \<not> authenticated v)"
  defines "password \<equiv> text_of_field (rq_form rq) ''password''"
  shows "set_password st rq v =
    (case (if configured v
           then password_matches (st_hasher st) (load_auth_record (pn_auth (vi_panel v)))
                  (text_of_field (rq_form rq) ''current_password'')
           else Inr True) of
       Inl e \<Rightarrow> (Inl e, v)
     | Inr allowed \<Rightarrow>
         if allowed \<and> 8 \<le> length password \<and> password = text_of_field (rq_form rq) ''password_confirm''
         then store_password st password v else render st (Password_form (configured v)) v)"
  using assms by (auto simp: set_password_def Let_def bind_def split: sum.split)

lemma render_run:
  "render st page v = (Inr page, v\<lparr>vi_session := csrf_token (st_csrf_drawn st) (vi_session v)\<rparr>)"
  by (simp add: render_def on_session_def)

lemma set_password_moved:
  assumes "rq_verb rq = POST" "\<not> (configured v \<and> \<not> authenticated v)"
    "auth_file_problem (pn_auth (vi_panel v)) = None" "vi_panel (snd (set_password st rq v)) \<noteq> vi_panel v"
  defines "password \<equiv> text_of_field (rq_form rq) ''password''"
  shows "(configured v \<longrightarrow> password_matches (st_hasher st) (load_auth_record (pn_auth (vi_panel v)))
          (text_of_field (rq_form rq) ''current_password'') = Inr True)
    \<and> text_of_field (rq_form rq) ''password_confirm'' = password \<and> 8 \<le> length password
    \<and> vi_panel (snd (set_password st rq v)) = with_password st password (vi_panel v)"
proof (cases "if configured v
    then password_matches (st_hasher st) (load_auth_record (pn_auth (vi_panel v)))
           (text_of_field (rq_form rq) ''current_password'')
    else Inr True")
  case (Inl e)
  then have "set_password st rq v = (Inl e, v)" by (subst set_password_POST [OF assms(1,2)]) simp
  then show ?thesis using assms(4) by simp
next
  case (Inr allowed)
  then have run: "set_password st rq v =
      (if allowed \<and> 8 \<le> length password \<and> password = text_of_field (rq_form rq) ''password_confirm''
       then store_password st password v else render st (Password_form (configured v)) v)"
    unfolding password_def by (subst set_password_POST [OF assms(1,2)]) simp
  then have ok: allowed "8 \<le> length password" "password = text_of_field (rq_form rq) ''password_confirm''"
    using assms(4) by (auto simp: render_run split: if_splits)
  then have "vi_panel (snd (set_password st rq v)) = with_password st password (vi_panel v)"
    using run assms(3,4) by (simp add: store_password_run split: if_splits)
  then show ?thesis using ok Inr by (auto split: if_splits)
qed

lemma other_views_keep_panel:
  assumes "e \<noteq> Set_password \<or> rq_verb rq = GET"
  shows "vi_panel (snd (view_of st rq e v)) = vi_panel v"
proof -
  have same: "vi_panel (snd (m v)) = vi_panel v" if "keeps same_standing m" for m :: "reply view"
    using that by (simp add: keeps_def same_standing_def)
  have "vi_panel (snd (login st rq v)) = vi_panel v"
    by (auto simp: login_def login_form_run on_session_def bind_def Let_def split: sum.split)
  moreover have "vi_panel (snd (logout v)) = vi_panel v"
    by (simp add: logout_def on_session_def)
  ultimately show ?thesis using assms
    by (cases e) (auto intro!: same keeps_login_required keeps_pages keeps_GET_pages)
qed


text \<open>A stored password is read back: the file in the configuration directory goes first.\<close>

lemma with_password_record:
  assumes "h_generate (st_hasher st) password \<noteq> []"
  shows "load_auth_record (pn_auth (with_password st password p))
      = Some (password_record st (load_auth_record (pn_auth p)) password)"
    and "auth_file_problem (pn_auth (with_password st password p)) = None"
    and "password_is_configured (pn_auth (with_password st password p))"
  using assms
  by (simp_all add: with_password_def load_auth_record_def auth_file_problem_def password_is_configured_def
      read_auth_file_def auth_path_def may_exist_def password_record_def stored_password_hash_def Let_def
      jget_def jhas_def lit_def is_json_str_def)

lemma password_record_matches:
  assumes "h_generate (st_hasher st) password \<noteq> []"
  shows "password_matches h (Some (password_record st l password)) attempt
    = h_check h (h_generate (st_hasher st) password) attempt"
  using assms
  by (simp add: password_matches_def verify_password_def stored_password_hash_def password_record_def jget_def lit_def)

lemma route_paths:
  "route v (lit ''/login'') = Some Login" "route v (lit ''/set-password'') = Some Set_password"
  "\<not> for_agents (lit ''/login'')" "\<not> for_agents (lit ''/set-password'')"
  by (simp_all add: route_def route_one_def route_path_def lit_def for_agents_def)

lemma dispatch_free:
  assumes "token_ok rq (vi_session v)" "auth_file_problem (pn_auth (vi_panel v)) = None"
  shows "dispatch_request st rq v = view_at st rq v"
  by (cases rule: dispatch_cases [where st = st and rq = rq and v = v]) (use assms in auto)

text \<open>
  C30. A password that was set is the one that logs in: once the password form has been
  accepted, any browser that holds a token gets in with a login form exactly when the hash
  function accepts what it typed for the new password's hash, in particular with the new
  password; it is led to the page it asked for, or to the first page if that is not a path
  of the panel. Otherwise it stays out.
\<close>

theorem stored_password_logs_in:
  assumes "handle_web_request st rq v = (Redirect index_url, w)" and "rq_path rq = lit ''/set-password''"
    and "rq_verb rq = POST"
    and "h_generate (st_hasher st) (text_of_field (rq_form rq) ''password'') \<noteq> []"
    and "rq_path again = lit ''/login''" and "rq_verb again = POST"
    and "token_ok again browser" and "\<not> bs_authenticated browser"
    and "st_hasher st' = st_hasher st"
    and "h_check (st_hasher st) (h_generate (st_hasher st) (text_of_field (rq_form rq) ''password''))
           (text_of_field (rq_form again) ''password'') = Inr accepted"
  defines "visit2 \<equiv> handle_web_request st' again \<lparr>vi_panel = vi_panel w, vi_session = browser\<rparr>"
  shows "vi_panel (snd visit2) = vi_panel w \<and> (authenticated (snd visit2) \<longleftrightarrow> accepted)
    \<and> (accepted \<longrightarrow> fst visit2 = Redirect (safe_next_url (rq_form again (lit ''next''))))"
proof -
  let ?password = "text_of_field (rq_form rq) ''password''"
  let ?p = "with_password st ?password (vi_panel v)"
  let ?u = "\<lparr>vi_panel = ?p, vi_session = browser\<rparr>"
  have w: "vi_panel w = ?p"
  proof (cases rule: dispatch_cases [where st = st and rq = rq and v = v])
    case free
    then have "auth_file_problem (pn_auth (vi_panel v)) = None" "handle_web_request st rq v =
        (case set_password st rq v of (Inr r, w) \<Rightarrow> (r, w) | (Inl x, w) \<Rightarrow> (Failed x, w))"
      using assms(2,3) handle_view [OF free(3), of Set_password] by (simp_all add: route_paths)
    moreover have "\<not> (configured v \<and> \<not> authenticated v)"
      using assms(1) calculation(2) by (cases "configured v \<and> \<not> authenticated v") (simp_all add: set_password_for_stranger)
    ultimately show ?thesis
      using assms(1,3)
      by (auto simp: set_password_POST render_run store_password_run split: sum.splits if_splits)
  qed (use assms in \<open>auto simp: handle_web_request_def\<close>)
  note stored = with_password_record [OF assms(4), of "vi_panel v"]
  have "dispatch_request st' again ?u = view_at st' again ?u"
    using assms(7) stored(2) by (intro dispatch_free) simp_all
  then have "visit2 = (case login st' again ?u of (Inr r, w) \<Rightarrow> (r, w) | (Inl x, w) \<Rightarrow> (Failed x, w))"
    using assms(5,6) handle_view [of st' again ?u Login] by (simp add: visit2_def w route_paths)
  moreover have "login st' again ?u =
     (if accepted then (Inr (Redirect (safe_next_url (rq_form again (lit ''next'')))),
          ?u\<lparr>vi_session := browser\<lparr>bs_authenticated := True\<rparr>\<rparr>)
      else login_form st' again ?u)"
    using assms(6,9,10) stored(1,3)
    by (simp add: login_def configured_def password_record_matches [OF assms(4)] on_session_def)
  ultimately show ?thesis
    using assms(8) w by (auto simp: login_form_run authenticated_def)
qed

section \<open>What the page of a computer shows\<close>

lemma jget_absent: "\<not> jhas d k \<Longrightarrow> jget d k = JNull"
  by (simp add: jget_def jhas_def)

text \<open>The keys of a computer's entry that the page sets itself, and what an offline page shows.\<close>

definition page_keys :: "string set" where
  "page_keys = {''reachable'', ''is_snapshot'', ''snapshot_recorded_at'', ''ip'', ''connection_error'', ''agent_not_running''}"

definition last_seen :: "panel_db \<Rightarrow> pystr \<Rightarrow> pystr option \<Rightarrow> jdict \<Rightarrow> jdict \<Rightarrow> bool" where
  "last_seen db ip h entry info \<longleftrightarrow>
     jget info ''reachable'' = JBool False \<and> jget info ''ip'' = JStr ip \<and>
     (case get_latest_panel_snapshot_for_pc h (Some ip) db of
        None \<Rightarrow> \<forall>k. k \<notin> {''hostname'', ''ip'', ''reachable''} \<longrightarrow> jget info k = jget entry k
      | Some (t, payload) \<Rightarrow>
          jget info ''is_snapshot'' = JBool True \<and> jget info ''snapshot_recorded_at'' = JStr (text_of_time t)
          \<and> (\<forall>k. k \<notin> page_keys \<longrightarrow> jget info k = jget payload k))"

lemma apply_pc_snapshot_offline:
  assumes "apply_pc_snapshot str db d ip = Inr info"
    and "jget d ''reachable'' = JBool False" and "jhas d ''reachable''" and "jget d ''ip'' = JStr ip"
    and "\<And>k. k \<notin> {''hostname'', ''ip'', ''reachable''} \<Longrightarrow> jget d k = jget entry k"
  obtains h where "hostname_param (snapshot_lookup_hostname str db d ip) = Inr h" "last_seen db ip h entry info"
proof -
  have down: "\<not> jtruthy (jget_or d ''reachable'' (JBool True))"
    using assms(2,3) by (simp add: jget_or_def jtruthy_def)
  with assms(1) obtain h where h: "hostname_param (snapshot_lookup_hostname str db d ip) = Inr h"
    by (auto simp: apply_pc_snapshot_def res_simps)
  show ?thesis
  proof (cases "get_latest_panel_snapshot_for_pc h (Some ip) db")
    case None
    then have "info = d" using assms(1) down h by (simp add: apply_pc_snapshot_def)
    then show ?thesis using that [OF h] None assms(2-5) by (simp add: last_seen_def)
  next
    case (Some q)
    obtain t payload where q: "q = (t, payload)" by (cases q)
    then have "last_seen db ip h entry info"
      using assms(1) down h Some by (auto simp: apply_pc_snapshot_def last_seen_def page_keys_def Let_def)
    then show ?thesis using that [OF h] by blast
  qed
qed

text \<open>
  The page of a computer shows its live agent, or says that it does not: when the panel
  holds a connection to an agent at the address, with settings reported, the page shows just
  those settings and the computer as reachable; otherwise the page shows the computer as not
  reachable, with the latest snapshot of its status and the time it was taken, or with what
  the last poll recorded if there is no snapshot. The snapshot is looked for under the
  computer's own name when the panel knows it.
\<close>

theorem control_page_is_live_or_last_seen:
  assumes "fetch_control_pc_info st p target = Inr (Inr (ip, info))"
  shows "case live_settings p ip of
      Some s \<Rightarrow> \<exists>shown. settings_to_pc_info (rs_pc_info s) ip (Some (rs_hostname s)) = Inr shown
        \<and> jget info ''reachable'' = JBool True \<and> jget info ''ip'' = JStr ip
        \<and> (\<forall>k. k \<notin> {''ip'', ''reachable''} \<longrightarrow> jget info k = jget shown k)
    | None \<Rightarrow> \<exists>entry h. get_scan_pc (pn_db p) ip = Some entry \<and> last_seen (pn_db p) ip h entry info
        \<and> (\<forall>n. jget entry ''hostname'' = JStr n \<longrightarrow> n \<noteq> [] \<longrightarrow> n \<noteq> placeholder ip \<longrightarrow> h = Some n)"
proof (cases "live_settings p ip")
  case (Some s)
  then show ?thesis
    using assms by (auto simp: fetch_control_pc_info_def res_simps split: option.splits)
next
  case None
  then obtain requested entry where e: "get_scan_pc (pn_db p) ip = Some entry"
    and o: "offline_pc_info st (pn_db p) ip requested (jset (jset entry ''ip'' (JStr ip)) ''reachable'' (JBool False)) = Inr info"
    using assms by (auto simp: fetch_control_pc_info_def res_simps split: option.splits)
  let ?entry = "jset (jset entry ''ip'' (JStr ip)) ''reachable'' (JBool False)"
  from o obtain name where a: "apply_pc_snapshot (st_str st) (pn_db p) (jmerge [(lit ''hostname'', name)] ?entry) ip = Inr info"
    by (auto simp: offline_pc_info_def Let_def)
  let ?d = "jmerge [(lit ''hostname'', name)] ?entry"
  from a obtain h where h: "hostname_param (snapshot_lookup_hostname (st_str st) (pn_db p) ?d ip) = Inr h"
    "last_seen (pn_db p) ip h entry info"
    by (rule apply_pc_snapshot_offline [where entry = entry]) (auto simp: dict_simps jget_absent)
  have "h = Some n" if "jget entry ''hostname'' = JStr n" "n \<noteq> []" "n \<noteq> placeholder ip" for n
  proof -
    have "jget ?d ''hostname'' = JStr n"
      using that jget_absent [of entry "''hostname''"] by (auto simp: dict_simps)
    then show ?thesis using h(1) that(2,3)
      by (simp add: snapshot_lookup_hostname_def hostname_param_def jtruthy_def res_simps sql_text_def split: if_splits)
  qed
  then show ?thesis using None e h(2) by auto
qed

section \<open>A concrete panel\<close>

text \<open>A hash that can be checked, a panel with and one without a password, and requests to them.\<close>

definition sample_site :: site where
  "sample_site =
     \<lparr>st_hasher = \<lparr>h_check = (\<lambda>h p. Inr (h = 104 # p)), h_generate = (\<lambda>p. 104 # p)\<rparr>,
      st_python = sample_python, st_zone = (\<lambda>_. 0), st_casefold = (\<lambda>s. s), st_is_ip = (\<lambda>s. take 3 s = lit ''10.''),
      st_str = (\<lambda>v. case v of JStr s \<Rightarrow> s | _ \<Rightarrow> []), st_reverse_port = 5001, st_now = sample_time,
      st_csrf_drawn = lit ''drawn'', st_key_drawn = lit ''0123456789abcdef'', st_run = (\<lambda>_ _. Inl TimeoutError)\<rparr>"

definition open_panel :: panel where
  "open_panel = \<lparr>pn_auth = \<lparr>as_canonical = No_file, as_legacy = No_file, as_writable = True\<rparr>,
     pn_secret_key = lit ''first key'', pn_server = None, pn_db = empty_db\<rparr>"

definition locked_panel :: panel where
  "locked_panel = open_panel\<lparr>pn_auth := (pn_auth open_panel)\<lparr>as_canonical := Holds (JList [])\<rparr>\<rparr>"

definition kept_panel :: panel where
  "kept_panel = with_password sample_site (lit ''old secret'') open_panel"

definition sample_request :: "verb \<Rightarrow> string \<Rightarrow> (pystr \<times> pystr) list \<Rightarrow> web_request" where
  "sample_request v path form =
     \<lparr>rq_verb = v, rq_path = lit path, rq_form = map_of form, rq_args = (\<lambda>_. None), rq_csrf_header = None, rq_json = None\<rparr>"

definition sample_browser :: browser_session where
  "sample_browser = \<lparr>bs_authenticated = False, bs_csrf = Some (lit ''token'')\<rparr>"

definition set_request :: web_request where
  "set_request = sample_request POST ''/set-password''
     [(lit ''csrf_token'', lit ''token''), (lit ''password'', lit ''new secret''), (lit ''password_confirm'', lit ''new secret'')]"

definition login_request :: web_request where
  "login_request = sample_request POST ''/login''
     [(lit ''csrf_token'', lit ''token''), (lit ''password'', lit ''new secret''), (lit ''next'', lit ''/usage/mia'')]"

lemma kept_panel_configured: "password_is_configured (pn_auth kept_panel)"
  unfolding kept_panel_def by (rule with_password_record) (simp add: sample_site_def)

lemma set_request_accepted:
  "handle_web_request sample_site set_request \<lparr>vi_panel = open_panel, vi_session = sample_browser\<rparr>
     = (Redirect index_url, \<lparr>vi_panel = with_password sample_site (lit ''new secret'') open_panel,
          vi_session = sample_browser\<lparr>bs_authenticated := True\<rparr>\<rparr>)"
proof -
  let ?v = "\<lparr>vi_panel = open_panel, vi_session = sample_browser\<rparr>"
  have t: "token_ok set_request sample_browser" by code_simp
  have f: "auth_file_problem (pn_auth open_panel) = None" "\<not> password_is_configured (pn_auth open_panel)"
    by code_simp+
  have r: "rq_verb set_request = POST" "rq_path set_request = lit ''/set-password''"
    "text_of_field (rq_form set_request) ''password'' = lit ''new secret''"
    "text_of_field (rq_form set_request) ''password_confirm'' = lit ''new secret''" "8 \<le> length (lit ''new secret'')"
    by code_simp+
  have "set_password sample_site set_request ?v = store_password sample_site (lit ''new secret'') ?v"
    using f r by (simp add: set_password_POST configured_def)
  moreover have "as_writable (pn_auth open_panel)" by (simp add: open_panel_def)
  ultimately show ?thesis
    using handle_view [OF dispatch_free, of set_request ?v Set_password] t f r
    by (simp add: route_paths store_password_run)
qed

theorem stranger_learns_and_changes_nothing_witness:
  "fst (fst (browse [(sample_site, sample_request GET ''/control/mia-pc'' [], kept_panel)] sample_browser) ! 0)
   = fst (fst (browse [(sample_site, sample_request GET ''/control/mia-pc'' [],
        kept_panel\<lparr>pn_db := one_computer\<rparr>)] sample_browser) ! 0)"
proof -
  let ?rq = "sample_request GET ''/control/mia-pc'' []" and ?other = "kept_panel\<lparr>pn_db := one_computer\<rparr>"
  have wrong: "wrong_password sample_site (pn_auth kept_panel) ?rq"
    unfolding wrong_password_def kept_panel_def
    by (subst with_password_record)
      (simp_all add: password_record_matches sample_site_def sample_request_def text_of_field_def lit_def)
  have "map fst (fst (browse [(sample_site, ?rq, ?other)] sample_browser))
      = map fst (fst (browse [(sample_site, ?rq, kept_panel)] sample_browser))"
    by (rule stranger_learns_and_changes_nothing [THEN conjunct2, THEN conjunct2, THEN conjunct1])
      (use wrong kept_panel_configured in \<open>simp_all add: sample_browser_def\<close>)
  then show ?thesis by (simp split: prod.splits)
qed

theorem damaged_password_file_locks_the_panel_witness:
  "fst (handle_web_request sample_site (sample_request GET ''/'' [])
     \<lparr>vi_panel = locked_panel, vi_session = sample_browser\<rparr>)
   \<in> {Locked Not_an_object, Bad_request, Failed TypeError, Static_file, Discovery (st_reverse_port sample_site), Not_found}"
proof -
  have "auth_file_problem (pn_auth locked_panel) = Some Not_an_object" by code_simp
  then show ?thesis
    using damaged_password_file_locks_the_panel
      [of "\<lparr>vi_panel = locked_panel, vi_session = sample_browser\<rparr>" Not_an_object sample_site] by simp
qed

theorem forged_request_does_nothing_witness:
  "vi_panel (snd (handle_web_request sample_site (sample_request POST ''/set-password''
      [(lit ''password'', lit ''evil secret''), (lit ''password_confirm'', lit ''evil secret'')])
      \<lparr>vi_panel = open_panel, vi_session = sample_browser\<rparr>)) = open_panel
   \<and> handle_web_request (sample_site\<lparr>st_run := \<lambda>_ _. Inl ValueError\<rparr>) (sample_request POST ''/action'' [])
       \<lparr>vi_panel = open_panel, vi_session = sample_browser\<rparr>
     = handle_web_request sample_site (sample_request POST ''/action'' [])
       \<lparr>vi_panel = open_panel, vi_session = sample_browser\<rparr>"
proof
  let ?v = "\<lparr>vi_panel = open_panel, vi_session = sample_browser\<rparr>"
  show "vi_panel (snd (handle_web_request sample_site (sample_request POST ''/set-password''
      [(lit ''password'', lit ''evil secret''), (lit ''password_confirm'', lit ''evil secret'')]) ?v)) = open_panel"
    by (rule forged_request_does_nothing [THEN conjunct1, of _ ?v, simplified]) code_simp
  have t: "\<not> token_ok (sample_request POST ''/action'' []) (vi_session ?v)" by code_simp
  show "handle_web_request (sample_site\<lparr>st_run := \<lambda>_ _. Inl ValueError\<rparr>) (sample_request POST ''/action'' []) ?v
     = handle_web_request sample_site (sample_request POST ''/action'' []) ?v"
    by (rule forged_request_does_nothing [OF t, THEN conjunct2, THEN conjunct2, THEN conjunct2, THEN mp])
      (simp add: sample_request_def)
qed


theorem stored_password_logs_in_witness:
  "authenticated (snd (handle_web_request sample_site login_request
     \<lparr>vi_panel = with_password sample_site (lit ''new secret'') open_panel, vi_session = sample_browser\<rparr>))"
proof -
  have "token_ok login_request sample_browser" by code_simp
  then show ?thesis
    using stored_password_logs_in [OF set_request_accepted, of login_request sample_browser sample_site True]
    by (simp add: set_request_def login_request_def sample_request_def text_of_field_def lit_def sample_site_def
        sample_browser_def)
qed

theorem control_page_is_live_or_last_seen_witness:
  "\<exists>ip info. fetch_control_pc_info sample_site (open_panel\<lparr>pn_db := one_computer\<rparr>) (lit ''10.0.0.7'') = Inr (Inr (ip, info))
     \<and> jget info ''reachable'' = JBool False"
proof -
  let ?p = "open_panel\<lparr>pn_db := one_computer\<rparr>"
  have live: "live_settings ?p (lit ''10.0.0.7'') = None" by (simp add: live_settings_def open_panel_def)
  have target: "resolve_control_target sample_site one_computer (lit ''10.0.0.7'') = Some (lit ''10.0.0.7'', None)"
    by code_simp
  have entry: "get_scan_pc one_computer (lit ''10.0.0.7'') = Some [(lit ''ip'', JStr (lit ''10.0.0.7''))]" by code_simp
  have "(case offline_pc_info sample_site one_computer (lit ''10.0.0.7'') None
      (jset (jset [(lit ''ip'', JStr (lit ''10.0.0.7''))] ''ip'' (JStr (lit ''10.0.0.7''))) ''reachable'' (JBool False)) of
      Inl _ \<Rightarrow> False | Inr _ \<Rightarrow> True)"
    by code_simp
  then obtain info where "fetch_control_pc_info sample_site ?p (lit ''10.0.0.7'') = Inr (Inr (lit ''10.0.0.7'', info))"
    using live target entry by (auto simp: fetch_control_pc_info_def split: sum.splits)
  note f = this
  show ?thesis using control_page_is_live_or_last_seen [OF f] f live by (auto simp: last_seen_def)
qed

end
