(* ===== verification/Panel_Upkeep.thy ===== *)
theory Panel_Upkeep
  imports Snapshot_Store
begin

text \<open>
  What the panel does beside its pages: the thread that prunes the registry
  (\<open>src/kid_pc_monitor/agent_poller.py\<close>), the texts for durations and clock times
  (\<open>panel_format.py\<close>), the certificate it serves with (\<open>paths.py\<close>).
\<close>

section \<open>Durations and clock times\<close>

definition format_minutes_duration :: "rat option \<Rightarrow> pystr" where
  "format_minutes_duration minutes =
     (case minutes of
        None \<Rightarrow> lit ''Not set''
      | Some m \<Rightarrow>
          let whole = round_half_even m; hours = whole div 60; mins = whole mod 60 in
          if hours \<noteq> 0 then int_str hours @ 58 # fmt02 (nat mins) else int_str mins @ lit '' min'')"

definition format_seconds_duration :: "rat \<Rightarrow> pystr" where
  "format_seconds_duration seconds = format_minutes_duration (Some (seconds / 60))"

definition format_compact_clock_time :: "datetime \<Rightarrow> pystr" where
  "format_compact_clock_time t =
     nat_str (if dt_hour t mod 12 \<noteq> 0 then dt_hour t mod 12 else 12) @ 58 # fmt02 (dt_minute t)
       @ (if dt_hour t < 12 then lit ''am'' else lit ''pm'')"

text \<open>A negative duration is shown with a wrong hour.\<close>

lemma negative_duration_is_misshown: "format_minutes_duration (Some (-5)) = lit ''-1:55''"
  by (simp add: format_minutes_duration_def round_half_even_def Let_def int_str_def fmt02_def pad0_def lit_def nat_str.simps)

section \<open>Pruning the registry\<close>

definition POLL_INTERVAL_SEC :: rat where "POLL_INTERVAL_SEC = 60"

text \<open>The bounds between which the pause after a cycle is drawn.\<close>

definition cycle_sleep_bounds :: "rat \<Rightarrow> rat \<times> rat" where
  "cycle_sleep_bounds interval =
     (let jitter = max 0 (min (interval / 10) 5) in (interval - jitter, interval + jitter))"

definition poll_once :: "(datetime \<Rightarrow> int) \<Rightarrow> aware \<Rightarrow> panel_db \<Rightarrow> panel_db" where
  "poll_once zone now db = snd (prune_stale_tracked_ips zone None now db)"

text \<open>
  The thread of the pruner: for every cycle the time it runs at, what other threads do to the
  tables in the pause after it, and whether the thread is told to stop then.
\<close>

fun run_pruner ::
  "(datetime \<Rightarrow> int) \<Rightarrow> (aware \<times> (panel_db \<Rightarrow> panel_db) \<times> bool) list \<Rightarrow> panel_db \<Rightarrow> panel_db" where
  "run_pruner zone [] db = db"
| "run_pruner zone ((now, meanwhile, stop) # later) db =
     (let db' = poll_once zone now db in if stop then db' else run_pruner zone later (meanwhile db'))"

lemma poll_interval_bounds: "cycle_sleep_bounds POLL_INTERVAL_SEC = (55, 65)"
  by (simp add: cycle_sleep_bounds_def POLL_INTERVAL_SEC_def)

section \<open>The certificate\<close>

text \<open>The two environment variables, whether a path is a file and whether it can be opened.\<close>

record tls_host =
  tl_cert :: "pystr option"
  tl_key :: "pystr option"
  tl_config_dir :: pystr
  tl_is_file :: "pystr \<Rightarrow> bool"
  tl_opens :: "pystr \<Rightarrow> bool"

definition tls_dir :: "tls_host \<Rightarrow> pystr" where
  "tls_dir h = tl_config_dir h @ lit ''/tls''"

definition resolve_tls_cert_paths :: "tls_host \<Rightarrow> (pystr \<times> pystr) option" where
  "resolve_tls_cert_paths h =
     (let (cert, key) =
        (case (tl_cert h, tl_key h) of
           (Some c, Some k) \<Rightarrow>
             if c \<noteq> [] \<and> k \<noteq> [] then (c, k) else (tls_dir h @ lit ''/cert.pem'', tls_dir h @ lit ''/key.pem'')
         | _ \<Rightarrow> (tls_dir h @ lit ''/cert.pem'', tls_dir h @ lit ''/key.pem''))
      in if \<not> tl_is_file h cert \<or> \<not> tl_is_file h key then None
         else if \<not> tl_opens h cert \<or> \<not> tl_opens h key then None
         else Some (cert, key))"

lemma tls_paths_can_be_read:
  "resolve_tls_cert_paths h = Some (cert, key) \<Longrightarrow> tl_is_file h cert \<and> tl_opens h cert \<and> tl_is_file h key \<and> tl_opens h key"
  by (auto simp: resolve_tls_cert_paths_def Let_def split: prod.splits if_splits)

end
