(* ===== verification/Panel_Site.thy ===== *)
theory Panel_Site
  imports Web_Guards Panel_Upkeep Listener Agent_Link
begin

text \<open>
  What surrounds the views of \<open>src/kid_pc_monitor/web_panel.py\<close>: the application with its
  key, the headers of every answer, the page of a locked panel, the discovery answer, and
  \<open>main\<close>, which starts the panel and the listener for the agents on the same certificate.
\<close>

section \<open>The application\<close>

text \<open>\<open>create_app\<close>: the key that signs the sessions; an empty one counts as none.\<close>

definition app_secret_key :: "pystr option \<Rightarrow> auth_store \<Rightarrow> pystr \<Rightarrow> pystr" where
  "app_secret_key variable a drawn =
     (case variable of
        Some s \<Rightarrow> if s \<noteq> [] then s else (case panel_secret_key (load_auth_record a) of Some k \<Rightarrow> k | None \<Rightarrow> drawn)
      | None \<Rightarrow> (case panel_secret_key (load_auth_record a) of Some k \<Rightarrow> k | None \<Rightarrow> drawn))"

definition create_app :: "pystr option \<Rightarrow> auth_store \<Rightarrow> pystr \<Rightarrow> server option \<Rightarrow> panel_db \<Rightarrow> panel" where
  "create_app variable a drawn srv db =
     \<lparr>pn_auth = a, pn_secret_key = app_secret_key variable a drawn, pn_server = srv, pn_db = db\<rparr>"

section \<open>Headers\<close>

type_synonym headers = "pystr \<Rightarrow> pystr option"

definition DYNAMIC_CACHE_CONTROL :: pystr where
  "DYNAMIC_CACHE_CONTROL = lit ''private, no-cache, no-store, must-revalidate, max-age=0''"

definition prevent_dynamic_page_cache :: "web_request \<Rightarrow> headers \<Rightarrow> headers" where
  "prevent_dynamic_page_cache rq h =
     (if route (rq_verb rq) (rq_path rq) = Some Static then h
      else h(lit ''Cache-Control'' \<mapsto> DYNAMIC_CACHE_CONTROL, lit ''Pragma'' \<mapsto> lit ''no-cache'',
             lit ''Expires'' \<mapsto> lit ''0''))"

text \<open>An answer with the headers it leaves with; the handlers before have set \<open>h\<close>.\<close>

definition respond :: "site \<Rightarrow> web_request \<Rightarrow> headers \<Rightarrow> visit \<Rightarrow> (reply \<times> headers) \<times> visit" where
  "respond st rq h v =
     (case handle_web_request st rq v of (r, w) \<Rightarrow> ((r, prevent_dynamic_page_cache rq h), w))"

text \<open>
  Nothing the panel says of a computer is left in a cache: only a file of the static
  directory may be, and no view of a computer, no form and no list is such a reply.
\<close>

theorem only_static_files_are_cached:
  assumes "respond st rq h v = ((r, h'), w)" and "h' (lit ''Cache-Control'') \<noteq> Some DYNAMIC_CACHE_CONTROL"
  shows "rq_verb rq = GET \<and> r = Static_file"
proof -
  have s: "route (rq_verb rq) (rq_path rq) = Some Static"
    using assms by (auto simp: respond_def prevent_dynamic_page_cache_def split: prod.splits if_splits)
  then have g: "rq_verb rq = GET" by (rule route_Static_get)
  have "dispatch_request st rq v = (Inr Static_file, v)"
    using s g by (simp add: dispatch_request_def require_csrf_on_post_def require_usable_auth_file_def)
  then show ?thesis using assms(1) g by (simp add: respond_def handle_web_request_def)
qed

section \<open>A locked panel\<close>

definition auth_file_locked_text :: "pystr \<Rightarrow> pystr" where
  "auth_file_locked_text path =
     concat (map (\<lambda>l. l @ [10])
       [lit ''Kid PC Monitor is locked: its password file '' @ path @ lit '' is damaged or cannot be read.'',
        [],
        lit ''Nothing is shown until the file is fixed, so the panel is not left open to'',
        lit ''anyone on the network. Restore the file (the panel'' @ [39] @ lit ''s log says what is wrong'',
        lit ''with it), or delete it and set a new password: deleting it removes the'',
        lit ''password, and the next person to open the panel can set one.''])"

section \<open>Discovery\<close>

definition agent_discover :: "int \<Rightarrow> jdict" where
  "agent_discover reverse_port =
     [(lit ''service'', JStr (lit ''kid-pc-monitor-panel'')), (lit ''version'', JInt 1), (lit ''reverse_port'', JInt reverse_port)]"

section \<open>Starting the panel\<close>

text \<open>
  \<open>main\<close>: the environment it reads, and what it starts: the listener for the agents with
  the certificate, and the web server with the same.
\<close>

record panel_environ =
  pe_host :: "pystr option"
  pe_port :: "pystr option"
  pe_reverse_port :: "pystr option"
  pe_secret :: "pystr option"
  pe_tls :: tls_host

record started =
  sd_app :: panel
  sd_host :: pystr
  sd_port :: int
  sd_ssl_context :: "certificate option"
  sd_process :: process
  sd_printed :: "pystr list"

definition panel_main :: "panel_environ \<Rightarrow> auth_store \<Rightarrow> pystr \<Rightarrow> panel_db \<Rightarrow> process \<Rightarrow> started res" where
  "panel_main pe a drawn db pr =
     (let host = (case pe_host pe of Some h \<Rightarrow> h | None \<Rightarrow> lit ''0.0.0.0'') in
      rbind (int_of_text (case pe_port pe of Some p \<Rightarrow> p | None \<Rightarrow> lit ''5000''))
        (\<lambda>port.
          let tls = resolve_tls_cert_paths (pe_tls pe);
              reverse_port = reverse_listen_port (pe_reverse_port pe);
              running = start_panel_reverse_server (pe_reverse_port pe) host (Some reverse_port) tls pr;
              scheme = (if tls \<noteq> None then lit ''https'' else lit ''http'')
          in Inr \<lparr>sd_app = create_app (pe_secret pe) a drawn (get_reverse_server running) db, sd_host = host, sd_port = port,
               sd_ssl_context = tls, sd_process = running,
               sd_printed =
                 [lit ''Kid PC Monitor web panel on '' @ scheme @ lit ''://'' @ host @ [58] @ int_str port,
                  lit ''Agent reverse TCP on '' @ scheme @ lit ''://'' @ host @ [58] @ int_str reverse_port
                    @ lit '' (native v3'' @ (if tls \<noteq> None then lit '' with TLS'' else []) @ lit '')'']
                 @ (if tls \<noteq> None
                    then [lit ''TLS enabled. iOS Safari password autofill requires the certificate ''
                            @ lit ''authority to be trusted on your phone.'']
                    else [])\<rparr>))"

lemma panel_main_starts:
  assumes "panel_main pe a drawn db pr = Inr sd"
  shows "listening_at (sd_process sd) = Some \<lparr>ad_host = sd_host sd, ad_port = reverse_listen_port (pe_reverse_port pe),
      ad_tls = sd_ssl_context sd\<rparr>"
    and "pn_server (sd_app sd) = get_reverse_server (sd_process sd)"
    and "\<exists>srv. get_reverse_server (sd_process sd) = Some srv \<and> rv_running srv"
  using assms by (auto simp: panel_main_def Let_def rbind_eq_Inr_iff create_app_def started_server_listens)

section \<open>The agent finds the panel\<close>

text \<open>
  What the agent's fetch meets: its request for the discovery address, put to the panel. The
  JSON answer of \<open>agent_discover\<close> is what the fetch gives; the other replies are pages.
\<close>

definition discover_request :: web_request where
  "discover_request =
     \<lparr>rq_verb = GET, rq_path = lit ''/agent/v1/discover'', rq_form = (\<lambda>_. None), rq_args = (\<lambda>_. None), rq_csrf_header = None, rq_json = None\<rparr>"

definition fetched :: "reply \<Rightarrow> http_result" where
  "fetched r = (case r of Discovery port \<Rightarrow> Answered (JObj (agent_discover port)) | _ \<Rightarrow> Not_json)"

text \<open>
  A site that serves the panel \<open>main\<close> has started: its environment is the one the panel was
  started in, and the web server speaks TLS exactly if it was given a certificate.
\<close>

definition serves_at :: "panel_environ \<Rightarrow> started \<Rightarrow> site \<Rightarrow> pystr \<Rightarrow> bool" where
  "serves_at pe sd st url \<longleftrightarrow>
     st_reverse_port st = reverse_listen_port (pe_reverse_port pe)
     \<and> (url_scheme url = lit ''https'' \<longleftrightarrow> sd_ssl_context sd \<noteq> None)
     \<and> url_hostname url \<noteq> []"

lemma route_discover: "route GET (lit ''/agent/v1/discover'') = Some Agent_discover"
  by (simp add: route_def route_path_def route_three_def lit_def)

lemma discovery_reply: "handle_web_request st discover_request v = (Discovery (st_reverse_port st), v)"
proof -
  have "for_agents (lit ''/agent/v1/discover'')" by (simp add: for_agents_def lit_def)
  then show ?thesis
    using route_discover
    by (simp add: handle_web_request_def dispatch_request_def require_csrf_on_post_def require_usable_auth_file_def discover_request_def)
qed

text \<open>
  C20. The two halves find each other: when the panel's \<open>main\<close> has started everything, an
  agent that asks for the discovery address of the panel, be it under a password, locked or
  not, takes it for a panel, and then connects to that host at the very port on which the
  listener that \<open>main\<close> started is running, with TLS exactly if that listener has a
  certificate; and the listener is the one whose sessions the web pages use. The environment
  is still the one the panel was started in, the address has a host and the scheme the web
  server speaks.
\<close>

theorem agent_finds_the_listener:
  assumes "panel_main pe a drawn db pr = Inr sd" and "serves_at pe sd st url"
    and "fetch url = fetched (fst (handle_web_request st discover_request v))"
  shows "is_panel_url fetch url = Inr True
    \<and> (\<exists>ad. listening_at (sd_process sd) = Some ad
          \<and> reverse_endpoint fetch url = Inr (url_hostname url, ad_port ad, ad_tls ad \<noteq> None)
          \<and> ad_host ad = sd_host sd \<and> pn_server (sd_app sd) = get_reverse_server (sd_process sd))"
proof -
  let ?d = "agent_discover (reverse_listen_port (pe_reverse_port pe))"
  have st: "st_reverse_port st = reverse_listen_port (pe_reverse_port pe)" "url_hostname url \<noteq> []"
    "(url_scheme url = lit ''https'') = (sd_ssl_context sd \<noteq> None)" using assms(2) by (auto simp: serves_at_def)
  have "jget ?d ''service'' = JStr DISCOVERY_MARKER"
    by (simp add: agent_discover_def jget_def DISCOVERY_MARKER_def)
  then have d: "discover_payload fetch url = Inr (Some ?d)"
    using assms(3) st(1) by (simp add: discover_payload_def discovery_reply fetched_def)
  have "jget_or ?d ''reverse_port'' (JInt AGENT_REVERSE_PORT) = JInt (reverse_listen_port (pe_reverse_port pe))"
    by (simp add: agent_discover_def jget_or_def jget_def jhas_def)
  with d st(2,3) panel_main_starts(1,2) [OF assms(1)] show ?thesis
    by (simp add: is_panel_url_def reverse_endpoint_def py_int_def)
qed

text \<open>A locked panel with a certificate, whose listener has a port of its own.\<close>

definition sample_environ :: panel_environ where
  "sample_environ =
     \<lparr>pe_host = None, pe_port = None, pe_reverse_port = Some (lit ''7001''), pe_secret = None,
      pe_tls = \<lparr>tl_cert = None, tl_key = None, tl_config_dir = lit ''/c'', tl_is_file = (\<lambda>_. True), tl_opens = (\<lambda>_. True)\<rparr>\<rparr>"

theorem agent_finds_the_listener_witness:
  "\<exists>sd. panel_main sample_environ (pn_auth locked_panel) [] empty_db \<lparr>pr_servers = [], pr_current = None\<rparr> = Inr sd
    \<and> map_option ad_port (listening_at (sd_process sd)) = Some 7001
    \<and> reverse_endpoint (\<lambda>_. fetched (fst (handle_web_request (sample_site\<lparr>st_reverse_port := 7001\<rparr>) discover_request
          \<lparr>vi_panel = sd_app sd, vi_session = sample_browser\<rparr>))) (lit ''https://10.0.0.2:5000'')
        = Inr (lit ''10.0.0.2'', 7001, True)"
proof -
  let ?st = "sample_site\<lparr>st_reverse_port := 7001\<rparr>" and ?url = "lit ''https://10.0.0.2:5000''"
  have port: "int_of_text (lit ''5000'') = Inr 5000" "int_of_text (lit ''7001'') = Inr 7001"
    by (simp_all add: int_of_text_def lit_def ascii_decimal_def decimal_zeros_def strip_def is_space_def sign_split_def
        is_digit_def max_str_digits_def)
  then obtain sd where sd: "panel_main sample_environ (pn_auth locked_panel) [] empty_db \<lparr>pr_servers = [], pr_current = None\<rparr> = Inr sd"
    "sd_ssl_context sd \<noteq> None"
    by (auto simp: panel_main_def sample_environ_def Let_def resolve_tls_cert_paths_def)
  have rev: "reverse_listen_port (pe_reverse_port sample_environ) = 7001"
    by (simp add: sample_environ_def reverse_listen_port_def port)
  have h: "url_hostname ?url = lit ''10.0.0.2''" "url_scheme ?url = lit ''https''"
    by (simp_all add: url_hostname_def url_netloc_def url_scheme_def Let_def lower_def lower_char_def lit_def)
  have "serves_at sample_environ sd ?st ?url" using h sd(2) rev by (simp add: serves_at_def)
  from agent_finds_the_listener [OF sd(1) this refl] sd panel_main_starts(1) [OF sd(1)] rev h show ?thesis by auto
qed

text \<open>
  The key of the environment holds until the password is changed: from then on the stored
  key signs the sessions, and the next start of the panel goes back to that of the
  environment, so the sessions signed in between end with it.
\<close>

theorem configured_key_is_dropped:
  assumes "auth_file_problem a = None" and "as_writable a" and "16 \<le> length (st_key_drawn st)"
    and "h_generate (st_hasher st) password \<noteq> []"
    and "store_password st password \<lparr>vi_panel = create_app (Some s) a drawn srv db, vi_session = bs\<rparr> = (r, v)" and "s \<noteq> []"
    and "\<forall>k. panel_secret_key (load_auth_record a) = Some k \<longrightarrow> k \<noteq> s" and "st_key_drawn st \<noteq> s"
  shows "pn_secret_key (vi_panel v) \<noteq> s
    \<and> pn_secret_key (create_app (Some s) (pn_auth (vi_panel v)) drawn' srv db) = s"
proof -
  let ?p = "create_app (Some s) a drawn srv db"
  let ?r = "password_record st (load_auth_record a) password"
  have v: "vi_panel v = with_password st password ?p"
    using store_password_run [of "\<lparr>vi_panel = ?p, vi_session = bs\<rparr>" st password] assms(1,2,5)
    by (auto simp: create_app_def)
  let ?a = "a\<lparr>as_canonical := Holds (JObj ?r)\<rparr>"
  have auth: "pn_auth (with_password st password ?p) = ?a" by (simp add: with_password_def create_app_def Let_def)
  have loaded: "load_auth_record ?a = Some ?r"
    using with_password_record(1) [OF assms(4), of ?p] by (simp add: auth) (simp add: create_app_def)
  define k where "k = (case panel_secret_key (load_auth_record a) of Some k \<Rightarrow> k | None \<Rightarrow> st_key_drawn st)"
  have "16 \<le> length k"
    using assms(3) by (auto simp: k_def panel_secret_key_def split: option.splits json.splits if_splits)
  then have "panel_secret_key (load_auth_record ?a) = Some k"
    by (simp add: loaded) (simp add: panel_secret_key_def password_record_def jget_def k_def)
  moreover have "k \<noteq> s" using assms(7,8) by (auto simp: k_def split: option.split)
  ultimately show ?thesis
    using v assms(6) by (simp add: with_password_def create_app_def app_secret_key_def Let_def)
qed

end
