(* ===== verification/Display_Dates.thy ===== *)
theory Display_Dates
  imports Panel_Upkeep
begin

text \<open>
  The dates of \<open>src/kid_pc_monitor/panel_format.py\<close>: the days of the usage history and the
  time a snapshot was recorded at, as the parent's pages show them. A text the panel did not
  write (one that \<open>fromisoformat\<close> refuses) is \<open>Other\<close>. The panel's clock (\<open>panel_clock.now\<close>)
  carries the offset from UTC that holds now, so times are shown at this offset.
\<close>

section \<open>Names\<close>

definition day_names :: "pystr list" where
  "day_names = [lit ''Mon'', lit ''Tue'', lit ''Wed'', lit ''Thu'', lit ''Fri'', lit ''Sat'', lit ''Sun'']"

definition month_names :: "pystr list" where
  "month_names = [lit ''Jan'', lit ''Feb'', lit ''Mar'', lit ''Apr'', lit ''May'', lit ''Jun'', lit ''Jul'', lit ''Aug'',
     lit ''Sep'', lit ''Oct'', lit ''Nov'', lit ''Dec'']"

text \<open>\<open>date.weekday()\<close>: the first of January of the year 1 was a Monday.\<close>

definition weekday :: "date \<Rightarrow> nat" where
  "weekday d = nat ((toordinal d + 6) mod 7)"

definition month_abbr :: "date \<Rightarrow> pystr" where
  "month_abbr d = month_names ! (month_of d - 1)"

datatype 'a shown_text = Iso 'a | Other pystr

definition format_usage_date :: "date shown_text \<Rightarrow> pystr" where
  "format_usage_date day =
     (case day of
        Other s \<Rightarrow> s
      | Iso d \<Rightarrow> day_names ! weekday d @ [32] @ month_abbr d @ [32] @ nat_str (day_of d))"

section \<open>Another offset\<close>

fun move_days :: "nat \<Rightarrow> (date \<Rightarrow> date res) \<Rightarrow> date \<Rightarrow> date res" where
  "move_days 0 f d = Inr d"
| "move_days (Suc n) f d = rbind (f d) (move_days n f)"

definition add_minutes :: "int \<Rightarrow> datetime \<Rightarrow> datetime res" where
  "add_minutes delta t =
     (let total = int (dt_hour t) * 60 + int (dt_minute t) + delta; days = total div 1440; m = nat (total mod 1440)
      in rbind (if 0 \<le> days then move_days (nat days) next_day (date_of t) else move_days (nat (- days)) prev_day (date_of t))
           (\<lambda>d. Inr (DateTime d (m div 60) (m mod 60) (dt_second t) (dt_micro t))))"

text \<open>\<open>dt.astimezone(tz)\<close> for an offset \<open>z\<close>; the result is the local time there.\<close>

definition at_offset :: "int \<Rightarrow> aware \<Rightarrow> datetime res" where
  "at_offset z t = add_minutes (z - offset_of t) (local_of t)"

section \<open>When a snapshot was recorded\<close>

definition format_snapshot_recorded_at :: "time_text shown_text option \<Rightarrow> aware \<Rightarrow> pystr res" where
  "format_snapshot_recorded_at recorded_at now =
     (case recorded_at of
        None \<Rightarrow> Inr []
      | Some (Other s) \<Rightarrow> Inr s
      | Some (Iso t) \<Rightarrow>
          rbind (at_offset (offset_of now) (parse_db_datetime (\<lambda>_. offset_of now) t))
            (\<lambda>local_dt.
              let snapshot_day = date_of local_dt; today = date_of (local_of now);
                  time_str = format_compact_clock_time local_dt
              in if snapshot_day = today then Inr time_str
                 else rbind (prev_day today)
                   (\<lambda>yesterday.
                     if snapshot_day = yesterday then Inr (time_str @ lit '' yesterday'')
                     else Inr (time_str @ [32] @ month_abbr snapshot_day @ [32] @ nat_str (day_of snapshot_day)))))"

section \<open>Facts\<close>

lemma move_days_ordinal:
  "valid_date d \<Longrightarrow> move_days n next_day d = Inr e \<Longrightarrow> valid_date e \<and> toordinal e = toordinal d + int n"
  "valid_date d \<Longrightarrow> move_days n prev_day d = Inr e \<Longrightarrow> valid_date e \<and> toordinal e = toordinal d - int n"
proof (induction n arbitrary: d)
  case (Suc n)
  {
    case 1
    then obtain d' where "next_day d = Inr d'" "move_days n next_day d' = Inr e" by (auto simp: rbind_eq_Inr_iff)
    then show ?case using Suc.IH(1) [of d'] next_day_valid toordinal_next_day 1(1) by fastforce
  next
    case 2
    then obtain d' where "prev_day d = Inr d'" "move_days n prev_day d' = Inr e" by (auto simp: rbind_eq_Inr_iff)
    then show ?case using Suc.IH(2) [of d'] prev_day_valid toordinal_prev_day 2(1) by fastforce
  }
qed simp_all

lemma add_minutes_us:
  assumes "valid_datetime t" and "add_minutes delta t = Inr u"
  shows "valid_datetime u" and "dt_us u = dt_us t + delta * minute_us"
proof -
  let ?total = "int (dt_hour t) * 60 + int (dt_minute t) + delta"
  define m where "m = nat (?total mod 1440)"
  define days where "days = ?total div 1440"
  obtain d where d: "(if 0 \<le> days then move_days (nat days) next_day (date_of t) else move_days (nat (- days)) prev_day (date_of t)) = Inr d"
    and u: "u = DateTime d (m div 60) (m mod 60) (dt_second t) (dt_micro t)"
    using assms(2) [unfolded add_minutes_def Let_def, folded m_def days_def] unfolding rbind_eq_Inr_iff by blast
  have v: "valid_date (date_of t)" using assms(1) by (simp add: valid_datetime_def)
  have e: "valid_date d \<and> toordinal d = toordinal (date_of t) + days"
    using d move_days_ordinal [OF v] by (auto split: if_splits)
  have m: "m < 1440" by (simp add: m_def nat_less_iff)
  then show "valid_datetime u" using e assms(1) by (simp add: u valid_datetime_def)
  have total: "days * 1440 + int m = ?total" by (simp add: m_def days_def)
  have "int (m div 60) * 60 + int (m mod 60) = int m"
    by (metis div_mult_mod_eq of_nat_add of_nat_mult of_nat_numeral)
  then show "dt_us u = dt_us t + delta * minute_us"
    using e total unfolding u dt_us_def minute_us_def datetime.sel by (simp add: algebra_simps)
qed

text \<open>
  The parent is shown the right instant: the local time behind the text is the
  instant the snapshot was recorded at, on a clock with the offset of now.
\<close>

theorem shown_time_is_the_instant:
  assumes "valid_datetime (local_of t)" and "at_offset z t = Inr u"
  shows "valid_datetime u \<and> instant (Aware u z) = instant t"
  using add_minutes_us [OF assms(1) assms(2) [unfolded at_offset_def]]
  by (simp add: instant_def algebra_simps)

text \<open>
  The offset of now is not always that of then: after the clocks have gone back, yesterday's
  snapshot of two in the afternoon is shown as of one.
\<close>

definition summer_afternoon :: time_text where
  "summer_afternoon = With_offset (DateTime (Date 2026 10 24) 14 0 0 0) 120"

definition winter_morning :: aware where
  "winter_morning = Aware (DateTime (Date 2026 10 25) 9 0 0 0) 60"

lemma shown_by_case:
  assumes "at_offset (offset_of now) (parse_db_datetime (\<lambda>_. offset_of now) t) = Inr u"
    and "prev_day (date_of (local_of now)) = Inr (date_of u)" and "date_of u \<noteq> date_of (local_of now)"
  shows "format_snapshot_recorded_at (Some (Iso t)) now = Inr (format_compact_clock_time u @ lit '' yesterday'')"
  using assms by (simp only: format_snapshot_recorded_at_def option.case shown_text.case rbind_Inr Let_def if_False if_True
    refl)

lemma one_hour_earlier: "at_offset 60 (Aware (DateTime (Date 2026 10 24) 14 0 0 0) 120) = Inr (DateTime (Date 2026 10 24) 13 0 0 0)"
  by (simp add: at_offset_def add_minutes_def)

lemma one_in_the_afternoon: "format_compact_clock_time (DateTime (Date 2026 10 24) 13 0 0 0) = lit ''1:00pm''"
  by code_simp

lemma eve_of_the_change: "prev_day (Date 2026 10 25) = Inr (Date 2026 10 24)"
  by code_simp

theorem time_before_the_change_is_an_hour_off:
  "format_snapshot_recorded_at (Some (Iso summer_afternoon)) winter_morning = Inr (lit ''1:00pm'' @ lit '' yesterday'')"
  unfolding one_in_the_afternoon [symmetric]
  by (rule shown_by_case)
    (simp_all only: summer_afternoon_def winter_morning_def parse_db_datetime_def time_text.case aware.sel datetime.sel one_hour_earlier
      eve_of_the_change date.inject, simp)

lemma weekday_bound: "weekday d < 7"
  by (simp add: weekday_def nat_less_iff)

lemma usage_dates_example: "format_usage_date (Iso (Date 2025 10 20)) = lit ''Mon Oct 20''"
proof -
  have "weekday (Date 2025 10 20) = 0"
    by (simp add: weekday_def toordinal_def days_before_year_def days_before_month_def is_leap_def upt_conv_Cons days_in_month_def)
  then show ?thesis
    by (simp add: format_usage_date_def month_abbr_def day_names_def month_names_def nat_str.simps lit_def)
qed

end
