(* ===== verification/Db_File.thy ===== *)
theory Db_File
  imports Snapshot_Store Sync_Store
begin

text \<open>
  The connection to the database file (\<open>connect\<close>, \<open>ensure_schema\<close> and \<open>PanelConnection\<close> of
  \<open>src/kid_pc_monitor/panel_db.py\<close>) and the operations of the stores as the statements they
  send through it. Every statement may fail, and between the statements of one connection
  others commit their own work, unless this one has begun to write: then it holds the lock.
  The tables themselves are those of \<open>Panel_Db\<close>.
\<close>

section \<open>The file and the connection\<close>

datatype table = Snapshots_table | Scans_table | Scan_pcs_table | Meta_table | Agents_table

record db_file =
  df_tables :: "table set"
  df_hostname :: bool
  df_rows :: panel_db

text \<open>What comes before a statement: the work others commit, and whether the statement fails.\<close>

datatype sql_moment = Moment (fails: bool) (others: "panel_db \<Rightarrow> panel_db")

text \<open>
  The file, what the connection sees of it, whether it has begun to write, what is still to
  come, the number of open connections, and whether the path is in \<open>_initialized_paths\<close>.
\<close>

record store =
  so_disk :: db_file
  so_view :: db_file
  so_writing :: bool
  so_moments :: "sql_moment list"
  so_open :: nat
  so_ready :: bool

type_synonym 'a sql = "(store, 'a) act"

definition busy :: exn where "busy = HostError (lit ''sqlite3.OperationalError'')"

definition outside_work :: "sql_moment \<Rightarrow> store \<Rightarrow> store" where
  "outside_work m s =
     (if so_writing s then s
      else let d = (so_disk s)\<lparr>df_rows := others m (df_rows (so_disk s))\<rparr> in s\<lparr>so_disk := d, so_view := d\<rparr>)"

definition tick :: "unit sql" where
  "tick s =
     (case so_moments s of
        [] \<Rightarrow> (Inr (), s)
      | m # ms \<Rightarrow> (if fails m then Inl busy else Inr (), outside_work m (s\<lparr>so_moments := ms\<rparr>)))"

text \<open>
  A query; a statement that changes rows, before which \<open>sqlite3\<close> begins a transaction; one
  that changes the schema, which stands at once unless a transaction is under way.
\<close>

definition query :: "(panel_db \<Rightarrow> 'a) \<Rightarrow> 'a sql" where
  "query f = bind tick (\<lambda>_. gets (\<lambda>s. f (df_rows (so_view s))))"

definition dml :: "(panel_db \<Rightarrow> panel_db) \<Rightarrow> unit sql" where
  "dml f = bind tick (\<lambda>_. modify (\<lambda>s. s\<lparr>so_view := (so_view s)\<lparr>df_rows := f (df_rows (so_view s))\<rparr>, so_writing := True\<rparr>))"

definition ddl :: "(db_file \<Rightarrow> db_file) \<Rightarrow> unit sql" where
  "ddl g = bind tick
     (\<lambda>_. modify (\<lambda>s. s\<lparr>so_view := g (so_view s), so_disk := (if so_writing s then so_disk s else g (so_view s))\<rparr>))"

definition commit :: "unit sql" where
  "commit s = (if so_writing s then bind tick (\<lambda>_. modify (\<lambda>s. s\<lparr>so_disk := so_view s, so_writing := False\<rparr>)) s
               else (Inr (), s))"

definition rollback :: "store \<Rightarrow> store" where
  "rollback s = s\<lparr>so_view := so_disk s, so_writing := False\<rparr>"

definition close_connection :: "store \<Rightarrow> store" where
  "close_connection s = (rollback s)\<lparr>so_open := so_open s - 1\<rparr>"

section \<open>The schema\<close>

definition create_table :: "table \<Rightarrow> db_file \<Rightarrow> db_file" where
  "create_table t f =
     f\<lparr>df_tables := insert t (df_tables f),
       df_hostname := df_hostname f \<or> t = Scan_pcs_table \<and> t \<notin> df_tables f\<rparr>"

definition add_hostname_column :: "db_file \<Rightarrow> db_file" where
  "add_hostname_column f =
     f\<lparr>df_hostname := True, df_rows := (df_rows f)\<lparr>scan_pcs := map (\<lambda>p. p\<lparr>sp_hostname := None\<rparr>) (scan_pcs (df_rows f))\<rparr>\<rparr>"

text \<open>\<open>_backfill_scan_pcs_hostname\<close>; the rowid names the row its key names.\<close>

definition rows_to_fill :: "panel_db \<Rightarrow> scan_pc_row list" where
  "rows_to_fill db = filter (\<lambda>p. sp_hostname p = None \<or> sp_hostname p = Some []) (scan_pcs db)"

definition fill_row :: "scan_pc_row \<Rightarrow> panel_db \<Rightarrow> panel_db" where
  "fill_row r db =
     (case payload_hostname (sp_payload r) of
        None \<Rightarrow> db
      | Some h \<Rightarrow> update_scan_pc (sp_scan_id r) (sp_ip r) (\<lambda>p. p\<lparr>sp_hostname := Some h\<rparr>) db)"

definition backfill_scan_pcs :: "unit sql" where
  "backfill_scan_pcs =
     bind (query rows_to_fill)
       (\<lambda>rows. for_each rows (\<lambda>r. only_if (payload_hostname (sp_payload r) \<noteq> None) (dml (fill_row r))))"

definition ensure_scan_pcs_hostname :: "unit sql" where
  "ensure_scan_pcs_hostname =
     bind (bind tick (\<lambda>_. gets (\<lambda>s. df_hostname (so_view s))))
       (\<lambda>there. bind (only_if (\<not> there) (ddl add_hostname_column)) (\<lambda>_. backfill_scan_pcs))"

text \<open>The script, statement by statement (an index changes no row), then the column.\<close>

definition schema_script :: "(db_file \<Rightarrow> db_file) list" where
  "schema_script =
     [create_table Snapshots_table, id, id, id, create_table Scans_table, create_table Scan_pcs_table,
      create_table Meta_table, create_table Agents_table, id]"

definition ensure_schema :: "unit sql" where
  "ensure_schema =
     bind (for_each schema_script ddl) (\<lambda>_. bind ensure_scan_pcs_hostname (\<lambda>_. ddl id))"

section \<open>Connecting\<close>

definition set_up :: "unit sql" where
  "set_up =
     bind tick (\<lambda>_. bind (gets so_ready)
       (\<lambda>ready. only_if (\<not> ready)
          (bind tick (\<lambda>_. bind ensure_schema (\<lambda>_. bind commit (\<lambda>_. modify (\<lambda>s. s\<lparr>so_ready := True\<rparr>)))))))"

definition connect_db :: "unit sql" where
  "connect_db =
     bind tick (\<lambda>_. bind (modify (\<lambda>s. s\<lparr>so_open := so_open s + 1\<rparr>))
       (\<lambda>_. try_with set_up (\<lambda>e. Some (bind (modify close_connection) (\<lambda>_. raising e)))))"

text \<open>\<open>with connect() as conn\<close>: \<open>__exit__\<close> commits or rolls back, then closes.\<close>

definition exit_connection :: "'a res \<Rightarrow> 'a sql" where
  "exit_connection r s =
     (case r of
        Inl e \<Rightarrow> (Inl e, close_connection s)
      | Inr x \<Rightarrow> (case commit s of (Inl e, t) \<Rightarrow> (Inl e, close_connection t) | (Inr _, t) \<Rightarrow> (Inr x, close_connection t)))"

definition with_connect :: "'a sql \<Rightarrow> 'a sql" where
  "with_connect body = bind connect_db (\<lambda>_. (\<lambda>s. case body s of (r, t) \<Rightarrow> exit_connection r t))"

section \<open>No connection is left open\<close>

definition same_open :: "store \<Rightarrow> store \<Rightarrow> bool" where
  "same_open s t \<longleftrightarrow> so_open t = so_open s"

interpretation opened: step_relation same_open
  by unfold_locales (simp_all add: same_open_def)

lemma tick_opens: "keeps same_open tick"
  by (auto simp: keeps_def same_open_def tick_def outside_work_def Let_def split: list.split)

lemma statement_opens:
  "keeps same_open (query f)" "keeps same_open (dml g)" "keeps same_open (ddl h)" "keeps same_open commit"
proof -
  show "keeps same_open (query f)" "keeps same_open (dml g)" "keeps same_open (ddl h)"
    unfolding query_def dml_def ddl_def by (intro opened.keeps_bind tick_opens opened.keeps_rules; simp add: same_open_def)+
  have "keeps same_open (bind tick (\<lambda>_. modify (\<lambda>s. s\<lparr>so_disk := so_view s, so_writing := False\<rparr>)))"
    by (intro opened.keeps_bind tick_opens opened.keeps_modify) (simp add: same_open_def)
  then show "keeps same_open commit" by (simp add: commit_def keeps_def same_open_def)
qed

lemmas keeps_opens = opened.keeps_bind opened.keeps_pure opened.keeps_only_if opened.keeps_if opened.keeps_option
  opened.keeps_for_each statement_opens tick_opens

lemma ensure_schema_opens: "keeps same_open ensure_schema"
  unfolding ensure_schema_def ensure_scan_pcs_hostname_def backfill_scan_pcs_def by (intro keeps_opens)

lemma set_up_opens: "keeps same_open set_up"
  unfolding set_up_def by (intro keeps_opens ensure_schema_opens opened.keeps_modify) (simp add: same_open_def)

lemma connect_opens: "so_open (snd (connect_db s)) = (case fst (connect_db s) of Inl e \<Rightarrow> so_open s | Inr _ \<Rightarrow> so_open s + 1)"
proof (cases "tick s")
  case (Pair r u)
  then have t: "so_open u = so_open s" using tick_opens by (metis keeps_def same_open_def snd_conv)
  show ?thesis
  proof (cases r)
    case (Inl e)
    then show ?thesis using Pair t by (simp add: connect_db_def bind_def)
  next
    case (Inr x)
    obtain q v where q: "set_up (u\<lparr>so_open := Suc (so_open u)\<rparr>) = (q, v)" by fastforce
    then have "so_open v = Suc (so_open s)" 
      using set_up_opens [unfolded keeps_def same_open_def, THEN spec, of "u\<lparr>so_open := Suc (so_open u)\<rparr>"] t by simp
    then show ?thesis using Pair Inr q
      by (cases q) (simp_all add: connect_db_def bind_Inr try_with_def close_connection_def rollback_def)
  qed
qed

lemma exit_closes: "so_open (snd (exit_connection r s)) = so_open s - 1"
proof -
  have "so_open (snd (commit s)) = so_open s" using statement_opens(4) by (simp add: keeps_def same_open_def)
  then show ?thesis
    by (auto simp: exit_connection_def close_connection_def rollback_def split: sum.split prod.split)
qed

lemma with_connect_closes:
  assumes "keeps same_open body"
  shows "so_open (snd (with_connect body s)) = so_open s"
proof (cases "connect_db s")
  case (Pair r u)
  then have c: "so_open u = (case r of Inl e \<Rightarrow> so_open s | Inr _ \<Rightarrow> so_open s + 1)" using connect_opens [of s] by simp
  show ?thesis
  proof (cases r)
    case (Inl e)
    then show ?thesis using Pair c by (simp add: with_connect_def bind_def)
  next
    case (Inr x)
    obtain q v where q: "body u = (q, v)" by fastforce
    then have "so_open v = so_open u" using assms by (metis keeps_def same_open_def snd_conv)
    then show ?thesis using Pair Inr c q exit_closes [of q v] by (simp add: with_connect_def bind_def)
  qed
qed

section \<open>What a statement computes\<close>

text \<open>
  Without the work of others: an action computes \<open>g\<close> if, when it returns, the connection sees
  what \<open>g\<close> makes of the tables, while the file is as it was; it commits \<open>g\<close> if the file then
  holds it. Whatever is raised, the file is as it was.
\<close>

definition alone :: "store \<Rightarrow> bool" where
  "alone s \<longleftrightarrow> (\<forall>m \<in> set (so_moments s). \<forall>d. others m d = d) \<and> (\<not> so_writing s \<longrightarrow> so_view s = so_disk s)"

definition frame :: "store \<Rightarrow> store \<Rightarrow> bool" where
  "frame s t \<longleftrightarrow> alone t \<and> so_ready t = so_ready s \<and> df_tables (so_view t) = df_tables (so_view s)
     \<and> df_hostname (so_view t) = df_hostname (so_view s)"

definition computes :: "(panel_db \<Rightarrow> 'a \<times> panel_db) \<Rightarrow> 'a sql \<Rightarrow> bool" where
  "computes g m \<longleftrightarrow>
     (\<forall>s. alone s \<longrightarrow> frame s (snd (m s)) \<and> so_disk (snd (m s)) = so_disk s
        \<and> (\<forall>x. fst (m s) = Inr x \<longrightarrow> g (df_rows (so_view s)) = (x, df_rows (so_view (snd (m s))))))"

definition commits :: "(panel_db \<Rightarrow> 'a \<times> panel_db) \<Rightarrow> 'a sql \<Rightarrow> bool" where
  "commits g m \<longleftrightarrow>
     (\<forall>s. alone s \<longrightarrow> frame s (snd (m s))
        \<and> (case fst (m s) of
             Inl _ \<Rightarrow> so_disk (snd (m s)) = so_disk s
           | Inr x \<Rightarrow> \<not> so_writing (snd (m s)) \<and> g (df_rows (so_view s)) = (x, df_rows (so_disk (snd (m s))))))"

lemma frame_trans: "frame s t \<Longrightarrow> frame t u \<Longrightarrow> frame s u"
  by (simp add: frame_def)

lemma tick_alone:
  assumes "alone s"
  shows "\<exists>r ms. tick s = (r, s\<lparr>so_moments := ms\<rparr>) \<and> alone (s\<lparr>so_moments := ms\<rparr>)"
proof (cases "so_moments s")
  case Nil
  then have "tick s = (Inr (), s\<lparr>so_moments := []\<rparr>)" by (simp add: tick_def)
  with assms show ?thesis by (auto simp: alone_def)
next
  case (Cons m ms)
  have "outside_work m (s\<lparr>so_moments := ms\<rparr>) = s\<lparr>so_moments := ms\<rparr>"
    using assms Cons by (auto simp: alone_def outside_work_def)
  with Cons assms show ?thesis by (auto simp: tick_def alone_def)
qed

lemma computes_ret: "computes (\<lambda>d. (x, d)) (ret x)"
  by (simp add: computes_def frame_def)

lemma computes_query: "computes (\<lambda>d. (f d, d)) (query f)"
  unfolding computes_def
proof (intro allI impI)
  fix s assume "alone s"
  then obtain r ms where t: "tick s = (r, s\<lparr>so_moments := ms\<rparr>)" "alone (s\<lparr>so_moments := ms\<rparr>)" using tick_alone by blast
  then show "frame s (snd (query f s)) \<and> so_disk (snd (query f s)) = so_disk s
        \<and> (\<forall>x. fst (query f s) = Inr x \<longrightarrow> (f (df_rows (so_view s)), df_rows (so_view s)) = (x, df_rows (so_view (snd (query f s)))))"
    by (cases r) (simp_all add: query_def bind_def frame_def)
qed

lemma computes_dml: "computes (\<lambda>d. ((), f d)) (dml f)"
  unfolding computes_def
proof (intro allI impI)
  fix s assume "alone s"
  then obtain r ms where t: "tick s = (r, s\<lparr>so_moments := ms\<rparr>)" "alone (s\<lparr>so_moments := ms\<rparr>)" using tick_alone by blast
  then show "frame s (snd (dml f s)) \<and> so_disk (snd (dml f s)) = so_disk s
        \<and> (\<forall>x. fst (dml f s) = Inr x \<longrightarrow> ((), f (df_rows (so_view s))) = (x, df_rows (so_view (snd (dml f s)))))"
    by (cases r) (simp_all add: dml_def bind_def frame_def alone_def)
qed

lemma computes_bind:
  assumes m: "computes g m" and k: "\<And>x. computes (h x) (k x)"
  shows "computes (\<lambda>d. case g d of (x, d') \<Rightarrow> h x d') (bind m k)"
  unfolding computes_def
proof (intro allI impI)
  fix s assume a: "alone s"
  obtain r t where t: "m s = (r, t)" by fastforce
  note mt = m [unfolded computes_def, rule_format, OF a, unfolded t snd_conv fst_conv]
  then have at: "alone t" by (simp add: frame_def)
  let ?b = "bind m k s"
  show "frame s (snd ?b) \<and> so_disk (snd ?b) = so_disk s \<and>
     (\<forall>x. fst ?b = Inr x \<longrightarrow> (case g (df_rows (so_view s)) of (x, d') \<Rightarrow> h x d') = (x, df_rows (so_view (snd ?b))))"
  proof (cases r)
    case (Inl e)
    then show ?thesis using mt t by (simp add: bind_def)
  next
    case (Inr x)
    have "?b = k x t" using t Inr by (simp add: bind_def)
    with mt k [of x, unfolded computes_def, rule_format, OF at] Inr show ?thesis
      by (auto intro: frame_trans)
  qed
qed

lemma commits_bind:
  assumes m: "computes g m" and k: "\<And>x. commits (h x) (k x)"
  shows "commits (\<lambda>d. case g d of (x, d') \<Rightarrow> h x d') (bind m k)"
  unfolding commits_def
proof (intro allI impI)
  fix s assume a: "alone s"
  obtain r t where t: "m s = (r, t)" by fastforce
  note mt = m [unfolded computes_def, rule_format, OF a, unfolded t snd_conv fst_conv]
  then have at: "alone t" by (simp add: frame_def)
  let ?b = "bind m k s"
  show "frame s (snd ?b) \<and> (case fst ?b of Inl _ \<Rightarrow> so_disk (snd ?b) = so_disk s
     | Inr x \<Rightarrow> \<not> so_writing (snd ?b) \<and> (case g (df_rows (so_view s)) of (x, d') \<Rightarrow> h x d') = (x, df_rows (so_disk (snd ?b))))"
  proof (cases r)
    case (Inl e)
    then show ?thesis using mt t by (simp add: bind_def)
  next
    case (Inr x)
    have "?b = k x t" using t Inr by (simp add: bind_def)
    with mt k [of x, unfolded commits_def, rule_format, OF at] Inr show ?thesis
      by (auto intro: frame_trans split: sum.split_asm)
  qed
qed

lemma commits_commit: "commits (\<lambda>d. (x, d)) (bind commit (\<lambda>_. ret x))"
  unfolding commits_def
proof (intro allI impI)
  fix s assume a: "alone s"
  then obtain r ms where t: "tick s = (r, s\<lparr>so_moments := ms\<rparr>)" "alone (s\<lparr>so_moments := ms\<rparr>)" using tick_alone by blast
  let ?b = "bind commit (\<lambda>_. ret x) s"
  show "frame s (snd ?b) \<and> (case fst ?b of Inl _ \<Rightarrow> so_disk (snd ?b) = so_disk s
     | Inr y \<Rightarrow> \<not> so_writing (snd ?b) \<and> (x, df_rows (so_view s)) = (y, df_rows (so_disk (snd ?b))))"
  proof (cases "so_writing s")
    case True
    then show ?thesis using t by (cases r) (simp_all add: commit_def bind_def frame_def alone_def)
  next
    case False
    then show ?thesis using a by (simp add: commit_def bind_def frame_def alone_def)
  qed
qed

lemma computes_if: "computes g m \<Longrightarrow> computes h k \<Longrightarrow> computes (\<lambda>d. if b then g d else h d) (if b then m else k)"
  and commits_if: "commits g m \<Longrightarrow> commits h k \<Longrightarrow> commits (\<lambda>d. if b then g d else h d) (if b then m else k)"
  by simp_all

lemma computes_only_if: "computes (\<lambda>d. ((), f d)) m \<Longrightarrow> computes (\<lambda>d. ((), if b then f d else d)) (only_if b m)"
  using computes_ret [of "()"] by (cases b) (simp_all add: only_if_def)

lemma computes_for_each:
  "(\<And>x. computes (\<lambda>d. ((), f x d)) (k x)) \<Longrightarrow> computes (\<lambda>d. ((), fold f xs d)) (for_each xs k)"
proof (induction xs)
  case Nil
  then show ?case by (simp only: for_each.simps fold.simps id_apply computes_ret)
next
  case (Cons x xs)
  then show ?case using computes_bind [OF Cons.prems [of x] Cons.IH] by simp
qed

lemma exit_when_done:
  "\<not> so_writing s \<Longrightarrow> exit_connection (Inr x) s = (Inr x, close_connection s)"
  by (simp add: exit_connection_def commit_def)

lemma close_disk: "so_disk (close_connection s) = so_disk s"
  by (simp add: close_connection_def rollback_def)

text \<open>An operation that commits \<open>g\<close>, through a connection of its own to a file that is set up.\<close>

definition settled :: "store \<Rightarrow> bool" where
  "settled s \<longleftrightarrow> alone s \<and> so_ready s \<and> \<not> so_writing s"

lemma settled_close: "alone s \<Longrightarrow> so_ready s \<Longrightarrow> settled (close_connection s)"
  by (simp add: settled_def alone_def close_connection_def rollback_def)

lemma connect_when_ready:
  assumes "settled s"
  shows "\<exists>r t. connect_db s = (r, t) \<and> so_disk t = so_disk s \<and> settled t \<and> so_view t = so_disk s"
proof -
  have assms: "alone s" "so_ready s" "\<not> so_writing s" using assms by (simp_all add: settled_def)
  obtain r ms where t: "tick s = (r, s\<lparr>so_moments := ms\<rparr>)" "alone (s\<lparr>so_moments := ms\<rparr>)"
    using tick_alone [OF assms(1)] by blast
  have v: "so_view s = so_disk s" using assms by (simp add: alone_def)
  let ?u = "s\<lparr>so_moments := ms, so_open := Suc (so_open s)\<rparr>"
  have u: "alone ?u" using t(2) by (simp add: alone_def)
  then obtain q ns where q: "tick ?u = (q, ?u\<lparr>so_moments := ns\<rparr>)" "alone (?u\<lparr>so_moments := ns\<rparr>)" using tick_alone by blast
  show ?thesis
  proof (cases r)
    case (Inl e)
    with t show ?thesis using assms v by (simp add: connect_db_def bind_def settled_def)
  next
    case (Inr x)
    have "set_up ?u = (q, ?u\<lparr>so_moments := ns\<rparr>)"
      using q(1) assms(2) by (cases q) (simp_all add: set_up_def bind_def)
    with t Inr show ?thesis using q(2) assms v settled_close [OF q(2)]
      by (cases q) (simp_all add: connect_db_def bind_def try_with_def close_disk, simp_all add: settled_def close_connection_def rollback_def)
  qed
qed

lemma with_connect_commits:
  assumes "commits g body" and "settled s" and "with_connect body s = (r, t)"
  shows "settled t \<and> (case r of Inl e \<Rightarrow> df_rows (so_disk t) = df_rows (so_disk s)
    | Inr x \<Rightarrow> g (df_rows (so_disk s)) = (x, df_rows (so_disk t)))"
proof -
  obtain q u where c: "connect_db s = (q, u)" "so_disk u = so_disk s" "settled u" "so_view u = so_disk s"
    using connect_when_ready [OF assms(2)] by blast
  show ?thesis
  proof (cases q)
    case (Inl e)
    then show ?thesis using c assms(3) by (auto simp: with_connect_def bind_def)
  next
    case (Inr y)
    obtain p v where b: "body u = (p, v)" by fastforce
    have e: "exit_connection p v = (r, t)" using assms(3) c(1) Inr b by (simp add: with_connect_def bind_def)
    have u: "alone u" "so_ready u" using c(3) by (auto simp: settled_def)
    note k = assms(1) [unfolded commits_def, rule_format, OF u(1), unfolded b fst_conv snd_conv]
    then have closed: "settled (close_connection v)" using u by (auto simp: frame_def intro: settled_close)
    show ?thesis
    proof (cases p)
      case (Inl e')
      then show ?thesis using k e c(2) closed by (auto simp: exit_connection_def close_disk)
    next
      case (Inr z)
      then have "r = Inr z" "t = close_connection v" using k e exit_when_done [of v z] by simp_all
      with Inr show ?thesis using k c(4) closed by (simp add: close_disk)
    qed
  qed
qed

section \<open>The operations of the stores\<close>

definition insert_poll :: "pystr \<Rightarrow> jdict \<Rightarrow> aware \<Rightarrow> unit sql" where
  "insert_poll ip payload now =
     bind (dml (\<lambda>d. d\<lparr>scans := scans d @ [\<lparr>sc_id = db_next_scan d, sc_scanned_at = written now,
                        sc_network_label = POLL_NETWORK_LABEL, sc_subnet = [], sc_error = None\<rparr>],
                      db_next_scan := db_next_scan d + 1\<rparr>))
       (\<lambda>_. bind (query (\<lambda>d. db_next_scan d - 1))
         (\<lambda>scan_id. bind (dml (\<lambda>d. d\<lparr>scan_pcs := scan_pcs d @ [\<lparr>sp_scan_id = scan_id, sp_ip = ip,
                              sp_hostname = payload_hostname payload, sp_payload = payload\<rparr>]\<rparr>))
           (\<lambda>_. bind commit (\<lambda>_. ret ()))))"

definition coalesce_poll :: "int \<Rightarrow> pystr \<Rightarrow> jdict \<Rightarrow> aware \<Rightarrow> unit sql" where
  "coalesce_poll scan_id ip payload now =
     bind (dml (update_scan_pc scan_id ip (\<lambda>p. p\<lparr>sp_hostname := payload_hostname payload, sp_payload := payload\<rparr>)))
       (\<lambda>_. bind (dml (touch_scan scan_id (written now))) (\<lambda>_. bind commit (\<lambda>_. ret ())))"

definition record_poll_inspect_sql :: "pystr \<Rightarrow> jdict \<Rightarrow> aware \<Rightarrow> unit sql" where
  "record_poll_inspect_sql ip info now =
     (let payload = jset info ''ip'' (JStr ip) in
      bind (query (\<lambda>d. latest_scan_pc_for_ip d ip))
        (\<lambda>latest. case latest of
           None \<Rightarrow> insert_poll ip payload now
         | Some r \<Rightarrow>
             if dashboard_status_key (sp_payload r) = dashboard_status_key payload
             then coalesce_poll (sp_scan_id r) ip payload now else insert_poll ip payload now))"

fun filter_by :: "('a \<Rightarrow> bool sql) \<Rightarrow> 'a list \<Rightarrow> 'a list sql" where
  "filter_by p [] = ret []"
| "filter_by p (x # xs) = bind (p x) (\<lambda>b. bind (filter_by p xs) (\<lambda>ys. ret (if b then x # ys else ys)))"

definition last_updated_sql :: "(datetime \<Rightarrow> int) \<Rightarrow> pystr \<Rightarrow> aware option sql" where
  "last_updated_sql zone ip =
     bind (query (\<lambda>d. latest_reachable_scan_time zone d ip))
       (\<lambda>a. bind (query (\<lambda>d. latest_reachable_snapshot_time zone d ip))
         (\<lambda>b. ret (case (a, b) of
             (None, b) \<Rightarrow> b
           | (Some t, None) \<Rightarrow> Some t
           | (Some t, Some u) \<Rightarrow> Some (if instant t < instant u then u else t))))"

definition stale_sql :: "(datetime \<Rightarrow> int) \<Rightarrow> int \<Rightarrow> pystr \<Rightarrow> bool sql" where
  "stale_sql zone cutoff ip =
     bind (last_updated_sql zone ip) (\<lambda>t. ret (case t of None \<Rightarrow> True | Some u \<Rightarrow> instant u < cutoff))"

definition mark_sql :: "pystr \<Rightarrow> unit sql" where
  "mark_sql ip =
     bind (query (\<lambda>d. latest_scan_pc_for_ip d ip))
       (\<lambda>r. case r of
          None \<Rightarrow> ret ()
        | Some row \<Rightarrow>
            (let payload = sp_payload row in
             if \<not> jtruthy (jget_or payload ''reachable'' (JBool True)) \<and> \<not> jhas payload ''connection_error'' then ret ()
             else dml (update_scan_pc (sp_scan_id row) ip
                 (\<lambda>p. p\<lparr>sp_payload := jpop (jset payload ''reachable'' (JBool False)) ''connection_error''\<rparr>))))"

definition delete_ip :: "pystr \<Rightarrow> panel_db \<Rightarrow> panel_db" where
  "delete_ip ip d = d\<lparr>scan_pcs := filter (\<lambda>p. sp_ip p \<noteq> ip) (scan_pcs d)\<rparr>"

definition prune_sql :: "(datetime \<Rightarrow> int) \<Rightarrow> int option \<Rightarrow> aware \<Rightarrow> pystr list sql" where
  "prune_sql zone max_age_hours now =
     (let cutoff = instant now - hours_us (case max_age_hours of None \<Rightarrow> STALE_TRACKED_HOURS | Some h \<Rightarrow> h) in
      bind (query tracked_ips)
        (\<lambda>ips. bind (filter_by (stale_sql zone cutoff) ips)
          (\<lambda>stale.
             if length ips = 1 \<and> stale \<noteq> [] then bind (mark_sql (hd ips)) (\<lambda>_. bind commit (\<lambda>_. ret []))
             else bind (for_each stale (\<lambda>ip. dml (delete_ip ip)))
               (\<lambda>_. bind (dml prune_orphan_scans) (\<lambda>_. bind commit (\<lambda>_. ret stale))))))"

text \<open>The writing operations of \<open>agent_sync_store\<close> and \<open>save_poll_snapshot\<close>: one statement.\<close>

definition write_row :: "(panel_db \<Rightarrow> panel_db) \<Rightarrow> unit sql" where
  "write_row f = bind (dml f) (\<lambda>_. bind commit (\<lambda>_. ret ()))"

text \<open>The row a snapshot is stored as.\<close>

definition polled_row :: "aware \<Rightarrow> jdict \<Rightarrow> snapshot_row res" where
  "polled_row now info =
     rbind (sql_text (jget info ''ip''))
       (\<lambda>ip_text.
          let hostname = json_or (jget info ''hostname'') (JStr (lit ''PC at '' @ ip_text)) in
          rbind (sql_text hostname)
            (\<lambda>host. Inr \<lparr>sn_username = snapshot_username info, sn_hostname = host, sn_ip = ip_text,
               sn_date = date_of (local_of now), sn_recorded_at = written now,
               sn_payload = jset (jset info ''ip'' (jget info ''ip'')) ''hostname'' hostname\<rparr>))"

definition inspected_row :: "aware \<Rightarrow> jdict \<Rightarrow> snapshot_row res" where
  "inspected_row now info =
     rbind (sql_text (jget info ''hostname''))
       (\<lambda>host. rbind (sql_text (json_or (jget info ''ip'') (JStr [])))
         (\<lambda>ip. Inr \<lparr>sn_username = snapshot_username info, sn_hostname = host, sn_ip = ip,
            sn_date = date_of (local_of now), sn_recorded_at = written now, sn_payload = info\<rparr>))"

text \<open>
  \<open>save_poll_snapshot\<close> and \<open>save_snapshot\<close>; the latter commits its row, then trims in the same
  connection. A value the file cannot hold is refused by the statement.
\<close>

definition save_poll_snapshot_sql :: "aware \<Rightarrow> jdict \<Rightarrow> unit sql" where
  "save_poll_snapshot_sql now info =
     (if \<not> jtruthy (jget_or info ''reachable'' (JBool True)) \<or> \<not> jtruthy (jget info ''ip'') then ret ()
      else with_connect
        (bind (lift (polled_row now info)) (\<lambda>row. write_row (replace_snapshot row))))"

definition trim_sql :: "(datetime \<Rightarrow> int) \<Rightarrow> aware \<Rightarrow> unit sql" where
  "trim_sql zone now =
     bind (query (\<lambda>d. get_meta d META_LAST_TRIM_AT))
       (\<lambda>last. if (case last of None \<Rightarrow> False
                     | Some t \<Rightarrow> instant now - instant (parse_db_datetime zone t) < TRIM_INTERVAL_DAYS * day_us)
         then ret ()
         else bind (lift (days_back RETENTION_DAYS (date_of (local_of now))))
           (\<lambda>cutoff. bind (dml (\<lambda>d. d\<lparr>snapshots := filter (\<lambda>r. \<not> sn_date r < cutoff) (snapshots d)\<rparr>))
             (\<lambda>_. bind (dml (set_meta META_LAST_TRIM_AT (written now))) (\<lambda>_. bind commit (\<lambda>_. ret ())))))"

definition save_snapshot_sql :: "(datetime \<Rightarrow> int) \<Rightarrow> aware \<Rightarrow> jdict \<Rightarrow> unit sql" where
  "save_snapshot_sql zone now info =
     (if \<not> jtruthy (jget info ''reachable'') \<or> snapshot_username info = [] \<or> \<not> jtruthy (jget info ''hostname'') then ret ()
      else with_connect
        (bind (bind (lift (inspected_row now info)) (\<lambda>row. write_row (replace_snapshot row))) (\<lambda>_. trim_sql zone now)))"

text \<open>The writing operations of the stores, as the panel's threads run them.\<close>

datatype panel_write =
    Poll pystr jdict aware
  | Prune "int option" aware
  | Agent_poll pystr pystr jdict aware
  | Agent_lost pystr
  | Agent_dropped pystr
  | Poll_snapshot jdict aware
  | Inspect_snapshot jdict aware

fun run_write :: "(datetime \<Rightarrow> int) \<Rightarrow> panel_write \<Rightarrow> unit sql" where
  "run_write zone (Poll ip info now) = with_connect (record_poll_inspect_sql ip info now)"
| "run_write zone (Prune hours now) = with_connect (bind (prune_sql zone hours now) (\<lambda>_. ret ()))"
| "run_write zone (Agent_poll hostname ip info now) = with_connect (write_row (record_agent_poll hostname ip info now))"
| "run_write zone (Agent_lost ip) = with_connect (write_row (clear_agent_for_ip ip))"
| "run_write zone (Agent_dropped hostname) = with_connect (write_row (clear_agent_for_hostname hostname))"
| "run_write zone (Poll_snapshot info now) = save_poll_snapshot_sql now info"
| "run_write zone (Inspect_snapshot info now) = save_snapshot_sql zone now info"

text \<open>
  The specification: what each does to the tables, as one step; and what one that raised has
  left: nothing, except that a snapshot may be stored when only the trimming after it failed.
\<close>

fun write_effect :: "(datetime \<Rightarrow> int) \<Rightarrow> panel_write \<Rightarrow> panel_db \<Rightarrow> panel_db" where
  "write_effect zone (Poll ip info now) d = record_poll_inspect ip info now d"
| "write_effect zone (Prune hours now) d = snd (prune_stale_tracked_ips zone hours now d)"
| "write_effect zone (Agent_poll hostname ip info now) d = record_agent_poll hostname ip info now d"
| "write_effect zone (Agent_lost ip) d = clear_agent_for_ip ip d"
| "write_effect zone (Agent_dropped hostname) d = clear_agent_for_hostname hostname d"
| "write_effect zone (Poll_snapshot info now) d = snd (save_poll_snapshot now info d)"
| "write_effect zone (Inspect_snapshot info now) d = snd (save_snapshot zone now info d)"

fun leaves :: "(datetime \<Rightarrow> int) \<Rightarrow> panel_write \<Rightarrow> bool \<Rightarrow> panel_db \<Rightarrow> panel_db \<Rightarrow> bool" where
  "leaves zone w True d d' = (d' = write_effect zone w d)"
| "leaves zone (Inspect_snapshot info now) False d d' =
     (d' = d \<or> (\<exists>row. inspected_row now info = Inr row \<and> d' = replace_snapshot row d))"
| "leaves zone w False d d' = (d' = d)"

section \<open>All or nothing\<close>

lemma commits_cong: "commits g m \<Longrightarrow> (\<And>d. g d = h d) \<Longrightarrow> commits h m"
  by (metis ext)

lemma computes_cong: "computes g m \<Longrightarrow> (\<And>d. g d = h d) \<Longrightarrow> computes h m"
  by (simp add: computes_def)

lemma commits_write_row: "commits (\<lambda>d. ((), f d)) (write_row f)"
  unfolding write_row_def by (rule commits_cong, rule commits_bind [OF computes_dml commits_commit]) simp

lemma commits_insert: "commits (\<lambda>d. ((), insert_scan ip payload (written now) d)) (insert_poll ip payload now)"
  unfolding insert_poll_def
  by (rule commits_cong, rule commits_bind [OF computes_dml], rule commits_bind [OF computes_query],
      rule commits_bind [OF computes_dml commits_commit]) (simp add: insert_scan_def Let_def)

lemma commits_coalesce:
  "commits (\<lambda>d. ((), touch_scan i (written now) (update_scan_pc i ip
       (\<lambda>p. p\<lparr>sp_hostname := payload_hostname payload, sp_payload := payload\<rparr>) d))) (coalesce_poll i ip payload now)"
  unfolding coalesce_poll_def
  by (rule commits_cong, rule commits_bind [OF computes_dml], rule commits_bind [OF computes_dml commits_commit]) simp

lemma commits_poll: "commits (\<lambda>d. ((), record_poll_inspect ip info now d)) (record_poll_inspect_sql ip info now)"
proof -
  let ?p = "jset info ''ip'' (JStr ip)"
  let ?h = "\<lambda>latest d. ((), case latest of None \<Rightarrow> insert_scan ip ?p (written now) d
     | Some r \<Rightarrow> if dashboard_status_key (sp_payload r) = dashboard_status_key ?p
         then touch_scan (sp_scan_id r) (written now) (update_scan_pc (sp_scan_id r) ip
            (\<lambda>p. p\<lparr>sp_hostname := payload_hostname ?p, sp_payload := ?p\<rparr>) d)
         else insert_scan ip ?p (written now) d)"
  show ?thesis
    unfolding record_poll_inspect_sql_def Let_def
  proof (rule commits_cong, rule commits_bind [OF computes_query, where h = ?h])
    show "commits (?h latest) (case latest of None \<Rightarrow> insert_poll ip ?p now
       | Some r \<Rightarrow> if dashboard_status_key (sp_payload r) = dashboard_status_key ?p
           then coalesce_poll (sp_scan_id r) ip ?p now else insert_poll ip ?p now)" for latest
      by (cases latest) (simp_all add: commits_insert commits_coalesce)
    show "(case (latest_scan_pc_for_ip d ip, d) of (x, d') \<Rightarrow> ?h x d') = ((), record_poll_inspect ip info now d)" for d
      by (simp add: record_poll_inspect_def Let_def split: option.split)
  qed
qed

lemma computes_stale: "computes (\<lambda>d. (is_stale zone cutoff d ip, d)) (stale_sql zone cutoff ip)"
  unfolding stale_sql_def last_updated_sql_def
  by (rule computes_cong, rule computes_bind [OF computes_bind [OF computes_query computes_bind [OF computes_query computes_ret]] computes_ret])
    (simp add: is_stale_def tracked_ip_last_updated_def)

lemma computes_filter:
  "(\<And>x. computes (\<lambda>d. (P d x, d)) (p x)) \<Longrightarrow> computes (\<lambda>d. (filter (P d) xs, d)) (filter_by p xs)"
proof (induction xs)
  case Nil
  show ?case unfolding filter_by.simps using computes_ret [of "[]"] by (simp only: filter.simps)
next
  case (Cons x xs)
  show ?case unfolding filter_by.simps
    by (rule computes_cong, rule computes_bind [OF Cons.prems computes_bind [OF Cons.IH computes_ret]]) (simp_all add: Cons.prems)
qed

lemma computes_mark: "computes (\<lambda>d. ((), mark_latest_not_connected ip d)) (mark_sql ip)"
proof -
  let ?skip = "\<lambda>row. \<not> jtruthy (jget_or (sp_payload row) ''reachable'' (JBool True)) \<and> \<not> jhas (sp_payload row) ''connection_error''"
  let ?f = "\<lambda>row. update_scan_pc (sp_scan_id row) ip
      (\<lambda>p. p\<lparr>sp_payload := jpop (jset (sp_payload row) ''reachable'' (JBool False)) ''connection_error''\<rparr>)"
  let ?h = "\<lambda>r d. ((), case r of None \<Rightarrow> d | Some row \<Rightarrow> if ?skip row then d else ?f row d)"
  show ?thesis
    unfolding mark_sql_def Let_def
  proof (rule computes_cong, rule computes_bind [OF computes_query, where h = ?h])
    show "computes (?h r) (case r of None \<Rightarrow> ret () | Some row \<Rightarrow> if ?skip row then ret () else dml (?f row))" for r
      using computes_ret [of "()"] computes_dml by (cases r) (simp_all del: act_simps_basic)
    show "(case (latest_scan_pc_for_ip d ip, d) of (x, d') \<Rightarrow> ?h x d') = ((), mark_latest_not_connected ip d)" for d
      by (simp add: mark_latest_not_connected_def Let_def split: option.split)
  qed
qed

lemma fold_delete: "fold delete_ip xs d = d\<lparr>scan_pcs := filter (\<lambda>p. sp_ip p \<notin> set xs) (scan_pcs d)\<rparr>"
  by (induction xs arbitrary: d) (auto simp: delete_ip_def intro: filter_cong)

lemma commits_prune: "commits (\<lambda>d. prune_stale_tracked_ips zone hours now d) (prune_sql zone hours now)"
proof -
  define cutoff where "cutoff = instant now - hours_us (case hours of None \<Rightarrow> STALE_TRACKED_HOURS | Some h \<Rightarrow> h)"
  let ?one = "\<lambda>(ips :: pystr list) stale. length ips = 1 \<and> stale \<noteq> ([] :: pystr list)"
  let ?gone = "\<lambda>stale d. (stale, prune_orphan_scans (d\<lparr>scan_pcs := filter (\<lambda>p. sp_ip p \<notin> set stale) (scan_pcs d)\<rparr>))"
  let ?k = "\<lambda>ips stale d. if ?one ips stale then ([], mark_latest_not_connected (hd ips) d) else ?gone stale d"
  have mark: "commits (\<lambda>d. ([], mark_latest_not_connected ip d)) (bind (mark_sql ip) (\<lambda>_. bind commit (\<lambda>_. ret [])))" for ip
    by (rule commits_cong, rule commits_bind [OF computes_mark commits_commit]) simp
  have gone: "commits (?gone stale)
      (bind (for_each stale (\<lambda>ip. dml (delete_ip ip))) (\<lambda>_. bind (dml prune_orphan_scans) (\<lambda>_. bind commit (\<lambda>_. ret stale))))" for stale
    by (rule commits_cong, rule commits_bind [OF computes_for_each [OF computes_dml] commits_bind [OF computes_dml commits_commit]])
      (simp add: fold_delete)
  show ?thesis
    unfolding prune_sql_def Let_def cutoff_def [symmetric]
  proof (rule commits_cong, rule commits_bind [OF computes_query], rule commits_bind [OF computes_filter [OF computes_stale], where h = "?k ips" for ips])
    show "commits (?k ips stale)
      (if ?one ips stale then bind (mark_sql (hd ips)) (\<lambda>_. bind commit (\<lambda>_. ret []))
       else bind (for_each stale (\<lambda>ip. dml (delete_ip ip))) (\<lambda>_. bind (dml prune_orphan_scans) (\<lambda>_. bind commit (\<lambda>_. ret stale))))"
      for ips stale
      using mark gone by (rule commits_if)
    show "(case (tracked_ips d, d) of (ips, d') \<Rightarrow>
        case (filter (is_stale zone cutoff d') ips, d') of (stale, d'') \<Rightarrow> ?k ips stale d'') = prune_stale_tracked_ips zone hours now d" for d
      by (simp add: prune_stale_tracked_ips_def Let_def cutoff_def)
  qed
qed

lemma write_opens:
  "keeps same_open (write_row f)" "keeps same_open (record_poll_inspect_sql ip info now)"
  "keeps same_open (prune_sql zone hours now)"
proof -
  show "keeps same_open (write_row f)" unfolding write_row_def by (intro keeps_opens)
  show "keeps same_open (record_poll_inspect_sql ip info now)"
    unfolding record_poll_inspect_sql_def insert_poll_def coalesce_poll_def Let_def by (intro keeps_opens)
  have stale: "keeps same_open (stale_sql zone cutoff x)" for cutoff x
    unfolding stale_sql_def last_updated_sql_def by (intro keeps_opens)
  have filter: "keeps same_open (filter_by (stale_sql zone cutoff) xs)" for cutoff xs
    by (induction xs) (simp_all only: filter_by.simps, (intro keeps_opens stale | assumption)+)
  show "keeps same_open (prune_sql zone hours now)"
    unfolding prune_sql_def mark_sql_def Let_def by (intro keeps_opens filter)
qed

lemma commits_value: "commits g m \<Longrightarrow> commits (\<lambda>d. ((), snd (g d))) (bind m (\<lambda>_. ret ()))"
  unfolding commits_def by (auto simp: bind_def split: prod.splits sum.splits)

text \<open>
  What every writing operation of the stores promises to its callers, whichever table it
  writes: it commits its effect in one transaction and leaves the connection to its owner.
\<close>

locale store_write =
  fixes body :: "unit sql" and effect :: "panel_db \<Rightarrow> panel_db"
  assumes commits_effect: "commits (\<lambda>d. ((), effect d)) body" and leaves_open: "keeps same_open body"
begin

lemma whole:
  assumes "with_connect body s = (r, t)" and "settled s"
  shows "settled t \<and> so_open t = so_open s
    \<and> df_rows (so_disk t) = (case r of Inl _ \<Rightarrow> df_rows (so_disk s) | Inr _ \<Rightarrow> effect (df_rows (so_disk s)))"
  using with_connect_commits [OF commits_effect assms(2,1)] with_connect_closes [OF leaves_open, of s] assms(1)
  by (auto split: sum.splits)

end

interpretation poll: store_write "record_poll_inspect_sql ip info now" "record_poll_inspect ip info now" for ip info now
  by unfold_locales (rule commits_poll write_opens)+

interpretation pruning: store_write "bind (prune_sql zone hours now) (\<lambda>_. ret ())" "\<lambda>d. snd (prune_stale_tracked_ips zone hours now d)"
  for zone hours now
  by unfold_locales (intro commits_value commits_prune opened.keeps_bind opened.keeps_pure write_opens)+

interpretation row: store_write "write_row f" f for f
  by unfold_locales (rule commits_write_row write_opens)+

text \<open>The snapshots. The insertion of one is a transaction of its own, and so is the trimming.\<close>

definition insertion :: "snapshot_row res \<Rightarrow> unit sql" where
  "insertion r = bind (lift r) (\<lambda>row. write_row (replace_snapshot row))"

definition inserted :: "snapshot_row res \<Rightarrow> panel_db \<Rightarrow> panel_db" where
  "inserted r d = (case r of Inl _ \<Rightarrow> d | Inr row \<Rightarrow> replace_snapshot row d)"

lemma commits_insertion: "commits (\<lambda>d. ((), inserted r d)) (insertion r)"
proof (cases r)
  case (Inl e)
  then show ?thesis by (simp add: insertion_def commits_def frame_def)
next
  case (Inr row)
  then have "insertion r = write_row (replace_snapshot row)" by (simp add: insertion_def fun_eq_iff)
  with Inr show ?thesis by (simp add: inserted_def commits_write_row)
qed

lemma insertion_opens: "keeps same_open (insertion r)"
  unfolding insertion_def by (intro opened.keeps_bind opened.keeps_pure write_opens)

interpretation snapshot: store_write "insertion r" "inserted r" for r
  by unfold_locales (rule commits_insertion insertion_opens)+

lemma trim_run:
  assumes "alone s" and "\<not> so_writing s" and "trim_sql zone now s = (r, t)"
  shows "frame s t \<and> (case r of Inl _ \<Rightarrow> so_disk t = so_disk s
    | Inr _ \<Rightarrow> \<not> so_writing t \<and> df_rows (so_disk t) = snd (trim_old_rows zone now (df_rows (so_disk s))))"
proof -
  let ?last = "get_meta (df_rows (so_view s)) META_LAST_TRIM_AT"
  let ?recent = "\<lambda>last. case last of None \<Rightarrow> False
     | Some t \<Rightarrow> instant now - instant (parse_db_datetime zone t) < TRIM_INTERVAL_DAYS * day_us"
  obtain q ms where t: "tick s = (q, s\<lparr>so_moments := ms\<rparr>)" "alone (s\<lparr>so_moments := ms\<rparr>)" using tick_alone [OF assms(1)] by blast
  have v: "so_view s = so_disk s" using assms by (simp add: alone_def)
  show ?thesis
  proof (cases "q = Inr () \<and> \<not> ?recent ?last \<and> (\<exists>c. days_back RETENTION_DAYS (date_of (local_of now)) = Inr c)")
    case False
    then show ?thesis using assms t v
      by (cases q; cases "days_back RETENTION_DAYS (date_of (local_of now))")
        (auto simp: trim_sql_def query_def bind_def frame_def alone_def trim_old_rows_def split: option.splits if_splits)
  next
    case True
    then obtain c where c: "days_back RETENTION_DAYS (date_of (local_of now)) = Inr c" by blast
    let ?u = "s\<lparr>so_moments := ms\<rparr>"
    let ?k = "bind (dml (\<lambda>d. d\<lparr>snapshots := filter (\<lambda>r. \<not> sn_date r < c) (snapshots d)\<rparr>))
      (\<lambda>_. bind (dml (set_meta META_LAST_TRIM_AT (written now))) (\<lambda>_. bind commit (\<lambda>_. ret ())))"
    have k: "commits (\<lambda>d. ((), set_meta META_LAST_TRIM_AT (written now)
        (d\<lparr>snapshots := filter (\<lambda>r. \<not> sn_date r < c) (snapshots d)\<rparr>))) ?k"
      by (rule commits_cong, rule commits_bind [OF computes_dml], rule commits_bind [OF computes_dml commits_commit]) simp
    have run: "?k ?u = (r, t)"
      using assms(3) t True c by (simp add: trim_sql_def query_def bind_def split: option.splits)
    have "snd (trim_old_rows zone now (df_rows (so_disk s))) = set_meta META_LAST_TRIM_AT (written now)
        (df_rows (so_disk s)\<lparr>snapshots := filter (\<lambda>r. \<not> sn_date r < c) (snapshots (df_rows (so_disk s)))\<rparr>)"
      using True c v by (simp add: trim_old_rows_def split: option.splits)
    then show ?thesis
      using k [unfolded commits_def, rule_format, OF t(2), unfolded run fst_conv snd_conv] v
      by (auto simp: frame_def split: sum.splits)
  qed
qed

lemma trim_opens: "keeps same_open (trim_sql zone now)"
  unfolding trim_sql_def by (intro keeps_opens)

text \<open>A transaction and, once it stands, more work on the same connection.\<close>

lemma transaction_then_work:
  assumes m: "commits (\<lambda>d. ((), g d)) m" and "settled s" and run: "with_connect (bind m (\<lambda>_. k)) s = (r, t)"
    and k: "\<And>s r t. alone s \<Longrightarrow> \<not> so_writing s \<Longrightarrow> k s = (r, t) \<Longrightarrow>
      frame s t \<and> (case r of Inl _ \<Rightarrow> so_disk t = so_disk s
        | Inr _ \<Rightarrow> \<not> so_writing t \<and> df_rows (so_disk t) = h (df_rows (so_disk s)))"
  shows "settled t \<and> (case r of
      Inl _ \<Rightarrow> df_rows (so_disk t) \<in> {df_rows (so_disk s), g (df_rows (so_disk s))}
    | Inr _ \<Rightarrow> df_rows (so_disk t) = h (g (df_rows (so_disk s))))"
proof -
  obtain q u where c: "connect_db s = (q, u)" "so_disk u = so_disk s" "settled u" "so_view u = so_disk s"
    using connect_when_ready [OF assms(2)] by blast
  show ?thesis
  proof (cases q)
    case (Inl e)
    then show ?thesis using c run by (auto simp: with_connect_def bind_def)
  next
    case (Inr y)
    have u: "alone u" "so_ready u" using c(3) by (auto simp: settled_def)
    obtain p v where b: "m u = (p, v)" by fastforce
    note mv = m [unfolded commits_def, rule_format, OF u(1), unfolded b fst_conv snd_conv]
    have v: "alone v" "so_ready v" using mv u by (auto simp: frame_def)
    show ?thesis
    proof (cases p)
      case (Inl e)
      then have "exit_connection (Inl e) v = (r, t)" using run c(1) Inr b by (simp add: with_connect_def bind_def)
      then show ?thesis using mv Inl c(2) settled_close [OF v] by (auto simp: exit_connection_def close_disk)
    next
      case p: (Inr z)
      obtain o' w where w: "k v = (o', w)" by fastforce
      have e: "exit_connection o' w = (r, t)" using run c(1) Inr b p w by (simp add: with_connect_def bind_def)
      have kw: "frame v w \<and> (case o' of Inl _ \<Rightarrow> so_disk w = so_disk v
        | Inr _ \<Rightarrow> \<not> so_writing w \<and> df_rows (so_disk w) = h (df_rows (so_disk v)))" using k [OF v(1) _ w] mv p by simp
      then have closed: "settled (close_connection w)" using v by (auto simp: frame_def intro: settled_close)
      have rows: "df_rows (so_disk v) = g (df_rows (so_disk s))" using mv p c(4) by simp
      show ?thesis
      proof (cases o')
        case (Inl e')
        then show ?thesis using e kw rows closed by (auto simp: exit_connection_def close_disk)
      next
        case (Inr x)
        then have "r = Inr x" "t = close_connection w" using kw e exit_when_done [of w x] by simp_all
        with Inr show ?thesis using kw rows closed by (simp add: close_disk)
      qed
    qed
  qed
qed

lemma poll_snapshot_leaves:
  assumes "save_poll_snapshot_sql now info s = (r, t)" and "settled s"
  shows "settled t \<and> so_open t = so_open s
    \<and> leaves zone (Poll_snapshot info now) (r = Inr ()) (df_rows (so_disk s)) (df_rows (so_disk t))"
proof (cases "\<not> jtruthy (jget_or info ''reachable'' (JBool True)) \<or> \<not> jtruthy (jget info ''ip'')")
  case True
  then show ?thesis using assms by (auto simp: save_poll_snapshot_sql_def save_poll_snapshot_def Let_def)
next
  case False
  then have "with_connect (insertion (polled_row now info)) s = (r, t)"
    using assms(1) by (simp add: save_poll_snapshot_sql_def insertion_def)
  moreover have "inserted (polled_row now info) d = snd (save_poll_snapshot now info d)" for d
    using False by (auto simp: inserted_def polled_row_def save_poll_snapshot_def Let_def rbind_def split: sum.splits)
  ultimately show ?thesis using snapshot.whole [OF _ assms(2)] by (cases r) auto
qed

lemma inspect_snapshot_leaves:
  assumes "save_snapshot_sql zone now info s = (r, t)" and "settled s"
  shows "settled t \<and> so_open t = so_open s
    \<and> leaves zone (Inspect_snapshot info now) (r = Inr ()) (df_rows (so_disk s)) (df_rows (so_disk t))"
proof (cases "\<not> jtruthy (jget info ''reachable'') \<or> snapshot_username info = [] \<or> \<not> jtruthy (jget info ''hostname'')")
  case True
  then show ?thesis using assms by (auto simp: save_snapshot_sql_def save_snapshot_def Let_def)
next
  case False
  let ?row = "inspected_row now info"
  have run: "with_connect (bind (insertion ?row) (\<lambda>_. trim_sql zone now)) s = (r, t)"
    using assms(1) False by (simp add: save_snapshot_sql_def insertion_def)
  have eff: "snd (save_snapshot zone now info d) = snd (trim_old_rows zone now (inserted ?row d))" if "?row = Inr row" for d row
    using that False by (auto simp: inserted_def inspected_row_def save_snapshot_def Let_def rbind_def split: sum.splits)
  have closed: "so_open t = so_open s"
    using with_connect_closes [of "bind (insertion ?row) (\<lambda>_. trim_sql zone now)" s]
      opened.keeps_bind [OF insertion_opens trim_opens] run by simp
  have refused: "r \<noteq> Inr ()" if "?row = Inl e" for e
    using run that by (auto simp: with_connect_def insertion_def bind_def exit_connection_def split: prod.splits sum.splits)
  note whole = transaction_then_work [OF commits_insertion assms(2) run trim_run]
  show ?thesis
  proof (cases r)
    case (Inl e)
    then show ?thesis using whole closed by (cases ?row) (simp_all add: inserted_def)
  next
    case (Inr x)
    then obtain row where "?row = Inr row" using refused by (cases ?row) auto
    then show ?thesis using whole closed Inr eff by simp
  qed
qed

lemma write_leaves:
  assumes "run_write zone w s = (r, t)" and "settled s"
  shows "settled t \<and> so_open t = so_open s \<and> leaves zone w (r = Inr ()) (df_rows (so_disk s)) (df_rows (so_disk t))"
proof (cases w)
  case (Poll ip info now)
  then show ?thesis using assms poll.whole [of ip info now s r t] by (cases r) simp_all
next
  case (Prune hours now)
  then show ?thesis using assms pruning.whole [of zone hours now s r t] by (cases r) simp_all
next
  case (Poll_snapshot info now)
  then show ?thesis using assms poll_snapshot_leaves [of now info s r t zone] by simp
next
  case (Inspect_snapshot info now)
  then show ?thesis using assms inspect_snapshot_leaves [of zone now info s r t] by simp
qed (use assms row.whole [of _ s r t] in \<open>cases r; simp\<close>)+

text \<open>
  Writes one after another, with what their callers learn of them; and the rows that such a
  sequence may have led to.
\<close>

fun run_writes :: "(datetime \<Rightarrow> int) \<Rightarrow> panel_write list \<Rightarrow> store \<Rightarrow> bool list \<times> store" where
  "run_writes zone [] s = ([], s)"
| "run_writes zone (w # ws) s =
     (case run_write zone w s of (r, t) \<Rightarrow>
        case run_writes zone ws t of (answers, u) \<Rightarrow> ((r = Inr ()) # answers, u))"

fun led_to :: "(datetime \<Rightarrow> int) \<Rightarrow> (panel_write \<times> bool) list \<Rightarrow> panel_db \<Rightarrow> panel_db \<Rightarrow> bool" where
  "led_to zone [] d d' = (d' = d)"
| "led_to zone ((w, returned) # ws) d d' = (\<exists>e. leaves zone w returned d e \<and> led_to zone ws e d')"

lemma led_to_whole:
  "(\<And>info now. (Inspect_snapshot info now, False) \<notin> set ws) \<Longrightarrow>
     led_to zone ws d d' = (d' = fold (\<lambda>(w, returned). if returned then write_effect zone w else id) ws d)"
proof (induction ws arbitrary: d)
  case (Cons a ws)
  obtain w b where a: "a = (w, b)" by fastforce
  have "leaves zone w b d e = (e = (if b then write_effect zone w d else d))" for e
    using Cons.prems a by (cases b; cases w) auto
  with Cons a show ?case by simp
qed simp

text \<open>
  C18. A store's write happens as a whole or not at all, and whoever asked for it is told
  which: on a file that is set up, while no other connection commits in between, whatever
  statements fail, each write that returned has had its full effect and each that raised has
  changed no row, one after another. The one exception is the snapshot of an inspection: its
  row is committed before the old rows are trimmed, so if it raises the row may be there, whole,
  without the trimming. No connection is left open.
\<close>

theorem writes_are_all_or_nothing:
  assumes "run_writes zone ws s = (answers, t)" and "settled s"
  shows "led_to zone (zip ws answers) (df_rows (so_disk s)) (df_rows (so_disk t)) \<and> length answers = length ws
    \<and> so_open t = so_open s
    \<and> ((\<forall>info now. (Inspect_snapshot info now, False) \<notin> set (zip ws answers)) \<longrightarrow>
        df_rows (so_disk t) = fold (\<lambda>(w, returned). if returned then write_effect zone w else id) (zip ws answers) (df_rows (so_disk s)))"
proof -
  have "length answers = length ws \<and> settled t \<and> so_open t = so_open s
    \<and> led_to zone (zip ws answers) (df_rows (so_disk s)) (df_rows (so_disk t))"
    using assms
  proof (induction ws arbitrary: s answers)
    case (Cons w ws)
    obtain r u where w: "run_write zone w s = (r, u)" by fastforce
    obtain as v where ws: "run_writes zone ws u = (as, v)" by fastforce
    have "answers = (r = Inr ()) # as" "v = t" using Cons.prems(1) w ws by simp_all
    then show ?case using write_leaves [OF w Cons.prems(2)] Cons.IH [of u as] ws by auto
  qed simp
  moreover have "(\<forall>info now. (Inspect_snapshot info now, False) \<notin> set (zip ws answers)) \<longrightarrow>
      df_rows (so_disk t) = fold (\<lambda>(w, returned). if returned then write_effect zone w else id) (zip ws answers) (df_rows (so_disk s))"
    using calculation led_to_whole [of "zip ws answers" zone] by blast
  ultimately show ?thesis by simp
qed

text \<open>
  One agent is seen, the insertion for the next fails: only the first is in the file.
\<close>

definition first_store :: store where
  "first_store =
     (let f = \<lparr>df_tables = UNIV, df_hostname = True, df_rows = empty_db\<rparr> in
      \<lparr>so_disk = f, so_view = f, so_writing = False,
       so_moments = map (\<lambda>b. Moment b id) [False, False, False, False, False, False, True], so_open = 0, so_ready = True\<rparr>)"

definition two_writes :: "panel_write list" where
  "two_writes = [Agent_lost (lit ''10.0.0.5''), Agent_dropped (lit ''DEN'')]"

theorem writes_are_all_or_nothing_witness:
  "settled first_store
   \<and> df_rows (so_disk (snd (run_writes (\<lambda>_. 0) two_writes first_store))) = clear_agent_for_ip (lit ''10.0.0.5'') empty_db"
proof -
  have s: "settled first_store" by (auto simp: settled_def alone_def first_store_def Let_def)
  have "fst (run_writes (\<lambda>_. 0) two_writes first_store) = [True, False]"
    by (simp add: two_writes_def first_store_def Let_def with_connect_def connect_db_def set_up_def write_row_def dml_def
        commit_def tick_def bind_def try_with_def outside_work_def exit_connection_def close_connection_def rollback_def)
  then obtain t where "run_writes (\<lambda>_. 0) two_writes first_store = ([True, False], t)" by (metis prod.collapse)
  with writes_are_all_or_nothing [OF this s] s show ?thesis
    by (simp add: two_writes_def first_store_def Let_def)
qed

section \<open>The first connection\<close>

text \<open>A table without the column has no host names.\<close>

definition file_ok :: "db_file \<Rightarrow> bool" where
  "file_ok f \<longleftrightarrow> df_hostname f \<or> (\<forall>p \<in> set (scan_pcs (df_rows f)). sp_hostname p = None)"

definition up_to_date :: "db_file \<Rightarrow> bool" where
  "up_to_date f \<longleftrightarrow> df_tables f = UNIV \<and> df_hostname f"

text \<open>An action on the schema: outside a transaction, and the rows stay.\<close>

definition reshapes :: "(db_file \<Rightarrow> 'a \<times> db_file) \<Rightarrow> 'a sql \<Rightarrow> bool" where
  "reshapes g m \<longleftrightarrow>
     (\<forall>s. alone s \<and> \<not> so_writing s \<and> file_ok (so_disk s) \<longrightarrow>
        alone (snd (m s)) \<and> \<not> so_writing (snd (m s)) \<and> file_ok (so_disk (snd (m s)))
        \<and> so_ready (snd (m s)) = so_ready s \<and> df_rows (so_disk (snd (m s))) = df_rows (so_disk s)
        \<and> (\<forall>x. fst (m s) = Inr x \<longrightarrow> g (so_disk s) = (x, so_disk (snd (m s)))))"

lemma reshapes_ret: "reshapes (Pair x) (ret x)"
  by (simp add: reshapes_def)

lemma reshapes_cong: "reshapes g m \<Longrightarrow> (\<And>d. g d = h d) \<Longrightarrow> reshapes h m"
  by (metis ext)

lemma ddl_reshapes:
  assumes "alone s \<and> \<not> so_writing s \<and> file_ok (so_disk s)"
    and g: "df_rows (g (so_disk s)) = df_rows (so_disk s) \<and> file_ok (g (so_disk s))"
  shows "alone (snd (ddl g s)) \<and> \<not> so_writing (snd (ddl g s)) \<and> file_ok (so_disk (snd (ddl g s)))
    \<and> so_ready (snd (ddl g s)) = so_ready s \<and> df_rows (so_disk (snd (ddl g s))) = df_rows (so_disk s)
    \<and> (\<forall>x. fst (ddl g s) = Inr x \<longrightarrow> ((), g (so_disk s)) = (x, so_disk (snd (ddl g s))))"
proof -
  obtain r ms where t: "tick s = (r, s\<lparr>so_moments := ms\<rparr>)" "alone (s\<lparr>so_moments := ms\<rparr>)" using tick_alone assms(1) by blast
  have "so_view s = so_disk s" using assms(1) by (simp add: alone_def)
  then show ?thesis
    using assms t by (cases r) (simp_all add: ddl_def bind_def, simp add: alone_def)
qed

lemma reshapes_ddl: "(\<And>f. file_ok f \<Longrightarrow> df_rows (g f) = df_rows f \<and> file_ok (g f)) \<Longrightarrow> reshapes (\<lambda>f. ((), g f)) (ddl g)"
  unfolding reshapes_def using ddl_reshapes by blast

lemma reshapes_check: "reshapes (\<lambda>f. (df_hostname f, f)) (bind tick (\<lambda>_. gets (\<lambda>s. df_hostname (so_view s))))"
  unfolding reshapes_def
proof (intro allI impI)
  fix s assume a: "alone s \<and> \<not> so_writing s \<and> file_ok (so_disk s)"
  then obtain r ms where t: "tick s = (r, s\<lparr>so_moments := ms\<rparr>)" "alone (s\<lparr>so_moments := ms\<rparr>)" using tick_alone by blast
  have "so_view s = so_disk s" using a by (simp add: alone_def)
  let ?m = "bind tick (\<lambda>_. gets (\<lambda>s. df_hostname (so_view s))) s"
  show "alone (snd ?m) \<and> \<not> so_writing (snd ?m) \<and> file_ok (so_disk (snd ?m)) \<and> so_ready (snd ?m) = so_ready s
      \<and> df_rows (so_disk (snd ?m)) = df_rows (so_disk s)
      \<and> (\<forall>x. fst ?m = Inr x \<longrightarrow> (df_hostname (so_disk s), so_disk s) = (x, so_disk (snd ?m)))"
    using a t \<open>so_view s = so_disk s\<close> by (cases r) (simp_all add: bind_def)
qed

lemma reshapes_bind:
  assumes m: "reshapes g m" and k: "\<And>x. reshapes (h x) (k x)"
  shows "reshapes (\<lambda>f. case g f of (x, f') \<Rightarrow> h x f') (bind m k)"
  unfolding reshapes_def
proof (intro allI impI)
  fix s assume a: "alone s \<and> \<not> so_writing s \<and> file_ok (so_disk s)"
  obtain r t where t: "m s = (r, t)" by fastforce
  note mt = m [unfolded reshapes_def, rule_format, OF a, unfolded t snd_conv fst_conv]
  let ?b = "bind m k s"
  show "alone (snd ?b) \<and> \<not> so_writing (snd ?b) \<and> file_ok (so_disk (snd ?b)) \<and> so_ready (snd ?b) = so_ready s
      \<and> df_rows (so_disk (snd ?b)) = df_rows (so_disk s)
      \<and> (\<forall>x. fst ?b = Inr x \<longrightarrow> (case g (so_disk s) of (x, f') \<Rightarrow> h x f') = (x, so_disk (snd ?b)))"
  proof (cases r)
    case (Inl e)
    then show ?thesis using mt t by (simp add: bind_def)
  next
    case (Inr x)
    have "?b = k x t" using t Inr by (simp add: bind_def)
    with mt k [of x, unfolded reshapes_def, rule_format, of t] Inr show ?thesis by auto
  qed
qed

lemma reshapes_for_each:
  "(\<And>x. x \<in> set xs \<Longrightarrow> reshapes (\<lambda>f. ((), g x f)) (k x)) \<Longrightarrow> reshapes (\<lambda>f. ((), fold g xs f)) (for_each xs k)"
proof (induction xs)
  case Nil
  then show ?case by (simp only: for_each.simps fold.simps id_apply reshapes_ret)
next
  case (Cons x xs)
  have "reshapes (\<lambda>f. ((), g x f)) (k x)" "reshapes (\<lambda>f. ((), fold g xs f)) (for_each xs k)"
    using Cons by simp_all
  then show ?case using reshapes_bind by fastforce
qed

lemma script_step: "g \<in> set schema_script \<Longrightarrow> file_ok f \<Longrightarrow> df_rows (g f) = df_rows f \<and> file_ok (g f)"
  by (auto simp: schema_script_def create_table_def file_ok_def)

lemma add_column_step: "file_ok f \<Longrightarrow> \<not> df_hostname f \<Longrightarrow> df_rows (add_hostname_column f) = df_rows f \<and> file_ok (add_hostname_column f)"
  by (auto simp: file_ok_def add_hostname_column_def intro!: panel_db.equality map_idI)

definition complete_columns :: "db_file \<Rightarrow> db_file" where
  "complete_columns f = (if df_hostname f then f else add_hostname_column f)"

lemma reshapes_column:
  "reshapes (\<lambda>f. ((), complete_columns f))
     (bind (bind tick (\<lambda>_. gets (\<lambda>s. df_hostname (so_view s)))) (\<lambda>there. only_if (\<not> there) (ddl add_hostname_column)))"
  (is "reshapes _ (bind ?check ?k)")
  unfolding reshapes_def
proof (intro allI impI)
  fix s assume a: "alone s \<and> \<not> so_writing s \<and> file_ok (so_disk s)"
  obtain r t where t: "?check s = (r, t)" by fastforce
  note c = reshapes_check [unfolded reshapes_def, rule_format, OF a, unfolded t snd_conv fst_conv]
  let ?b = "bind ?check ?k s"
  show "alone (snd ?b) \<and> \<not> so_writing (snd ?b) \<and> file_ok (so_disk (snd ?b)) \<and> so_ready (snd ?b) = so_ready s
      \<and> df_rows (so_disk (snd ?b)) = df_rows (so_disk s)
      \<and> (\<forall>x. fst ?b = Inr x \<longrightarrow> ((), complete_columns (so_disk s)) = (x, so_disk (snd ?b)))"
  proof (cases r)
    case (Inl e)
    then show ?thesis using c t by (simp add: bind_def)
  next
    case (Inr there)
    have b: "?b = only_if (\<not> there) (ddl add_hostname_column) t" using t Inr by (simp add: bind_Inr)
    have th: "there = df_hostname (so_disk s)" "so_disk t = so_disk s" using c Inr by auto
    show ?thesis
    proof (cases there)
      case True
      then show ?thesis using b th c by (simp add: complete_columns_def)
    next
      case False
      have "file_ok (so_disk t)" "\<not> df_hostname (so_disk t)" using c th False by auto
      with ddl_reshapes [of t add_hostname_column] add_column_step c b th False
      show ?thesis by (auto simp: complete_columns_def)
    qed
  qed
qed

definition schema_part :: "unit sql" where
  "schema_part =
     bind (for_each schema_script ddl)
       (\<lambda>_. bind (bind tick (\<lambda>_. gets (\<lambda>s. df_hostname (so_view s)))) (\<lambda>there. only_if (\<not> there) (ddl add_hostname_column)))"

lemma ensure_schema_parts: "ensure_schema = bind schema_part (\<lambda>_. bind backfill_scan_pcs (\<lambda>_. ddl id))"
  by (simp only: ensure_schema_def ensure_scan_pcs_hostname_def schema_part_def bind_assoc)

lemma reshapes_schema: "reshapes (\<lambda>f. ((), complete_columns (fold (\<lambda>g. g) schema_script f))) schema_part"
  unfolding schema_part_def
  by (rule reshapes_cong, rule reshapes_bind [OF reshapes_for_each reshapes_column]) (auto intro!: reshapes_ddl dest: script_step)

lemma schema_up_to_date: "up_to_date (complete_columns (fold (\<lambda>g. g) schema_script f))"
proof -
  have "UNIV = {Snapshots_table, Scans_table, Scan_pcs_table, Meta_table, Agents_table}"
    using table.exhaust by auto
  then show ?thesis
    by (auto simp: up_to_date_def complete_columns_def schema_script_def create_table_def add_hostname_column_def)
qed

text \<open>The statements of the backfill make what \<open>backfill_hostname\<close> says, row by row.\<close>

definition fill_cell :: "scan_pc_row \<Rightarrow> scan_pc_row \<Rightarrow> scan_pc_row" where
  "fill_cell r p =
     (case payload_hostname (sp_payload r) of
        Some h \<Rightarrow> if sp_scan_id p = sp_scan_id r \<and> sp_ip p = sp_ip r then p\<lparr>sp_hostname := Some h\<rparr> else p
      | None \<Rightarrow> p)"

lemma fold_fill: "fold fill_row rows d = d\<lparr>scan_pcs := map (fold fill_cell rows) (scan_pcs d)\<rparr>"
proof (induction rows arbitrary: d)
  case (Cons r rows)
  have "fill_row r d = d\<lparr>scan_pcs := map (fill_cell r) (scan_pcs d)\<rparr>"
  proof (cases "payload_hostname (sp_payload r)")
    case None
    then have "fill_cell r = id" by (auto simp: fill_cell_def)
    with None show ?thesis by (simp add: fill_row_def)
  next
    case (Some h)
    then show ?thesis by (auto simp: fill_row_def fill_cell_def update_scan_pc_def)
  qed
  with Cons show ?case by simp
qed (simp add: id_def)

lemma fill_cell_key: "sp_scan_id (fill_cell r p) = sp_scan_id p \<and> sp_ip (fill_cell r p) = sp_ip p"
  by (simp add: fill_cell_def split: option.split)

lemma fold_fill_cell:
  assumes "distinct (map (\<lambda>p. (sp_scan_id p, sp_ip p)) rows)"
  shows "fold fill_cell rows p =
    (case List.find (\<lambda>r. (sp_scan_id r, sp_ip r) = (sp_scan_id p, sp_ip p)) rows of None \<Rightarrow> p | Some r \<Rightarrow> fill_cell r p)"
  using assms
proof (induction rows arbitrary: p)
  case (Cons r rows)
  let ?key = "\<lambda>p. (sp_scan_id p, sp_ip p)"
  show ?case
  proof (cases "?key r = ?key p")
    case True
    have n: "?key p \<notin> ?key ` set rows" using Cons.prems True by simp
    have "\<forall>q \<in> set rows. ?key q \<noteq> ?key p"
    proof
      fix q assume "q \<in> set rows"
      then have "?key q \<in> ?key ` set rows" by (rule imageI)
      with n show "?key q \<noteq> ?key p" by metis
    qed
    then have "List.find (\<lambda>q. ?key q = ?key p) rows = None" by (auto simp: find_None_iff)
    with True Cons show ?thesis by (auto simp: fill_cell_key)
  next
    case False
    then have "fill_cell r p = p" by (auto simp: fill_cell_def split: option.split)
    with False Cons show ?thesis by auto
  qed
qed simp

lemma backfill_rows:
  assumes "distinct (map (\<lambda>p. (sp_scan_id p, sp_ip p)) (scan_pcs d))"
  shows "fold fill_row (rows_to_fill d) d = backfill_hostname d"
proof -
  let ?empty = "\<lambda>p. sp_hostname p = None \<or> sp_hostname p = Some []"
  have d: "distinct (map (\<lambda>p. (sp_scan_id p, sp_ip p)) (rows_to_fill d))"
    using assms by (simp add: rows_to_fill_def distinct_map_filter)
  have cell: "fold fill_cell (rows_to_fill d) p = (if ?empty p then fill_cell p p else p)" if p: "p \<in> set (scan_pcs d)" for p
  proof -
    have same: "q = p" if "q \<in> set (rows_to_fill d)" "(sp_scan_id q, sp_ip q) = (sp_scan_id p, sp_ip p)" for q
      using distinct_key [OF assms, of q p] that p by (auto simp: rows_to_fill_def)
    show ?thesis
    proof (cases "List.find (\<lambda>r. (sp_scan_id r, sp_ip r) = (sp_scan_id p, sp_ip p)) (rows_to_fill d)")
      case None
      then have "\<not> ?empty p" using p by (auto simp: find_None_iff rows_to_fill_def)
      then show ?thesis using None unfolding fold_fill_cell [OF d] by auto
    next
      case (Some q)
      then have "q \<in> set (rows_to_fill d)" "(sp_scan_id q, sp_ip q) = (sp_scan_id p, sp_ip p)"
        by (auto simp: find_Some_iff)
      with same have "q = p" "p \<in> set (rows_to_fill d)" by auto
      then show ?thesis using Some unfolding fold_fill_cell [OF d] by (auto simp: rows_to_fill_def)
    qed
  qed
  have "(if ?empty p then fill_cell p p else p) = (if ?empty p then
            (case jget (sp_payload p) ''hostname'' of JStr h \<Rightarrow> if h \<noteq> [] then p\<lparr>sp_hostname := Some h\<rparr> else p | _ \<Rightarrow> p) else p)" for p
    by (auto simp: fill_cell_def payload_hostname_def split: json.split)
  then show ?thesis by (simp add: fold_fill backfill_hostname_def cell cong: map_cong)
qed

lemma computes_backfill: "computes (\<lambda>d. ((), fold fill_row (rows_to_fill d) d)) backfill_scan_pcs"
proof -
  have row: "computes (\<lambda>d. ((), fill_row r d)) (only_if (payload_hostname (sp_payload r) \<noteq> None) (dml (fill_row r)))" for r
    by (rule computes_cong, rule computes_only_if [OF computes_dml]) (simp add: fill_row_def)
  show ?thesis
    unfolding backfill_scan_pcs_def
    by (rule computes_cong, rule computes_bind [OF computes_query computes_for_each [OF row]]) simp
qed

lemma ddl_id_keeps:
  assumes "alone s"
  shows "\<exists>r t. ddl id s = (r, t) \<and> alone t \<and> so_disk t = so_disk s \<and> so_view t = so_view s
    \<and> so_writing t = so_writing s \<and> so_ready t = so_ready s"
proof -
  obtain r ms where t: "tick s = (r, s\<lparr>so_moments := ms\<rparr>)" "alone (s\<lparr>so_moments := ms\<rparr>)" using tick_alone [OF assms] by blast
  show ?thesis using t assms by (cases r) (auto simp: ddl_def bind_def alone_def)
qed

definition distinct_sightings :: "panel_db \<Rightarrow> bool" where
  "distinct_sightings d \<longleftrightarrow> distinct (map (\<lambda>p. (sp_scan_id p, sp_ip p)) (scan_pcs d))"

lemma ensure_schema_run:
  assumes "alone s" and "\<not> so_writing s" and "file_ok (so_disk s)" and "distinct_sightings (df_rows (so_disk s))"
  shows "\<exists>r t. ensure_schema s = (r, t) \<and> alone t \<and> so_ready t = so_ready s
    \<and> df_rows (so_disk t) = df_rows (so_disk s)
    \<and> (r = Inr () \<longrightarrow> up_to_date (so_view t) \<and> df_rows (so_view t) = backfill_hostname (df_rows (so_disk s)))"
proof -
  obtain r t where t: "schema_part s = (r, t)" by fastforce
  have pre: "alone s \<and> \<not> so_writing s \<and> file_ok (so_disk s)" using assms(1-3) by simp
  note st = reshapes_schema [unfolded reshapes_def, rule_format, OF pre, unfolded t fst_conv snd_conv]
  show ?thesis
  proof (cases r)
    case (Inl e)
    then show ?thesis using st t by (auto simp: ensure_schema_parts bind_def)
  next
    case (Inr x)
    have u: "up_to_date (so_disk t)" using st Inr schema_up_to_date [of "so_disk s"] by auto
    have at: "alone t" "so_view t = so_disk t" using st by (auto simp: alone_def)
    obtain q v where v: "backfill_scan_pcs t = (q, v)" by fastforce
    note sv = computes_backfill [unfolded computes_def, rule_format, OF at(1), unfolded v fst_conv snd_conv]
    show ?thesis
    proof (cases q)
      case (Inl e)
      then show ?thesis using st sv t v Inr by (auto simp: ensure_schema_parts bind_def frame_def)
    next
      case q: (Inr y)
      obtain p w where w: "ddl id v = (p, w)" "alone w" "so_disk w = so_disk v" "so_view w = so_view v" "so_ready w = so_ready v"
        using ddl_id_keeps [of v] sv by (auto simp: frame_def)
      have "ensure_schema s = (p, w)" using t v w(1) Inr q by (simp add: ensure_schema_parts bind_Inr)
      moreover have "df_rows (so_view v) = backfill_hostname (df_rows (so_disk s))"
        using sv q st at(2) backfill_rows assms(4) by (auto simp: distinct_sightings_def)
      moreover have "up_to_date (so_view v)" using u sv at(2) by (auto simp: up_to_date_def frame_def)
      ultimately show ?thesis using w st sv by (auto simp: frame_def)
    qed
  qed
qed

lemma set_up_run:
  assumes "alone s" and "\<not> so_writing s" and "\<not> so_ready s" and "file_ok (so_disk s)"
    and "distinct_sightings (df_rows (so_disk s))"
  shows "\<exists>r t. set_up s = (r, t) \<and> (case r of
      Inl _ \<Rightarrow> alone t \<and> \<not> so_ready t \<and> df_rows (so_disk t) = df_rows (so_disk s)
    | Inr _ \<Rightarrow> settled t \<and> up_to_date (so_disk t) \<and> df_rows (so_disk t) = backfill_hostname (df_rows (so_disk s)))"
proof -
  obtain r ms where 1: "tick s = (r, s\<lparr>so_moments := ms\<rparr>)" "alone (s\<lparr>so_moments := ms\<rparr>)" using tick_alone [OF assms(1)] by blast
  obtain q ns where 2: "tick (s\<lparr>so_moments := ms\<rparr>) = (q, s\<lparr>so_moments := ns\<rparr>)" "alone (s\<lparr>so_moments := ns\<rparr>)"
    using tick_alone [OF 1(2)] by auto
  obtain p t where 3: "ensure_schema (s\<lparr>so_moments := ns\<rparr>) = (p, t)" "alone t" "so_ready t = so_ready s"
      "df_rows (so_disk t) = df_rows (so_disk s)"
      "p = Inr () \<longrightarrow> up_to_date (so_view t) \<and> df_rows (so_view t) = backfill_hostname (df_rows (so_disk s))"
    using ensure_schema_run [OF 2(2)] assms by auto
  obtain o' us where 4: "tick t = (o', t\<lparr>so_moments := us\<rparr>)" "alone (t\<lparr>so_moments := us\<rparr>)" using tick_alone [OF 3(2)] by blast
  show ?thesis
  proof (cases "r = Inr () \<and> q = Inr () \<and> p = Inr ()")
    case False
    then show ?thesis using 1 2 3 assms(3) by (cases r; cases q; cases p) (simp_all add: set_up_def bind_def)
  next
    case True
    show ?thesis
    proof (cases "so_writing t")
      case False
      then have "so_view t = so_disk t" using 3(2) by (simp add: alone_def)
      with False True 1 2 3 assms(3) show ?thesis
        by (simp add: set_up_def bind_def commit_def settled_def alone_def)
    next
      case w: True
      with True 1 2 3 4 assms(3) show ?thesis
        by (cases o') (simp_all add: set_up_def bind_def commit_def settled_def alone_def)
    qed
  qed
qed

text \<open>
  C34. The first connection brings a file of an older version up to date or leaves its rows
  alone: if it succeeds, every table and the column are there and every row without a host
  name has that of its payload; if a statement fails, the file's rows are as they were, the
  connection is closed, and the next connection tries again.
\<close>

theorem first_connection_updates_or_retries:
  assumes "alone s" and "\<not> so_writing s" and "\<not> so_ready s" and "file_ok (so_disk s)"
    and "distinct_sightings (df_rows (so_disk s))" and "connect_db s = (r, t)"
  shows "case r of
      Inl _ \<Rightarrow> \<not> so_ready t \<and> so_open t = so_open s \<and> df_rows (so_disk t) = df_rows (so_disk s)
    | Inr _ \<Rightarrow> settled t \<and> so_open t = so_open s + 1 \<and> up_to_date (so_disk t)
        \<and> df_rows (so_disk t) = backfill_hostname (df_rows (so_disk s))"
proof -
  obtain p ms where 1: "tick s = (p, s\<lparr>so_moments := ms\<rparr>)" "alone (s\<lparr>so_moments := ms\<rparr>)" using tick_alone [OF assms(1)] by blast
  let ?u = "s\<lparr>so_moments := ms, so_open := Suc (so_open s)\<rparr>"
  have u: "alone ?u" using 1(2) by (simp add: alone_def)
  have same: "so_disk ?u = so_disk s" "so_writing ?u = so_writing s" "so_ready ?u = so_ready s" by simp_all
  obtain q v where 2: "set_up ?u = (q, v)" "case q of
      Inl _ \<Rightarrow> alone v \<and> \<not> so_ready v \<and> df_rows (so_disk v) = df_rows (so_disk s)
    | Inr _ \<Rightarrow> settled v \<and> up_to_date (so_disk v) \<and> df_rows (so_disk v) = backfill_hostname (df_rows (so_disk s))"
    using set_up_run [of ?u, unfolded same, OF u assms(2-5)] by blast
  have o: "so_open t = (case r of Inl e \<Rightarrow> so_open s | Inr _ \<Rightarrow> so_open s + 1)"
    using connect_opens [of s] assms(6) by simp
  show ?thesis
  proof (cases p)
    case (Inl e)
    then show ?thesis using 1 o assms(3,6) by (auto simp: connect_db_def bind_def)
  next
    case (Inr x)
    then show ?thesis using 1 2 o assms(6)
      by (cases q) (auto simp: connect_db_def bind_def try_with_def close_disk, simp_all add: close_connection_def rollback_def)
  qed
qed

text \<open>A file from before the column, with one computer.\<close>

definition old_row :: scan_pc_row where
  "old_row = \<lparr>sp_scan_id = 1, sp_ip = lit ''10.0.0.5'', sp_hostname = None,
     sp_payload = [(lit ''ip'', JStr (lit ''10.0.0.5'')), (lit ''hostname'', JStr (lit ''DEN''))]\<rparr>"

definition old_store :: store where
  "old_store =
     (let f = \<lparr>df_tables = {Scans_table, Scan_pcs_table}, df_hostname = False, df_rows = empty_db\<lparr>scan_pcs := [old_row]\<rparr>\<rparr> in
      \<lparr>so_disk = f, so_view = f, so_writing = False, so_moments = [], so_open = 0, so_ready = False\<rparr>)"

lemma tick_quiet: "so_moments s = [] \<Longrightarrow> tick s = (Inr (), s)"
  by (simp add: tick_def)

theorem first_connection_updates_or_retries_witness:
  "\<exists>t. connect_db old_store = (Inr (), t) \<and> up_to_date (so_disk t)
    \<and> scan_pcs (df_rows (so_disk t)) = [old_row\<lparr>sp_hostname := Some (lit ''DEN'')\<rparr>]"
proof -
  have pre: "alone old_store" "\<not> so_writing old_store" "\<not> so_ready old_store" "file_ok (so_disk old_store)"
    "distinct_sightings (df_rows (so_disk old_store))"
    by (simp_all add: alone_def old_store_def Let_def file_ok_def distinct_sightings_def old_row_def)
  have "fst (connect_db old_store) = Inr ()"
    by (simp add: connect_db_def set_up_def ensure_schema_def ensure_scan_pcs_hostname_def backfill_scan_pcs_def schema_script_def
        old_store_def Let_def bind_def try_with_def tick_quiet ddl_def query_def dml_def commit_def rows_to_fill_def
        payload_hostname_def old_row_def jget_def create_table_def add_hostname_column_def)
  then obtain t where t: "connect_db old_store = (Inr (), t)" by (metis prod.collapse)
  have "scan_pcs (backfill_hostname (df_rows (so_disk old_store))) = [old_row\<lparr>sp_hostname := Some (lit ''DEN'')\<rparr>]"
    by (simp add: backfill_hostname_def old_store_def Let_def old_row_def jget_def)
  with first_connection_updates_or_retries [OF pre t] t show ?thesis by auto
qed

section \<open>Between the decision and the deletion\<close>

text \<open>
  The pruner reads outside a transaction: the lock is only taken by its first deletion. A
  computer that reports in between is deleted all the same, and is missing from the panel
  until its agent reports again.
\<close>

definition decide_sql :: "(datetime \<Rightarrow> int) \<Rightarrow> int \<Rightarrow> (pystr list \<times> pystr list) sql" where
  "decide_sql zone cutoff =
     bind (query tracked_ips) (\<lambda>ips. bind (filter_by (stale_sql zone cutoff) ips) (\<lambda>stale. ret (ips, stale)))"

theorem returned_computer_is_pruned:
  assumes "decide_sql zone (instant now - hours_us STALE_TRACKED_HOURS) s = (Inr (ips, stale), u)"
    and "stale = ip # others_gone" and "length ips \<noteq> 1" and "\<not> so_writing u"
    and "so_moments u = [Moment False (record_poll_inspect ip info later)]"
  shows "\<exists>t. prune_sql zone None now s = (Inr stale, t)
    \<and> (\<forall>p \<in> set (scan_pcs (df_rows (so_disk t))). sp_ip p \<noteq> ip)"
proof -
  let ?d = "record_poll_inspect ip info later (df_rows (so_disk u))"
  define v where "v = outside_work (Moment False (record_poll_inspect ip info later)) (u\<lparr>so_moments := []\<rparr>)"
  have v: "so_moments v = []" "df_rows (so_view v) = ?d" "\<not> so_writing v"
    using assms(4) by (simp_all add: v_def outside_work_def Let_def)
  have quiet: "so_moments w = [] \<Longrightarrow> so_writing w \<Longrightarrow> for_each xs (\<lambda>ip. dml (delete_ip ip)) w =
      (Inr (), w\<lparr>so_view := (so_view w)\<lparr>df_rows := fold delete_ip xs (df_rows (so_view w))\<rparr>\<rparr>)" for xs w
    by (induction xs arbitrary: w) (simp_all add: bind_def dml_def tick_quiet)
  let ?w = "v\<lparr>so_view := (so_view v)\<lparr>df_rows := delete_ip ip ?d\<rparr>, so_writing := True\<rparr>"
  have first: "dml (delete_ip ip) u = (Inr (), ?w)"
    using assms(5) v by (simp add: dml_def bind_def tick_def v_def [symmetric])
  let ?e = "prune_orphan_scans (fold delete_ip others_gone (delete_ip ip ?d))"
  have "prune_sql zone None now s = (Inr stale, ?w\<lparr>so_view := (so_view v)\<lparr>df_rows := ?e\<rparr>,
      so_disk := (so_view v)\<lparr>df_rows := ?e\<rparr>, so_writing := False\<rparr>)"
  proof -
    have "prune_sql zone None now s =
      bind (decide_sql zone (instant now - hours_us STALE_TRACKED_HOURS))
        (\<lambda>(ips, stale). if length ips = 1 \<and> stale \<noteq> [] then bind (mark_sql (hd ips)) (\<lambda>_. bind commit (\<lambda>_. ret []))
           else bind (for_each stale (\<lambda>ip. dml (delete_ip ip)))
             (\<lambda>_. bind (dml prune_orphan_scans) (\<lambda>_. bind commit (\<lambda>_. ret stale)))) s"
      by (simp add: prune_sql_def decide_sql_def bind_assoc Let_def)
    also have "\<dots> = bind (for_each stale (\<lambda>ip. dml (delete_ip ip)))
        (\<lambda>_. bind (dml prune_orphan_scans) (\<lambda>_. bind commit (\<lambda>_. ret stale))) u"
      using assms(1,3) by (simp add: bind_Inr)
    also have "\<dots> = (Inr stale, ?w\<lparr>so_view := (so_view v)\<lparr>df_rows := ?e\<rparr>,
      so_disk := (so_view v)\<lparr>df_rows := ?e\<rparr>, so_writing := False\<rparr>)"
      using assms(2) first quiet [of ?w others_gone] v
      by (simp add: bind_def dml_def commit_def tick_quiet)
    finally show ?thesis .
  qed
  moreover have "\<forall>p \<in> set (scan_pcs ?e). sp_ip p \<noteq> ip"
    by (simp add: fold_delete prune_orphan_scans_def delete_ip_def)
  ultimately show ?thesis by simp
qed

end
