(* ===== verification/Secret_Store.thy ===== *)
theory Secret_Store
  imports PyText Effects
begin

text \<open>
  The secret that panel and agent share: \<open>src/kid_pc_monitor/secrets_store.py\<close> (encrypted
  files in one of several directories) and \<open>src/kid_pc_monitor/shared_secret.py\<close> (asking the
  parent for it). The cipher and the key derivation are parameters; a file is what stands
  in a directory under a name, and each account sees the directories with its own rights.
\<close>

section \<open>Accounts and files\<close>

text \<open>What an account may do with the files of a directory: read them, only see them, not even that.\<close>

datatype access = Readable | Visible | Closed

record account =
  ac_override :: pystr
  ac_machine_dir :: pystr
  ac_user_dir :: pystr
  ac_key :: pystr
  ac_access :: "pystr \<Rightarrow> access"
  ac_writes :: "pystr \<Rightarrow> bool"

text \<open>
  The library \<open>cryptography\<close>: the Fernet key derived from some material, encrypting with
  the random bytes of the moment, decrypting (None for an invalid token).
\<close>

record cipher =
  ci_derive :: "bytes \<Rightarrow> bytes"
  ci_encrypt :: "bytes \<Rightarrow> bytes \<Rightarrow> bytes \<Rightarrow> bytes"
  ci_decrypt :: "bytes \<Rightarrow> bytes \<Rightarrow> bytes option"

type_synonym vault = "pystr \<Rightarrow> pystr \<Rightarrow> bytes option"

definition BOOTSTRAP_KEY :: bytes where
  "BOOTSTRAP_KEY = lit ''kid-pc-monitor-v3-shared-secret-kdf-2026''"

definition derive_store_key :: "cipher \<Rightarrow> account \<Rightarrow> bytes res" where
  "derive_store_key ci ac =
     (let raw = strip (ac_key ac) in
      rbind (if raw \<noteq> [] then utf8_encode raw else Inr BOOTSTRAP_KEY) (\<lambda>m. Inr (ci_derive ci m)))"

text \<open>The candidate directories: the override alone, else the machine's and the user's.\<close>

definition secrets_dirs :: "account \<Rightarrow> pystr list" where
  "secrets_dirs ac =
     (let override = strip (ac_override ac) in
      if override \<noteq> [] then [override]
      else if ac_user_dir ac = ac_machine_dir ac then [ac_machine_dir ac]
      else [ac_machine_dir ac, ac_user_dir ac])"

section \<open>Saving, finding, loading, deleting\<close>

text \<open>
  The loop of \<open>save_secret\<close> over the directories: the file is written beside its place and
  moved there, so a directory that refuses any of it keeps what it had.
\<close>

fun save_in :: "account \<Rightarrow> pystr \<Rightarrow> bytes \<Rightarrow> pystr list \<Rightarrow> (vault, pystr) act" where
  "save_in ac name token [] = raising (OSError (lit ''no writable secrets directory''))"
| "save_in ac name token (d # ds) =
     (if ac_writes ac d
      then bind (modify (\<lambda>v. v(d := (v d)(name \<mapsto> token)))) (\<lambda>_. ret d)
      else save_in ac name token ds)"

definition save_secret :: "cipher \<Rightarrow> bytes \<Rightarrow> account \<Rightarrow> pystr \<Rightarrow> pystr \<Rightarrow> (vault, pystr) act" where
  "save_secret ci random ac name value =
     bind (lift (derive_store_key ci ac))
       (\<lambda>key. bind (lift (utf8_encode value))
         (\<lambda>plain. save_in ac name (ci_encrypt ci key random plain) (secrets_dirs ac)))"

text \<open>\<open>path.is_file()\<close> raises when the directory may not even be searched.\<close>

definition secret_is_file :: "account \<Rightarrow> vault \<Rightarrow> pystr \<Rightarrow> pystr \<Rightarrow> bool res" where
  "secret_is_file ac v d name =
     (if ac_access ac d = Closed then Inl (OSError (lit ''permission'')) else Inr (v d name \<noteq> None))"

text \<open>What decrypting a file gives; whatever goes wrong, None.\<close>

definition try_decrypt :: "cipher \<Rightarrow> account \<Rightarrow> vault \<Rightarrow> pystr \<Rightarrow> pystr \<Rightarrow> bytes option" where
  "try_decrypt ci ac v d name =
     (case derive_store_key ci ac of
        Inl _ \<Rightarrow> None
      | Inr key \<Rightarrow>
          if ac_access ac d = Readable
          then (case v d name of None \<Rightarrow> None | Some token \<Rightarrow> ci_decrypt ci key token)
          else None)"

fun find_in :: "cipher \<Rightarrow> account \<Rightarrow> vault \<Rightarrow> pystr \<Rightarrow> pystr list \<Rightarrow> pystr option res" where
  "find_in ci ac v name [] = Inr None"
| "find_in ci ac v name (d # ds) =
     rbind (secret_is_file ac v d name)
       (\<lambda>there. if there \<and> try_decrypt ci ac v d name \<noteq> None then Inr (Some d)
          else find_in ci ac v name ds)"

definition find_secret_path :: "cipher \<Rightarrow> account \<Rightarrow> pystr \<Rightarrow> vault \<Rightarrow> pystr option res" where
  "find_secret_path ci ac name v = find_in ci ac v name (secrets_dirs ac)"

definition load_secret :: "cipher \<Rightarrow> account \<Rightarrow> pystr \<Rightarrow> vault \<Rightarrow> pystr option res" where
  "load_secret ci ac name v =
     rbind (find_secret_path ci ac name v)
       (\<lambda>found. case found of
          None \<Rightarrow> Inr None
        | Some d \<Rightarrow>
            (case try_decrypt ci ac v d name of
               None \<Rightarrow> Inr None
             | Some plain \<Rightarrow> rbind (utf8_decode plain) (\<lambda>s. Inr (Some s))))"

primrec delete_in :: "account \<Rightarrow> pystr \<Rightarrow> pystr list \<Rightarrow> (vault, bool) act" where
  "delete_in ac name [] = ret False"
| "delete_in ac name (d # ds) =
     bind (gets (\<lambda>v. secret_is_file ac v d name))
       (\<lambda>there. bind (lift there)
         (\<lambda>there. if there \<and> ac_writes ac d
            then bind (modify (\<lambda>v. v(d := (v d)(name := None))))
                   (\<lambda>_. bind (delete_in ac name ds) (\<lambda>_. ret True))
            else delete_in ac name ds))"

definition delete_secret :: "account \<Rightarrow> pystr \<Rightarrow> (vault, bool) act" where
  "delete_secret ac name = delete_in ac name (secrets_dirs ac)"

section \<open>The shared secret\<close>

definition SHARED_SECRET_NAME :: pystr where
  "SHARED_SECRET_NAME = lit ''panel-agent-shared-secret''"

definition MIN_SECRET_LENGTH :: nat where
  "MIN_SECRET_LENGTH = 8"

definition load_shared_secret :: "cipher \<Rightarrow> account \<Rightarrow> vault \<Rightarrow> pystr option res" where
  "load_shared_secret ci ac v = load_secret ci ac SHARED_SECRET_NAME v"

definition require_shared_secret :: "cipher \<Rightarrow> account \<Rightarrow> vault \<Rightarrow> pystr res" where
  "require_shared_secret ci ac v =
     rbind (load_shared_secret ci ac v)
       (\<lambda>s. case s of
          Some t \<Rightarrow> if t \<noteq> [] then Inr t else Inl (HostError (lit ''SharedSecretMissing''))
        | None \<Rightarrow> Inl (HostError (lit ''SharedSecretMissing'')))"

text \<open>
  What the parent answers to the prompts: a text, or None for an end of file or an
  interrupt. The prompts go on until a text of enough length is entered twice.
\<close>

fun prompt_for_shared_secret :: "pystr option list \<Rightarrow> pystr option" where
  "prompt_for_shared_secret (Some t # answers) =
     (if length (strip t) < MIN_SECRET_LENGTH then prompt_for_shared_secret answers
      else
        case answers of
          Some u # later \<Rightarrow>
            if strip t \<noteq> strip u then prompt_for_shared_secret later else Some (strip t)
        | _ \<Rightarrow> None)"
| "prompt_for_shared_secret answers = None"

definition prompt_and_store_shared_secret ::
  "cipher \<Rightarrow> bytes \<Rightarrow> account \<Rightarrow> pystr option list \<Rightarrow> (vault, pystr option) act" where
  "prompt_and_store_shared_secret ci random ac answers =
     bind (gets (load_shared_secret ci ac))
       (\<lambda>stored. bind (lift stored)
         (\<lambda>existing. case existing of
            Some s \<Rightarrow> bind (save_secret ci random ac SHARED_SECRET_NAME s) (\<lambda>_. ret (Some s))
          | None \<Rightarrow>
              (case prompt_for_shared_secret answers of
                 None \<Rightarrow> ret None
               | Some s \<Rightarrow> bind (save_secret ci random ac SHARED_SECRET_NAME s) (\<lambda>_. ret (Some s)))))"

section \<open>What a save leaves\<close>

text \<open>The law of the cipher the code relies on: what was encrypted with a key is decrypted with it.\<close>

definition decrypts :: "cipher \<Rightarrow> bool" where
  "decrypts ci \<longleftrightarrow> (\<forall>key random plain. ci_decrypt ci key (ci_encrypt ci key random plain) = Some plain)"

text \<open>An account that can write in a directory can read there.\<close>

definition reads_what_it_writes :: "account \<Rightarrow> bool" where
  "reads_what_it_writes ac \<longleftrightarrow> (\<forall>d. ac_writes ac d \<longrightarrow> ac_access ac d = Readable)"

lemma save_in_Inr:
  "save_in ac name token ds v = (Inr d, w) \<Longrightarrow>
   d \<in> set ds \<and> ac_writes ac d \<and> w = v(d := (v d)(name \<mapsto> token))"
  by (induction ds) (auto split: if_splits)

lemma save_in_hd: "ac_writes ac d \<Longrightarrow> save_in ac name token (d # ds) v = (Inr d, v(d := (v d)(name \<mapsto> token)))"
  by simp

lemma save_secret_Inr:
  assumes "save_secret ci random ac name s v = (Inr d, w)"
  obtains key plain where "derive_store_key ci ac = Inr key" "utf8_encode s = Inr plain"
    "save_in ac name (ci_encrypt ci key random plain) (secrets_dirs ac) v = (Inr d, w)"
  using assms by (auto simp: save_secret_def split: sum.splits)

lemma try_decrypt_cong: "v x name = w x name \<Longrightarrow> try_decrypt ci ac v x name = try_decrypt ci ac w x name"
  by (simp add: try_decrypt_def split: sum.split)

lemma try_decrypt_there: "try_decrypt ci ac v x name = Some plain \<Longrightarrow> v x name \<noteq> None \<and> ac_access ac x = Readable"
  by (auto simp: try_decrypt_def split: sum.splits if_splits option.splits)

lemma try_decrypt_saved:
  assumes "decrypts ci" "derive_store_key ci bc = Inr key" "ac_access bc d = Readable"
    "w d name = Some (ci_encrypt ci key random plain)"
  shows "try_decrypt ci bc w d name = Some plain"
  using assms by (simp add: try_decrypt_def decrypts_def)

text \<open>A search after a save finds the saved file, or what it found before.\<close>

lemma find_after_save:
  assumes "find_in ci ac v name ds = Inr r" "d \<in> set ds" "try_decrypt ci ac w d name = Some plain"
    and same: "\<And>x. x \<noteq> d \<Longrightarrow> w x name = v x name"
  shows "\<exists>q. find_in ci ac w name ds = Inr (Some q) \<and> (q = d \<or> (q \<noteq> d \<and> r = Some q))"
  using assms(1,2)
proof (induction ds)
  case (Cons x ds)
  show ?case
  proof (cases "x = d")
    case True
    then show ?thesis using assms(3) try_decrypt_there [OF assms(3)] by (simp add: secret_is_file_def)
  next
    case False
    then have eq: "try_decrypt ci ac w x name = try_decrypt ci ac v x name" "w x name = v x name"
      using same [of x] by (auto intro: try_decrypt_cong)
    have open_dir: "ac_access ac x \<noteq> Closed" using Cons.prems(1) by (auto simp: secret_is_file_def)
    show ?thesis
    proof (cases "try_decrypt ci ac v x name = None")
      case True
      then show ?thesis using Cons.IH Cons.prems False eq open_dir by (simp add: secret_is_file_def)
    next
      case found: False
      then have "v x name \<noteq> None" using try_decrypt_there by blast
      then show ?thesis using found Cons.prems(1) False eq open_dir by (auto simp: secret_is_file_def)
    qed
  qed
qed simp

lemma find_in_found: "find_in ci ac v name ds = Inr (Some q) \<Longrightarrow> try_decrypt ci ac v q name \<noteq> None"
  by (induction ds) (auto simp: res_simps secret_is_file_def split: if_splits)

lemma load_secret_at:
  assumes "find_secret_path ci ac name v = Inr (Some q)" "try_decrypt ci ac v q name = Some plain"
  shows "load_secret ci ac name v = rbind (utf8_decode plain) (\<lambda>s. Inr (Some s))"
  using assms by (simp add: load_secret_def)

lemma load_after_save:
  assumes "decrypts ci" "reads_what_it_writes ac" "save_secret ci random ac name s v = (Inr d, w)"
    and "load_secret ci ac name v = Inr None \<or> load_secret ci ac name v = Inr (Some s)"
  shows "load_secret ci ac name w = Inr (Some s)"
proof -
  obtain key plain where k: "derive_store_key ci ac = Inr key" "utf8_encode s = Inr plain"
    and save: "save_in ac name (ci_encrypt ci key random plain) (secrets_dirs ac) v = (Inr d, w)"
    using save_secret_Inr [OF assms(3)] by blast
  have d: "d \<in> set (secrets_dirs ac)" "ac_access ac d = Readable"
    and w: "w d name = Some (ci_encrypt ci key random plain)" "\<And>x. x \<noteq> d \<Longrightarrow> w x name = v x name"
    using save_in_Inr [OF save] assms(2) by (auto simp: reads_what_it_writes_def)
  note saved = try_decrypt_saved [where w = w and name = name, OF assms(1) k(1) d(2) w(1)]
  obtain r where r: "find_secret_path ci ac name v = Inr r"
    using assms(4) by (auto simp: load_secret_def res_simps)
  obtain q where q: "find_secret_path ci ac name w = Inr (Some q)" "q = d \<or> (q \<noteq> d \<and> r = Some q)"
    using find_after_save [OF r [unfolded find_secret_path_def] d(1) saved w(2)]
    unfolding find_secret_path_def by blast
  from q(2) show ?thesis
  proof
    assume "q = d"
    then show ?thesis using load_secret_at [OF q(1)] saved utf8_decode_encode [OF k(2)] by simp
  next
    assume q': "q \<noteq> d \<and> r = Some q"
    then obtain old where t: "try_decrypt ci ac v q name = Some old"
      using r find_in_found unfolding find_secret_path_def by blast
    have "try_decrypt ci ac w q name = try_decrypt ci ac v q name"
      using q' w(2) by (intro try_decrypt_cong) simp
    then have w': "load_secret ci ac name w = rbind (utf8_decode old) (\<lambda>s. Inr (Some s))"
      using load_secret_at [OF q(1)] t by metis
    have v': "load_secret ci ac name v = rbind (utf8_decode old) (\<lambda>s. Inr (Some s))"
      by (rule load_secret_at [OF _ t]) (use r q' in simp)
    have "rbind (utf8_decode old) (\<lambda>s. Inr (Some s)) \<noteq> Inr None"
      by (cases "utf8_decode old") simp_all
    with assms(4) show ?thesis unfolding v' w' by blast
  qed
qed

lemma machine_dir_first: "strip (ac_override ac) = [] \<Longrightarrow> \<exists>ds. secrets_dirs ac = ac_machine_dir ac # ds"
  by (simp add: secrets_dirs_def)

lemma prompt_long_enough: "prompt_for_shared_secret answers = Some s \<Longrightarrow> MIN_SECRET_LENGTH \<le> length s"
  by (induction answers rule: prompt_for_shared_secret.induct) (auto split: if_splits list.splits option.splits)

text \<open>The two ways the installer ends with a secret.\<close>

lemma prompt_and_store_cases:
  assumes "prompt_and_store_shared_secret ci random ac answers v = (Inr (Some s), w)"
  obtains d where "save_secret ci random ac SHARED_SECRET_NAME s v = (Inr d, w)"
    "load_shared_secret ci ac v = Inr (Some s)
     \<or> (load_shared_secret ci ac v = Inr None \<and> prompt_for_shared_secret answers = Some s)"
proof (cases "load_shared_secret ci ac v")
  case (Inl e)
  then show ?thesis using assms by (simp add: prompt_and_store_shared_secret_def)
next
  case (Inr existing)
  then have "bind (save_secret ci random ac SHARED_SECRET_NAME s) (\<lambda>_. ret (Some s)) v = (Inr (Some s), w)"
    "existing = Some s \<or> (existing = None \<and> prompt_for_shared_secret answers = Some s)"
    using assms by (auto simp: prompt_and_store_shared_secret_def bind_eq_Inr_iff split: option.splits)
  then show ?thesis using that Inr by (auto simp: bind_eq_Inr_iff)
qed

text \<open>
  The secret the installer ends with is the one the programs load: whether it was found
  stored or typed in (in either case it is written again, to the first directory that can
  be written), loading it afterwards under the same account gives that very text, whatever
  other files lie in the directories. A typed secret has at least 8 characters, and the
  panel, which demands a secret, gets it.
\<close>

theorem stored_secret_is_loaded:
  assumes "decrypts ci" and "reads_what_it_writes ac"
    and "prompt_and_store_shared_secret ci random ac answers v = (Inr (Some s), w)"
  shows "load_shared_secret ci ac w = Inr (Some s)
    \<and> (load_shared_secret ci ac v = Inr None \<longrightarrow> 8 \<le> length s \<and> require_shared_secret ci ac w = Inr s)"
proof -
  obtain d where d: "save_secret ci random ac SHARED_SECRET_NAME s v = (Inr d, w)"
    and how: "load_shared_secret ci ac v = Inr (Some s)
     \<or> (load_shared_secret ci ac v = Inr None \<and> prompt_for_shared_secret answers = Some s)"
    using prompt_and_store_cases [OF assms(3)] by blast
  have l: "load_shared_secret ci ac w = Inr (Some s)"
    using load_after_save [OF assms(1,2) d] how by (auto simp: load_shared_secret_def)
  moreover have "8 \<le> length s" if "load_shared_secret ci ac v = Inr None"
    using how that prompt_long_enough by (auto simp: MIN_SECRET_LENGTH_def)
  ultimately show ?thesis by (auto simp: require_shared_secret_def)
qed

text \<open>
  The child's session reads what the administrator stored: when the installer runs under
  an account that may write the machine-wide directory, the secret it ends with is loaded by
  every other account of the computer that may read that directory and uses the same key,
  whatever its own user directory holds.
\<close>

theorem child_loads_what_the_admin_stored:
  assumes "decrypts ci" and "prompt_and_store_shared_secret ci random admin answers v = (Inr (Some s), w)"
    and "strip (ac_override admin) = []" and "ac_writes admin (ac_machine_dir admin)"
    and "strip (ac_override child) = []" and "ac_machine_dir child = ac_machine_dir admin"
    and "strip (ac_key child) = strip (ac_key admin)" and "ac_access child (ac_machine_dir child) = Readable"
  shows "load_shared_secret ci child w = Inr (Some s)"
proof -
  let ?d = "ac_machine_dir admin"
  obtain d where "save_secret ci random admin SHARED_SECRET_NAME s v = (Inr d, w)"
    using prompt_and_store_cases [OF assms(2)] by blast
  then obtain key plain where k: "derive_store_key ci admin = Inr key" "utf8_encode s = Inr plain"
    and save: "save_in admin SHARED_SECRET_NAME (ci_encrypt ci key random plain) (secrets_dirs admin) v = (Inr d, w)"
    by (rule save_secret_Inr)
  obtain others where "secrets_dirs admin = ?d # others" using machine_dir_first [OF assms(3)] by blast
  then have "w ?d SHARED_SECRET_NAME = Some (ci_encrypt ci key random plain)"
    using save assms(4) by auto
  moreover have "derive_store_key ci child = Inr key" using k(1) assms(7) by (simp add: derive_store_key_def)
  ultimately have t: "try_decrypt ci child w ?d SHARED_SECRET_NAME = Some plain"
    using assms(1,6,8) by (intro try_decrypt_saved) simp_all
  obtain ds where "secrets_dirs child = ?d # ds" using machine_dir_first [OF assms(5)] assms(6) by auto
  then have "find_secret_path ci child SHARED_SECRET_NAME w = Inr (Some ?d)"
    using t try_decrypt_there [OF t] by (auto simp: find_secret_path_def secret_is_file_def)
  from load_secret_at [OF this t] utf8_decode_encode [OF k(2)] show ?thesis
    by (simp add: load_shared_secret_def)
qed

section \<open>A concrete installation\<close>

text \<open>A cipher that marks the text with its key; the administrator writes everywhere, the child nowhere.\<close>

definition sample_cipher :: cipher where
  "sample_cipher = \<lparr>ci_derive = (\<lambda>m. m), ci_encrypt = (\<lambda>k r m. k @ m),
     ci_decrypt = (\<lambda>k t. if take (length k) t = k then Some (drop (length k) t) else None)\<rparr>"

definition admin_account :: account where
  "admin_account = \<lparr>ac_override = [], ac_machine_dir = lit ''/etc/kid-pc-monitor/secrets'',
     ac_user_dir = lit ''/root/secrets'', ac_key = [], ac_access = (\<lambda>_. Readable), ac_writes = (\<lambda>_. True)\<rparr>"

definition child_account :: account where
  "child_account = \<lparr>ac_override = [], ac_machine_dir = lit ''/etc/kid-pc-monitor/secrets'',
     ac_user_dir = lit ''/home/mia/secrets'', ac_key = lit '' '',
     ac_access = (\<lambda>d. if d = lit ''/root/secrets'' then Closed else Readable), ac_writes = (\<lambda>_. False)\<rparr>"

definition typed_answers :: "pystr option list" where
  "typed_answers = [Some (lit ''short''), Some (lit ''secret phrase''), Some (lit ''secret fase''),
     Some (lit ''secret phrase''), Some (lit '' secret phrase'')]"

definition empty_vault :: vault where
  "empty_vault = (\<lambda>_ _. None)"

lemma sample_cipher_decrypts: "decrypts sample_cipher"
  by (simp add: decrypts_def sample_cipher_def)

lemma installed:
  "fst (prompt_and_store_shared_secret sample_cipher [] admin_account typed_answers empty_vault)
    = Inr (Some (lit ''secret phrase''))"
proof -
  have "load_shared_secret sample_cipher admin_account empty_vault = Inr None"
    by (simp add: load_shared_secret_def load_secret_def find_secret_path_def secrets_dirs_def secret_is_file_def
        admin_account_def empty_vault_def strip_def)
  moreover have "prompt_for_shared_secret typed_answers = Some (lit ''secret phrase'')"
    by (simp add: typed_answers_def MIN_SECRET_LENGTH_def strip_def is_space_def lit_def)
  moreover have "utf8_encode (lit ''secret phrase'') = Inr (lit ''secret phrase'')"
    by (rule utf8_encode_ascii) (simp add: lit_def)
  moreover have "derive_store_key sample_cipher admin_account = Inr BOOTSTRAP_KEY"
    "secrets_dirs admin_account = [lit ''/etc/kid-pc-monitor/secrets'', lit ''/root/secrets'']"
    "ac_writes admin_account d" for d
    by (simp_all add: derive_store_key_def secrets_dirs_def admin_account_def sample_cipher_def strip_def)
  ultimately show ?thesis by (simp add: prompt_and_store_shared_secret_def save_secret_def bind_def)
qed

theorem stored_secret_is_loaded_witness:
  "load_shared_secret sample_cipher admin_account
     (snd (prompt_and_store_shared_secret sample_cipher [] admin_account typed_answers empty_vault))
    = Inr (Some (lit ''secret phrase''))"
  using stored_secret_is_loaded [OF sample_cipher_decrypts, of admin_account "[]" typed_answers empty_vault "lit ''secret phrase''"]
    installed by (simp add: reads_what_it_writes_def admin_account_def prod_eq_iff)

theorem child_loads_what_the_admin_stored_witness:
  "load_shared_secret sample_cipher child_account
     (snd (prompt_and_store_shared_secret sample_cipher [] admin_account typed_answers empty_vault))
    = Inr (Some (lit ''secret phrase''))"
proof -
  let ?run = "prompt_and_store_shared_secret sample_cipher [] admin_account typed_answers empty_vault"
  have "?run = (Inr (Some (lit ''secret phrase'')), snd ?run)" using installed by (simp add: prod_eq_iff)
  from child_loads_what_the_admin_stored [OF sample_cipher_decrypts this, of child_account] show ?thesis
    by (simp add: admin_account_def child_account_def strip_def is_space_def lit_def)
qed

text \<open>
  A directory that may not be searched hides the ones after it: here the account's own file
  could be read, but loading ends with an exception.
\<close>

lemma closed_directory_hides_the_own_secret:
  "load_shared_secret sample_cipher (child_account\<lparr>ac_access := (\<lambda>d. if d = ac_machine_dir child_account then Closed else Readable)\<rparr>)
     (\<lambda>d n. Some (BOOTSTRAP_KEY @ lit ''own secret'')) = Inl (OSError (lit ''permission''))"
  by code_simp

end
