(* ===== verification/Path_Names.thy ===== *)
theory Path_Names
  imports Panel_Upkeep Secret_Store Text_Lines
begin

text \<open>
  Where the programs keep their files: \<open>src/kid_pc_monitor/paths.py\<close> and the path functions of
  \<open>secrets_store.py\<close>, \<open>agent_state.py\<close>, \<open>pc_time_control.py\<close>, \<open>panel_db.py\<close> and
  \<open>web_panel.py\<close>. A path is what \<open>pathlib\<close> makes of a text: drive, root and parts.
\<close>

section \<open>Paths\<close>

record pure_path =
  pa_drive :: pystr
  pa_root :: pystr
  pa_parts :: "pystr list"

text \<open>\<open>posixpath.splitroot\<close>: exactly two leading slashes are a root of their own.\<close>

definition posix_root :: "pystr \<Rightarrow> pystr \<times> pystr" where
  "posix_root s =
     (if take 1 s \<noteq> [47] then ([], s)
      else if take 1 (drop 1 s) \<noteq> [47] \<or> take 1 (drop 2 s) = [47] then ([47], drop 1 s)
      else ([47, 47], drop 2 s))"

definition proper_part :: "pystr \<Rightarrow> bool" where
  "proper_part p \<longleftrightarrow> p \<noteq> [] \<and> p \<noteq> [46]"

definition posix_path :: "pystr \<Rightarrow> pure_path" where
  "posix_path s =
     (let (root, rest) = posix_root s in
      \<lparr>pa_drive = [], pa_root = root, pa_parts = filter proper_part (split_at 47 rest)\<rparr>)"

text \<open>
  \<open>WindowsPath\<close>, for paths with a drive letter and for those without a drive; the
  names of shares are not modelled.
\<close>

definition windows_path :: "pystr \<Rightarrow> pure_path" where
  "windows_path s =
     (let t = map (\<lambda>c. if c = 47 then 92 else c) s;
          (drive, rest) = (if take 1 (drop 1 t) = [58] then (take 2 t, drop 2 t) else ([], t));
          (root, rel) = (if take 1 rest = [92] then ([92], drop 1 rest) else ([], rest))
      in \<lparr>pa_drive = drive, pa_root = root, pa_parts = filter proper_part (split_at 92 rel)\<rparr>)"

definition path_text :: "nat \<Rightarrow> pure_path \<Rightarrow> pystr" where
  "path_text sep p =
     (if pa_drive p = [] \<and> pa_root p = [] \<and> pa_parts p = [] then [46]
      else pa_drive p @ pa_root p @ join_with sep (pa_parts p))"

text \<open>\<open>p / name\<close>, for a name without separators.\<close>

definition child :: "pure_path \<Rightarrow> pystr \<Rightarrow> pure_path" where
  "child p name = p\<lparr>pa_parts := pa_parts p @ [name]\<rparr>"

definition absolute :: "pure_path \<Rightarrow> bool" where
  "absolute p \<longleftrightarrow> pa_root p \<noteq> []"

section \<open>The directories\<close>

text \<open>The system, the environment variables, the home directory, the installed package.\<close>

record machine =
  mc_windows :: bool
  mc_env :: "pystr \<Rightarrow> pystr option"
  mc_home :: pystr
  mc_package :: pystr

definition path_of :: "machine \<Rightarrow> pystr \<Rightarrow> pure_path" where
  "path_of m s = (if mc_windows m then windows_path s else posix_path s)"

definition package_dir :: "machine \<Rightarrow> pure_path" where
  "package_dir m = path_of m (mc_package m)"

definition template_dir :: "machine \<Rightarrow> pure_path" where
  "template_dir m = child (package_dir m) (lit ''templates'')"

definition static_dir :: "machine \<Rightarrow> pure_path" where
  "static_dir m = child (package_dir m) (lit ''static'')"

definition config_dir :: "machine \<Rightarrow> pure_path" where
  "config_dir m =
     child (if mc_windows m
            then (case mc_env m (lit ''LOCALAPPDATA'') of Some v \<Rightarrow> path_of m v | None \<Rightarrow> path_of m (mc_home m))
            else (case mc_env m (lit ''XDG_CONFIG_HOME'') of
                    Some v \<Rightarrow> path_of m v | None \<Rightarrow> child (path_of m (mc_home m)) (lit ''.config'')))
       (lit ''kid-pc-monitor'')"

definition tls_path :: "machine \<Rightarrow> pure_path" where
  "tls_path m = child (config_dir m) (lit ''tls'')"

definition DB_FILENAME :: pystr where "DB_FILENAME = lit ''panel.db''"

definition db_path :: "pure_path option \<Rightarrow> machine \<Rightarrow> pure_path" where
  "db_path override m = (case override of Some p \<Rightarrow> p | None \<Rightarrow> child (config_dir m) DB_FILENAME)"

definition AUTH_FILE :: pystr where "AUTH_FILE = lit ''web_panel_auth.json''"

definition auth_save_path :: "machine \<Rightarrow> pure_path" where
  "auth_save_path m = child (config_dir m) AUTH_FILE"

section \<open>The secrets\<close>

definition SECRETS_DIR_NAME :: pystr where "SECRETS_DIR_NAME = lit ''secrets''"

definition program_data :: "machine \<Rightarrow> pure_path" where
  "program_data m =
     child (path_of m (case mc_env m (lit ''ProgramData'') of Some v \<Rightarrow> v | None \<Rightarrow> lit ''C:'' @ [92] @ lit ''ProgramData''))
       (lit ''KidPCMonitor'')"

definition machine_secrets_dir :: "machine \<Rightarrow> pure_path" where
  "machine_secrets_dir m =
     child (if mc_windows m then program_data m else posix_path (lit ''/etc/kid-pc-monitor'')) SECRETS_DIR_NAME"

definition user_secrets_dir :: "machine \<Rightarrow> pure_path" where
  "user_secrets_dir m = child (config_dir m) SECRETS_DIR_NAME"

text \<open>The account of \<open>Secret_Store\<close> on this machine.\<close>

definition on_machine :: "machine \<Rightarrow> account \<Rightarrow> account" where
  "on_machine m ac =
     (let sep = (if mc_windows m then 92 else 47); env = (\<lambda>v. case mc_env m v of Some x \<Rightarrow> x | None \<Rightarrow> []) in
      ac\<lparr>ac_override := env (lit ''KID_PC_MONITOR_SECRETS_DIR''), ac_key := env (lit ''KID_PC_MONITOR_SECRET_KEY''),
         ac_machine_dir := path_text sep (machine_secrets_dir m), ac_user_dir := path_text sep (user_secrets_dir m)\<rparr>)"

definition secret_path :: "machine \<Rightarrow> account \<Rightarrow> pystr \<Rightarrow> pure_path" where
  "secret_path m ac name = child (path_of m (hd (secrets_dirs (on_machine m ac)))) (name @ lit ''.enc'')"

section \<open>The agent\<close>

text \<open>\<open>_program_data_dir\<close>: an argument, or the platform's default.\<close>

datatype program_data_arg = Platform_default | Given "pure_path option"

definition program_data_dir :: "machine \<Rightarrow> program_data_arg \<Rightarrow> pure_path option" where
  "program_data_dir m given =
     (case given of
        Given p \<Rightarrow> p
      | Platform_default \<Rightarrow> if mc_windows m then Some (program_data m) else None)"

definition program_data_daily_file :: "machine \<Rightarrow> program_data_arg \<Rightarrow> pure_path option" where
  "program_data_daily_file m given = map_option (\<lambda>b. child b (lit ''daily_settings.json'')) (program_data_dir m given)"

definition program_data_legacy_install_config_path :: "machine \<Rightarrow> program_data_arg \<Rightarrow> pure_path option" where
  "program_data_legacy_install_config_path m given =
     map_option (\<lambda>b. child b (lit ''install_config.json'')) (program_data_dir m given)"

definition daily_path_for :: "machine \<Rightarrow> program_data_arg \<Rightarrow> pure_path option" where
  "daily_path_for m given =
     (case given of Platform_default \<Rightarrow> program_data_daily_file m Platform_default | Given p \<Rightarrow> program_data_daily_file m (Given p))"

definition legacy_install_path_for :: "machine \<Rightarrow> program_data_arg \<Rightarrow> pure_path option" where
  "legacy_install_path_for m given =
     (case given of
        Platform_default \<Rightarrow> program_data_legacy_install_config_path m Platform_default
      | Given p \<Rightarrow> program_data_legacy_install_config_path m (Given p))"

definition data_dir :: "machine \<Rightarrow> pure_path" where
  "data_dir m =
     child (path_of m (case mc_env m (lit ''LOCALAPPDATA'') of Some v \<Rightarrow> v | None \<Rightarrow> mc_home m)) (lit ''KidPCMonitor'')"

definition agent_log_file :: "machine \<Rightarrow> pure_path" where
  "agent_log_file m = child (data_dir m) (lit ''pc_control.log'')"

section \<open>Facts\<close>

lemma join_slash_split:
  assumes "xs \<noteq> []" and "\<forall>x \<in> set xs. sep \<notin> set x"
  shows "split_at sep (join_with sep xs) = xs"
  using assms
proof (induction xs rule: join_with.induct)
  case (2 sep x)
  then show ?case by (simp add: split_at_none)
next
  case (3 sep x y xs)
  have "split_at sep (a @ sep # r) = a # split_at sep r" if "sep \<notin> set a" for a r
    using that by (induction a) auto
  with 3 show ?case by simp
qed simp

definition posix_ok :: "pure_path \<Rightarrow> bool" where
  "posix_ok p \<longleftrightarrow> pa_drive p = [] \<and> pa_root p \<in> {[], [47], [47, 47]}
     \<and> (\<forall>x \<in> set (pa_parts p). proper_part x \<and> 47 \<notin> set x)"

lemma split_at_parts: "x \<in> set (split_at sep s) \<Longrightarrow> sep \<notin> set x"
  by (induction s arbitrary: x) (auto split: list.splits if_splits)

lemma posix_path_ok: "posix_ok (posix_path s)"
  by (auto simp: posix_ok_def posix_path_def posix_root_def split: if_splits dest: split_at_parts)

text \<open>A path is the path of its text, so the texts of two paths are the same only if they are.\<close>

theorem posix_text_roundtrip:
  assumes "posix_ok p"
  shows "posix_path (path_text 47 p) = p"
proof -
  obtain r xs where p: "p = \<lparr>pa_drive = [], pa_root = r, pa_parts = xs\<rparr>" and r: "r \<in> {[], [47], [47, 47]}"
    and xs: "\<forall>x \<in> set xs. proper_part x \<and> 47 \<notin> set x"
    using assms by (cases p) (auto simp: posix_ok_def)
  have all: "filter proper_part xs = xs" using xs by simp
  show ?thesis
  proof (cases xs)
    case Nil
    then show ?thesis using r by (auto simp: p path_text_def posix_path_def posix_root_def proper_part_def)
  next
    case (Cons x ys)
    then obtain c cs where x: "x = c # cs" "c \<noteq> 47" using xs by (cases x) (auto simp: proper_part_def)
    have "\<exists>cs'. join_with 47 xs = c # cs'" using Cons x(1) by (cases ys) simp_all
    then obtain cs' where j: "join_with 47 xs = c # cs'" by blast
    have "split_at 47 (join_with 47 xs) = xs" using Cons xs by (intro join_slash_split) auto
    then have s: "split_at 47 (c # cs') = xs" by (simp add: j)
    have "posix_root (r @ c # cs') = (r, c # cs')" using r x(2) by (auto simp: posix_root_def)
    moreover have "xs \<noteq> []" using Cons by simp
    then have "path_text 47 p = r @ c # cs'" by (simp add: p path_text_def j)
    ultimately show ?thesis using s all by (simp add: p posix_path_def)
  qed
qed

text \<open>The panel's own files are different files, all below its configuration directory.\<close>

lemma panel_files_apart:
  "distinct [auth_save_path m, db_path None m, child (tls_path m) (lit ''cert.pem''), child (tls_path m) (lit ''key.pem''),
     child (user_secrets_dir m) (name @ lit ''.enc'')]"
  by (cases "config_dir m") (simp add: auth_save_path_def db_path_def tls_path_def user_secrets_dir_def child_def AUTH_FILE_def DB_FILENAME_def
      SECRETS_DIR_NAME_def)

text \<open>
  With \<open>XDG_CONFIG_HOME\<close> set to the empty text the directory is relative, so the panel looks
  for the password of its parent where it happens to be started; the installer for Linux
  takes the variable for unset and writes below the home directory.
\<close>

theorem empty_config_home_is_relative:
  assumes "\<not> mc_windows m" and "mc_env m (lit ''XDG_CONFIG_HOME'') = Some []"
  shows "config_dir m = posix_path (lit ''kid-pc-monitor'') \<and> \<not> absolute (config_dir m)"
proof -
  have "config_dir m = \<lparr>pa_drive = [], pa_root = [], pa_parts = [lit ''kid-pc-monitor'']\<rparr>"
    using assms by (simp add: config_dir_def path_of_def posix_path_def posix_root_def child_def proper_part_def)
  moreover have "split_at 47 (lit ''kid-pc-monitor'') = [lit ''kid-pc-monitor'']"
    by (rule split_at_none) (simp add: lit_def)
  then have "posix_path (lit ''kid-pc-monitor'') = \<lparr>pa_drive = [], pa_root = [], pa_parts = [lit ''kid-pc-monitor'']\<rparr>"
    by (simp add: posix_path_def posix_root_def proper_part_def) (simp add: lit_def)
  ultimately show ?thesis by (simp add: absolute_def)
qed

text \<open>
  The commands of \<open>docs/FAQ.md\<close> write key and certificate to the same file \<open>cert.pem\<close>; without
  \<open>key.pem\<close> the panel serves without TLS.
\<close>

lemma no_key_no_tls:
  assumes "tl_cert h = None" and "\<not> tl_is_file h (tls_dir h @ lit ''/key.pem'')"
  shows "resolve_tls_cert_paths h = None"
  using assms by (simp add: resolve_tls_cert_paths_def Let_def)

end
