(* ===== verification/Start_Up.thy ===== *)
theory Start_Up
  imports Path_Names Firewall_Fix
begin

text \<open>
  Before the programs run: \<open>src/kid_pc_monitor/venv_python.py\<close> (the interpreter is that of the
  virtual environment), \<open>scripts/_launcher.py\<close> (starting again with the interpreter of the
  repository's environment) and the two scripts \<open>run_agent.py\<close> and \<open>run_web_panel.py\<close>.
\<close>

section \<open>The interpreter of the environment\<close>

text \<open>
  \<open>str.isdigit\<close>: the decimal digits of every script, and the digits that are no decimals,
  such as superscripts, which \<open>int\<close> refuses.
\<close>

definition odd_digits :: "(nat \<times> nat) list" where
  "odd_digits =
     [(178, 179), (185, 185), (4969, 4977), (6618, 6618), (8304, 8304), (8308, 8313), (8320, 8329), (9312, 9320),
      (9332, 9340), (9352, 9360), (9450, 9450), (9461, 9469), (9471, 9471), (10102, 10110), (10112, 10120),
      (10122, 10130), (68160, 68163), (69216, 69224), (69714, 69722), (127232, 127242)]"

definition str_isdigit :: "pystr \<Rightarrow> bool" where
  "str_isdigit s \<longleftrightarrow> s \<noteq> [] \<and> (\<forall>c \<in> set s. is_digit (ascii_decimal c) \<or> (\<exists>(a, b) \<in> set odd_digits. a \<le> c \<and> c \<le> b))"

fun version_in :: "pystr list \<Rightarrow> (int \<times> int) option res" where
  "version_in [] = Inr None"
| "version_in (line # lines) =
     (let (key, found, v) = partition_at 61 line in
      if \<not> found \<or> strip key \<noteq> lit ''version'' then version_in lines
      else
        let parts = split_at 46 (strip v) in
        if length parts < 2 \<or> \<not> str_isdigit (parts ! 0) \<or> \<not> str_isdigit (parts ! 1) then Inr None
        else rbind (int_of_text (parts ! 0)) (\<lambda>a. rbind (int_of_text (parts ! 1)) (\<lambda>b. Inr (Some (a, b)))))"

definition pyvenv_python :: "pystr res \<Rightarrow> (int \<times> int) option res" where
  "pyvenv_python file =
     (case file of Inr text \<Rightarrow> version_in (splitlines text) | Inl (OSError m) \<Rightarrow> Inr None | Inl e \<Rightarrow> Inl e)"

definition VENV_PYTHON_MISMATCH_STATUS :: int where
  "VENV_PYTHON_MISMATCH_STATUS = 2"

definition mismatch_text :: "int \<times> int \<Rightarrow> int \<times> int \<Rightarrow> pystr" where
  "mismatch_text created running =
     lit ''This venv was created with Python '' @ int_str (fst created) @ [46] @ int_str (snd created) @ lit '' but is running ''
     @ lit ''Python '' @ int_str (fst running) @ [46] @ int_str (snd running) @ [46, 10]
     @ lit ''Recreate it and reinstall packages with the venv Python:'' @ [10]
     @ lit ''  python3 -m venv venv'' @ [10]
     @ lit ''  ./venv/bin/python3 -m pip install -r requirements.txt'' @ [10]
     @ lit ''  ./venv/bin/python3 -m pip install -e .''"

text \<open>Nothing, or the text printed and the exit status.\<close>

definition ensure_venv_python_matches :: "pystr res \<Rightarrow> int \<times> int \<Rightarrow> (pystr \<times> int) option res" where
  "ensure_venv_python_matches file running =
     rbind (pyvenv_python file)
       (\<lambda>created. case created of
          None \<Rightarrow> Inr None
        | Some c \<Rightarrow> if c = running then Inr None else Inr (Some (mismatch_text c running, VENV_PYTHON_MISMATCH_STATUS)))"

section \<open>Starting again in the environment\<close>

text \<open>\<open>posixpath.normpath\<close>: \<open>done\<close> holds the components so far, the last one first.\<close>

fun norm_parts :: "bool \<Rightarrow> pystr list \<Rightarrow> pystr list \<Rightarrow> pystr list" where
  "norm_parts rooted kept [] = rev kept"
| "norm_parts rooted kept (c # cs) =
     (if c = [] \<or> c = [46] then norm_parts rooted kept cs
      else if c \<noteq> [46, 46] \<or> (\<not> rooted \<and> kept = []) \<or> (kept \<noteq> [] \<and> hd kept = [46, 46])
        then norm_parts rooted (c # kept) cs
      else norm_parts rooted (tl kept) cs)"

definition normpath :: "pystr \<Rightarrow> pystr" where
  "normpath path =
     (let (root, rest) = posix_root path; out = root @ join_with 47 (norm_parts (root \<noteq> []) [] (split_at 47 rest)) in
      if path = [] \<or> out = [] then [46] else out)"

text \<open>
  The checkout and the process: whether a path is a file, the interpreter that runs, the
  arguments, \<open>sys.path\<close>.
\<close>

record checkout =
  ck_root :: pure_path
  ck_is_file :: "pure_path \<Rightarrow> bool"

record python_process =
  pp_executable :: pystr
  pp_argv :: "pystr list"
  pp_path :: "pystr list"

definition venv_interpreter :: "checkout \<Rightarrow> pystr \<Rightarrow> pure_path" where
  "venv_interpreter ck name = child (child (child (ck_root ck) name) (lit ''bin'')) (lit ''python3'')"

fun first_interpreter :: "checkout \<Rightarrow> pystr list \<Rightarrow> pure_path option" where
  "first_interpreter ck [] = None"
| "first_interpreter ck (n # ns) =
     (if ck_is_file ck (venv_interpreter ck n) then Some (venv_interpreter ck n) else first_interpreter ck ns)"

definition repo_venv_python :: "checkout \<Rightarrow> pure_path option" where
  "repo_venv_python ck = first_interpreter ck [lit ''venv'', lit ''.venv'']"

text \<open>Going on, or \<open>os.execv\<close> with a path and arguments.\<close>

datatype start = Go_on | Exec pystr "pystr list"

definition use_repo_venv_if_available :: "checkout \<Rightarrow> python_process \<Rightarrow> start" where
  "use_repo_venv_if_available ck p =
     (case repo_venv_python ck of
        None \<Rightarrow> Go_on
      | Some v \<Rightarrow>
          if normpath (pp_executable p) = normpath (path_text 47 v) then Go_on
          else Exec (path_text 47 v) (path_text 47 v # pp_argv p))"

definition put_on_path :: "pystr \<Rightarrow> python_process \<Rightarrow> python_process" where
  "put_on_path d p = (if d \<in> set (pp_path p) then p else p\<lparr>pp_path := d # pp_path p\<rparr>)"

definition ensure_src_on_path :: "checkout \<Rightarrow> python_process \<Rightarrow> python_process" where
  "ensure_src_on_path ck = put_on_path (path_text 47 (child (ck_root ck) (lit ''src'')))"

section \<open>Hints\<close>

definition script_name :: "python_process \<Rightarrow> pystr" where
  "script_name p = (let parts = pa_parts (posix_path (case pp_argv p of [] \<Rightarrow> [] | a # _ \<Rightarrow> a)) in
     if parts = [] then [] else List.last parts)"

definition hint_for_missing_venv :: "checkout \<Rightarrow> python_process \<Rightarrow> pystr" where
  "hint_for_missing_venv ck p =
     lit ''No Python virtual environment found in this repo.'' @ [10, 10]
     @ lit ''On Debian, Ubuntu, and many other Linux distributions, system Python ''
     @ lit ''blocks '' @ [96] @ lit ''pip install'' @ [96] @ lit '' (externally-managed-environment). Create a venv ''
     @ lit ''before installing dependencies:'' @ [10, 10]
     @ lit ''  cd '' @ path_text 47 (ck_root ck) @ [10]
     @ lit ''  python3 -m venv venv'' @ [10]
     @ lit ''  # If that fails: sudo apt install python3-venv python3-pip'' @ [10]
     @ lit ''  ./venv/bin/python3 -m pip install -r requirements.txt'' @ [10]
     @ lit ''  ./venv/bin/python3 -m pip install -e .'' @ [10, 10]
     @ lit ''Then run:'' @ [10]
     @ lit ''  ./scripts/'' @ script_name p @ [10]
     @ lit ''  # or: ./venv/bin/python3 scripts/'' @ script_name p"

definition install_hint :: "pystr \<Rightarrow> checkout \<Rightarrow> python_process \<Rightarrow> pystr" where
  "install_hint missing ck p =
     (let python = path_text 47 (venv_interpreter ck (lit ''venv'')) in
      lit ''Missing dependency: '' @ missing @ [10, 10]
      @ lit ''Install project dependencies in the repo venv, then retry:'' @ [10]
      @ lit ''  '' @ python @ lit '' -m pip install -r requirements.txt'' @ [10]
      @ lit ''  '' @ python @ lit '' -m pip install -e .'' @ [10, 10]
      @ lit ''Or run explicitly with the venv interpreter:'' @ [10]
      @ lit ''  '' @ python @ lit '' scripts/'' @ script_name p)"

definition hint_for_missing_dependency :: "pystr \<Rightarrow> checkout \<Rightarrow> python_process \<Rightarrow> pystr" where
  "hint_for_missing_dependency missing ck p =
     (if repo_venv_python ck = None then hint_for_missing_venv ck p else install_hint missing ck p)"

section \<open>The scripts\<close>

text \<open>
  \<open>run_agent.py\<close> and \<open>run_web_panel.py\<close>: what importing \<open>main\<close> gives on a search path (None, or
  the missing module), and what \<open>main\<close> returns; the panel's returns nothing.
\<close>

datatype ran = Replaced pystr "pystr list" | Exited int "pystr option"

definition run_script :: "checkout \<Rightarrow> pystr \<Rightarrow> (pystr list \<Rightarrow> pystr option) \<Rightarrow> int \<Rightarrow> python_process \<Rightarrow> ran" where
  "run_script ck scripts_dir importing main p =
     (let p1 = put_on_path scripts_dir p in
      case use_repo_venv_if_available ck p1 of
        Exec path argv \<Rightarrow> Replaced path argv
      | Go_on \<Rightarrow>
          let p2 = ensure_src_on_path ck p1 in
          case importing (pp_path p2) of
            Some missing \<Rightarrow> Exited 1 (Some (hint_for_missing_dependency missing ck p2))
          | None \<Rightarrow> Exited main None)"

text \<open>\<open>run_web_panel.py\<close> is the same script; its \<open>main\<close> returns nothing, so the status is zero.\<close>

definition run_web_panel :: "checkout \<Rightarrow> pystr \<Rightarrow> (pystr list \<Rightarrow> pystr option) \<Rightarrow> python_process \<Rightarrow> ran" where
  "run_web_panel ck scripts_dir importing p = run_script ck scripts_dir importing 0 p"

text \<open>
  The operating system: a process that is replaced runs the script again; \<open>begins\<close> is the
  Python process that the named interpreter with these arguments becomes. The value is
  the exit status, what was said, and the process that exited.
\<close>

fun run_processes ::
  "nat \<Rightarrow> (pystr \<Rightarrow> pystr list \<Rightarrow> python_process) \<Rightarrow> checkout \<Rightarrow> pystr \<Rightarrow> (pystr list \<Rightarrow> pystr option) \<Rightarrow> int
    \<Rightarrow> python_process \<Rightarrow> (int \<times> pystr option \<times> python_process) option" where
  "run_processes 0 begins ck scripts_dir importing main p = None"
| "run_processes (Suc n) begins ck scripts_dir importing main p =
     (case run_script ck scripts_dir importing main p of
        Exited status said \<Rightarrow> Some (status, said, p)
      | Replaced path argv \<Rightarrow> run_processes n begins ck scripts_dir importing main (begins path argv))"

section \<open>Facts\<close>

lemma put_on_path_first:
  "pp_executable (put_on_path d p) = pp_executable p" "pp_argv (put_on_path d p) = pp_argv p"
  "d \<in> set (pp_path (put_on_path d p))" "put_on_path d (put_on_path d p) = put_on_path d p"
  by (simp_all add: put_on_path_def)

lemma run_script_stays:
  assumes "\<And>v. repo_venv_python ck = Some v \<Longrightarrow> normpath (pp_executable p) = normpath (path_text 47 v)"
  shows "\<exists>status said. run_script ck scripts_dir importing main p = Exited status said"
proof -
  have "use_repo_venv_if_available ck (put_on_path scripts_dir p) = Go_on"
    using assms by (auto simp: use_repo_venv_if_available_def put_on_path_first split: option.split)
  then show ?thesis by (simp add: run_script_def Let_def split: option.split)
qed

text \<open>
  A script of the checkout never starts itself again and again: after at most one
  replacement it runs to an exit status, and if the repository has an environment, the
  process that ran is that of the environment's interpreter.
\<close>

theorem scripts_run_in_the_environment:
  assumes "\<And>path argv. normpath (pp_executable (begins path argv)) = normpath path"
  shows "\<exists>status said q. (\<forall>n. run_processes (n + 2) begins ck scripts_dir importing main p = Some (status, said, q))
    \<and> (\<forall>v. repo_venv_python ck = Some v \<longrightarrow> normpath (pp_executable q) = normpath (path_text 47 v))"
proof (cases "\<forall>v. repo_venv_python ck = Some v \<longrightarrow> normpath (pp_executable p) = normpath (path_text 47 v)")
  case True
  then obtain status said where "run_script ck scripts_dir importing main p = Exited status said"
    using run_script_stays [of ck p] by blast
  then show ?thesis using True by auto
next
  case False
  then obtain v where v: "repo_venv_python ck = Some v" "normpath (pp_executable p) \<noteq> normpath (path_text 47 v)" by auto
  let ?t = "path_text 47 v"
  let ?q = "begins ?t (?t # pp_argv p)"
  have first: "run_script ck scripts_dir importing main p = Replaced ?t (?t # pp_argv p)"
    using v by (simp add: run_script_def use_repo_venv_if_available_def put_on_path_first Let_def)
  have q: "normpath (pp_executable ?q) = normpath ?t" by (rule assms)
  then obtain status said where "run_script ck scripts_dir importing main ?q = Exited status said"
    using run_script_stays [of ck ?q] v by fastforce
  then show ?thesis using first q v by auto
qed

definition sample_checkout :: checkout where
  "sample_checkout =
     (let root = \<lparr>pa_drive = [], pa_root = [47], pa_parts = [lit ''opt'', lit ''kpm'']\<rparr> in
      \<lparr>ck_root = root, ck_is_file = (\<lambda>p. p = child (child (child root (lit ''.venv'')) (lit ''bin'')) (lit ''python3''))\<rparr>)"

definition becomes :: "pystr \<Rightarrow> pystr list \<Rightarrow> python_process" where
  "becomes path argv = \<lparr>pp_executable = path, pp_argv = drop 1 argv, pp_path = []\<rparr>"

lemma sample_interpreter:
  "repo_venv_python sample_checkout = Some (venv_interpreter sample_checkout (lit ''.venv''))"
  by (simp add: repo_venv_python_def venv_interpreter_def sample_checkout_def child_def Let_def)

theorem scripts_run_in_the_environment_witness:
  "\<exists>status said q.
     run_processes 2 becomes sample_checkout [] (\<lambda>_. None) 0 (becomes (lit ''/usr/bin/python3'') []) = Some (status, said, q)
     \<and> normpath (pp_executable q) = normpath (path_text 47 (venv_interpreter sample_checkout (lit ''.venv'')))"
proof -
  have "normpath (pp_executable (becomes path argv)) = normpath path" for path argv by (simp add: becomes_def)
  from scripts_run_in_the_environment [where begins = becomes and ck = sample_checkout and scripts_dir = "[]"
    and importing = "\<lambda>_. None" and main = 0 and p = "becomes (lit ''/usr/bin/python3'') []", OF this]
  obtain status said q where
    r: "\<forall>n. run_processes (n + 2) becomes sample_checkout [] (\<lambda>_. None) 0 (becomes (lit ''/usr/bin/python3'') []) = Some (status, said, q)"
    and e: "\<forall>v. repo_venv_python sample_checkout = Some v \<longrightarrow> normpath (pp_executable q) = normpath (path_text 47 v)" by blast
  then show ?thesis using r [rule_format, of 0, unfolded add_0_left] e [rule_format, OF sample_interpreter] by blast
qed

text \<open>
  With an environment in \<open>.venv\<close> only, the hint for a missing dependency names an
  interpreter that does not exist.
\<close>

theorem hint_names_the_missing_interpreter:
  "hint_for_missing_dependency missing sample_checkout p = install_hint missing sample_checkout p
   \<and> \<not> ck_is_file sample_checkout (venv_interpreter sample_checkout (lit ''venv''))"
  by (simp add: hint_for_missing_dependency_def sample_interpreter)
    (simp add: venv_interpreter_def sample_checkout_def child_def Let_def)

text \<open>The environment file as \<open>venv\<close> writes it.\<close>

lemma str_isdigit_nat: "str_isdigit (nat_str n)"
  using is_digit_nat_str [of n] by (simp add: str_isdigit_def ascii_decimal_digit)

lemma version_skips: "\<forall>l \<in> set before. strip (fst (partition_at 61 l)) \<noteq> lit ''version'' \<Longrightarrow> version_in (before @ ls) = version_in ls"
  by (induction before) (auto simp: Let_def split: prod.split)

lemma strip_blank:
  assumes "\<forall>c \<in> set v. \<not> is_space c"
  shows "strip (32 # v) = v"
proof -
  have "dropWhile is_space v = v" using assms by (cases v) auto
  moreover have "dropWhile is_space (rev v) = rev v" using assms by (cases "rev v") (auto dest: arg_cong [where f = set])
  moreover have "is_space 32" by (simp add: is_space_def)
  ultimately show ?thesis by (simp add: strip_def)
qed

lemma version_line_read:
  assumes "a < 10 ^ max_str_digits" and "b < 10 ^ max_str_digits" and "\<forall>c \<in> set rest. \<not> is_space c"
    and "\<forall>l \<in> set before. strip (fst (partition_at 61 l)) \<noteq> lit ''version''"
  shows "version_in (before @ (lit ''version = '' @ nat_str a @ [46] @ nat_str b @ [46] @ rest) # later) = Inr (Some (int a, int b))"
proof -
  define v where "v = nat_str a @ [46] @ nat_str b @ [46] @ rest"
  have digits: "\<forall>c \<in> set (nat_str n). \<not> is_space c" for n using is_digit_nat_str [of n] is_digit_not_space by blast
  have nodot: "46 \<notin> set (nat_str n)" for n using is_digit_nat_str [of n] by (auto simp: is_digit_def)
  have dot: "split_at 46 (x @ 46 # r) = x # split_at 46 r" if "46 \<notin> set x" for x r using that by (induction x) auto
  have "\<not> is_space 46" by (simp add: is_space_def)
  then have "\<forall>c \<in> set v. \<not> is_space c" using digits assms(3) by (auto simp: v_def)
  then have s: "strip (32 # v) = v" by (rule strip_blank)
  have line: "lit ''version = '' @ v = lit ''version '' @ 61 # (32 # v)" by (simp add: lit_def)
  have "61 \<notin> set (lit ''version '')" by (simp add: lit_def)
  then have p: "partition_at 61 (lit ''version = '' @ v) = (lit ''version '', True, 32 # v)"
    unfolding line by (rule partition_at_append)
  have k: "strip (lit ''version '') = lit ''version''" by (simp add: strip_def lit_def is_space_def)
  have parts: "split_at 46 v = nat_str a # nat_str b # split_at 46 rest" using dot nodot by (simp add: v_def)
  show ?thesis
    unfolding v_def [symmetric] version_skips [OF assms(4)]
    using int_of_text_nat_str [OF assms(1)] int_of_text_nat_str [OF assms(2)] str_isdigit_nat
    by (simp add: p k s parts)
qed

text \<open>An environment made by the interpreter that runs passes; after an upgrade the check ends the program.\<close>

theorem environment_check:
  assumes "a < 10 ^ max_str_digits" and "b < 10 ^ max_str_digits" and "\<forall>c \<in> set rest. \<not> is_space c"
    and "\<forall>l \<in> set before. strip (fst (partition_at 61 l)) \<noteq> lit ''version''"
    and "splitlines text = before @ (lit ''version = '' @ nat_str a @ [46] @ nat_str b @ [46] @ rest) # later"
  shows "ensure_venv_python_matches (Inr text) running =
    Inr (if running = (int a, int b) then None else Some (mismatch_text (int a, int b) running, VENV_PYTHON_MISMATCH_STATUS))"
  using version_line_read [OF assms(1-4), of later]
  by (auto simp: ensure_venv_python_matches_def pyvenv_python_def assms(5))

end
