(* ===== verification/Windows_Words.thy ===== *)
theory Windows_Words
  imports Windows_Host "HOL-Library.Word"
begin

text \<open>
  The C side of \<open>src/kid_pc_monitor/platforms/windows.py\<close>: the \<open>ctypes\<close> structures with the
  offsets \<open>ctypes\<close> gives their fields, the bytes the Windows API fills them with, and the
  32-bit values Python reads from them. \<open>ctypes\<close> reads \<open>c_long\<close>, and the result of a function
  whose \<open>restype\<close> is not set, as a signed number, and \<open>DWORD\<close> as an unsigned one.
\<close>

section \<open>Structures\<close>

text \<open>Fields with size and alignment; a field stands at the next multiple of its alignment.\<close>

definition align_up :: "nat \<Rightarrow> nat \<Rightarrow> nat" where
  "align_up a n = (n + a - 1) div a * a"

fun field_offsets :: "nat \<Rightarrow> (nat \<times> nat) list \<Rightarrow> nat list" where
  "field_offsets used [] = []"
| "field_offsets used ((n, a) # fs) = (let o1 = align_up a used in o1 # field_offsets (o1 + n) fs)"

fun struct_end :: "nat \<Rightarrow> (nat \<times> nat) list \<Rightarrow> nat" where
  "struct_end used [] = used"
| "struct_end used ((n, a) # fs) = struct_end (align_up a used + n) fs"

definition struct_align :: "(nat \<times> nat) list \<Rightarrow> nat" where
  "struct_align fs = fold max (map snd fs) 1"

definition struct_size :: "(nat \<times> nat) list \<Rightarrow> nat" where
  "struct_size fs = align_up (struct_align fs) (struct_end 0 fs)"

text \<open>\<open>_WTSINFOEX_LEVEL1\<close> and \<open>_WTSINFOEX\<close>: SessionId, SessionState, SessionFlags; Level, _pad, Data.\<close>

definition WTSINFOEX_LEVEL1 :: "(nat \<times> nat) list" where
  "WTSINFOEX_LEVEL1 = [(4, 4), (4, 4), (4, 4)]"

definition WTSINFOEX :: "(nat \<times> nat) list" where
  "WTSINFOEX = [(4, 4), (4, 4), (struct_size WTSINFOEX_LEVEL1, struct_align WTSINFOEX_LEVEL1)]"

definition SESSION_FLAGS_AT :: nat where
  "SESSION_FLAGS_AT = field_offsets 0 WTSINFOEX ! 2 + field_offsets 0 WTSINFOEX_LEVEL1 ! 2"

text \<open>\<open>_PROCESSENTRY32W\<close> where a pointer has \<open>p\<close> bytes; \<open>szExeFile\<close> is an array of 260 characters of two bytes.\<close>

definition MAX_PATH :: nat where "MAX_PATH = 260"

definition PROCESSENTRY32W :: "nat \<Rightarrow> (nat \<times> nat) list" where
  "PROCESSENTRY32W p = [(4, 4), (4, 4), (4, 4), (p, p), (4, 4), (4, 4), (4, 4), (4, 4), (4, 4), (MAX_PATH * 2, 2)]"

text \<open>
  What Windows declares: \<open>WTSINFOEXW\<close> is Level and a union whose widest members are 64-bit
  numbers, so the union stands at the next multiple of eight.
\<close>

definition windows_flags_at :: nat where
  "windows_flags_at = field_offsets 0 [(4, 4), (224, 8)] ! 1 + 4 + 4"

lemma session_flags_offset: "SESSION_FLAGS_AT = 16" "struct_size WTSINFOEX = 20"
  by (simp_all add: SESSION_FLAGS_AT_def WTSINFOEX_def WTSINFOEX_LEVEL1_def struct_size_def struct_align_def align_up_def)

text \<open>The padding field puts the flags where Windows has them; without it they would be read four bytes early.\<close>

lemma padding_is_right:
  "SESSION_FLAGS_AT = windows_flags_at
   \<and> field_offsets 0 [(4, 4), (12, 4)] ! 1 + 8 = windows_flags_at - 4"
  by (simp add: session_flags_offset windows_flags_at_def align_up_def)

lemma process_entry_size:
  "struct_size (PROCESSENTRY32W 8) = 568" "struct_size (PROCESSENTRY32W 4) = 556"
  "field_offsets 0 (PROCESSENTRY32W 8) ! 2 = 8" "field_offsets 0 (PROCESSENTRY32W 8) ! 9 = 44"
  by (simp_all add: PROCESSENTRY32W_def MAX_PATH_def struct_size_def struct_align_def align_up_def)

section \<open>The session flags\<close>

definition dword_at :: "nat \<Rightarrow> 8 word list \<Rightarrow> 32 word" where
  "dword_at offset bs = word_rcat (rev (take 4 (drop offset bs)))"

text \<open>The call's result, whether a buffer came back, the number of bytes it is said to have, and its bytes.\<close>

definition wts_answer_of :: "bool \<Rightarrow> bool \<Rightarrow> 32 word \<Rightarrow> 8 word list \<Rightarrow> wts_answer" where
  "wts_answer_of ok buffer returned bs =
     (if \<not> ok \<or> \<not> buffer then Call_failed
      else if uint returned < int (struct_size WTSINFOEX) then Too_short
      else Session_flags (sint (dword_at SESSION_FLAGS_AT bs)))"

lemma signed_dword_bounds: "- 2147483648 \<le> sint (w :: 32 word) \<and> sint w < 2147483648"
  using sint_greater_eq [of w] sint_less [of w] by simp

lemma sint_eq_iff: "sint (w :: 32 word) = i \<longleftrightarrow> - 2147483648 \<le> i \<and> i < 2147483648 \<and> w = word_of_int i"
proof
  assume "sint w = i"
  then show "- 2147483648 \<le> i \<and> i < 2147483648 \<and> w = word_of_int i" using signed_dword_bounds [of w] by auto
next
  assume i: "- 2147483648 \<le> i \<and> i < 2147483648 \<and> w = word_of_int i"
  then have "sint w = signed_take_bit 31 i" by (simp add: signed_of_int)
  also have "\<dots> = i" using i by (intro signed_take_bit_int_eq_self) auto
  finally show "sint w = i" .
qed


section \<open>The session at the console\<close>

text \<open>
  \<open>WTSGetActiveConsoleSessionId\<close> has no \<open>restype\<close>, so its result is read as signed, the own
  session as a \<open>DWORD\<close>. True where the code answers that the session is not at the console.
\<close>

definition elsewhere :: "32 word \<Rightarrow> 32 word \<Rightarrow> bool" where
  "elsewhere console own \<longleftrightarrow> sint console = 4294967295 \<or> sint console \<noteq> uint own"

lemma console_is_recognised:
  assumes "uint own < 2147483648"
  shows "elsewhere console own \<longleftrightarrow> console = - 1 \<or> console \<noteq> own"
proof -
  have "sint console = uint own \<longleftrightarrow> console = own"
    unfolding sint_eq_iff using assms by (simp add: order_trans [of _ 0])
  moreover have "sint console \<noteq> 4294967295" by (simp add: sint_eq_iff)
  moreover have "own \<noteq> - 1" using assms by (auto simp: unsigned_minus_1_eq_mask mask_eq_exp_minus_1)
  ultimately show ?thesis by (auto simp: elsewhere_def)
qed

section \<open>The snapshot of the processes\<close>

text \<open>
  \<open>CreateToolhelp32Snapshot\<close> has no \<open>restype\<close> either: the handle for failure, minus one, never
  equals \<open>c_size_t(-1)\<close>, so the code goes on with it and relies on \<open>Process32FirstW\<close> to fail.
\<close>

definition INVALID_HANDLE_VALUE :: "nat \<Rightarrow> int" where
  "INVALID_HANDLE_VALUE pointer_bytes = 2 ^ (8 * pointer_bytes) - 1"

definition snapshot_refused :: "nat \<Rightarrow> 32 word \<Rightarrow> bool" where
  "snapshot_refused pointer_bytes handle \<longleftrightarrow> sint handle \<in> {0, INVALID_HANDLE_VALUE pointer_bytes}"

theorem failed_snapshot_is_not_noticed:
  "pointer_bytes \<in> {4, 8} \<Longrightarrow> \<not> snapshot_refused pointer_bytes (- 1)"
  by (auto simp: snapshot_refused_def INVALID_HANDLE_VALUE_def)

end
