(* ===== verification/Panel_Clock.thy ===== *)
theory Panel_Clock
  imports Panel_Upkeep
begin

text \<open>
  \<open>src/kid_pc_monitor/panel_clock.py\<close>: the time, the zone and the random numbers of the panel's
  stores, and the hook that runs a piece of the panel with others in their place.
\<close>

section \<open>Zones and times\<close>

text \<open>
  A \<open>tzinfo\<close>: the offset of a local time there, and the local time there of an instant
  (\<open>astimezone\<close>). A datetime is naive or aware.
\<close>

record zone =
  tz_offset :: "datetime \<Rightarrow> int"
  tz_convert :: "aware \<Rightarrow> aware"

datatype py_datetime = Naive datetime | Of_zone aware

text \<open>The module's variables; a generator is what its \<open>random()\<close> gives, seeded or of the system.\<close>

record clock_globals =
  cg_clock :: "py_datetime option"
  cg_tz :: "zone option"
  cg_rng :: "int option"

record clock_host =
  ch_zone :: zone
  ch_now :: aware
  ch_random :: "int option \<Rightarrow> rat"

definition localize :: "clock_host \<Rightarrow> clock_globals \<Rightarrow> py_datetime \<Rightarrow> aware" where
  "localize h g dt =
     (case cg_tz g of
        None \<Rightarrow> (case dt of Naive d \<Rightarrow> Aware d (tz_offset (ch_zone h) d) | Of_zone a \<Rightarrow> tz_convert (ch_zone h) a)
      | Some z \<Rightarrow> (case dt of Naive d \<Rightarrow> Aware d (tz_offset z d) | Of_zone a \<Rightarrow> tz_convert z a))"

definition clock_now :: "clock_host \<Rightarrow> clock_globals \<Rightarrow> aware" where
  "clock_now h g =
     (case cg_clock g of
        Some t \<Rightarrow> localize h g t
      | None \<Rightarrow> (case cg_tz g of Some z \<Rightarrow> tz_convert z (ch_now h) | None \<Rightarrow> tz_convert (ch_zone h) (ch_now h)))"

text \<open>\<open>random.uniform(a, b)\<close> is \<open>a + (b - a) * random()\<close>.\<close>

definition clock_uniform :: "clock_host \<Rightarrow> clock_globals \<Rightarrow> rat \<Rightarrow> rat \<Rightarrow> rat" where
  "clock_uniform h g a b = a + (b - a) * ch_random h (cg_rng g)"

section \<open>A fixed clock\<close>

text \<open>\<open>fixed\<close>: the variables are put back however the body ends.\<close>

definition fixed_clock ::
  "py_datetime option \<Rightarrow> zone option \<Rightarrow> int option \<Rightarrow> (clock_globals \<times> 's, 'a) act \<Rightarrow> (clock_globals \<times> 's, 'a) act" where
  "fixed_clock clock tz seed body s =
     (case body (\<lparr>cg_clock = clock, cg_tz = tz, cg_rng = seed\<rparr>, snd s) of
        (r, t) \<Rightarrow> (r, (fst s, snd t)))"

theorem fixed_clock_is_put_back:
  "fst (snd (fixed_clock clock tz seed body s)) = fst s"
  by (simp add: fixed_clock_def split: prod.split)

text \<open>Inside another, the inner one rules, and after it the outer one does again.\<close>

lemma nested_fixed_clocks:
  "fixed_clock c z n (bind (fixed_clock c' z' n' (gets (\<lambda>s. clock_now h (fst s)))) (\<lambda>inner. gets (\<lambda>s. (inner, clock_now h (fst s))))) s
   = (Inr (clock_now h \<lparr>cg_clock = c', cg_tz = z', cg_rng = n'\<rparr>, clock_now h \<lparr>cg_clock = c, cg_tz = z, cg_rng = n\<rparr>), s)"
  by (simp add: fixed_clock_def bind_def)

section \<open>What the stores rely on\<close>

text \<open>The zone in force gives the offset that \<open>_parse_db_datetime\<close> puts on a text without one.\<close>

definition zone_in_force :: "clock_host \<Rightarrow> clock_globals \<Rightarrow> zone" where
  "zone_in_force h g = (case cg_tz g of None \<Rightarrow> ch_zone h | Some z \<Rightarrow> z)"

lemma parse_uses_localize:
  "parse_db_datetime (tz_offset (zone_in_force h g)) t =
     (case t of With_offset d z \<Rightarrow> Aware d z | Without_offset d \<Rightarrow> localize h g (Naive d))"
  by (simp add: parse_db_datetime_def localize_def zone_in_force_def split: time_text.split option.split)

text \<open>The clock is never off: whatever the zone, the time is the host's instant.\<close>

lemma now_is_the_instant:
  assumes "cg_clock g = None" and "\<And>(z :: zone) a. instant (tz_convert z a) = instant a"
  shows "instant (clock_now h g) = instant (ch_now h)"
  using assms by (simp add: clock_now_def split: option.split)

text \<open>The pauses of the pruner stay between their bounds whatever the generator draws.\<close>

theorem pauses_stay_in_bounds:
  assumes "0 \<le> ch_random h (cg_rng g)" and "ch_random h (cg_rng g) \<le> 1" and "cycle_sleep_bounds interval = (a, b)" and "0 \<le> interval"
  shows "a \<le> clock_uniform h g a b \<and> clock_uniform h g a b \<le> b \<and> \<bar>clock_uniform h g a b - interval\<bar> \<le> min (interval / 10) 5"
proof -
  let ?j = "max 0 (min (interval / 10) (5::rat))" and ?r = "ch_random h (cg_rng g)"
  have ab: "a = interval - ?j" "b = interval + ?j" using assms(3) by (simp_all add: cycle_sleep_bounds_def Let_def)
  have "0 \<le> (b - a) * ?r" using assms(1) ab by simp
  moreover have "(b - a) * ?r \<le> b - a" using assms(2) ab by (intro mult_left_le) simp_all
  ultimately have "a \<le> clock_uniform h g a b" "clock_uniform h g a b \<le> b" by (simp_all add: clock_uniform_def)
  moreover from this ab have "\<bar>clock_uniform h g a b - interval\<bar> \<le> ?j" unfolding abs_le_iff by linarith
  moreover have "?j = min (interval / 10) 5" using assms(4) by simp
  ultimately show ?thesis by metis
qed

end
