(* ===== verification/Shared_Key.thy ===== *)
theory Shared_Key
  imports Secret_Store Protocol
begin

text \<open>
  The two halves of an installation share a key: the parent types the same secret into the
  installer on the panel's computer and on the child's, and what the panel signs with the
  secret it loads is accepted with the secret the agent loads. What the protocol needs of
  the secret store is the interface \<open>secret_source\<close>.
\<close>

section \<open>The interface\<close>

text \<open>A place a typed secret is entered into, and loaded from.\<close>

locale secret_source =
  fixes ready :: "'d \<Rightarrow> bool"
    and proper :: "pystr \<Rightarrow> bool"
    and enter :: "pystr \<Rightarrow> 'd \<Rightarrow> 'd"
    and load :: "'d \<Rightarrow> pystr option res"
  assumes load_enter: "ready d \<Longrightarrow> proper s \<Longrightarrow> load (enter s d) = Inr (Some s)"
begin

lemma loaded_secret: "ready d \<Longrightarrow> proper s \<Longrightarrow> load (enter s d) = Inr (Some k) \<Longrightarrow> k = s"
  by (simp add: load_enter)

end

locale paired_hosts =
  panel: secret_source panel_ready proper panel_enter panel_load +
  agent: secret_source agent_ready proper agent_enter agent_load
  for panel_ready :: "'p \<Rightarrow> bool" and proper and panel_enter and panel_load
    and agent_ready :: "'a \<Rightarrow> bool" and agent_enter and agent_load
begin

lemma same_key:
  assumes "panel_ready p" "agent_ready a" "proper s"
  shows "panel_load (panel_enter s p) = agent_load (agent_enter s a)"
  using assms by (simp add: panel.load_enter agent.load_enter)

lemma signed_request_accepted:
  assumes "panel_ready p" "agent_ready a" "proper s"
    and "panel_load (panel_enter s p) = Inr (Some panel_key)"
    and "agent_load (agent_enter s a) = Inr (Some agent_key)"
    and "build_request py panel_key action var val req_id name ts nonce 3 tail = Inr body"
    and "sendable hostname action var val name tail" and "fresh_stamp ts nonce now"
  shows "parse_request py body agent_key hostname now = Inr
    \<lparr>rversion = 3, rid = req_id, raction = action, rvar = var, rval = val_or_none val, rname = name,
     rtimestamp = PInt ts, rnonce = PStr nonce, rtail = tail\<rparr>"
proof -
  have "panel_key = s" "agent_key = s"
    using panel.loaded_secret [OF assms(1,3,4)] agent.loaded_secret [OF assms(2,3,5)] .
  then show ?thesis using built_request_parses assms(6-8) by simp
qed

end

section \<open>The installer provides it\<close>

text \<open>A computer without a stored secret, whose account can write one of the directories.\<close>

definition fresh_install :: "cipher \<Rightarrow> account \<Rightarrow> vault \<Rightarrow> bool" where
  "fresh_install ci ac v \<longleftrightarrow>
     decrypts ci \<and> reads_what_it_writes ac \<and> load_shared_secret ci ac v = Inr None
     \<and> list_ex (ac_writes ac) (secrets_dirs ac) \<and> list_all is_scalar (strip (ac_key ac))"

definition proper_secret :: "pystr \<Rightarrow> bool" where
  "proper_secret s \<longleftrightarrow> strip s = s \<and> MIN_SECRET_LENGTH \<le> length s \<and> list_all is_scalar s"

definition install_secret :: "cipher \<Rightarrow> bytes \<Rightarrow> account \<Rightarrow> pystr \<Rightarrow> vault \<Rightarrow> vault" where
  "install_secret ci random ac s v = snd (prompt_and_store_shared_secret ci random ac [Some s, Some s] v)"

lemma save_in_succeeds: "list_ex (ac_writes ac) ds \<Longrightarrow> \<exists>d w. save_in ac name token ds v = (Inr d, w)"
  by (induction ds) auto

lemma install_secret_runs:
  assumes "fresh_install ci ac v" "proper_secret s"
  shows "prompt_and_store_shared_secret ci random ac [Some s, Some s] v = (Inr (Some s), install_secret ci random ac s v)"
proof -
  have "\<exists>key. derive_store_key ci ac = Inr key"
    using assms(1) utf8_encode_total [of "strip (ac_key ac)"]
    by (auto simp: derive_store_key_def fresh_install_def Let_def)
  moreover obtain plain where "utf8_encode s = Inr plain"
    using utf8_encode_total assms(2) by (auto simp: proper_secret_def)
  ultimately have "\<exists>d w. save_secret ci random ac SHARED_SECRET_NAME s v = (Inr d, w)"
    using save_in_succeeds assms(1) by (auto simp: save_secret_def fresh_install_def)
  then have "\<exists>w. prompt_and_store_shared_secret ci random ac [Some s, Some s] v = (Inr (Some s), w)"
    using assms by (auto simp: prompt_and_store_shared_secret_def fresh_install_def proper_secret_def bind_def)
  then show ?thesis by (auto simp: install_secret_def)
qed

lemma install_secret_loads:
  assumes "fresh_install ci ac v" "proper_secret s"
  shows "load_shared_secret ci ac (install_secret ci random ac s v) = Inr (Some s)"
proof -
  obtain d where "save_secret ci random ac SHARED_SECRET_NAME s v = (Inr d, install_secret ci random ac s v)"
    using prompt_and_store_cases [OF install_secret_runs [OF assms]] by blast
  then show ?thesis
    using load_after_save assms(1) unfolding load_shared_secret_def fresh_install_def by blast
qed

interpretation installer: secret_source "fresh_install ci ac" proper_secret "install_secret ci random ac" "load_shared_secret ci ac"
  for ci random ac
  by unfold_locales (rule install_secret_loads)

interpretation hosts: paired_hosts
  "fresh_install ci panel_ac" proper_secret "install_secret ci random panel_ac" "load_shared_secret ci panel_ac"
  "fresh_install ci' agent_ac" "install_secret ci' random' agent_ac" "load_shared_secret ci' agent_ac"
  for ci random panel_ac ci' random' agent_ac
  by unfold_locales

text \<open>
  C28. The same phrase on both computers connects them: when the parent enters the same
  secret into the installer on the panel's computer and on the child's (each with its own
  directories, key and account), every admissible request the panel signs with the secret
  it loads is accepted by the agent with the secret that one loads, with its fields intact.
\<close>

theorem same_phrase_connects_the_halves:
  assumes "fresh_install ci panel_ac p" and "fresh_install ci' agent_ac a" and "proper_secret s"
    and "load_shared_secret ci panel_ac (install_secret ci random panel_ac s p) = Inr (Some panel_key)"
    and "load_shared_secret ci' agent_ac (install_secret ci' random' agent_ac s a) = Inr (Some agent_key)"
    and "build_request py panel_key action var val req_id name ts nonce 3 tail = Inr body"
    and "sendable hostname action var val name tail" and "fresh_stamp ts nonce now"
  shows "parse_request py body agent_key hostname now = Inr
    \<lparr>rversion = 3, rid = req_id, raction = action, rvar = var, rval = val_or_none val, rname = name,
     rtimestamp = PInt ts, rnonce = PStr nonce, rtail = tail\<rparr>"
  by (rule hosts.signed_request_accepted [OF assms])

theorem same_phrase_connects_the_halves_witness:
  "\<exists>body. build_request sample_python (lit ''secret phrase'') (lit ''set'') (Some (lit ''bed_time''))
      (Some (PStr (lit ''20:30''))) None (Some (lit ''kid'')) 1000 sample_nonce 3 None = Inr body
    \<and> parse_request sample_python body (lit ''secret phrase'') (lit ''kid'') 1030 = Inr
    \<lparr>rversion = 3, rid = None, raction = lit ''set'', rvar = Some (lit ''bed_time''),
     rval = PStr (lit ''20:30''), rname = Some (lit ''kid''),
     rtimestamp = PInt 1000, rnonce = PStr sample_nonce, rtail = None\<rparr>"
proof -
  let ?s = "lit ''secret phrase''"
  have "load_shared_secret sample_cipher admin_account empty_vault = Inr None"
    by (simp add: load_shared_secret_def load_secret_def find_secret_path_def secrets_dirs_def secret_is_file_def
        admin_account_def empty_vault_def strip_def)
  moreover have "list_ex (ac_writes admin_account) (secrets_dirs admin_account)"
    "reads_what_it_writes admin_account" "list_all is_scalar (strip (ac_key admin_account))"
    by (simp_all add: secrets_dirs_def admin_account_def strip_def reads_what_it_writes_def)
  ultimately have fresh: "fresh_install sample_cipher admin_account empty_vault"
    using sample_cipher_decrypts by (simp add: fresh_install_def)
  have proper: "proper_secret ?s"
    by (simp add: proper_secret_def strip_def is_space_def is_scalar_def MIN_SECRET_LENGTH_def lit_def)
  note l = install_secret_loads [OF fresh proper, of "[]"]
  have "\<exists>body. build_request sample_python ?s (lit ''set'') (Some (lit ''bed_time''))
      (Some (PStr (lit ''20:30''))) None (Some (lit ''kid'')) 1000 sample_nonce 3 None = Inr body"
    by (rule build_request_total) (simp_all add: request_nodes_def sample_nonce_def)
  then obtain body where b: "build_request sample_python ?s (lit ''set'') (Some (lit ''bed_time''))
      (Some (PStr (lit ''20:30''))) None (Some (lit ''kid'')) 1000 sample_nonce 3 None = Inr body" ..
  show ?thesis
    using b same_phrase_connects_the_halves [OF fresh fresh proper l l b sample_sendable sample_stamp]
    by (simp add: val_or_none_def)
qed

end
