(* ===== verification/Install_Scripts.thy ===== *)
theory Install_Scripts
  imports PyText
begin

text \<open>
  The texts the agent's installer (\<open>src/scripts/install.py\<close>) hands to PowerShell and to the
  task scheduler, with the values it puts into them, and how PowerShell reads a
  quoted value back. A text is given line by line; \<open>[34]\<close>, \<open>[39]\<close>, \<open>[92]\<close> and \<open>[96]\<close> are the
  double quote, the single quote, the backslash and the backtick.
\<close>

section \<open>Lines and paths\<close>

fun unlines :: "pystr list \<Rightarrow> pystr" where
  "unlines [] = []"
| "unlines [l] = l"
| "unlines (l # ls) = l @ 10 # unlines ls"

text \<open>
  \<open>Path(d) / n\<close> on Windows: a drive without a root, such as \<open>C:\<close>, gives a path relative to
  the current directory of that drive. \<open>os.path.dirname\<close>: what stands before the last separator.
\<close>

definition under :: "pystr \<Rightarrow> pystr \<Rightarrow> pystr" where
  "under d n = (if d \<noteq> [] \<and> last d = 58 then d @ n else d @ 92 # n)"

definition dirname :: "pystr \<Rightarrow> pystr" where
  "dirname p = rev (drop 1 (dropWhile (\<lambda>c. c \<noteq> 92) (rev p)))"

section \<open>Names\<close>

definition TASK_NAME :: pystr where "TASK_NAME = lit ''KidPCMonitor''"
definition AUTO_UPDATE_TASK_NAME :: pystr where "AUTO_UPDATE_TASK_NAME = lit ''KidPCMonitorUpdate''"
definition INSTALL_CONFIG_FILE :: pystr where "INSTALL_CONFIG_FILE = lit ''daily_settings.json''"

definition INSTALL_DIR_DEFAULT :: pystr where
  "INSTALL_DIR_DEFAULT = lit ''C:'' @ [92] @ lit ''ProgramData'' @ [92] @ lit ''KidPCMonitor''"

definition FIREWALL_RULE_DISPLAY_NAME :: pystr where
  "FIREWALL_RULE_DISPLAY_NAME = lit ''Kid PC Monitor Agent (TCP 9999)''"

definition AGENT_LAUNCHER :: pystr where
  "AGENT_LAUNCHER = unlines
    [[34, 34, 34] @ lit ''Kid PC Monitor agent launcher (installed copy).'',
     [],
     lit ''The kid_pc_monitor package is installed alongside this file so the scheduled'',
     lit ''task can run the agent without a separate pip install step.'',
     [34, 34, 34],
     lit ''import sys'',
     lit ''from pathlib import Path'',
     [],
     lit ''sys.path.insert(0, str(Path(__file__).resolve().parent))'',
     [],
     lit ''from kid_pc_monitor.pc_control import main'',
     [],
     lit ''if __name__ == '' @ [34] @ lit ''__main__'' @ [34] @ lit '':'',
     lit ''    raise SystemExit(main())'',
     []]"

section \<open>Quoting\<close>

text \<open>\<open>_escape_ps_single_quoted\<close>, which other functions write out as \<open>value.replace\<close>.\<close>

definition escape_ps_single_quoted :: "pystr \<Rightarrow> pystr" where
  "escape_ps_single_quoted val = concat (map (\<lambda>c. if c = 39 then [39, 39] else [c]) val)"

text \<open>
  How PowerShell reads on after the opening quote of a single-quoted literal: up to the next
  quote that is not doubled. The four typographic single quotes count as quotes too.
\<close>

definition ps_quote :: "nat \<Rightarrow> bool" where
  "ps_quote c \<longleftrightarrow> c = 39 \<or> (8216 \<le> c \<and> c \<le> 8219)"

fun read_ps_literal :: "pystr \<Rightarrow> (pystr \<times> pystr) option" where
  "read_ps_literal [] = None"
| "read_ps_literal (c # cs) =
     (if \<not> ps_quote c then map_option (\<lambda>(v, rest). (c # v, rest)) (read_ps_literal cs)
      else
        case cs of
          q # rest \<Rightarrow>
            if ps_quote q then map_option (\<lambda>(v, rest). (q # v, rest)) (read_ps_literal rest)
            else Some ([], q # rest)
        | [] \<Rightarrow> Some ([], []))"

section \<open>PowerShell\<close>

definition powershell :: "pystr \<Rightarrow> pystr list" where
  "powershell script =
     [lit ''powershell'', lit ''-NoProfile'', lit ''-ExecutionPolicy'', lit ''Bypass'', lit ''-Command'', script]"

definition account_script :: "pystr \<Rightarrow> pystr" where
  "account_script name =
     lit ''if (Get-LocalUser -Name '' @ [39] @ name @ [39] @ lit '' -ErrorAction SilentlyContinue) ''
     @ lit ''{ Write-Host '' @ [39] @ lit ''OK'' @ [39] @ lit '' } else { Write-Host '' @ [39] @ lit ''MISSING'' @ [39]
     @ lit '' }''"

definition profile_script :: "pystr \<Rightarrow> pystr" where
  "profile_script safe_user = unlines
    [[],
     lit ''    $ErrorActionPreference = '' @ [39] @ lit ''Stop'' @ [39],
     lit ''    $name = '' @ [39] @ safe_user @ [39],
     lit ''    $acct = New-Object System.Security.Principal.NTAccount($name)'',
     lit ''    $sid = $acct.Translate([System.Security.Principal.SecurityIdentifier]).Value'',
     lit ''    $key = '' @ [34] @ lit ''HKLM:'' @ [92] @ lit ''SOFTWARE'' @ [92]
        @ lit ''Microsoft'' @ [92] @ lit ''Windows NT'' @ [92] @ lit ''CurrentVersion'' @ [92]
        @ lit ''ProfileList'' @ [92] @ lit ''$sid'' @ [34],
     lit ''    if (-not (Test-Path -LiteralPath $key)) {'',
     lit ''        Write-Output '' @ [39] @ lit ''NO_PROFILE'' @ [39],
     lit ''        exit 2'',
     lit ''    }'',
     lit ''    $profile = (Get-ItemProperty -LiteralPath $key).ProfileImagePath'',
     lit ''    if (-not $profile) {'',
     lit ''        Write-Output '' @ [39] @ lit ''NO_PATH'' @ [39],
     lit ''        exit 3'',
     lit ''    }'',
     lit ''    Join-Path $profile '' @ [39] @ lit ''AppData'' @ [92] @ lit ''Local'' @ [92]
        @ lit ''KidPCMonitor'' @ [39],
     lit ''    '']"

definition settings_script :: "pystr \<Rightarrow> pystr \<Rightarrow> pystr \<Rightarrow> pystr \<Rightarrow> pystr" where
  "settings_script safe_user safe_wake safe_bed allowance_ps = unlines
    [[],
     lit ''    $ErrorActionPreference = '' @ [39] @ lit ''Stop'' @ [39],
     lit ''    $name = '' @ [39] @ safe_user @ [39],
     lit ''    $wake = '' @ [39] @ safe_wake @ [39],
     lit ''    $bed = '' @ [39] @ safe_bed @ [39],
     lit ''    $dailyLimit = '' @ allowance_ps,
     lit ''    $acct = New-Object System.Security.Principal.NTAccount($name)'',
     lit ''    $sid = $acct.Translate([System.Security.Principal.SecurityIdentifier]).Value'',
     lit ''    $key = '' @ [34] @ lit ''HKLM:'' @ [92] @ lit ''SOFTWARE'' @ [92]
        @ lit ''Microsoft'' @ [92] @ lit ''Windows NT'' @ [92] @ lit ''CurrentVersion'' @ [92]
        @ lit ''ProfileList'' @ [92] @ lit ''$sid'' @ [34],
     lit ''    if (-not (Test-Path -LiteralPath $key)) {'',
     lit ''        Write-Error '' @ [34]
        @ lit ''No Windows profile for $name. Ask them to sign in once, then re-run install.'' @ [34],
     lit ''    }'',
     lit ''    $profile = (Get-ItemProperty -LiteralPath $key).ProfileImagePath'',
     lit ''    $dir = Join-Path $profile '' @ [39] @ lit ''AppData'' @ [92] @ lit ''Local'' @ [92]
        @ lit ''KidPCMonitor'' @ [39],
     lit ''    New-Item -ItemType Directory -Force -Path $dir | Out-Null'',
     lit ''    $dailyPath = Join-Path $dir '' @ [39] @ lit ''daily_settings.json'' @ [39],
     lit ''    $daily = @'' @ lit ''{}'',
     lit ''    if (Test-Path -LiteralPath $dailyPath) {'',
     lit ''        $raw = Get-Content -LiteralPath $dailyPath -Raw -Encoding UTF8'',
     lit ''        if ($raw) {'',
     lit ''            $daily = $raw | ConvertFrom-Json'',
     lit ''            if ($daily -is [System.Array]) { $daily = @'' @ lit ''{} }'',
     lit ''        }'',
     lit ''    }'',
     lit ''    $daily | Add-Member -NotePropertyName wake_time -NotePropertyValue $wake -Force'',
     lit ''    $daily | Add-Member -NotePropertyName bed_time -NotePropertyValue $bed -Force'',
     lit ''    $daily | Add-Member -NotePropertyName allowance -NotePropertyValue $dailyLimit -Force'',
     lit ''    $json = $daily | ConvertTo-Json -Depth 5'',
     lit ''    Set-Content -LiteralPath $dailyPath -Value $json -Encoding UTF8'',
     lit ''    Write-Output $dailyPath'',
     lit ''    '']"

definition firewall_rule_script :: "pystr \<Rightarrow> pystr" where
  "firewall_rule_script ps_name = unlines
    [[],
     lit ''    $rules = Get-NetFirewallRule -DisplayName '' @ [39] @ ps_name @ [39]
        @ lit '' -ErrorAction SilentlyContinue'',
     lit ''    if (-not $rules) {'',
     lit ''        Write-Host '' @ [39] @ lit ''INFO: No firewall rule to remove'' @ [39],
     lit ''        exit 0'',
     lit ''    }'',
     lit ''    $rules | Remove-NetFirewallRule'',
     lit ''    Write-Host '' @ [39] @ lit ''SUCCESS: Firewall rule removed'' @ [39],
     lit ''    exit 0'',
     lit ''    '']"

definition update_task_script :: "pystr \<Rightarrow> pystr \<Rightarrow> pystr \<Rightarrow> pystr" where
  "update_task_script python_path script repo = unlines
    [[],
     lit ''    $ErrorActionPreference = '' @ [39] @ lit ''Stop'' @ [39],
     lit ''    try {'',
     lit ''        $action = New-ScheduledTaskAction -Execute '' @ [34] @ python_path @ [34]
        @ lit '' '' @ [96],
     lit ''            -Argument '' @ [39, 34] @ script @ [34] @ lit '' --update --pull'' @ [39]
        @ lit '' -WorkingDirectory '' @ [34] @ repo @ [34],
     lit ''        $atStartup = New-ScheduledTaskTrigger -AtStartup'',
     lit ''        $atStartup.Delay = '' @ [39] @ lit ''PT2M'' @ [39],
     lit ''        $daily = New-ScheduledTaskTrigger -Daily -At 4am'',
     lit ''        $principal = New-ScheduledTaskPrincipal -UserId '' @ [39] @ lit ''SYSTEM''
        @ [39] @ lit '' -LogonType ServiceAccount -RunLevel Highest'',
     lit ''        $settings = New-ScheduledTaskSettingsSet -StartWhenAvailable -AllowStartIfOnBatteries -DontStopIfGoingOnBatteries'',
     lit ''        Register-ScheduledTask -TaskName '' @ [39] @ AUTO_UPDATE_TASK_NAME @ [39]
        @ lit '' -Action $action '' @ [96],
     lit ''            -Trigger @($atStartup, $daily) -Principal $principal -Settings $settings -Force | Out-Null'',
     lit ''        Write-Host '' @ [39] @ lit ''SUCCESS'' @ [39],
     lit ''    } catch {'',
     lit ''        Write-Host '' @ [34] @ lit ''ERROR: $_'' @ [34],
     lit ''        exit 1'',
     lit ''    }'',
     lit ''    '']"

section \<open>The scheduled task\<close>

definition task_triggers :: "pystr \<Rightarrow> pystr \<Rightarrow> pystr" where
  "task_triggers domain target_user =
     lit ''$triggers = @( New-ScheduledTaskTrigger -AtLogon -User '' @ [39] @ domain @ [92] @ target_user @ [39]
     @ lit '' )''"

definition task_principal :: "pystr \<Rightarrow> pystr \<Rightarrow> pystr" where
  "task_principal domain target_user =
     lit ''$principal = New-ScheduledTaskPrincipal '' @ lit ''-UserId '' @ [39] @ domain @ [92] @ target_user @ [39]
     @ lit '' -LogonType Interactive -RunLevel Limited''"

definition task_script :: "pystr \<Rightarrow> pystr \<Rightarrow> pystr \<Rightarrow> pystr \<Rightarrow> pystr \<Rightarrow> pystr" where
  "task_script task_name python_path script_path triggers_block principal_block = unlines
    [[],
     lit ''    $ErrorActionPreference = '' @ [39] @ lit ''Stop'' @ [39],
     lit ''    try {'',
     lit ''        $action = New-ScheduledTaskAction -Execute '' @ [34] @ python_path @ [34]
        @ lit '' -Argument '' @ [34] @ script_path @ [34] @ lit '' -WorkingDirectory '' @ [34]
        @ dirname script_path @ [34],
     [],
     lit ''        '' @ triggers_block,
     [],
     lit ''        '' @ principal_block,
     [],
     lit ''        $settings = New-ScheduledTaskSettingsSet '' @ [96],
     lit ''            -AllowStartIfOnBatteries '' @ [96],
     lit ''            -DontStopIfGoingOnBatteries '' @ [96],
     lit ''            -StartWhenAvailable '' @ [96],
     lit ''            -DontStopOnIdleEnd '' @ [96],
     lit ''            -RestartCount 3 '' @ [96],
     lit ''            -RestartInterval (New-TimeSpan -Minutes 1) '' @ [96],
     lit ''            -ExecutionTimeLimit (New-TimeSpan -Hours 0)'',
     [],
     lit ''        Register-ScheduledTask '' @ [96],
     lit ''            -TaskName '' @ [34] @ task_name @ [34] @ lit '' '' @ [96],
     lit ''            -Action $action '' @ [96],
     lit ''            -Trigger $triggers '' @ [96],
     lit ''            -Principal $principal '' @ [96],
     lit ''            -Settings $settings '' @ [96],
     lit ''            -Force'',
     [],
     lit ''        $task = Get-ScheduledTask -TaskName '' @ [34] @ task_name @ [34]
        @ lit '' -ErrorAction Stop'',
     lit ''        Write-Host '' @ [34] @ lit ''SUCCESS: Task verified in Task Scheduler'' @ [34],
     lit ''        Write-Host '' @ [34] @ lit ''Task Path: $($task.TaskPath)'' @ [34],
     lit ''        Write-Host '' @ [34] @ lit ''Triggers: $($task.Triggers)'' @ [34],
     lit ''        Write-Host '' @ [34] @ lit ''Principal: $($task.Principal)'' @ [34],
     lit ''        exit 0'',
     lit ''    }'',
     lit ''    catch {'',
     lit ''        Write-Host '' @ [34] @ lit ''ERROR: $_'' @ [34],
     lit ''        Write-Host '' @ [34] @ lit ''Detailed error: $($_.Exception.Message)'' @ [34],
     lit ''        exit 1'',
     lit ''    }'',
     lit ''    '']"

definition logon_trigger :: "pystr \<Rightarrow> pystr" where
  "logon_trigger user_id = unlines
    [lit ''    <LogonTrigger>'',
     lit ''      <Enabled>true</Enabled>'',
     lit ''      <UserId>'' @ user_id @ lit ''</UserId>'',
     lit ''    </LogonTrigger>'']"

definition xml_principal :: "pystr \<Rightarrow> pystr" where
  "xml_principal user_id = unlines
    [lit ''    <Principal id='' @ [34]
        @ lit ''Author'' @ [34] @ lit ''>'',
     lit ''      <UserId>'' @ user_id @ lit ''</UserId>'',
     lit ''      <LogonType>InteractiveToken</LogonType>'',
     lit ''      <RunLevel>LeastPrivilege</RunLevel>'',
     lit ''    </Principal>'']"

definition task_xml :: "pystr \<Rightarrow> pystr \<Rightarrow> pystr \<Rightarrow> pystr \<Rightarrow> pystr" where
  "task_xml python_path script_path trigger_block principal_block = unlines
    [lit ''<?xml version='' @ [34] @ lit ''1.0''
        @ [34] @ lit '' encoding='' @ [34] @ lit ''UTF-16'' @ [34] @ lit ''?>'',
     lit ''<Task version='' @ [34] @ lit ''1.2'' @ [34] @ lit '' xmlns='' @ [34]
        @ lit ''http://schemas.microsoft.com/windows/2004/02/mit/task'' @ [34] @ lit ''>'',
     lit ''  <RegistrationInfo>'',
     lit ''    <Description>Kid PC Monitor - Manages computer usage time</Description>'',
     lit ''  </RegistrationInfo>'',
     lit ''  <Triggers>'',
     trigger_block,
     lit ''  </Triggers>'',
     lit ''  <Principals>'',
     principal_block,
     lit ''  </Principals>'',
     lit ''  <Settings>'',
     lit ''    <MultipleInstancesPolicy>IgnoreNew</MultipleInstancesPolicy>'',
     lit ''    <DisallowStartIfOnBatteries>false</DisallowStartIfOnBatteries>'',
     lit ''    <StopIfGoingOnBatteries>false</StopIfGoingOnBatteries>'',
     lit ''    <AllowHardTerminate>true</AllowHardTerminate>'',
     lit ''    <StartWhenAvailable>true</StartWhenAvailable>'',
     lit ''    <RunOnlyIfNetworkAvailable>false</RunOnlyIfNetworkAvailable>'',
     lit ''    <IdleSettings>'',
     lit ''      <StopOnIdleEnd>false</StopOnIdleEnd>'',
     lit ''      <RestartOnIdle>false</RestartOnIdle>'',
     lit ''    </IdleSettings>'',
     lit ''    <AllowStartOnDemand>true</AllowStartOnDemand>'',
     lit ''    <Enabled>true</Enabled>'',
     lit ''    <Hidden>false</Hidden>'',
     lit ''    <RunOnlyIfIdle>false</RunOnlyIfIdle>'',
     lit ''    <WakeToRun>false</WakeToRun>'',
     lit ''    <ExecutionTimeLimit>PT0S</ExecutionTimeLimit>'',
     lit ''    <Priority>7</Priority>'',
     lit ''    <RestartOnFailure>'',
     lit ''      <Interval>PT1M</Interval>'',
     lit ''      <Count>3</Count>'',
     lit ''    </RestartOnFailure>'',
     lit ''  </Settings>'',
     lit ''  <Actions Context='' @ [34] @ lit ''Author'' @ [34] @ lit ''>'',
     lit ''    <Exec>'',
     lit ''      <Command>'' @ python_path @ lit ''</Command>'',
     lit ''      <Arguments>'' @ [34] @ script_path @ [34] @ lit ''</Arguments>'',
     lit ''      <WorkingDirectory>'' @ dirname script_path @ lit ''</WorkingDirectory>'',
     lit ''    </Exec>'',
     lit ''  </Actions>'',
     lit ''</Task>'']"

section \<open>What a quoted value reads back as\<close>

lemma read_escaped:
  assumes "\<forall>c \<in> set val. \<not> (8216 \<le> c \<and> c \<le> 8219)" and "case rest of [] \<Rightarrow> True | c # _ \<Rightarrow> \<not> ps_quote c"
  shows "read_ps_literal (escape_ps_single_quoted val @ 39 # rest) = Some (val, rest)"
  using assms
proof (induction val)
  case Nil
  then show ?case by (cases rest) (simp_all add: escape_ps_single_quoted_def ps_quote_def)
next
  case (Cons c val)
  then have "read_ps_literal (escape_ps_single_quoted val @ 39 # rest) = Some (val, rest)" by simp
  with Cons.prems show ?case by (auto simp: escape_ps_single_quoted_def ps_quote_def)
qed

text \<open>A typographic quote in a name ends the literal early.\<close>

lemma typographic_quote_ends_the_literal:
  "read_ps_literal (escape_ps_single_quoted (lit ''O'' @ 8217 # lit ''Brien'') @ 39 # rest)
     = Some (lit ''O'', lit ''Brien'' @ 39 # rest)"
  by (simp add: escape_ps_single_quoted_def ps_quote_def lit_def)

end
