(* ===== verification/Installer.thy ===== *)
theory Installer
  imports Install_Scripts State_Store Panel_Data Secret_Store Text_Lines
begin

text \<open>
  The installer of the agent, \<open>src/scripts/install.py\<close>: which account is monitored, which
  Python runs the agent, the copy of the program under ProgramData, the schedule that is
  asked for and written for the agent to find, the shared secret, the scheduled task, and
  the updating of an installed program. What a command does to the computer is a parameter;
  the scripts it is given are in \<open>Install_Scripts\<close>. Printing is not modelled.
\<close>

section \<open>The computer\<close>

datatype os_command = Argv "pystr list" | Shell_line pystr

text \<open>\<open>subprocess.run\<close>: the exit status with both outputs, or an exception.\<close>

datatype completed = Completed int pystr pystr | Raised exn

text \<open>
  The files of a directory by name (settings files, as in \<open>State_Store\<close>), what the installer
  cannot read or write there, and which of its writes break off, leaving the contents given; the installed
  package with the files beside it, and which of its files are in use; the stored secrets;
  the \<open>task_config.xml\<close> in the current directory; whatever else there is.
\<close>

record 'h computer =
  co_files :: "pystr \<Rightarrow> pystr \<Rightarrow> contents option"
  co_read_fault :: "pystr \<Rightarrow> pystr \<Rightarrow> bool"
  co_write_fault :: "pystr \<Rightarrow> pystr \<Rightarrow> bool"
  co_torn_write :: "pystr \<Rightarrow> pystr \<Rightarrow> contents option"
  co_package :: "(pystr \<times> pystr) list"
  co_beside :: "pystr \<Rightarrow> pystr option"
  co_in_use :: "pystr \<Rightarrow> bool"
  co_vault :: vault
  co_task_config :: "pystr option"
  co_host :: 'h

text \<open>
  What surrounds the installer: commands, \<open>os.path.exists\<close> and \<open>glob\<close>, \<open>str.lower\<close>, what plain
  \<open>json.loads\<close> makes of a file (ValueError for JSONDecodeError), the environment variables,
  the repository (its package and requirements), the rights, and the secret store's
  parameters.
\<close>

record 'h box =
  bx_run :: "os_command \<Rightarrow> 'h computer \<Rightarrow> completed \<times> 'h computer"
  bx_exists :: "pystr \<Rightarrow> 'h computer \<Rightarrow> bool"
  bx_glob :: "pystr \<Rightarrow> 'h computer \<Rightarrow> pystr list"
  bx_lower :: "pystr \<Rightarrow> pystr"
  bx_plain_json :: "contents \<Rightarrow> json res"
  bx_win32 :: bool
  bx_user :: pystr
  bx_local_app :: "pystr option"
  bx_system_drive :: pystr
  bx_program_data :: pystr
  bx_computer_name :: pystr
  bx_executable :: pystr
  bx_repo_root :: pystr
  bx_package :: "(pystr \<times> pystr) list option"
  bx_requirements :: "pystr option"
  bx_admin :: bool
  bx_cipher :: cipher
  bx_account :: account

text \<open>The installer at work: the computer, what is typed at its prompts and at the hidden ones.\<close>

record 'h installer =
  in_pc :: "'h computer"
  in_answers :: "pystr list"
  in_hidden :: "pystr option list"

definition subprocess_error :: exn where
  "subprocess_error = HostError (lit ''SubprocessError'')"

definition eof_error :: exn where
  "eof_error = HostError (lit ''EOFError'')"

definition run_command :: "'h box \<Rightarrow> os_command \<Rightarrow> ('h computer, int \<times> pystr \<times> pystr) act" where
  "run_command box c pc =
     (case bx_run box c pc of
        (Completed status out err, pc') \<Rightarrow> (Inr (status, out, err), pc')
      | (Raised e, pc') \<Rightarrow> (Inl e, pc'))"

text \<open>\<open>except Exception\<close>, \<open>except subprocess.SubprocessError\<close>, and both that and OSError.\<close>

definition except_any :: "('s, 'a) act \<Rightarrow> ('s, 'a) act \<Rightarrow> ('s, 'a) act" where
  "except_any m h = try_with m (\<lambda>e. Some h)"

definition except_subprocess :: "('s, 'a) act \<Rightarrow> ('s, 'a) act \<Rightarrow> ('s, 'a) act" where
  "except_subprocess m h = try_with m (\<lambda>e. if e = subprocess_error then Some h else None)"

definition except_os :: "('s, 'a) act \<Rightarrow> ('s, 'a) act \<Rightarrow> ('s, 'a) act" where
  "except_os m h = try_with m (\<lambda>e. case e of OSError _ \<Rightarrow> Some h | _ \<Rightarrow> None)"

definition on_pc :: "('h computer, 'a) act \<Rightarrow> ('h installer, 'a) act" where
  "on_pc = zoom in_pc (\<lambda>pc m. m\<lparr>in_pc := pc\<rparr>)"

definition typing :: "(pystr list, 'a) act \<Rightarrow> ('h installer, 'a) act" where
  "typing = zoom in_answers (\<lambda>as m. m\<lparr>in_answers := as\<rparr>)"

text \<open>\<open>input()\<close>: the next line, or EOFError.\<close>

definition read_line :: "(pystr list, pystr) act" where
  "read_line as = (case as of [] \<Rightarrow> (Inl eof_error, []) | a # rest \<Rightarrow> (Inr a, rest))"

text \<open>Files: \<open>write_text\<close> and \<open>os.replace\<close> within a directory.\<close>

definition put_file :: "pystr \<Rightarrow> pystr \<Rightarrow> contents \<Rightarrow> ('h computer, unit) act" where
  "put_file dir n c pc =
     (if co_write_fault pc dir n then (Inl os_error, pc)
      else case co_torn_write pc dir n of
             Some part \<Rightarrow> (Inl os_error, pc\<lparr>co_files := (co_files pc)(dir := (co_files pc dir)(n \<mapsto> part))\<rparr>)
           | None \<Rightarrow> (Inr (), pc\<lparr>co_files := (co_files pc)(dir := (co_files pc dir)(n \<mapsto> c))\<rparr>))"

definition replace_file :: "pystr \<Rightarrow> pystr \<Rightarrow> pystr \<Rightarrow> ('h computer, unit) act" where
  "replace_file dir a b pc =
     (case co_files pc dir a of
        None \<Rightarrow> (Inl os_error, pc)
      | Some c \<Rightarrow>
          if co_write_fault pc dir a \<or> co_write_fault pc dir b then (Inl os_error, pc)
          else (Inr (), pc\<lparr>co_files := (co_files pc)(dir := (co_files pc dir)(a := None, b := Some c))\<rparr>))"

text \<open>The files as the store sees them in the installer, for an agent that keeps its files in \<open>dir\<close>.\<close>

definition agent_disk :: "pystr \<Rightarrow> pystr \<Rightarrow> 'h computer \<Rightarrow> disk" where
  "agent_disk program_data dir pc =
     \<lparr>files = (\<lambda>p. case p of DataFile n \<Rightarrow> co_files pc dir n | ProgramDataFile n \<Rightarrow> co_files pc program_data n),
      read_fault = (\<lambda>p. case p of DataFile n \<Rightarrow> co_read_fault pc dir n
                             | ProgramDataFile n \<Rightarrow> co_read_fault pc program_data n),
      write_fault = (\<lambda>p. case p of DataFile n \<Rightarrow> co_write_fault pc dir n
                              | ProgramDataFile n \<Rightarrow> co_write_fault pc program_data n),
      torn_write = (\<lambda>p. case p of DataFile n \<Rightarrow> co_torn_write pc dir n
                             | ProgramDataFile n \<Rightarrow> co_torn_write pc program_data n),
      mkdir_fault = (\<lambda>p. False),
      problems = []\<rparr>"

section \<open>Asking for the schedule\<close>

definition format_time_hhmm :: "pystr \<Rightarrow> pystr res" where
  "format_time_hhmm raw = rbind (parse_time_hhmm raw) (\<lambda>t. Inr (format_hhmm t))"

fun time_from :: "pystr \<Rightarrow> (pystr list, pystr) act" where
  "time_from preset [] = (Inl eof_error, [])"
| "time_from preset (a # as) =
     (case format_time_hhmm (if strip a = [] then preset else strip a) of
        Inr t \<Rightarrow> (Inr t, as)
      | Inl e \<Rightarrow> if e = ValueError then time_from preset as else (Inl e, as))"

definition prompt_wake_up_time :: "(pystr list, pystr) act" where
  "prompt_wake_up_time = time_from (lit ''07:00'')"

definition prompt_bed_time :: "(pystr list, pystr) act" where
  "prompt_bed_time = time_from (lit ''21:00'')"

fun prompt_daily_allowance :: "(pystr list, int option) act" where
  "prompt_daily_allowance [] = (Inl eof_error, [])"
| "prompt_daily_allowance (a # as) =
     (if strip a = [] then (Inr None, as)
      else
        case int_of_text (strip a) of
          Inr minutes \<Rightarrow> if minutes \<le> 0 then prompt_daily_allowance as else (Inr (Some minutes), as)
        | Inl e \<Rightarrow> if e = ValueError then prompt_daily_allowance as else (Inl e, as))"

section \<open>The directory of the monitored account\<close>

definition resolve_user_localappdata_dir :: "'h box \<Rightarrow> pystr \<Rightarrow> ('h computer, pystr option) act" where
  "resolve_user_localappdata_dir box username =
     (if \<not> bx_win32 box then ret None
      else
        except_subprocess
          (bind (run_command box (Argv (powershell (profile_script (escape_ps_single_quoted username)))))
            (\<lambda>(status, stdout, _).
               let out = strip stdout in
               ret (if status \<noteq> 0 \<or> out \<in> {lit ''NO_PROFILE'', lit ''NO_PATH'', []} then None else Some out)))
          (ret None))"

definition agent_state_dir_for_user :: "'h box \<Rightarrow> pystr \<Rightarrow> bool \<Rightarrow> ('h computer, pystr) act" where
  "agent_state_dir_for_user box username same_user =
     (if same_user
      then
        (case bx_local_app box of
           Some local \<Rightarrow>
             if local = [] then raising (OSError (lit ''LOCALAPPDATA is not set''))
             else ret (under local (lit ''KidPCMonitor''))
         | None \<Rightarrow> raising (OSError (lit ''LOCALAPPDATA is not set'')))
      else
        bind (resolve_user_localappdata_dir box username)
          (\<lambda>resolved. case resolved of
             Some dir \<Rightarrow> ret dir
           | None \<Rightarrow>
               ret (under (under (under (under (under (bx_system_drive box) (lit ''Users'')) username)
                 (lit ''AppData'')) (lit ''Local'')) (lit ''KidPCMonitor''))))"

section \<open>Writing the schedule\<close>

text \<open>
  What the agent's reader makes of a dictionary that \<open>json.dumps\<close> has written: a NaN or an
  infinity is written, and makes the text unusable for it.
\<close>

fun finite_json :: "json \<Rightarrow> bool" where
  "finite_json (JFloat (Fin r)) \<longleftrightarrow> True"
| "finite_json (JFloat f) \<longleftrightarrow> False"
| "finite_json (JList xs) \<longleftrightarrow> list_all finite_json xs"
| "finite_json (JObj d) \<longleftrightarrow> list_all (\<lambda>p. finite_json (snd p)) d"
| "finite_json j \<longleftrightarrow> True"

definition dumped :: "jdict \<Rightarrow> contents" where
  "dumped d = (if finite_json (JObj d) then Document (JObj d) else NotJson)"

definition tmp_name :: "pystr \<Rightarrow> pystr" where
  "tmp_name n = n @ lit ''.tmp''"

text \<open>The settings the file holds already; a file that cannot be read or is not JSON counts as empty.\<close>

definition settings_in_file :: "'h box \<Rightarrow> pystr \<Rightarrow> 'h computer \<Rightarrow> json res" where
  "settings_in_file box dir pc =
     (case co_files pc dir INSTALL_CONFIG_FILE of
        None \<Rightarrow> Inr (JObj [])
      | Some c \<Rightarrow>
          if co_read_fault pc dir INSTALL_CONFIG_FILE then Inr (JObj [])
          else (case bx_plain_json box c of
                  Inl e \<Rightarrow> if e = ValueError then Inr (JObj []) else Inl e
                | Inr j \<Rightarrow> Inr j))"

definition merge_agent_daily_settings_into_file ::
  "'h box \<Rightarrow> pystr \<Rightarrow> pystr \<Rightarrow> pystr \<Rightarrow> int option \<Rightarrow> ('h computer, unit) act" where
  "merge_agent_daily_settings_into_file box dir wake bed allow =
     bind (gets (settings_in_file box dir))
       (\<lambda>found. bind (lift found)
         (\<lambda>j. case j of
            JObj d \<Rightarrow>
              (let d' = jset (jset (jset d ''wake_time'' (JStr wake)) ''bed_time'' (JStr bed))
                          ''allowance'' (json_opt_int allow)
               in bind (put_file dir (tmp_name INSTALL_CONFIG_FILE) (dumped d'))
                    (\<lambda>_. replace_file dir (tmp_name INSTALL_CONFIG_FILE) INSTALL_CONFIG_FILE))
          | _ \<Rightarrow> raising TypeError))"

definition grant_user_modify_on_dir :: "'h box \<Rightarrow> pystr \<Rightarrow> pystr \<Rightarrow> ('h computer, unit) act" where
  "grant_user_modify_on_dir box username dir =
     (if \<not> bx_win32 box then ret ()
      else bind (run_command box (Argv [lit ''icacls'', dir, lit ''/grant'', username @ lit '':(OI)(CI)M'', lit ''/T'', lit ''/Q'']))
             (\<lambda>_. ret ()))"

text \<open>Without an allowance the template reads a variable that was never assigned.\<close>

definition write_agent_daily_settings_via_powershell ::
  "'h box \<Rightarrow> pystr \<Rightarrow> pystr \<Rightarrow> pystr \<Rightarrow> int option \<Rightarrow> ('h computer, pystr option) act" where
  "write_agent_daily_settings_via_powershell box username wake bed allow =
     (case allow of
        None \<Rightarrow> raising (HostError (lit ''UnboundLocalError''))
      | Some minutes \<Rightarrow>
          except_subprocess
            (bind (run_command box (Argv (powershell (settings_script (escape_ps_single_quoted username)
                    (escape_ps_single_quoted wake) (escape_ps_single_quoted bed) (int_str minutes)))))
              (\<lambda>(status, stdout, _).
                 let out = splitlines (strip stdout) in
                 ret (if status \<noteq> 0 \<or> out = [] then None else Some (last out))))
            (ret None))"

definition write_program_data_daily_settings ::
  "pystr \<Rightarrow> pystr \<Rightarrow> pystr \<Rightarrow> int option \<Rightarrow> ('h computer, unit) act" where
  "write_program_data_daily_settings target_user wake bed allow =
     bind (put_file INSTALL_DIR_DEFAULT (tmp_name INSTALL_CONFIG_FILE)
        (Document (JObj [(lit ''target_user'', JStr target_user), (lit ''wake_time'', JStr wake),
           (lit ''bed_time'', JStr bed), (lit ''allowance'', json_opt_int allow)])))
       (\<lambda>_. replace_file INSTALL_DIR_DEFAULT (tmp_name INSTALL_CONFIG_FILE) INSTALL_CONFIG_FILE)"

definition write_agent_daily_settings_to_state ::
  "'h box \<Rightarrow> pystr \<Rightarrow> pystr \<Rightarrow> pystr \<Rightarrow> int option \<Rightarrow> bool \<Rightarrow> ('h computer, pystr option \<times> bool) act" where
  "write_agent_daily_settings_to_state box username wake bed allow same_user =
     bind (write_program_data_daily_settings username wake bed allow)
       (\<lambda>_. bind (agent_state_dir_for_user box username same_user)
         (\<lambda>dir.
            except_os
              (bind (merge_agent_daily_settings_into_file box dir wake bed allow)
                (\<lambda>_. bind (grant_user_modify_on_dir box username dir)
                  (\<lambda>_. ret (Some (under dir INSTALL_CONFIG_FILE), True))))
              (if same_user then ret (None, False)
               else
                 bind (write_agent_daily_settings_via_powershell box username wake bed allow)
                   (\<lambda>ps_path. case ps_path of
                      Some p \<Rightarrow>
                        bind (grant_user_modify_on_dir box username (dirname p)) (\<lambda>_. ret (Some p, True))
                    | None \<Rightarrow> ret (None, False)))))"

section \<open>The monitored account\<close>

definition validate_user_exists :: "'h box \<Rightarrow> pystr \<Rightarrow> ('h computer, bool) act" where
  "validate_user_exists box name =
     except_any
       (bind (run_command box (Argv (powershell (account_script name))))
         (\<lambda>(_, stdout, _). ret (occurs_in (lit ''OK'') stdout)))
       (ret False)"

text \<open>What is asked for when the name is that of the account that installs.\<close>

definition agrees :: "'h box \<Rightarrow> pystr \<Rightarrow> bool" where
  "agrees box choice \<longleftrightarrow> bx_lower box (strip choice) \<in> {lit ''y'', lit ''yes''}"

definition named_account :: "pystr option \<Rightarrow> pystr \<Rightarrow> pystr" where
  "named_account preset answer =
     (case preset of
        Some d \<Rightarrow> if strip answer = [] then d else strip answer
      | None \<Rightarrow> strip answer)"

fun target_from ::
  "'h box \<Rightarrow> pystr option \<Rightarrow> pystr list \<Rightarrow> 'h computer \<Rightarrow> pystr option res \<times> pystr list \<times> 'h computer" where
  "target_from box preset [] pc = (Inl eof_error, [], pc)"
| "target_from box preset (a # as) pc =
     (let name = named_account preset a in
      if name = [] then target_from box preset as pc
      else
        case validate_user_exists box name pc of
          (Inl e, pc') \<Rightarrow> (Inl e, as, pc')
        | (Inr there, pc') \<Rightarrow>
            if \<not> there
            then
              (case as of
                 [] \<Rightarrow> (Inl eof_error, [], pc')
               | retry # rest \<Rightarrow>
                   if bx_lower box (strip retry) \<noteq> lit ''y'' then (Inr None, rest, pc')
                   else target_from box None rest pc')
            else if bx_user box \<noteq> [] \<and> bx_lower box name = bx_lower box (bx_user box)
            then
              (case as of
                 [] \<Rightarrow> (Inl eof_error, [], pc')
               | choice # rest \<Rightarrow>
                   if agrees box choice then (Inr (Some name), rest, pc')
                   else target_from box preset rest pc')
            else (Inr (Some name), as, pc'))"

definition prompt_target_user :: "'h box \<Rightarrow> pystr option \<Rightarrow> ('h installer, pystr option) act" where
  "prompt_target_user box preset m =
     (case target_from box preset (in_answers m) (in_pc m) of
        (r, rest, pc) \<Rightarrow> (r, m\<lparr>in_answers := rest, in_pc := pc\<rparr>))"

end
