(* ===== verification/Installer_Flow.thy ===== *)
theory Installer_Flow
  imports Installer
begin

text \<open>
  The second part of \<open>src/scripts/install.py\<close>: the search for a Python, the copy of the
  program, the scheduled task with its fallback, the whole installation, and the updates,
  up to the script's own choice of what to do.
\<close>

section \<open>The interpreter\<close>

text \<open>\<open>text.replace(old, new)\<close>.\<close>

fun replace_text :: "pystr \<Rightarrow> pystr \<Rightarrow> pystr \<Rightarrow> pystr" where
  "replace_text old new [] = []"
| "replace_text old new (c # cs) =
     (if old \<noteq> [] \<and> starts_with old (c # cs) then new @ replace_text old new (drop (length old - 1) cs)
      else c # replace_text old new cs)"

definition PER_USER :: pystr where
  "PER_USER = [92] @ lit ''appdata'' @ [92] @ lit ''local''"

definition PYTHON_PATTERNS :: "pystr list" where
  "PYTHON_PATTERNS =
     [lit ''C:'' @ [92] @ lit ''Program Files'' @ [92] @ lit ''Python*'' @ [92] @ lit ''pythonw.exe'',
      lit ''C:'' @ [92] @ lit ''Program Files (x86)'' @ [92] @ lit ''Python*'' @ [92] @ lit ''pythonw.exe'',
      lit ''C:'' @ [92] @ lit ''Python*'' @ [92] @ lit ''pythonw.exe'']"

text \<open>The loop over the candidates; it returns at the first one that is left.\<close>

fun first_python :: "'h box \<Rightarrow> 'h computer \<Rightarrow> pystr list \<Rightarrow> pystr option" where
  "first_python box pc [] = None"
| "first_python box pc (path # paths) =
     (if occurs_in PER_USER (bx_lower box path) then first_python box pc paths
      else if \<not> bx_exists box path pc then first_python box pc paths
      else Some path)"

definition on_path :: "'h box \<Rightarrow> ('h computer, pystr list) act" where
  "on_path box =
     except_any
       (bind (run_command box (Argv [lit ''where'', lit ''pythonw.exe'']))
         (\<lambda>(status, stdout, _).
            ret (if status = 0 then filter (\<lambda>l. l \<noteq> []) (map strip (splitlines stdout)) else [])))
       (ret [])"

definition find_system_python :: "'h box \<Rightarrow> ('h computer, pystr option) act" where
  "find_system_python box =
     bind (on_path box)
       (\<lambda>candidates.
          gets (\<lambda>pc. first_python box pc (candidates @ concat (map (\<lambda>p. bx_glob box p pc) PYTHON_PATTERNS))))"

section \<open>Copying the program\<close>

text \<open>\<open>shutil.rmtree\<close>: file by file; a file that is in use ends it.\<close>

fun remove_files :: "(pystr \<Rightarrow> bool) \<Rightarrow> (pystr \<times> pystr) list \<Rightarrow> unit res \<times> (pystr \<times> pystr) list" where
  "remove_files in_use [] = (Inr (), [])"
| "remove_files in_use (f # fs) = (if in_use (fst f) then (Inl os_error, f # fs) else remove_files in_use fs)"

definition remove_package :: "('h computer, unit) act" where
  "remove_package pc =
     (case remove_files (co_in_use pc) (co_package pc) of (r, left) \<Rightarrow> (r, pc\<lparr>co_package := left\<rparr>))"

definition write_beside :: "pystr \<Rightarrow> pystr \<Rightarrow> ('h computer, unit) act" where
  "write_beside n text pc =
     (if co_write_fault pc INSTALL_DIR_DEFAULT n then (Inl os_error, pc)
      else (Inr (), pc\<lparr>co_beside := (co_beside pc)(n \<mapsto> text)\<rparr>))"

definition LAUNCHER_FILE :: pystr where
  "LAUNCHER_FILE = lit ''pc_control.py''"

definition install_to_programdata :: "'h box \<Rightarrow> pystr \<Rightarrow> (pystr \<times> pystr) list \<Rightarrow> ('h computer, pystr) act" where
  "install_to_programdata box target_user package =
     bind remove_package
       (\<lambda>_. bind (modify (\<lambda>pc. pc\<lparr>co_package := package\<rparr>))
         (\<lambda>_. bind (write_beside LAUNCHER_FILE AGENT_LAUNCHER)
           (\<lambda>_. bind
              (case bx_requirements box of
                 None \<Rightarrow> ret ()
               | Some req \<Rightarrow> except_any (write_beside (lit ''requirements.txt'') req) (ret ()))
              (\<lambda>_. bind (run_command box (Argv [lit ''icacls'', INSTALL_DIR_DEFAULT, lit ''/grant'',
                     target_user @ lit '':(OI)(CI)RX'', lit ''/T'', lit ''/Q'']))
                (\<lambda>_. ret (under INSTALL_DIR_DEFAULT LAUNCHER_FILE))))))"

section \<open>The scheduled task\<close>

definition quoted :: "pystr \<Rightarrow> pystr" where
  "quoted s = 34 # s @ [34]"

definition create_task_with_power_settings ::
  "'h box \<Rightarrow> pystr \<Rightarrow> pystr \<Rightarrow> pystr \<Rightarrow> ('h installer, bool) act" where
  "create_task_with_power_settings box target_user script_path python_path =
     bind (typing read_line)
       (\<lambda>confirm.
          if bx_lower box confirm \<noteq> lit ''y'' then ret False
          else
            on_pc (except_any
              (bind (run_command box (Argv [lit ''powershell'', lit ''-ExecutionPolicy'', lit ''Bypass'', lit ''-Command'',
                     task_script TASK_NAME python_path script_path
                       (task_triggers (bx_computer_name box) target_user)
                       (task_principal (bx_computer_name box) target_user)]))
                (\<lambda>(status, _).
                   if status = 0
                   then bind (run_command box (Shell_line (lit ''schtasks /query /tn '' @ quoted TASK_NAME)))
                          (\<lambda>(status, _). ret (status = 0))
                   else ret False))
              (ret False)))"

definition verify_task_settings :: "'h box \<Rightarrow> pystr \<Rightarrow> ('h computer, unit) act" where
  "verify_task_settings box task_name =
     bind (run_command box (Shell_line (lit ''schtasks /query /tn '' @ quoted task_name @ lit '' /xml''))) (\<lambda>_. ret ())"

definition create_task_simple_schtasks ::
  "'h box \<Rightarrow> pystr \<Rightarrow> pystr \<Rightarrow> pystr \<Rightarrow> ('h computer, bool) act" where
  "create_task_simple_schtasks box target_user script_path python_path =
     (let user_id = bx_computer_name box @ 92 # target_user in
      except_any
        (bind (modify (\<lambda>pc. pc\<lparr>co_task_config :=
                 Some (task_xml python_path script_path (logon_trigger user_id) (xml_principal user_id))\<rparr>))
          (\<lambda>_. bind (run_command box (Shell_line (lit ''schtasks /create /tn '' @ quoted TASK_NAME @ lit '' /xml ''
                    @ quoted (lit ''task_config.xml'') @ lit '' /f'')))
            (\<lambda>(status, _). bind (modify (\<lambda>pc. pc\<lparr>co_task_config := None\<rparr>))
              (\<lambda>_. if status = 0 then bind (verify_task_settings box TASK_NAME) (\<lambda>_. ret True) else ret False))))
        (ret False))"

section \<open>The installation\<close>

definition store_of :: "'h box \<Rightarrow> store_config" where
  "store_of box = \<lparr>user_name = bx_user box, fold_case = bx_lower box, has_program_data = bx_win32 box\<rparr>"

text \<open>\<open>find_complete_daily_settings\<close> of \<open>agent_state.py\<close>, over the files there are.\<close>

fun find_complete_daily_settings :: "path list \<Rightarrow> disk \<Rightarrow> (daily_settings \<times> path) option" where
  "find_complete_daily_settings [] d = None"
| "find_complete_daily_settings (p # ps) d =
     (case fst (read_json p d) of
        Inr (Some data) \<Rightarrow>
          if \<not> is_complete_daily_dict data then find_complete_daily_settings ps d
          else (case load_daily_from_dict data of
                  Inr daily \<Rightarrow> Some (daily, p)
                | Inl _ \<Rightarrow> find_complete_daily_settings ps d)
      | _ \<Rightarrow> find_complete_daily_settings ps d)"

definition settings_places :: "'h box \<Rightarrow> path list" where
  "settings_places box = daily_path # (if bx_win32 box then [program_data_daily_path] else [])"

text \<open>The schedule of an earlier installation, or the one that is typed.\<close>

definition choose_schedule ::
  "(daily_settings \<times> path) option \<Rightarrow> (pystr list, pystr \<times> pystr \<times> int option) act" where
  "choose_schedule existing =
     (case existing of
        Some (daily, _) \<Rightarrow>
          (case bed_time daily of
             None \<Rightarrow> raising AttributeError
           | Some bed \<Rightarrow> ret (format_hhmm (wake_time daily), format_hhmm bed, allowance daily))
      | None \<Rightarrow>
          bind prompt_bed_time
            (\<lambda>bed. bind prompt_wake_up_time
              (\<lambda>wake. bind prompt_daily_allowance (\<lambda>allow. ret (wake, bed, allow)))))"

definition python_for :: "'h box \<Rightarrow> bool \<Rightarrow> pystr option \<Rightarrow> pystr option" where
  "python_for box is_self found =
     (case found of
        Some p \<Rightarrow> if p \<noteq> [] then Some p
                  else if is_self then Some (replace_text (lit ''python.exe'') (lit ''pythonw.exe'') (bx_executable box))
                  else None
      | None \<Rightarrow> if is_self then Some (replace_text (lit ''python.exe'') (lit ''pythonw.exe'') (bx_executable box))
                 else None)"

text \<open>The hidden prompt for the shared secret; \<open>random\<close> are the bytes the cipher takes.\<close>

definition ask_for_secret :: "'h box \<Rightarrow> bytes \<Rightarrow> ('h installer, unit) act" where
  "ask_for_secret box random =
     bind (\<lambda>m. (Inr (in_hidden m), m\<lparr>in_hidden := []\<rparr>))
       (\<lambda>answers. bind (on_pc (zoom co_vault (\<lambda>v pc. pc\<lparr>co_vault := v\<rparr>)
             (prompt_and_store_shared_secret (bx_cipher box) random (bx_account box) answers)))
         (\<lambda>_. ret ()))"

text \<open>From the copying on: what is done for the account that was chosen.\<close>

definition install_for ::
  "'h box \<Rightarrow> bytes \<Rightarrow> pystr \<Rightarrow> bool \<Rightarrow> pystr \<Rightarrow> (pystr \<times> pystr) list \<Rightarrow> ('h installer, bool) act" where
  "install_for box random user is_self python package =
     bind (on_pc (install_to_programdata box user package))
       (\<lambda>script. bind (on_pc (agent_state_dir_for_user box user is_self))
         (\<lambda>dir. bind (gets (\<lambda>m. find_complete_daily_settings (settings_places box)
                                  (agent_disk (bx_program_data box) dir (in_pc m))))
           (\<lambda>existing. bind (typing (choose_schedule existing))
             (\<lambda>(wake, bed, allow).
                bind (on_pc (write_agent_daily_settings_to_state box user wake bed allow is_self))
               (\<lambda>_. bind (ask_for_secret box random)
                 (\<lambda>_. bind (create_task_with_power_settings box user script python)
                   (\<lambda>ok. if ok then ret True
                      else on_pc (create_task_simple_schtasks box user script python))))))))"

definition run_install_flow :: "'h box \<Rightarrow> bytes \<Rightarrow> ('h installer, bool) act" where
  "run_install_flow box random =
     bind (gets (\<lambda>m. fst (program_data_target_user (store_of box) (agent_disk (bx_program_data box) [] (in_pc m)))))
       (\<lambda>r. bind (lift r)
         (\<lambda>existing. bind (prompt_target_user box existing)
           (\<lambda>target. case target of
              None \<Rightarrow> ret False
            | Some user \<Rightarrow>
                if user = [] then ret False
                else
                  let is_self = bx_user box \<noteq> [] \<and> bx_lower box user = bx_lower box (bx_user box) in
                  bind (on_pc (find_system_python box))
                    (\<lambda>found. case python_for box is_self found of
                       None \<Rightarrow> ret False
                     | Some python \<Rightarrow>
                         (case bx_package box of
                            None \<Rightarrow> ret False
                          | Some package \<Rightarrow> install_for box random user is_self python package)))))"

section \<open>Updates and removal\<close>

definition git_pull_repo :: "'h box \<Rightarrow> ('h computer, bool) act" where
  "git_pull_repo box =
     except_os
       (except_subprocess
         (bind (run_command box (Argv [lit ''git'', lit ''-C'', bx_repo_root box, lit ''pull'', lit ''--ff-only'']))
           (\<lambda>(status, _). ret (status = 0)))
         (ret False))
       (ret False)"

definition redeploy_agent :: "'h box \<Rightarrow> ('h computer, bool) act" where
  "redeploy_agent box =
     bind (gets (\<lambda>pc. fst (program_data_target_user (store_of box) (agent_disk (bx_program_data box) [] pc))))
       (\<lambda>r. bind (lift r)
         (\<lambda>target. case target of
            None \<Rightarrow> ret False
          | Some user \<Rightarrow>
              (case bx_package box of
                 None \<Rightarrow> ret False
               | Some package \<Rightarrow>
                   bind (run_command box (Shell_line (lit ''schtasks /end /tn '' @ quoted TASK_NAME)))
                     (\<lambda>_. bind (install_to_programdata box user package)
                       (\<lambda>_. bind (run_command box (Shell_line (lit ''schtasks /run /tn '' @ quoted TASK_NAME)))
                         (\<lambda>_. ret True))))))"

definition remove_agent_firewall_rule :: "'h box \<Rightarrow> ('h computer, bool) act" where
  "remove_agent_firewall_rule box =
     except_any
       (bind (run_command box (Argv (powershell
           (firewall_rule_script (escape_ps_single_quoted FIREWALL_RULE_DISPLAY_NAME)))))
         (\<lambda>(status, _). ret (status = 0)))
       (ret False)"

definition remove_task :: "'h box \<Rightarrow> ('h computer, unit) act" where
  "remove_task box =
     bind (run_command box (Shell_line (lit ''schtasks /delete /tn '' @ quoted TASK_NAME @ lit '' /f'')))
       (\<lambda>_. bind (remove_agent_firewall_rule box) (\<lambda>_. ret ()))"

definition enable_auto_update :: "'h box \<Rightarrow> ('h computer, bool) act" where
  "enable_auto_update box =
     bind (find_system_python box)
       (\<lambda>found.
          let python_path = (case found of Some p \<Rightarrow> if p \<noteq> [] then p else bx_executable box | None \<Rightarrow> bx_executable box);
              repo = bx_repo_root box;
              script = under (under repo (lit ''scripts'')) (lit ''install.py'')
          in bind (except_os (except_subprocess
                 (bind (run_command box (Argv [lit ''git'', lit ''config'', lit ''--system'', lit ''--add'',
                      lit ''safe.directory'', repo])) (\<lambda>_. ret ()))
                 (ret ())) (ret ()))
               (\<lambda>_. bind (run_command box (Argv (powershell (update_task_script python_path script repo))))
                 (\<lambda>(status, stdout, _). ret (status = 0 \<and> occurs_in (lit ''SUCCESS'') stdout))))"

definition disable_auto_update :: "'h box \<Rightarrow> ('h computer, bool) act" where
  "disable_auto_update box =
     bind (run_command box (Shell_line (lit ''schtasks /delete /tn '' @ quoted AUTO_UPDATE_TASK_NAME @ lit '' /f'')))
       (\<lambda>_. ret True)"

record arguments =
  ar_update :: bool
  ar_pull :: bool
  ar_enable_auto_update :: bool
  ar_disable_auto_update :: bool

definition exit_code :: "bool \<Rightarrow> int" where
  "exit_code ok = (if ok then 0 else 1)"

definition install_main :: "'h box \<Rightarrow> bytes \<Rightarrow> arguments \<Rightarrow> ('h installer, int) act" where
  "install_main box random args =
     (let non_interactive = ar_update args \<or> ar_enable_auto_update args \<or> ar_disable_auto_update args in
      if \<not> bx_admin box
      then bind (if non_interactive then ret [] else typing read_line) (\<lambda>_. ret 1)
      else if ar_disable_auto_update args then bind (on_pc (disable_auto_update box)) (\<lambda>ok. ret (exit_code ok))
      else if ar_enable_auto_update args then bind (on_pc (enable_auto_update box)) (\<lambda>ok. ret (exit_code ok))
      else if ar_update args
      then
        bind (if ar_pull args then on_pc (git_pull_repo box) else ret True)
          (\<lambda>_. bind (on_pc (redeploy_agent box)) (\<lambda>ok. ret (exit_code ok)))
      else
        bind (typing read_line)
          (\<lambda>choice. bind
             (if strip choice = lit ''1'' then bind (run_install_flow box random) (\<lambda>_. ret ())
              else if strip choice = lit ''2'' then on_pc (remove_task box)
              else ret ())
             (\<lambda>_. bind (typing read_line) (\<lambda>_. ret 0))))"

end
