(* ===== verification/Installed_Schedule.thy ===== *)
theory Installed_Schedule
  imports Installer_Flow
begin

text \<open>
  What an installation leaves for the agent: the schedule that was typed is the one the agent
  starts with, whichever directory of the child's profile could be written.
\<close>

section \<open>Commands and settings files\<close>

definition same_settings :: "'h computer \<Rightarrow> 'h computer \<Rightarrow> bool" where
  "same_settings pc pc' \<longleftrightarrow> co_files pc' = co_files pc"

definition pc_settings :: "'h installer \<Rightarrow> 'h installer \<Rightarrow> bool" where
  "pc_settings m m' \<longleftrightarrow> same_settings (in_pc m) (in_pc m')"

text \<open>
  One of the commands the installer runs is the script that writes the schedule through
  PowerShell, tried when the direct write fails; its last line tells it from the others,
  which do not touch settings files.
\<close>

definition ends_with :: "pystr \<Rightarrow> pystr \<Rightarrow> bool" where
  "ends_with s x \<longleftrightarrow> drop (length x - length s) x = s"

fun runs_settings_script :: "os_command \<Rightarrow> bool" where
  "runs_settings_script (Shell_line l) = False"
| "runs_settings_script (Argv as) =
     (as = powershell (last as) \<and> ends_with (lit ''    Write-Output $dailyPath'' @ 10 # lit ''    '') (last as))"

definition quiet :: "'h box \<Rightarrow> bool" where
  "quiet box \<longleftrightarrow> (\<forall>c pc. \<not> runs_settings_script c \<longrightarrow> same_settings pc (snd (bx_run box c pc)))"

interpretation on_computer: step_relation same_settings
  by unfold_locales (auto simp: same_settings_def)

interpretation on_installer: step_relation pc_settings
  by unfold_locales (auto simp: pc_settings_def same_settings_def)

lemma keeps_prod: "(\<And>a b. keeps R (f a b)) \<Longrightarrow> keeps R (case p of (a, b) \<Rightarrow> f a b)"
  by (cases p) simp

lemma ends_with_iff: "ends_with s x \<longleftrightarrow> (\<exists>z. x = z @ s)"
proof
  assume "ends_with s x"
  then have "x = take (length x - length s) x @ s" unfolding ends_with_def by (metis append_take_drop_id)
  then show "\<exists>z. x = z @ s" ..
qed (auto simp: ends_with_def)

lemma ends_with_intros: "ends_with s s" "ends_with s y \<Longrightarrow> ends_with s (x @ y)" "ends_with s y \<Longrightarrow> ends_with s (c # y)"
  by (force simp: ends_with_iff)+

lemma two_ends: "ends_with s x \<Longrightarrow> ends_with t x \<Longrightarrow> length t \<le> length s \<Longrightarrow> ends_with t s"
  by (auto simp: ends_with_iff append_eq_append_conv2)

lemma powershell_last [simp]: "last (powershell x) = x"
  by (simp add: powershell_def)

lemma commands_told_apart:
  "runs_settings_script (Argv (powershell (settings_script u w b l)))"
  "\<not> runs_settings_script (Argv (powershell (account_script u)))"
  "\<not> runs_settings_script (Argv (powershell (profile_script u)))"
  "\<not> runs_settings_script (Argv (lit ''icacls'' # ps))" "\<not> runs_settings_script (Argv (lit ''where'' # ps))"
  "\<not> runs_settings_script (Argv (lit ''powershell'' # lit ''-ExecutionPolicy'' # ps))"
proof -
  show "runs_settings_script (Argv (powershell (settings_script u w b l)))"
    unfolding runs_settings_script.simps powershell_last settings_script_def unlines.simps
    by (intro conjI refl ends_with_intros)
  have "ends_with (39 # 10 # lit ''    '') (profile_script u)"
    unfolding profile_script_def unlines.simps append_assoc append_Cons append_Nil by (intro ends_with_intros)
  from two_ends [OF _ this, of "lit ''    Write-Output $dailyPath'' @ 10 # lit ''    ''"]
  show "\<not> runs_settings_script (Argv (powershell (profile_script u)))"
    by (auto simp: ends_with_def lit_def)
  have "ends_with (39 # lit '' }'') (account_script u)"
    unfolding account_script_def append_assoc append_Cons append_Nil by (intro ends_with_intros)
  from two_ends [OF _ this, of "lit ''    Write-Output $dailyPath'' @ 10 # lit ''    ''"]
  show "\<not> runs_settings_script (Argv (powershell (account_script u)))"
    by (auto simp: ends_with_def lit_def)
qed (simp_all add: powershell_def lit_def)

lemma run_command_keeps: "quiet box \<Longrightarrow> \<not> runs_settings_script c \<Longrightarrow> keeps same_settings (run_command box c)"
  by (auto simp: keeps_def run_command_def quiet_def split: prod.split completed.split)
    (metis snd_conv)+

lemma on_pc_keeps: "keeps same_settings a \<Longrightarrow> keeps pc_settings (on_pc a)"
  by (auto simp: keeps_def on_pc_def zoom_def pc_settings_def split: prod.split) (metis snd_conv)

lemma typing_keeps: "keeps pc_settings (typing a)"
  by (auto simp: keeps_def typing_def zoom_def pc_settings_def same_settings_def split: prod.split)

lemma except_keeps:
  "keeps same_settings a \<Longrightarrow> keeps same_settings h \<Longrightarrow> keeps same_settings (except_any a h)"
  "keeps same_settings a \<Longrightarrow> keeps same_settings h \<Longrightarrow> keeps same_settings (except_subprocess a h)"
  "keeps same_settings a \<Longrightarrow> keeps same_settings h \<Longrightarrow> keeps same_settings (except_os a h)"
  unfolding except_any_def except_subprocess_def except_os_def
  by (auto intro!: on_computer.keeps_try split: if_splits exn.splits)

lemma remove_package_keeps: "keeps same_settings remove_package"
  by (auto simp: keeps_def remove_package_def same_settings_def split: prod.split)

lemma write_beside_keeps: "keeps same_settings (write_beside n t)"
  by (simp add: keeps_def write_beside_def same_settings_def)

lemmas pc_rules = on_computer.keeps_rules run_command_keeps except_keeps keeps_prod remove_package_keeps
  write_beside_keeps commands_told_apart runs_settings_script.simps(1) [THEN eq_False [THEN iffD1]]

lemma find_python_keeps: "quiet box \<Longrightarrow> keeps same_settings (find_system_python box)"
  unfolding find_system_python_def on_path_def by (intro pc_rules)

lemma install_to_programdata_keeps: "quiet box \<Longrightarrow> keeps same_settings (install_to_programdata box user package)"
  unfolding install_to_programdata_def by (intro pc_rules) (auto simp: same_settings_def)

lemma state_dir_keeps: "quiet box \<Longrightarrow> keeps same_settings (agent_state_dir_for_user box user same)"
  unfolding agent_state_dir_for_user_def resolve_user_localappdata_dir_def Let_def by (intro pc_rules)

lemma grant_keeps: "quiet box \<Longrightarrow> keeps same_settings (grant_user_modify_on_dir box user dir)"
  unfolding grant_user_modify_on_dir_def by (intro pc_rules)

lemma validate_keeps: "quiet box \<Longrightarrow> keeps same_settings (validate_user_exists box name)"
  unfolding validate_user_exists_def by (intro pc_rules)

lemma simple_task_keeps: "quiet box \<Longrightarrow> keeps same_settings (create_task_simple_schtasks box user script python)"
  unfolding create_task_simple_schtasks_def verify_task_settings_def Let_def
  by (intro pc_rules) (auto simp: same_settings_def)

lemma task_keeps: "quiet box \<Longrightarrow> keeps pc_settings (create_task_with_power_settings box user script python)"
  unfolding create_task_with_power_settings_def
  by (intro on_installer.keeps_rules typing_keeps on_pc_keeps pc_rules)

lemma secret_keeps: "keeps pc_settings (ask_for_secret box random)"
  unfolding ask_for_secret_def
  by (intro on_installer.keeps_rules on_pc_keeps)
    (auto simp: keeps_def zoom_def pc_settings_def same_settings_def split: prod.split)


lemma target_keeps: "quiet box \<Longrightarrow> same_settings pc (snd (snd (target_from box preset as pc)))"
proof (induction box preset as pc rule: target_from.induct)
  case (2 box preset a as pc)
  let ?name = "named_account preset a"
  obtain r pc' where v: "validate_user_exists box ?name pc = (r, pc')" by fastforce
  have q: "same_settings pc pc'"
    using validate_keeps [OF 2(4), of ?name] v unfolding keeps_def by (metis snd_conv)
  show ?case
  proof (cases r)
    case (Inl e)
    then show ?thesis using 2(1) [OF refl _ 2(4)] q by (simp add: v Let_def)
  next
    case (Inr there)
    note v' = v [unfolded Inr]
    show ?thesis
      using 2(1) [OF refl _ 2(4)] 2(2) [OF refl _ v' [symmetric] refl _ _ _ 2(4)]
        2(3) [OF refl _ v' [symmetric] refl _ _ _ _ 2(4)] q on_computer.trans [OF q]
      by (cases as) (auto simp: v' Let_def)
  qed
qed (simp add: on_computer.refl)

lemma prompt_target_keeps: "quiet box \<Longrightarrow> keeps pc_settings (prompt_target_user box preset)"
  using target_keeps [of box] by (auto simp: keeps_def prompt_target_user_def pc_settings_def split: prod.split) (metis snd_conv)

section \<open>The schedule in the files\<close>

text \<open>A dictionary that holds the schedule, for this account or for any.\<close>

definition holds_schedule :: "pystr \<Rightarrow> daily_settings \<Rightarrow> contents option \<Rightarrow> bool" where
  "holds_schedule user s c \<longleftrightarrow>
     (\<exists>d. c = Some (Document (JObj d)) \<and> finite_json (JObj d) \<and> load_daily_from_dict d = Inr s
        \<and> jget d ''target_user'' \<in> {JNull, JStr user})"

definition schedule_texts :: "daily_settings \<Rightarrow> pystr \<Rightarrow> pystr \<Rightarrow> int option \<Rightarrow> bool" where
  "schedule_texts s wake bed allow \<longleftrightarrow>
     valid_daily s \<and> wake = format_hhmm (wake_time s) \<and> bed_time s \<noteq> None
     \<and> bed = format_hhmm (the (bed_time s)) \<and> allow = allowance s"

lemma load_of_texts:
  assumes "schedule_texts s wake bed allow" and "jget d ''wake_time'' = JStr wake" and "jhas d ''wake_time''"
    and "jget d ''bed_time'' = JStr bed" and "jget d ''allowance'' = json_opt_int allow"
  shows "load_daily_from_dict d = Inr s"
proof -
  obtain b where "bed_time s = Some b" "valid_time b" "valid_time (wake_time s)"
    using assms(1) by (auto simp: schedule_texts_def valid_daily_def)
  moreover have "JStr (format_hhmm t) \<noteq> JStr []" for t by (simp add: format_hhmm_def)
  ultimately show ?thesis
    using assms
    by (cases "allowance s")
      (auto simp: load_daily_from_dict_def schedule_texts_def as_time_def parse_format_hhmm as_nonneg_int_JInt
        valid_daily_def json_opt_int_def)
qed

text \<open>The settings files of every directory, before and after.\<close>

definition at_most_schedule :: "pystr \<Rightarrow> daily_settings \<Rightarrow> (pystr \<Rightarrow> pystr \<Rightarrow> contents option) \<Rightarrow> bool" where
  "at_most_schedule user s fs \<longleftrightarrow>
     (\<forall>h n. n \<notin> {INSTALL_CONFIG_FILE, tmp_name INSTALL_CONFIG_FILE} \<longrightarrow> fs h n = None)
     \<and> (\<forall>h. fs h INSTALL_CONFIG_FILE = None \<or> holds_schedule user s (fs h INSTALL_CONFIG_FILE))"

lemma tmp_name_other [simp]: "tmp_name n \<noteq> n" "n \<noteq> tmp_name n"
  by (simp_all add: tmp_name_def lit_def)

text \<open>Writing a file beside its place and moving it there.\<close>

lemma write_and_move:
  assumes "bind (put_file dir (tmp_name n) c) (\<lambda>_. replace_file dir (tmp_name n) n) pc = (r, pc')"
  shows "co_files pc' h k = co_files pc h k \<or> (h = dir \<and> k \<in> {n, tmp_name n})"
    and "co_files pc' dir n \<in> {co_files pc dir n, Some c}"
    and "r = Inr () \<Longrightarrow> co_files pc' dir n = Some c"
  using assms
  by (auto simp: bind_def put_file_def replace_file_def split: if_splits option.splits)

lemma program_data_written:
  assumes "write_program_data_daily_settings user wake bed allow pc = (Inr (), pc')"
    and "schedule_texts s wake bed allow" and "co_files pc = (\<lambda>_ _. None)"
  shows "at_most_schedule user s (co_files pc') \<and> holds_schedule user s (co_files pc' INSTALL_DIR_DEFAULT INSTALL_CONFIG_FILE)"
proof -
  let ?d = "[(lit ''target_user'', JStr user), (lit ''wake_time'', JStr wake),
           (lit ''bed_time'', JStr bed), (lit ''allowance'', json_opt_int allow)]"
  note w = write_and_move [OF assms(1) [unfolded write_program_data_daily_settings_def]]
  have "load_daily_from_dict ?d = Inr s"
    by (rule load_of_texts [OF assms(2)]) (simp_all add: jget_def jhas_def lit_def)
  then have h: "holds_schedule user s (Some (Document (JObj ?d)))"
    by (cases allow) (simp_all add: holds_schedule_def jget_def json_opt_int_def)
  have "co_files pc' h n = None" if "n \<notin> {INSTALL_CONFIG_FILE, tmp_name INSTALL_CONFIG_FILE}" for h n
    using w(1) [of h n] that assms(3) by auto
  moreover have "co_files pc' h INSTALL_CONFIG_FILE = None" if "h \<noteq> INSTALL_DIR_DEFAULT" for h
    using w(1) [of h INSTALL_CONFIG_FILE] that assms(3) by simp
  ultimately show ?thesis using w(3) h unfolding at_most_schedule_def by metis
qed


lemma finite_jset: "finite_json (JObj d) \<Longrightarrow> finite_json v \<Longrightarrow> finite_json (JObj (jset d k v))"
  unfolding jset_def by (induction d) auto

lemma finite_opt_int [simp]: "finite_json (json_opt_int x)"
  by (cases x) (simp_all add: json_opt_int_def)

text \<open>What \<open>json.loads\<close> makes of a document: the document, or an error for a byte-order mark.\<close>

definition plain_reader :: "'h box \<Rightarrow> bool" where
  "plain_reader box \<longleftrightarrow> (\<forall>j. bx_plain_json box (Document j) \<in> {Inr j, Inl ValueError})"

lemma found_settings:
  assumes "at_most_schedule user s (co_files pc)" and "plain_reader box"
  obtains d where "settings_in_file box dir pc = Inr (JObj d)" "finite_json (JObj d)"
    "jget d ''target_user'' \<in> {JNull, JStr user}"
proof (cases "co_files pc dir INSTALL_CONFIG_FILE")
  case None
  then show ?thesis by (intro that [of "[]"]) (simp_all add: settings_in_file_def jget_def)
next
  case (Some c)
  then obtain d where d: "c = Document (JObj d)" "finite_json (JObj d)" "jget d ''target_user'' \<in> {JNull, JStr user}"
    using assms(1) unfolding at_most_schedule_def holds_schedule_def by (metis option.distinct(1) option.inject)
  have "bx_plain_json box c \<in> {Inr (JObj d), Inl ValueError}" using assms(2) d(1) by (simp add: plain_reader_def)
  then have "settings_in_file box dir pc \<in> {Inr (JObj d), Inr (JObj [])}"
    using Some by (auto simp: settings_in_file_def)
  then show ?thesis using that [of d] that [of "[]"] d(2,3) by (auto simp: jget_def)
qed

lemma merge_writes:
  assumes "merge_agent_daily_settings_into_file box dir wake bed allow pc = (r, pc')"
    and "at_most_schedule user s (co_files pc)" and "plain_reader box" and "schedule_texts s wake bed allow"
  shows "at_most_schedule user s (co_files pc')
    \<and> (co_files pc h INSTALL_CONFIG_FILE \<noteq> None \<longrightarrow> co_files pc' h INSTALL_CONFIG_FILE \<noteq> None)"
proof -
  obtain d where d: "settings_in_file box dir pc = Inr (JObj d)" "finite_json (JObj d)"
    "jget d ''target_user'' \<in> {JNull, JStr user}" by (rule found_settings [OF assms(2,3)])
  define d' where "d' = jset (jset (jset d ''wake_time'' (JStr wake)) ''bed_time'' (JStr bed)) ''allowance'' (json_opt_int allow)"
  have f: "finite_json (JObj d')" unfolding d'_def by (intro finite_jset d(2)) simp_all
  have "load_daily_from_dict d' = Inr s"
    by (rule load_of_texts [OF assms(4)]) (simp_all add: d'_def)
  then have h: "holds_schedule user s (Some (dumped d'))"
    using d(3) f by (auto simp: holds_schedule_def dumped_def d'_def)
  have m: "bind (put_file dir (tmp_name INSTALL_CONFIG_FILE) (dumped d'))
      (\<lambda>_. replace_file dir (tmp_name INSTALL_CONFIG_FILE) INSTALL_CONFIG_FILE) pc = (r, pc')"
    using assms(1) d(1) by (simp add: merge_agent_daily_settings_into_file_def d'_def)
  note w = write_and_move [OF m]
  have other: "co_files pc' h n = co_files pc h n"
    if "h \<noteq> dir \<or> n \<notin> {INSTALL_CONFIG_FILE, tmp_name INSTALL_CONFIG_FILE}" for h n
    using w(1) [of h n] that by auto
  have "co_files pc' h INSTALL_CONFIG_FILE \<in> {co_files pc h INSTALL_CONFIG_FILE, Some (dumped d')}" for h
    using w(2) other [of h INSTALL_CONFIG_FILE] by (cases "h = dir") auto
  then show ?thesis
    using assms(2) h other unfolding at_most_schedule_def
    by (intro conjI allI impI) (metis insertE singletonD option.distinct(1))+
qed

lemma same_settings_files: "same_settings pc pc' \<Longrightarrow> co_files pc' = co_files pc"
  by (simp add: same_settings_def)

section \<open>The whole installation\<close>

text \<open>
  Once the schedule is in ProgramData, nothing the installer does afterwards takes it away.
  What the script does in the child's profile is PowerShell's doing: it may leave the
  schedule there, or a text that is no JSON for the agent (\<open>Set-Content -Encoding UTF8\<close> of
  Windows PowerShell puts a byte-order mark in front of it), or nothing.
\<close>

definition scheduled :: "pystr \<Rightarrow> daily_settings \<Rightarrow> 'h computer \<Rightarrow> bool" where
  "scheduled user s pc \<longleftrightarrow>
     at_most_schedule user s (co_files pc) \<and> co_files pc INSTALL_DIR_DEFAULT INSTALL_CONFIG_FILE \<noteq> None"

definition loosely_scheduled :: "pystr \<Rightarrow> daily_settings \<Rightarrow> 'h computer \<Rightarrow> bool" where
  "loosely_scheduled user s pc \<longleftrightarrow>
     (\<forall>h n. n \<notin> {INSTALL_CONFIG_FILE, tmp_name INSTALL_CONFIG_FILE} \<longrightarrow> co_files pc h n = None)
     \<and> (\<forall>h. co_files pc h INSTALL_CONFIG_FILE \<in> {None, Some NotJson}
            \<or> holds_schedule user s (co_files pc h INSTALL_CONFIG_FILE))
     \<and> holds_schedule user s (co_files pc INSTALL_DIR_DEFAULT INSTALL_CONFIG_FILE)"

definition left_by_script :: "pystr \<Rightarrow> daily_settings \<Rightarrow> 'h computer \<Rightarrow> 'h computer \<Rightarrow> bool" where
  "left_by_script user s pc pc' \<longleftrightarrow>
     co_files pc' = co_files pc
     \<or> (\<exists>dir c. dir \<noteq> INSTALL_DIR_DEFAULT \<and> (c = NotJson \<or> holds_schedule user s (Some c))
          \<and> co_files pc' = (co_files pc)(dir := (co_files pc dir)(INSTALL_CONFIG_FILE \<mapsto> c)))"

definition script_writes :: "'h box \<Rightarrow> pystr \<Rightarrow> daily_settings \<Rightarrow> bool" where
  "script_writes box user s \<longleftrightarrow>
     (\<forall>wake bed minutes pc. schedule_texts s wake bed (Some minutes) \<longrightarrow>
        left_by_script user s pc (snd (bx_run box (Argv (powershell (settings_script (escape_ps_single_quoted user)
          (escape_ps_single_quoted wake) (escape_ps_single_quoted bed) (int_str minutes)))) pc)))"

definition stays_scheduled :: "pystr \<Rightarrow> daily_settings \<Rightarrow> 'h computer \<Rightarrow> 'h computer \<Rightarrow> bool" where
  "stays_scheduled user s pc pc' \<longleftrightarrow>
     (scheduled user s pc \<longrightarrow> scheduled user s pc') \<and> (loosely_scheduled user s pc \<longrightarrow> loosely_scheduled user s pc')"

lemma scheduled_loosely: "scheduled user s pc \<Longrightarrow> loosely_scheduled user s pc"
  unfolding scheduled_def loosely_scheduled_def at_most_schedule_def by (metis insertCI)

lemma unchanged_stays: "same_settings pc pc' \<Longrightarrow> stays_scheduled user s pc pc'"
  by (simp add: stays_scheduled_def scheduled_def loosely_scheduled_def same_settings_def)

lemma merge_scheduled:
  assumes "plain_reader box" and "schedule_texts s wake bed allow" and "scheduled user s pc"
    and "merge_agent_daily_settings_into_file box dir wake bed allow pc = (r, pc')"
  shows "scheduled user s pc'"
  using merge_writes [OF assms(4) _ assms(1,2)] assms(3) by (auto simp: scheduled_def)

definition stays_loose :: "pystr \<Rightarrow> daily_settings \<Rightarrow> 'h computer \<Rightarrow> 'h computer \<Rightarrow> bool" where
  "stays_loose user s pc pc' \<longleftrightarrow> (loosely_scheduled user s pc \<longrightarrow> loosely_scheduled user s pc')"

interpretation on_schedule: step_relation "stays_loose user s" for user s
  by unfold_locales (auto simp: stays_loose_def)

lemma left_loosely:
  assumes "left_by_script user s pc pc'" and "loosely_scheduled user s pc"
  shows "loosely_scheduled user s pc'"
proof -
  note l = assms(2) [unfolded loosely_scheduled_def]
  consider "co_files pc' = co_files pc" | dir c where "dir \<noteq> INSTALL_DIR_DEFAULT" "c = NotJson \<or> holds_schedule user s (Some c)"
    "co_files pc' = (co_files pc)(dir := (co_files pc dir)(INSTALL_CONFIG_FILE \<mapsto> c))"
    using assms(1) by (auto simp: left_by_script_def)
  then show ?thesis
  proof cases
    case 1
    then show ?thesis using assms(2) by (simp add: loosely_scheduled_def)
  next
    case (2 dir c)
    have "co_files pc' h INSTALL_CONFIG_FILE \<in> {None, Some NotJson} \<or> holds_schedule user s (co_files pc' h INSTALL_CONFIG_FILE)" for h
      using l 2 by (cases "h = dir") auto
    moreover have "co_files pc' h n = None" if "n \<notin> {INSTALL_CONFIG_FILE, tmp_name INSTALL_CONFIG_FILE}" for h n
      using l 2 that by (cases "h = dir") auto
    ultimately show ?thesis using l 2 unfolding loosely_scheduled_def by simp
  qed
qed

lemma script_stays_loose:
  assumes "script_writes box user s" and "schedule_texts s wake bed (Some minutes)"
  shows "keeps (stays_loose user s) (run_command box (Argv (powershell (settings_script (escape_ps_single_quoted user)
      (escape_ps_single_quoted wake) (escape_ps_single_quoted bed) (int_str minutes)))))" (is "keeps _ (run_command box ?c)")
  unfolding keeps_def stays_loose_def
proof (intro allI impI)
  fix pc :: "'a computer"
  assume "loosely_scheduled user s pc"
  moreover have "left_by_script user s pc (snd (bx_run box ?c pc))"
    using assms(1) [unfolded script_writes_def, rule_format, OF assms(2)] .
  moreover have "snd (run_command box ?c pc) = snd (bx_run box ?c pc)"
    by (simp add: run_command_def split: prod.split completed.split)
  ultimately show "loosely_scheduled user s (snd (run_command box ?c pc))"
    using left_loosely by metis
qed

lemma via_powershell_loosely:
  assumes "script_writes box user s" and "schedule_texts s wake bed allow" and "loosely_scheduled user s pc"
    and "write_agent_daily_settings_via_powershell box user wake bed allow pc = (r, pc')"
  shows "loosely_scheduled user s pc'"
proof -
  have "keeps (stays_loose user s) (write_agent_daily_settings_via_powershell box user wake bed allow)"
    unfolding write_agent_daily_settings_via_powershell_def except_subprocess_def Let_def
  proof (cases allow)
    case (Some minutes)
    note script = script_stays_loose [OF assms(1) assms(2) [unfolded Some]]
    show "keeps (stays_loose user s) (case allow of None \<Rightarrow> raising (HostError (lit ''UnboundLocalError''))
      | Some minutes \<Rightarrow> try_with
            (bind (run_command box (Argv (powershell (settings_script (escape_ps_single_quoted user)
                    (escape_ps_single_quoted wake) (escape_ps_single_quoted bed) (int_str minutes)))))
              (\<lambda>(status, stdout, _).
                 ret (if status \<noteq> 0 \<or> splitlines (strip stdout) = [] then None else Some (last (splitlines (strip stdout))))))
            (\<lambda>e. if e = subprocess_error then Some (ret None) else None))"
      unfolding Some option.case
      by (intro on_schedule.keeps_try on_schedule.keeps_bind script keeps_prod on_schedule.keeps_pure)
        (auto intro: on_schedule.keeps_pure split: if_splits)
  qed (simp add: on_schedule.keeps_pure)
  then show ?thesis using assms(3,4) unfolding keeps_def stays_loose_def by (metis snd_conv)
qed

lemma except_os_state:
  "except_os a h pc = (r, pc') \<Longrightarrow> a pc = (r1, pc1) \<Longrightarrow> pc' = pc1 \<or> pc' = snd (h pc1)"
  by (auto simp: except_os_def try_with_def split: sum.splits exn.splits)

lemma write_to_state_schedules:
  assumes "write_agent_daily_settings_to_state box user wake bed allow same pc = (Inr x, pc')"
    and "quiet box" and "plain_reader box" and "script_writes box user s" and "schedule_texts s wake bed allow"
    and "co_files pc = (\<lambda>_ _. None)"
  shows "loosely_scheduled user s pc'"
proof -
  obtain pc1 dir pc2 where w: "write_program_data_daily_settings user wake bed allow pc = (Inr (), pc1)"
    and d: "agent_state_dir_for_user box user same pc1 = (Inr dir, pc2)"
    and e: "except_os
              (bind (merge_agent_daily_settings_into_file box dir wake bed allow)
                (\<lambda>_. bind (grant_user_modify_on_dir box user dir) (\<lambda>_. ret (Some (under dir INSTALL_CONFIG_FILE), True))))
              (if same then ret (None, False)
               else bind (write_agent_daily_settings_via_powershell box user wake bed allow)
                 (\<lambda>p. case p of
                    Some q \<Rightarrow> bind (grant_user_modify_on_dir box user (dirname q)) (\<lambda>_. ret (Some q, True))
                  | None \<Rightarrow> ret (None, False))) pc2 = (Inr x, pc')"
    using assms(1) by (auto simp: write_agent_daily_settings_to_state_def bind_eq_Inr_iff)
  have "scheduled user s pc1" using program_data_written [OF w assms(5,6)]
    by (auto simp: scheduled_def holds_schedule_def)
  moreover have "same_settings pc1 pc2"
    using state_dir_keeps [OF assms(2), of user same, unfolded keeps_def, THEN spec, of pc1] d by simp
  ultimately have s2: "scheduled user s pc2" using unchanged_stays stays_scheduled_def by blast
  obtain r3 pc3 where m: "merge_agent_daily_settings_into_file box dir wake bed allow pc2 = (r3, pc3)" by fastforce
  have s3: "loosely_scheduled user s pc3"
    using scheduled_loosely merge_scheduled [OF assms(3,5) s2 m] by blast
  have grant: "loosely_scheduled user s q'" if "grant_user_modify_on_dir box user h q = (r, q')" "loosely_scheduled user s q"
    for h q q' r
    using grant_keeps [OF assms(2), of user h, unfolded keeps_def, THEN spec, of q] that unchanged_stays stays_scheduled_def
    by (metis snd_conv)
  obtain r4 pc4 where b: "bind (merge_agent_daily_settings_into_file box dir wake bed allow)
      (\<lambda>_. bind (grant_user_modify_on_dir box user dir) (\<lambda>_. ret (Some (under dir INSTALL_CONFIG_FILE), True))) pc2
      = (r4, pc4)" by fastforce
  have s4: "loosely_scheduled user s pc4"
    using b m s3 grant by (auto simp: bind_def split: prod.splits sum.splits)
  let ?h = "if same then ret (None, False)
      else bind (write_agent_daily_settings_via_powershell box user wake bed allow)
        (\<lambda>p. case p of
           Some q \<Rightarrow> bind (grant_user_modify_on_dir box user (dirname q)) (\<lambda>_. ret (Some q, True))
         | None \<Rightarrow> ret (None, False))"
  have "keeps (stays_loose user s) (grant_user_modify_on_dir box user h)" for h
    using grant unfolding keeps_def stays_loose_def by (metis prod.collapse)
  moreover have "keeps (stays_loose user s) (write_agent_daily_settings_via_powershell box user wake bed allow)"
    using via_powershell_loosely [OF assms(4,5)] unfolding keeps_def stays_loose_def by (metis prod.collapse)
  ultimately have "keeps (stays_loose user s) ?h"
    by (intro on_schedule.keeps_rules)
  then have "loosely_scheduled user s (snd (?h pc4))" using s4 unfolding keeps_def stays_loose_def by blast
  moreover have "pc' = pc4 \<or> pc' = snd (?h pc4)" by (rule except_os_state [OF e b])
  ultimately show ?thesis using s4 by blast
qed

lemma on_pc_Inr: "on_pc a m = (Inr x, m1) \<longleftrightarrow> (\<exists>pc. a (in_pc m) = (Inr x, pc) \<and> m1 = m\<lparr>in_pc := pc\<rparr>)"
  by (auto simp: on_pc_def zoom_def split: prod.split)

lemma typing_Inr: "typing a m = (Inr x, m1) \<longleftrightarrow> (\<exists>as. a (in_answers m) = (Inr x, as) \<and> m1 = m\<lparr>in_answers := as\<rparr>)"
  by (auto simp: typing_def zoom_def split: prod.split)

lemma kept_Inr: "keeps R a \<Longrightarrow> a s = (x, s') \<Longrightarrow> R s s'"
  unfolding keeps_def by (metis snd_conv)

lemma find_complete_none: "\<forall>p. files d p = None \<Longrightarrow> find_complete_daily_settings ps d = None"
  by (induction ps) (simp_all add: read_json_def load_json_file_eq catch_os_error_def try_with_def bind_def)

lemma install_for_schedules:
  assumes "install_for box random user is_self python package m = (Inr ok, m')"
    and "quiet box" and "plain_reader box" and "script_writes box user s" and "co_files (in_pc m) = (\<lambda>_ _. None)"
    and "choose_schedule None (in_answers m) = (Inr (wake, bed, allow), rest)" and "schedule_texts s wake bed allow"
  shows "loosely_scheduled user s (in_pc m')"
proof -
  obtain pc1 pc2 script dir m3 where
    s1: "install_to_programdata box user package (in_pc m) = (Inr script, pc1)" and
    s2: "agent_state_dir_for_user box user is_self pc1 = (Inr dir, pc2)" and
    s3: "bind (gets (\<lambda>m. find_complete_daily_settings (settings_places box) (agent_disk (bx_program_data box) dir (in_pc m))))
           (\<lambda>existing. bind (typing (choose_schedule existing))
             (\<lambda>(wake, bed, allow).
                bind (on_pc (write_agent_daily_settings_to_state box user wake bed allow is_self))
               (\<lambda>_. bind (ask_for_secret box random)
                 (\<lambda>_. bind (create_task_with_power_settings box user script python)
                   (\<lambda>ok. if ok then ret True
                      else on_pc (create_task_simple_schtasks box user script python))))))
           (m\<lparr>in_pc := pc2\<rparr>) = (Inr ok, m')" and "m3 = m\<lparr>in_pc := pc2\<rparr>"
    using assms(1) unfolding install_for_def
    by (auto simp: bind_eq_Inr_iff [of "on_pc _"] on_pc_Inr)
  have q2: "same_settings (in_pc m) pc2"
    using on_computer.trans [OF kept_Inr [OF install_to_programdata_keeps [OF assms(2)] s1]
      kept_Inr [OF state_dir_keeps [OF assms(2)] s2]] .
  then have e2: "co_files pc2 = (\<lambda>_ _. None)" using same_settings_files assms(5) by metis
  then have "find_complete_daily_settings (settings_places box) (agent_disk (bx_program_data box) dir pc2) = None"
    by (intro find_complete_none) (simp add: agent_disk_def split: path.split)
  with s3 assms(6) obtain x pc3 m4 where
    w: "write_agent_daily_settings_to_state box user wake bed allow is_self pc2 = (Inr x, pc3)" and
    a: "bind (ask_for_secret box random)
         (\<lambda>_. bind (create_task_with_power_settings box user script python)
           (\<lambda>ok. if ok then ret True else on_pc (create_task_simple_schtasks box user script python)))
         m4 = (Inr ok, m')" and "in_pc m4 = pc3"
    by (auto simp: bind_eq_Inr_iff [of "on_pc _"] bind_eq_Inr_iff [of "typing _"] on_pc_Inr typing_Inr)
  have "keeps pc_settings (bind (ask_for_secret box random)
         (\<lambda>_. bind (create_task_with_power_settings box user script python)
           (\<lambda>ok. if ok then ret True else on_pc (create_task_simple_schtasks box user script python))))"
    by (intro on_installer.keeps_bind secret_keeps task_keeps assms(2) on_installer.keeps_if on_installer.keeps_pure
        on_pc_keeps simple_task_keeps)
  then have "pc_settings m4 m'" using a unfolding keeps_def by (metis snd_conv)
  then have "same_settings pc3 (in_pc m')" using \<open>in_pc m4 = pc3\<close> by (simp add: pc_settings_def)
  moreover have "loosely_scheduled user s pc3"
    by (rule write_to_state_schedules [OF w assms(2,3,4,7) e2])
  ultimately show ?thesis by (simp add: loosely_scheduled_def same_settings_def)
qed


section \<open>The agent's first start\<close>

lemma agent_disk_simps [simp]:
  "files (agent_disk pd home pc) (DataFile n) = co_files pc home n"
  "files (agent_disk pd home pc) (ProgramDataFile n) = co_files pc pd n"
  by (simp_all add: agent_disk_def)

lemma read_json_of:
  assumes "files d p = Some (Document (JObj j))" and "\<not> read_fault d p"
  shows "read_json p d = (Inr (Some j), d)"
  using assms by (simp add: read_json_def load_json_file_eq classify_def catch_os_error_def try_with_def bind_def)

lemma read_json_absent: "files d p = None \<Longrightarrow> read_json p d = (Inr None, d)"
  by (simp add: read_json_def load_json_file_eq catch_os_error_def try_with_def bind_def)

lemma read_validated_absent:
  "files d p = None \<Longrightarrow> files d (backup_path p) = None \<Longrightarrow> read_validated p loader now d = (Inr None, d)"
  by (simp add: read_validated_def bind_def load_json_file_eq)

text \<open>A file that is not there, or is no JSON and goes into quarantine, with no backup.\<close>

lemma read_unusable:
  assumes "no_faults d" and "files d p \<in> {None, Some NotJson}" and "files d (backup_path p) = None"
  obtains e where "read_validated p loader now d = (Inr None, e)" "no_faults e"
    "\<forall>q. q \<notin> {p, corrupt_path p now} \<longrightarrow> files e q = files d q"
proof (cases "files d p")
  case None
  then show thesis using that [OF read_validated_absent [OF None assms(3)]] assms(1) by simp
next
  case (Some c)
  let ?e = "d\<lparr>files := (files d)(p := None, corrupt_path p now := Some c), problems := problems d @ [(p, Quarantined)]\<rparr>"
  have q: "quarantine p now d = (Inr (), ?e)"
    using Some assms(1) by (simp add: quarantine_def catch_os_error_def try_with_def os_replace_def
        no_faults_def problem_def bind_def)
  have l: "load_json_file p d = (Inr Unusable, d)" "load_json_file (backup_path p) ?e = (Inr Absent, ?e)"
    using Some assms by (simp_all add: load_json_file_eq classify_def no_faults_def)
  have "read_validated p loader now d = (Inr None, ?e)"
    by (simp add: read_validated_def bind_def [of "load_json_file _"] l bind_def [of "quarantine p now"] q)
  from that [OF this] assms(1) show thesis by (simp add: no_faults_def)
qed

lemma fresh_is_current:
  assumes "usage_period_date now wake = Inr day"
  shows "reset_runtime_if_needed (fresh_runtime_state now) wake now = Inr (False, fresh_runtime_state now)"
  using assms by (simp add: reset_runtime_if_needed_def runtime_state_is_current_def fresh_runtime_state_def)

text \<open>
  The agent's first start: its own settings file holds the schedule, or it has none, or an
  unusable one that goes into quarantine, and takes the one from ProgramData.
\<close>

lemma first_start:
  assumes "no_faults d" and "usage_period_date now (wake_time s) = Inr day"
    and "files d state_path = None" "files d (backup_path state_path) = None" "files d (backup_path daily_path) = None"
      "files d legacy_state_path = None"
    and "files d daily_path \<in> {None, Some NotJson} \<or> holds_schedule user s (files d daily_path)"
    and "has_program_data cfg" and "holds_schedule user s (files d program_data_daily_path)"
    and "fold_case cfg user = fold_case cfg (user_name cfg)"
  shows "\<exists>d'. load cfg now d = (Inr (s, fresh_runtime_state now), d')"
proof -
  let ?d = "d\<lparr>problems := []\<rparr>"
  have f: "\<not> read_fault d p" "\<not> write_fault d p" for p using assms(1) by (auto simp: no_faults_def)
  have reset: "reset_runtime_if_needed (fresh_runtime_state now) (wake_time s) now = Inr (False, fresh_runtime_state now)"
    by (rule fresh_is_current [OF assms(2)])
  have st: "read_validated state_path load_runtime_from_dict now e = (Inr None, e)"
    if "files e state_path = None" "files e (backup_path state_path) = None" for e
    using that by (rule read_validated_absent)
  show ?thesis
  proof (cases "holds_schedule user s (files d daily_path)")
    case True
    then obtain j where j: "files d daily_path = Some (Document (JObj j))" "load_daily_from_dict j = Inr s"
      by (auto simp: holds_schedule_def)
    have "read_validated daily_path load_daily_from_dict now ?d = (Inr (Some s), ?d)"
      using j f by (intro read_valid_file) auto
    moreover have "read_validated state_path load_runtime_from_dict now ?d = (Inr None, ?d)"
      using assms(3,4) by (intro st) simp_all
    ultimately show ?thesis
      by (simp add: load_def bind_def settle_runtime_def reset)
  next
    case False
    obtain e where e: "read_validated daily_path load_daily_from_dict now ?d = (Inr None, e)" "no_faults e"
      "\<forall>p. p \<notin> {daily_path, corrupt_path daily_path now} \<longrightarrow> files e p = files d p"
      by (rule read_unusable [of ?d daily_path load_daily_from_dict now]) (use assms(1,5,7) False in auto)
    have other: "files e p = files d p" if "p \<in> {state_path, backup_path state_path, legacy_state_path, program_data_daily_path}" for p
      using e(3) that by (auto simp: corrupt_path_def daily_path_def state_path_def legacy_state_path_def
          program_data_daily_path_def backup_path_def lit_def)
    have fe: "\<not> read_fault e p" for p using e(2) by (simp add: no_faults_def)
    obtain j where j: "files d program_data_daily_path = Some (Document (JObj j))" "load_daily_from_dict j = Inr s"
      "jget j ''target_user'' \<in> {JNull, JStr user}"
      using assms(9) by (auto simp: holds_schedule_def)
    have r: "read_json program_data_daily_path e = (Inr (Some j), e)"
      using j(1) fe other by (intro read_json_of) simp_all
    have "\<not> other_user cfg j" using j(3) assms(10) by (auto simp: other_user_def)
    then have b: "bootstrap_daily cfg e = (Inr (Some s), e)"
      using assms(8) j(2) r by (simp add: bootstrap_daily_def bind_def)
    have "migrate_legacy_state now e = (Inr None, e)"
      using assms(6) other by (simp add: migrate_legacy_state_def bind_def read_json_absent)
    with b have dd: "derive_daily cfg now e = (Inr (s, None), e)"
      by (simp add: derive_daily_def bind_def try_with_def)
    obtain d1 where w1: "write_daily s e = (Inr (), d1)"
      using write_json_no_faults [OF e(2), of load_daily_from_dict] load_daily_only_value_error
      unfolding write_daily_def by metis
    have "no_faults d1"
      using write_json_files(3) [OF w1 [unfolded write_daily_def]] e(2) no_faults_same by blast
    then obtain d2 where w2: "write_runtime (fresh_runtime_state now) d1 = (Inr (), d2)"
      using write_json_no_faults [of d1 load_runtime_from_dict] load_runtime_only_value_error
      unfolding write_runtime_def by metis
    have "(fresh_runtime_state now)\<lparr>timestamp := now\<rparr> = fresh_runtime_state now"
      by (simp add: fresh_runtime_state_def)
    moreover have "read_validated state_path load_runtime_from_dict now e = (Inr None, e)"
      using assms(3,4) other by (intro st) simp_all
    ultimately show ?thesis
      using e(1) dd w1 w2 by (simp add: load_def bind_def settle_runtime_def Let_def reset)
  qed
qed


section \<open>From the prompts to the agent\<close>

text \<open>What an answer means at the prompts for a time and for the allowance.\<close>

definition typed_time :: "pystr \<Rightarrow> pystr \<Rightarrow> dtime \<Rightarrow> bool" where
  "typed_time preset a t \<longleftrightarrow> parse_time_hhmm (if strip a = [] then preset else strip a) = Inr t"

definition typed_allowance :: "pystr \<Rightarrow> int option \<Rightarrow> bool" where
  "typed_allowance a x \<longleftrightarrow>
     (case x of
        None \<Rightarrow> strip a = []
      | Some n \<Rightarrow> strip a \<noteq> [] \<and> int_of_text (strip a) = Inr n \<and> 0 < n \<and> n \<le> MAX_ABS_INT)"

lemma typed_schedule:
  assumes "typed_time (lit ''21:00'') bed b" and "typed_time (lit ''07:00'') wake w" and "typed_allowance minutes x"
  shows "choose_schedule None (bed # wake # minutes # rest) = (Inr (format_hhmm w, format_hhmm b, x), rest)"
proof -
  have "time_from preset (a # as) = (Inr (format_hhmm t), as)" if "typed_time preset a t" for preset a t as
    using that by (simp add: typed_time_def format_time_hhmm_def)
  moreover have "prompt_daily_allowance (minutes # rest) = (Inr x, rest)"
    using assms(3) by (cases x) (auto simp: typed_allowance_def)
  ultimately show ?thesis using assms
    by (simp add: choose_schedule_def prompt_bed_time_def prompt_wake_up_time_def bind_def)
qed

lemma typed_schedule_texts:
  assumes "typed_time p bed b" and "typed_time q wake w" and "typed_allowance minutes x"
  shows "schedule_texts \<lparr>bed_time = Some b, wake_time = w, allowance = x\<rparr> (format_hhmm w) (format_hhmm b) x"
proof -
  have "valid_time b" "valid_time w" using assms parse_time_hhmm_valid by (auto simp: typed_time_def)
  moreover have "pred_option (\<lambda>a. 0 \<le> a \<and> a \<le> MAX_ABS_INT) x"
    using assms(3) by (cases x) (auto simp: typed_allowance_def)
  ultimately show ?thesis by (simp add: schedule_texts_def valid_daily_def)
qed

lemma flow_installs:
  assumes "run_install_flow box random m = (Inr True, m')" and "co_files (in_pc m) = (\<lambda>_ _. None)" and "quiet box"
    and "in_answers m = name # answers" and "strip name \<noteq> []"
    and "validate_user_exists box (strip name) (in_pc m) = (Inr True, pc1)"
    and "bx_lower box (strip name) \<noteq> bx_lower box (bx_user box)"
  obtains m1 python package where "install_for box random (strip name) False python package m1 = (Inr True, m')"
    "in_answers m1 = answers" "same_settings (in_pc m) (in_pc m1)"
proof -
  have "fst (program_data_target_user (store_of box) (agent_disk (bx_program_data box) [] (in_pc m))) = Inr None"
    using assms(2) by (simp add: program_data_target_user_def read_json_absent program_data_daily_path_def bind_def)
  moreover have "prompt_target_user box None m = (Inr (Some (strip name)), m\<lparr>in_answers := answers, in_pc := pc1\<rparr>)"
    using assms(4-7) by (simp add: prompt_target_user_def named_account_def)
  ultimately obtain found pc2 where p: "find_system_python box pc1 = (Inr found, pc2)" and
    i: "(case python_for box False found of
           None \<Rightarrow> ret False
         | Some python \<Rightarrow>
             (case bx_package box of
                None \<Rightarrow> ret False
              | Some package \<Rightarrow> install_for box random (strip name) False python package))
         (m\<lparr>in_answers := answers, in_pc := pc2\<rparr>) = (Inr True, m')"
    using assms(1,5,7) unfolding run_install_flow_def
    by (auto simp: bind_eq_Inr_iff [of "prompt_target_user _ _"] bind_eq_Inr_iff [of "on_pc _"] on_pc_Inr Let_def)
  have "same_settings (in_pc m) pc2"
    using on_computer.trans [OF kept_Inr [OF validate_keeps [OF assms(3)] assms(6)]
      kept_Inr [OF find_python_keeps [OF assms(3)] p]] .
  with i that [of _ _ "m\<lparr>in_answers := answers, in_pc := pc2\<rparr>"] show thesis
    by (auto split: option.splits)
qed

text \<open>
  What the installation leaves, to an agent that keeps its own files in \<open>home\<close>. Its rights are
  those of the child's account, whatever the installer could not read or write: nothing
  fails for it.
\<close>

definition disk_of_agent :: "pystr \<Rightarrow> 'h computer \<Rightarrow> disk" where
  "disk_of_agent home pc = (agent_disk INSTALL_DIR_DEFAULT home pc)
     \<lparr>read_fault := (\<lambda>_. False), write_fault := (\<lambda>_. False), torn_write := (\<lambda>_. None)\<rparr>"

text \<open>
  C27. The schedule typed at the installation is the one the agent starts with: on a computer
  without earlier settings, when the installation for another account succeeds, the agent of
  that account begins with exactly the bedtime, the wake-up time and the allowance that were
  typed (or their defaults). This holds whatever the installer could not read or write in the
  child's profile, and wherever a write of it broke off, and whatever directory the agent keeps
  its files in; where its own settings file is missing or unusable, the agent takes the
  schedule from ProgramData. Assumed: the agent itself can read and write its files; of the commands
  the installer runs only the PowerShell script that writes the schedule touches settings
  files, and it leaves the child's one alone, with the schedule, or unusable as JSON; plain
  \<open>json.loads\<close> reads a document back or refuses it.
\<close>

theorem typed_schedule_reaches_the_agent:
  assumes "run_install_flow box random m = (Inr True, m')" and "co_files (in_pc m) = (\<lambda>_ _. None)"
    and "quiet box" and "plain_reader box"
    and "script_writes box (strip name) \<lparr>bed_time = Some b, wake_time = w, allowance = x\<rparr>"
    and "in_answers m = name # bed # wake # minutes # answers" and "strip name \<noteq> []"
    and "validate_user_exists box (strip name) (in_pc m) = (Inr True, pc1)"
    and "bx_lower box (strip name) \<noteq> bx_lower box (bx_user box)"
    and "typed_time (lit ''21:00'') bed b" and "typed_time (lit ''07:00'') wake w" and "typed_allowance minutes x"
    and "has_program_data cfg" and "fold_case cfg (strip name) = fold_case cfg (user_name cfg)"
    and "usage_period_date now w = Inr day"
  shows "\<exists>d. load cfg now (disk_of_agent home (in_pc m'))
    = (Inr (\<lparr>bed_time = Some b, wake_time = w, allowance = x\<rparr>, fresh_runtime_state now), d)"
proof -
  let ?s = "\<lparr>bed_time = Some b, wake_time = w, allowance = x\<rparr>"
  obtain m1 python package where i: "install_for box random (strip name) False python package m1 = (Inr True, m')"
    and a: "in_answers m1 = bed # wake # minutes # answers" and same: "same_settings (in_pc m) (in_pc m1)"
    by (rule flow_installs [OF assms(1-3,6,7,8,9)])
  have e: "co_files (in_pc m1) = (\<lambda>_ _. None)" using same_settings_files [OF same] assms(2) by simp
  have "choose_schedule None (in_answers m1) = (Inr (format_hhmm w, format_hhmm b, x), answers)"
    unfolding a by (rule typed_schedule [OF assms(10-12)])
  from install_for_schedules [OF i assms(3-5) e this typed_schedule_texts [OF assms(10-12)]]
  have files: "n \<notin> {INSTALL_CONFIG_FILE, tmp_name INSTALL_CONFIG_FILE} \<Longrightarrow> co_files (in_pc m') h n = None"
    "co_files (in_pc m') h INSTALL_CONFIG_FILE \<in> {None, Some NotJson}
       \<or> holds_schedule (strip name) ?s (co_files (in_pc m') h INSTALL_CONFIG_FILE)"
    "holds_schedule (strip name) ?s (co_files (in_pc m') INSTALL_DIR_DEFAULT INSTALL_CONFIG_FILE)" for h n
    by (simp_all add: loosely_scheduled_def)
  let ?d = "disk_of_agent home (in_pc m')"
  have "no_faults ?d" by (simp add: no_faults_def disk_of_agent_def agent_disk_def)
  moreover have "files ?d state_path = None" "files ?d (backup_path state_path) = None"
    "files ?d (backup_path daily_path) = None" "files ?d legacy_state_path = None"
    by (simp_all add: disk_of_agent_def state_path_def daily_path_def backup_path_def legacy_state_path_def files(1)
        INSTALL_CONFIG_FILE_def tmp_name_def lit_def)
  moreover have "files ?d daily_path \<in> {None, Some NotJson} \<or> holds_schedule (strip name) ?s (files ?d daily_path)"
    using files(2) by (simp add: disk_of_agent_def daily_path_def INSTALL_CONFIG_FILE_def)
  moreover have "holds_schedule (strip name) ?s (files ?d program_data_daily_path)"
    using files(3) by (simp add: disk_of_agent_def program_data_daily_path_def INSTALL_CONFIG_FILE_def)
  ultimately show ?thesis using first_start [where s = ?s and user = "strip name"] assms(13-15) by simp
qed


section \<open>A concrete installation\<close>

text \<open>
  The installer cannot write in the child's profile, and the text that PowerShell leaves there
  begins with a byte-order mark.
\<close>

definition sample_run :: "os_command \<Rightarrow> unit computer \<Rightarrow> completed \<times> unit computer" where
  "sample_run c pc =
     (Completed 0 (lit ''OK'') [],
      if runs_settings_script c
      then pc\<lparr>co_files := (co_files pc)(lit ''OK'' := (co_files pc (lit ''OK''))(INSTALL_CONFIG_FILE \<mapsto> NotJson))\<rparr>
      else pc)"

definition sample_box :: "unit box" where
  "sample_box = \<lparr>bx_run = sample_run, bx_exists = (\<lambda>_ _. True), bx_glob = (\<lambda>_ _. []),
     bx_lower = lower, bx_plain_json = (\<lambda>c. case c of Document j \<Rightarrow> Inr j | NotJson \<Rightarrow> Inl ValueError),
     bx_win32 = True, bx_user = lit ''parent'', bx_local_app = None, bx_system_drive = lit ''C:'',
     bx_program_data = INSTALL_DIR_DEFAULT, bx_computer_name = lit ''pc'', bx_executable = [],
     bx_repo_root = [], bx_package = Some [(lit ''a.py'', lit ''new'')], bx_requirements = None, bx_admin = True,
     bx_cipher = sample_cipher, bx_account = admin_account\<rparr>"

definition sample_pc :: "unit computer" where
  "sample_pc = \<lparr>co_files = (\<lambda>_ _. None), co_read_fault = (\<lambda>_ _. False), co_write_fault = (\<lambda>dir n. dir = lit ''OK''),
     co_torn_write = (\<lambda>_ _. None),
     co_package = [(lit ''old.py'', [])], co_beside = (\<lambda>_. None), co_in_use = (\<lambda>_. False),
     co_vault = empty_vault, co_task_config = None, co_host = ()\<rparr>"

definition sample_installer :: "unit installer" where
  "sample_installer = \<lparr>in_pc = sample_pc,
     in_answers = [lit '' Mia'', lit ''20:30'', [], lit ''90'', lit ''Y''], in_hidden = typed_answers\<rparr>"

lemma sample_command [simp]:
  "\<not> runs_settings_script c \<Longrightarrow> run_command sample_box c pc = (Inr (0, lit ''OK'', []), pc)"
  by (simp add: run_command_def sample_box_def sample_run_def)

declare commands_told_apart [simp]

declare runs_settings_script.simps(2) [simp del]

lemma sample_fields [simp]:
  "bx_exists sample_box p pc" "bx_glob sample_box p pc = []" "bx_lower sample_box = lower" "bx_win32 sample_box"
  "bx_package sample_box = Some [(lit ''a.py'', lit ''new'')]" "bx_requirements sample_box = None"
  "bx_cipher sample_box = sample_cipher" "bx_account sample_box = admin_account"
  by (simp_all add: sample_box_def)

lemma install_dir_not_profile [simp]: "INSTALL_DIR_DEFAULT \<noteq> lit ''OK''" "lit ''OK'' \<noteq> INSTALL_DIR_DEFAULT"
  unfolding INSTALL_DIR_DEFAULT_def by (simp_all add: lit_def)

lemma sample_box_laws: "quiet sample_box" "plain_reader sample_box" "script_writes sample_box user s"
proof -
  show "quiet sample_box"
    by (simp add: quiet_def sample_box_def sample_run_def same_settings_def)
  show "plain_reader sample_box" by (simp add: plain_reader_def sample_box_def)
  show "script_writes sample_box user s"
    unfolding script_writes_def left_by_script_def
    by (intro allI impI disjI2 exI [of _ "lit ''OK''"] exI [of _ NotJson]) (simp add: sample_box_def sample_run_def)
qed

lemma sample_typed:
  "typed_time (lit ''21:00'') (lit ''20:30'') (Time 20 30)" "typed_time (lit ''07:00'') [] (Time 7 0)"
  "typed_allowance (lit ''90'') (Some 90)"
proof -
  have "int_of_text (lit ''90'') = Inr 90"
    by (simp add: int_of_text_def lit_def ascii_decimal_def decimal_zeros_def strip_def is_space_def sign_split_def
        is_digit_def max_str_digits_def)
  moreover have "parse_time_hhmm (lit ''20:30'') = Inr (Time 20 30)" "parse_time_hhmm (lit ''07:00'') = Inr (Time 7 0)"
    by (simp_all add: parse_time_hhmm_def hhmm_match_def strip_def is_space_def is_digit_def digits_val_def lit_def)
  moreover have "strip (lit ''20:30'') = lit ''20:30''" "strip (lit ''90'') = lit ''90''" "strip [] = []"
    by (simp_all add: strip_def is_space_def lit_def)
  ultimately show "typed_time (lit ''21:00'') (lit ''20:30'') (Time 20 30)"
    "typed_time (lit ''07:00'') [] (Time 7 0)" "typed_allowance (lit ''90'') (Some 90)"
    by (simp_all add: typed_time_def typed_allowance_def MAX_ABS_INT_def lit_def)
qed

lemma sample_target:
  "prompt_target_user sample_box None sample_installer
     = (Inr (Some (lit ''Mia'')), sample_installer\<lparr>in_answers := [lit ''20:30'', [], lit ''90'', lit ''Y'']\<rparr>)"
  "validate_user_exists sample_box (lit ''Mia'') pc = (Inr True, pc)"
  "bx_lower sample_box (lit ''Mia'') \<noteq> bx_lower sample_box (bx_user sample_box)"
  "strip (lit '' Mia'') = lit ''Mia''"
proof -
  show v: "validate_user_exists sample_box (lit ''Mia'') pc = (Inr True, pc)" for pc
    by (simp add: validate_user_exists_def except_any_def try_with_def bind_def lit_def)
  show l: "bx_lower sample_box (lit ''Mia'') \<noteq> bx_lower sample_box (bx_user sample_box)"
    by (simp add: sample_box_def lower_def lower_char_def lit_def)
  show s: "strip (lit '' Mia'') = lit ''Mia''" by (simp add: strip_def is_space_def lit_def)
  show "prompt_target_user sample_box None sample_installer
     = (Inr (Some (lit ''Mia'')), sample_installer\<lparr>in_answers := [lit ''20:30'', [], lit ''90'', lit ''Y'']\<rparr>)"
    using l by (simp add: prompt_target_user_def sample_installer_def named_account_def s v)
qed

lemma sample_python: "find_system_python sample_box pc = (Inr (Some (lit ''OK'')), pc)"
  by (simp add: find_system_python_def on_path_def except_any_def try_with_def bind_def)
    (simp add: splitlines_def lit_def strip_def is_space_def is_line_break_def PER_USER_def lower_def lower_char_def)

lemma sample_dir: "agent_state_dir_for_user sample_box user False pc = (Inr (lit ''OK''), pc)"
  by (simp add: agent_state_dir_for_user_def resolve_user_localappdata_dir_def except_subprocess_def try_with_def
      bind_def strip_def is_space_def lit_def)

lemma sample_copy:
  "\<exists>pc. install_to_programdata sample_box user package sample_pc = (Inr (under INSTALL_DIR_DEFAULT LAUNCHER_FILE), pc)
     \<and> co_files pc = (\<lambda>_ _. None) \<and> co_write_fault pc = (\<lambda>dir n. dir = lit ''OK'')
     \<and> co_torn_write pc = (\<lambda>_ _. None) \<and> co_vault pc = empty_vault"
  by (simp add: install_to_programdata_def bind_def remove_package_def write_beside_def sample_pc_def)

lemma sample_write:
  assumes "co_files pc = (\<lambda>_ _. None)" and "co_write_fault pc = (\<lambda>dir n. dir = lit ''OK'')"
    and "co_torn_write pc = (\<lambda>_ _. None)" and "co_vault pc = empty_vault"
  shows "\<exists>x pc'. write_agent_daily_settings_to_state sample_box user wake bed (Some n) False pc = (Inr x, pc')
    \<and> co_vault pc' = empty_vault"
proof -
  have ps: "run_command sample_box (Argv (powershell (settings_script u w b l))) q
      = (Inr (0, lit ''OK'', []), snd (sample_run (Argv (powershell (settings_script u w b l))) q))" for u w b l q
    by (simp add: run_command_def sample_box_def sample_run_def)
  have o: "splitlines (strip (lit ''OK'')) \<noteq> []"
    by (simp add: splitlines_def lit_def strip_def is_space_def is_line_break_def)
  have v: "co_vault (snd (sample_run c q)) = co_vault q" for c q by (simp add: sample_run_def)
  show ?thesis
    using assms o
    by (simp add: write_agent_daily_settings_to_state_def bind_def write_program_data_daily_settings_def put_file_def
        replace_file_def sample_dir except_os_def try_with_def merge_agent_daily_settings_into_file_def os_error_def
        settings_in_file_def grant_user_modify_on_dir_def write_agent_daily_settings_via_powershell_def
        except_subprocess_def ps v Let_def) (rule exI [of _ True], simp)
qed

lemma sample_secret:
  assumes "co_vault (in_pc m) = empty_vault" and "in_hidden m = typed_answers"
  shows "\<exists>m'. ask_for_secret sample_box [] m = (Inr (), m') \<and> in_answers m' = in_answers m"
  using installed assms
  by (cases "prompt_and_store_shared_secret sample_cipher [] admin_account typed_answers empty_vault")
    (simp add: ask_for_secret_def bind_def on_pc_def zoom_def)

lemma sample_task:
  "in_answers m = [lit ''Y''] \<Longrightarrow>
     \<exists>m'. create_task_with_power_settings sample_box user script python m = (Inr True, m')"
  by (simp add: create_task_with_power_settings_def bind_def typing_def zoom_def read_line_def on_pc_def except_any_def
      try_with_def) (simp add: lower_def lower_char_def lit_def)

lemma sample_flow: "\<exists>m. run_install_flow sample_box [] sample_installer = (Inr True, m)"
proof -
  let ?user = "lit ''Mia''"
  let ?m = "sample_installer\<lparr>in_answers := [lit ''20:30'', [], lit ''90'', lit ''Y'']\<rparr>"
  obtain pc where c: "install_to_programdata sample_box ?user [(lit ''a.py'', lit ''new'')] sample_pc
      = (Inr (under INSTALL_DIR_DEFAULT LAUNCHER_FILE), pc)"
    and pc: "co_files pc = (\<lambda>_ _. None)" "co_write_fault pc = (\<lambda>dir n. dir = lit ''OK'')"
      "co_torn_write pc = (\<lambda>_ _. None)" "co_vault pc = empty_vault"
    using sample_copy by blast
  obtain x pc' where w: "write_agent_daily_settings_to_state sample_box ?user (format_hhmm (Time 7 0))
      (format_hhmm (Time 20 30)) (Some 90) False pc = (Inr x, pc')" and pc': "co_vault pc' = empty_vault"
    using sample_write [OF pc] by blast
  let ?m' = "?m\<lparr>in_pc := pc', in_answers := [lit ''Y'']\<rparr>"
  obtain m1 where s: "ask_for_secret sample_box [] ?m' = (Inr (), m1)" "in_answers m1 = [lit ''Y'']"
    using sample_secret [of ?m'] pc' by (auto simp: sample_installer_def)
  obtain m2 where t: "create_task_with_power_settings sample_box ?user (under INSTALL_DIR_DEFAULT LAUNCHER_FILE)
      (lit ''OK'') m1 = (Inr True, m2)"
    using sample_task [OF s(2)] by blast
  have f: "find_complete_daily_settings ps (agent_disk pd dir pc) = None" for ps pd dir
    by (rule find_complete_none) (simp add: agent_disk_def pc(1) split: path.split)
  have "program_data_target_user (store_of sample_box) (agent_disk pd [] sample_pc) = (Inr None, agent_disk pd [] sample_pc)" for pd
    by (simp add: program_data_target_user_def read_json_absent program_data_daily_path_def bind_def sample_pc_def store_of_def)
  moreover have "install_for sample_box [] ?user False (lit ''OK'') [(lit ''a.py'', lit ''new'')] ?m = (Inr True, m2)"
    using c w s t typed_schedule [OF sample_typed, of "[lit ''Y'']"]
    by (simp add: install_for_def bind_def on_pc_def zoom_def sample_installer_def sample_dir f typing_def)
  moreover have "in_pc sample_installer = sample_pc" by (simp add: sample_installer_def)
  ultimately have "run_install_flow sample_box [] sample_installer = (Inr True, m2)"
    using sample_target
    by (simp add: run_install_flow_def bind_def on_pc_def zoom_def sample_python python_for_def)
  then show ?thesis ..
qed

theorem typed_schedule_reaches_the_agent_witness:
  "\<exists>m d. run_install_flow sample_box [] sample_installer = (Inr True, m)
    \<and> load \<lparr>user_name = lit ''MIA'', fold_case = lower, has_program_data = True\<rparr> sample_now
        (disk_of_agent (lit ''OK'') (in_pc m))
      = (Inr (\<lparr>bed_time = Some (Time 20 30), wake_time = Time 7 0, allowance = Some 90\<rparr>, fresh_runtime_state sample_now), d)"
proof -
  obtain m where m: "run_install_flow sample_box [] sample_installer = (Inr True, m)" using sample_flow by blast
  have "\<exists>day. usage_period_date sample_now (Time 7 0) = Inr day"
    by (simp add: usage_period_date_def sample_now_def before_time_def)
  then obtain day where day: "usage_period_date sample_now (Time 7 0) = Inr day" ..
  have v: "validate_user_exists sample_box (strip (lit '' Mia'')) (in_pc sample_installer) = (Inr True, in_pc sample_installer)"
    "bx_lower sample_box (strip (lit '' Mia'')) \<noteq> bx_lower sample_box (bx_user sample_box)"
    using sample_target(2,3) unfolding sample_target(4) by blast+
  have a: "in_answers sample_installer = lit '' Mia'' # lit ''20:30'' # [] # lit ''90'' # [lit ''Y'']"
    and e: "co_files (in_pc sample_installer) = (\<lambda>_ _. None)"
    by (simp_all add: sample_installer_def sample_pc_def)
  have n: "strip (lit '' Mia'') \<noteq> []" unfolding sample_target(4) by (simp add: lit_def)
  let ?cfg = "\<lparr>user_name = lit ''MIA'', fold_case = lower, has_program_data = True\<rparr>"
  have c: "has_program_data ?cfg" "fold_case ?cfg (strip (lit '' Mia'')) = fold_case ?cfg (user_name ?cfg)"
    unfolding sample_target(4) by (simp_all add: lower_def lower_char_def lit_def)
  note typed_schedule_reaches_the_agent [OF m e sample_box_laws a n v sample_typed c day]
  with m show ?thesis by blast
qed

end
