(* ===== verification/Install_Safety.thy ===== *)
theory Install_Safety
  imports Installed_Schedule
begin

text \<open>
  Further promises of the installer: an update replaces the program and leaves the settings,
  the monitored account is one that Windows confirmed, and what is put into a script stays
  within its quotes.
\<close>

section \<open>Updates\<close>

text \<open>A command that leaves the files of the installation and the secrets alone.\<close>

definition installation_of ::
  "'h computer \<Rightarrow> (pystr \<times> pystr) list \<times> (pystr \<Rightarrow> pystr option) \<times> vault \<times> (pystr \<Rightarrow> pystr \<Rightarrow> contents option)" where
  "installation_of pc = (co_package pc, co_beside pc, co_vault pc, co_files pc)"

definition leaves_files :: "'h box \<Rightarrow> bool" where
  "leaves_files box \<longleftrightarrow> (\<forall>c pc. \<not> runs_settings_script c \<longrightarrow> installation_of (snd (bx_run box c pc)) = installation_of pc)"

lemma run_command_installation:
  "leaves_files box \<Longrightarrow> \<not> runs_settings_script c \<Longrightarrow> run_command box c pc = (r, pc') \<Longrightarrow> installation_of pc' = installation_of pc"
  unfolding leaves_files_def run_command_def
  by (auto split: prod.splits completed.splits) (metis snd_conv)+

lemma installed_files:
  assumes "install_to_programdata box user package pc = (Inr script, pc')" and "leaves_files box"
  shows "co_package pc' = package \<and> co_beside pc' LAUNCHER_FILE = Some AGENT_LAUNCHER
    \<and> co_vault pc' = co_vault pc \<and> co_files pc' = co_files pc"
proof -
  let ?pc1 = "pc\<lparr>co_package := package, co_beside := (co_beside pc)(LAUNCHER_FILE \<mapsto> AGENT_LAUNCHER)\<rparr>"
  obtain x pc2 where
    r: "(case bx_requirements box of
               None \<Rightarrow> ret ()
             | Some req \<Rightarrow> except_any (write_beside (lit ''requirements.txt'') req) (ret ())) ?pc1 = (Inr (), pc2)" and
    c: "run_command box (Argv [lit ''icacls'', INSTALL_DIR_DEFAULT, lit ''/grant'', user @ lit '':(OI)(CI)RX'',
           lit ''/T'', lit ''/Q'']) pc2 = (Inr x, pc')"
    using assms(1) unfolding install_to_programdata_def
    by (auto simp: bind_eq_Inr_iff remove_package_def write_beside_def split: prod.splits if_splits)
  have "LAUNCHER_FILE \<noteq> lit ''requirements.txt''" by (simp add: LAUNCHER_FILE_def lit_def)
  then have "co_package pc2 = package" "co_beside pc2 LAUNCHER_FILE = Some AGENT_LAUNCHER"
    "co_vault pc2 = co_vault pc" "co_files pc2 = co_files pc"
    using r by (auto simp: except_any_def try_with_def write_beside_def split: option.splits if_splits)
  with run_command_installation [OF assms(2) _ c] show ?thesis by (simp add: installation_of_def)
qed

text \<open>
  An update replaces the program and nothing else: if it reports success, the installed
  package is exactly that of the repository, no file of an older version remains, the
  launcher is the current one, and the settings and the shared secret are as before. Where
  no account was ever installed for, it reports failure and changes nothing.
\<close>

theorem update_replaces_the_program:
  assumes "leaves_files box" and "redeploy_agent box pc = (Inr done_it, pc')"
  shows "(done_it \<longrightarrow> Some (co_package pc') = bx_package box \<and> co_beside pc' LAUNCHER_FILE = Some AGENT_LAUNCHER
      \<and> co_vault pc' = co_vault pc \<and> co_files pc' = co_files pc)
    \<and> (\<not> done_it \<longrightarrow> pc' = pc)
    \<and> (fst (program_data_target_user (store_of box) (agent_disk (bx_program_data box) [] pc)) = Inr None \<longrightarrow> \<not> done_it)"
proof -
  let ?t = "fst (program_data_target_user (store_of box) (agent_disk (bx_program_data box) [] pc))"
  show ?thesis
  proof (cases ?t)
    case (Inl e)
    then show ?thesis using assms(2) by (simp add: redeploy_agent_def)
  next
    case (Inr target)
    show ?thesis
    proof (cases "target = None \<or> bx_package box = None")
      case True
      then show ?thesis using assms(2) Inr by (auto simp: redeploy_agent_def split: option.splits)
    next
      case False
      then obtain user package where t: "target = Some user" and p: "bx_package box = Some package" by auto
      then obtain x pc1 script pc2 y where
        e: "run_command box (Shell_line (lit ''schtasks /end /tn '' @ quoted TASK_NAME)) pc = (Inr x, pc1)" and
        i: "install_to_programdata box user package pc1 = (Inr script, pc2)" and
        r: "run_command box (Shell_line (lit ''schtasks /run /tn '' @ quoted TASK_NAME)) pc2 = (Inr y, pc')" and
        d: "done_it"
        using assms(2) Inr by (auto simp: redeploy_agent_def bind_eq_Inr_iff)
      have "installation_of pc1 = installation_of pc" "installation_of pc' = installation_of pc2"
        using run_command_installation [OF assms(1) _ e] run_command_installation [OF assms(1) _ r] by simp_all
      with installed_files [OF i assms(1)] show ?thesis using d p t Inr by (simp add: installation_of_def)
    qed
  qed
qed

definition installed_pc :: "unit computer" where
  "installed_pc = sample_pc\<lparr>co_files := (\<lambda>d n. if d = INSTALL_DIR_DEFAULT \<and> n = INSTALL_CONFIG_FILE
     then Some (Document (JObj [(lit ''target_user'', JStr (lit ''Mia''))])) else None)\<rparr>"

theorem update_replaces_the_program_witness:
  "\<exists>pc. redeploy_agent sample_box installed_pc = (Inr True, pc) \<and> co_package pc = [(lit ''a.py'', lit ''new'')]
     \<and> co_files pc = co_files installed_pc"
proof -
  have l: "leaves_files sample_box" by (simp add: leaves_files_def sample_box_def sample_run_def)
  have "files (agent_disk (bx_program_data sample_box) [] installed_pc) program_data_daily_path
      = Some (Document (JObj [(lit ''target_user'', JStr (lit ''Mia''))]))"
    by (simp add: program_data_daily_path_def installed_pc_def INSTALL_CONFIG_FILE_def sample_box_def)
  then have "fst (program_data_target_user (store_of sample_box) (agent_disk (bx_program_data sample_box) [] installed_pc))
      = Inr (Some (lit ''Mia''))"
    by (simp add: program_data_target_user_def store_of_def bind_def read_json_of agent_disk_def installed_pc_def
        sample_pc_def program_data_daily_path_def jget_def strip_def is_space_def lit_def)
  then have "\<exists>pc. redeploy_agent sample_box installed_pc = (Inr True, pc)"
    by (simp add: redeploy_agent_def bind_def install_to_programdata_def remove_package_def write_beside_def
        installed_pc_def sample_pc_def)
  then obtain pc where r: "redeploy_agent sample_box installed_pc = (Inr True, pc)" by blast
  with update_replaces_the_program [OF l r] show ?thesis by simp
qed

section \<open>The monitored account\<close>

text \<open>A name that Windows confirmed, with the answers used up; the own account needs an agreement.\<close>

definition confirmed :: "'h box \<Rightarrow> pystr \<Rightarrow> pystr list \<Rightarrow> pystr list \<Rightarrow> bool" where
  "confirmed box name as rest \<longleftrightarrow>
     name \<noteq> [] \<and> (\<exists>pc1 pc2. validate_user_exists box name pc1 = (Inr True, pc2))
     \<and> (\<exists>used. as = used @ rest
          \<and> (bx_user box \<noteq> [] \<and> bx_lower box name = bx_lower box (bx_user box) \<longrightarrow> (\<exists>a \<in> set used. agrees box a)))"

lemma confirmed_later: "confirmed box name as rest \<Longrightarrow> confirmed box name (a # as) rest"
  unfolding confirmed_def by (metis append_Cons list.set_intros(2))

lemma confirmed_at_once:
  "name \<noteq> [] \<Longrightarrow> validate_user_exists box name pc = (Inr True, pc') \<Longrightarrow>
     \<not> (bx_user box \<noteq> [] \<and> bx_lower box name = bx_lower box (bx_user box)) \<Longrightarrow> confirmed box name (a # rest) rest"
  unfolding confirmed_def by (metis append_Cons append_Nil)

lemma confirmed_agreed:
  "name \<noteq> [] \<Longrightarrow> validate_user_exists box name pc = (Inr True, pc') \<Longrightarrow> agrees box b \<Longrightarrow>
     confirmed box name (a # b # rest) rest"
  unfolding confirmed_def by (metis append_Cons append_Nil list.set_intros)

lemma target_confirmed:
  "target_from box preset as pc = (Inr (Some name), rest, pc') \<Longrightarrow> confirmed box name as rest"
proof (induction box preset as pc arbitrary: rest pc' rule: target_from.induct)
  case (2 box preset a as pc)
  let ?name = "named_account preset a"
  show ?case
  proof (cases "?name = []")
    case True
    then show ?thesis using 2(1) [OF refl] 2(4) confirmed_later by (simp add: Let_def)
  next
    case False
    obtain r pc1 where v: "validate_user_exists box ?name pc = (r, pc1)" by fastforce
    show ?thesis
    proof (cases r)
      case (Inl e)
      then show ?thesis using 2(4) False by (simp add: v Let_def)
    next
      case (Inr there)
      note v' = v [unfolded Inr]
      note ih = 2(2) [OF refl False v' [symmetric] refl] 2(3) [OF refl False v' [symmetric] refl]
      show ?thesis
        using 2(4) False ih confirmed_at_once [OF False, of box pc pc1] confirmed_agreed [OF False, of box pc pc1]
        by (cases as) (auto simp: v' Let_def confirmed_later split: if_splits)
    qed
  qed
qed simp

text \<open>
  The account that is monitored was confirmed: whatever is typed at the prompts, the name
  they end with is not empty and one that Windows was asked for and knows; and if it is
  the account that installs, the question whether to go on was answered with yes.
\<close>

theorem monitored_account_is_confirmed:
  assumes "prompt_target_user box preset m = (Inr (Some name), m')"
  shows "name \<noteq> [] \<and> (\<exists>pc1 pc2. validate_user_exists box name pc1 = (Inr True, pc2))
    \<and> (\<exists>used. in_answers m = used @ in_answers m'
         \<and> (bx_user box \<noteq> [] \<and> bx_lower box name = bx_lower box (bx_user box) \<longrightarrow> (\<exists>a \<in> set used. agrees box a)))"
  using assms target_confirmed [of box preset "in_answers m" "in_pc m" name]
  by (auto simp: prompt_target_user_def confirmed_def split: prod.splits)

theorem monitored_account_is_confirmed_witness:
  "\<exists>pc1 pc2. validate_user_exists sample_box (lit ''Mia'') pc1 = (Inr True, pc2)"
  using monitored_account_is_confirmed [OF sample_target(1)] by blast

section \<open>Quoting\<close>

text \<open>No typographic single quote, which PowerShell takes for a quote too.\<close>

definition plain_quotes :: "pystr \<Rightarrow> bool" where
  "plain_quotes v \<longleftrightarrow> (\<forall>c \<in> set v. \<not> (8216 \<le> c \<and> c \<le> 8219))"

lemma read_quoted_line:
  "plain_quotes v \<Longrightarrow> read_ps_literal (escape_ps_single_quoted v @ 39 # 10 # rest) = Some (v, 10 # rest)"
  by (rule read_escaped) (simp_all add: plain_quotes_def ps_quote_def)

text \<open>
  What is put into a script stays within its quotes: PowerShell reads the name of the
  account back from the profile script, and the name, the wake-up time and the bedtime
  from the settings script, exactly as they were given, and goes on with the text of the
  script that follows, which does not depend on them. This needs that they hold no
  typographic quotes, which the code does not double.
\<close>

theorem script_values_stay_quoted:
  "(\<exists>before after. \<forall>user. plain_quotes user \<longrightarrow>
      (\<exists>t. profile_script (escape_ps_single_quoted user) = before @ 39 # t \<and> read_ps_literal t = Some (user, after)))
   \<and> (\<exists>before mid1 mid2. \<forall>limit. \<exists>after. \<forall>user wake bed.
      plain_quotes user \<and> plain_quotes wake \<and> plain_quotes bed \<longrightarrow>
      (\<exists>t u v. settings_script (escape_ps_single_quoted user) (escape_ps_single_quoted wake) (escape_ps_single_quoted bed) limit
            = before @ 39 # t
         \<and> read_ps_literal t = Some (user, mid1 @ 39 # u)
         \<and> read_ps_literal u = Some (wake, mid2 @ 39 # v)
         \<and> read_ps_literal v = Some (bed, after)))"
proof -
  define start where "start = 10 # (lit ''    $ErrorActionPreference = '' @ [39] @ lit ''Stop'' @ [39]) @ 10 # lit ''    $name = ''"
  have "\<exists>r. \<forall>e. profile_script e = start @ 39 # e @ 39 # 10 # r"
    unfolding profile_script_def start_def by (simp only: unlines.simps) simp
  then obtain r where r: "profile_script e = start @ 39 # e @ 39 # 10 # r" for e by blast
  have "\<exists>r. \<forall>e w b. settings_script e w b x
      = start @ 39 # e @ 39 # (10 # lit ''    $wake = '') @ 39 # w @ 39 # (10 # lit ''    $bed = '') @ 39 # b @ 39 # 10 # r" for x
    unfolding settings_script_def start_def by (simp only: unlines.simps) simp
  then obtain q where q: "settings_script e w b x
      = start @ 39 # e @ 39 # (10 # lit ''    $wake = '') @ 39 # w @ 39 # (10 # lit ''    $bed = '') @ 39 # b @ 39 # 10 # q x" for e w b x
    by metis
  show ?thesis
  proof (intro conjI)
    show "\<exists>before after. \<forall>user. plain_quotes user \<longrightarrow>
      (\<exists>t. profile_script (escape_ps_single_quoted user) = before @ 39 # t \<and> read_ps_literal t = Some (user, after))"
      using r read_quoted_line by blast
    show "\<exists>before mid1 mid2. \<forall>limit. \<exists>after. \<forall>user wake bed.
      plain_quotes user \<and> plain_quotes wake \<and> plain_quotes bed \<longrightarrow>
      (\<exists>t u v. settings_script (escape_ps_single_quoted user) (escape_ps_single_quoted wake) (escape_ps_single_quoted bed) limit
            = before @ 39 # t
         \<and> read_ps_literal t = Some (user, mid1 @ 39 # u)
         \<and> read_ps_literal u = Some (wake, mid2 @ 39 # v)
         \<and> read_ps_literal v = Some (bed, after))"
      by (rule exI [of _ start], rule exI [of _ "10 # lit ''    $wake = ''"], rule exI [of _ "10 # lit ''    $bed = ''"])
        (auto simp: q read_quoted_line)
  qed
qed

theorem script_values_stay_quoted_witness:
  "\<exists>before t after. profile_script (lit ''O'' @ [39, 39] @ lit ''Brien'') = before @ 39 # t
     \<and> read_ps_literal t = Some (lit ''O'' @ [39] @ lit ''Brien'', after)"
proof -
  have "escape_ps_single_quoted (lit ''O'' @ [39] @ lit ''Brien'') = lit ''O'' @ [39, 39] @ lit ''Brien''"
    "plain_quotes (lit ''O'' @ [39] @ lit ''Brien'')"
    by (simp_all add: escape_ps_single_quoted_def plain_quotes_def lit_def)
  with script_values_stay_quoted [THEN conjunct1] show ?thesis by metis
qed


section \<open>A profile that is not found\<close>

text \<open>
  When the profile of the account is not found, the path the installer falls back to lies below
  the current directory of the system drive, where no agent looks.
\<close>

lemma unresolved_profile_is_relative:
  assumes "resolve_user_localappdata_dir box user pc = (Inr None, pc')" and "bx_system_drive box = lit ''C:''"
    and "user \<noteq> []" and "last user \<noteq> 58"
  shows "agent_state_dir_for_user box user False pc
    = (Inr (lit ''C:Users'' @ 92 # user @ 92 # lit ''AppData'' @ 92 # lit ''Local'' @ 92 # lit ''KidPCMonitor''), pc')"
  using assms by (simp add: agent_state_dir_for_user_def bind_def under_def lit_def)


section \<open>A refusal that is not heard\<close>

text \<open>
  The question before the scheduled task is created says that the setup is cancelled, but what
  was refused is then tried with the other method, which does not ask.
\<close>

lemma refusal_leads_to_the_other_method:
  assumes "in_answers m = answer # answers" and "bx_lower box answer \<noteq> lit ''y''"
  shows "bind (create_task_with_power_settings box user script python)
      (\<lambda>ok. if ok then ret True else on_pc (create_task_simple_schtasks box user script python)) m
    = on_pc (create_task_simple_schtasks box user script python) (m\<lparr>in_answers := answers\<rparr>)"
  using assms by (simp add: create_task_with_power_settings_def bind_def typing_def zoom_def read_line_def)

theorem refused_task_is_created:
  "\<exists>m. bind (create_task_with_power_settings sample_box user script python)
      (\<lambda>ok. if ok then ret True else on_pc (create_task_simple_schtasks sample_box user script python))
      (sample_installer\<lparr>in_answers := [lit ''n'']\<rparr>) = (Inr True, m)"
proof -
  have "bx_lower sample_box (lit ''n'') \<noteq> lit ''y''" by (simp add: lower_def lower_char_def lit_def)
  moreover have "in_answers (sample_installer\<lparr>in_answers := [lit ''n'']\<rparr>) = lit ''n'' # []" by simp
  ultimately show ?thesis
    by (subst refusal_leads_to_the_other_method)
      (simp_all add: on_pc_def zoom_def create_task_simple_schtasks_def except_any_def try_with_def bind_def
        verify_task_settings_def Let_def)
qed

end
