(* ===== verification/Panel_Installer.thy ===== *)
theory Panel_Installer
  imports Installer_Flow
begin

text \<open>
  The installer of the panel on Windows, \<open>src/scripts/install_web_panel.py\<close>: the package, the
  shared secret and the scheduled task with its fallback. Commands, prompts and files are
  those of \<open>Installer\<close>. Printing is not modelled.
\<close>

section \<open>What surrounds it\<close>

text \<open>
  Beside the box of the other installer: whether the repository has its \<open>pyproject.toml\<close>, whether
  the package can be imported, and the environment variable \<open>USERNAME\<close>.
\<close>

record 'h panel_box =
  px_box :: "'h box"
  px_pyproject :: bool
  px_importable :: "'h computer \<Rightarrow> bool"
  px_username :: "pystr option"

definition PANEL_MODULE :: pystr where "PANEL_MODULE = lit ''kid_pc_monitor.web_panel''"
definition PANEL_TASK_NAME :: pystr where "PANEL_TASK_NAME = lit ''KidPCMonitorWebPanel''"

definition panel_task_script :: "pystr \<Rightarrow> pystr \<Rightarrow> pystr \<Rightarrow> pystr" where
  "panel_task_script pythonw_path current_user task_name = unlines
    [[],
     lit ''    $ErrorActionPreference = '' @ [39] @ lit ''Stop'' @ [39],
     lit ''    try {'',
     lit ''        $action = New-ScheduledTaskAction -Execute '' @ [34] @ pythonw_path @ [34]
        @ lit '' -Argument '' @ [34] @ lit ''-m '' @ PANEL_MODULE @ [34],
     [],
     lit ''        $triggers = @('',
     lit ''            (New-ScheduledTaskTrigger -AtStartup),'',
     lit ''            (New-ScheduledTaskTrigger -AtLogon)'',
     lit ''        )'',
     [],
     lit ''        $principal = New-ScheduledTaskPrincipal -UserId '' @ [34] @ current_user @ [34]
        @ lit '' -LogonType Interactive -RunLevel Highest'',
     [],
     lit ''        $settings = New-ScheduledTaskSettingsSet '' @ [96],
     lit ''            -AllowStartIfOnBatteries '' @ [96],
     lit ''            -DontStopIfGoingOnBatteries '' @ [96],
     lit ''            -StartWhenAvailable '' @ [96],
     lit ''            -DontStopOnIdleEnd '' @ [96],
     lit ''            -RestartCount 3 '' @ [96],
     lit ''            -RestartInterval (New-TimeSpan -Minutes 1) '' @ [96],
     lit ''            -ExecutionTimeLimit (New-TimeSpan -Hours 0)'',
     [],
     lit ''        Register-ScheduledTask '' @ [96],
     lit ''            -TaskName '' @ [34] @ task_name @ [34] @ lit '' '' @ [96],
     lit ''            -Action $action '' @ [96],
     lit ''            -Trigger $triggers '' @ [96],
     lit ''            -Principal $principal '' @ [96],
     lit ''            -Settings $settings '' @ [96],
     lit ''            -Force'',
     [],
     lit ''        $task = Get-ScheduledTask -TaskName '' @ [34] @ task_name @ [34]
        @ lit '' -ErrorAction Stop'',
     lit ''        Write-Host '' @ [34] @ lit ''SUCCESS: Task verified in Task Scheduler'' @ [34],
     lit ''        Write-Host '' @ [34] @ lit ''Task Path: $($task.TaskPath)'' @ [34],
     lit ''        Write-Host '' @ [34] @ lit ''Triggers: $($task.Triggers)'' @ [34],
     lit ''        Write-Host '' @ [34] @ lit ''Principal: $($task.Principal)'' @ [34],
     [],
     lit ''        Start-ScheduledTask -TaskName '' @ [34] @ task_name @ [34],
     lit ''        Write-Host '' @ [34] @ lit ''Task started.'' @ [34],
     lit ''        exit 0'',
     lit ''    }'',
     lit ''    catch {'',
     lit ''        Write-Host '' @ [34] @ lit ''ERROR: $_'' @ [34],
     lit ''        Write-Host '' @ [34] @ lit ''Detailed error: $($_.Exception.Message)'' @ [34],
     lit ''        exit 1'',
     lit ''    }'',
     lit ''    '']"

definition panel_task_xml :: "pystr \<Rightarrow> pystr" where
  "panel_task_xml pythonw_path = unlines
    [lit ''<?xml version='' @ [34] @ lit ''1.0''
        @ [34] @ lit '' encoding='' @ [34] @ lit ''UTF-16'' @ [34] @ lit ''?>'',
     lit ''<Task version='' @ [34] @ lit ''1.2'' @ [34] @ lit '' xmlns='' @ [34]
        @ lit ''http://schemas.microsoft.com/windows/2004/02/mit/task'' @ [34] @ lit ''>'',
     lit ''  <RegistrationInfo>'',
     lit ''    <Description>Kid PC Monitor Web Panel - Admin interface for managing child PC usage</Description>'',
     lit ''  </RegistrationInfo>'',
     lit ''  <Triggers>'',
     lit ''    <LogonTrigger>'',
     lit ''      <Enabled>true</Enabled>'',
     lit ''    </LogonTrigger>'',
     lit ''  </Triggers>'',
     lit ''  <Principals>'',
     lit ''    <Principal id='' @ [34] @ lit ''Author'' @ [34] @ lit ''>'',
     lit ''      <LogonType>InteractiveToken</LogonType>'',
     lit ''      <RunLevel>HighestAvailable</RunLevel>'',
     lit ''    </Principal>'',
     lit ''  </Principals>'',
     lit ''  <Settings>'',
     lit ''    <MultipleInstancesPolicy>IgnoreNew</MultipleInstancesPolicy>'',
     lit ''    <DisallowStartIfOnBatteries>false</DisallowStartIfOnBatteries>'',
     lit ''    <StopIfGoingOnBatteries>false</StopIfGoingOnBatteries>'',
     lit ''    <AllowHardTerminate>true</AllowHardTerminate>'',
     lit ''    <StartWhenAvailable>true</StartWhenAvailable>'',
     lit ''    <RunOnlyIfNetworkAvailable>false</RunOnlyIfNetworkAvailable>'',
     lit ''    <IdleSettings>'',
     lit ''      <StopOnIdleEnd>false</StopOnIdleEnd>'',
     lit ''      <RestartOnIdle>false</RestartOnIdle>'',
     lit ''    </IdleSettings>'',
     lit ''    <AllowStartOnDemand>true</AllowStartOnDemand>'',
     lit ''    <Enabled>true</Enabled>'',
     lit ''    <Hidden>false</Hidden>'',
     lit ''    <RunOnlyIfIdle>false</RunOnlyIfIdle>'',
     lit ''    <WakeToRun>false</WakeToRun>'',
     lit ''    <ExecutionTimeLimit>PT0S</ExecutionTimeLimit>'',
     lit ''    <Priority>7</Priority>'',
     lit ''    <RestartOnFailure>'',
     lit ''      <Interval>PT1M</Interval>'',
     lit ''      <Count>3</Count>'',
     lit ''    </RestartOnFailure>'',
     lit ''  </Settings>'',
     lit ''  <Actions Context='' @ [34] @ lit ''Author'' @ [34] @ lit ''>'',
     lit ''    <Exec>'',
     lit ''      <Command>'' @ pythonw_path @ lit ''</Command>'',
     lit ''      <Arguments>-m '' @ PANEL_MODULE @ lit ''</Arguments>'',
     lit ''    </Exec>'',
     lit ''  </Actions>'',
     lit ''</Task>'']"

section \<open>The package and the secret\<close>

definition ensure_package_installed :: "'h panel_box \<Rightarrow> ('h computer, bool) act" where
  "ensure_package_installed px =
     (if \<not> px_pyproject px then ret False
      else
        bind (gets (px_importable px))
          (\<lambda>there. if there then ret True
             else
               bind (run_command (px_box px) (Argv [bx_executable (px_box px), lit ''-m'', lit ''pip'', lit ''install'',
                      bx_repo_root (px_box px)]))
                 (\<lambda>(status, _). ret (status = 0))))"

definition configure_shared_secret :: "'h panel_box \<Rightarrow> bytes \<Rightarrow> ('h installer, unit) act" where
  "configure_shared_secret px random =
     bind (on_pc (gets (px_importable px)))
       (\<lambda>there. if there then ask_for_secret (px_box px) random else ret ())"

section \<open>The scheduled task\<close>

definition pythonw_path :: "'h panel_box \<Rightarrow> pystr" where
  "pythonw_path px = replace_text (lit ''python.exe'') (lit ''pythonw.exe'') (bx_executable (px_box px))"

definition panel_create_task_with_power_settings :: "'h panel_box \<Rightarrow> ('h installer, bool) act" where
  "panel_create_task_with_power_settings px =
     bind (on_pc (ensure_package_installed px))
       (\<lambda>there. if \<not> there then ret False
          else
            bind (typing read_line)
              (\<lambda>confirm.
                 if bx_lower (px_box px) confirm \<noteq> lit ''y'' then ret False
                 else
                   on_pc (except_any
                     (bind (run_command (px_box px) (Argv [lit ''powershell'', lit ''-ExecutionPolicy'', lit ''Bypass'',
                            lit ''-Command'',
                            panel_task_script (pythonw_path px)
                              (case px_username px of Some u \<Rightarrow> u | None \<Rightarrow> lit ''None'') PANEL_TASK_NAME]))
                       (\<lambda>(status, _).
                          if status = 0
                          then bind (run_command (px_box px) (Shell_line (lit ''schtasks /query /tn '' @ quoted PANEL_TASK_NAME)))
                                 (\<lambda>(status, _). ret (status = 0))
                          else ret False))
                     (ret False))))"

definition panel_create_task_simple_schtasks :: "'h panel_box \<Rightarrow> ('h computer, bool) act" where
  "panel_create_task_simple_schtasks px =
     bind (ensure_package_installed px)
       (\<lambda>there. if \<not> there then ret False
          else
            except_any
              (bind (modify (\<lambda>pc. pc\<lparr>co_task_config := Some (panel_task_xml (pythonw_path px))\<rparr>))
                (\<lambda>_. bind (run_command (px_box px) (Shell_line (lit ''schtasks /create /tn '' @ quoted PANEL_TASK_NAME
                          @ lit '' /xml '' @ quoted (lit ''task_config.xml'') @ lit '' /f'')))
                  (\<lambda>(status, _). bind (modify (\<lambda>pc. pc\<lparr>co_task_config := None\<rparr>))
                    (\<lambda>_. if status = 0
                       then bind (verify_task_settings (px_box px) PANEL_TASK_NAME)
                              (\<lambda>_. bind (run_command (px_box px) (Shell_line (lit ''schtasks /run /tn '' @ quoted PANEL_TASK_NAME)))
                                (\<lambda>_. ret True))
                       else ret False))))
              (ret False))"

definition panel_remove_task :: "'h panel_box \<Rightarrow> ('h computer, unit) act" where
  "panel_remove_task px =
     bind (run_command (px_box px) (Shell_line (lit ''schtasks /delete /tn '' @ quoted PANEL_TASK_NAME @ lit '' /f'')))
       (\<lambda>_. ret ())"

text \<open>The choice \<open>1\<close>; whether a task was created.\<close>

definition panel_setup :: "'h panel_box \<Rightarrow> bytes \<Rightarrow> ('h installer, bool) act" where
  "panel_setup px random =
     bind (on_pc (ensure_package_installed px))
       (\<lambda>there. bind (if there then configure_shared_secret px random else ret ())
         (\<lambda>_. bind (panel_create_task_with_power_settings px)
           (\<lambda>ok. if ok then ret True else on_pc (panel_create_task_simple_schtasks px))))"

definition panel_install_main :: "'h panel_box \<Rightarrow> bytes \<Rightarrow> ('h installer, int) act" where
  "panel_install_main px random =
     (if \<not> bx_admin (px_box px) then bind (typing read_line) (\<lambda>_. ret 1)
      else
        bind (typing read_line)
          (\<lambda>choice. bind
             (if strip choice = lit ''1'' then bind (panel_setup px random) (\<lambda>_. ret ())
              else if strip choice = lit ''2'' then on_pc (panel_remove_task px)
              else ret ())
             (\<lambda>_. bind (typing read_line) (\<lambda>_. ret 0))))"

section \<open>Without the package there is no task\<close>

lemma ensure_idle: "\<not> px_pyproject px \<Longrightarrow> ensure_package_installed px pc = (Inr False, pc)"
  by (simp add: ensure_package_installed_def)

text \<open>Outside a checkout of the repository the setup changes nothing and asks nothing.\<close>

lemma setup_needs_the_checkout:
  assumes "\<not> px_pyproject px"
  shows "panel_setup px random m = (Inr False, m)"
  using ensure_idle [OF assms]
  by (simp add: panel_setup_def panel_create_task_with_power_settings_def panel_create_task_simple_schtasks_def
      bind_def on_pc_def zoom_def)

text \<open>
  A secret is only asked for when the package can be used, and then it is stored before a task
  is created; what was refused at the question before the task is tried with the other method.
\<close>

lemma refused_setup_goes_on:
  assumes "on_pc (ensure_package_installed px) m = (Inr True, m)" and "configure_shared_secret px random m = (Inr (), m1)"
    and "on_pc (ensure_package_installed px) m1 = (Inr True, m1)"
    and "in_answers m1 = answer # answers" and "bx_lower (px_box px) answer \<noteq> lit ''y''"
  shows "panel_setup px random m = on_pc (panel_create_task_simple_schtasks px) (m1\<lparr>in_answers := answers\<rparr>)"
  using assms
  by (simp add: panel_setup_def bind_def panel_create_task_with_power_settings_def typing_def zoom_def read_line_def)

end
