(* ===== verification/Local_Address.thy ===== *)
theory Local_Address
  imports Firewall
begin

text \<open>
  The own IPv4 address (\<open>src/kid_pc_monitor/network.py\<close>): which of the addresses the operating
  system knows is shown and announced. What the system answers is a record: None stands for
  an OSError, a failed command or a file that is not there.
\<close>

section \<open>The operating system\<close>

record network_os =
  os_system :: pystr
  os_hostname_addresses :: "pystr list option"
  os_proc_route :: "pystr option"
  os_interface_address :: "pystr \<Rightarrow> pystr option"
  os_routing_address :: "pystr option"
  os_route_get_default :: "pystr option"
  os_getifaddr :: "pystr \<Rightarrow> pystr option"
  os_powershell_address :: "pystr option"
  os_inet_aton :: "pystr \<Rightarrow> bytes option"

section \<open>Usable addresses\<close>

definition usable_ipv4 :: "network_os \<Rightarrow> pystr option \<Rightarrow> pystr option" where
  "usable_ipv4 os ip =
     (case ip of
        None \<Rightarrow> None
      | Some a \<Rightarrow>
          if a = [] \<or> starts_with (lit ''127.'') a \<or> starts_with (lit ''169.254.'') a then None
          else
            (case os_inet_aton os a of
               None \<Rightarrow> None
             | Some addr \<Rightarrow> if addr = [0, 0, 0, 0] then None else Some a))"

fun first_usable :: "network_os \<Rightarrow> pystr list \<Rightarrow> pystr option" where
  "first_usable os [] = None"
| "first_usable os (ip # ips) =
     (case usable_ipv4 os (Some ip) of Some u \<Rightarrow> Some u | None \<Rightarrow> first_usable os ips)"

definition hostname_ipv4 :: "network_os \<Rightarrow> pystr option" where
  "hostname_ipv4 os = (case os_hostname_addresses os of None \<Rightarrow> None | Some addresses \<Rightarrow> first_usable os addresses)"

section \<open>Per system\<close>

definition get_linux_default_interface :: "network_os \<Rightarrow> pystr option" where
  "get_linux_default_interface os =
     (case os_proc_route os of None \<Rightarrow> None | Some text \<Rightarrow> linux_default_interface_from_proc text)"

definition linux_primary_ipv4 :: "network_os \<Rightarrow> pystr option" where
  "linux_primary_ipv4 os =
     (case get_linux_default_interface os of
        None \<Rightarrow> None
      | Some iface \<Rightarrow> if iface = [] then None else usable_ipv4 os (os_interface_address os iface))"

definition windows_primary_ipv4 :: "network_os \<Rightarrow> pystr option" where
  "windows_primary_ipv4 os =
     (case os_powershell_address os of
        None \<Rightarrow> None
      | Some text \<Rightarrow>
          let out = strip text in usable_ipv4 os (if out \<noteq> [] then Some (hd (splitlines out)) else None))"

text \<open>The search for \<open>interface:\s*(\S+)\<close>.\<close>

fun interface_in :: "pystr \<Rightarrow> pystr option" where
  "interface_in [] = None"
| "interface_in (c # cs) =
     (let after = dropWhile is_space (drop 10 (c # cs)) in
      if starts_with (lit ''interface:'') (c # cs) \<and> after \<noteq> []
      then Some (takeWhile (\<lambda>d. \<not> is_space d) after)
      else interface_in cs)"

definition darwin_primary_ipv4 :: "network_os \<Rightarrow> pystr option" where
  "darwin_primary_ipv4 os =
     (case os_route_get_default os of
        None \<Rightarrow> None
      | Some route_out \<Rightarrow>
          (case interface_in route_out of
             None \<Rightarrow> None
           | Some iface \<Rightarrow>
               (case os_getifaddr os iface of None \<Rightarrow> None | Some ip \<Rightarrow> usable_ipv4 os (Some (strip ip)))))"

definition ipv4_from_routing_socket :: "network_os \<Rightarrow> pystr option" where
  "ipv4_from_routing_socket os =
     (case os_routing_address os of None \<Rightarrow> None | Some a \<Rightarrow> usable_ipv4 os (Some a))"

definition platform_resolvers :: "pystr \<Rightarrow> (network_os \<Rightarrow> pystr option) list" where
  "platform_resolvers system =
     (if system = lit ''Linux'' then [linux_primary_ipv4]
      else if system = lit ''Windows'' then [ipv4_from_routing_socket, hostname_ipv4]
      else if system = lit ''Darwin'' then [darwin_primary_ipv4, hostname_ipv4]
      else [hostname_ipv4])"

fun first_resolved :: "network_os \<Rightarrow> (network_os \<Rightarrow> pystr option) list \<Rightarrow> pystr option" where
  "first_resolved os [] = ipv4_from_routing_socket os"
| "first_resolved os (resolver # rs) =
     (case resolver os of
        Some ip \<Rightarrow> if ip \<noteq> [] then Some ip else first_resolved os rs
      | None \<Rightarrow> first_resolved os rs)"

definition get_primary_ipv4 :: "network_os \<Rightarrow> pystr option" where
  "get_primary_ipv4 os = first_resolved os (platform_resolvers (os_system os))"

definition get_local_ip :: "network_os \<Rightarrow> pystr" where
  "get_local_ip os =
     (case get_primary_ipv4 os of
        Some ip \<Rightarrow> if ip \<noteq> [] then ip else lit ''127.0.0.1''
      | None \<Rightarrow> lit ''127.0.0.1'')"

section \<open>What is announced\<close>

definition usable_address :: "network_os \<Rightarrow> pystr \<Rightarrow> bool" where
  "usable_address os ip \<longleftrightarrow>
     ip \<noteq> [] \<and> \<not> starts_with (lit ''127.'') ip \<and> \<not> starts_with (lit ''169.254.'') ip
     \<and> (\<exists>addr. os_inet_aton os ip = Some addr \<and> addr \<noteq> [0, 0, 0, 0])"

lemma usable_ipv4_usable: "usable_ipv4 os ip = Some u \<Longrightarrow> ip = Some u \<and> usable_address os u"
  by (auto simp: usable_ipv4_def usable_address_def split: option.splits if_splits)

lemma first_usable_usable: "first_usable os ips = Some u \<Longrightarrow> usable_address os u"
  by (induction ips) (auto split: option.splits dest: usable_ipv4_usable)

lemma resolvers_usable:
  assumes "resolver \<in> set (platform_resolvers system)" and "resolver os = Some u"
  shows "usable_address os u"
proof -
  have "linux_primary_ipv4 os = Some u \<Longrightarrow> usable_address os u" "hostname_ipv4 os = Some u \<Longrightarrow> usable_address os u"
    "ipv4_from_routing_socket os = Some u \<Longrightarrow> usable_address os u" "darwin_primary_ipv4 os = Some u \<Longrightarrow> usable_address os u"
    by (auto simp: linux_primary_ipv4_def hostname_ipv4_def ipv4_from_routing_socket_def darwin_primary_ipv4_def
        split: option.splits if_splits dest: usable_ipv4_usable first_usable_usable)
  then show ?thesis using assms by (auto simp: platform_resolvers_def split: if_splits)
qed

lemma first_resolved_usable:
  "\<forall>r \<in> set rs. \<forall>u. r os = Some u \<longrightarrow> usable_address os u \<Longrightarrow> first_resolved os rs = Some u \<Longrightarrow> usable_address os u"
  by (induction rs)
    (auto simp: ipv4_from_routing_socket_def split: option.splits if_splits dest: usable_ipv4_usable)

text \<open>
  The address the agent announces and the panel shows can be reached from the network: it is
  a valid address that is neither of the own computer nor link-local nor 0.0.0.0, unless
  nothing better than 127.0.0.1 is known.
\<close>

theorem announced_address_is_usable:
  "(case get_primary_ipv4 os of
      Some ip \<Rightarrow> usable_address os ip \<and> get_local_ip os = ip
    | None \<Rightarrow> get_local_ip os = lit ''127.0.0.1'')"
proof (cases "get_primary_ipv4 os")
  case (Some ip)
  then have "usable_address os ip"
    using first_resolved_usable [of "platform_resolvers (os_system os)" os ip] resolvers_usable
    unfolding get_primary_ipv4_def by blast
  then show ?thesis using Some by (simp add: get_local_ip_def usable_address_def)
qed (simp add: get_local_ip_def)

end
