(* ===== verification/Spec2Isabelle.thy ===== *)
theory Spec2Isabelle
  imports Lock_Policy Agent_State State_Store Kdl Framing Auth Protocol Time_Control Log_Tail
    Dispatcher Log_Reply Control_Server Remote_Client Snapshot_Store Sync_Store Reverse_Server
    Agent_Link Button_Press Request_Queue Listener Agent_Process Panel_Connection Firewall_Report Panel_Site Display_Dates Db_File Path_Names Start_Up Windows_Words Panel_Clock Web_Guards Shared_Key Firewall_Fix Windows_Host
    Install_Safety Panel_Installer Monitor_Loop Local_Address Panel_Upkeep
begin

text \<open>
  Kid PC Monitor has two programs. The agent runs on the child's computer: it counts the
  time of use, warns, and locks the session outside the permitted hours. The panel is a web
  application of the parent: it shows the computers it knows and sends commands to them. The
  agent looks for the panel on the local network and keeps a connection to it open; over
  this connection the panel sends signed requests and the agent sends signed responses. The
  library models the Python implementation under \<open>src/src/kid_pc_monitor\<close>, a theory per part:

  \<^item> \<open>Prelude\<close>, \<open>PyText\<close>, \<open>Calendar\<close>, \<open>Effects\<close>: exceptions as values of a sum, Python's text and
    number conversions, dates and times, actions on a state that may raise. What an action
    leaves of the state is handled by the locale \<open>step_relation\<close> of \<open>Effects\<close>, interpreted on
    the relations of the components (what a command keeps, what a page keeps, what the installer
    leaves of the settings files).
  \<^item> \<open>Lock_Policy\<close> (\<open>lock_policy.py\<close>): when the session is to be locked, and when it will be. The
    curfew is compared with the circular interval it means, the minutes to the next lock with
    the decision at every later minute.
  \<^item> \<open>Agent_State\<close>, \<open>State_Store\<close> (\<open>agent_state.py\<close>): the settings and the state of a day, and the two
    JSON documents they are kept in, with validation, backup, quarantine and restoring. A write
    that fails may leave part of a file; whatever fails during a save, or if the process dies
    in the middle, each of the two files holds its old or its new document.
  \<^item> \<open>Time_Control\<close> (\<open>pc_time_control.py\<close>): the agent's state and the phases of its monitor.
  \<^item> \<open>Kdl\<close>, \<open>Framing\<close>, \<open>Auth\<close>, \<open>Protocol\<close> (\<open>agent_protocol.py\<close>, \<open>agent_auth.py\<close>): the text format, the
    frames on the stream, signatures, and the canonical requests and responses with all the
    checks a receiver makes. Round trips, and what an accepted request implies.
  \<^item> \<open>Dispatcher\<close>, \<open>Log_Tail\<close>, \<open>Log_Reply\<close>, \<open>Control_Server\<close> (\<open>request_dispatcher.py\<close>,
    \<open>remote_control_server.py\<close>): the commands, the reading of the end of a log file and its
    fitting into a frame, the handling of one request. The commands refine an abstract
    specification (\<open>obey\<close>) of settings, lock, extensions and usage.
  \<^item> \<open>Agent_Link\<close>, \<open>Panel_Connection\<close> (\<open>agent_sync_client.py\<close>): discovery of the panel, opening a
    connection with and without TLS, serving, connecting again, stopping.
  \<^item> \<open>Agent_Process\<close> (\<open>pc_control.py\<close>, \<open>agent_diagnostics.py\<close>): the threads of the agent on one \<open>PCTimeControl\<close>; however
    they interleave, the rules the child is under are those that the accepted commands made (a
    captured command that is replayed while its stamp is fresh counts as one).
  \<^item> \<open>Panel_Data\<close>, \<open>Remote_Client\<close> (\<open>remote_client.py\<close>, parts of \<open>panel_format.py\<close>): JSON objects, the
    requests the panel's buttons make, the exchange with an agent, its settings as shown.
  \<^item> \<open>Panel_Db\<close>, \<open>Scan_Store\<close>, \<open>Snapshot_Store\<close>, \<open>Sync_Store\<close> (\<open>panel_db.py\<close>, \<open>panel_clock.py\<close>,
    \<open>scan_store.py\<close>, \<open>snapshot_store.py\<close>, \<open>agent_sync_store.py\<close>): the panel's tables as lists of rows,
    each query as the function of the rows it computes.
  \<^item> \<open>Db_File\<close>, \<open>Panel_Clock\<close> (\<open>panel_db.py\<close>, \<open>panel_clock.py\<close>): the connection to the file, with
    transactions, statements that fail and the work of other connections between them; the
    operations of the stores as statements, which make the functions above or change nothing
    (a snapshot whose trimming fails stays); the migration of older files; the clock and its test hook.
  \<^item> \<open>Reverse_Server\<close> (\<open>panel_reverse_server.py\<close>): the sessions of the agents. The threads of the
    connections are a step relation; its reachable states keep the registry consistent.
  \<^item> \<open>Request_Queue\<close>, \<open>Listener\<close> (the same file): the queue between the panel's pages and the loop of
    a session, as interleaved steps that refine the sequential loop; the socket that listens.
  \<^item> \<open>Web_Auth\<close>, \<open>Web_Panel\<close>, \<open>Web_Guards\<close> (\<open>web_panel.py\<close>): password file, browser sessions, form
    tokens, routes and views, and what the guards in front of the views promise.
  \<^item> \<open>Panel_Site\<close>, \<open>Display_Dates\<close> (\<open>web_panel.py\<close>, \<open>panel_format.py\<close>): the application around the
    views, its headers, its discovery answer and its start, with the listener at the port the
    agent finds; the dates the pages show.
  \<^item> \<open>Button_Press\<close> and this theory: panel and agent together, from the button to the saved change.
  \<^item> \<open>Windows_Host\<close>, \<open>Monitor_Loop\<close> (\<open>platforms/windows.py\<close>, \<open>host_platform.py\<close>, the loops of
    \<open>pc_time_control.py\<close>): the host of the agent over the answers of the Windows API, as the
    platform the monitor of \<open>Time_Control\<close> runs on (whether a request to lock takes effect is
    up to Windows), and the monitor's endless loop, which enforces the policy at every step
    whatever failed before. \<open>Windows_Words\<close>: the layout of the C structures
    and the 32-bit values that are read from them.
  \<^item> \<open>Secret_Store\<close>, \<open>Shared_Key\<close> (\<open>secrets_store.py\<close>, \<open>shared_secret.py\<close>): the secret both halves share,
    from the prompt of the installer to the request that is accepted.
  \<^item> \<open>Install_Scripts\<close>, \<open>Installer\<close>, \<open>Installer_Flow\<close>, \<open>Installed_Schedule\<close>, \<open>Install_Safety\<close>
    (\<open>src/scripts/install.py\<close>): the installation of the agent, from the prompts to the schedule the
    agent loads at its first start, whatever the PowerShell fallback leaves; updates; what is put
    into scripts stays within its quotes.
  \<^item> \<open>Text_Lines\<close>, \<open>Firewall\<close>, \<open>Firewall_Fix\<close>, \<open>Firewall_Report\<close>, \<open>Local_Address\<close>
    (\<open>linux_firewall.py\<close>, \<open>network.py\<close>): the advice on the panel's firewall, that following it opens
    the ports, and that a shell reads the printed commands as the advised ones; the own address.
  \<^item> \<open>Panel_Installer\<close>, \<open>Panel_Upkeep\<close> (\<open>src/scripts/install_web_panel.py\<close>, \<open>agent_poller.py\<close>,
    \<open>panel_format.py\<close>, \<open>paths.py\<close>): the setup of the panel on Windows, and what runs beside its pages.
  \<^item> \<open>Path_Names\<close>, \<open>Start_Up\<close> (\<open>paths.py\<close> and the path functions of the stores, \<open>venv_python.py\<close>,
    \<open>src/scripts/_launcher.py\<close>, \<open>run_agent.py\<close>, \<open>run_web_panel.py\<close>): where the files are, and how the programs start.

  Conventions. A definition has the name of the function it models. A Python object whose
  attributes change is a record that is passed along; a dictionary of JSON is an association
  list, a table a list of rows. Whatever the code reads from outside at a point (the clock,
  random bytes, what a socket gives) is an argument of that point. Readings of the clock in
  different steps are different arguments; within one operation (a method of
  \<open>PCTimeControl\<close>, a load or save of the files, a write of a store) one reading serves where the
  source reads the clock several times in a row. Integers are unbounded, as in Python; floating-point numbers are rationals,
  so sums of seconds are exact where Python rounds. Texts are lists of code points.

  Parameters: the HMAC, the password hash, \<open>str\<close> and \<open>repr\<close> of values the sources do not
  build themselves, the local time zone, Unicode case folding, HTTP, sockets, the
  Fernet cipher, the Windows API (the effect of \<open>LockWorkStation\<close> included), the effects of the
  commands an installer runs. Theorems that
  need a law of one of them state it as a hypothesis, and a witness instantiates it.

  Interfaces. \<open>codec\<close> (a value is written and read back) is interpreted on the clock times, UTF-8,
  the KDL documents, the frames and the settings file; \<open>stepper\<close> (an invariant along a sequence of
  steps) on the registry of computers and the count of use; \<open>step_relation\<close> as said above;
  \<open>secret_source\<close> and \<open>paired_hosts\<close> (what the protocol needs of the secret store) on the installer;
  \<open>store_write\<close> (a write is one transaction) on the writing operations of the panel's stores.

  Bounds and fuel. The parser of \<open>Kdl\<close> takes one more than the number of tokens as fuel;
  \<open>parse_fuel_enough\<close> shows that it never runs out. The loops on sockets are recursions on what the socket still gives, the
  endless loops of threads recursions on the events there are, and the reading of a log
  file recurses on the bytes left.

  Not modelled, and why: the HTML templates (presentation); log output, the handlers of
  \<open>logging\<close> and what Windows says in the connectivity diagnostics, which is logged; the SQL engine below its
  statements (which of them fail, and what other connections commit in between, is given);
  file-system races between processes; verbs of HTTP other than GET and POST, the status 405 and
  flashed messages; what firewalld does with an advised command beyond adding the port to its
  zone; \<open>cross_check_go.py\<close> under \<open>src/scripts\<close>, which starts Go
  binaries and compares what they print with what the functions modelled here return.
\<close>

section \<open>From the parent's panel to the child's computer\<close>

text \<open>
  C1. A button on the panel changes the child's computer, and says whether it did: whatever
  the panel's connection threads have done so far, and wherever the stream between the two
  computers cuts the bytes, pressing a settings button for an address at which an agent is
  connected runs the button's command on that agent. Either the page shows success and the
  agent's settings, lock, extensions and usage are what the command prescribes, and the files
  hold them if no access to the disk fails (a failing save is only logged, the page shows
  success all the same); or it shows the agent's refusal and nothing has changed.
  Conditions: the agent could read its files when it started (otherwise the change may be lost,
  \<open>Time_Control.change_is_lost_after_failed_load\<close>), tells its name, and has a clock that shows a day of
  the calendar after the first; the texts can be encoded and fit their frames, the stamps are
  fresh when they arrive, and nothing else happens on the connection in between.
\<close>

theorem pressed_button_is_carried_out:
  assumes "reachable zone db pw" and "live_session (w_server pw) ip = Some ses"
    and "action_request_fields button page = Inr (a, v, x, tail)" and "a \<in> set settings_actions"
    and "a = lit ''set'' \<longrightarrow> x \<noteq> JNull"
    and "case wire_val text_of x of None \<Rightarrow> True | Some y \<Rightarrow> ok_val y"
    and "build_request (e_python env) secret a v (wire_val text_of x) (Some (make_nonce (m_id m)))
           (Some (rs_hostname ses)) (m_sent m) (make_nonce (m_nonce m)) 3 tail = Inr body"
    and "fits_frame body" and "\<forall>b \<in> set (m_id m). b < 256"
    and "fresh_stamp (m_sent m) (make_nonce (m_nonce m)) (tn_now t)"
    and "fresh_stamp (tn_sent t) (make_nonce (tn_random t)) (m_read m)"
    and "chops chop" and "wi_sent s = []" and "tn_meanwhile t = (\<lambda>w. w)" and "tn_send t = Inr ()"
    and "named (e_platform env) (rs_hostname ses)" and "clean_texts (e_python env) secret (rs_hostname ses)"
    and "prev_day (date_of (w_clock (wi_agent s))) = Inr y" and "valid_date (date_of (w_clock (wi_agent s)))"
    and "\<not> w_state_load_failed (wi_agent s)"
    and "\<forall>reply w'. handle_request env body secret (tn_now t) (tn_sent t) (tn_random t) (wi_agent s) = (Inr reply, w')
           \<longrightarrow> fits_frame reply"
  shows "\<exists>resp s'. session_loop (e_python env) text_of (agent_side env secret chop t) secret (rs_hostname ses)
          [Item (a, v, x, tail) m] s = (Inr [Answer (Inr resp)], s')
    \<and> perform_action (e_python env) (w_server pw)
        (pressed (e_python env) text_of (agent_side env secret chop t) secret m s) ip button page
        = Some (response_ok resp, response_text resp)
    \<and> (case command_of (sent_request a v (wire_val text_of x) (Some (make_nonce (m_id m))) (Some (rs_hostname ses))
              (m_sent m) (make_nonce (m_nonce m)) tail) of
          Inl e \<Rightarrow> wi_agent s' = wi_agent s \<and> \<not> response_ok resp
        | Inr c \<Rightarrow> parental_of (wi_agent s') = obey (w_clock (wi_agent s)) c (parental_of (wi_agent s))
            \<and> (no_faults (w_disk (wi_agent s)) \<longrightarrow> on_file (wi_agent s')) \<and> response_ok resp)"
proof -
  from button_carried_out [OF assms(3-21)] obtain resp s' where
    r: "run_item (e_python env) text_of (agent_side env secret chop t) secret (rs_hostname ses) (a, v, x, tail) m s
        = (Inr resp, s')" and
    c: "case command_of (sent_request a v (wire_val text_of x) (Some (make_nonce (m_id m))) (Some (rs_hostname ses))
              (m_sent m) (make_nonce (m_nonce m)) tail) of
          Inl e \<Rightarrow> wi_agent s' = wi_agent s \<and> \<not> response_ok resp
        | Inr c \<Rightarrow> parental_of (wi_agent s') = obey (w_clock (wi_agent s)) c (parental_of (wi_agent s))
            \<and> save_tried (wi_agent s) (wi_agent s') \<and> response_ok resp"
    by (elim exE conjE)
  note l = session_loop_item [OF r]
  then have "pressed (e_python env) text_of (agent_side env secret chop t) secret m s ses (a, v, x, tail) = Inr resp"
    by (simp add: pressed_def del: session_loop.simps)
  from perform_action_runs [where run = "pressed (e_python env) text_of (agent_side env secret chop t) secret m s",
      OF assms(1-3) this] l c tried_on_file show ?thesis by (auto split: sum.splits)
qed

theorem pressed_button_is_carried_out_witness:
  "\<exists>resp s'. perform_action (e_python sample_env) (w_server (connected kid_session))
        (pressed (e_python sample_env) (\<lambda>_. []) (agent_side sample_env (lit ''key'') one_by_one kid_turn) (lit ''key'')
           press_moment kid_wire)
        (lit ''10.0.0.7'') (lit ''extend_time'') [(lit ''minutes'', JInt 30)] = Some (True, response_text resp)
     \<and> session_loop (e_python sample_env) (\<lambda>_. []) (agent_side sample_env (lit ''key'') one_by_one kid_turn) (lit ''key'')
        (lit ''kid'') [Item (lit ''extend'', None, JInt 30, None) press_moment] kid_wire = (Inr [Answer (Inr resp)], s')
     \<and> par_extension (parental_of (wi_agent s')) = 1800 \<and> on_file (wi_agent s')"
proof -
  obtain body where body: "build_request (e_python sample_env) (lit ''key'') (lit ''extend'') None (Some (PInt 30))
      (Some (make_nonce [4, 5, 6])) (Some (lit ''kid'')) 1030 (make_nonce sample_random) 3 None = Inr body" "fits_frame body"
    using press_body by blast
  have open_session: "reachable (\<lambda>_. 0) empty_db (connected kid_session)"
    by (rule reachable_connected) simp
  let ?py = "e_python sample_env" and ?n = "rs_hostname kid_session"
  have page: "lit ''extend'' = lit ''set'' \<longrightarrow> JInt 30 \<noteq> JNull"
    "case wire_val (\<lambda>_. []) (JInt 30) of None \<Rightarrow> True | Some y \<Rightarrow> ok_val y"
    by (simp_all add: ok_val_def)
  have built: "build_request ?py (lit ''key'') (lit ''extend'') None (wire_val (\<lambda>_. []) (JInt 30))
      (Some (make_nonce (m_id press_moment))) (Some ?n) (m_sent press_moment) (make_nonce (m_nonce press_moment)) 3 None = Inr body"
    using body(1) by simp
  have reply: "\<forall>reply w'. handle_request sample_env body (lit ''key'') (tn_now kid_turn) (tn_sent kid_turn)
      (tn_random kid_turn) (wi_agent kid_wire) = (Inr reply, w') \<longrightarrow> fits_frame reply"
    using press_reply [OF body(1)] by simp
  have times: "fresh_stamp (m_sent press_moment) (make_nonce (m_nonce press_moment)) (tn_now kid_turn)"
    "fresh_stamp (tn_sent kid_turn) (make_nonce (tn_random kid_turn)) (m_read press_moment)"
    using sample_reply_stamp by simp_all
  have agent: "named (e_platform sample_env) ?n" "clean_texts ?py (lit ''key'') ?n"
    "prev_day (date_of (w_clock (wi_agent kid_wire))) = Inr (Date 2026 3 3)"
    "valid_date (date_of (w_clock (wi_agent kid_wire)))" "\<not> w_state_load_failed (wi_agent kid_wire)"
    using sample_named sample_clean sample_clock by simp_all
  have small: "\<forall>b \<in> set (m_id press_moment). b < 256" by simp
  note result = pressed_button_is_carried_out [OF open_session connected_session extend_action extend_is_settings page built
      body(2) small times chops_one_by_one example_simps(14,8,12) agent reply]
  have "par_extension (obey (w_clock sample_world) (Extend_by 30) (parental_of sample_world)) = 1800"
    by (simp add: parental_of_def sample_world_def)
  moreover have "no_faults (w_disk (wi_agent kid_wire))" by (simp add: no_faults_def sample_world_def)
  ultimately show ?thesis using result
    unfolding wire_val_simps extend_command sum.case
    by (simp del: session_loop.simps) (fastforce simp del: session_loop.simps)
qed

text \<open>
  A parent's request is carried out, and the parent is told so: a settings request
  that the panel builds for this agent, delivered while its stamp is fresh, is answered by
  a text the panel accepts under its own name, version and request id; either the answer
  says ok and settings, lock, extensions and usage are what the command prescribes, and
  a save of them has been tried, or the answer is an error and nothing at all has changed.
\<close>

theorem parents_request_is_carried_out:
  assumes "build_request (e_python env) secret action var val req_id name ts nonce 3 tail = Inr body"
    and "sendable n action var val name tail" and "fresh_stamp ts nonce now"
    and "named (e_platform env) n" and "action \<in> set settings_actions"
    and "clean_texts (e_python env) secret n" and "pred_option (list_all is_scalar) req_id"
    and "pred_option (list_all is_scalar) var" and "fresh_stamp sent (make_nonce random) later"
    and "prev_day (date_of (w_clock w)) = Inr y" and "valid_date (date_of (w_clock w))"
    and "\<not> w_state_load_failed w"
  shows "\<exists>reply w' resp. handle_request env body secret now sent random w = (Inr reply, w')
    \<and> parse_response (e_python env) reply secret (Some n) (Some 3) later = Inr resp \<and> sid resp = req_id
    \<and> (case command_of (sent_request action var val req_id name ts nonce tail) of
          Inl e \<Rightarrow> w' = w \<and> \<not> response_ok resp
        | Inr c \<Rightarrow> parental_of w' = obey (w_clock w) c (parental_of w) \<and> save_tried w w' \<and> response_ok resp)"
  using assms by (rule sent_request_answered)

theorem parents_request_is_carried_out_witness:
  "\<exists>body reply w' resp. extend_request = Inr body
    \<and> handle_request sample_env body (lit ''key'') 1030 1030 sample_random sample_world = (Inr reply, w')
    \<and> parse_response (e_python sample_env) reply (lit ''key'') (Some (lit ''kid'')) (Some 3) 1031 = Inr resp
    \<and> response_ok resp \<and> par_extension (parental_of w') = 1800"
proof -
  obtain body where b: "extend_request = Inr body" using extend_request_built ..
  have "par_extension (obey (w_clock sample_world) (Extend_by 30) (parental_of sample_world)) = 1800"
    by (simp add: parental_of_def sample_world_def)
  moreover have "pred_option (list_all is_scalar) (None :: pystr option)" by simp
  note sent = parents_request_is_carried_out [OF b [unfolded extend_request_def] extend_sendable sample_stamp
      sample_named extend_is_settings sample_clean this this sample_reply_stamp sample_clock(1,2,4),
      unfolded extend_command sum.case]
  ultimately show ?thesis using b sent by (metis (no_types))
qed

text \<open>
  A captured extension counts twice: the agent remembers no nonce, so the same signed
  text, delivered again within the window, is executed again and adds its minutes a second
  time.
\<close>

theorem captured_extension_counts_twice:
  assumes "build_request (e_python env) secret (lit ''extend'') None (Some (PInt m)) None (Some n) ts nonce 3 None
      = Inr body"
    and "fresh_stamp ts nonce now" and "fresh_stamp ts nonce again" and "1 \<le> m" and "m \<le> 1440"
    and "named (e_platform env) n" and "clean_texts (e_python env) secret n"
    and "fresh_stamp sent (make_nonce random) later"
    and "prev_day (date_of (w_clock w)) = Inr y" and "valid_date (date_of (w_clock w))"
    and "\<not> w_state_load_failed w"
  shows "par_extension (parental_of (snd (handle_request env body secret again sent random
            (snd (handle_request env body secret now sent random w)))))
      = par_extension (parental_of w) + 2 * (m * 60)"
proof -
  have s: "sendable n (lit ''extend'') None (Some (PInt m)) (Some n) None"
    using assms(4,5) by (simp add: sendable_def ACTIONS_def WRITE_ACTIONS_def ok_val_def)
  have c: "command_of (sent_request (lit ''extend'') None (Some (PInt m)) None (Some n) ts nonce None)
      = Inr (Extend_by m)"
    using assms(4,5) by (simp add: command_of_def val_or_none_def minutes_of_def parse_int_def MAX_PARSED_INT_def
        check_minutes_def MIN_DAILY_LIMIT_def MAX_DAILY_LIMIT_def)
  have once: "\<exists>w'. snd (handle_request env body secret t sent random v) = w'
      \<and> parental_of w' = obey (w_clock v) (Extend_by m) (parental_of v) \<and> save_tried v w'"
    if "fresh_stamp ts nonce t" "w_clock v = w_clock w" "\<not> w_state_load_failed v" for t v
    using sent_request_answered [OF assms(1) s that(1) assms(6) extend_is_settings assms(7) _ _ assms(8), of v y]
      that(2,3) assms(9,10) c by fastforce
  obtain w1 where w1: "snd (handle_request env body secret now sent random w) = w1"
    "parental_of w1 = obey (w_clock w) (Extend_by m) (parental_of w)" "save_tried w w1"
    using once [OF assms(2) refl assms(11)] by blast
  then obtain w2 where "snd (handle_request env body secret again sent random w1) = w2"
    "parental_of w2 = obey (w_clock w1) (Extend_by m) (parental_of w1)"
    using once [OF assms(3), of w1] assms(11) by (auto simp: save_tried_def)
  with w1 show ?thesis by simp
qed

theorem captured_extension_counts_twice_witness:
  "\<exists>body. extend_request = Inr body
     \<and> par_extension (parental_of (snd (handle_request sample_env body (lit ''key'') 1059 1030 sample_random
            (snd (handle_request sample_env body (lit ''key'') 1030 1030 sample_random sample_world))))) = 3600"
proof -
  obtain body where b: "extend_request = Inr body" using extend_request_built ..
  have t: "fresh_stamp 1000 sample_nonce 1059"
    using sample_stamp by (simp add: fresh_stamp_def timestamp_in_window_def TIMESTAMP_WINDOW_SECONDS_def)
  have "par_extension (parental_of sample_world) = 0" by (simp add: parental_of_def sample_world_def)
  with captured_extension_counts_twice [OF b [unfolded extend_request_def] sample_stamp t _ _ sample_named sample_clean
      sample_reply_stamp sample_clock(1,2,4)]
  show ?thesis by (intro exI [of _ body] conjI b) simp
qed

end
